(* ===== verification/Prelude.thy ===== *)
theory Prelude
  imports Main "HOL-Library.List_Lexorder" "HOL-Library.Sublist"
begin

section \<open>Prelude: collections of facts and the generic lemmas the components share\<close>

text \<open>
  This theory holds what is not about the spooler itself: the fact collections that the
  components fill, and lemmas on lists, options and prefixes that several of them use.
  \<^item> \<open>cstr_simps\<close> collects the rewrite rules of the C string functions;
  \<^item> \<open>ll_simps\<close> collects the facts on line lists;
  \<^item> \<open>codec_simps\<close> collects the facts on the text encodings.
\<close>

named_theorems cstr_simps "rewrite rules of the C string library model"
named_theorems ll_simps "facts on the sorted line lists"
named_theorems codec_simps "facts on the text encodings"

subsection \<open>Prefixes cut at a separator\<close>

lemma takeWhile_append_hit:
  "\<forall>x\<in>set xs. P x \<Longrightarrow> \<not> P y \<Longrightarrow> takeWhile P (xs @ y # ys) = xs"
  by (induction xs) auto

lemma dropWhile_append_hit:
  "\<forall>x\<in>set xs. P x \<Longrightarrow> \<not> P y \<Longrightarrow> dropWhile P (xs @ y # ys) = y # ys"
  by (induction xs) auto

lemma takeWhile_all: "\<forall>x\<in>set xs. P x \<Longrightarrow> takeWhile P xs = xs"
  by (induction xs) auto

lemma dropWhile_all: "\<forall>x\<in>set xs. P x \<Longrightarrow> dropWhile P xs = []"
  by (induction xs) auto

lemma length_dropWhile_le_self: "length (dropWhile P xs) \<le> length xs"
  by (induction xs) auto

subsection \<open>Insertion and replacement at an index\<close>

definition insert_at :: "nat \<Rightarrow> 'a \<Rightarrow> 'a list \<Rightarrow> 'a list" where
  "insert_at i x xs = take i xs @ x # drop i xs"

definition remove_at :: "nat \<Rightarrow> 'a list \<Rightarrow> 'a list" where
  "remove_at i xs = take i xs @ drop (Suc i) xs"

lemma length_insert_at [simp]: "i \<le> length xs \<Longrightarrow> length (insert_at i x xs) = Suc (length xs)"
  by (simp add: insert_at_def)

lemma length_remove_at [simp]: "i < length xs \<Longrightarrow> length (remove_at i xs) = length xs - 1"
  by (simp add: remove_at_def)

lemma set_insert_at [simp]: "set (insert_at i x xs) = insert x (set xs)"
proof -
  have "set xs = set (take i xs @ drop i xs)" by simp
  then show ?thesis unfolding insert_at_def set_append by auto
qed

lemma set_remove_at_subset: "set (remove_at i xs) \<subseteq> set xs"
  unfolding remove_at_def by (auto dest: in_set_takeD in_set_dropD)

lemma map_insert_at: "map f (insert_at i x xs) = insert_at i (f x) (map f xs)"
  by (simp add: insert_at_def take_map drop_map)

lemma map_remove_at: "map f (remove_at i xs) = remove_at i (map f xs)"
  by (simp add: remove_at_def take_map drop_map)

lemma sorted_insert_at:
  fixes xs :: "'a::linorder list"
  assumes "sorted xs" and "i \<le> length xs"
    and "\<And>j. j < i \<Longrightarrow> xs ! j \<le> x" and "\<And>j. i \<le> j \<Longrightarrow> j < length xs \<Longrightarrow> x \<le> xs ! j"
  shows "sorted (insert_at i x xs)"
proof -
  have "\<forall>y\<in>set (take i xs). y \<le> x"
    using assms(2,3) by (auto simp: in_set_conv_nth)
  moreover have "\<forall>y\<in>set (drop i xs). x \<le> y"
    using assms(2,4) by (auto simp: in_set_conv_nth)
  ultimately show ?thesis
    using assms(1) unfolding insert_at_def
    by (fastforce simp: sorted_append sorted_wrt_take sorted_wrt_drop)
qed

lemma sorted_remove_at: "sorted xs \<Longrightarrow> sorted (remove_at i xs)" for xs :: "'a::linorder list"
proof -
  assume s: "sorted xs"
  have "sorted (take i xs @ drop i xs)" using s by simp
  then have le: "\<forall>a\<in>set (take i xs). \<forall>b\<in>set (drop i xs). a \<le> b"
    unfolding sorted_append by blast
  have "set (drop (Suc i) xs) \<subseteq> set (drop i xs)"
    by (rule set_drop_subset_set_drop) simp
  with s le show "sorted (remove_at i xs)"
    unfolding remove_at_def sorted_append by (auto simp: sorted_wrt_take sorted_wrt_drop)
qed

lemma sorted_list_update:
  fixes xs :: "'a::linorder list"
  shows "sorted xs \<Longrightarrow> xs ! i = x \<Longrightarrow> sorted (xs[i := x])"
  by (metis list_update_id)

end
