(* ===== verification/CString.thy ===== *)
theory CString
  imports Prelude
begin

section \<open>C strings: characters, the safe string functions, strtol\<close>

text \<open>
  A C string is the list of its characters up to the terminating NUL, which is not a member
  of the list (\<open>cstr_ok\<close>). A \<open>char *\<close> that may be null is a \<open>cstr option\<close>; a pointer into a
  string is the suffix it points at. The character classes are those of the C locale.
  The theory models the bomb-proof string functions of \<open>src/src/common/utilities.c\<close>
  (\<open>safestrcasecmp\<close> and its kin, \<open>mystrncpy\<close>, \<open>mystrncat\<close>) and the string helpers at the head of
  \<open>src/src/common/linelist.c\<close> (\<open>lowercase\<close>, \<open>trunc_str\<close>, \<open>safestrdup2\<close> ...), and the part of
  the C library they use (\<open>strtol\<close>, the conversion of \<open>long\<close> to \<open>int\<close>).
  Its lemmas relate the two comparisons to the lexicographic order on character codes.
\<close>

type_synonym cstr = string

definition NUL :: char where "NUL = CHR 0x00"

definition cstr_ok :: "cstr \<Rightarrow> bool" where
  "cstr_ok s \<longleftrightarrow> NUL \<notin> set s"

subsection \<open>Characters\<close>

definition ccode :: "char \<Rightarrow> int" where
  "ccode c = of_char c"

definition isupper :: "char \<Rightarrow> bool" where
  "isupper c \<longleftrightarrow> 65 \<le> ccode c \<and> ccode c \<le> 90"

definition islower :: "char \<Rightarrow> bool" where
  "islower c \<longleftrightarrow> 97 \<le> ccode c \<and> ccode c \<le> 122"

definition isalpha :: "char \<Rightarrow> bool" where
  "isalpha c \<longleftrightarrow> isupper c \<or> islower c"

definition isdigit :: "char \<Rightarrow> bool" where
  "isdigit c \<longleftrightarrow> 48 \<le> ccode c \<and> ccode c \<le> 57"

definition isalnum :: "char \<Rightarrow> bool" where
  "isalnum c \<longleftrightarrow> isalpha c \<or> isdigit c"

definition isspace :: "char \<Rightarrow> bool" where
  "isspace c \<longleftrightarrow> ccode c = 32 \<or> (9 \<le> ccode c \<and> ccode c \<le> 13)"

definition iscntrl :: "char \<Rightarrow> bool" where
  "iscntrl c \<longleftrightarrow> ccode c \<le> 31 \<or> ccode c = 127"

definition isprint :: "char \<Rightarrow> bool" where
  "isprint c \<longleftrightarrow> 32 \<le> ccode c \<and> ccode c \<le> 126"

definition tolower :: "char \<Rightarrow> char" where
  "tolower c = (if isupper c then char_of (ccode c + 32) else c)"

definition toupper :: "char \<Rightarrow> char" where
  "toupper c = (if islower c then char_of (ccode c - 32) else c)"

lemma ccode_range: "0 \<le> ccode c \<and> ccode c < 256"
  unfolding ccode_def by (metis of_char_mod_256 pos_mod_bound pos_mod_sign zero_less_numeral)

lemma ccode_inject [simp]: "ccode a = ccode b \<longleftrightarrow> a = b"
  by (simp add: ccode_def)

lemma ccode_char_of: "0 \<le> n \<Longrightarrow> n < 256 \<Longrightarrow> ccode (char_of n) = n"
  by (simp add: ccode_def)

lemma ccode_NUL [simp]: "ccode NUL = 0"
  by (simp add: ccode_def NUL_def)

lemma ccode_eq_0_iff: "ccode c = 0 \<longleftrightarrow> c = NUL"
  by (metis ccode_NUL ccode_inject)

lemma ccode_pos: "c \<noteq> NUL \<Longrightarrow> 0 < ccode c"
  using ccode_range [of c] ccode_eq_0_iff [of c] by linarith

lemmas ctype_defs =
  isupper_def islower_def isalpha_def isdigit_def isalnum_def isspace_def iscntrl_def isprint_def

lemma ccode_tolower: "ccode (tolower c) = (if isupper c then ccode c + 32 else ccode c)"
  by (auto simp: tolower_def isupper_def ccode_char_of)

lemma tolower_not_upper [simp]: "\<not> isupper (tolower c)"
  by (auto simp: isupper_def ccode_tolower)

lemma tolower_idem [simp]: "tolower (tolower c) = tolower c"
  using tolower_not_upper [of c] by (simp add: tolower_def)

lemma tolower_NUL_iff [simp]: "tolower c = NUL \<longleftrightarrow> c = NUL"
proof -
  have "ccode (tolower c) = 0 \<longleftrightarrow> ccode c = 0"
    by (auto simp: ccode_tolower isupper_def)
  then show ?thesis by (simp only: ccode_eq_0_iff)
qed

subsection \<open>Searching: strchr, strrchr, strpbrk and their safe versions\<close>

text \<open>
  The C library's \<open>strchr\<close> and \<open>strpbrk\<close> return a pointer to the first hit: the suffix that
  starts there. \<open>strchr (s, 0)\<close> finds the terminating NUL, the empty suffix.
\<close>

fun strchr :: "cstr \<Rightarrow> char \<Rightarrow> cstr option" where
  "strchr [] c = (if c = NUL then Some [] else None)"
| "strchr (x # xs) c = (if x = c then Some (x # xs) else strchr xs c)"

fun strrchr :: "cstr \<Rightarrow> char \<Rightarrow> cstr option" where
  "strrchr [] c = (if c = NUL then Some [] else None)"
| "strrchr (x # xs) c =
     (case strrchr xs c of Some t \<Rightarrow> Some t | None \<Rightarrow> if x = c then Some (x # xs) else None)"

fun strpbrk :: "cstr \<Rightarrow> cstr \<Rightarrow> cstr option" where
  "strpbrk [] seps = None"
| "strpbrk (x # xs) seps = (if x \<in> set seps then Some (x # xs) else strpbrk xs seps)"

definition safestrlen :: "cstr option \<Rightarrow> nat" where
  "safestrlen s = (case s of Some t \<Rightarrow> length t | None \<Rightarrow> 0)"

definition safestrchr :: "cstr option \<Rightarrow> char \<Rightarrow> cstr option" where
  "safestrchr s c = (case s of Some t \<Rightarrow> strchr t c | None \<Rightarrow> None)"

definition safestrrchr :: "cstr option \<Rightarrow> char \<Rightarrow> cstr option" where
  "safestrrchr s c = (case s of Some t \<Rightarrow> strrchr t c | None \<Rightarrow> None)"

definition safestrpbrk :: "cstr option \<Rightarrow> cstr option \<Rightarrow> cstr option" where
  "safestrpbrk s seps =
     (case s of None \<Rightarrow> None | Some t \<Rightarrow> (case seps of None \<Rightarrow> None | Some u \<Rightarrow> strpbrk t u))"

lemma strchr_None_iff: "c \<noteq> NUL \<Longrightarrow> strchr s c = None \<longleftrightarrow> c \<notin> set s"
  by (induction s) auto

lemma strchr_dropWhile: "c \<in> set s \<Longrightarrow> strchr s c = Some (dropWhile (\<lambda>x. x \<noteq> c) s)"
  by (induction s) auto

lemma strpbrk_None_iff: "strpbrk s seps = None \<longleftrightarrow> set s \<inter> set seps = {}"
  by (induction s) auto

lemma strpbrk_dropWhile:
  "strpbrk s seps = (case dropWhile (\<lambda>c. c \<notin> set seps) s of [] \<Rightarrow> None | x # xs \<Rightarrow> Some (x # xs))"
  by (induction s) auto

lemma strpbrk_append_hit:
  "set k \<inter> set seps = {} \<Longrightarrow> c \<in> set seps \<Longrightarrow> strpbrk (k @ c # v) seps = Some (c # v)"
  by (induction k) auto

lemma strpbrk_Some_Cons: "strpbrk s seps = Some t \<Longrightarrow> \<exists>c u. t = c # u \<and> c \<in> set seps"
  by (induction s) (auto split: if_splits)

text \<open>
  The recurring idiom \<open>if ((t = strpbrk (s, sep))) *t = 0\<close>: the part of the string before the
  first separator; the whole string when there is no separator set.
\<close>

definition key_of :: "cstr option \<Rightarrow> cstr \<Rightarrow> cstr" where
  "key_of sep s = (case sep of None \<Rightarrow> s | Some seps \<Rightarrow> takeWhile (\<lambda>c. c \<notin> set seps) s)"

lemma key_of_None [simp]: "key_of None s = s"
  by (simp add: key_of_def)

lemma key_of_clean: "set k \<inter> set seps = {} \<Longrightarrow> key_of (Some seps) k = k"
  by (auto simp: key_of_def intro: takeWhile_all)

lemma key_of_append:
  "set k \<inter> set seps = {} \<Longrightarrow> c \<in> set seps \<Longrightarrow> key_of (Some seps) (k @ c # v) = k"
  unfolding key_of_def by (auto intro: takeWhile_append_hit)

lemma key_of_set: "set (key_of sep s) \<subseteq> set s"
  by (auto simp: key_of_def dest: set_takeWhileD split: option.splits)

subsection \<open>Comparison\<close>

text \<open>
  The loops compare code by code, after folding upper case where the name says so, and return
  the difference at the first position where the strings differ; the NUL that ends a string
  counts as code 0. The null-pointer cases come first.
\<close>

fun strcasecmp_loop :: "cstr \<Rightarrow> cstr \<Rightarrow> int" where
  "strcasecmp_loop [] [] = 0"
| "strcasecmp_loop [] (b # bs) = 0 - ccode (tolower b)"
| "strcasecmp_loop (a # as) [] = ccode (tolower a)"
| "strcasecmp_loop (a # as) (b # bs) =
     (let d = ccode (tolower a) - ccode (tolower b)
      in if d \<noteq> 0 then d else strcasecmp_loop as bs)"

fun strcmp :: "cstr \<Rightarrow> cstr \<Rightarrow> int" where
  "strcmp [] [] = 0"
| "strcmp [] (b # bs) = 0 - ccode b"
| "strcmp (a # as) [] = ccode a"
| "strcmp (a # as) (b # bs) = (let d = ccode a - ccode b in if d \<noteq> 0 then d else strcmp as bs)"

fun null_compare :: "(cstr \<Rightarrow> cstr \<Rightarrow> int) \<Rightarrow> cstr option \<Rightarrow> cstr option \<Rightarrow> int" where
  "null_compare f None None = 0"
| "null_compare f None (Some t) = -1"
| "null_compare f (Some s) None = 1"
| "null_compare f (Some s) (Some t) = f s t"

definition safestrcasecmp :: "cstr option \<Rightarrow> cstr option \<Rightarrow> int" where
  "safestrcasecmp = null_compare strcasecmp_loop"

definition safestrcmp :: "cstr option \<Rightarrow> cstr option \<Rightarrow> int" where
  "safestrcmp = null_compare strcmp"

fun strncasecmp_loop :: "nat \<Rightarrow> cstr \<Rightarrow> cstr \<Rightarrow> int" where
  "strncasecmp_loop 0 s t = 0"
| "strncasecmp_loop (Suc n) [] [] = 0"
| "strncasecmp_loop (Suc n) [] (b # bs) = 0 - ccode (tolower b)"
| "strncasecmp_loop (Suc n) (a # as) [] = ccode (tolower a)"
| "strncasecmp_loop (Suc n) (a # as) (b # bs) =
     (let d = ccode (tolower a) - ccode (tolower b)
      in if d \<noteq> 0 then d else strncasecmp_loop n as bs)"

definition safestrncasecmp :: "cstr option \<Rightarrow> cstr option \<Rightarrow> nat \<Rightarrow> int" where
  "safestrncasecmp s t n = null_compare (strncasecmp_loop n) s t"

definition safestrncmp :: "cstr option \<Rightarrow> cstr option \<Rightarrow> nat \<Rightarrow> int" where
  "safestrncmp s t n = null_compare (\<lambda>a b. strcmp (take n a) (take n b)) s t"

text \<open>
  The order behind the two comparisons: the lists of the character codes, folded or not,
  compared lexicographically.
\<close>

definition codes :: "cstr \<Rightarrow> int list" where
  "codes s = map ccode s"

definition fold_codes :: "cstr \<Rightarrow> int list" where
  "fold_codes s = map (\<lambda>c. ccode (tolower c)) s"

lemma codes_inject [simp]: "codes s = codes t \<longleftrightarrow> s = t"
  unfolding codes_def by (rule inj_map_eq_map) (auto intro: injI)

lemma cstr_ok_Cons [simp]: "cstr_ok (c # s) \<longleftrightarrow> c \<noteq> NUL \<and> cstr_ok s"
  by (auto simp: cstr_ok_def)

lemma cstr_ok_Nil [simp]: "cstr_ok []"
  by (simp add: cstr_ok_def)

lemma cstr_ok_append [simp]: "cstr_ok (s @ t) \<longleftrightarrow> cstr_ok s \<and> cstr_ok t"
  by (auto simp: cstr_ok_def)

lemma cstr_ok_subset: "cstr_ok s \<Longrightarrow> set t \<subseteq> set s \<Longrightarrow> cstr_ok t"
  by (auto simp: cstr_ok_def)

lemma cstr_ok_key_of: "cstr_ok s \<Longrightarrow> cstr_ok (key_of sep s)"
  by (rule cstr_ok_subset [OF _ key_of_set])

lemma tolower_code_pos: "c \<noteq> NUL \<Longrightarrow> 0 < ccode (tolower c)"
  by (simp add: ccode_pos)

lemma strcasecmp_sgn:
  "cstr_ok s \<Longrightarrow> cstr_ok t \<Longrightarrow>
   (strcasecmp_loop s t < 0 \<longleftrightarrow> fold_codes s < fold_codes t) \<and>
   (strcasecmp_loop s t = 0 \<longleftrightarrow> fold_codes s = fold_codes t)"
  by (induction s t rule: strcasecmp_loop.induct)
    (auto simp: fold_codes_def Let_def dest: tolower_code_pos)

lemma strcmp_sgn:
  "cstr_ok s \<Longrightarrow> cstr_ok t \<Longrightarrow>
   (strcmp s t < 0 \<longleftrightarrow> codes s < codes t) \<and> (strcmp s t = 0 \<longleftrightarrow> codes s = codes t)"
  by (induction s t rule: strcmp.induct)
    (auto simp: codes_def Let_def dest: ccode_pos)

lemma strcmp_refl [simp]: "strcmp s s = 0"
  by (induction s) auto

lemma strcasecmp_refl [simp]: "strcasecmp_loop s s = 0"
  by (induction s) auto

lemma strcasecmp_swap: "strcasecmp_loop s t = - strcasecmp_loop t s"
  by (induction s t rule: strcasecmp_loop.induct) (auto simp: Let_def)

lemma strcmp_swap: "strcmp s t = - strcmp t s"
  by (induction s t rule: strcmp.induct) (auto simp: Let_def)

lemma null_compare_swap:
  "(\<And>s t. f s t = - f t s) \<Longrightarrow> null_compare f a b = - null_compare f b a"
proof -
  assume f: "\<And>s t. f s t = - f t s"
  show ?thesis
  proof (cases a)
    case None
    then show ?thesis by (cases b) auto
  next
    case (Some s)
    show ?thesis
    proof (cases b)
      case None
      with Some show ?thesis by simp
    next
      case (Some t)
      show ?thesis unfolding Some \<open>a = Some s\<close> null_compare.simps by (rule f)
    qed
  qed
qed

lemma strcmp_eq_0_iff: "cstr_ok s \<Longrightarrow> cstr_ok t \<Longrightarrow> strcmp s t = 0 \<longleftrightarrow> s = t"
  by (simp add: strcmp_sgn)

subsection \<open>Case conversion and trimming (linelist.c)\<close>

definition lowercase :: "cstr \<Rightarrow> cstr" where
  "lowercase s = map (\<lambda>c. if isupper c then tolower c else c) s"

definition uppercase :: "cstr \<Rightarrow> cstr" where
  "uppercase s = map (\<lambda>c. if islower c then toupper c else c) s"

text \<open>\<open>trunc_str\<close> walks back from the end over white space and cuts there.\<close>

definition trunc_str :: "cstr \<Rightarrow> cstr" where
  "trunc_str s = rev (dropWhile isspace (rev s))"

definition Lastchar :: "cstr option \<Rightarrow> char" where
  "Lastchar s = (case s of None \<Rightarrow> NUL | Some [] \<Rightarrow> NUL | Some (x # xs) \<Rightarrow> last (x # xs))"

lemma length_lowercase [simp]: "length (lowercase s) = length s"
  by (simp add: lowercase_def)

lemma fold_codes_lowercase [simp]: "fold_codes (lowercase s) = fold_codes s"
  by (auto simp: fold_codes_def lowercase_def)

lemma trunc_str_idem [simp]: "trunc_str (trunc_str s) = trunc_str s"
  by (simp add: trunc_str_def dropWhile_idem)

subsection \<open>Concatenation into fresh memory (linelist.c)\<close>

text \<open>
  \<open>safestrdup\<close> and the \<open>safestrdupN\<close> and \<open>safeextendN\<close> families allocate
  \<open>1 + strlen s1 + ... + strlen sn\<close> bytes and concatenate the arguments that are not null.
  \<open>opt_str\<close> reads a possibly null argument as the text it contributes. A failed allocation
  ends the process (\<open>logerr_die\<close>, \<open>abort\<close>) and is not a value.
\<close>

definition opt_str :: "cstr option \<Rightarrow> cstr" where
  "opt_str s = (case s of None \<Rightarrow> [] | Some t \<Rightarrow> t)"

definition safestrdup :: "cstr option \<Rightarrow> cstr" where
  "safestrdup p = (case p of None \<Rightarrow> [] | Some s \<Rightarrow> s)"

definition safestrdup2 :: "cstr option \<Rightarrow> cstr option \<Rightarrow> cstr" where
  "safestrdup2 s1 s2 = opt_str s1 @ opt_str s2"

definition safestrdup3 :: "cstr option \<Rightarrow> cstr option \<Rightarrow> cstr option \<Rightarrow> cstr" where
  "safestrdup3 s1 s2 s3 = opt_str s1 @ opt_str s2 @ opt_str s3"

definition safestrdup4 :: "cstr option \<Rightarrow> cstr option \<Rightarrow> cstr option \<Rightarrow> cstr option \<Rightarrow> cstr" where
  "safestrdup4 s1 s2 s3 s4 = opt_str s1 @ opt_str s2 @ opt_str s3 @ opt_str s4"

definition safestrdup5 ::
  "cstr option \<Rightarrow> cstr option \<Rightarrow> cstr option \<Rightarrow> cstr option \<Rightarrow> cstr option \<Rightarrow> cstr" where
  "safestrdup5 s1 s2 s3 s4 s5 = opt_str s1 @ opt_str s2 @ opt_str s3 @ opt_str s4 @ opt_str s5"

definition safeextend2 :: "cstr option \<Rightarrow> cstr option \<Rightarrow> cstr" where
  "safeextend2 s1 s2 = opt_str s1 @ opt_str s2"

definition safeextend3 :: "cstr option \<Rightarrow> cstr option \<Rightarrow> cstr option \<Rightarrow> cstr" where
  "safeextend3 s1 s2 s3 = opt_str s1 @ opt_str s2 @ opt_str s3"

definition safeextend4 :: "cstr option \<Rightarrow> cstr option \<Rightarrow> cstr option \<Rightarrow> cstr option \<Rightarrow> cstr" where
  "safeextend4 s1 s2 s3 s4 = opt_str s1 @ opt_str s2 @ opt_str s3 @ opt_str s4"

definition safeextend5 ::
  "cstr option \<Rightarrow> cstr option \<Rightarrow> cstr option \<Rightarrow> cstr option \<Rightarrow> cstr option \<Rightarrow> cstr" where
  "safeextend5 s1 s2 s3 s4 s5 = opt_str s1 @ opt_str s2 @ opt_str s3 @ opt_str s4 @ opt_str s5"

lemmas safestr_defs =
  safestrdup_def safestrdup2_def safestrdup3_def safestrdup4_def safestrdup5_def
  safeextend2_def safeextend3_def safeextend4_def safeextend5_def opt_str_def

subsection \<open>Fixed-size buffers: mystrncpy and mystrncat (utilities.c)\<close>

text \<open>
  A buffer is the list of all its bytes, its size the length of the list; the string it holds is
  what comes before the first NUL (\<open>buf_str\<close>). \<open>strncpy d s n\<close> writes exactly \<open>n\<close> bytes: the
  string, padded with NULs, and no NUL when the string is \<open>n\<close> or longer. A write past the end
  of the buffer is \<open>None\<close>.
\<close>

definition buf_str :: "char list \<Rightarrow> cstr" where
  "buf_str b = takeWhile (\<lambda>c. c \<noteq> NUL) b"

definition terminated :: "char list \<Rightarrow> bool" where
  "terminated b \<longleftrightarrow> NUL \<in> set b"

definition write_at :: "char list \<Rightarrow> nat \<Rightarrow> char list \<Rightarrow> char list option" where
  "write_at b i xs =
     (if i + length xs \<le> length b then Some (take i b @ xs @ drop (i + length xs) b) else None)"

definition strncpy_bytes :: "cstr \<Rightarrow> nat \<Rightarrow> char list" where
  "strncpy_bytes s n = take n s @ replicate (n - length s) NUL"

definition mystrncpy :: "char list \<Rightarrow> cstr option \<Rightarrow> nat \<Rightarrow> char list option" where
  "mystrncpy s1 s2 len =
     (case write_at s1 0 [NUL] of
        None \<Rightarrow> None
      | Some b \<Rightarrow>
          (case s2 of
             None \<Rightarrow> Some b
           | Some s \<Rightarrow>
               if 0 < int len - 1
               then (case write_at b 0 (strncpy_bytes s (len - 1)) of
                       None \<Rightarrow> None
                     | Some b' \<Rightarrow> write_at b' (len - 1) [NUL])
               else Some b))"

definition mystrncat :: "char list \<Rightarrow> cstr option \<Rightarrow> nat \<Rightarrow> char list option" where
  "mystrncat s1 s2 len =
     (if len = 0 then None
      else (case write_at s1 (len - 1) [NUL] of
        None \<Rightarrow> None
      | Some b \<Rightarrow>
          (let size = length (buf_str b)
           in case s2 of
                None \<Rightarrow> Some b
              | Some s \<Rightarrow>
                  if 0 < int len - int size
                  then write_at b size (strncpy_bytes s (len - size))
                  else Some b)))"

lemma length_strncpy_bytes [simp]: "length (strncpy_bytes s n) = n"
  by (auto simp: strncpy_bytes_def)

lemma buf_str_hit: "cstr_ok s \<Longrightarrow> buf_str (s @ NUL # r) = s"
  unfolding buf_str_def cstr_ok_def by (rule takeWhile_append_hit) auto

lemma take_strncpy_bytes: "length s \<le> n \<Longrightarrow> strncpy_bytes s n = s @ replicate (n - length s) NUL"
  by (simp add: strncpy_bytes_def)

text \<open>
  A copy into a buffer of \<open>len\<close> bytes never leaves it, always terminates it, and holds the first
  \<open>len - 1\<close> characters of the source.
\<close>

lemma mystrncpy_ok:
  assumes "length b = len" "2 \<le> len" "cstr_ok s"
  shows "\<exists>b'. mystrncpy b (Some s) len = Some b' \<and> length b' = len \<and>
    terminated b' \<and> buf_str b' = take (len - 1) s"
proof -
  obtain x b2 where b: "b = x # b2" and l2: "length b2 = len - 1"
    using assms(1,2) by (cases b) auto
  define w where "w = strncpy_bytes s (len - 1)"
  have w1: "write_at b 0 [NUL] = Some (NUL # b2)"
    by (simp add: write_at_def b)
  have w2: "write_at (NUL # b2) 0 w = Some (w @ drop (len - 1) (NUL # b2))"
    using assms(2) l2 by (simp add: write_at_def w_def)
  have w3: "write_at (w @ drop (len - 1) (NUL # b2)) (len - 1) [NUL] = Some (w @ [NUL])"
    using assms(2) l2 by (simp add: write_at_def w_def)
  have "mystrncpy b (Some s) len = Some (w @ [NUL])"
    using assms(2) w1 w2 w3 by (simp add: mystrncpy_def w_def of_nat_diff)
  moreover have "buf_str (w @ [NUL]) = take (len - 1) s"
  proof (cases "length s < len - 1")
    case True
    then obtain m where m: "len - 1 - length s = Suc m" by (cases "len - 1 - length s") auto
    with True have "w @ [NUL] = s @ NUL # (replicate m NUL @ [NUL])"
      by (simp add: w_def strncpy_bytes_def)
    with assms(3) True show ?thesis by (simp add: buf_str_hit)
  next
    case False
    then have "w = take (len - 1) s" by (simp add: w_def strncpy_bytes_def)
    moreover have "cstr_ok (take (len - 1) s)"
      using assms(3) by (rule cstr_ok_subset) (rule set_take_subset)
    ultimately show ?thesis by (simp add: buf_str_hit)
  qed
  moreover have "length (w @ [NUL]) = len" using assms(2) by (simp add: w_def)
  ultimately show ?thesis by (auto simp: terminated_def)
qed

text \<open>
  \<open>mystrncat\<close> gives \<open>strncpy\<close> all the room that is left, so when the source does not fit the NUL
  that the first line wrote at the end is overwritten: the buffer is left without a terminator.
\<close>

lemma mystrncat_result:
  assumes "length b = len" "buf_str b = p" "length p < len - 1" "b ! length p = NUL"
    "b ! (len - 1) = NUL" "cstr_ok s"
  shows "mystrncat b (Some s) len = Some (p @ strncpy_bytes s (len - length p))"
proof -
  have ne: "len \<noteq> 0" using assms(3) by simp
  have "b = take (len - 1) b @ b ! (len - 1) # drop (Suc (len - 1)) b"
    using assms(1) ne by (intro id_take_nth_drop) simp
  then have upd: "take (len - 1) b @ [NUL] @ drop (len - 1 + 1) b = b"
    using assms(5) by simp
  have w1: "write_at b (len - 1) [NUL] = Some b"
    using assms(1) ne upd by (simp add: write_at_def)
  have tp: "take (length p) b = p"
    using assms(2) unfolding buf_str_def by (metis takeWhile_eq_take)
  have "write_at b (length p) (strncpy_bytes s (len - length p)) =
      Some (p @ strncpy_bytes s (len - length p))"
    using assms(1,3) tp by (simp add: write_at_def)
  moreover have "length p < len" using assms(3) by simp
  ultimately show ?thesis
    using w1 ne assms(2) by (simp add: mystrncat_def Let_def)
qed

lemma mystrncat_terminated_iff:
  assumes "length b = len" "buf_str b = p" "length p < len - 1" "b ! length p = NUL"
    "b ! (len - 1) = NUL" "cstr_ok s"
  shows "(\<exists>b'. mystrncat b (Some s) len = Some b' \<and> terminated b')
    \<longleftrightarrow> length p + length s < len"
proof -
  have p: "NUL \<notin> set p"
    using assms(2) unfolding buf_str_def by (auto dest: set_takeWhileD)
  have "terminated (p @ strncpy_bytes s (len - length p)) \<longleftrightarrow> length p + length s < len"
    using p assms(3,6)
    by (auto simp: terminated_def strncpy_bytes_def cstr_ok_def dest: in_set_takeD)
  then show ?thesis by (simp add: mystrncat_result [OF assms])
qed

subsection \<open>Numbers: strtol and the conversion to int\<close>

text \<open>
  The C library's \<open>strtol\<close> for the bases 0, 8, 10 and 16: white space, a sign, with base 0 or 16
  a prefix \<open>0x\<close> if a hexadecimal digit follows, with base 0 a leading 0 for octal, then the
  longest run of digits; the value saturates at the ends of a 64-bit \<open>long\<close>. The second
  component is \<open>*endptr\<close>, the whole string when there is no digit. \<open>to_int\<close> is the conversion to a
  32-bit \<open>int\<close>, which keeps the low 32 bits.
\<close>

definition digit_val :: "char \<Rightarrow> int" where
  "digit_val c =
     (if isdigit c then ccode c - 48
      else if islower c then ccode c - 87
      else if isupper c then ccode c - 55
      else 36)"

definition LONG_MAX :: int where "LONG_MAX = 9223372036854775807"
definition LONG_MIN :: int where "LONG_MIN = - 9223372036854775808"

definition digits_value :: "int \<Rightarrow> cstr \<Rightarrow> int" where
  "digits_value base ds = foldl (\<lambda>v c. v * base + digit_val c) 0 ds"

definition clamp_long :: "int \<Rightarrow> int" where
  "clamp_long n = (if n < LONG_MIN then LONG_MIN else if LONG_MAX < n then LONG_MAX else n)"

definition hex_prefix :: "cstr \<Rightarrow> bool" where
  "hex_prefix s =
     (case s of z # x # d # _ \<Rightarrow> z = CHR ''0'' \<and> (x = CHR ''x'' \<or> x = CHR ''X'') \<and> digit_val d < 16
      | _ \<Rightarrow> False)"

definition strtol_base :: "int \<Rightarrow> cstr \<Rightarrow> int \<times> cstr" where
  "strtol_base base s =
     (if (base = 0 \<or> base = 16) \<and> hex_prefix s then (16, drop 2 s)
      else if base = 0 then (if take 1 s = ''0'' then (8, s) else (10, s))
      else (base, s))"

definition strtol :: "cstr \<Rightarrow> int \<Rightarrow> int \<times> cstr" where
  "strtol s base =
     (let s1 = dropWhile isspace s;
          neg = (take 1 s1 = ''-'');
          s2 = (if neg \<or> take 1 s1 = ''+'' then drop 1 s1 else s1);
          (b, s3) = strtol_base base s2;
          ds = takeWhile (\<lambda>c. digit_val c < b) s3
      in if ds = [] then (0, s)
         else (clamp_long (if neg then - digits_value b ds else digits_value b ds),
               dropWhile (\<lambda>c. digit_val c < b) s3))"

definition to_int :: "int \<Rightarrow> int" where
  "to_int n = (n + 2147483648) mod 4294967296 - 2147483648"

definition INT_MAX :: int where "INT_MAX = 2147483647"
definition INT_MIN :: int where "INT_MIN = - 2147483648"

lemma to_int_id: "INT_MIN \<le> n \<Longrightarrow> n \<le> INT_MAX \<Longrightarrow> to_int n = n"
  by (simp add: to_int_def INT_MIN_def INT_MAX_def)

lemma to_int_range: "INT_MIN \<le> to_int n \<and> to_int n \<le> INT_MAX"
proof -
  have "0 \<le> (n + 2147483648) mod 4294967296" "(n + 2147483648) mod 4294967296 < 4294967296"
    by simp_all
  then show ?thesis unfolding to_int_def INT_MIN_def INT_MAX_def by linarith
qed

text \<open>
  The text of a number in a base: the digits of \<open>printf\<close>'s conversions, most significant first.
\<close>

definition digit_char :: "nat \<Rightarrow> char" where
  "digit_char d = (if d < 10 then char_of (48 + int d) else char_of (87 + int d))"

function nat_digits :: "nat \<Rightarrow> nat \<Rightarrow> cstr" where
  "nat_digits b n =
     (if n < b \<or> b < 2 then [digit_char n] else nat_digits b (n div b) @ [digit_char (n mod b)])"
  by pat_completeness auto
termination
  by (relation "measure snd") auto

declare nat_digits.simps [simp del]

lemma ccode_digit_char:
  "d < 16 \<Longrightarrow> ccode (digit_char d) = (if d < 10 then 48 + int d else 87 + int d)"
  by (auto simp: digit_char_def intro: ccode_char_of)

lemma digit_val_char: "d < 16 \<Longrightarrow> digit_val (digit_char d) = int d"
  by (simp add: digit_val_def isdigit_def islower_def isupper_def ccode_digit_char)

lemma digit_val_nonneg: "0 \<le> digit_val c"
  by (auto simp: digit_val_def isdigit_def islower_def isupper_def)

lemma nat_digits_nonempty: "nat_digits b n \<noteq> []"
  by (subst nat_digits.simps) simp

lemma nat_digits_set:
  "2 \<le> b \<Longrightarrow> set (nat_digits b n) \<subseteq> digit_char ` {0..<b}"
proof (induction b n rule: nat_digits.induct)
  case (1 b n)
  show ?case
  proof (cases "n < b")
    case True
    then show ?thesis by (subst nat_digits.simps) auto
  next
    case False
    with 1 have "set (nat_digits b (n div b)) \<subseteq> digit_char ` {0..<b}" by simp
    with 1(2) show ?thesis by (subst nat_digits.simps) auto
  qed
qed

lemma digits_value_append:
  "digits_value b (xs @ [c]) = digits_value b xs * b + digit_val c"
  by (simp add: digits_value_def)

lemma digits_value_nat_digits:
  "2 \<le> b \<Longrightarrow> b \<le> 16 \<Longrightarrow> digits_value (int b) (nat_digits b n) = int n"
proof (induction b n rule: nat_digits.induct)
  case (1 b n)
  show ?case
  proof (cases "n < b")
    case True
    with 1 show ?thesis
      by (subst nat_digits.simps) (simp add: digits_value_def digit_val_char)
  next
    case False
    with 1 have IH: "digits_value (int b) (nat_digits b (n div b)) = int (n div b)" by simp
    have "n mod b < b" using 1 by simp
    with 1 have "n mod b < 16" by linarith
    then have dv: "digit_val (digit_char (n mod b)) = int (n mod b)" by (rule digit_val_char)
    from False 1 have "nat_digits b n = nat_digits b (n div b) @ [digit_char (n mod b)]"
      by (subst nat_digits.simps) simp
    then have "digits_value (int b) (nat_digits b n) = int (n div b) * int b + int (n mod b)"
      by (simp add: digits_value_append IH dv)
    then show ?thesis by (simp flip: of_nat_mult of_nat_add)
  qed
qed

text \<open>\<open>strtol\<close> reads back what the conversions print.\<close>

lemma digit_char_props:
  "d < 16 \<Longrightarrow> \<not> isspace (digit_char d) \<and> digit_char d \<noteq> CHR ''-'' \<and> digit_char d \<noteq> CHR ''+'' \<and>
    digit_char d \<noteq> NUL \<and> digit_char d \<noteq> CHR ''x'' \<and> digit_char d \<noteq> CHR ''X''"
proof -
  assume d: "d < 16"
  have "ccode (CHR ''-'') = 45" "ccode (CHR ''+'') = 43" "ccode (CHR ''x'') = 120"
    "ccode (CHR ''X'') = 88" by (simp_all add: ccode_def)
  with ccode_digit_char [OF d] show ?thesis
    using d by (auto simp: isspace_def dest!: arg_cong [where f = ccode] split: if_splits)
qed

lemma nat_digits_char:
  "2 \<le> b \<Longrightarrow> b \<le> 16 \<Longrightarrow> c \<in> set (nat_digits b n) \<Longrightarrow> \<exists>d < b. c = digit_char d"
  using nat_digits_set [of b n] by fastforce

lemma strtol_digits:
  assumes "2 \<le> b" "b \<le> 16" "set ds \<subseteq> digit_char ` {0..<b}" "ds \<noteq> []"
    and "strtol_base base s3 = (int b, ds)"
    and "s3 \<noteq> []" "\<not> isspace (hd s3)" "hd s3 \<noteq> CHR ''-''" "hd s3 \<noteq> CHR ''+''"
  shows "strtol s3 base = (clamp_long (digits_value (int b) ds), [])"
proof -
  have s3: "dropWhile isspace s3 = s3" "take 1 s3 \<noteq> ''-''" "take 1 s3 \<noteq> ''+''"
    using assms(6-9) by (cases s3; simp)+
  have all: "\<forall>c\<in>set ds. digit_val c < int b"
    using assms(1-3) by (auto simp: digit_val_char)
  with s3 assms(4,5) show ?thesis by (simp add: strtol_def Let_def takeWhile_all dropWhile_all)
qed

lemma strtol_dec: "strtol (nat_digits 10 n) 10 = (clamp_long (int n), [])"
proof -
  let ?ds = "nat_digits 10 n"
  have "hd ?ds \<in> set ?ds" using nat_digits_nonempty by simp
  from nat_digits_char [OF _ _ this] obtain d where d: "d < 10" "hd ?ds = digit_char d" by auto
  then have "strtol ?ds 10 = (clamp_long (digits_value (int 10) ?ds), [])"
    using nat_digits_set [of 10 n] nat_digits_nonempty [of 10 n] digit_char_props [of d]
    by (intro strtol_digits) (auto simp: strtol_base_def)
  then show ?thesis using digits_value_nat_digits [of 10 n] by simp
qed

lemma strtol_hex: "strtol (''0x'' @ nat_digits 16 n) 0 = (clamp_long (int n), [])"
proof -
  let ?ds = "nat_digits 16 n"
  have "hd ?ds \<in> set ?ds" using nat_digits_nonempty by simp
  from nat_digits_char [OF _ _ this] obtain d where d: "d < 16" "hd ?ds = digit_char d" by auto
  moreover obtain r where r: "?ds = digit_char d # r"
    using nat_digits_nonempty [of 16 n] d(2) by (cases ?ds) auto
  ultimately have p: "hex_prefix (''0x'' @ ?ds)" by (simp add: hex_prefix_def digit_val_char)
  then have "strtol_base 0 (''0x'' @ ?ds) = (int 16, ?ds)" by (simp add: strtol_base_def)
  then have "strtol (''0x'' @ ?ds) 0 = (clamp_long (digits_value (int 16) ?ds), [])"
    using nat_digits_set [of 16 n] nat_digits_nonempty [of 16 n]
    by (intro strtol_digits) (auto simp: isspace_def ccode_def)
  then show ?thesis using digits_value_nat_digits [of 16 n] by simp
qed

lemma clamp_long_id: "LONG_MIN \<le> n \<Longrightarrow> n \<le> LONG_MAX \<Longrightarrow> clamp_long n = n"
  by (simp add: clamp_long_def)

lemma nat_digits_clean:
  assumes "2 \<le> b" "b \<le> 16" "c \<in> set (nat_digits b n)"
  shows "isalnum c \<and> \<not> iscntrl c \<and> c \<noteq> NUL"
proof -
  obtain d where "d < b" "c = digit_char d" using nat_digits_char assms by blast
  with assms have "ccode c = (if d < 10 then 48 + int d else 87 + int d)" "d < 16"
    by (auto simp: ccode_digit_char)
  then show ?thesis by (auto simp: ctype_defs simp flip: ccode_eq_0_iff)
qed

lemma nat_digits_le_10: "n < b \<Longrightarrow> nat_digits b n = [digit_char n]"
  by (subst nat_digits.simps) simp

subsection \<open>Properties\<close>

text \<open>
  Copying into a buffer of \<open>len\<close> bytes with \<open>mystrncpy\<close> stays inside the buffer, always leaves
  it terminated, and the string it then holds is the first \<open>len - 1\<close> characters of the source.
\<close>

theorem mystrncpy_terminates:
  assumes "length b = len" "2 \<le> len" "cstr_ok s"
  shows "\<exists>b'. mystrncpy b (Some s) len = Some b' \<and> length b' = len \<and>
    terminated b' \<and> buf_str b' = take (len - 1) s"
  using assms by (rule mystrncpy_ok)

lemma mystrncpy_terminates_witness:
  "\<exists>b'. mystrncpy ''......'' (Some ''lp'') 6 = Some b' \<and> buf_str b' = ''lp''"
proof -
  have "length ''......'' = 6" "2 \<le> (6::nat)" "cstr_ok ''lp''" by code_simp+
  from mystrncpy_terminates [OF this] show ?thesis by auto
qed

text \<open>
  Appending with \<open>mystrncat\<close> to a terminated string in a buffer of \<open>len\<close> bytes leaves the buffer
  terminated exactly if both strings and a NUL fit; when they do not, the NUL written at the end
  first is overwritten and the buffer holds no terminator.
\<close>

theorem mystrncat_unterminated:
  assumes "length b = len" "buf_str b = p" "length p < len - 1" "b ! length p = NUL"
    "b ! (len - 1) = NUL" "cstr_ok s"
  shows "(\<exists>b'. mystrncat b (Some s) len = Some b' \<and> terminated b')
    \<longleftrightarrow> length p + length s < len"
  using assms by (rule mystrncat_terminated_iff)

lemma mystrncat_unterminated_witness:
  "\<not> (\<exists>b'. mystrncat (''ab'' @ [NUL, NUL]) (Some ''xyz'') 4 = Some b' \<and> terminated b')"
proof -
  have "length (''ab'' @ [NUL, NUL]) = 4" "buf_str (''ab'' @ [NUL, NUL]) = ''ab''"
    "length ''ab'' < 4 - 1" "(''ab'' @ [NUL, NUL]) ! length ''ab'' = NUL"
    "(''ab'' @ [NUL, NUL]) ! (4 - 1) = NUL" "cstr_ok ''xyz''"
    by code_simp+
  from mystrncat_unterminated [OF this] show ?thesis by simp
qed

text \<open>
  On strings without NUL the sign of \<open>safestrcasecmp\<close> is that of the lexicographic comparison
  of the lower-cased codes and that of \<open>safestrcmp\<close> of the codes themselves, and both are
  antisymmetric, null pointers included.
\<close>

theorem safestr_order:
  assumes "cstr_ok s" "cstr_ok t"
  shows "(safestrcasecmp (Some s) (Some t) < 0 \<longleftrightarrow> fold_codes s < fold_codes t)
    \<and> (safestrcasecmp (Some s) (Some t) = 0 \<longleftrightarrow> fold_codes s = fold_codes t)
    \<and> (safestrcmp (Some s) (Some t) < 0 \<longleftrightarrow> codes s < codes t)
    \<and> (safestrcmp (Some s) (Some t) = 0 \<longleftrightarrow> s = t)
    \<and> (\<forall>a b. safestrcasecmp a b = - safestrcasecmp b a \<and> safestrcmp a b = - safestrcmp b a)"
proof -
  have "safestrcasecmp a b = - safestrcasecmp b a \<and> safestrcmp a b = - safestrcmp b a" for a b
    unfolding safestrcasecmp_def safestrcmp_def
    by (intro conjI null_compare_swap strcasecmp_swap strcmp_swap)
  moreover have "safestrcasecmp (Some s) (Some t) = strcasecmp_loop s t"
    "safestrcmp (Some s) (Some t) = strcmp s t"
    by (simp_all only: safestrcasecmp_def safestrcmp_def null_compare.simps)
  ultimately show ?thesis
    using strcasecmp_sgn [OF assms] strcmp_sgn [OF assms] by (metis codes_inject)
qed

lemma safestr_order_witness: "safestrcasecmp (Some ''LPD'') (Some ''lpq'') < 0"
proof -
  have "cstr_ok ''LPD''" "cstr_ok ''lpq''" "fold_codes ''LPD'' < fold_codes ''lpq''" by code_simp+
  then show ?thesis using safestr_order [of "''LPD''" "''lpq''"] by blast
qed

end
