(* ===== verification/Snprintf.thy ===== *)
theory Snprintf
  imports CString
begin

section \<open>plp_snprintf: bounded formatted output\<close>

text \<open>
  The formatting engine of \<open>src/src/common/plp_snprintf.c\<close>. The output state is the pair of the
  bytes stored so far and the counter \<open>left\<close>: \<open>dopr_outch\<close> stores a byte while \<open>left\<close> is
  positive and always decrements it, so \<open>left\<close> goes negative when the text does not fit.
  The variadic arguments are a list of tagged values; taking an argument of the wrong kind, or one
  that is not there, is undefined in C and \<open>None\<close> here. The formatting of a \<open>double\<close> is the C
  library's \<open>sprintf\<close>, the parameter \<open>fd\<close>, which gets the format string that \<open>fmtdouble\<close> builds;
  the text of \<open>errno\<close> for \<open>%m\<close> is the parameter \<open>em\<close>. The build is one with \<open>long long\<close> and without
  \<open>quad_t\<close>.
  The lemmas show that the engine is the truncation of an unbounded text (\<open>dopr_text\<close>).
\<close>

datatype 'd fmt_arg = AInt int | ALong int | ALongLong int | AStr "cstr option" | ADouble 'd

type_synonym outbuf = "char list \<times> int"

record fmt_spec =
  longflag :: nat
  ljust :: bool
  flen :: int
  zpad :: bool
  precision :: int
  set_precision :: bool

definition empty_spec :: fmt_spec where
  "empty_spec = \<lparr>longflag = 0, ljust = False, flen = 0, zpad = False, precision = -1,
     set_precision = False\<rparr>"

subsection \<open>The output routines\<close>

definition dopr_outch :: "outbuf \<Rightarrow> char \<Rightarrow> outbuf" where
  "dopr_outch st c = (if 0 < snd st then (fst st @ [c], snd st - 1) else (fst st, snd st - 1))"

fun dostr :: "outbuf \<Rightarrow> cstr \<Rightarrow> outbuf" where
  "dostr st [] = st"
| "dostr st (c # cs) = dostr (dopr_outch st c) cs"

definition is_visible_ctl :: "bool \<Rightarrow> char \<Rightarrow> bool" where
  "is_visible_ctl vis c \<longleftrightarrow> vis \<and> iscntrl c \<and> c \<noteq> CHR 0x09 \<and> c \<noteq> CHR 0x0A"

definition caret_char :: "char \<Rightarrow> char" where
  "caret_char c = char_of (64 + ccode c mod 32)"

fun fmtstr_len :: "bool \<Rightarrow> cstr \<Rightarrow> int" where
  "fmtstr_len vis [] = 0"
| "fmtstr_len vis (c # cs) = (if is_visible_ctl vis c then 1 else 0) + 1 + fmtstr_len vis cs"

fun out_chars :: "bool \<Rightarrow> outbuf \<Rightarrow> cstr \<Rightarrow> outbuf" where
  "out_chars vis st [] = st"
| "out_chars vis st (c # cs) =
     out_chars vis
       (if is_visible_ctl vis c then dopr_outch (dopr_outch st CHR ''^'') (caret_char c)
        else dopr_outch st c) cs"

definition out_pad :: "outbuf \<Rightarrow> char \<Rightarrow> int \<Rightarrow> outbuf" where
  "out_pad st c n = dostr st (replicate (nat n) c)"

definition fmtstr :: "bool \<Rightarrow> outbuf \<Rightarrow> cstr option \<Rightarrow> bool \<Rightarrow> int \<Rightarrow> int \<Rightarrow> outbuf" where
  "fmtstr vis st value lj len prec =
     (let v = (case value of None \<Rightarrow> ''<NULL>'' | Some s \<Rightarrow> s);
          n0 = fmtstr_len vis v;
          strlenv = (if 0 < prec \<and> prec < n0 then prec else n0);
          pad0 = (if len - strlenv < 0 then 0 else len - strlenv);
          padlen = (if lj then - pad0 else pad0);
          st1 = out_pad st CHR '' '' padlen;
          st2 = out_chars vis st1 (take (nat strlenv) v)
      in out_pad st2 CHR '' '' (- padlen))"

definition fmt_digit :: "bool \<Rightarrow> nat \<Rightarrow> char" where
  "fmt_digit caps d = (if caps then ''0123456789ABCDEF'' ! d else ''0123456789abcdef'' ! d)"

text \<open>
  The conversion loop of \<open>fmtnum\<close> stores the digits with the least significant first
  (\<open>convert\<close>, \<open>place\<close> of them) and prints them from the end.
\<close>

function convert_digits :: "bool \<Rightarrow> nat \<Rightarrow> nat \<Rightarrow> char list" where
  "convert_digits caps base u =
     (if u div base = 0 \<or> base < 2 then [fmt_digit caps (u mod base)]
      else fmt_digit caps (u mod base) # convert_digits caps base (u div base))"
  by pat_completeness auto
termination
  by (relation "measure (\<lambda>(c, b, u). u)")
    (auto simp: div_eq_0_iff not_less intro: div_less_dividend)

declare convert_digits.simps [simp del]

text \<open>
  \<open>value\<close> is a 64-bit \<open>long long\<close>; the magnitude is computed in an \<open>unsigned long long\<close>.
\<close>

definition fmtnum_out :: "outbuf \<Rightarrow> bool \<Rightarrow> char list \<Rightarrow> bool \<Rightarrow> int \<Rightarrow> bool \<Rightarrow> outbuf" where
  "fmtnum_out st neg convert lj len zp =
     (let place = int (length convert);
          pad0 = (if len - place < 0 then 0 else len - place);
          padlen = (if lj then - pad0 else pad0);
          early = (zp \<and> 0 < padlen \<and> neg);
          st1 = (if early then dopr_outch st CHR ''-'' else st);
          st2 = (if zp \<and> 0 < padlen then out_pad st1 CHR ''0'' (if early then padlen - 1 else padlen)
                 else st1);
          padlen2 = (if zp \<and> 0 < padlen then 0 else padlen);
          st3 = out_pad st2 CHR '' '' padlen2;
          st4 = (if neg \<and> \<not> early then dopr_outch st3 CHR ''-'' else st3);
          st5 = dostr st4 (rev convert)
      in out_pad st5 CHR '' '' (- padlen2))"

definition fmtnum :: "outbuf \<Rightarrow> int \<Rightarrow> int \<Rightarrow> bool \<Rightarrow> bool \<Rightarrow> int \<Rightarrow> bool \<Rightarrow> outbuf" where
  "fmtnum st value base dosign lj len zp =
     (let neg = (dosign \<and> value < 0);
          uvalue = nat ((if neg then - value else value) mod 18446744073709551616);
          convert = convert_digits (base < 0) (nat \<bar>base\<bar>) uvalue
      in fmtnum_out st neg convert lj len zp)"

text \<open>
  \<open>fmtdouble\<close> limits the width and the precision to 255, builds a format string for the C
  library's \<open>sprintf\<close> and copies its output.
\<close>

definition dec_text :: "int \<Rightarrow> cstr" where
  "dec_text n = (if n < 0 then CHR ''-'' # nat_digits 10 (nat (- n)) else nat_digits 10 (nat n))"

definition fmtdouble :: "(cstr \<Rightarrow> 'd \<Rightarrow> cstr) \<Rightarrow> outbuf \<Rightarrow> char \<Rightarrow> 'd \<Rightarrow> bool \<Rightarrow> int \<Rightarrow> bool \<Rightarrow> int \<Rightarrow> outbuf" where
  "fmtdouble fd st f v lj len zp prec =
     (let len1 = (if 255 < len then 255 else len);
          p1 = (if 255 < prec then 255 else prec);
          p2 = (if 0 \<le> p1 \<and> 0 < len1 \<and> len1 < p1 then len1 else p1);
          formatstr = ''%'' @ (if lj then ''-'' else []) @ (if zp then ''0'' else []) @
            (if 0 \<le> len1 then dec_text len1 else []) @
            (if 0 \<le> p2 then ''.'' @ dec_text p2 else []) @ [f]
      in dostr st (fd formatstr v))"

subsection \<open>The format interpreter\<close>

text \<open>
  The conversion letters of the numeric cases: the base and whether the value is signed. The C
  code falls through the cases \<open>u\<close>, \<open>o\<close>, \<open>d\<close>, \<open>x\<close>, \<open>X\<close> in this order, and each sets the base only
  when none is set yet.
\<close>

definition num_conv :: "char \<Rightarrow> (int \<times> bool) option" where
  "num_conv c =
     (if c = CHR ''u'' \<or> c = CHR ''U'' then Some (10, False)
      else if c = CHR ''o'' \<or> c = CHR ''O'' then Some (8, False)
      else if c = CHR ''d'' \<or> c = CHR ''D'' then Some (10, True)
      else if c = CHR ''x'' then Some (16, False)
      else if c = CHR ''X'' then Some (-16, False)
      else None)"

fun take_num :: "nat \<Rightarrow> bool \<Rightarrow> 'd fmt_arg list \<Rightarrow> (int \<times> 'd fmt_arg list) option" where
  "take_num 0 sg (AInt n # as) = Some (if sg then n else n mod 4294967296, as)"
| "take_num (Suc 0) sg (ALong n # as) = Some (if sg then n else n mod 18446744073709551616, as)"
| "take_num (Suc (Suc k)) sg (ALongLong n # as) =
     Some (if sg then n else n mod 18446744073709551616, as)"
| "take_num _ _ _ = None"

fun take_int :: "'d fmt_arg list \<Rightarrow> (int \<times> 'd fmt_arg list) option" where
  "take_int (AInt n # as) = Some (n, as)"
| "take_int _ = None"

fun take_str :: "'d fmt_arg list \<Rightarrow> (cstr option \<times> 'd fmt_arg list) option" where
  "take_str (AStr s # as) = Some (s, as)"
| "take_str _ = None"

fun take_double :: "'d fmt_arg list \<Rightarrow> ('d \<times> 'd fmt_arg list) option" where
  "take_double (ADouble d # as) = Some (d, as)"
| "take_double _ = None"

text \<open>
  \<open>%c\<close> passes the byte as a two-byte string, so a NUL byte is the empty string, and it does so
  without the visible-control translation.
\<close>

definition char_string :: "int \<Rightarrow> cstr" where
  "char_string n = (let c = char_of (n mod 256) in if c = NUL then [] else [c])"

text \<open>
  One conversion after its flags: the new output and the remaining arguments. The sum keeps the
  two letters that end the whole call (\<open>return\<close>) apart from the others.
\<close>

definition do_conv ::
  "(cstr \<Rightarrow> 'd \<Rightarrow> cstr) \<Rightarrow> cstr \<Rightarrow> bool \<Rightarrow> fmt_spec \<Rightarrow> char \<Rightarrow> 'd fmt_arg list \<Rightarrow> outbuf
     \<Rightarrow> (outbuf \<times> 'd fmt_arg list) option" where
  "do_conv fd em vis sp c args st =
     (case num_conv c of
        Some (base, sg) \<Rightarrow>
          map_option (\<lambda>(v, as). (fmtnum st v base sg (ljust sp) (flen sp) (zpad sp), as))
            (take_num (longflag sp) sg args)
      | None \<Rightarrow>
          if c = CHR ''s'' then
            map_option (\<lambda>(s, as). (fmtstr vis st s (ljust sp) (flen sp) (precision sp), as))
              (take_str args)
          else if c = CHR ''c'' then
            map_option (\<lambda>(n, as). (fmtstr False st (Some (char_string n)) (ljust sp) (flen sp)
                (precision sp), as)) (take_int args)
          else if c = CHR ''f'' \<or> c = CHR ''g'' \<or> c = CHR ''e'' then
            map_option (\<lambda>(d, as). (fmtdouble fd st c d (ljust sp) (flen sp) (zpad sp)
                (precision sp), as)) (take_double args)
          else if c = CHR ''m'' then
            Some (fmtstr vis st (Some em) (ljust sp) (flen sp) (precision sp), args)
          else if c = CHR ''%'' then Some (dopr_outch st c, args)
          else Some (dostr st ''???????'', args))"

definition add_digit :: "fmt_spec \<Rightarrow> char \<Rightarrow> fmt_spec" where
  "add_digit sp c =
     (let d = ccode c - 48;
          sp1 = (if c = CHR ''0'' \<and> flen sp = 0 \<and> \<not> set_precision sp then sp\<lparr>zpad := True\<rparr> else sp)
      in if set_precision sp then sp1\<lparr>precision := precision sp * 10 + d\<rparr>
         else sp1\<lparr>flen := flen sp * 10 + d\<rparr>)"

fun dopr ::
  "(cstr \<Rightarrow> 'd \<Rightarrow> cstr) \<Rightarrow> cstr \<Rightarrow> bool \<Rightarrow> cstr \<Rightarrow> 'd fmt_arg list \<Rightarrow> outbuf \<Rightarrow> outbuf option"
and dopr_spec ::
  "(cstr \<Rightarrow> 'd \<Rightarrow> cstr) \<Rightarrow> cstr \<Rightarrow> bool \<Rightarrow> fmt_spec \<Rightarrow> cstr \<Rightarrow> 'd fmt_arg list \<Rightarrow> outbuf \<Rightarrow> outbuf option"
where
  "dopr fd em vis [] args st = Some st"
| "dopr fd em vis (c # fmt) args st =
     (if c = CHR ''%'' then dopr_spec fd em vis empty_spec fmt args st
      else dopr fd em vis fmt args (dopr_outch st c))"
| "dopr_spec fd em vis sp [] args st = Some (dostr st ''**end of format**'')"
| "dopr_spec fd em vis sp (c # fmt) args st =
     (if c = CHR ''-'' then dopr_spec fd em vis (sp\<lparr>ljust := True\<rparr>) fmt args st
      else if c = CHR ''.'' then
        dopr_spec fd em vis (sp\<lparr>set_precision := True, precision := 0\<rparr>) fmt args st
      else if c = CHR ''*'' then
        (case take_int args of
           None \<Rightarrow> None
         | Some (n, as) \<Rightarrow>
             dopr_spec fd em vis
               (if set_precision sp then sp\<lparr>precision := n\<rparr> else sp\<lparr>flen := n\<rparr>) fmt as st)
      else if isdigit c then dopr_spec fd em vis (add_digit sp c) fmt args st
      else if c = CHR ''l'' then
        dopr_spec fd em vis (sp\<lparr>longflag := longflag sp + 1\<rparr>) fmt args st
      else if c = CHR ''q'' then Some (dostr st ''*no quad_t support *'')
      else (case do_conv fd em vis sp c args st of
              None \<Rightarrow> None
            | Some (st', as) \<Rightarrow> dopr fd em vis fmt as st'))"

text \<open>
  \<open>plp_vsnprintf\<close>: a size that is negative as an \<open>int\<close> counts as 0, with size 0 nothing is stored;
  otherwise the NUL goes after the text, or over the last byte when the text filled the buffer.
  The result is the bytes stored and the returned length.
\<close>

definition plp_vsnprintf ::
  "(cstr \<Rightarrow> 'd \<Rightarrow> cstr) \<Rightarrow> cstr \<Rightarrow> int \<Rightarrow> cstr \<Rightarrow> 'd fmt_arg list \<Rightarrow> (char list \<times> int) option" where
  "plp_vsnprintf fd em count0 fmt args =
     (let count = (if count0 < 0 then 0 else count0)
      in case dopr fd em True fmt args ([], count) of
           None \<Rightarrow> None
         | Some (b, left) \<Rightarrow>
             Some (if 0 < count
                   then (if 0 < left then b @ [NUL] else b[nat (count - 1) := NUL])
                   else b, count - left))"

definition plp_unsafe_vsnprintf ::
  "(cstr \<Rightarrow> 'd \<Rightarrow> cstr) \<Rightarrow> cstr \<Rightarrow> int \<Rightarrow> cstr \<Rightarrow> 'd fmt_arg list \<Rightarrow> (char list \<times> int) option" where
  "plp_unsafe_vsnprintf fd em count0 fmt args =
     (let count = (if count0 < 0 then 0 else count0)
      in case dopr fd em False fmt args ([], count) of
           None \<Rightarrow> None
         | Some (b, left) \<Rightarrow>
             Some (if 0 < count
                   then (if 0 < left then b @ [NUL] else b[nat (count - 1) := NUL])
                   else b, count - left))"

text \<open>
  The string a caller finds in its buffer after a call whose format uses no \<open>double\<close> and no
  \<open>errno\<close>. The model calls it with the source's own formats only, whose arguments always match;
  the lemmas below compute each of them.
\<close>

definition plp_snprintf :: "int \<Rightarrow> cstr \<Rightarrow> unit fmt_arg list \<Rightarrow> cstr" where
  "plp_snprintf sz fmt args =
     (case plp_vsnprintf (\<lambda>_ _. []) [] sz fmt args of
        None \<Rightarrow> []
      | Some (b, n) \<Rightarrow> buf_str b)"

subsection \<open>The engine truncates an unbounded text\<close>

definition push :: "cstr \<Rightarrow> outbuf \<Rightarrow> outbuf" where
  "push t st = (fst st @ take (nat (snd st)) t, snd st - int (length t))"

lemma push_Nil [simp]: "push [] st = st"
  by (simp add: push_def)

lemma push_push: "push t (push s st) = push (s @ t) st"
  by (cases "0 \<le> snd st") (auto simp: push_def nat_diff_distrib')

lemma dopr_outch_push: "dopr_outch st c = push [c] st"
proof (cases "0 < snd st")
  case True
  then obtain n where "nat (snd st) = Suc n" by (metis gr0_implies_Suc zero_less_nat_eq)
  with True show ?thesis by (simp add: dopr_outch_def push_def)
qed (simp add: dopr_outch_def push_def)

lemma dostr_push: "dostr st t = push t st"
proof (induction t arbitrary: st)
  case (Cons c t)
  then show ?case by (simp add: dopr_outch_push push_push)
qed simp

fun visible :: "bool \<Rightarrow> cstr \<Rightarrow> cstr" where
  "visible vis [] = []"
| "visible vis (c # cs) =
     (if is_visible_ctl vis c then [CHR ''^'', caret_char c] else [c]) @ visible vis cs"

lemma out_chars_push: "out_chars vis st s = push (visible vis s) st"
proof (induction s arbitrary: st)
  case (Cons c s)
  then show ?case by (simp add: dopr_outch_push push_push)
qed simp

lemma visible_clean: "\<forall>c\<in>set s. \<not> iscntrl c \<Longrightarrow> visible vis s = s"
  by (induction s) (auto simp: is_visible_ctl_def)

lemma fmtstr_len_visible: "fmtstr_len vis s = int (length (visible vis s))"
  by (induction s) auto

subsubsection \<open>The unbounded text\<close>

definition pad_text :: "char \<Rightarrow> int \<Rightarrow> cstr" where
  "pad_text c n = replicate (nat n) c"

lemma out_pad_push: "out_pad st c n = push (pad_text c n) st"
  by (simp add: out_pad_def pad_text_def dostr_push)

definition fmtstr_text :: "bool \<Rightarrow> cstr option \<Rightarrow> bool \<Rightarrow> int \<Rightarrow> int \<Rightarrow> cstr" where
  "fmtstr_text vis value lj len prec =
     (let v = (case value of None \<Rightarrow> ''<NULL>'' | Some s \<Rightarrow> s);
          n0 = fmtstr_len vis v;
          strlenv = (if 0 < prec \<and> prec < n0 then prec else n0);
          pad = max 0 (len - strlenv);
          body = visible vis (take (nat strlenv) v)
      in if lj then body @ pad_text CHR '' '' pad else pad_text CHR '' '' pad @ body)"

definition fmtnum_out_text :: "bool \<Rightarrow> cstr \<Rightarrow> bool \<Rightarrow> int \<Rightarrow> bool \<Rightarrow> cstr" where
  "fmtnum_out_text neg body lj len zp =
     (let sg = (if neg then ''-'' else []); pad = max 0 (len - int (length body))
      in if lj then sg @ body @ pad_text CHR '' '' pad
         else if zp \<and> 0 < pad then sg @ pad_text CHR ''0'' (if neg then pad - 1 else pad) @ body
         else pad_text CHR '' '' pad @ sg @ body)"

definition fmtnum_text :: "int \<Rightarrow> int \<Rightarrow> bool \<Rightarrow> bool \<Rightarrow> int \<Rightarrow> bool \<Rightarrow> cstr" where
  "fmtnum_text value base dosign lj len zp =
     (let neg = (dosign \<and> value < 0);
          uvalue = nat ((if neg then - value else value) mod 18446744073709551616)
      in fmtnum_out_text neg (rev (convert_digits (base < 0) (nat \<bar>base\<bar>) uvalue)) lj len zp)"

lemma pad_text_nonpos [simp]: "n \<le> 0 \<Longrightarrow> pad_text c n = []"
  by (simp add: pad_text_def)

lemma fmtstr_push: "fmtstr vis st v lj len prec = push (fmtstr_text vis v lj len prec) st"
  by (auto simp: fmtstr_def fmtstr_text_def Let_def out_pad_push out_chars_push push_push max_def)

lemma fmtnum_out_push:
  "fmtnum_out st neg convert lj len zp = push (fmtnum_out_text neg (rev convert) lj len zp) st"
  by (cases neg; cases lj; cases zp; cases "int (length convert) < len")
    (simp_all add: fmtnum_out_def fmtnum_out_text_def Let_def out_pad_push dostr_push
      dopr_outch_push push_push max_def)

lemma fmtnum_push: "fmtnum st v base sg lj len zp = push (fmtnum_text v base sg lj len zp) st"
  by (simp add: fmtnum_def fmtnum_text_def fmtnum_out_push Let_def)

definition fmtdouble_text ::
  "(cstr \<Rightarrow> 'd \<Rightarrow> cstr) \<Rightarrow> char \<Rightarrow> 'd \<Rightarrow> bool \<Rightarrow> int \<Rightarrow> bool \<Rightarrow> int \<Rightarrow> cstr" where
  "fmtdouble_text fd f v lj len zp prec =
     (let len1 = min 255 len; p1 = min 255 prec;
          p2 = (if 0 \<le> p1 \<and> 0 < len1 then min len1 p1 else p1)
      in fd (''%'' @ (if lj then ''-'' else []) @ (if zp then ''0'' else []) @
            (if 0 \<le> len1 then dec_text len1 else []) @
            (if 0 \<le> p2 then ''.'' @ dec_text p2 else []) @ [f]) v)"

lemma fmtdouble_push:
  "fmtdouble fd st f v lj len zp prec = push (fmtdouble_text fd f v lj len zp prec) st"
proof -
  have "(if 255 < len then 255 else len) = min 255 len"
    "(if 255 < prec then 255 else prec) = min 255 prec" by auto
  moreover have "\<And>a b. (if 0 \<le> a \<and> 0 < b \<and> b < a then b else a) =
      (if 0 \<le> a \<and> 0 < b then min b a else (a::int))" by (auto simp: min_def)
  ultimately show ?thesis by (simp only: fmtdouble_def fmtdouble_text_def Let_def dostr_push)
qed

definition conv_text ::
  "(cstr \<Rightarrow> 'd \<Rightarrow> cstr) \<Rightarrow> cstr \<Rightarrow> bool \<Rightarrow> fmt_spec \<Rightarrow> char \<Rightarrow> 'd fmt_arg list
     \<Rightarrow> (cstr \<times> 'd fmt_arg list) option" where
  "conv_text fd em vis sp c args =
     (case num_conv c of
        Some (base, sg) \<Rightarrow>
          map_option (\<lambda>(v, as). (fmtnum_text v base sg (ljust sp) (flen sp) (zpad sp), as))
            (take_num (longflag sp) sg args)
      | None \<Rightarrow>
          if c = CHR ''s'' then
            map_option (\<lambda>(s, as). (fmtstr_text vis s (ljust sp) (flen sp) (precision sp), as))
              (take_str args)
          else if c = CHR ''c'' then
            map_option (\<lambda>(n, as). (fmtstr_text False (Some (char_string n)) (ljust sp) (flen sp)
                (precision sp), as)) (take_int args)
          else if c = CHR ''f'' \<or> c = CHR ''g'' \<or> c = CHR ''e'' then
            map_option (\<lambda>(d, as). (fmtdouble_text fd c d (ljust sp) (flen sp) (zpad sp)
                (precision sp), as)) (take_double args)
          else if c = CHR ''m'' then
            Some (fmtstr_text vis (Some em) (ljust sp) (flen sp) (precision sp), args)
          else if c = CHR ''%'' then Some ([c], args)
          else Some (''???????'', args))"

lemma do_conv_push:
  "do_conv fd em vis sp c args st =
     map_option (\<lambda>(t, as). (push t st, as)) (conv_text fd em vis sp c args)"
proof (cases "num_conv c")
  case None
  then show ?thesis
    unfolding do_conv_def conv_text_def fmtstr_push fmtdouble_push dopr_outch_push dostr_push
    by (simp only: option.case option.map option.map_comp comp_def case_prod_unfold fst_conv snd_conv
        if_distrib [of "map_option (\<lambda>x. (push (fst x) st, snd x))"])
next
  case (Some p)
  then show ?thesis
    unfolding do_conv_def conv_text_def fmtnum_push
    by (simp only: option.case option.map_comp comp_def case_prod_unfold fst_conv snd_conv)
qed

fun dopr_text ::
  "(cstr \<Rightarrow> 'd \<Rightarrow> cstr) \<Rightarrow> cstr \<Rightarrow> bool \<Rightarrow> cstr \<Rightarrow> 'd fmt_arg list \<Rightarrow> cstr option"
and spec_text ::
  "(cstr \<Rightarrow> 'd \<Rightarrow> cstr) \<Rightarrow> cstr \<Rightarrow> bool \<Rightarrow> fmt_spec \<Rightarrow> cstr \<Rightarrow> 'd fmt_arg list \<Rightarrow> cstr option"
where
  "dopr_text fd em vis [] args = Some []"
| "dopr_text fd em vis (c # fmt) args =
     (if c = CHR ''%'' then spec_text fd em vis empty_spec fmt args
      else map_option ((#) c) (dopr_text fd em vis fmt args))"
| "spec_text fd em vis sp [] args = Some ''**end of format**''"
| "spec_text fd em vis sp (c # fmt) args =
     (if c = CHR ''-'' then spec_text fd em vis (sp\<lparr>ljust := True\<rparr>) fmt args
      else if c = CHR ''.'' then
        spec_text fd em vis (sp\<lparr>set_precision := True, precision := 0\<rparr>) fmt args
      else if c = CHR ''*'' then
        (case take_int args of
           None \<Rightarrow> None
         | Some (n, as) \<Rightarrow>
             spec_text fd em vis
               (if set_precision sp then sp\<lparr>precision := n\<rparr> else sp\<lparr>flen := n\<rparr>) fmt as)
      else if isdigit c then spec_text fd em vis (add_digit sp c) fmt args
      else if c = CHR ''l'' then
        spec_text fd em vis (sp\<lparr>longflag := longflag sp + 1\<rparr>) fmt args
      else if c = CHR ''q'' then Some ''*no quad_t support *''
      else (case conv_text fd em vis sp c args of
              None \<Rightarrow> None
            | Some (t, as) \<Rightarrow> map_option ((@) t) (dopr_text fd em vis fmt as)))"

lemma dopr_push:
  "dopr fd em vis fmt args st = map_option (\<lambda>t. push t st) (dopr_text fd em vis fmt args)"
  "dopr_spec fd em vis sp fmt args st = map_option (\<lambda>t. push t st) (spec_text fd em vis sp fmt args)"
proof (induction fd em vis fmt args and fd em vis sp fmt args arbitrary: st and st
    rule: dopr_text_spec_text.induct)
  case (4 fd em vis sp c fmt args)
  show ?case
    using 4 by (simp add: do_conv_push option.map_comp comp_def push_push dostr_push split: option.split)
qed (simp_all add: dopr_outch_push option.map_comp comp_def push_push dostr_push)

lemma push_empty: "push t ([], n) = (take (nat n) t, n - int (length t))"
  by (simp add: push_def)

text \<open>
  The contract of the engine: nothing is stored beyond the size given, the stored bytes are the
  unbounded text cut at \<open>size - 1\<close> and a NUL, and the return value is the length of the unbounded
  text.
\<close>

lemma vsnprintf_truncates:
  assumes "dopr_text fd em True fmt args = Some t" "0 < count"
  shows "plp_vsnprintf fd em count fmt args = Some (take (nat (count - 1)) t @ [NUL], int (length t))"
proof (cases "int (length t) < count")
  case True
  with assms show ?thesis by (simp add: plp_vsnprintf_def dopr_push push_empty)
next
  case False
  define k where "k = nat (count - 1)"
  from assms(2) have k: "nat count = Suc k" by (simp add: k_def)
  with False have "k < length t" by linarith
  then have "(take (Suc k) t)[k := NUL] = take k t @ [NUL]"
    by (simp add: take_Suc_conv_app_nth list_update_append)
  with assms False k show ?thesis
    by (simp add: plp_vsnprintf_def dopr_push push_empty k_def)
qed

lemma vsnprintf_zero:
  assumes "dopr_text fd em True fmt args = Some t" "count \<le> 0"
  shows "plp_vsnprintf fd em count fmt args = Some ([], int (length t))"
  using assms by (auto simp: plp_vsnprintf_def dopr_push push_empty)

lemma snprintf_text:
  assumes "dopr_text (\<lambda>_ _. []) [] True fmt args = Some t" "0 < n" "cstr_ok t"
  shows "plp_snprintf n fmt args = take (nat (n - 1)) t"
proof -
  have "cstr_ok (take (nat (n - 1)) t)"
    using assms(3) by (rule cstr_ok_subset) (rule set_take_subset)
  then show ?thesis
    by (simp add: plp_snprintf_def vsnprintf_truncates [OF assms(1,2)] buf_str_hit)
qed

subsection \<open>The conversions the spooler uses\<close>

lemma fmt_digit_char: "d < 16 \<Longrightarrow> fmt_digit False d = digit_char d"
proof -
  assume "d < 16"
  then have "d = 0 \<or> d = 1 \<or> d = 2 \<or> d = 3 \<or> d = 4 \<or> d = 5 \<or> d = 6 \<or> d = 7 \<or> d = 8 \<or>
      d = 9 \<or> d = 10 \<or> d = 11 \<or> d = 12 \<or> d = 13 \<or> d = 14 \<or> d = 15" by arith
  then show ?thesis
    by (elim disjE) (simp_all add: fmt_digit_def digit_char_def char_of_def
        bit_simps flip: ccode_inject)
qed

lemma rev_convert_digits: "2 \<le> b \<Longrightarrow> b \<le> 16 \<Longrightarrow> rev (convert_digits False b u) = nat_digits b u"
proof (induction b u rule: nat_digits.induct)
  case (1 b u)
  have m: "u mod b < 16"
    using 1(2,3) by (metis less_le_trans mod_less_divisor zero_less_numeral)
  show ?case
  proof (cases "u < b")
    case True
    with m 1(2) show ?thesis
      by (subst convert_digits.simps, subst nat_digits.simps) (simp add: fmt_digit_char)
  next
    case False
    with 1 have IH: "rev (convert_digits False b (u div b)) = nat_digits b (u div b)" by simp
    from False 1(2) have "u div b \<noteq> 0" by (simp add: div_eq_0_iff)
    with False m 1(2) IH show ?thesis
      by (subst convert_digits.simps, subst nat_digits.simps) (simp add: fmt_digit_char)
  qed
qed

lemma fmtnum_hex:
  "fmtnum_text v 16 False False 0 zp = nat_digits 16 (nat (v mod 18446744073709551616))"
  by (simp add: fmtnum_text_def fmtnum_out_text_def rev_convert_digits Let_def)

lemma fmtnum_dec:
  assumes "- 9223372036854775808 \<le> v" "v \<le> 9223372036854775807"
  shows "fmtnum_text v 10 True False 0 zp = dec_text v"
proof (cases "v < 0")
  case True
  with assms have "(- v) mod 18446744073709551616 = - v" by (intro mod_pos_pos_trivial) auto
  with True show ?thesis
    by (simp add: fmtnum_text_def fmtnum_out_text_def rev_convert_digits Let_def dec_text_def)
next
  case False
  with assms have "v mod 18446744073709551616 = v" by (intro mod_pos_pos_trivial) auto
  with False show ?thesis
    by (simp add: fmtnum_text_def fmtnum_out_text_def rev_convert_digits Let_def dec_text_def)
qed

lemma fmtstr_plain: "fmtstr_text vis (Some s) False 0 (-1) = visible vis s"
proof -
  have "length s \<le> length (visible vis s)"
    by (induction s) auto
  then show ?thesis by (simp add: fmtstr_text_def fmtstr_len_visible Let_def)
qed

lemmas fmt_eval =
  conv_text_def num_conv_def empty_spec_def add_digit_def isdigit_def ccode_def fmtnum_hex
  fmtstr_plain Let_def

lemma text_hex_value:
  "dopr_text fd em vis ''%s=0x%lx'' [AStr (Some k), ALong v] =
     Some (visible vis k @ ''=0x'' @ nat_digits 16 (nat (v mod 18446744073709551616)))"
  by (simp add: fmt_eval)

subsection \<open>Properties\<close>



end
