(* ===== verification/LineList.thy ===== *)
theory LineList
  imports Snprintf
begin

section \<open>Line lists: sorted lists of key/value lines (linelist.c)\<close>

text \<open>
  \<open>struct line_list\<close> of \<open>src/src/include/linelist.h\<close> is a counted array of duplicated C strings;
  here its content is the list of the first \<open>count\<close> strings (the theory \<open>LineListMem\<close> models the
  array, its capacity and the \<open>memmove\<close>s and shows that they implement the list operations of
  this theory). An argument \<open>struct line_list *l\<close> that is null behaves in the search functions
  as the empty list does, and is modelled by it.
  A line is \<open>key<separator>value\<close>; a list kept with \<open>sort\<close> is sorted by the key, compared without
  case (or with case, in the \<open>casekey\<close> functions), and with \<open>uniq\<close> holds each key once.
  The theory models the searches, \<open>Add_line_list\<close>, the \<open>Find_*\<close>, \<open>Set_*\<close> and \<open>Remove_*\<close> functions;
  its locale \<open>key_compare\<close> states what the searches need of the comparison, and its two
  interpretations are the two comparisons of the code.
\<close>

type_synonym line_list = "cstr list"

subsection \<open>The separator sets of linelist.h\<close>

definition Option_value_sep :: cstr where
  "Option_value_sep = [CHR '' '', CHR 0x09, CHR ''='', CHR ''#'', CHR ''@'']"

definition Hash_value_sep :: cstr where
  "Hash_value_sep = ''=#''"

definition Whitespace :: cstr where
  "Whitespace = [CHR '' '', CHR 0x09, CHR 0x0A, CHR 0x0C]"

definition List_sep :: cstr where
  "List_sep = ''[] '' @ [CHR 0x09, CHR 0x0A, CHR 0x0C, CHR '','']"

definition File_sep :: cstr where
  "File_sep = [CHR '' '', CHR 0x09, CHR '','', CHR '';'', CHR '':'']"

definition Strict_file_sep :: cstr where
  "Strict_file_sep = '';:''"

definition Perm_sep :: cstr where
  "Perm_sep = ''=,;''"

definition Line_ends :: cstr where
  "Line_ends = [CHR 0x0A, CHR 0x0C, CHR 0x04, CHR 0x14]"

definition Printcap_sep :: cstr where
  "Printcap_sep = ''|:''"

subsection \<open>The binary searches\<close>

text \<open>
  The four search functions are the same loop over the comparison (\<open>safestrcasecmp\<close> or
  \<open>safestrcmp\<close>) and the direction of the inner loop, which walks from a hit to the last or the
  first line with the same key. \<open>bot\<close> and \<open>top\<close> (here \<open>lo\<close> and \<open>hi\<close>) are C ints (\<open>top\<close> can be -1); the code's trick of
  writing a NUL over the separator while it compares is \<open>key_of\<close>. The result is the comparison
  value and \<open>*m\<close>, the index of the line tested last.
\<close>

function last_run :: "(cstr \<Rightarrow> cstr \<Rightarrow> int) \<Rightarrow> line_list \<Rightarrow> cstr \<Rightarrow> cstr option \<Rightarrow> nat \<Rightarrow> nat" where
  "last_run cmp l key sep mid =
     (if mid + 1 < length l \<and> cmp (key_of sep (l ! (mid + 1))) key = 0
      then last_run cmp l key sep (mid + 1) else mid)"
  by pat_completeness auto
termination
  by (relation "measure (\<lambda>(cmp, l, key, sep, mid). length l - mid)") auto

fun first_run :: "(cstr \<Rightarrow> cstr \<Rightarrow> int) \<Rightarrow> line_list \<Rightarrow> cstr \<Rightarrow> cstr option \<Rightarrow> nat \<Rightarrow> nat" where
  "first_run cmp l key sep 0 = 0"
| "first_run cmp l key sep (Suc mid) =
     (if cmp (key_of sep (l ! mid)) key = 0 then first_run cmp l key sep mid else Suc mid)"

function search_loop ::
  "(cstr \<Rightarrow> cstr \<Rightarrow> int) \<Rightarrow> (nat \<Rightarrow> nat) \<Rightarrow> line_list \<Rightarrow> cstr \<Rightarrow> cstr option \<Rightarrow>
     int \<Rightarrow> int \<Rightarrow> nat \<Rightarrow> int \<Rightarrow> int \<times> nat" where
  "search_loop cmp run l key sep lo hi mid c =
     (if c \<noteq> 0 \<and> lo \<le> hi then
        let m = (hi + lo) div 2;
            c' = cmp key (key_of sep (l ! nat m))
        in if 0 < c' then search_loop cmp run l key sep (m + 1) hi (nat m) c'
           else if c' < 0 then search_loop cmp run l key sep lo (m - 1) (nat m) c'
           else (0, run (nat m))
      else (c, mid))"
  by pat_completeness auto
termination
proof (relation "measure (\<lambda>(cmp, run, l, key, sep, lo, hi, mid, c). nat (hi - lo + 1))", goal_cases)
  case 1
  then show ?case by simp
next
  case (2 cmp run l key sep lo hi mid c mid' c')
  then have "lo \<le> (hi + lo) div 2" by linarith
  with 2 show ?case by auto
next
  case (3 cmp run l key sep lo hi mid c mid' c')
  then have "(hi + lo) div 2 \<le> hi" by linarith
  with 3 show ?case by auto
qed

declare last_run.simps [simp del] search_loop.simps [simp del]

definition cmp_nocase :: "cstr \<Rightarrow> cstr \<Rightarrow> int" where
  "cmp_nocase a b = safestrcasecmp (Some a) (Some b)"

definition cmp_case :: "cstr \<Rightarrow> cstr \<Rightarrow> int" where
  "cmp_case a b = safestrcmp (Some a) (Some b)"

definition find_last :: "(cstr \<Rightarrow> cstr \<Rightarrow> int) \<Rightarrow> line_list \<Rightarrow> cstr \<Rightarrow> cstr option \<Rightarrow> int \<times> nat" where
  "find_last cmp l key sep =
     search_loop cmp (last_run cmp l key sep) l key sep 0 (int (length l) - 1) 0 (-1)"

definition find_first :: "(cstr \<Rightarrow> cstr \<Rightarrow> int) \<Rightarrow> line_list \<Rightarrow> cstr \<Rightarrow> cstr option \<Rightarrow> int \<times> nat" where
  "find_first cmp l key sep =
     search_loop cmp (first_run cmp l key sep) l key sep 0 (int (length l) - 1) 0 (-1)"

definition Find_last_key :: "line_list \<Rightarrow> cstr \<Rightarrow> cstr option \<Rightarrow> int \<times> nat" where
  "Find_last_key = find_last cmp_nocase"

definition Find_last_casekey :: "line_list \<Rightarrow> cstr \<Rightarrow> cstr option \<Rightarrow> int \<times> nat" where
  "Find_last_casekey = find_last cmp_case"

definition Find_first_key :: "line_list \<Rightarrow> cstr \<Rightarrow> cstr option \<Rightarrow> int \<times> nat" where
  "Find_first_key = find_first cmp_nocase"

definition Find_first_casekey :: "line_list \<Rightarrow> cstr \<Rightarrow> cstr option \<Rightarrow> int \<times> nat" where
  "Find_first_casekey = find_first cmp_case"

subsection \<open>Adding, merging and removing lines\<close>

text \<open>
  \<open>place_line\<close> is the common end of \<open>Add_line_list\<close> and \<open>Add_casekey_line_list\<close>: replace, insert
  after, or insert before the line the search stopped at.
\<close>

definition place_line :: "line_list \<Rightarrow> cstr \<Rightarrow> bool \<Rightarrow> int \<times> nat \<Rightarrow> line_list" where
  "place_line l str uniq r =
     (case r of (cmp, mid) \<Rightarrow>
        if cmp = 0 \<and> uniq then l[mid := str]
        else if 0 \<le> cmp then insert_at (mid + 1) str l
        else insert_at mid str l)"

definition Add_line_list :: "line_list \<Rightarrow> cstr \<Rightarrow> cstr option \<Rightarrow> bool \<Rightarrow> bool \<Rightarrow> line_list" where
  "Add_line_list l str sep srt uniq =
     (if \<not> srt then l @ [str]
      else place_line l str uniq (Find_last_key l (key_of sep str) sep))"

definition Add_casekey_line_list :: "line_list \<Rightarrow> cstr \<Rightarrow> cstr option \<Rightarrow> line_list" where
  "Add_casekey_line_list l str sep =
     place_line l str True (Find_last_casekey l (key_of sep str) sep)"

definition Merge_line_list :: "line_list \<Rightarrow> line_list \<Rightarrow> cstr option \<Rightarrow> bool \<Rightarrow> bool \<Rightarrow> line_list" where
  "Merge_line_list dest src sep srt uniq =
     foldl (\<lambda>d s. Add_line_list d s sep srt uniq) dest src"

definition Merge_listof_line_list :: "line_list list \<Rightarrow> line_list list \<Rightarrow> line_list list" where
  "Merge_listof_line_list dest src = foldl (\<lambda>d sp. d @ [Merge_line_list [] sp None False False]) dest src"

definition Remove_line_list :: "line_list \<Rightarrow> int \<Rightarrow> line_list" where
  "Remove_line_list l mid =
     (if 0 \<le> mid \<and> mid < int (length l) then remove_at (nat mid) l else l)"

text \<open>
  \<open>Remove_duplicates_line_list\<close> keeps the first of each group of equal lines: for each line it
  removes every later equal one.
\<close>

function Remove_duplicates_line_list :: "line_list \<Rightarrow> line_list" where
  "Remove_duplicates_line_list [] = []"
| "Remove_duplicates_line_list (s # l) =
     s # Remove_duplicates_line_list (filter (\<lambda>t. safestrcmp (Some s) (Some t) \<noteq> 0) l)"
  by pat_completeness auto
termination
  by (relation "measure length") (auto simp: less_Suc_eq_le)

subsection \<open>Looking values up\<close>

definition Fix_val :: "cstr option \<Rightarrow> cstr" where
  "Fix_val s =
     (case s of
        None \<Rightarrow> ''1''
      | Some [] \<Rightarrow> ''1''
      | Some (c # t) \<Rightarrow> if c = CHR ''@'' then ''0'' else dropWhile isspace t)"

definition Find_value :: "line_list \<Rightarrow> cstr \<Rightarrow> cstr" where
  "Find_value l key =
     (case Find_first_key l key (Some Option_value_sep) of (cmp, mid) \<Rightarrow>
        if cmp = 0 then Fix_val (strpbrk (l ! mid) Option_value_sep) else ''0'')"

definition Find_exists_value :: "line_list \<Rightarrow> cstr \<Rightarrow> cstr option \<Rightarrow> cstr option" where
  "Find_exists_value l key sep =
     (case Find_first_key l key sep of (cmp, mid) \<Rightarrow>
        if cmp = 0
        then (case sep of Some seps \<Rightarrow> Some (Fix_val (strpbrk (l ! mid) seps)) | None \<Rightarrow> Some (l ! mid))
        else None)"

text \<open>\<open>after_equals\<close>: the test on the separator that \<open>Find_str_value\<close> shares with its case
  sensitive version.\<close>

definition after_equals :: "cstr option \<Rightarrow> cstr option" where
  "after_equals s =
     (case s of Some (c # t) \<Rightarrow> if c = CHR ''='' then Some t else None | _ \<Rightarrow> None)"

definition Find_str_value :: "line_list \<Rightarrow> cstr \<Rightarrow> cstr option" where
  "Find_str_value l key =
     (case Find_first_key l key (Some Option_value_sep) of (cmp, mid) \<Rightarrow>
        if cmp = 0 then after_equals (strpbrk (l ! mid) Option_value_sep) else None)"

definition Find_casekey_str_value :: "line_list \<Rightarrow> cstr \<Rightarrow> cstr option \<Rightarrow> cstr option" where
  "Find_casekey_str_value l key sep =
     (case Find_first_casekey l key sep of (cmp, mid) \<Rightarrow>
        if cmp = 0
        then (case sep of Some seps \<Rightarrow> after_equals (strpbrk (l ! mid) seps) | None \<Rightarrow> Some (l ! mid))
        else None)"

text \<open>
  \<open>strtol\<close> fails the test \<open>!e || *e\<close> when characters are left over; the \<open>long\<close> is cut to an \<open>int\<close>.
\<close>

definition Find_flag_value :: "line_list \<Rightarrow> cstr \<Rightarrow> int" where
  "Find_flag_value l key =
     (case strtol (Find_value l key) 0 of (n, e) \<Rightarrow> if e \<noteq> [] then 0 else to_int n)"

definition Find_decimal_value :: "line_list \<Rightarrow> cstr \<Rightarrow> int" where
  "Find_decimal_value l key =
     (let s = Find_value l key
      in case strtol s 10 of (n, e) \<Rightarrow>
           if e \<noteq> [] then (case strtol s 0 of (n', e') \<Rightarrow> if e' \<noteq> [] then 0 else to_int n')
           else to_int n)"

subsection \<open>Setting values\<close>

definition SMALLBUFFER :: int where "SMALLBUFFER = 512"

definition Set_str_value :: "line_list \<Rightarrow> cstr \<Rightarrow> cstr option \<Rightarrow> line_list" where
  "Set_str_value l key value =
     (if value \<noteq> None \<and> value \<noteq> Some []
      then Add_line_list l (safestrdup3 (Some key) (Some ''='') value) (Some Hash_value_sep) True True
      else (case Find_first_key l key (Some Hash_value_sep) of (cmp, mid) \<Rightarrow>
              if cmp = 0 then Remove_line_list l (int mid) else l))"

definition Set_casekey_str_value :: "line_list \<Rightarrow> cstr \<Rightarrow> cstr option \<Rightarrow> line_list" where
  "Set_casekey_str_value l key value =
     (if value \<noteq> None \<and> value \<noteq> Some []
      then Add_casekey_line_list l (safestrdup3 (Some key) (Some ''='') value) (Some Hash_value_sep)
      else (case Find_first_casekey l key (Some Hash_value_sep) of (cmp, mid) \<Rightarrow>
              if cmp = 0 then Remove_line_list l (int mid) else l))"

definition Set_flag_value :: "line_list \<Rightarrow> cstr \<Rightarrow> int \<Rightarrow> line_list" where
  "Set_flag_value l key value =
     Add_line_list l (plp_snprintf SMALLBUFFER ''%s=0x%lx'' [AStr (Some key), ALong value])
       (Some Hash_value_sep) True True"

definition Set_nz_flag_value :: "line_list \<Rightarrow> cstr \<Rightarrow> int \<Rightarrow> line_list" where
  "Set_nz_flag_value l key value =
     (if Find_flag_value l key = 0 then Set_flag_value l key value else l)"

definition Set_decimal_value :: "line_list \<Rightarrow> cstr \<Rightarrow> int \<Rightarrow> line_list" where
  "Set_decimal_value l key value =
     Add_line_list l (plp_snprintf SMALLBUFFER ''%s=%ld'' [AStr (Some key), ALong value])
       (Some Hash_value_sep) True True"


subsection \<open>The order of a list and the map it stands for\<close>

text \<open>
  \<open>lkeys\<close> is the list of the key codes of the lines, and \<open>ll_map\<close> the map from key codes to
  lines that a list without duplicate keys stands for.
\<close>

definition lkeys :: "(cstr \<Rightarrow> int list) \<Rightarrow> cstr option \<Rightarrow> line_list \<Rightarrow> int list list" where
  "lkeys code sep l = map (\<lambda>s. code (key_of sep s)) l"

definition ll_ok :: "line_list \<Rightarrow> bool" where
  "ll_ok l \<longleftrightarrow> (\<forall>s\<in>set l. cstr_ok s)"

definition ll_map :: "(cstr \<Rightarrow> int list) \<Rightarrow> cstr option \<Rightarrow> line_list \<Rightarrow> int list \<Rightarrow> cstr option" where
  "ll_map code sep l = map_of (map (\<lambda>s. (code (key_of sep s), s)) l)"

definition ll_sorted :: "(cstr \<Rightarrow> int list) \<Rightarrow> cstr option \<Rightarrow> line_list \<Rightarrow> bool" where
  "ll_sorted code sep l \<longleftrightarrow> ll_ok l \<and> sorted (lkeys code sep l)"

definition ll_uniq :: "(cstr \<Rightarrow> int list) \<Rightarrow> cstr option \<Rightarrow> line_list \<Rightarrow> bool" where
  "ll_uniq code sep l \<longleftrightarrow> ll_sorted code sep l \<and> distinct (lkeys code sep l)"

lemma length_lkeys [simp]: "length (lkeys code sep l) = length l"
  by (simp add: lkeys_def)

lemma nth_lkeys [simp]: "j < length l \<Longrightarrow> lkeys code sep l ! j = code (key_of sep (l ! j))"
  by (simp add: lkeys_def)

lemma ll_ok_nth: "ll_ok l \<Longrightarrow> j < length l \<Longrightarrow> cstr_ok (l ! j)"
  by (simp add: ll_ok_def)

lemma dom_ll_map: "dom (ll_map code sep l) = set (lkeys code sep l)"
  by (simp add: ll_map_def lkeys_def dom_map_of_conv_image_fst image_image)

lemma ll_map_nth:
  assumes "distinct (lkeys code sep l)" "j < length l"
  shows "ll_map code sep l (code (key_of sep (l ! j))) = Some (l ! j)"
proof -
  have "distinct (map fst (map (\<lambda>s. (code (key_of sep s), s)) l))"
    using assms(1) by (simp add: lkeys_def comp_def)
  then show ?thesis
    using assms(2) unfolding ll_map_def by (intro map_of_is_SomeI) auto
qed

text \<open>Two unique lists with the same lines have the same map; insertion and update change one key.\<close>

lemma ll_map_insert_at:
  assumes "code (key_of sep s) \<notin> set (lkeys code sep l)"
  shows "ll_map code sep (insert_at i s l) = (ll_map code sep l)(code (key_of sep s) \<mapsto> s)"
proof -
  let ?f = "\<lambda>s. (code (key_of sep s), s)"
  have sub: "set (take i l) \<subseteq> set l" by (rule set_take_subset)
  have out: "code (key_of sep s) \<notin> dom (map_of (map ?f (take i l)))"
    using assms sub by (auto simp: lkeys_def dom_map_of_conv_image_fst image_image)
  have "map_of (map ?f l) = map_of (map ?f (take i l @ drop i l))" by simp
  then have split: "ll_map code sep l = map_of (map ?f (drop i l)) ++ map_of (map ?f (take i l))"
    by (simp add: ll_map_def del: append_take_drop_id)
  show ?thesis
    unfolding split using out
    by (auto simp: ll_map_def insert_at_def fun_eq_iff map_add_def domIff split: option.splits)
qed

lemma ll_map_update:
  assumes "distinct (lkeys code sep l)" "i < length l" "code (key_of sep (l ! i)) = code (key_of sep s)"
  shows "ll_map code sep (l[i := s]) = (ll_map code sep l)(code (key_of sep s) \<mapsto> s)"
proof -
  let ?f = "\<lambda>s. (code (key_of sep s), s)"
  have l: "l = take i l @ l ! i # drop (Suc i) l" using assms(2) by (rule id_take_nth_drop)
  have "distinct (lkeys code sep (take i l @ l ! i # drop (Suc i) l))" using assms(1) l by simp
  then have out: "code (key_of sep s) \<notin> dom (map_of (map ?f (take i l)))"
    using assms(3) by (auto simp: lkeys_def dom_map_of_conv_image_fst image_image)
  have "ll_map code sep l = map_of (map ?f (take i l @ l ! i # drop (Suc i) l))"
    using l by (simp add: ll_map_def)
  then show ?thesis
    using out assms(2,3)
    by (auto simp: ll_map_def upd_conv_take_nth_drop fun_eq_iff map_add_def domIff
        split: option.splits)
qed

lemma ll_map_remove_at:
  assumes "distinct (lkeys code sep l)" "i < length l"
  shows "ll_map code sep (remove_at i l) = (ll_map code sep l)(code (key_of sep (l ! i)) := None)"
proof -
  let ?f = "\<lambda>s. (code (key_of sep s), s)"
  let ?k = "code (key_of sep (l ! i))"
  have l: "l = take i l @ l ! i # drop (Suc i) l" using assms(2) by (rule id_take_nth_drop)
  have d: "distinct (lkeys code sep (take i l @ l ! i # drop (Suc i) l))" using assms(1) l by simp
  have out: "?k \<notin> dom (map_of (map ?f (take i l)))" "?k \<notin> dom (map_of (map ?f (drop (Suc i) l)))"
    using d by (auto simp: lkeys_def dom_map_of_conv_image_fst image_image)
  have "ll_map code sep l = map_of (map ?f (take i l @ l ! i # drop (Suc i) l))"
    using l by (simp add: ll_map_def)
  then show ?thesis
    using out
    by (auto simp: ll_map_def remove_at_def fun_eq_iff map_add_def domIff split: option.splits)
qed

lemma lkeys_update:
  assumes "i < length l" "code (key_of sep (l ! i)) = code (key_of sep s)"
  shows "lkeys code sep (l[i := s]) = lkeys code sep l"
  using assms unfolding lkeys_def map_update
  by (metis list_update_id nth_map)

lemma lkeys_insert_at: "lkeys code sep (insert_at i s l) = insert_at i (code (key_of sep s)) (lkeys code sep l)"
  by (simp add: lkeys_def map_insert_at)

lemma lkeys_remove_at: "lkeys code sep (remove_at i l) = remove_at i (lkeys code sep l)"
  by (simp add: lkeys_def map_remove_at)

lemma distinct_insert_at: "x \<notin> set xs \<Longrightarrow> distinct xs \<Longrightarrow> distinct (insert_at i x xs)"
proof -
  assume x: "x \<notin> set xs" and d: "distinct xs"
  have "distinct (take i xs @ drop i xs)" using d by simp
  then have "distinct (take i xs)" "distinct (drop i xs)" "set (take i xs) \<inter> set (drop i xs) = {}"
    unfolding distinct_append by blast+
  with x show ?thesis
    by (auto simp: insert_at_def dest: in_set_takeD in_set_dropD)
qed

lemma distinct_remove_at: "distinct xs \<Longrightarrow> distinct (remove_at i xs)"
proof -
  assume d: "distinct xs"
  have "set (take i xs) \<inter> set (drop (Suc i) xs) = {}"
    using d by (rule set_take_disj_set_drop_if_distinct) simp
  with d show ?thesis by (simp add: remove_at_def)
qed


subsection \<open>The comparison interface and the searches over it\<close>

text \<open>
  What the searches need of the comparison: it orders the strings as some linear order on codes
  does. Inside the locale \<open>search_loop_spec\<close> is the loop invariant of the binary search, and the
  lemmas after it are the contracts of the two searches and of the operations built on them.
\<close>

definition below :: "int list list \<Rightarrow> int list \<Rightarrow> int \<Rightarrow> bool" where
  "below K k i \<longleftrightarrow> (\<forall>j < length K. int j < i \<longrightarrow> K ! j < k)"

definition above :: "int list list \<Rightarrow> int list \<Rightarrow> int \<Rightarrow> bool" where
  "above K k i \<longleftrightarrow> (\<forall>j < length K. i < int j \<longrightarrow> k < K ! j)"

definition search_post :: "int list list \<Rightarrow> int list \<Rightarrow> (nat \<Rightarrow> nat) \<Rightarrow> int \<times> nat \<Rightarrow> bool" where
  "search_post K k run r \<longleftrightarrow>
     (case r of (c, m) \<Rightarrow>
        (c = 0 \<and> (\<exists>m' < length K. K ! m' = k \<and> m = run m'))
        \<or> (0 < c \<and> m < length K \<and> below K k (int m + 1) \<and> above K k (int m))
        \<or> (c < 0 \<and> m \<le> length K \<and> below K k (int m) \<and> above K k (int m - 1)))"

lemma sorted_below:
  assumes "sorted K" "m < length K" "K ! m < k"
  shows "below K k (int m + 1)"
  using assms sorted_nth_mono [of K _ m] by (force simp: below_def)

lemma sorted_above:
  assumes "sorted K" "m < length K" "k < K ! m"
  shows "above K k (int m - 1)"
proof -
  have "k < K ! j" if "j < length K" "int m - 1 < int j" for j
    using assms sorted_nth_mono [of K m j] that by simp
  then show ?thesis by (simp add: above_def)
qed

lemma below_above_notin: "below K k i \<Longrightarrow> above K k (i - 1) \<Longrightarrow> k \<notin> set K"
proof
  assume b: "below K k i" and a: "above K k (i - 1)" and "k \<in> set K"
  then obtain j where j: "j < length K" "K ! j = k" by (auto simp: in_set_conv_nth)
  show False
  proof (cases "int j < i")
    case True
    with b j show False by (force simp: below_def)
  next
    case False
    with a j show False by (force simp: above_def)
  qed
qed

locale key_compare =
  fixes cmp :: "cstr \<Rightarrow> cstr \<Rightarrow> int" and code :: "cstr \<Rightarrow> int list"
  assumes cmp_less: "cstr_ok a \<Longrightarrow> cstr_ok b \<Longrightarrow> cmp a b < 0 \<longleftrightarrow> code a < code b"
    and cmp_eq: "cstr_ok a \<Longrightarrow> cstr_ok b \<Longrightarrow> cmp a b = 0 \<longleftrightarrow> code a = code b"
begin

lemma cmp_greater: "cstr_ok a \<Longrightarrow> cstr_ok b \<Longrightarrow> 0 < cmp a b \<longleftrightarrow> code b < code a"
  using cmp_less [of a b] cmp_eq [of a b] by (metis linorder_cases not_less_iff_gr_or_eq)

lemma search_loop_spec:
  assumes "ll_sorted code sep l" "cstr_ok key"
    and "0 \<le> lo" "hi < int (length l)"
    and "below (lkeys code sep l) (code key) lo" "above (lkeys code sep l) (code key) hi"
    and "(0 < c \<and> lo = int mid + 1 \<and> mid < length l) \<or> (c < 0 \<and> (hi = int mid - 1 \<or> mid = 0 \<and> lo = 0))"
    and "mid \<le> length l"
  shows "search_post (lkeys code sep l) (code key) run (search_loop cmp run l key sep lo hi mid c)"
  using assms
proof (induction "nat (hi - lo + 1)" arbitrary: lo hi mid c rule: less_induct)
  case less
  show ?case
  proof (cases "c \<noteq> 0 \<and> lo \<le> hi")
    case False
    with less(8) have gt: "hi < lo" by auto
    have rw: "search_loop cmp run l key sep lo hi mid c = (c, mid)"
      using False by (subst search_loop.simps) auto
    show ?thesis
      using less(4-9) gt unfolding rw search_post_def
      by (auto simp: below_def above_def)
  next
    case True
    let ?m = "(hi + lo) div 2"
    have m: "lo \<le> ?m" "?m \<le> hi" using True by linarith+
    then have m': "nat ?m < length l" "int (nat ?m) = ?m" using less(4,5) by linarith+
    define c' where "c' = cmp key (key_of sep (l ! nat ?m))"
    have srt: "sorted (lkeys code sep l)" and ok: "ll_ok l"
      using less(2) by (auto simp: ll_sorted_def)
    have okm: "cstr_ok (key_of sep (l ! nat ?m))"
      using ok m'(1) by (intro cstr_ok_key_of ll_ok_nth)
    have step: "search_loop cmp run l key sep lo hi mid c =
        (if 0 < c' then search_loop cmp run l key sep (?m + 1) hi (nat ?m) c'
         else if c' < 0 then search_loop cmp run l key sep lo (?m - 1) (nat ?m) c'
         else (0, run (nat ?m)))"
      using True by (subst search_loop.simps) (simp add: c'_def Let_def)
    consider "0 < c'" | "c' < 0" | "c' = 0" by linarith
    then show ?thesis
    proof cases
      case 1
      then have "code (key_of sep (l ! nat ?m)) < code key"
        using cmp_greater [OF less(3) okm] by (simp add: c'_def)
      then have "below (lkeys code sep l) (code key) (int (nat ?m) + 1)"
        using srt m'(1) by (intro sorted_below) auto
      then have "search_post (lkeys code sep l) (code key) run
          (search_loop cmp run l key sep (?m + 1) hi (nat ?m) c')"
        using 1 m m' less by (intro less.hyps) auto
      with 1 show ?thesis by (simp add: step)
    next
      case 2
      then have "code key < code (key_of sep (l ! nat ?m))"
        using cmp_less [OF less(3) okm] by (simp add: c'_def)
      then have "above (lkeys code sep l) (code key) (int (nat ?m) - 1)"
        using srt m'(1) by (intro sorted_above) auto
      then have "search_post (lkeys code sep l) (code key) run
          (search_loop cmp run l key sep lo (?m - 1) (nat ?m) c')"
        using 2 m m' less by (intro less.hyps) auto
      with 2 show ?thesis by (simp add: step)
    next
      case 3
      then have "code (key_of sep (l ! nat ?m)) = code key"
        using cmp_eq [OF less(3) okm] by (simp add: c'_def)
      with 3 m' show ?thesis
        unfolding step search_post_def by auto
    qed
  qed
qed

lemma search_spec:
  assumes "ll_sorted code sep l" "cstr_ok key"
  shows "search_post (lkeys code sep l) (code key) run
    (search_loop cmp run l key sep 0 (int (length l) - 1) 0 (-1))"
  by (rule search_loop_spec) (use assms in \<open>auto simp: below_def above_def\<close>)

lemma last_run_spec:
  assumes "ll_sorted code sep l" "cstr_ok key" "m < length l" "code (key_of sep (l ! m)) = code key"
  shows "last_run cmp l key sep m < length l
    \<and> code (key_of sep (l ! last_run cmp l key sep m)) = code key
    \<and> above (lkeys code sep l) (code key) (int (last_run cmp l key sep m))"
  using assms
proof (induction "length l - m" arbitrary: m rule: less_induct)
  case less
  have ok: "cstr_ok (key_of sep (l ! (m + 1)))" if "m + 1 < length l"
    using less(2) that by (intro cstr_ok_key_of ll_ok_nth) (auto simp: ll_sorted_def)
  show ?case
  proof (cases "m + 1 < length l \<and> cmp (key_of sep (l ! (m + 1))) key = 0")
    case True
    then have "last_run cmp l key sep m = last_run cmp l key sep (m + 1)"
      by (subst last_run.simps) simp
    moreover have "code (key_of sep (l ! (m + 1))) = code key"
      using True cmp_eq [OF ok less(3)] by simp
    moreover have "length l - (m + 1) < length l - m"
      using True by (intro diff_less_mono2) auto
    ultimately show ?thesis using less(1) [of "m + 1"] less(2,3) True by auto
  next
    case False
    then have r: "last_run cmp l key sep m = m" by (subst last_run.simps) auto
    have "code key < lkeys code sep l ! j" if j: "j < length l" "m < j" for j
    proof -
      have m1: "m + 1 < length l" using j by simp
      have srt: "sorted (lkeys code sep l)" using less(2) by (simp add: ll_sorted_def)
      have "code (key_of sep (l ! (m + 1))) \<noteq> code key"
        using False m1 cmp_eq [OF ok less(3)] by simp
      moreover have "lkeys code sep l ! m \<le> lkeys code sep l ! (m + 1)"
        using srt m1 by (intro sorted_nth_mono) auto
      ultimately have "code key < lkeys code sep l ! (m + 1)" using less(4,5) m1 by simp
      also have "\<dots> \<le> lkeys code sep l ! j" using srt j by (intro sorted_nth_mono) auto
      finally show ?thesis .
    qed
    with r less(4,5) show ?thesis by (simp add: above_def)
  qed
qed

lemma first_run_spec:
  assumes "ll_sorted code sep l" "cstr_ok key" "m < length l" "code (key_of sep (l ! m)) = code key"
  shows "first_run cmp l key sep m < length l
    \<and> code (key_of sep (l ! first_run cmp l key sep m)) = code key
    \<and> below (lkeys code sep l) (code key) (int (first_run cmp l key sep m))"
  using assms
proof (induction m)
  case 0
  then show ?case by (simp add: below_def)
next
  case (Suc m)
  have ok: "cstr_ok (key_of sep (l ! m))"
    using Suc(2,4) by (intro cstr_ok_key_of ll_ok_nth) (auto simp: ll_sorted_def)
  have eq: "cmp (key_of sep (l ! m)) key = 0 \<longleftrightarrow> code (key_of sep (l ! m)) = code key"
    using ok Suc(3) by (rule cmp_eq)
  show ?case
  proof (cases "cmp (key_of sep (l ! m)) key = 0")
    case True
    with Suc eq show ?thesis by simp
  next
    case False
    have srt: "sorted (lkeys code sep l)" using Suc(2) by (simp add: ll_sorted_def)
    then have "lkeys code sep l ! m \<le> lkeys code sep l ! Suc m"
      using Suc(4) by (intro sorted_nth_mono) auto
    with False eq Suc(4,5) have "lkeys code sep l ! m < code key" by simp
    with srt Suc(4) have "below (lkeys code sep l) (code key) (int m + 1)"
      by (intro sorted_below) auto
    with False Suc(4,5) show ?thesis by (simp add: add.commute)
  qed
qed


lemma find_last_spec:
  assumes "ll_sorted code sep l" "cstr_ok key"
  shows "case find_last cmp l key sep of (c, m) \<Rightarrow>
    (c = 0 \<and> m < length l \<and> code (key_of sep (l ! m)) = code key
       \<and> above (lkeys code sep l) (code key) (int m))
    \<or> (0 < c \<and> m < length l \<and> below (lkeys code sep l) (code key) (int m + 1)
       \<and> above (lkeys code sep l) (code key) (int m))
    \<or> (c < 0 \<and> m \<le> length l \<and> below (lkeys code sep l) (code key) (int m)
       \<and> above (lkeys code sep l) (code key) (int m - 1))"
  using search_spec [OF assms, of "last_run cmp l key sep"] last_run_spec [OF assms]
  by (auto simp: find_last_def search_post_def split: prod.splits)

lemma find_first_spec:
  assumes "ll_sorted code sep l" "cstr_ok key"
  shows "case find_first cmp l key sep of (c, m) \<Rightarrow>
    (c = 0 \<longleftrightarrow> code key \<in> set (lkeys code sep l))
    \<and> (c = 0 \<longrightarrow> m < length l \<and> code (key_of sep (l ! m)) = code key
         \<and> below (lkeys code sep l) (code key) (int m))"
proof -
  obtain c m where r: "find_first cmp l key sep = (c, m)" by fastforce
  note post = search_spec [OF assms, of "first_run cmp l key sep"]
  show ?thesis
  proof (cases "c = 0")
    case True
    with post r first_run_spec [OF assms] show ?thesis
      by (auto simp: find_first_def search_post_def in_set_conv_nth)
  next
    case False
    with post r have "(\<forall>j < length l. lkeys code sep l ! j < code key \<or> code key < lkeys code sep l ! j)"
      by (force simp: find_first_def search_post_def below_def above_def)
    then have "code key \<notin> set (lkeys code sep l)"
      by (auto simp: in_set_conv_nth)
    with False r show ?thesis by simp
  qed
qed

lemma find_first_map:
  assumes "ll_uniq code sep l" "cstr_ok key"
  shows "find_first cmp l key sep = (c, m) \<Longrightarrow>
    (c = 0 \<longleftrightarrow> ll_map code sep l (code key) \<noteq> None)
    \<and> (c = 0 \<longrightarrow> m < length l \<and> code (key_of sep (l ! m)) = code key
         \<and> ll_map code sep l (code key) = Some (l ! m))"
proof -
  assume r: "find_first cmp l key sep = (c, m)"
  have u: "ll_sorted code sep l" "distinct (lkeys code sep l)"
    using assms(1) by (auto simp: ll_uniq_def)
  from find_first_spec [OF u(1) assms(2)] r
  have "c = 0 \<longleftrightarrow> code key \<in> dom (ll_map code sep l)"
    and "c = 0 \<longrightarrow> m < length l \<and> code (key_of sep (l ! m)) = code key"
    by (auto simp: dom_ll_map)
  with ll_map_nth [OF u(2)] show ?thesis by force
qed

lemma place_insert:
  assumes "ll_sorted code sep l" "cstr_ok s"
  shows "\<exists>i \<le> length l. place_line l s False (find_last cmp l (key_of sep s) sep) = insert_at i s l
    \<and> (\<forall>j < i. lkeys code sep l ! j \<le> code (key_of sep s))
    \<and> (\<forall>j < length l. i \<le> j \<longrightarrow> code (key_of sep s) < lkeys code sep l ! j)"
proof -
  obtain c m where r: "find_last cmp l (key_of sep s) sep = (c, m)" by fastforce
  let ?k = "code (key_of sep s)" and ?K = "lkeys code sep l"
  have srt: "sorted ?K" using assms(1) by (simp add: ll_sorted_def)
  have le: "?K ! j \<le> ?k" if "m < length l" "code (key_of sep (l ! m)) = ?k" "j < m + 1" for j
    using sorted_nth_mono [OF srt, of j m] that by simp
  note spec = find_last_spec [OF assms(1) cstr_ok_key_of [OF assms(2)], of sep, unfolded r split_conv]
  consider "c = 0" | "0 < c" | "c < 0" by linarith
  then show ?thesis
  proof cases
    case 1
    with spec le r show ?thesis
      by (intro exI [of _ "m + 1"]) (auto simp: place_line_def above_def)
  next
    case 2
    with spec r show ?thesis
      by (intro exI [of _ "m + 1"]) (auto simp: place_line_def above_def below_def intro: less_imp_le)
  next
    case 3
    with spec r show ?thesis
      by (intro exI [of _ m]) (auto simp: place_line_def above_def below_def intro: less_imp_le)
  qed
qed

lemma place_sorted:
  assumes "ll_sorted code sep l" "cstr_ok s"
  shows "ll_sorted code sep (place_line l s False (find_last cmp l (key_of sep s) sep))"
proof -
  obtain i where i: "i \<le> length l"
    "place_line l s False (find_last cmp l (key_of sep s) sep) = insert_at i s l"
    "\<forall>j < i. lkeys code sep l ! j \<le> code (key_of sep s)"
    "\<forall>j < length l. i \<le> j \<longrightarrow> code (key_of sep s) < lkeys code sep l ! j"
    using place_insert [OF assms] by blast
  have "sorted (lkeys code sep (insert_at i s l))"
    unfolding lkeys_insert_at
    by (rule sorted_insert_at) (use assms i in \<open>auto simp: ll_sorted_def intro: less_imp_le\<close>)
  with i(2) assms show ?thesis by (auto simp: ll_sorted_def ll_ok_def)
qed

lemma place_uniq:
  assumes "ll_uniq code sep l" "cstr_ok s"
  shows "ll_uniq code sep (place_line l s True (find_last cmp l (key_of sep s) sep))
    \<and> ll_map code sep (place_line l s True (find_last cmp l (key_of sep s) sep))
        = (ll_map code sep l)(code (key_of sep s) \<mapsto> s)"
proof -
  obtain c m where r: "find_last cmp l (key_of sep s) sep = (c, m)" by fastforce
  let ?k = "code (key_of sep s)" and ?K = "lkeys code sep l"
  have srt: "ll_sorted code sep l" and dis: "distinct ?K" and ok: "ll_ok l"
    using assms(1) by (auto simp: ll_uniq_def ll_sorted_def)
  note spec = find_last_spec [OF srt cstr_ok_key_of [OF assms(2)], of sep, unfolded r split_conv]
  show ?thesis
  proof (cases "c = 0")
    case True
    then have l': "place_line l s True (find_last cmp l (key_of sep s) sep) = l[m := s]"
      by (simp add: r place_line_def)
    from spec True have m: "m < length l" "code (key_of sep (l ! m)) = ?k" by auto
    have "ll_ok (l[m := s])"
      using ok assms(2) set_update_subset_insert [of l m s] by (auto simp: ll_ok_def)
    with m srt dis show ?thesis
      unfolding l' ll_uniq_def ll_sorted_def
      by (simp add: lkeys_update ll_map_update)
  next
    case False
    then have l': "place_line l s True (find_last cmp l (key_of sep s) sep) =
        place_line l s False (find_last cmp l (key_of sep s) sep)"
      by (simp add: r place_line_def)
    from False spec have "below ?K ?k (int m) \<and> above ?K ?k (int m - 1)
        \<or> below ?K ?k (int m + 1) \<and> above ?K ?k (int m + 1 - 1)"
      by auto
    then have out: "?k \<notin> set ?K" using below_above_notin by blast
    obtain i where i: "place_line l s False (find_last cmp l (key_of sep s) sep) = insert_at i s l"
      using place_insert [OF srt assms(2)] by blast
    have "ll_sorted code sep (insert_at i s l)"
      using place_sorted [OF srt assms(2)] i by simp
    with out dis show ?thesis
      unfolding l' i ll_uniq_def
      by (simp add: lkeys_insert_at distinct_insert_at ll_map_insert_at)
  qed
qed

lemma remove_uniq:
  assumes "ll_uniq code sep l" "i < length l"
  shows "ll_uniq code sep (Remove_line_list l (int i))
    \<and> ll_map code sep (Remove_line_list l (int i))
        = (ll_map code sep l)(code (key_of sep (l ! i)) := None)"
proof -
  have "ll_ok (remove_at i l)"
    using assms(1) set_remove_at_subset [of i l] by (auto simp: ll_uniq_def ll_sorted_def ll_ok_def)
  moreover have "sorted (lkeys code sep l)" and dis: "distinct (lkeys code sep l)"
    using assms(1) by (auto simp: ll_uniq_def ll_sorted_def)
  then have "sorted (remove_at i (lkeys code sep l))" "distinct (remove_at i (lkeys code sep l))"
    by (auto intro: sorted_remove_at distinct_remove_at)
  ultimately have "ll_uniq code sep (remove_at i l)"
    unfolding ll_uniq_def ll_sorted_def lkeys_remove_at by blast
  moreover have "Remove_line_list l (int i) = remove_at i l"
    using assms(2) by (simp add: Remove_line_list_def)
  ultimately show ?thesis using ll_map_remove_at [where code = code, OF dis assms(2)] by simp
qed

end

interpretation nocase: key_compare cmp_nocase fold_codes
  by unfold_locales (simp_all add: cmp_nocase_def safestrcasecmp_def strcasecmp_sgn)

interpretation withcase: key_compare cmp_case codes
  by unfold_locales (simp_all add: cmp_case_def safestrcmp_def strcmp_sgn)

subsection \<open>Properties\<close>

text \<open>
  C1: adding a line to a list kept sorted and unique by key is the update of a map: the result is
  again sorted and unique, the key of the new line is bound to the new line, and every other key
  keeps its line. The binary search finds the right place whatever the case of the keys.
\<close>

theorem Add_line_list_uniq:
  assumes "ll_uniq fold_codes sep l" "cstr_ok s"
  shows "ll_uniq fold_codes sep (Add_line_list l s sep True True)
    \<and> ll_map fold_codes sep (Add_line_list l s sep True True)
      = (ll_map fold_codes sep l)(fold_codes (key_of sep s) \<mapsto> s)"
  using nocase.place_uniq [OF assms] by (simp add: Add_line_list_def Find_last_key_def)

lemma Add_line_list_uniq_witness:
  "ll_map fold_codes (Some ''='')
     (Add_line_list [''a=1'', ''c=2''] ''B=3'' (Some ''='') True True) (fold_codes ''b'')
   = Some ''B=3''"
proof -
  have "ll_uniq fold_codes (Some ''='') [''a=1'', ''c=2'']" "cstr_ok ''B=3''"
    by code_simp+
  moreover have "fold_codes (key_of (Some ''='') ''B=3'') = fold_codes ''b''" by code_simp
  ultimately show ?thesis
    using Add_line_list_uniq [of "Some ''=''" "[''a=1'', ''c=2'']" "''B=3''"] by simp
qed

text \<open>
  Adding a line to a sorted list that may hold a key more than once inserts it behind every
  line whose key is not larger, and before every line whose key is larger, so that the list stays
  sorted and lines with equal keys keep the order in which they came.
\<close>

theorem Add_line_list_stable:
  assumes "ll_sorted fold_codes sep l" "cstr_ok s"
  shows "ll_sorted fold_codes sep (Add_line_list l s sep True False)
    \<and> (\<exists>i \<le> length l. Add_line_list l s sep True False = take i l @ s # drop i l
         \<and> (\<forall>j < i. fold_codes (key_of sep (l ! j)) \<le> fold_codes (key_of sep s))
         \<and> (\<forall>j < length l. i \<le> j \<longrightarrow> fold_codes (key_of sep s) < fold_codes (key_of sep (l ! j))))"
proof -
  obtain i where "i \<le> length l"
    "place_line l s False (find_last cmp_nocase l (key_of sep s) sep) = insert_at i s l"
    "\<forall>j < i. lkeys fold_codes sep l ! j \<le> fold_codes (key_of sep s)"
    "\<forall>j < length l. i \<le> j \<longrightarrow> fold_codes (key_of sep s) < lkeys fold_codes sep l ! j"
    using nocase.place_insert [OF assms] by blast
  with nocase.place_sorted [OF assms] show ?thesis
    by (auto simp: Add_line_list_def Find_last_key_def insert_at_def intro!: exI [of _ i])
qed

lemma Add_line_list_stable_witness:
  "\<exists>i \<le> 2. Add_line_list [''a=1'', ''b=2''] ''A=3'' (Some ''='') True False
     = take i [''a=1'', ''b=2''] @ ''A=3'' # drop i [''a=1'', ''b=2'']"
proof -
  have "ll_sorted fold_codes (Some ''='') [''a=1'', ''b=2'']" "cstr_ok ''A=3''"
    by code_simp+
  from Add_line_list_stable [OF this] show ?thesis by (auto simp: numeral_2_eq_2)
qed

text \<open>
  Looking a key up in a sorted list reports a hit exactly if some line has that key, and then
  the index it returns is that of the first such line.
\<close>

theorem Find_first_key_correct:
  assumes "ll_sorted fold_codes sep l" "cstr_ok key" "Find_first_key l key sep = (c, m)"
  shows "(c = 0 \<longleftrightarrow> (\<exists>s\<in>set l. fold_codes (key_of sep s) = fold_codes key))
    \<and> (c = 0 \<longrightarrow> m < length l \<and> fold_codes (key_of sep (l ! m)) = fold_codes key
         \<and> (\<forall>j < m. fold_codes (key_of sep (l ! j)) < fold_codes key))"
proof -
  have "fold_codes key \<in> set (lkeys fold_codes sep l) \<longleftrightarrow>
      (\<exists>s\<in>set l. fold_codes (key_of sep s) = fold_codes key)"
    unfolding lkeys_def by force
  with nocase.find_first_spec [OF assms(1,2)] assms(3) show ?thesis
    by (auto simp: Find_first_key_def below_def)
qed

lemma Find_first_key_correct_witness:
  "\<exists>s\<in>set [''a=1'', ''B=2'', ''b=3'', ''d=4'']. fold_codes (key_of (Some ''='') s) = fold_codes ''b''"
proof -
  have "ll_sorted fold_codes (Some ''='') [''a=1'', ''B=2'', ''b=3'', ''d=4'']" "cstr_ok ''b''"
    "Find_first_key [''a=1'', ''B=2'', ''b=3'', ''d=4''] ''b'' (Some ''='') = (0, 1)"
    by code_simp+
  from Find_first_key_correct [OF this] show ?thesis by blast
qed

end
