(* ===== verification/KeyValue.thy ===== *)
theory KeyValue
  imports LineList
begin

section \<open>Line lists as key/value stores (linelist.c)\<close>

text \<open>
  Jobs, printcap entries, job tickets and configuration are line lists used as stores:
  \<open>Set_str_value\<close> and \<open>Find_str_value\<close>, their case-sensitive versions, and the flag and decimal
  values on top of them. The locale \<open>kv_store\<close> is the contract of a store; it is interpreted on
  \<open>Set_str_value\<close>/\<open>Find_str_value\<close> (keys without case) and on
  \<open>Set_casekey_str_value\<close>/\<open>Find_casekey_str_value\<close> (keys with case). The contract holds on lists
  whose lines have the form \<open>key=value\<close> (\<open>kv_inv\<close>): the lists are sorted by the part before \<open>=\<close> or
  \<open>#\<close> and searched by the part before any of \<open>Option_value_sep\<close>, so a key with a blank or an \<open>@\<close>
  would be looked for in the wrong place.
\<close>

subsection \<open>The contract\<close>

definition norm_val :: "cstr option \<Rightarrow> cstr option" where
  "norm_val v = (case v of Some [] \<Rightarrow> None | _ \<Rightarrow> v)"

definition val_ok :: "cstr option \<Rightarrow> bool" where
  "val_ok v \<longleftrightarrow> (case v of None \<Rightarrow> True | Some s \<Rightarrow> cstr_ok s)"

definition put_all :: "('s \<Rightarrow> cstr \<Rightarrow> cstr option \<Rightarrow> 's) \<Rightarrow> 's \<Rightarrow> (cstr \<times> cstr option) list \<Rightarrow> 's" where
  "put_all put s kvs = foldl (\<lambda>s (k, v). put s k v) s kvs"

lemma norm_val_simps [simp]:
  "norm_val None = None" "norm_val (Some []) = None" "norm_val (Some (c # v)) = Some (c # v)"
  by (simp_all add: norm_val_def)

lemma val_ok_simps [simp]: "val_ok None" "val_ok (Some s) \<longleftrightarrow> cstr_ok s"
  by (simp_all add: val_ok_def)

lemma put_all_simps [simp]:
  "put_all put s [] = s" "put_all put s ((k, v) # kvs) = put_all put (put s k v) kvs"
  by (simp_all add: put_all_def)

locale kv_store =
  fixes inv :: "'s \<Rightarrow> bool"
    and get :: "'s \<Rightarrow> cstr \<Rightarrow> cstr option"
    and put :: "'s \<Rightarrow> cstr \<Rightarrow> cstr option \<Rightarrow> 's"
    and code :: "cstr \<Rightarrow> int list"
    and kok :: "cstr \<Rightarrow> bool"
  assumes put_inv: "inv s \<Longrightarrow> kok k \<Longrightarrow> val_ok v \<Longrightarrow> inv (put s k v)"
    and get_put: "inv s \<Longrightarrow> kok k \<Longrightarrow> val_ok v \<Longrightarrow> kok k' \<Longrightarrow>
      get (put s k v) k' = (if code k = code k' then norm_val v else get s k')"
begin

lemma get_put_same: "inv s \<Longrightarrow> kok k \<Longrightarrow> val_ok v \<Longrightarrow> get (put s k v) k = norm_val v"
  by (simp add: get_put)

lemma put_put:
  "inv s \<Longrightarrow> kok k \<Longrightarrow> val_ok v \<Longrightarrow> val_ok w \<Longrightarrow> kok k' \<Longrightarrow>
    get (put (put s k v) k w) k' = get (put s k w) k'"
  by (simp add: get_put put_inv)

lemma put_commute:
  "inv s \<Longrightarrow> kok k \<Longrightarrow> kok j \<Longrightarrow> val_ok v \<Longrightarrow> val_ok w \<Longrightarrow> kok k' \<Longrightarrow> code k \<noteq> code j \<Longrightarrow>
    get (put (put s k v) j w) k' = get (put (put s j w) k v) k'"
  by (auto simp: get_put put_inv)

lemma put_all_inv:
  "inv s \<Longrightarrow> \<forall>(k, v)\<in>set kvs. kok k \<and> val_ok v \<Longrightarrow> inv (put_all put s kvs)"
  by (induction kvs arbitrary: s) (auto simp: put_inv)

lemma get_put_all:
  "inv s \<Longrightarrow> \<forall>(k, v)\<in>set kvs. kok k \<and> val_ok v \<Longrightarrow> kok k' \<Longrightarrow>
    get (put_all put s kvs) k' =
      (case map_of (rev (map (\<lambda>(k, v). (code k, norm_val v)) kvs)) (code k') of
         Some w \<Rightarrow> w | None \<Rightarrow> get s k')"
proof (induction kvs arbitrary: s)
  case Nil
  then show ?case by simp
next
  case (Cons kv kvs)
  obtain k v where kv: "kv = (k, v)" by fastforce
  have ok: "kok k" "val_ok v" using Cons.prems(2) kv by auto
  have "get (put_all put (put s k v) kvs) k' =
      (case map_of (rev (map (\<lambda>(k, v). (code k, norm_val v)) kvs)) (code k') of
         Some w \<Rightarrow> w | None \<Rightarrow> get (put s k v) k')"
    using Cons.prems ok by (intro Cons.IH) (auto intro: put_inv)
  then show ?case
    using Cons.prems(1,3) ok by (auto simp: kv map_add_def get_put split: option.splits)
qed

end

subsection \<open>The stores of the program\<close>

definition kv_clean :: "cstr \<Rightarrow> bool" where
  "kv_clean s \<longleftrightarrow> key_of (Some Hash_value_sep) s = key_of (Some Option_value_sep) s"

definition kv_inv :: "line_list \<Rightarrow> bool" where
  "kv_inv l \<longleftrightarrow> ll_uniq fold_codes (Some Hash_value_sep) l \<and> (\<forall>s\<in>set l. kv_clean s)"

definition kv_case_inv :: "line_list \<Rightarrow> bool" where
  "kv_case_inv l \<longleftrightarrow> ll_uniq codes (Some Hash_value_sep) l"

definition key_ok :: "cstr \<Rightarrow> bool" where
  "key_ok k \<longleftrightarrow> cstr_ok k \<and> set k \<inter> set Option_value_sep = {}"

definition hkey_ok :: "cstr \<Rightarrow> bool" where
  "hkey_ok k \<longleftrightarrow> cstr_ok k \<and> set k \<inter> set Hash_value_sep = {}"

text \<open>The value a list holds for a key: what follows the \<open>=\<close> of the line with that key.\<close>

definition kv_value :: "cstr \<Rightarrow> cstr option \<Rightarrow> cstr option" where
  "kv_value seps line = (case line of None \<Rightarrow> None | Some s \<Rightarrow> after_equals (strpbrk s seps))"

lemma kv_inv_Nil [simp]: "kv_inv []"
  by (simp add: kv_inv_def ll_uniq_def ll_sorted_def ll_ok_def lkeys_def)

lemma kv_case_inv_Nil [simp]: "kv_case_inv []"
  by (simp add: kv_case_inv_def ll_uniq_def ll_sorted_def ll_ok_def lkeys_def)

lemma seps_in [simp]:
  "CHR ''='' \<in> set Option_value_sep" "CHR ''='' \<in> set Hash_value_sep"
  "CHR ''@'' \<in> set Option_value_sep" "CHR ''#'' \<in> set Option_value_sep"
  "CHR ''#'' \<in> set Hash_value_sep"
  by (simp_all add: Option_value_sep_def Hash_value_sep_def)

lemma Hash_sub_Option: "set Hash_value_sep \<subseteq> set Option_value_sep"
  by (auto simp: Option_value_sep_def Hash_value_sep_def)

lemma key_ok_hkey_ok: "key_ok k \<Longrightarrow> hkey_ok k"
  using Hash_sub_Option by (auto simp: key_ok_def hkey_ok_def)

lemma key_ok_cstr_ok: "key_ok k \<Longrightarrow> cstr_ok k"
  by (simp add: key_ok_def)

lemma key_of_line:
  assumes "key_ok k"
  shows "key_of (Some Hash_value_sep) (k @ CHR ''='' # v) = k"
    and "key_of (Some Option_value_sep) (k @ CHR ''='' # v) = k"
    and "strpbrk (k @ CHR ''='' # v) Option_value_sep = Some (CHR ''='' # v)"
  using assms Hash_sub_Option
  by (auto simp: key_ok_def intro!: key_of_append strpbrk_append_hit)

lemma hkey_of_line:
  assumes "hkey_ok k"
  shows "key_of (Some Hash_value_sep) (k @ CHR ''='' # v) = k"
    and "strpbrk (k @ CHR ''='' # v) Hash_value_sep = Some (CHR ''='' # v)"
  using assms by (auto simp: hkey_ok_def intro!: key_of_append strpbrk_append_hit)

lemma kv_inv_option_sep:
  assumes "kv_inv l"
  shows "ll_uniq fold_codes (Some Option_value_sep) l"
    and "ll_map fold_codes (Some Option_value_sep) l = ll_map fold_codes (Some Hash_value_sep) l"
proof -
  have eq: "\<forall>s\<in>set l. key_of (Some Hash_value_sep) s = key_of (Some Option_value_sep) s"
    using assms by (auto simp: kv_inv_def kv_clean_def)
  then have "lkeys fold_codes (Some Option_value_sep) l = lkeys fold_codes (Some Hash_value_sep) l"
    by (auto simp: lkeys_def)
  with assms show "ll_uniq fold_codes (Some Option_value_sep) l"
    by (simp add: kv_inv_def ll_uniq_def ll_sorted_def)
  from eq have "map (\<lambda>s. (fold_codes (key_of (Some Option_value_sep) s), s)) l =
      map (\<lambda>s. (fold_codes (key_of (Some Hash_value_sep) s), s)) l"
    by auto
  then show "ll_map fold_codes (Some Option_value_sep) l = ll_map fold_codes (Some Hash_value_sep) l"
    by (simp only: ll_map_def)
qed

lemma Find_first_key_kv:
  assumes "kv_inv l" "cstr_ok k" "Find_first_key l k (Some Option_value_sep) = (c, m)"
  shows "(c = 0 \<longleftrightarrow> ll_map fold_codes (Some Hash_value_sep) l (fold_codes k) \<noteq> None)
    \<and> (c = 0 \<longrightarrow> ll_map fold_codes (Some Hash_value_sep) l (fold_codes k) = Some (l ! m))"
  using nocase.find_first_map [OF kv_inv_option_sep(1) [OF assms(1)] assms(2)] assms(3)
  by (auto simp: Find_first_key_def kv_inv_option_sep(2) [OF assms(1)])

lemma Find_str_value_kv:
  assumes "kv_inv l" "cstr_ok k"
  shows "Find_str_value l k =
    kv_value Option_value_sep (ll_map fold_codes (Some Hash_value_sep) l (fold_codes k))"
proof -
  obtain c m where r: "Find_first_key l k (Some Option_value_sep) = (c, m)" by fastforce
  from Find_first_key_kv [OF assms r] r show ?thesis
    by (auto simp: Find_str_value_def kv_value_def split: option.splits)
qed

lemma Find_casekey_str_value_kv:
  assumes "kv_case_inv l" "cstr_ok k"
  shows "Find_casekey_str_value l k (Some Hash_value_sep) =
    kv_value Hash_value_sep (ll_map codes (Some Hash_value_sep) l (codes k))"
proof -
  obtain c m where r: "Find_first_casekey l k (Some Hash_value_sep) = (c, m)" by fastforce
  from withcase.find_first_map [of _ l k, OF _ assms(2)] assms(1) r show ?thesis
    by (fastforce simp: Find_casekey_str_value_def Find_first_casekey_def kv_value_def kv_case_inv_def
        split: option.splits)
qed

subsection \<open>Adding and removing keep the store\<close>

lemma set_place_line: "set (place_line l s uniq r) \<subseteq> insert s (set l)"
  using set_update_subset_insert [of l "snd r" s] by (auto simp: place_line_def split: prod.splits)

lemma Add_line_list_kv:
  assumes "kv_inv l" "key_ok k" "cstr_ok v"
  shows "kv_inv (Add_line_list l (k @ CHR ''='' # v) (Some Hash_value_sep) True True)
    \<and> ll_map fold_codes (Some Hash_value_sep)
        (Add_line_list l (k @ CHR ''='' # v) (Some Hash_value_sep) True True)
      = (ll_map fold_codes (Some Hash_value_sep) l)(fold_codes k \<mapsto> k @ CHR ''='' # v)"
proof -
  let ?s = "k @ CHR ''='' # v" and ?l = "Add_line_list l (k @ CHR ''='' # v) (Some Hash_value_sep) True True"
  have "cstr_ok ?s"
    using assms(2,3) by (simp add: key_ok_def NUL_def)
  with assms(1) nocase.place_uniq [of "Some Hash_value_sep" l ?s]
  have u: "ll_uniq fold_codes (Some Hash_value_sep) ?l"
    and m: "ll_map fold_codes (Some Hash_value_sep) ?l =
      (ll_map fold_codes (Some Hash_value_sep) l)(fold_codes k \<mapsto> ?s)"
    by (auto simp: Add_line_list_def Find_last_key_def kv_inv_def key_of_line(1) [OF assms(2)])
  have "set ?l \<subseteq> insert ?s (set l)"
    by (simp add: Add_line_list_def set_place_line)
  moreover have "kv_clean ?s"
    using assms(2) by (simp add: kv_clean_def key_of_line)
  ultimately show ?thesis
    using u m assms(1) by (auto simp: kv_inv_def)
qed

lemma Add_casekey_kv:
  assumes "kv_case_inv l" "hkey_ok k" "cstr_ok v"
  shows "kv_case_inv (Add_casekey_line_list l (k @ CHR ''='' # v) (Some Hash_value_sep))
    \<and> ll_map codes (Some Hash_value_sep)
        (Add_casekey_line_list l (k @ CHR ''='' # v) (Some Hash_value_sep))
      = (ll_map codes (Some Hash_value_sep) l)(codes k \<mapsto> k @ CHR ''='' # v)"
proof -
  have "cstr_ok (k @ CHR ''='' # v)"
    using assms(2,3) by (simp add: hkey_ok_def NUL_def)
  with assms(1) withcase.place_uniq [of "Some Hash_value_sep" l "k @ CHR ''='' # v"] show ?thesis
    by (auto simp: Add_casekey_line_list_def Find_last_casekey_def kv_case_inv_def
        hkey_of_line(1) [OF assms(2)])
qed

lemma Set_None_kv:
  assumes "kv_inv l" "key_ok k" "norm_val v = None"
  shows "kv_inv (Set_str_value l k v)
    \<and> ll_map fold_codes (Some Hash_value_sep) (Set_str_value l k v)
      = (ll_map fold_codes (Some Hash_value_sep) l)(fold_codes k := None)"
proof -
  obtain c m where r: "Find_first_key l k (Some Hash_value_sep) = (c, m)" by fastforce
  have u: "ll_uniq fold_codes (Some Hash_value_sep) l" using assms(1) by (simp add: kv_inv_def)
  have f: "(c = 0 \<longleftrightarrow> ll_map fold_codes (Some Hash_value_sep) l (fold_codes k) \<noteq> None)
      \<and> (c = 0 \<longrightarrow> m < length l \<and> fold_codes (key_of (Some Hash_value_sep) (l ! m)) = fold_codes k)"
    using nocase.find_first_map [OF u key_ok_cstr_ok [OF assms(2)]] r
    by (auto simp: Find_first_key_def)
  have v: "v = None \<or> v = Some []"
    using assms(3) by (auto simp: norm_val_def split: option.splits list.splits)
  then have s: "Set_str_value l k v = (if c = 0 then Remove_line_list l (int m) else l)"
    using r by (auto simp: Set_str_value_def)
  show ?thesis
  proof (cases "c = 0")
    case True
    with f have m: "m < length l" by simp
    have "set (Remove_line_list l (int m)) \<subseteq> set l"
      using m by (simp add: Remove_line_list_def set_remove_at_subset)
    with nocase.remove_uniq [OF u m] True f s assms(1) show ?thesis
      by (auto simp: kv_inv_def)
  next
    case False
    with s f assms(1) show ?thesis by (auto simp: fun_upd_idem)
  qed
qed

lemma Set_casekey_None_kv:
  assumes "kv_case_inv l" "hkey_ok k" "norm_val v = None"
  shows "kv_case_inv (Set_casekey_str_value l k v)
    \<and> ll_map codes (Some Hash_value_sep) (Set_casekey_str_value l k v)
      = (ll_map codes (Some Hash_value_sep) l)(codes k := None)"
proof -
  obtain c m where r: "Find_first_casekey l k (Some Hash_value_sep) = (c, m)" by fastforce
  have u: "ll_uniq codes (Some Hash_value_sep) l" and k: "cstr_ok k"
    using assms(1,2) by (auto simp: kv_case_inv_def hkey_ok_def)
  have f: "(c = 0 \<longleftrightarrow> ll_map codes (Some Hash_value_sep) l (codes k) \<noteq> None)
      \<and> (c = 0 \<longrightarrow> m < length l \<and> codes (key_of (Some Hash_value_sep) (l ! m)) = codes k)"
    using withcase.find_first_map [OF u k] r by (auto simp: Find_first_casekey_def)
  have v: "v = None \<or> v = Some []"
    using assms(3) by (auto simp: norm_val_def split: option.splits list.splits)
  then have s: "Set_casekey_str_value l k v = (if c = 0 then Remove_line_list l (int m) else l)"
    using r by (auto simp: Set_casekey_str_value_def)
  show ?thesis
  proof (cases "c = 0")
    case True
    with withcase.remove_uniq [OF u] f s show ?thesis by (auto simp: kv_case_inv_def)
  next
    case False
    with s f assms(1) show ?thesis by (auto simp: fun_upd_idem)
  qed
qed

lemma Set_str_value_kv:
  assumes "kv_inv l" "key_ok k" "val_ok v"
  shows "kv_inv (Set_str_value l k v)
    \<and> ll_map fold_codes (Some Hash_value_sep) (Set_str_value l k v)
      = (ll_map fold_codes (Some Hash_value_sep) l)(fold_codes k :=
           map_option (\<lambda>w. k @ CHR ''='' # w) (norm_val v))"
proof (cases "norm_val v")
  case None
  with Set_None_kv [OF assms(1,2) None] show ?thesis by simp
next
  case (Some w)
  then have v: "v = Some w" "w \<noteq> []" by (auto simp: norm_val_def split: option.splits list.splits)
  with Add_line_list_kv [OF assms(1,2)] assms(3) Some show ?thesis
    by (simp add: Set_str_value_def safestrdup3_def opt_str_def)
qed

lemma Set_casekey_str_value_kv:
  assumes "kv_case_inv l" "hkey_ok k" "val_ok v"
  shows "kv_case_inv (Set_casekey_str_value l k v)
    \<and> ll_map codes (Some Hash_value_sep) (Set_casekey_str_value l k v)
      = (ll_map codes (Some Hash_value_sep) l)(codes k :=
           map_option (\<lambda>w. k @ CHR ''='' # w) (norm_val v))"
proof (cases "norm_val v")
  case None
  with Set_casekey_None_kv [OF assms(1,2) None] show ?thesis by simp
next
  case (Some w)
  then have v: "v = Some w" "w \<noteq> []" by (auto simp: norm_val_def split: option.splits list.splits)
  with Add_casekey_kv [OF assms(1,2)] assms(3) Some show ?thesis
    by (simp add: Set_casekey_str_value_def safestrdup3_def opt_str_def)
qed

interpretation kv: kv_store kv_inv Find_str_value Set_str_value fold_codes key_ok
proof
  fix s :: line_list and k k' :: cstr and v :: "cstr option"
  assume a: "kv_inv s" "key_ok k" "val_ok v"
  show i: "kv_inv (Set_str_value s k v)" using Set_str_value_kv [OF a] by blast
  assume k': "key_ok k'"
  show "Find_str_value (Set_str_value s k v) k' =
      (if fold_codes k = fold_codes k' then norm_val v else Find_str_value s k')"
    using Set_str_value_kv [OF a] a(1)
    by (auto simp: Find_str_value_kv i key_ok_cstr_ok [OF k'] kv_value_def key_of_line(3) [OF a(2)]
        after_equals_def split: option.splits)
qed

interpretation ckv: kv_store kv_case_inv "\<lambda>l k. Find_casekey_str_value l k (Some Hash_value_sep)"
  Set_casekey_str_value codes hkey_ok
proof
  fix s :: line_list and k k' :: cstr and v :: "cstr option"
  assume a: "kv_case_inv s" "hkey_ok k" "val_ok v"
  show i: "kv_case_inv (Set_casekey_str_value s k v)" using Set_casekey_str_value_kv [OF a] by blast
  assume k': "hkey_ok k'"
  then have "cstr_ok k'" "strpbrk (k' @ CHR ''='' # w) Hash_value_sep = Some (CHR ''='' # w)" for w
    by (simp_all add: hkey_ok_def hkey_of_line(2) [OF k'])
  then show "Find_casekey_str_value (Set_casekey_str_value s k v) k' (Some Hash_value_sep) =
      (if codes k = codes k' then norm_val v
       else Find_casekey_str_value s k' (Some Hash_value_sep))"
    using Set_casekey_str_value_kv [OF a] a(1)
    by (auto simp: Find_casekey_str_value_kv i kv_value_def hkey_of_line(2) [OF a(2)]
        after_equals_def split: option.splits)
qed

subsection \<open>Flags and numbers\<close>

text \<open>
  A flag is stored as \<open>key=0x...\<close> and a number as \<open>key=...\<close>, both through a buffer of
  \<open>SMALLBUFFER\<close> bytes, so the round trip needs a key that fits; a flag is read back with
  \<open>strtol\<close> and cut to an \<open>int\<close>, so it needs a value that is an \<open>int\<close> and, since a negative
  \<open>long\<close> is printed as the 64-bit pattern, one that is not negative.
\<close>

definition flag_key :: "cstr \<Rightarrow> bool" where
  "flag_key k \<longleftrightarrow> key_ok k \<and> (\<forall>c\<in>set k. \<not> iscntrl c) \<and> length k \<le> 480"

lemma length_nat_digits: "2 \<le> b \<Longrightarrow> n < b ^ Suc k \<Longrightarrow> length (nat_digits b n) \<le> Suc k"
proof (induction k arbitrary: n)
  case 0
  then show ?case by (subst nat_digits.simps) simp
next
  case (Suc k)
  show ?case
  proof (cases "n < b")
    case True
    then show ?thesis by (subst nat_digits.simps) simp
  next
    case False
    have "n div b < b ^ Suc k"
      using Suc.prems by (simp add: less_mult_imp_div_less mult.commute)
    then have "length (nat_digits b (n div b)) \<le> Suc k" using Suc by simp
    with False Suc.prems show ?thesis by (subst nat_digits.simps) simp
  qed
qed

lemma cstr_ok_nat_digits: "2 \<le> b \<Longrightarrow> b \<le> 16 \<Longrightarrow> cstr_ok (nat_digits b n)"
  using nat_digits_clean [of b NUL n] by (auto simp: cstr_ok_def)

lemma length_dec_text: "INT_MIN \<le> v \<Longrightarrow> v \<le> INT_MAX \<Longrightarrow> length (dec_text v) \<le> 11"
proof -
  assume "INT_MIN \<le> v" "v \<le> INT_MAX"
  then have "nat (- v) < 10 ^ Suc 9" "nat v < 10 ^ Suc 9"
    by (auto simp: INT_MIN_def INT_MAX_def)
  from length_nat_digits [OF _ this(1)] length_nat_digits [OF _ this(2)] show ?thesis
    by (simp add: dec_text_def)
qed

lemma cstr_ok_dec_text: "cstr_ok (dec_text v)"
  by (simp add: dec_text_def cstr_ok_nat_digits NUL_def)

lemma text_dec_value:
  "- 9223372036854775808 \<le> v \<Longrightarrow> v \<le> 9223372036854775807 \<Longrightarrow>
   dopr_text fd em vis ''%s=%ld'' [AStr (Some k), ALong v] = Some (visible vis k @ ''='' @ dec_text v)"
  by (simp add: fmt_eval fmtnum_dec)

lemma snprintf_hex_value:
  assumes "flag_key k" "0 \<le> v" "v \<le> INT_MAX"
  shows "plp_snprintf SMALLBUFFER ''%s=0x%lx'' [AStr (Some k), ALong v] =
    k @ CHR ''='' # ''0x'' @ nat_digits 16 (nat v)"
proof -
  have "nat v < 16 ^ Suc 7" using assms(2,3) by (auto simp: INT_MAX_def)
  then have len: "length (nat_digits 16 (nat v)) \<le> 8"
    using length_nat_digits [of 16 "nat v" 7] by simp
  have v: "v mod 18446744073709551616 = v" using assms(2,3) by (simp add: INT_MAX_def)
  have room: "31 \<le> 511 - length k" using assms(1) unfolding flag_key_def by linarith
  have vis: "visible True k = k" using assms(1) by (intro visible_clean) (simp add: flag_key_def)
  have ok: "cstr_ok (k @ ''=0x'' @ nat_digits 16 (nat v))"
    using assms(1) by (simp add: flag_key_def key_ok_def cstr_ok_nat_digits NUL_def)
  show ?thesis
    using snprintf_text [OF text_hex_value [of _ _ _ k v], of SMALLBUFFER] ok room len 
    by (simp add: vis v SMALLBUFFER_def flag_key_def)
qed

lemma snprintf_dec_value:
  assumes "flag_key k" "INT_MIN \<le> v" "v \<le> INT_MAX"
  shows "plp_snprintf SMALLBUFFER ''%s=%ld'' [AStr (Some k), ALong v] = k @ CHR ''='' # dec_text v"
proof -
  have v: "- 9223372036854775808 \<le> v" "v \<le> 9223372036854775807"
    using assms(2,3) by (simp_all add: INT_MIN_def INT_MAX_def)
  have room: "31 \<le> 511 - length k" using assms(1) unfolding flag_key_def by linarith
  have vis: "visible True k = k" using assms(1) by (intro visible_clean) (simp add: flag_key_def)
  have ok: "cstr_ok (k @ ''='' @ dec_text v)"
    using assms(1) by (simp add: flag_key_def key_ok_def cstr_ok_dec_text NUL_def)
  show ?thesis
    using snprintf_text [OF text_dec_value [OF v, of _ _ _ k], of SMALLBUFFER] ok room 
      length_dec_text [OF assms(2,3)]
    by (simp add: vis SMALLBUFFER_def flag_key_def)
qed

lemma Find_value_kv:
  assumes "kv_inv l" "cstr_ok k"
  shows "Find_value l k =
    (case ll_map fold_codes (Some Hash_value_sep) l (fold_codes k) of
       None \<Rightarrow> ''0'' | Some s \<Rightarrow> Fix_val (strpbrk s Option_value_sep))"
proof -
  obtain c m where r: "Find_first_key l k (Some Option_value_sep) = (c, m)" by fastforce
  from Find_first_key_kv [OF assms r] r show ?thesis
    by (auto simp: Find_value_def split: option.splits)
qed

lemma Find_value_add:
  assumes "kv_inv l" "key_ok k" "key_ok k'" "cstr_ok v"
  shows "Find_value (Add_line_list l (k @ CHR ''='' # v) (Some Hash_value_sep) True True) k' =
    (if fold_codes k = fold_codes k' then dropWhile isspace v else Find_value l k')"
  using Add_line_list_kv [OF assms(1,2,4)] assms(1) key_ok_cstr_ok [OF assms(3)]
  by (simp add: Find_value_kv key_of_line(3) [OF assms(2)] Fix_val_def)

lemma Set_flag_value_inv:
  assumes "kv_inv l" "flag_key k" "0 \<le> v" "v \<le> INT_MAX"
  shows "kv_inv (Set_flag_value l k v)"
  using assms Add_line_list_kv [of l k "''0x'' @ nat_digits 16 (nat v)"]
  by (simp add: Set_flag_value_def snprintf_hex_value flag_key_def cstr_ok_nat_digits NUL_def)

lemma Set_flag_value_get:
  assumes "kv_inv l" "flag_key k" "key_ok k'" "0 \<le> v" "v \<le> INT_MAX"
  shows "Find_flag_value (Set_flag_value l k v) k' =
    (if fold_codes k = fold_codes k' then v else Find_flag_value l k')"
proof -
  have "cstr_ok (''0x'' @ nat_digits 16 (nat v))"
    by (simp add: cstr_ok_nat_digits NUL_def)
  then have f: "Find_value (Set_flag_value l k v) k' =
      (if fold_codes k = fold_codes k' then ''0x'' @ nat_digits 16 (nat v) else Find_value l k')"
    using Find_value_add [of l k k' "''0x'' @ nat_digits 16 (nat v)"] assms
    by (simp add: Set_flag_value_def snprintf_hex_value flag_key_def isspace_def ccode_def)
  have "to_int (clamp_long v) = v"
    using assms(4,5) by (simp add: clamp_long_id LONG_MIN_def LONG_MAX_def INT_MAX_def to_int_def)
  with f assms(4) strtol_hex [of "nat v"] show ?thesis
    by (simp add: Find_flag_value_def)
qed

text \<open>The string and the number functions read the same lines.\<close>

lemma Set_flag_value_str:
  assumes "kv_inv l" "flag_key k" "key_ok k'" "0 \<le> v" "v \<le> INT_MAX"
  shows "Find_str_value (Set_flag_value l k v) k' =
    (if fold_codes k = fold_codes k' then Some (''0x'' @ nat_digits 16 (nat v)) else Find_str_value l k')"
  using Add_line_list_kv [of l k "''0x'' @ nat_digits 16 (nat v)"] assms key_ok_cstr_ok [of k']
  by (simp add: Find_str_value_kv Set_flag_value_def snprintf_hex_value flag_key_def kv_value_def
      cstr_ok_nat_digits NUL_def key_of_line(3) [of k] after_equals_def)

lemma Set_str_value_flag:
  assumes "kv_inv l" "key_ok k" "val_ok v" "key_ok k'" "fold_codes k \<noteq> fold_codes k'"
  shows "Find_flag_value (Set_str_value l k v) k' = Find_flag_value l k'"
  using Set_str_value_kv [OF assms(1-3)] assms key_ok_cstr_ok [of k']
  by (simp add: Find_flag_value_def Find_value_kv)

lemma strpbrk_set: "strpbrk s seps = Some t \<Longrightarrow> set t \<subseteq> set s"
  by (induction s) (auto split: if_splits)

lemma Find_str_value_val_ok:
  assumes "kv_inv l" "cstr_ok k"
  shows "val_ok (Find_str_value l k)"
proof (cases "Find_str_value l k")
  case (Some v)
  then obtain s c where s: "ll_map fold_codes (Some Hash_value_sep) l (fold_codes k) = Some s"
    "strpbrk s Option_value_sep = Some (c # v)"
    by (auto simp: Find_str_value_kv [OF assms] kv_value_def after_equals_def
        split: option.splits list.splits if_splits)
  then have "s \<in> set l" by (auto simp: ll_map_def dest: map_of_SomeD)
  with assms(1) have "cstr_ok s" by (auto simp: kv_inv_def ll_uniq_def ll_sorted_def ll_ok_def)
  with strpbrk_set [OF s(2)] Some show ?thesis by (auto simp: cstr_ok_def)
qed simp

lemma strtol_dec_text: "strtol (dec_text v) 10 = (clamp_long v, [])"
proof (cases "v < 0")
  case False
  then show ?thesis by (simp add: dec_text_def strtol_dec)
next
  case True
  let ?ds = "nat_digits 10 (nat (- v))"
  have all: "\<forall>c\<in>set ?ds. digit_val c < 10"
    using nat_digits_set [of 10 "nat (- v)"] by (auto simp: digit_val_char)
  have "digits_value 10 ?ds = - v"
    using digits_value_nat_digits [of 10 "nat (- v)"] True by simp
  with True all show ?thesis
    by (simp add: dec_text_def strtol_def Let_def isspace_def ccode_def strtol_base_def takeWhile_all
        dropWhile_all nat_digits_nonempty)
qed

lemma Set_decimal_value_get:
  assumes "kv_inv l" "flag_key k" "key_ok k'" "INT_MIN \<le> v" "v \<le> INT_MAX"
  shows "Find_decimal_value (Set_decimal_value l k v) k' =
    (if fold_codes k = fold_codes k' then v else Find_decimal_value l k')"
proof -
  have "dropWhile isspace (dec_text v) = dec_text v"
  proof -
    have "\<not> isspace (hd (dec_text v))"
      using nat_digits_clean [of 10 "hd (nat_digits 10 (nat v))" "nat v"]
        nat_digits_nonempty [of 10 "nat v"]
      by (auto simp: dec_text_def ctype_defs ccode_def)
    moreover have "dec_text v \<noteq> []" by (simp add: dec_text_def nat_digits_nonempty)
    ultimately show ?thesis by (cases "dec_text v") auto
  qed
  then have f: "Find_value (Set_decimal_value l k v) k' =
      (if fold_codes k = fold_codes k' then dec_text v else Find_value l k')"
    using Find_value_add [of l k k' "dec_text v"] assms
    by (simp add: Set_decimal_value_def snprintf_dec_value flag_key_def cstr_ok_dec_text)
  have "to_int (clamp_long v) = v"
    using assms(4,5)
    by (simp add: clamp_long_id LONG_MIN_def LONG_MAX_def INT_MAX_def INT_MIN_def to_int_def)
  with f strtol_dec_text [of v] show ?thesis
    by (simp add: Find_decimal_value_def Let_def)
qed

subsection \<open>Duplicates and merging\<close>

lemma Remove_duplicates_spec:
  "ll_ok l \<Longrightarrow> set (Remove_duplicates_line_list l) = set l \<and> distinct (Remove_duplicates_line_list l)"
proof (induction l rule: Remove_duplicates_line_list.induct)
  case (2 s l)
  have eq: "filter (\<lambda>t. safestrcmp (Some s) (Some t) \<noteq> 0) l = filter (\<lambda>t. t \<noteq> s) l"
    using 2(2) by (intro filter_cong) (auto simp: safestrcmp_def ll_ok_def strcmp_eq_0_iff)
  have "ll_ok (filter (\<lambda>t. t \<noteq> s) l)" using 2(2) by (auto simp: ll_ok_def)
  with 2(1) eq show ?case by auto
qed simp

lemma Merge_line_list_append:
  "Merge_line_list dest src sep False uniq = dest @ src"
  by (induction src arbitrary: dest) (auto simp: Merge_line_list_def Add_line_list_def)

lemma Merge_line_list_uniq:
  assumes "ll_uniq fold_codes sep dest" "ll_ok src"
  shows "ll_uniq fold_codes sep (Merge_line_list dest src sep True True)
    \<and> ll_map fold_codes sep (Merge_line_list dest src sep True True)
      = ll_map fold_codes sep dest ++ ll_map fold_codes sep (rev src)"
  using assms
proof (induction src arbitrary: dest)
  case Nil
  then show ?case by (simp add: Merge_line_list_def ll_map_def)
next
  case (Cons s src)
  let ?d = "Add_line_list dest s sep True True"
  have s: "cstr_ok s" and src: "ll_ok src" using Cons.prems(2) by (auto simp: ll_ok_def)
  have d: "ll_uniq fold_codes sep ?d
      \<and> ll_map fold_codes sep ?d = (ll_map fold_codes sep dest)(fold_codes (key_of sep s) \<mapsto> s)"
    using nocase.place_uniq [OF Cons.prems(1) s]
    by (simp add: Add_line_list_def Find_last_key_def)
  have "Merge_line_list dest (s # src) sep True True = Merge_line_list ?d src sep True True"
    by (simp add: Merge_line_list_def)
  with Cons.IH [of ?d] d src show ?case
    by (simp add: ll_map_def)
qed

subsection \<open>Properties\<close>

text \<open>
  C2: a list of \<open>key=value\<close> lines is a store: after \<open>Set_str_value\<close> the key that was set, in any
  case, has the new value (none, when the value was null or empty), every other key has the value
  it had, and the list is again such a store.
\<close>

theorem Set_str_value_store:
  assumes "kv_inv l" "key_ok k" "val_ok v" "key_ok k'"
  shows "kv_inv (Set_str_value l k v)
    \<and> Find_str_value (Set_str_value l k v) k' =
        (if fold_codes k = fold_codes k' then norm_val v else Find_str_value l k')"
  using kv.put_inv [OF assms(1-3)] kv.get_put [OF assms] by blast

lemma Set_str_value_store_witness:
  "Find_str_value (Set_str_value [''a=1'', ''host=x''] ''Queue'' (Some ''lp'')) ''queue'' = Some ''lp''"
proof -
  have "kv_inv [''a=1'', ''host=x'']" "key_ok ''Queue''" "val_ok (Some ''lp'')" "key_ok ''queue''"
    by code_simp+
  moreover have "fold_codes ''Queue'' = fold_codes ''queue''" by code_simp
  ultimately show ?thesis
    using Set_str_value_store [of "[''a=1'', ''host=x'']" "''Queue''" "Some ''lp''" "''queue''"]
    by simp
qed

text \<open>
  The same for the case-sensitive keys of control files: \<open>Set_casekey_str_value\<close> changes the
  value of exactly the key it is given.
\<close>

theorem Set_casekey_store:
  assumes "kv_case_inv l" "hkey_ok k" "val_ok v" "hkey_ok k'"
  shows "kv_case_inv (Set_casekey_str_value l k v)
    \<and> Find_casekey_str_value (Set_casekey_str_value l k v) k' (Some Hash_value_sep) =
        (if k = k' then norm_val v else Find_casekey_str_value l k' (Some Hash_value_sep))"
  using ckv.put_inv [OF assms(1-3)] ckv.get_put [OF assms] by simp

lemma Set_casekey_store_witness:
  "Find_casekey_str_value (Set_casekey_str_value [''A=1'', ''J=x''] ''a'' (Some ''2'')) ''A''
     (Some Hash_value_sep) = Some ''1''"
proof -
  have "kv_case_inv [''A=1'', ''J=x'']" "hkey_ok ''a''" "val_ok (Some ''2'')" "hkey_ok ''A''"
    "Find_casekey_str_value [''A=1'', ''J=x''] ''A'' (Some Hash_value_sep) = Some ''1''"
    by code_simp+
  with Set_casekey_store [of "[''A=1'', ''J=x'']" "''a''" "Some ''2''" "''A''"] show ?thesis
    by simp
qed

text \<open>
  A flag set to a value that is a non-negative \<open>int\<close> reads back as that value through the
  hexadecimal text in the buffer, and no other flag changes.
\<close>

theorem Set_flag_roundtrip:
  assumes "kv_inv l" "flag_key k" "key_ok k'" "0 \<le> v" "v \<le> INT_MAX"
  shows "Find_flag_value (Set_flag_value l k v) k' =
    (if fold_codes k = fold_codes k' then v else Find_flag_value l k')"
  using assms by (rule Set_flag_value_get)

lemma Set_flag_roundtrip_witness:
  "Find_flag_value (Set_flag_value [''a=1''] ''copies'' 300) ''copies'' = 300"
proof -
  have "kv_inv [''a=1'']" "flag_key ''copies''" "key_ok ''copies''" "0 \<le> (300::int)" "300 \<le> INT_MAX"
    by code_simp+
  from Set_flag_roundtrip [OF this] show ?thesis by simp
qed

text \<open>
  A decimal value in the range of an \<open>int\<close>, negative or not, reads back as it was set, and no
  other value changes.
\<close>

theorem Set_decimal_roundtrip:
  assumes "kv_inv l" "flag_key k" "key_ok k'" "INT_MIN \<le> v" "v \<le> INT_MAX"
  shows "Find_decimal_value (Set_decimal_value l k v) k' =
    (if fold_codes k = fold_codes k' then v else Find_decimal_value l k')"
  using assms by (rule Set_decimal_value_get)

lemma Set_decimal_roundtrip_witness:
  "Find_decimal_value (Set_decimal_value [''a=1''] ''size'' (-7)) ''size'' = -7"
proof -
  have "kv_inv [''a=1'']" "flag_key ''size''" "key_ok ''size''" "INT_MIN \<le> -7" "-7 \<le> INT_MAX"
    by code_simp+
  from Set_decimal_roundtrip [OF this] show ?thesis by simp
qed

end
