(* ===== verification/LineListMem.thy ===== *)
theory LineListMem
  imports KeyValue
begin

section \<open>The array behind a line list (linelist.c)\<close>

text \<open>
  \<open>struct line_list\<close> as the code has it: \<open>list\<close>, an array of \<open>max\<close> pointers, of which the first
  \<open>count\<close> are in use. \<open>cells\<close> is the array (its length is \<open>max\<close>; a cell is \<open>None\<close> when it is null or
  not initialised), and \<open>memmove\<close> is \<open>None\<close> when it would read or write outside the array, as is
  a store outside it. \<open>count\<close> and \<open>max\<close> are C ints that stay far from their bound, and a failed
  \<open>realloc\<close> ends the process. The lemmas show that \<open>Check_max (l, 2)\<close> makes every move of the
  insertion stay inside the array, although each moves one cell more than is in use, and that the
  array operations implement the list operations of the theory \<open>LineList\<close>.
\<close>

record larr =
  cells :: "cstr option list"
  count :: nat

definition Check_max :: "larr \<Rightarrow> nat \<Rightarrow> larr" where
  "Check_max l incr =
     (if length (cells l) \<le> count l + incr
      then l\<lparr>cells := cells l @ replicate (100 + incr) None\<rparr> else l)"

definition memmove :: "nat \<Rightarrow> nat \<Rightarrow> nat \<Rightarrow> cstr option list \<Rightarrow> cstr option list option" where
  "memmove dst src n xs =
     (if dst + n \<le> length xs \<and> src + n \<le> length xs
      then Some (take dst xs @ take n (drop src xs) @ drop (dst + n) xs) else None)"

definition store :: "nat \<Rightarrow> cstr option \<Rightarrow> cstr option list \<Rightarrow> cstr option list option" where
  "store i v xs = (if i < length xs then Some (xs[i := v]) else None)"

definition larr_lines :: "larr \<Rightarrow> line_list" where
  "larr_lines l = map the (take (count l) (cells l))"

text \<open>The body of \<open>Add_line_list\<close> on the array.\<close>

definition Add_line_mem :: "larr \<Rightarrow> cstr \<Rightarrow> cstr option \<Rightarrow> bool \<Rightarrow> bool \<Rightarrow> larr option" where
  "Add_line_mem l0 str sep srt uniq =
     (let l = Check_max l0 2 in
      if \<not> srt then
        (case store (count l) (Some str) (cells l) of
           None \<Rightarrow> None | Some c \<Rightarrow> Some \<lparr>cells = c, count = count l + 1\<rparr>)
      else
        (case Find_last_key (larr_lines l) (key_of sep str) sep of (cmp, mid) \<Rightarrow>
           if cmp = 0 \<and> uniq then
             (case store mid (Some str) (cells l) of
                None \<Rightarrow> None | Some c \<Rightarrow> Some \<lparr>cells = c, count = count l\<rparr>)
           else if 0 \<le> cmp then
             (let n = count l + 1 in
              case memmove (mid + 2) (mid + 1) (n - mid - 1) (cells l) of
                None \<Rightarrow> None
              | Some c \<Rightarrow> (case store (mid + 1) (Some str) c of
                  None \<Rightarrow> None | Some c' \<Rightarrow> Some \<lparr>cells = c', count = n\<rparr>))
           else
             (let n = count l + 1 in
              case memmove (mid + 1) mid (n - mid) (cells l) of
                None \<Rightarrow> None
              | Some c \<Rightarrow> (case store mid (Some str) c of
                  None \<Rightarrow> None | Some c' \<Rightarrow> Some \<lparr>cells = c', count = n\<rparr>))))"

definition Remove_line_mem :: "larr \<Rightarrow> int \<Rightarrow> larr option" where
  "Remove_line_mem l mid =
     (if 0 \<le> mid \<and> mid < int (count l) then
        (case store (nat mid) None (cells l) of
           None \<Rightarrow> None
         | Some c \<Rightarrow>
             (case memmove (nat mid) (nat mid + 1) (count l - nat mid - 1) c of
                None \<Rightarrow> None | Some c' \<Rightarrow> Some \<lparr>cells = c', count = count l - 1\<rparr>))
      else Some l)"

subsection \<open>The array operations implement the list operations\<close>

definition larr_ok :: "larr \<Rightarrow> bool" where
  "larr_ok l \<longleftrightarrow> count l \<le> length (cells l) \<and> (\<forall>i < count l. cells l ! i \<noteq> None)"

definition larr_init :: larr where
  "larr_init = \<lparr>cells = [], count = 0\<rparr>"

lemma larr_init_ok: "larr_ok larr_init \<and> larr_lines larr_init = []"
  by (simp add: larr_ok_def larr_lines_def larr_init_def)

lemma length_larr_lines: "larr_ok l \<Longrightarrow> length (larr_lines l) = count l"
  by (simp add: larr_ok_def larr_lines_def)

lemma larr_ok_split:
  assumes "larr_ok l"
  shows "\<exists>rest. cells l = map Some (larr_lines l) @ rest"
proof
  have "map Some (map the (take (count l) (cells l))) = take (count l) (cells l)"
    using assms by (intro nth_equalityI) (auto simp: larr_ok_def)
  then show "cells l = map Some (larr_lines l) @ drop (count l) (cells l)"
    by (simp add: larr_lines_def)
qed

lemma Check_max_ok:
  assumes "larr_ok l"
  shows "larr_ok (Check_max l incr)" "larr_lines (Check_max l incr) = larr_lines l"
    "count (Check_max l incr) = count l" "count l + incr < length (cells (Check_max l incr))"
  using assms by (auto simp: Check_max_def larr_ok_def larr_lines_def nth_append)

text \<open>An array given by the lines in use and the rest; the three moves in that form.\<close>

lemma larr_of:
  "larr_ok \<lparr>cells = map Some xs @ r, count = length xs\<rparr>"
  "larr_lines \<lparr>cells = map Some xs @ r, count = length xs\<rparr> = xs"
  by (simp_all add: larr_ok_def larr_lines_def nth_append comp_def)

lemma move_up:
  assumes "i \<le> length xs" "2 \<le> length r"
  shows "\<exists>c r'. memmove (i + 1) i (length xs + 1 - i) (map Some xs @ r) = Some c
    \<and> store i (Some s) c = Some (map Some (insert_at i s xs) @ r')"
proof -
  obtain a b r2 where r: "r = a # b # r2"
    using assms(2) by (metis Suc_le_length_iff numeral_2_eq_2)
  obtain x ys where xs: "map Some xs @ r = map Some (take i xs) @ x # ys"
    "x # ys = map Some (drop i xs) @ r"
  proof (cases "drop i xs")
    case Nil
    with assms(1) have "take i xs = xs" by simp
    with r Nil that show thesis by simp
  next
    case (Cons y zs)
    have "xs = take i xs @ y # zs" using Cons by (metis append_take_drop_id)
    then have "map Some xs @ r = map Some (take i xs) @ Some y # (map Some zs @ r)"
      by (metis append.assoc append_Cons list.simps(9) map_append)
    with Cons that show thesis by simp
  qed
  define n where "n = length xs + 1 - i"
  have n: "length xs - i = n - 1" "1 \<le> n" using assms(1) by (simp_all add: n_def)
  have len: "length (map Some xs @ r) = i + n + 1 + length r2"
    using assms(1) by (simp add: n_def r)
  have li: "length (map Some (take i xs)) = i" using assms(1) by simp
  have tk: "take n (x # ys) = map Some (drop i xs) @ [a]"
    unfolding xs(2) r using assms(1) by (simp add: n_def)
  have "drop (i + 1 + n) (map Some xs @ r) = r2"
    using assms(1) by (simp add: r n_def)
  moreover have "take (i + 1) (map Some xs @ r) = map Some (take i xs) @ [x]"
    unfolding xs(1) using li by simp
  moreover have "drop i (map Some xs @ r) = x # ys"
    unfolding xs(1) using li by simp
  ultimately have mv: "memmove (i + 1) i n (map Some xs @ r) =
      Some (map Some (take i xs) @ x # map Some (drop i xs) @ a # r2)"
    unfolding memmove_def using tk len by simp
  have "store i (Some s) (map Some (take i xs) @ x # map Some (drop i xs) @ a # r2) =
      Some (map Some (insert_at i s xs) @ a # r2)"
    unfolding store_def using li by (simp add: list_update_append insert_at_def)
  with mv show ?thesis unfolding n_def by blast
qed

lemma move_down:
  assumes "i < length xs"
  shows "\<exists>c c'. store i None (map Some xs @ r) = Some c
    \<and> memmove i (i + 1) (length xs - i - 1) c = Some c'
    \<and> (\<exists>r'. c' = map Some (remove_at i xs) @ r')"
proof -
  define c where "c = (map Some xs @ r)[i := None]"
  have t: "take i c = map Some (take i xs)" using assms by (simp add: c_def take_map)
  have d: "drop (Suc i) c = map Some (drop (Suc i) xs) @ r"
    using assms by (simp add: c_def drop_map)
  have n: "length xs - i - 1 = length (map Some (drop (Suc i) xs))" by simp
  have "i + (length xs - i - 1) \<le> length c" "i + 1 + (length xs - i - 1) \<le> length c"
    using assms by (simp_all add: c_def)
  then have "memmove i (i + 1) (length xs - i - 1) c =
      Some (take i c @ take (length xs - i - 1) (drop (Suc i) c) @ drop (i + (length xs - i - 1)) c)"
    by (simp add: memmove_def)
  also have "\<dots> = Some (map Some (remove_at i xs) @ drop (i + (length xs - i - 1)) c)"
    unfolding t d n remove_at_def by simp
  finally have "memmove i (i + 1) (length xs - i - 1) c =
      Some (map Some (remove_at i xs) @ drop (i + (length xs - i - 1)) c)" .
  moreover have "store i None (map Some xs @ r) = Some c"
    using assms by (simp add: store_def c_def)
  ultimately show ?thesis by blast
qed

lemma Remove_line_mem_refines:
  assumes "larr_ok l"
  shows "\<exists>l'. Remove_line_mem l mid = Some l' \<and> larr_ok l' \<and>
    larr_lines l' = Remove_line_list (larr_lines l) mid"
proof (cases "0 \<le> mid \<and> mid < int (count l)")
  case False
  with assms show ?thesis
    by (auto simp: Remove_line_mem_def Remove_line_list_def length_larr_lines)
next
  case True
  obtain r where r: "cells l = map Some (larr_lines l) @ r" using larr_ok_split [OF assms] by blast
  have n: "count l = length (larr_lines l)" using assms by (simp add: length_larr_lines)
  have i: "nat mid < length (larr_lines l)" using True n by linarith
  from move_down [OF i, of r] obtain c c' r' where
    "store (nat mid) None (cells l) = Some c"
    "memmove (nat mid) (nat mid + 1) (count l - nat mid - 1) c = Some c'"
    "c' = map Some (remove_at (nat mid) (larr_lines l)) @ r'"
    using r n by metis
  moreover have "count l - 1 = length (remove_at (nat mid) (larr_lines l))" using i n by simp
  ultimately show ?thesis
    using True n larr_of [of "remove_at (nat mid) (larr_lines l)" r']
    by (simp add: Remove_line_mem_def Remove_line_list_def)
qed

lemma last_run_range: "m < length l \<Longrightarrow> last_run cmp l key sep m < length l"
proof (induction "length l - m" arbitrary: m rule: less_induct)
  case less
  then show ?case
    by (subst last_run.simps) (auto intro!: less.hyps diff_less_mono2)
qed

lemma search_loop_range:
  assumes "0 \<le> lo" "hi < int (length l)" "0 \<le> c \<longrightarrow> mid < length l" "mid \<le> length l"
    and "\<And>m. m < length l \<Longrightarrow> run m < length l"
    and "search_loop cmp run l key sep lo hi mid c = (c', m')"
  shows "(0 \<le> c' \<longrightarrow> m' < length l) \<and> m' \<le> length l"
  using assms
proof (induction "nat (hi - lo + 1)" arbitrary: lo hi mid c rule: less_induct)
  case less
  let ?m = "(hi + lo) div 2"
  show ?case
  proof (cases "c \<noteq> 0 \<and> lo \<le> hi")
    case False
    with less(7) have "c' = c" "m' = mid" by (auto simp: search_loop.simps split: if_splits)
    with less(4,5) show ?thesis by simp
  next
    case True
    then have m: "lo \<le> ?m" "?m \<le> hi" by linarith+
    then have m': "nat ?m < length l" using less(2,3) by linarith
    define d where "d = cmp key (key_of sep (l ! nat ?m))"
    have step: "search_loop cmp run l key sep lo hi mid c =
        (if 0 < d then search_loop cmp run l key sep (?m + 1) hi (nat ?m) d
         else if d < 0 then search_loop cmp run l key sep lo (?m - 1) (nat ?m) d
         else (0, run (nat ?m)))"
      using True by (subst search_loop.simps) (simp add: d_def Let_def)
    consider "0 < d" | "d < 0" | "d = 0" by linarith
    then show ?thesis
    proof cases
      case 1
      show ?thesis
        by (rule less.hyps [of hi "?m + 1" d "nat ?m"]) (use 1 m m' step less in auto)
    next
      case 2
      show ?thesis
        by (rule less.hyps [of "?m - 1" lo d "nat ?m"]) (use 2 m m' step less in auto)
    next
      case 3
      then show ?thesis using step less(6) [OF m'] less(7) by auto
    qed
  qed
qed

lemma find_last_in_range:
  "find_last cmp l key sep = (c, m) \<Longrightarrow> (0 \<le> c \<longrightarrow> m < length l) \<and> m \<le> length l"
  unfolding find_last_def
  by (rule search_loop_range [where run = "last_run cmp l key sep"]) (auto intro: last_run_range)

lemma Add_line_mem_refines:
  assumes "larr_ok l"
  shows "\<exists>l'. Add_line_mem l s sep srt uniq = Some l' \<and> larr_ok l' \<and>
    larr_lines l' = Add_line_list (larr_lines l) s sep srt uniq"
proof -
  define a where "a = Check_max l 2"
  have a: "larr_ok a" "larr_lines a = larr_lines l" "count a = length (larr_lines l)"
    "count a + 2 < length (cells a)"
    using Check_max_ok [OF assms, of 2] assms by (simp_all add: a_def length_larr_lines)
  define xs where "xs = larr_lines l"
  obtain r where r: "cells a = map Some xs @ r"
    using larr_ok_split [OF a(1)] a(2) xs_def by metis
  have n: "count a = length xs" and r2: "2 < length r" using a r by (simp_all add: xs_def)
  show ?thesis
  proof (cases srt)
    case False
    obtain b r' where "r = b # r'" using r2 by (cases r) auto
    then have "store (count a) (Some s) (cells a) = Some (map Some (xs @ [s]) @ r')"
      by (simp add: store_def r n list_update_append)
    with False n show ?thesis
      using larr_of [of "xs @ [s]" r']
      by (simp add: Add_line_mem_def Let_def Add_line_list_def flip: a_def xs_def)
  next
    case True
    obtain c m where f: "Find_last_key xs (key_of sep s) sep = (c, m)" by fastforce
    then have m: "(0 \<le> c \<longrightarrow> m < length xs) \<and> m \<le> length xs"
      by (auto simp: Find_last_key_def dest: find_last_in_range)
    have f': "Find_last_key (larr_lines a) (key_of sep s) sep = (c, m)"
      using f a(2) by (simp add: xs_def)
    consider "c = 0" "uniq" | "0 \<le> c" "\<not> (c = 0 \<and> uniq)" | "c < 0" by linarith
    then show ?thesis
    proof cases
      case 1
      with m have "store m (Some s) (cells a) = Some (map Some (xs[m := s]) @ r)"
        by (simp add: store_def r list_update_append map_update)
      with 1 True f f' n show ?thesis
        using larr_of [of "xs[m := s]" r]
        by (simp add: Add_line_mem_def Let_def Add_line_list_def place_line_def
            flip: a_def xs_def)
    next
      case 2
      with m have m1: "m + 1 \<le> length xs" by auto
      from move_up [OF this, of r s] r2 obtain c' r' where
        "memmove (m + 1 + 1) (m + 1) (length xs + 1 - (m + 1)) (map Some xs @ r) = Some c'"
        "store (m + 1) (Some s) c' = Some (map Some (insert_at (m + 1) s xs) @ r')"
        by auto
      with 2 True f f' n m1 r show ?thesis
        using larr_of [of "insert_at (m + 1) s xs" r']
        by (auto simp: Add_line_mem_def Let_def Add_line_list_def place_line_def
            a_def [symmetric] xs_def [symmetric])
    next
      case 3
      with m have m1: "m \<le> length xs" by auto
      from move_up [OF this, of r s] r2 obtain c' r' where
        "memmove (m + 1) m (length xs + 1 - m) (map Some xs @ r) = Some c'"
        "store m (Some s) c' = Some (map Some (insert_at m s xs) @ r')"
        by auto
      with 3 True f f' n m1 r show ?thesis
        using larr_of [of "insert_at m s xs" r']
        by (simp add: Add_line_mem_def Let_def Add_line_list_def place_line_def
            flip: a_def xs_def)
    qed
  qed
qed

subsection \<open>Properties\<close>

text \<open>
  C23: on any array in good order, \<open>Add_line_list\<close> never reads or writes outside the array, leaves
  it in good order, and the lines it holds are those of the list operation.
\<close>

theorem Add_line_mem_correct:
  assumes "larr_ok l"
  shows "\<exists>l'. Add_line_mem l s sep srt uniq = Some l' \<and> larr_ok l' \<and>
    larr_lines l' = Add_line_list (larr_lines l) s sep srt uniq"
  using assms by (rule Add_line_mem_refines)

lemma Add_line_mem_correct_witness:
  "\<exists>l'. Add_line_mem \<lparr>cells = [Some ''a'', Some ''c'', None], count = 2\<rparr> ''b'' None True True = Some l'
     \<and> larr_lines l' = Add_line_list [''a'', ''c''] ''b'' None True True"
proof -
  have "larr_ok \<lparr>cells = [Some ''a'', Some ''c'', None], count = 2\<rparr>" by code_simp
  from Add_line_mem_correct [OF this, of "''b''" None True True] show ?thesis
    by (auto simp: larr_lines_def numeral_2_eq_2)
qed

text \<open>
  \<open>Remove_line_list\<close> never reads or writes outside the array for any index, leaves the array
  in good order, and removes exactly the line at the index.
\<close>

theorem Remove_line_mem_correct:
  assumes "larr_ok l"
  shows "\<exists>l'. Remove_line_mem l mid = Some l' \<and> larr_ok l' \<and>
    larr_lines l' = Remove_line_list (larr_lines l) mid"
  using assms by (rule Remove_line_mem_refines)

lemma Remove_line_mem_correct_witness:
  "\<exists>l'. Remove_line_mem \<lparr>cells = [Some ''a'', Some ''c'', None], count = 2\<rparr> 1 = Some l'
     \<and> larr_lines l' = Remove_line_list [''a'', ''c''] 1"
proof -
  have "larr_ok \<lparr>cells = [Some ''a'', Some ''c'', None], count = 2\<rparr>" by code_simp
  from Remove_line_mem_correct [OF this] show ?thesis
    by (auto simp: larr_lines_def numeral_2_eq_2)
qed

end
