(* ===== verification/Glob.thy ===== *)
theory Glob
  imports LineListMem
begin

section \<open>Glob patterns (globmatch.c)\<close>

text \<open>
  \<open>glob_pattern\<close> matches a string against a pattern with \<open>*\<close>, \<open>?\<close> and bracket classes, without
  case; the result is 0 for a match, as for a comparison. A pointer that is moved past the
  terminating NUL of the string is the result \<open>None\<close>: the next thing the code does with it is to
  read it. The characters of a class are compared as plain \<open>char\<close>, which is signed on the
  platforms the spooler is built on.
  The lemmas relate the matcher to the textbook definition of wildcards (\<open>wild\<close>).
\<close>

definition schar :: "char \<Rightarrow> int" where
  "schar c = (if ccode c < 128 then ccode c else ccode c - 256)"

definition deref :: "cstr \<Rightarrow> int" where
  "deref s = (case s of [] \<Rightarrow> 0 | c # _ \<Rightarrow> schar c)"

definition glob_meta :: cstr where
  "glob_meta = ''*?[''"

text \<open>
  The loop over the characters between the brackets: \<open>c\<close> is the last character taken, 0 at the
  start and after a range. It yields the C variable \<open>result\<close>: whether \<open>*str\<close> was not in the class.
\<close>

fun bracket_loop :: "int \<Rightarrow> int \<Rightarrow> cstr \<Rightarrow> bool" where
  "bracket_loop x c [] = True"
| "bracket_loop x c [p] = (x \<noteq> schar p)"
| "bracket_loop x c (p # q # ps) =
     (if c \<noteq> 0 \<and> p = CHR ''-''
      then (if c \<le> x \<and> x \<le> schar q then False else bracket_loop x 0 ps)
      else (if x = schar p then False else bracket_loop x (schar p) (q # ps)))"

definition bracket_result :: "cstr \<Rightarrow> cstr \<Rightarrow> bool" where
  "bracket_result cls str =
     (let invert = (take 1 cls = ''^'');
          r = bracket_loop (deref str) 0 (if invert then tl cls else cls)
      in if invert then \<not> r else r)"

lemma strpbrk_length: "strpbrk s seps = Some t \<Longrightarrow> length t \<le> length s"
  by (induction s) (auto split: if_splits)

lemma strchr_length: "strchr s c = Some t \<Longrightarrow> length t \<le> length s"
  by (induction s) (auto split: if_splits)

function (sequential) glob_pattern :: "cstr \<Rightarrow> cstr \<Rightarrow> int option"
  and glob_star :: "cstr \<Rightarrow> cstr \<Rightarrow> int option" where
  "glob_pattern pattern str =
     (case strpbrk pattern glob_meta of
        None \<Rightarrow> Some (safestrcasecmp (Some pattern) (Some str))
      | Some [] \<Rightarrow> Some 1
      | Some (c # rest) \<Rightarrow>
          (let len = length pattern - length (c # rest) in
           if len = 0 \<or> safestrncasecmp (Some pattern) (Some str) len = 0 then
             (let str' = drop len str in
              if c = CHR ''?'' then (if str' \<noteq> [] then glob_pattern rest (tl str') else Some 1)
              else if c = CHR ''['' then
                (case strchr rest CHR '']'' of
                   None \<Rightarrow> Some 1
                 | Some after \<Rightarrow>
                     if bracket_result (take (length rest - length after) rest) str' then Some 1
                     else if str' = [] then None
                     else glob_pattern (tl after) (tl str'))
              else if rest \<noteq> [] then glob_star rest str'
              else Some 0)
           else Some 1))"
| "glob_star pattern [] = Some 1"
| "glob_star pattern (c # str) =
     (case glob_pattern pattern (c # str) of
        None \<Rightarrow> None
      | Some r \<Rightarrow> if r = 0 then Some 0 else (if str = [] then Some r else glob_star pattern str))"
  by pat_completeness auto
termination
proof (relation "measures [\<lambda>x. case x of Inl (p, s) \<Rightarrow> length p | Inr (p, s) \<Rightarrow> length p,
    \<lambda>x. case x of Inl (p, s) \<Rightarrow> 2 * length s | Inr (p, s) \<Rightarrow> 2 * length s + 1]", goal_cases)
  case 1
  then show ?case by simp
qed (auto dest!: strpbrk_length strchr_length)

definition Globmatch :: "cstr option \<Rightarrow> cstr option \<Rightarrow> int option" where
  "Globmatch pattern str = glob_pattern (opt_str pattern) (opt_str str)"

declare glob_pattern.simps [simp del] glob_star.simps [simp del]

subsection \<open>The textbook definition of wildcards\<close>

fun wild :: "cstr \<Rightarrow> cstr \<Rightarrow> bool" where
  "wild [] s = (s = [])"
| "wild (p # ps) s =
     (if p = CHR ''*'' then (\<exists>k \<le> length s. wild ps (drop k s))
      else (case s of [] \<Rightarrow> False
            | c # cs \<Rightarrow> (p = CHR ''?'' \<or> tolower p = tolower c) \<and> wild ps cs))"

fun no_double_star :: "cstr \<Rightarrow> bool" where
  "no_double_star (p # q # ps) = (\<not> (p = CHR ''*'' \<and> q = CHR ''*'') \<and> no_double_star (q # ps))"
| "no_double_star _ = True"

lemma wild_literal:
  "set lits \<inter> set glob_meta = {} \<Longrightarrow>
   wild (lits @ r) s \<longleftrightarrow> length lits \<le> length s \<and> map tolower lits = map tolower (take (length lits) s)
     \<and> wild r (drop (length lits) s)"
proof (induction lits arbitrary: s)
  case Nil
  then show ?case by simp
next
  case (Cons p lits)
  then show ?case by (cases s) (auto simp: glob_meta_def)
qed

lemma ccode_tolower_eq [simp]: "ccode (tolower a) = ccode (tolower b) \<longleftrightarrow> tolower a = tolower b"
  by simp

lemma strncasecmp_literal:
  "cstr_ok lits \<Longrightarrow> cstr_ok s \<Longrightarrow>
   strncasecmp_loop (length lits) (lits @ r) s = 0 \<longleftrightarrow>
     length lits \<le> length s \<and> map tolower lits = map tolower (take (length lits) s)"
proof (induction lits arbitrary: s)
  case Nil
  then show ?case by simp
next
  case (Cons p lits)
  show ?case
  proof (cases s)
    case Nil
    with Cons.prems show ?thesis by (simp add: ccode_eq_0_iff)
  next
    case (Cons c cs)
    with Cons.prems Cons.IH [of cs] show ?thesis by (simp add: Let_def)
  qed
qed

lemma wild_plain:
  assumes "set p \<inter> set glob_meta = {}" "cstr_ok p" "cstr_ok s"
  shows "wild p s \<longleftrightarrow> strcasecmp_loop p s = 0"
proof -
  have "wild p s \<longleftrightarrow> map tolower p = map tolower s"
  proof (cases "length p = length s")
    case True
    with wild_literal [OF assms(1), of "[]" s] show ?thesis by simp
  next
    case False
    with wild_literal [OF assms(1), of "[]" s] show ?thesis by (auto dest: map_eq_imp_length_eq)
  qed
  also have "\<dots> \<longleftrightarrow> fold_codes p = fold_codes s"
    by (auto simp: fold_codes_def list_eq_iff_nth_eq)
  finally show ?thesis using strcasecmp_sgn [OF assms(2,3)] by simp
qed

text \<open>A pattern cut at its first wildcard.\<close>

lemma strpbrk_split:
  "strpbrk p seps = Some t \<Longrightarrow> \<exists>lits c r. p = lits @ c # r \<and> t = c # r \<and> c \<in> set seps
    \<and> set lits \<inter> set seps = {}"
proof (induction p)
  case (Cons x p)
  show ?case
  proof (cases "x \<in> set seps")
    case True
    with Cons.prems show ?thesis by (intro exI [of _ "[]"]) auto
  next
    case False
    with Cons obtain lits c r where "p = lits @ c # r" "t = c # r" "c \<in> set seps"
      "set lits \<inter> set seps = {}" by auto
    with False show ?thesis by (intro exI [of _ "x # lits"]) auto
  qed
qed simp

lemma no_double_star_append: "no_double_star (a @ b) \<Longrightarrow> no_double_star b"
proof (induction a)
  case (Cons x a)
  then show ?case by (cases "a @ b") auto
qed simp

lemma wild_nonempty:
  "p \<noteq> [] \<Longrightarrow> hd p \<noteq> CHR ''*'' \<Longrightarrow> \<not> wild p []"
  by (cases p) auto

lemma cstr_ok_drop: "cstr_ok s \<Longrightarrow> cstr_ok (drop n s)"
  by (rule cstr_ok_subset [OF _ set_drop_subset])

lemma cstr_ok_tl: "cstr_ok s \<Longrightarrow> cstr_ok (tl s)"
  using cstr_ok_drop [of s 1] by (simp add: drop_Suc)

definition simple_pattern :: "cstr \<Rightarrow> bool" where
  "simple_pattern p \<longleftrightarrow> CHR ''['' \<notin> set p \<and> no_double_star p \<and> cstr_ok p"

lemma simple_pattern_suffix: "simple_pattern (a @ b) \<Longrightarrow> simple_pattern b"
  using no_double_star_append by (auto simp: simple_pattern_def)

lemma simple_pattern_after_star:
  assumes "simple_pattern (lits @ CHR ''*'' # rest)"
  shows "rest = [] \<or> hd rest \<noteq> CHR ''*''"
proof -
  have "no_double_star (CHR ''*'' # rest)"
    using assms simple_pattern_suffix unfolding simple_pattern_def by blast
  then show ?thesis by (cases rest) auto
qed

lemma glob_wild:
  "simple_pattern p \<and> cstr_ok s \<longrightarrow> (\<exists>r. glob_pattern p s = Some r \<and> (r = 0 \<longleftrightarrow> wild p s))"
  "simple_pattern q \<and> q \<noteq> [] \<and> hd q \<noteq> CHR ''*'' \<and> cstr_ok t \<longrightarrow>
     (\<exists>r. glob_star q t = Some r \<and> (r = 0 \<longleftrightarrow> (\<exists>k \<le> length t. wild q (drop k t))))"
proof (induction p s and q t rule: glob_pattern_glob_star.induct)
  case (1 p s)
  show ?case
  proof
    assume a: "simple_pattern p \<and> cstr_ok s"
    show "\<exists>r. glob_pattern p s = Some r \<and> (r = 0 \<longleftrightarrow> wild p s)"
    proof (cases "strpbrk p glob_meta")
      case None
      then have "set p \<inter> set glob_meta = {}" by (simp add: strpbrk_None_iff)
      with a wild_plain [of p s] None show ?thesis
        by (simp add: glob_pattern.simps [of p s] safestrcasecmp_def simple_pattern_def)
    next
      case (Some u)
      then obtain lits c rest where p: "p = lits @ c # rest" "u = c # rest" "c \<in> set glob_meta"
        "set lits \<inter> set glob_meta = {}" using strpbrk_split by blast
      have ok: "cstr_ok lits" "simple_pattern rest" "c \<noteq> CHR ''[''"
        using a p(1) simple_pattern_suffix [of "lits @ [c]" rest] by (auto simp: simple_pattern_def)
      define n where "n = length lits"
      define s' where "s' = drop n s"
      have s': "cstr_ok s'" using a by (auto simp: s'_def cstr_ok_drop)
      have len: "length p - length (c # rest) = n" by (simp add: p(1) n_def)
      define hit where "hit \<longleftrightarrow> n = 0 \<or> safestrncasecmp (Some p) (Some s) n = 0"
      have hit: "hit \<longleftrightarrow> n \<le> length s \<and> map tolower lits = map tolower (take n s)"
        using strncasecmp_literal [of lits s "c # rest"] ok a
        by (auto simp: hit_def safestrncasecmp_def p(1) n_def)
      have w: "wild p s \<longleftrightarrow> hit \<and> wild (c # rest) s'"
        using wild_literal [OF p(4), of "c # rest" s] hit by (simp add: p(1) n_def s'_def)
      have g: "glob_pattern p s =
          (if hit then
             (if c = CHR ''?'' then (if s' \<noteq> [] then glob_pattern rest (tl s') else Some 1)
              else if rest \<noteq> [] then glob_star rest s' else Some 0)
           else Some 1)"
        using ok(3)
        unfolding glob_pattern.simps [of p s] Some p(2) option.case list.case Let_def len hit_def s'_def
        by simp
      show ?thesis
      proof (cases hit)
        case False
        with g w show ?thesis by simp
      next
        case True
        note IH = 1 [OF Some p(2), unfolded len, OF refl True [unfolded hit_def] s'_def]
        show ?thesis
        proof (cases "c = CHR ''?''")
          case True
          with IH(1) g w \<open>hit\<close> ok s' show ?thesis
            by (cases s') auto
        next
          case False
          with p(3) ok(3) have c: "c = CHR ''*''" by (auto simp: glob_meta_def)
          with a p(1) have "rest = [] \<or> hd rest \<noteq> CHR ''*''"
            using simple_pattern_after_star [of lits rest] by simp
          with IH(3) g w \<open>hit\<close> ok s' c show ?thesis
            by (cases "rest = []") auto
        qed
      qed
    qed
  qed
next
  case (2 q)
  then show ?case using wild_nonempty by (auto simp: glob_star.simps)
next
  case (3 q c t)
  show ?case
  proof
    assume a: "simple_pattern q \<and> q \<noteq> [] \<and> hd q \<noteq> CHR ''*'' \<and> cstr_ok (c # t)"
    then obtain r where r: "glob_pattern q (c # t) = Some r" "r = 0 \<longleftrightarrow> wild q (c # t)"
      using 3(1) by blast
    have split: "(\<exists>k \<le> length (c # t). wild q (drop k (c # t))) \<longleftrightarrow>
        wild q (c # t) \<or> (\<exists>k \<le> length t. wild q (drop k t))"
      by (metis Suc_le_mono drop0 drop_Suc_Cons length_Cons not0_implies_Suc zero_le)
    show "\<exists>r. glob_star q (c # t) = Some r \<and> (r = 0 \<longleftrightarrow> (\<exists>k \<le> length (c # t). wild q (drop k (c # t))))"
    proof (cases "r = 0 \<or> t = []")
      case True
      with r split a wild_nonempty [of q] show ?thesis
        by (auto simp: glob_star.simps)
    next
      case False
      with 3(2) [OF r(1)] a obtain r' where "glob_star q t = Some r'"
        "r' = 0 \<longleftrightarrow> (\<exists>k \<le> length t. wild q (drop k t))" by auto
      with False r split show ?thesis by (auto simp: glob_star.simps(2))
    qed
  qed
qed

subsection \<open>Properties\<close>

text \<open>
  C38: for patterns of literal characters, \<open>?\<close> and \<open>*\<close> in which no two stars are adjacent,
  \<open>Globmatch\<close> never leaves the string, and reports a match exactly if the string matches the
  pattern in the usual sense, without case.
\<close>

theorem Globmatch_wild:
  assumes "simple_pattern p" "cstr_ok s"
  shows "\<exists>r. Globmatch (Some p) (Some s) = Some r \<and> (r = 0 \<longleftrightarrow> wild p s)"
  using glob_wild(1) [of p s] assms by (simp add: Globmatch_def opt_str_def)

lemma Globmatch_wild_witness:
  "\<exists>r. Globmatch (Some ''*.Astart?'') (Some ''h1.astart9'') = Some r \<and> r = 0"
proof -
  have "simple_pattern ''*.Astart?''" "cstr_ok ''h1.astart9''" "wild ''*.Astart?'' ''h1.astart9''"
    by code_simp+
  from Globmatch_wild [OF this(1,2)] this(3) show ?thesis by blast
qed

text \<open>
  An inverted class at the end of the string is taken to match the terminating NUL: matching
  \<open>[^x]\<close>, for any character \<open>x\<close> but \<open>]\<close> and NUL, against the empty string moves past the end of
  the string, while two adjacent stars do not match the empty string.
\<close>

theorem Globmatch_past_end:
  assumes "x \<noteq> CHR '']''" "x \<noteq> NUL"
  shows "Globmatch (Some (''[^'' @ [x] @ '']'')) (Some []) = None \<and>
    Globmatch (Some ''**'') (Some []) = Some 1 \<and> wild ''**'' []"
proof -
  have "schar x \<noteq> 0"
    using assms(2) ccode_range [of x] ccode_eq_0_iff [of x] by (auto simp: schar_def split: if_splits)
  then have "bracket_result [CHR ''^'', x] [] = False"
    by (simp add: bracket_result_def deref_def)
  with assms have "glob_pattern (''[^'' @ [x] @ '']'') [] = None"
    by (subst glob_pattern.simps) (simp add: glob_meta_def)
  moreover have "glob_pattern ''**'' [] = Some 1"
    by (subst glob_pattern.simps) (simp add: glob_meta_def glob_star.simps)
  ultimately show ?thesis by (simp add: Globmatch_def opt_str_def)
qed

lemma Globmatch_past_end_witness: "Globmatch (Some ''[^a]'') (Some []) = None"
  using Globmatch_past_end [of "CHR ''a''"] by (simp add: NUL_def)

end
