(* ===== verification/TextLines.thy ===== *)
theory TextLines
  imports KeyValue
begin

section \<open>Splitting and joining lines (linelist.c)\<close>

text \<open>
  \<open>Split\<close> cuts a string at the characters of \<open>sep\<close> and adds the pieces to a line list;
  \<open>Join_line_list\<close> puts the lines together again; \<open>Split_cmd_line\<close> splits a command line with
  quoted words. The lemmas show that \<open>Split\<close> undoes \<open>Join_line_list_with_sep\<close>, and where
  \<open>Split_cmd_line\<close> reads behind the end of the line.
\<close>

lemma opt_str_simps [simp]: "opt_str None = []" "opt_str (Some s) = s"
  by (simp_all add: opt_str_def)

subsection \<open>Split\<close>

text \<open>
  \<open>split_scan\<close> is the loop over \<open>strpbrk\<close>: it yields the part up to the separator that ends the
  piece, and the rest that starts with this separator. A separator after a backslash does not
  end it when it is one of the characters of \<open>escape\<close>, unless it is the first character; \<open>prev\<close> is
  the character before the current one, if there is one.
\<close>

fun split_scan :: "cstr \<Rightarrow> cstr option \<Rightarrow> char option \<Rightarrow> cstr \<Rightarrow> cstr \<times> cstr" where
  "split_scan sep escape prev [] = ([], [])"
| "split_scan sep escape prev (c # cs) =
     (if c \<in> set sep \<and> \<not> (prev = Some (CHR 0x5C) \<and> c \<in> set (opt_str escape))
      then ([], c # cs)
      else (case split_scan sep escape (Some c) cs of (a, rest) \<Rightarrow> (c # a, rest)))"

text \<open>
  \<open>trim\<close> is 0 (the NUL character) for no trimming; a printable one is also dropped from the front.
  The code's pointer may run over the end of the piece into further white space; the length is
  then negative and the piece is dropped, as an empty one is.
\<close>

definition split_trim :: "char \<Rightarrow> cstr \<Rightarrow> cstr" where
  "split_trim trim s =
     (let s1 = dropWhile isspace s;
          s2 = (if s1 \<noteq> [] \<and> hd s1 = trim \<and> isprint trim then tl s1 else s1)
      in trunc_str s2)"

lemma split_scan_append:
  "split_scan sep escape prev s = (a, rest) \<Longrightarrow> s = a @ rest"
  by (induction s arbitrary: prev a) (auto split: if_splits prod.splits)

lemma split_scan_rest:
  "split_scan sep escape prev s = (a, c # rest) \<Longrightarrow> length rest < length s"
  using split_scan_append by fastforce

function Split ::
  "line_list \<Rightarrow> cstr \<Rightarrow> cstr \<Rightarrow> bool \<Rightarrow> cstr option \<Rightarrow> bool \<Rightarrow> char \<Rightarrow> bool \<Rightarrow> cstr option \<Rightarrow> line_list" where
  "Split l str sep srt keysep uniq trim nocomments escape =
     (if str = [] then l
      else
        (case split_scan sep escape None str of (tok, rest) \<Rightarrow>
           let s = (if trim \<noteq> NUL then split_trim trim tok else tok);
               skip = (trim \<noteq> NUL \<and> s = []) \<or> (nocomments \<and> take 1 (s @ rest) = ''#'');
               l' = (if skip then l else Add_line_list l s keysep srt uniq)
           in (case rest of
                 [] \<Rightarrow> l'
               | c # end \<Rightarrow> Split l' end sep srt keysep uniq trim nocomments escape)))"
  by pat_completeness auto
termination
  by (relation "measure (\<lambda>(l, str, _). length str)") (auto dest: split_scan_rest [OF sym])

declare Split.simps [simp del]

subsection \<open>Join\<close>

definition Join_line_list :: "line_list \<Rightarrow> cstr option \<Rightarrow> cstr option" where
  "Join_line_list l sep =
     (if (\<exists>s\<in>set l. s \<noteq> []) then Some (concat (map (\<lambda>s. if s = [] then [] else s @ opt_str sep) l))
      else None)"

definition Join_line_list_with_sep :: "line_list \<Rightarrow> cstr option \<Rightarrow> cstr option" where
  "Join_line_list_with_sep l sep =
     map_option (\<lambda>s. take (length s - safestrlen sep) s) (Join_line_list l sep)"

subsection \<open>Command lines\<close>

text \<open>
  The white space before a word is skipped with \<open>strchr (Whitespace, c)\<close>, which also finds the
  terminating NUL of \<open>Whitespace\<close>: at the end of the line the loop does not stop. \<open>None\<close> is the
  read behind the end of the line. A quote that is not closed ends the loop without a word.
\<close>

fun skip_white :: "cstr \<Rightarrow> cstr option" where
  "skip_white [] = None"
| "skip_white (c # cs) = (if c \<in> set Whitespace then skip_white cs else Some (c # cs))"

lemma skip_white_length: "skip_white s = Some t \<Longrightarrow> length t \<le> length s \<and> t \<noteq> []"
  by (induction s) (auto split: if_splits)

definition word_end :: "cstr \<Rightarrow> (cstr \<times> cstr) option" where
  "word_end s =
     (let q = hd s in
      if q = CHR 0x22 \<or> q = CHR 0x27
      then (case strchr (tl s) q of
              None \<Rightarrow> None
            | Some t \<Rightarrow> Some (take (length (tl s) - length t) (tl s), t))
      else (case strpbrk s Whitespace of
              None \<Rightarrow> Some (s, [])
            | Some t \<Rightarrow> Some (take (length s - length t) s, t)))"

lemma strchr_suffix_length: "strchr s c = Some t \<Longrightarrow> length t \<le> length s"
  by (induction s) (auto split: if_splits)

lemma strpbrk_suffix_length: "strpbrk s seps = Some t \<Longrightarrow> length t \<le> length s"
  by (induction s) (auto split: if_splits)

lemma word_end_length:
  "s \<noteq> [] \<Longrightarrow> word_end s = Some (w, t) \<Longrightarrow> length (tl t) < length s"
  by (cases s; cases t)
    (auto simp: word_end_def Let_def dest!: strchr_suffix_length strpbrk_suffix_length
      split: if_splits option.splits)

function Split_cmd_line :: "line_list \<Rightarrow> cstr \<Rightarrow> line_list option" where
  "Split_cmd_line l s =
     (if s = [] then Some l
      else
        (case skip_white s of
           None \<Rightarrow> None
         | Some s1 \<Rightarrow>
             (case word_end s1 of
                None \<Rightarrow> Some l
              | Some (w, t) \<Rightarrow> Split_cmd_line (Add_line_list l w None False False) (tl t))))"
  by pat_completeness auto
termination
  by (relation "measure (\<lambda>(l, s). length s)") (auto dest!: skip_white_length word_end_length)

declare Split_cmd_line.simps [simp del]

subsection \<open>Split undoes Join\<close>

definition piece_ok :: "char \<Rightarrow> cstr \<Rightarrow> bool" where
  "piece_ok c s \<longleftrightarrow> s \<noteq> [] \<and> c \<notin> set s"

lemma split_scan_piece:
  "c \<notin> set s \<Longrightarrow> split_scan [c] None prev (s @ c # r) = (s, c # r)"
  "c \<notin> set s \<Longrightarrow> split_scan [c] None prev s = (s, [])"
  by (induction s arbitrary: prev) (auto simp: opt_str_def)

definition join_text :: "char \<Rightarrow> line_list \<Rightarrow> cstr" where
  "join_text c l = (case l of [] \<Rightarrow> [] | s # ss \<Rightarrow> s @ concat (map (\<lambda>t. c # t) ss))"

lemma Join_with_sep_text:
  assumes "\<forall>s\<in>set l. piece_ok c s" "l \<noteq> []"
  shows "Join_line_list_with_sep l (Some [c]) = Some (join_text c l)"
proof -
  obtain s ss where l: "l = s # ss" using assms(2) by (cases l) auto
  have "concat (map (\<lambda>s. if s = [] then [] else s @ opt_str (Some [c])) l) =
      concat (map (\<lambda>s. s @ [c]) l)"
    using assms(1) by (intro arg_cong [where f = concat] map_cong) (auto simp: piece_ok_def)
  also have "\<dots> = s @ concat (map (\<lambda>t. c # t) ss) @ [c]"
    unfolding l by (induction ss arbitrary: s) auto
  finally have "Join_line_list l (Some [c]) = Some (join_text c l @ [c])"
    using assms(1) l by (simp add: Join_line_list_def join_text_def piece_ok_def)
  then show ?thesis by (simp add: Join_line_list_with_sep_def safestrlen_def)
qed

lemma Split_join_text:
  "\<forall>s\<in>set l. piece_ok c s \<Longrightarrow>
   Split d (join_text c l) [c] False None False NUL False None = d @ l"
proof (induction l arbitrary: d)
  case Nil
  then show ?case by (simp add: join_text_def Split.simps)
next
  case (Cons s l)
  have s: "s \<noteq> []" "c \<notin> set s" using Cons.prems by (auto simp: piece_ok_def)
  show ?case
  proof (cases l)
    case Nil
    with s show ?thesis
      by (simp add: join_text_def Split.simps [of d s] split_scan_piece Add_line_list_def)
  next
    case (Cons t ts)
    have "join_text c (s # l) = s @ c # join_text c l"
      by (simp add: join_text_def Cons)
    moreover have "Split (d @ [s]) (join_text c l) [c] False None False NUL False None = (d @ [s]) @ l"
      using Cons.IH Cons.prems by simp
    ultimately show ?thesis
      using s by (simp add: Split.simps [of d "s @ c # join_text c l"] split_scan_piece Add_line_list_def)
  qed
qed


subsection \<open>Words of a command line\<close>

definition word_ok :: "cstr \<Rightarrow> bool" where
  "word_ok w \<longleftrightarrow> w \<noteq> [] \<and> set w \<inter> set Whitespace = {} \<and> hd w \<noteq> CHR 0x22 \<and> hd w \<noteq> CHR 0x27"

lemma blank_white [simp]: "CHR '' '' \<in> set Whitespace"
  by (simp add: Whitespace_def)

lemma skip_white_word: "word_ok w \<Longrightarrow> skip_white (w @ r) = Some (w @ r)"
  by (cases w) (auto simp: word_ok_def)

lemma word_end_word:
  assumes "word_ok w"
  shows "word_end w = Some (w, [])" "word_end (w @ CHR '' '' # r) = Some (w, CHR '' '' # r)"
proof -
  have n: "strpbrk w Whitespace = None" using assms by (simp add: word_ok_def strpbrk_None_iff)
  have h: "strpbrk (w @ CHR '' '' # r) Whitespace = Some (CHR '' '' # r)"
    using assms by (intro strpbrk_append_hit) (auto simp: word_ok_def)
  have q: "hd w \<noteq> CHR 0x22" "hd w \<noteq> CHR 0x27" "hd (w @ x) = hd w" for x
    using assms by (auto simp: word_ok_def hd_append)
  show "word_end w = Some (w, [])" "word_end (w @ CHR '' '' # r) = Some (w, CHR '' '' # r)"
    using n h q by (simp_all add: word_end_def Let_def)
qed

lemma Split_cmd_word:
  assumes "word_ok w"
  shows "Split_cmd_line l w = Some (l @ [w])"
    "Split_cmd_line l (w @ CHR '' '' # r) = Split_cmd_line (l @ [w]) r"
proof -
  have "w \<noteq> []" using assms by (simp add: word_ok_def)
  with assms skip_white_word [of w "[]"] skip_white_word [of w "CHR '' '' # r"] word_end_word [of w]
  show "Split_cmd_line l w = Some (l @ [w])"
    "Split_cmd_line l (w @ CHR '' '' # r) = Split_cmd_line (l @ [w]) r"
    by (simp_all add: Split_cmd_line.simps [of l "w @ CHR '' '' # r"] Split_cmd_line.simps [of l w]
        Split_cmd_line.simps [of "l @ [w]" "[]"] Add_line_list_def)
qed

lemma Split_cmd_words:
  "ws \<noteq> [] \<Longrightarrow> \<forall>w\<in>set ws. word_ok w \<Longrightarrow>
   Split_cmd_line l (join_text CHR '' '' ws) = Some (l @ ws) \<and>
   (\<forall>r. Split_cmd_line l (join_text CHR '' '' ws @ CHR '' '' # r) = Split_cmd_line (l @ ws) r)"
proof (induction ws arbitrary: l)
  case (Cons w ws)
  show ?case
  proof (cases ws)
    case Nil
    with Cons.prems Split_cmd_word [of w l] show ?thesis by (simp add: join_text_def)
  next
    case (Cons v vs)
    have "join_text CHR '' '' (w # ws) = w @ CHR '' '' # join_text CHR '' '' ws"
      by (simp add: join_text_def Cons)
    with Cons.prems Cons.IH [of "l @ [w]"] Split_cmd_word [of w l] Cons show ?thesis by simp
  qed
qed simp

lemma Split_cmd_blanks:
  "set bs \<subseteq> set Whitespace \<Longrightarrow> bs \<noteq> [] \<Longrightarrow> Split_cmd_line l bs = None"
proof -
  assume b: "set bs \<subseteq> set Whitespace" "bs \<noteq> []"
  from b(1) have "skip_white bs = None" by (induction bs) auto
  with b(2) show ?thesis by (simp add: Split_cmd_line.simps)
qed

subsection \<open>Properties\<close>

text \<open>
  Splitting what \<open>Join_line_list_with_sep\<close> produced at the same one-character separator gives
  the lines back in order, appended to the list, whenever no line is empty or holds the separator.
\<close>

theorem Split_Join_roundtrip:
  assumes "\<forall>s\<in>set l. piece_ok c s" "l \<noteq> []"
  shows "\<exists>t. Join_line_list_with_sep l (Some [c]) = Some t
    \<and> Split d t [c] False None False NUL False None = d @ l"
  using Join_with_sep_text [OF assms] Split_join_text [OF assms(1)] by simp

lemma Split_Join_roundtrip_witness:
  "\<exists>t. Join_line_list_with_sep [''lp'', ''lp2@host''] (Some '','') = Some t
    \<and> Split [] t '','' False None False NUL False None = [''lp'', ''lp2@host'']"
proof -
  have "\<forall>s\<in>set [''lp'', ''lp2@host'']. piece_ok CHR '','' s" "[''lp'', ''lp2@host''] \<noteq> []"
    by code_simp+
  from Split_Join_roundtrip [OF this, of "[]"] show ?thesis by simp
qed

text \<open>
  A command line of plain words, each separated from the next by one blank, is split into
  exactly these words, also with one blank at the end; with any further white space after that
  blank the code reads behind the end of the line.
\<close>

theorem Split_cmd_line_words:
  assumes "\<forall>w\<in>set ws. word_ok w" "ws \<noteq> []"
  shows "Split_cmd_line l (join_text CHR '' '' ws) = Some (l @ ws)
    \<and> Split_cmd_line l (join_text CHR '' '' ws @ '' '') = Some (l @ ws)
    \<and> (\<forall>bs. bs \<noteq> [] \<longrightarrow> set bs \<subseteq> set Whitespace \<longrightarrow>
         Split_cmd_line l (join_text CHR '' '' ws @ CHR '' '' # bs) = None)"
  using Split_cmd_words [OF assms(2,1), of l] Split_cmd_blanks
  by (simp add: Split_cmd_line.simps [of "l @ ws" "[]"])

lemma Split_cmd_line_words_witness:
  "Split_cmd_line [] ''lpf -x '' = Some [''lpf'', ''-x'']"
proof -
  have "\<forall>w\<in>set [''lpf'', ''-x'']. word_ok w" "[''lpf'', ''-x''] \<noteq> []"
    by code_simp+
  from Split_cmd_line_words [OF this, of "[]"] show ?thesis by (simp add: join_text_def)
qed

end
