(* ===== verification/TextCodec.thy ===== *)
theory TextCodec
  imports TextLines
begin

section \<open>Cleaning, path names and escapes (linelist.c)\<close>

text \<open>
  The functions that make text from outside safe to use as a file name or on a command line
  (\<open>Clean_name\<close>, \<open>Clean_meta\<close>, \<open>Is_clean_name\<close>, \<open>Make_pathname\<close>), and the encodings of text in
  status and job files (\<open>Escape\<close>, \<open>Unescape\<close>, \<open>Escape_colons\<close>, \<open>Fix_str\<close>). The lemmas show that
  cleaned text is clean, that \<open>Unescape\<close> undoes one level of \<open>Escape\<close>, and when \<open>Escape\<close> stays
  inside the buffer it allocates.
\<close>

subsection \<open>Cleaning\<close>

definition SAFE :: cstr where "SAFE = ''-_.''"

definition LESS_SAFE :: cstr where "LESS_SAFE = SAFE @ ''@/:()=,+-%''"

definition safe_name_char :: "char \<Rightarrow> bool" where
  "safe_name_char c \<longleftrightarrow> isalnum c \<or> c \<in> set SAFE"

definition Is_clean_name :: "cstr option \<Rightarrow> cstr option" where
  "Is_clean_name s =
     (case s of None \<Rightarrow> None
      | Some t \<Rightarrow> (case dropWhile safe_name_char t of [] \<Rightarrow> None | c # r \<Rightarrow> Some (c # r)))"

definition Clean_name :: "cstr \<Rightarrow> cstr" where
  "Clean_name s = map (\<lambda>c. if safe_name_char c then c else CHR ''_'') s"

text \<open>\<open>Safe_chars_DYN\<close> is the configured set of further safe characters, possibly null.\<close>

definition Is_meta :: "cstr option \<Rightarrow> char \<Rightarrow> bool" where
  "Is_meta safe_chars c \<longleftrightarrow>
     \<not> (isspace c \<or> isalnum c \<or> c \<in> set (opt_str safe_chars) \<or> c \<in> set LESS_SAFE)"

definition Find_meta :: "cstr option \<Rightarrow> cstr option \<Rightarrow> cstr option" where
  "Find_meta safe_chars s =
     (case s of None \<Rightarrow> None
      | Some t \<Rightarrow>
          (case dropWhile (\<lambda>c. \<not> Is_meta safe_chars c) t of [] \<Rightarrow> None | c # r \<Rightarrow> Some (c # r)))"

text \<open>The first loop turns back slashes into slashes, the second the meta characters into \<open>_\<close>.\<close>

definition Clean_meta :: "cstr option \<Rightarrow> cstr \<Rightarrow> cstr" where
  "Clean_meta safe_chars t =
     map (\<lambda>c. if Is_meta safe_chars c then CHR ''_'' else c)
       (map (\<lambda>c. if c = CHR 0x5C then CHR ''/'' else c) t)"

lemma Clean_name_clean: "Is_clean_name (Some (Clean_name s)) = None"
proof -
  have "dropWhile safe_name_char (Clean_name s) = []"
    by (rule dropWhile_all) (auto simp: Clean_name_def safe_name_char_def SAFE_def)
  then show ?thesis by (simp add: Is_clean_name_def del: dropWhile_eq_Nil_conv)
qed

lemma Clean_name_id: "Is_clean_name (Some s) = None \<Longrightarrow> Clean_name s = s"
proof -
  assume "Is_clean_name (Some s) = None"
  then have "dropWhile safe_name_char s = []" by (auto simp: Is_clean_name_def split: list.splits)
  then have "\<forall>c\<in>set s. safe_name_char c" by (simp add: dropWhile_eq_Nil_conv)
  then show ?thesis unfolding Clean_name_def by (induction s) auto
qed

lemma Clean_meta_clean: "Find_meta safe_chars (Some (Clean_meta safe_chars s)) = None"
proof -
  have u: "\<not> Is_meta safe_chars (CHR ''_'')" by (simp add: Is_meta_def LESS_SAFE_def SAFE_def)
  have "dropWhile (\<lambda>c. \<not> Is_meta safe_chars c) (Clean_meta safe_chars s) = []"
    by (rule dropWhile_all) (auto simp: Clean_meta_def u)
  then show ?thesis by (simp add: Find_meta_def del: dropWhile_eq_Nil_conv)
qed

subsection \<open>Path names\<close>

text \<open>
  The loop at the end removes one of two adjacent slashes until there are none. (Its \<open>memmove\<close>
  moves one byte more than the rest of the string and its NUL.)
\<close>

fun squeeze :: "cstr \<Rightarrow> cstr" where
  "squeeze (c # d # s) = (if c = CHR ''/'' \<and> d = CHR ''/'' then squeeze (d # s) else c # squeeze (d # s))"
| "squeeze s = s"

definition Make_pathname :: "cstr option \<Rightarrow> cstr option \<Rightarrow> cstr option" where
  "Make_pathname dir file =
     (case file of
        None \<Rightarrow> None
      | Some f \<Rightarrow>
          Some (squeeze
            (if take 1 f = ''/'' then f
             else (case dir of Some d \<Rightarrow> safestrdup3 (Some d) (Some ''/'') (Some f)
                   | None \<Rightarrow> safestrdup2 (Some ''./'') (Some f)))))"

fun double_slash :: "cstr \<Rightarrow> bool" where
  "double_slash (c # d # s) = ((c = CHR ''/'' \<and> d = CHR ''/'') \<or> double_slash (d # s))"
| "double_slash _ = False"

lemma squeeze_hd: "s \<noteq> [] \<Longrightarrow> \<exists>t. squeeze s = hd s # t"
  by (induction s rule: squeeze.induct) auto

lemma squeeze_no_double: "\<not> double_slash (squeeze s)"
proof (induction s rule: squeeze.induct)
  case (1 c d s)
  obtain t where "squeeze (d # s) = d # t" using squeeze_hd [of "d # s"] by auto
  with 1 show ?case by auto
qed auto

lemma squeeze_id: "\<not> double_slash s \<Longrightarrow> squeeze s = s"
  by (induction s rule: squeeze.induct) auto

lemma filter_squeeze: "filter (\<lambda>c. c \<noteq> CHR ''/'') (squeeze s) = filter (\<lambda>c. c \<noteq> CHR ''/'') s"
  by (induction s rule: squeeze.induct) auto

subsection \<open>Escape and Unescape\<close>

text \<open>
  A byte that is neither alphanumeric nor a blank becomes \<open>%\<close> and two hexadecimal digits; each
  further level encodes the \<open>%\<close> once more as \<open>%25\<close>. The buffer has room for \<open>3 * level\<close> more
  bytes for every such byte, computed before a level of 0 or less is raised to 1; a text that
  does not fit is a write outside the buffer, \<open>None\<close>. The inner \<open>Some\<close> or \<open>None\<close> is the pointer
  returned.
\<close>

fun insert_25 :: "nat \<Rightarrow> cstr \<Rightarrow> cstr" where
  "insert_25 0 s = s"
| "insert_25 (Suc k) s = insert_25 k (take 1 s @ ''25'' @ drop 1 s)"

definition escape_char :: "int \<Rightarrow> char \<Rightarrow> cstr" where
  "escape_char level c =
     (if c = CHR '' '' then ''?''
      else if \<not> isalnum c
      then insert_25 (nat (level - 1)) (plp_snprintf 4 ''%%%02x'' [AInt (ccode c)])
      else [c])"

definition escape_alloc :: "int \<Rightarrow> cstr \<Rightarrow> int" where
  "escape_alloc level s =
     int (length s) + 3 * level * int (length (filter (\<lambda>c. c \<noteq> CHR '' '' \<and> \<not> isalnum c) s))"

definition Escape :: "cstr option \<Rightarrow> int \<Rightarrow> cstr option option" where
  "Escape str level =
     (case str of
        None \<Rightarrow> Some None
      | Some s \<Rightarrow>
          if s = [] then Some None
          else
            (let n = escape_alloc level s;
                 t = concat (map (escape_char (if level \<le> 0 then 1 else level)) s)
             in if int (length t) \<le> n then Some (Some t) else None))"

text \<open>
  \<open>Unescape\<close> works in place; a \<open>%\<close> takes the next two characters, whatever they are, as the
  hexadecimal code. The string ends at the first byte 0 that is stored.
\<close>

fun unescape_bytes :: "cstr \<Rightarrow> char list" where
  "unescape_bytes [] = []"
| "unescape_bytes (c # s) =
     (if c = CHR ''?'' then CHR '' '' # unescape_bytes s
      else if c = CHR ''%''
      then (case s of
              a # b # r \<Rightarrow> char_of (fst (strtol [a, b] 16) mod 256) # unescape_bytes r
            | _ \<Rightarrow> c # unescape_bytes s)
      else c # unescape_bytes s)"

definition Unescape :: "cstr \<Rightarrow> cstr" where
  "Unescape s = buf_str (unescape_bytes s)"

definition Escape_colons :: "line_list \<Rightarrow> line_list" where
  "Escape_colons l = map (\<lambda>s. concat (map (\<lambda>c. if c = CHR '':'' then [CHR 0x5C] @ ''072'' else [c]) s)) l"

subsection \<open>The text of one escaped byte\<close>

lemma hex2_digits:
  assumes "n < 256"
  shows "fmtnum_text (int n) 16 False False 2 True = [digit_char (n div 16), digit_char (n mod 16)]"
proof -
  have v: "nat (int n mod 18446744073709551616) = n" using assms by simp
  show ?thesis
  proof (cases "n < 16")
    case True
    then have "nat_digits 16 n = [digit_char n]" by (simp add: nat_digits.simps)
    moreover have "digit_char 0 = CHR ''0''" by code_simp
    ultimately show ?thesis
      using True v by (simp add: fmtnum_text_def fmtnum_out_text_def rev_convert_digits Let_def pad_text_def)
  next
    case False
    then have "n div 16 < 16" using assms by simp
    with False have "nat_digits 16 n = [digit_char (n div 16), digit_char (n mod 16)]"
      by (simp add: nat_digits.simps)
    then show ?thesis
      using v by (simp add: fmtnum_text_def fmtnum_out_text_def rev_convert_digits Let_def)
  qed
qed


definition hex2 :: "char \<Rightarrow> cstr" where
  "hex2 c = [digit_char (nat (ccode c) div 16), digit_char (nat (ccode c) mod 16)]"

lemma nat_ccode: "nat (ccode c) < 256" "int (nat (ccode c)) = ccode c"
  using ccode_range [of c] by auto

lemma digit_alnum: "d < 16 \<Longrightarrow> isalnum (digit_char d)"
  by (auto simp: ctype_defs ccode_digit_char)

lemma hex2_alnum: "x \<in> set (hex2 c) \<Longrightarrow> isalnum x"
  using nat_ccode [of c] by (auto simp: hex2_def less_mult_imp_div_less intro!: digit_alnum)

lemma alnum_ne:
  "isalnum c \<Longrightarrow> c \<noteq> CHR ''?''" "isalnum c \<Longrightarrow> c \<noteq> CHR ''%''" "isalnum c \<Longrightarrow> c \<noteq> NUL"
  by (auto simp: ctype_defs ccode_def NUL_def)

lemma hex2_ok: "cstr_ok (hex2 c)"
  using hex2_alnum alnum_ne(3) by (auto simp: cstr_ok_def)

lemma snprintf_hex2: "plp_snprintf 4 ''%%%02x'' [AInt (ccode c)] = CHR ''%'' # hex2 c"
proof -
  have "dopr_text (\<lambda>_ (_::unit). []) [] True ''%%%02x'' [AInt (ccode c)] =
      Some (CHR ''%'' # fmtnum_text (ccode c) 16 False False 2 True)"
    using ccode_range [of c]
    by (simp add: conv_text_def num_conv_def empty_spec_def add_digit_def isdigit_def Let_def)
      (simp add: ccode_def)
  also have "fmtnum_text (ccode c) 16 False False 2 True = hex2 c"
    using hex2_digits [of "nat (ccode c)"] nat_ccode [of c] by (simp add: hex2_def)
  finally have "plp_snprintf 4 ''%%%02x'' [AInt (ccode c)] = take 3 (CHR ''%'' # hex2 c)"
    by (subst snprintf_text) (auto simp: hex2_ok NUL_def)
  then show ?thesis by (simp add: hex2_def)
qed

lemma insert_25_text: "insert_25 k (c # s) = c # concat (replicate k ''25'') @ s"
proof (induction k arbitrary: s)
  case (Suc k)
  have "''25'' @ concat (replicate k ''25'') = concat (replicate k ''25'') @ ''25''"
    by (induction k) auto
  with Suc show ?case by simp
qed simp

text \<open>\<open>stage m c\<close>: the text of a character that is still encoded \<open>m\<close> times.\<close>

definition stage :: "nat \<Rightarrow> char \<Rightarrow> cstr" where
  "stage m c =
     (if c = CHR '' '' \<or> isalnum c \<or> m = 0 then [c]
      else CHR ''%'' # concat (replicate (m - 1) ''25'') @ hex2 c)"

lemma escape_char_stage:
  "1 \<le> n \<Longrightarrow> escape_char (int n) c = (if c = CHR '' '' then ''?'' else stage n c)"
proof -
  assume "1 \<le> n"
  then have "nat (int n - 1) = n - 1" by simp
  with \<open>1 \<le> n\<close> show ?thesis
    by (simp add: escape_char_def stage_def snprintf_hex2 insert_25_text del: insert_25.simps)
qed

lemma length_stage: "length (stage m c) \<le> 1 + 2 * m"
  by (auto simp: stage_def hex2_def length_concat sum_list_replicate)

lemma strtol_hex2: "fst (strtol (hex2 c) 16) = ccode c"
proof -
  let ?h = "nat (ccode c)"
  have b: "?h < 256" by (rule nat_ccode)
  then have d: "?h div 16 < 16" "?h mod 16 < 16" by auto
  have "set (hex2 c) \<subseteq> digit_char ` {0..<16}" using d by (auto simp: hex2_def)
  moreover have "strtol_base 16 (hex2 c) = (int 16, hex2 c)"
    by (simp add: strtol_base_def hex_prefix_def hex2_def)
  ultimately have "strtol (hex2 c) 16 = (clamp_long (digits_value (int 16) (hex2 c)), [])"
    using digit_char_props [OF d(1)] by (intro strtol_digits) (auto simp: hex2_def)
  moreover have "digits_value (int 16) (hex2 c) = ccode c"
  proof -
    have "digits_value (int 16) (hex2 c) = int (?h div 16) * 16 + int (?h mod 16)"
      using d unfolding digits_value_def hex2_def by (simp only: foldl.simps digit_val_char) simp
    also have "\<dots> = int (16 * (?h div 16) + ?h mod 16)"
      by (simp only: of_nat_add of_nat_mult of_nat_numeral mult.commute)
    also have "\<dots> = int ?h" by (simp only: mult_div_mod_eq)
    finally show ?thesis by (simp only: nat_ccode)
  qed
  ultimately show ?thesis
    using ccode_range [of c] by (simp add: clamp_long_id LONG_MIN_def LONG_MAX_def)
qed

lemma unescape_hex2: "unescape_bytes (CHR ''%'' # hex2 c @ r) = c # unescape_bytes r"
proof -
  have "char_of (fst (strtol (hex2 c) 16) mod 256) = c"
    using ccode_range [of c] by (simp add: strtol_hex2 ccode_def)
  then show ?thesis by (simp add: hex2_def)
qed

lemma unescape_alnums: "\<forall>x\<in>set s. isalnum x \<Longrightarrow> unescape_bytes (s @ r) = s @ unescape_bytes r"
  by (induction s) (auto simp: alnum_ne)

lemma alnum_25: "x \<in> set (concat (replicate k ''25'')) \<Longrightarrow> isalnum x"
proof -
  assume "x \<in> set (concat (replicate k ''25''))"
  then have "x = CHR ''2'' \<or> x = CHR ''5''" by (induction k) auto
  moreover have "isalnum CHR ''2''" "isalnum CHR ''5''" by code_simp+
  ultimately show ?thesis by auto
qed

lemma hex2_percent: "hex2 CHR ''%'' = ''25''"
  by code_simp

lemma unescape_stage:
  "unescape_bytes (stage (Suc m) c @ r) = stage m c @ unescape_bytes r"
proof (cases "c = CHR '' '' \<or> isalnum c")
  case True
  then have "c \<noteq> CHR ''?''" "c \<noteq> CHR ''%''" by (auto dest: alnum_ne)
  with True show ?thesis by (auto simp: stage_def)
next
  case False
  show ?thesis
  proof (cases m)
    case 0
    with False unescape_hex2 show ?thesis by (simp add: stage_def)
  next
    case (Suc k)
    let ?t = "concat (replicate k ''25'') @ hex2 c"
    have "stage (Suc m) c = CHR ''%'' # hex2 CHR ''%'' @ ?t"
      using False Suc by (simp add: stage_def hex2_percent)
    then have "unescape_bytes (stage (Suc m) c @ r) = CHR ''%'' # unescape_bytes (?t @ r)"
      using unescape_hex2 [of "CHR ''%''" "?t @ r"] by simp
    also have "unescape_bytes (?t @ r) = ?t @ unescape_bytes r"
      using alnum_25 hex2_alnum by (intro unescape_alnums ballI) (metis UnE set_append)
    finally show ?thesis using False Suc by (simp add: stage_def)
  qed
qed

lemma stage_ok: "c \<noteq> NUL \<Longrightarrow> cstr_ok (stage m c)"
proof -
  assume "c \<noteq> NUL"
  moreover have "cstr_ok (concat (replicate k ''25''))" for k
    by (induction k) (auto simp: NUL_def)
  ultimately show ?thesis using hex2_ok by (auto simp: stage_def NUL_def)
qed

lemma buf_str_id: "cstr_ok s \<Longrightarrow> buf_str s = s"
  unfolding buf_str_def by (rule takeWhile_all) (auto simp: cstr_ok_def)

lemma stages_ok: "cstr_ok s \<Longrightarrow> cstr_ok (concat (map (stage m) s))"
  by (induction s) (auto intro: stage_ok)

lemma Unescape_stages:
  assumes "cstr_ok s"
  shows "Unescape (concat (map (stage (Suc m)) s)) = concat (map (stage m) s)"
proof -
  have "unescape_bytes (concat (map (stage (Suc m)) s)) = concat (map (stage m) s)"
    by (induction s) (auto simp: unescape_stage)
  moreover have "cstr_ok (concat (map (stage m) s))"
    using assms by (rule stages_ok)
  ultimately show ?thesis by (simp add: Unescape_def buf_str_id)
qed

lemma Unescape_first:
  assumes "cstr_ok s"
  shows "Unescape (concat (map (escape_char (int (Suc m))) s)) = concat (map (stage m) s)"
proof -
  have "unescape_bytes (escape_char (int (Suc m)) c @ r) = stage m c @ unescape_bytes r" for c r
  proof (cases "c = CHR '' ''")
    case True
    then show ?thesis using escape_char_stage [of "Suc m" c] by (simp add: stage_def)
  next
    case False
    then show ?thesis using escape_char_stage [of "Suc m" c] unescape_stage by simp
  qed
  then have "unescape_bytes (concat (map (escape_char (int (Suc m))) s)) = concat (map (stage m) s)"
    by (induction s) simp_all
  moreover have "cstr_ok (concat (map (stage m) s))"
    using assms by (rule stages_ok)
  ultimately show ?thesis by (simp add: Unescape_def buf_str_id)
qed

lemma Unescape_power:
  "cstr_ok s \<Longrightarrow> (Unescape ^^ m) (concat (map (stage m) s)) = s"
proof (induction m)
  case 0
  have "concat (map (stage 0) s) = s" by (induction s) (auto simp: stage_def)
  then show ?case by simp
next
  case (Suc m)
  then show ?case using Unescape_stages [of s m] by (simp add: funpow_swap1)
qed

lemma Escape_fits:
  assumes "1 \<le> n"
  shows "int (length (concat (map (escape_char (int n)) s))) \<le> escape_alloc (int n) s"
proof -
  have "int (length (escape_char (int n) c)) \<le> 1 + (if c \<noteq> CHR '' '' \<and> \<not> isalnum c then 3 * int n else 0)" for c
    using length_stage [of n c] assms by (auto simp: escape_char_stage stage_def)
  then have "int (length (concat (map (escape_char (int n)) s))) \<le>
      int (length s) + 3 * int n * int (length (filter (\<lambda>c. c \<noteq> CHR '' '' \<and> \<not> isalnum c) s))"
  proof (induction s)
    case Nil
    then show ?case by simp
  next
    case (Cons c s)
    from Cons.IH [OF Cons.prems] Cons.prems [of c] show ?case
      by (auto simp: algebra_simps)
  qed
  then show ?thesis by (simp add: escape_alloc_def)
qed

text \<open>One level, as job files use it.\<close>

lemma Escape_one:
  assumes "cstr_ok s" "s \<noteq> []"
  shows "\<exists>t. Escape (Some s) 1 = Some (Some t) \<and> Unescape t = s \<and> cstr_ok t \<and> t \<noteq> []"
proof -
  let ?t = "concat (map (escape_char 1) s)"
  have "Escape (Some s) 1 = Some (Some ?t)"
    using assms(2) Escape_fits [of 1 s] by (simp add: Escape_def Let_def)
  moreover have "Unescape ?t = s"
    using Unescape_first [OF assms(1), of 0] Unescape_power [OF assms(1), of 0] by simp
  moreover have c: "cstr_ok (escape_char 1 c) \<and> escape_char 1 c \<noteq> []" if "c \<noteq> NUL" for c
    using stage_ok [OF that, of 1] escape_char_stage [of 1 c]
    by (cases "c = CHR '' ''") (auto simp: stage_def NUL_def cstr_ok_def)
  then have "cstr_ok ?t" using assms(1) by (induction s) (auto simp: cstr_ok_def)
  moreover have "?t \<noteq> []" using assms c by (cases s) (auto simp: cstr_ok_def)
  ultimately show ?thesis by blast
qed

subsection \<open>Properties\<close>

text \<open>
  C34: text escaped to a positive level fits in the buffer that \<open>Escape\<close> allocates, and
  unescaping it as many times as the level gives the text back, for every non-empty C string.
\<close>

theorem Escape_roundtrip:
  assumes "cstr_ok s" "s \<noteq> []" "1 \<le> n"
  shows "\<exists>t. Escape (Some s) (int n) = Some (Some t) \<and> (Unescape ^^ n) t = s"
proof -
  let ?t = "concat (map (escape_char (int n)) s)"
  obtain m where m: "n = Suc m" using assms(3) by (cases n) auto
  have "Escape (Some s) (int n) = Some (Some ?t)"
    using assms Escape_fits [OF assms(3), of s] by (simp add: Escape_def Let_def)
  moreover have "(Unescape ^^ n) ?t = s"
    using Unescape_first [OF assms(1), of m] Unescape_power [OF assms(1), of m]
    by (simp add: m funpow_swap1 del: of_nat_Suc)
  ultimately show ?thesis by blast
qed

lemma Escape_roundtrip_witness:
  "\<exists>t. Escape (Some ''a b%c'') (int 2) = Some (Some t) \<and> (Unescape ^^ 2) t = ''a b%c''"
proof -
  have "cstr_ok ''a b%c''" "''a b%c'' \<noteq> []" "1 \<le> (2::nat)" by code_simp+
  from Escape_roundtrip [OF this] show ?thesis .
qed

text \<open>
  With a level of 0 or less the buffer is computed before the level is raised to 1, and any
  text with a byte that needs encoding is written outside it.
\<close>

theorem Escape_overflow:
  assumes "level \<le> 0" "\<exists>c\<in>set s. c \<noteq> CHR '' '' \<and> \<not> isalnum c"
  shows "Escape (Some s) level = None"
proof -
  let ?t = "concat (map (escape_char 1) s)"
  have len: "length (escape_char 1 c) = (if c \<noteq> CHR '' '' \<and> \<not> isalnum c then 3 else 1)" for c
    by (auto simp: escape_char_def snprintf_hex2 hex2_def)
  have "length s < length ?t"
    using assms(2)
  proof (induction s)
    case (Cons c s)
    have "length s \<le> length (concat (map (escape_char 1) s))"
      by (induction s) (auto simp: len)
    with Cons show ?case by (auto simp: len)
  qed simp
  moreover have "escape_alloc level s \<le> int (length s)"
    using assms(1) by (simp add: escape_alloc_def mult_nonpos_nonneg)
  moreover have "s \<noteq> []" using assms(2) by auto
  ultimately show ?thesis
    using assms(1) by (simp add: Escape_def Let_def)
qed

lemma Escape_overflow_witness: "Escape (Some ''a:b'') 0 = None"
proof -
  have "(0::int) \<le> 0" "\<exists>c\<in>set ''a:b''. c \<noteq> CHR '' '' \<and> \<not> isalnum c" by code_simp+
  from Escape_overflow [OF this] show ?thesis .
qed

text \<open>
  A cleaned name has no unclean character, cleaning leaves a clean name alone, and a line
  cleaned with \<open>Clean_meta\<close> has no meta character left, for every set of configured safe
  characters.
\<close>

theorem Clean_is_clean:
  "Is_clean_name (Some (Clean_name s)) = None
    \<and> (Is_clean_name (Some s) = None \<longrightarrow> Clean_name s = s)
    \<and> Find_meta safe_chars (Some (Clean_meta safe_chars s)) = None"
  using Clean_name_clean Clean_name_id Clean_meta_clean by blast

lemma Clean_is_clean_witness: "Clean_name ''cfA001host.x'' = ''cfA001host.x''"
proof -
  have "Is_clean_name (Some ''cfA001host.x'') = None" by code_simp
  then show ?thesis using Clean_is_clean by blast
qed

text \<open>
  A path made of a directory and a file has no two adjacent slashes, is the file itself when
  that is an absolute path without doubled slashes, and otherwise has the characters of the
  directory followed by those of the file.
\<close>

theorem Make_pathname_normal:
  assumes "Make_pathname dir (Some f) = Some p"
  shows "\<not> double_slash p
    \<and> (take 1 f = ''/'' \<and> \<not> double_slash f \<longrightarrow> p = f)
    \<and> (take 1 f \<noteq> ''/'' \<longrightarrow> filter (\<lambda>c. c \<noteq> CHR ''/'') p =
         filter (\<lambda>c. c \<noteq> CHR ''/'') (case dir of None \<Rightarrow> ''.'' | Some d \<Rightarrow> d)
           @ filter (\<lambda>c. c \<noteq> CHR ''/'') f)"
proof -
  from assms have p: "p = squeeze (if take 1 f = ''/'' then f
      else (case dir of Some d \<Rightarrow> safestrdup3 (Some d) (Some ''/'') (Some f)
            | None \<Rightarrow> safestrdup2 (Some ''./'') (Some f)))"
    by (simp add: Make_pathname_def)
  show ?thesis
    unfolding p
    by (auto simp: squeeze_no_double squeeze_id filter_squeeze safestrdup3_def safestrdup2_def
        split: option.splits)
qed

lemma Make_pathname_normal_witness:
  "\<not> double_slash ''/var/spool/lpd/lp'' \<and> Make_pathname (Some ''/var/spool//lpd/'') (Some ''lp'') = Some ''/var/spool/lpd/lp''"
proof -
  have m: "Make_pathname (Some ''/var/spool//lpd/'') (Some ''lp'') = Some ''/var/spool/lpd/lp''"
    by code_simp
  with Make_pathname_normal [OF m] show ?thesis by blast
qed

end
