(* ===== verification/Config.thy ===== *)
theory Config
  imports TextCodec
begin

section \<open>Keyword tables and configuration variables (linelist.c, controlword.c)\<close>

text \<open>
  The tables of \<open>struct keywords\<close>: \<open>Get_keyval\<close> and \<open>Get_keystr\<close> translate between words and
  codes, with the table of the control words of \<open>lpc\<close> and \<open>lpd\<close> (controlword.c) and that of the
  permission words (permission.c); and the configuration variables, which \<open>Clear_var_list\<close>,
  \<open>Set_var_list\<close> and \<open>Expand_vars\<close> set from their defaults and from a line list.
  The address of a variable is its name; the values are the record \<open>config_vars\<close>. \<open>gettext\<close> is the
  parameter \<open>tr\<close>. A pointer that runs over the end of a value is \<open>None\<close>.
\<close>

datatype key_type = FLAG_K | INTEGER_K | STRING_K

record kword =
  keyword :: cstr
  translation :: "cstr option"
  ktype :: int
  variable :: "cstr option"
  maxval :: int
  flag :: int
  default_value :: "cstr option"

fun Get_keyval :: "(cstr \<Rightarrow> cstr) \<Rightarrow> cstr \<Rightarrow> kword list \<Rightarrow> int" where
  "Get_keyval tr s [] = 0"
| "Get_keyval tr s (k # ks) =
     (if safestrcasecmp (Some s) (Some (keyword k)) = 0
         \<or> (case translation k of
              None \<Rightarrow> False | Some t \<Rightarrow> safestrcasecmp (Some s) (Some (tr t)) = 0)
      then ktype k else Get_keyval tr s ks)"

fun Get_keystr :: "int \<Rightarrow> kword list \<Rightarrow> cstr option" where
  "Get_keystr c [] = None"
| "Get_keystr c (k # ks) = (if ktype k = c then Some (keyword k) else Get_keystr c ks)"

definition word_entry :: "cstr \<Rightarrow> cstr option \<Rightarrow> int \<Rightarrow> kword" where
  "word_entry s t n =
     \<lparr>keyword = s, translation = t, ktype = n, variable = None, maxval = 0, flag = 0,
      default_value = None\<rparr>"

subsection \<open>The control words (controlword.c)\<close>

definition OP_START :: int where "OP_START = 1"
definition OP_STOP :: int where "OP_STOP = 2"
definition OP_ENABLE :: int where "OP_ENABLE = 3"
definition OP_DISABLE :: int where "OP_DISABLE = 4"
definition OP_ABORT :: int where "OP_ABORT = 6"
definition OP_KILL :: int where "OP_KILL = 7"
definition OP_HOLD :: int where "OP_HOLD = 8"
definition OP_RELEASE :: int where "OP_RELEASE = 9"
definition OP_TOPQ :: int where "OP_TOPQ = 10"
definition OP_LPQ :: int where "OP_LPQ = 11"
definition OP_LPRM :: int where "OP_LPRM = 12"
definition OP_STATUS :: int where "OP_STATUS = 13"
definition OP_REDIRECT :: int where "OP_REDIRECT = 14"
definition OP_LPD :: int where "OP_LPD = 15"
definition OP_PRINTCAP :: int where "OP_PRINTCAP = 16"
definition OP_UP :: int where "OP_UP = 17"
definition OP_DOWN :: int where "OP_DOWN = 18"
definition OP_REREAD :: int where "OP_REREAD = 19"
definition OP_MOVE :: int where "OP_MOVE = 20"
definition OP_DEBUG :: int where "OP_DEBUG = 21"
definition OP_HOLDALL :: int where "OP_HOLDALL = 22"
definition OP_NOHOLDALL :: int where "OP_NOHOLDALL = 23"
definition OP_CLASS :: int where "OP_CLASS = 24"
definition OP_DEFAULTQ :: int where "OP_DEFAULTQ = 25"
definition OP_ACTIVE :: int where "OP_ACTIVE = 26"
definition OP_REDO :: int where "OP_REDO = 27"
definition OP_CLIENT :: int where "OP_CLIENT = 28"
definition OP_SERVER :: int where "OP_SERVER = 29"
definition OP_MSG :: int where "OP_MSG = 30"
definition OP_DEFAULTS :: int where "OP_DEFAULTS = 31"
definition OP_FLUSH :: int where "OP_FLUSH = 32"
definition OP_LANG :: int where "OP_LANG = 33"
definition OP_PPD :: int where "OP_PPD = 34"

definition controlwords :: "kword list" where
  "controlwords =
    [word_entry ''ABORT'' (Some ''ABORT'') OP_ABORT,
     word_entry ''ACTIVE'' (Some ''ACTIVE'') OP_ACTIVE,
     word_entry ''CLASS'' (Some ''CLASS'') OP_CLASS,
     word_entry ''CLIENT'' (Some ''CLIENT'') OP_CLIENT,
     word_entry ''DEBUG'' (Some ''DEBUG'') OP_DEBUG,
     word_entry ''DEFAULTQ'' (Some ''DEFAULTQ'') OP_DEFAULTQ,
     word_entry ''DISABLE'' (Some ''DISABLE'') OP_DISABLE,
     word_entry ''DOWN'' (Some ''DOWN'') OP_DOWN,
     word_entry ''ENABLE'' (Some ''ENABLE'') OP_ENABLE,
     word_entry ''HOLD'' (Some ''HOLD'') OP_HOLD,
     word_entry ''HOLDALL'' (Some ''HOLDALL'') OP_HOLDALL,
     word_entry ''KILL'' (Some ''KILL'') OP_KILL,
     word_entry ''LPD'' (Some ''LPD'') OP_LPD,
     word_entry ''LPQ'' (Some ''LPQ'') OP_LPQ,
     word_entry ''LPRM'' (Some ''LPRM'') OP_LPRM,
     word_entry ''MOVE'' (Some ''MOVE'') OP_MOVE,
     word_entry ''MSG'' (Some ''MSG'') OP_MSG,
     word_entry ''NOHOLDALL'' (Some ''NOHOLDALL'') OP_NOHOLDALL,
     word_entry ''PRINTCAP'' (Some ''PRINTCAP'') OP_PRINTCAP,
     word_entry ''REDIRECT'' (Some ''REDIRECT'') OP_REDIRECT,
     word_entry ''REDO'' (Some ''REDO'') OP_REDO,
     word_entry ''RELEASE'' (Some ''RELEASE'') OP_RELEASE,
     word_entry ''REREAD'' (Some ''REREAD'') OP_REREAD,
     word_entry ''START'' (Some ''START'') OP_START,
     word_entry ''STATUS'' (Some ''STATUS'') OP_STATUS,
     word_entry ''STOP'' (Some ''STOP'') OP_STOP,
     word_entry ''TOPQ'' (Some ''TOPQ'') OP_TOPQ,
     word_entry ''UP'' (Some ''UP'') OP_UP,
     word_entry ''SERVER'' (Some ''SERVER'') OP_SERVER,
     word_entry ''DEFAULTS'' (Some ''DEFAULTS'') OP_DEFAULTS,
     word_entry ''FLUSH'' (Some ''FLUSH'') OP_FLUSH,
     word_entry ''LANG'' (Some ''LANG'') OP_LANG,
     word_entry ''PPD'' (Some ''PPD'') OP_PPD]"

definition Get_controlword :: "(cstr \<Rightarrow> cstr) \<Rightarrow> cstr \<Rightarrow> int" where
  "Get_controlword tr s = Get_keyval tr s controlwords"

definition Get_controlstr :: "int \<Rightarrow> cstr option" where
  "Get_controlstr c = Get_keystr c controlwords"

subsection \<open>The permission words (permission.c)\<close>

definition P_REJECT :: int where "P_REJECT = - 1"
definition P_ACCEPT :: int where "P_ACCEPT = 1"
definition P_NOT :: int where "P_NOT = 2"
definition P_SERVICE :: int where "P_SERVICE = 3"
definition P_USER :: int where "P_USER = 4"
definition P_HOST :: int where "P_HOST = 5"
definition P_IP :: int where "P_IP = 6"
definition P_PORT :: int where "P_PORT = 7"
definition P_REMOTEHOST :: int where "P_REMOTEHOST = 8"
definition P_REMOTEIP :: int where "P_REMOTEIP = 9"
definition P_PRINTER :: int where "P_PRINTER = 10"
definition P_DEFAULT :: int where "P_DEFAULT = 11"
definition P_FORWARD :: int where "P_FORWARD = 12"
definition P_SAMEHOST :: int where "P_SAMEHOST = 13"
definition P_SAMEUSER :: int where "P_SAMEUSER = 14"
definition P_CONTROLLINE :: int where "P_CONTROLLINE = 15"
definition P_GROUP :: int where "P_GROUP = 16"
definition P_SERVER :: int where "P_SERVER = 17"
definition P_REMOTEUSER :: int where "P_REMOTEUSER = 18"
definition P_REMOTEGROUP :: int where "P_REMOTEGROUP = 19"
definition P_IFIP :: int where "P_IFIP = 20"
definition P_LPC :: int where "P_LPC = 21"
definition P_AUTH :: int where "P_AUTH = 22"
definition P_AUTHTYPE :: int where "P_AUTHTYPE = 23"
definition P_AUTHUSER :: int where "P_AUTHUSER = 24"
definition P_AUTHFROM :: int where "P_AUTHFROM = 25"
definition P_AUTHSAMEUSER :: int where "P_AUTHSAMEUSER = 26"
definition P_AUTHJOB :: int where "P_AUTHJOB = 27"
definition P_REMOTEPORT :: int where "P_REMOTEPORT = 28"
definition P_UNIXSOCKET :: int where "P_UNIXSOCKET = 29"
definition P_AUTHCA :: int where "P_AUTHCA = 30"

definition permwords :: "kword list" where
  "permwords =
    [word_entry ''ACCEPT'' None P_ACCEPT,
     word_entry ''AUTH'' None P_AUTH,
     word_entry ''AUTHFROM'' None P_AUTHFROM,
     word_entry ''AUTHJOB'' None P_AUTHJOB,
     word_entry ''AUTHSAMEUSER'' None P_AUTHSAMEUSER,
     word_entry ''AUTHTYPE'' None P_AUTHTYPE,
     word_entry ''AUTHUSER'' None P_AUTHUSER,
     word_entry ''CONTROLLINE'' None P_CONTROLLINE,
     word_entry ''DEFAULT'' None P_DEFAULT,
     word_entry ''FORWARD'' None P_FORWARD,
     word_entry ''GROUP'' None P_GROUP,
     word_entry ''HOST'' None P_HOST,
     word_entry ''IFIP'' None P_IFIP,
     word_entry ''IP'' None P_IP,
     word_entry ''LPC'' None P_LPC,
     word_entry ''NOMATCHFOUND'' None 0,
     word_entry ''NOT'' None P_NOT,
     word_entry ''PORT'' None P_PORT,
     word_entry ''PRINTER'' None P_PRINTER,
     word_entry ''REJECT'' None P_REJECT,
     word_entry ''REMOTEGROUP'' None P_REMOTEGROUP,
     word_entry ''REMOTEHOST'' None P_REMOTEHOST,
     word_entry ''REMOTEIP'' None P_REMOTEIP,
     word_entry ''REMOTEPORT'' None P_REMOTEPORT,
     word_entry ''REMOTEUSER'' None P_REMOTEUSER,
     word_entry ''SAMEHOST'' None P_SAMEHOST,
     word_entry ''SAMEUSER'' None P_SAMEUSER,
     word_entry ''SERVER'' None P_SERVER,
     word_entry ''SERVICE'' None P_SERVICE,
     word_entry ''USER'' None P_USER,
     word_entry ''UNIXSOCKET'' None P_UNIXSOCKET,
     word_entry ''AUTHCA'' None P_AUTHCA]"

definition perm_str :: "int \<Rightarrow> cstr option" where
  "perm_str n = Get_keystr n permwords"

text \<open>A single upper case letter is the name of a control file line.\<close>

definition perm_val :: "cstr option \<Rightarrow> int" where
  "perm_val s =
     (case s of
        None \<Rightarrow> 0
      | Some t \<Rightarrow>
          if length t = 1 \<and> isupper (hd t) then P_CONTROLLINE
          else Get_keyval (\<lambda>x. x) t permwords)"

subsection \<open>Values of configuration variables\<close>

record config_vars =
  int_vars :: "cstr \<Rightarrow> int"
  str_vars :: "cstr \<Rightarrow> cstr option"

definition key_type_of :: "int \<Rightarrow> key_type option" where
  "key_type_of n =
     (if n = 0 then Some FLAG_K else if n = 1 then Some INTEGER_K
      else if n = 2 then Some STRING_K else None)"

definition simple_words :: "(cstr \<times> int) list" where
  "simple_words =
     [(''all'', 1), (''yes'', 1), (''allow'', 1), (''true'', 1),
      (''no'', 0), (''deny'', 0), (''false'', 0), (''none'', 0)]"

fun word_value :: "cstr \<Rightarrow> (cstr \<times> int) list \<Rightarrow> int option" where
  "word_value name [] = None"
| "word_value name ((k, v) # ks) =
     (if safestrcasecmp (Some name) (Some k) = 0 then Some v else word_value name ks)"

definition Check_str_keyword :: "cstr \<Rightarrow> int option" where
  "Check_str_keyword name = word_value name simple_words"

text \<open>
  The leading separators of a number are skipped with \<open>safestrchr (Option_value_sep, c)\<close>, which
  also finds the terminating NUL: a value of separators only runs over its end.
\<close>

fun skip_value_sep :: "cstr \<Rightarrow> cstr option" where
  "skip_value_sep [] = None"
| "skip_value_sep (c # s) = (if c \<in> set Option_value_sep then skip_value_sep s else Some (c # s))"

definition int_value :: "cstr \<Rightarrow> int option" where
  "int_value s =
     (case s of
        [] \<Rightarrow> Some 1
      | c # _ \<Rightarrow>
          if c = CHR ''@'' then Some 0
          else (case skip_value_sep s of
                  None \<Rightarrow> None
                | Some t \<Rightarrow>
                    Some (case Check_str_keyword t of
                            Some v \<Rightarrow> v | None \<Rightarrow> to_int (fst (strtol t 0)))))"

definition str_value :: "cstr \<Rightarrow> cstr option" where
  "str_value s =
     (let t = dropWhile (\<lambda>c. c \<in> set Option_value_sep) s
      in if t = [] then None else Some (trunc_str t))"

definition Config_value_conversion :: "config_vars \<Rightarrow> kword \<Rightarrow> cstr option \<Rightarrow> config_vars option" where
  "Config_value_conversion st key s0 =
     (case variable key of
        None \<Rightarrow> Some st
      | Some p \<Rightarrow>
          (let s = dropWhile isspace (opt_str s0) in
           case key_type_of (ktype key) of
             None \<Rightarrow> Some st
           | Some STRING_K \<Rightarrow> Some (st\<lparr>str_vars := (str_vars st)(p := str_value s)\<rparr>)
           | Some _ \<Rightarrow>
               (case int_value s of
                  None \<Rightarrow> None
                | Some i \<Rightarrow> Some (st\<lparr>int_vars := (int_vars st)(p := i)\<rparr>))))"

definition clear_var :: "config_vars \<Rightarrow> kword \<Rightarrow> config_vars" where
  "clear_var st key =
     (case variable key of
        None \<Rightarrow> st
      | Some p \<Rightarrow>
          (case key_type_of (ktype key) of
             None \<Rightarrow> st
           | Some STRING_K \<Rightarrow> st\<lparr>str_vars := (str_vars st)(p := None)\<rparr>
           | Some _ \<Rightarrow> st\<lparr>int_vars := (int_vars st)(p := 0)\<rparr>))"

fun Clear_var_list :: "config_vars \<Rightarrow> kword list \<Rightarrow> bool \<Rightarrow> config_vars option" where
  "Clear_var_list st [] setv = Some st"
| "Clear_var_list st (key # keys) setv =
     (if variable key = None then Clear_var_list st keys setv
      else
        (case (if setv \<and> default_value key \<noteq> None
               then Config_value_conversion (clear_var st key) key (default_value key)
               else Some (clear_var st key)) of
           None \<Rightarrow> None
         | Some st' \<Rightarrow> Clear_var_list st' keys setv))"

fun Set_var_list :: "config_vars \<Rightarrow> kword list \<Rightarrow> line_list \<Rightarrow> config_vars option" where
  "Set_var_list st [] values = Some st"
| "Set_var_list st (key # keys) values =
     (case Find_exists_value values (keyword key) (Some Option_value_sep) of
        None \<Rightarrow> Set_var_list st keys values
      | Some s \<Rightarrow>
          (case Config_value_conversion st key (Some s) of
             None \<Rightarrow> None
           | Some st' \<Rightarrow> Set_var_list st' keys values))"

definition Set_DYN :: "config_vars \<Rightarrow> cstr \<Rightarrow> cstr option \<Rightarrow> config_vars" where
  "Set_DYN st v s =
     st\<lparr>str_vars := (str_vars st)(v := (if s \<noteq> None \<and> s \<noteq> Some [] then s else None))\<rparr>"

subsection \<open>Expansion of \<open>%\<close> in values\<close>

definition Keyletter :: "(char \<times> cstr) list" where
  "Keyletter =
     [(CHR ''P'', ''Printer_DYN''), (CHR ''Q'', ''Queue_name_DYN''), (CHR ''h'', ''ShortHost_FQDN''),
      (CHR ''H'', ''FQDNHost_FQDN''), (CHR ''a'', ''Architecture_DYN''),
      (CHR ''R'', ''RemotePrinter_DYN''), (CHR ''M'', ''RemoteHost_DYN''),
      (CHR ''D'', ''Current_date_DYN'')]"

definition letter_value :: "config_vars \<Rightarrow> char \<Rightarrow> cstr option" where
  "letter_value st c =
     (if isalpha c then (case map_of Keyletter c of None \<Rightarrow> None | Some v \<Rightarrow> str_vars st v) else None)"

fun expand_text :: "(char \<Rightarrow> cstr option) \<Rightarrow> cstr \<Rightarrow> cstr" where
  "expand_text f (p # c # s) =
     (if p = CHR ''%''
      then (case f c of Some t \<Rightarrow> t @ expand_text f s | None \<Rightarrow> p # expand_text f (c # s))
      else p # expand_text f (c # s))"
| "expand_text f s = s"

text \<open>
  \<open>now\<close> is the text of \<open>Time_str (0, 0)\<close>, of which the date before the last \<open>-\<close> is kept when the
  date is not set yet. A value that names the variable it is the value of (\<open>rm=%M\<close>) is left out of the
  model: the code reads the text that it is replacing, and after the first replacement freed memory.
\<close>

definition set_current_date :: "cstr \<Rightarrow> config_vars \<Rightarrow> config_vars" where
  "set_current_date now st =
     (if str_vars st ''Current_date_DYN'' = None
      then Set_DYN st ''Current_date_DYN''
             (Some (case strrchr now CHR ''-'' of
                      None \<Rightarrow> now | Some t \<Rightarrow> take (length now - length t) now))
      else st)"

definition Expand_percent :: "cstr \<Rightarrow> config_vars \<Rightarrow> cstr option \<Rightarrow> config_vars \<times> cstr option" where
  "Expand_percent now st v =
     (case v of
        None \<Rightarrow> (st, None)
      | Some str \<Rightarrow>
          if CHR ''%'' \<notin> set str then (st, Some str)
          else (let st' = set_current_date now st in (st', Some (expand_text (letter_value st') str))))"

fun Expand_vars :: "cstr \<Rightarrow> config_vars \<Rightarrow> kword list \<Rightarrow> config_vars" where
  "Expand_vars now st [] = st"
| "Expand_vars now st (k # ks) =
     Expand_vars now
       (case variable k of
          Some p \<Rightarrow>
            if key_type_of (ktype k) = Some STRING_K
            then (case Expand_percent now st (str_vars st p) of
                    (st', v) \<Rightarrow> st'\<lparr>str_vars := (str_vars st')(p := v)\<rparr>)
            else st
        | None \<Rightarrow> st) ks"

fun Expand_hash_values :: "cstr \<Rightarrow> config_vars \<Rightarrow> line_list \<Rightarrow> config_vars \<times> line_list" where
  "Expand_hash_values now st [] = (st, [])"
| "Expand_hash_values now st (s # l) =
     (case Expand_percent now st (Some s) of
        (st', u) \<Rightarrow> (case Expand_hash_values now st' l of (st'', l') \<Rightarrow> (st'', opt_str u # l')))"

text \<open>
  \<open>Reset_config\<close>: the variables of the printcap table go back to their defaults and take the
  values of the configuration file again. (The lists of printcap entries it empties are those of
  the theory \<open>Printcap\<close>.)
\<close>

definition Reset_config ::
  "cstr \<Rightarrow> config_vars \<Rightarrow> kword list \<Rightarrow> line_list \<Rightarrow> config_vars option" where
  "Reset_config now st Pc_var_list Config_line_list =
     (case Clear_var_list st Pc_var_list True of
        None \<Rightarrow> None
      | Some st1 \<Rightarrow>
          (case Set_var_list st1 Pc_var_list Config_line_list of
             None \<Rightarrow> None
           | Some st2 \<Rightarrow> Some (Expand_vars now st2 Pc_var_list)))"

subsection \<open>Words and codes\<close>

lemma strcasecmp_fold_cong:
  "cstr_ok s \<Longrightarrow> cstr_ok s' \<Longrightarrow> cstr_ok t \<Longrightarrow> fold_codes s = fold_codes s' \<Longrightarrow>
   safestrcasecmp (Some s) (Some t) = 0 \<longleftrightarrow> safestrcasecmp (Some s') (Some t) = 0"
  by (simp add: safestrcasecmp_def strcasecmp_sgn)

definition words_ok :: "(cstr \<Rightarrow> cstr) \<Rightarrow> kword list \<Rightarrow> bool" where
  "words_ok tr ks \<longleftrightarrow> (\<forall>k\<in>set ks. cstr_ok (keyword k) \<and>
     (case translation k of None \<Rightarrow> True | Some t \<Rightarrow> cstr_ok (tr t)))"

lemma Get_keyval_fold_cong:
  "words_ok tr ks \<Longrightarrow> cstr_ok s \<Longrightarrow> cstr_ok s' \<Longrightarrow> fold_codes s = fold_codes s' \<Longrightarrow>
   Get_keyval tr s ks = Get_keyval tr s' ks"
proof (induction ks)
  case (Cons k ks)
  have "cstr_ok (keyword k)" using Cons.prems by (simp add: words_ok_def)
  moreover have "cstr_ok (tr t)" if "translation k = Some t" for t
    using Cons.prems that by (simp add: words_ok_def)
  ultimately show ?case
    using Cons strcasecmp_fold_cong [OF Cons.prems(2,3) _ Cons.prems(4)]
    by (auto simp: words_ok_def split: option.splits)
qed simp

lemmas control_table_defs = controlwords_def word_entry_def
  OP_START_def OP_STOP_def OP_ENABLE_def OP_DISABLE_def OP_ABORT_def OP_KILL_def OP_HOLD_def
  OP_RELEASE_def OP_TOPQ_def OP_LPQ_def OP_LPRM_def OP_STATUS_def OP_REDIRECT_def OP_LPD_def
  OP_PRINTCAP_def OP_UP_def OP_DOWN_def OP_REREAD_def OP_MOVE_def OP_DEBUG_def OP_HOLDALL_def
  OP_NOHOLDALL_def OP_CLASS_def OP_DEFAULTQ_def OP_ACTIVE_def OP_REDO_def OP_CLIENT_def
  OP_SERVER_def OP_MSG_def OP_DEFAULTS_def OP_FLUSH_def OP_LANG_def OP_PPD_def

lemma controlwords_ok: "words_ok (\<lambda>x. x) controlwords"
  by code_simp

lemma controlwords_table:
  "list_all (\<lambda>k. Get_keyval (\<lambda>x. x) (keyword k) controlwords = ktype k
     \<and> Get_keystr (ktype k) controlwords = Some (keyword k) \<and> cstr_ok (keyword k)) controlwords"
  by code_simp

subsection \<open>Resetting forgets the old values\<close>

definition int_names :: "kword list \<Rightarrow> cstr set" where
  "int_names ks = {p. \<exists>k\<in>set ks. variable k = Some p \<and>
     (key_type_of (ktype k) = Some FLAG_K \<or> key_type_of (ktype k) = Some INTEGER_K)}"

definition str_names :: "kword list \<Rightarrow> cstr set" where
  "str_names ks = {p. \<exists>k\<in>set ks. variable k = Some p \<and> key_type_of (ktype k) = Some STRING_K}"

definition agree :: "cstr set \<Rightarrow> cstr set \<Rightarrow> config_vars \<Rightarrow> config_vars \<Rightarrow> bool" where
  "agree I S a b \<longleftrightarrow> (\<forall>p\<in>I. int_vars a p = int_vars b p) \<and> (\<forall>p\<in>S. str_vars a p = str_vars b p)"

lemma names_Cons:
  "int_names (k # ks) = int_names [k] \<union> int_names ks"
  "str_names (k # ks) = str_names [k] \<union> str_names ks"
  by (auto simp: int_names_def str_names_def)

lemma clear_var_agree:
  "agree I S a b \<Longrightarrow> agree (I \<union> int_names [k]) (S \<union> str_names [k]) (clear_var a k) (clear_var b k)"
  by (auto simp: agree_def clear_var_def int_names_def str_names_def
      split: option.splits key_type.splits)

lemma conversion_agree:
  assumes "agree I S a b"
  shows "rel_option (agree (I \<union> int_names [k]) (S \<union> str_names [k]))
    (Config_value_conversion a k v) (Config_value_conversion b k v)"
  using assms
  by (auto simp: agree_def Config_value_conversion_def int_names_def str_names_def Let_def
      split: option.splits key_type.splits)

lemma clear_conversion_agree:
  assumes "agree I S a b"
  shows "rel_option (agree (I \<union> int_names [k]) (S \<union> str_names [k]))
    (Config_value_conversion (clear_var a k) k v) (Config_value_conversion (clear_var b k) k v)"
proof -
  have "agree (I \<union> int_names [k]) (S \<union> str_names [k]) (clear_var a k) (clear_var b k)"
    using assms by (rule clear_var_agree)
  from conversion_agree [OF this, of k v] show ?thesis by (simp add: Un_assoc)
qed

lemma Clear_var_list_agree:
  "agree I S a b \<Longrightarrow>
   rel_option (agree (I \<union> int_names ks) (S \<union> str_names ks))
     (Clear_var_list a ks setv) (Clear_var_list b ks setv)"
proof (induction ks arbitrary: I S a b)
  case Nil
  then show ?case by (simp add: int_names_def str_names_def)
next
  case (Cons k ks)
  let ?A = "agree (I \<union> int_names [k]) (S \<union> str_names [k])"
  show ?case
  proof (cases "variable k = None")
    case True
    then have "int_names [k] = {}" "str_names [k] = {}" by (auto simp: int_names_def str_names_def)
    with Cons.IH [OF Cons.prems] True show ?thesis by (simp add: names_Cons [of k ks])
  next
    case False
    let ?f = "\<lambda>st. if setv \<and> default_value k \<noteq> None
        then Config_value_conversion (clear_var st k) k (default_value k) else Some (clear_var st k)"
    have "rel_option ?A (?f a) (?f b)"
      using clear_conversion_agree [OF Cons.prems, of k "default_value k"]
        clear_var_agree [OF Cons.prems, of k] by (cases "setv \<and> default_value k \<noteq> None") auto
    moreover have step: "Clear_var_list st (k # ks) setv =
        (case ?f st of None \<Rightarrow> None | Some st' \<Rightarrow> Clear_var_list st' ks setv)" for st
      unfolding Clear_var_list.simps using False by (rule if_not_P)
    ultimately show ?thesis
    proof cases
      case None
      then show ?thesis unfolding step by simp
    next
      case (Some a' b')
      have "rel_option (agree (I \<union> int_names [k] \<union> int_names ks) (S \<union> str_names [k] \<union> str_names ks))
          (Clear_var_list a' ks setv) (Clear_var_list b' ks setv)"
        using Some(3) by (rule Cons.IH)
      moreover have "Clear_var_list a (k # ks) setv = Clear_var_list a' ks setv"
        "Clear_var_list b (k # ks) setv = Clear_var_list b' ks setv"
        unfolding step Some(1,2) by simp_all
      ultimately show ?thesis by (simp add: names_Cons [of k ks] Un_assoc)
    qed
  qed
qed

lemma Set_var_list_agree:
  "agree I S a b \<Longrightarrow> rel_option (agree I S) (Set_var_list a ks l) (Set_var_list b ks l)"
proof (induction ks arbitrary: a b)
  case (Cons k ks)
  show ?case
  proof (cases "Find_exists_value l (keyword k) (Some Option_value_sep)")
    case None
    with Cons show ?thesis by simp
  next
    case (Some v)
    have "rel_option (agree (I \<union> int_names [k]) (S \<union> str_names [k]))
        (Config_value_conversion a k (Some v)) (Config_value_conversion b k (Some v))"
      using Cons.prems by (rule conversion_agree)
    then have "rel_option (agree I S) (Config_value_conversion a k (Some v))
        (Config_value_conversion b k (Some v))"
      by (rule option.rel_mono_strong) (auto simp: agree_def)
    then show ?thesis by cases (use Cons.IH Some in auto)
  qed
qed simp

subsection \<open>Properties\<close>

text \<open>
  Every control word, in upper or lower case, is translated to its own code, and the code back
  to the word: no two words of the table share a code, and no word is shadowed by an earlier one.
\<close>

theorem controlword_roundtrip:
  assumes "k \<in> set controlwords" "cstr_ok s" "fold_codes s = fold_codes (keyword k)"
  shows "Get_controlword (\<lambda>x. x) s = ktype k \<and> Get_controlstr (ktype k) = Some (keyword k)"
proof -
  have t: "Get_keyval (\<lambda>x. x) (keyword k) controlwords = ktype k"
    "Get_keystr (ktype k) controlwords = Some (keyword k)" "cstr_ok (keyword k)"
    using controlwords_table assms(1) by (auto simp: list_all_iff)
  have "Get_keyval (\<lambda>x. x) s controlwords = Get_keyval (\<lambda>x. x) (keyword k) controlwords"
    by (rule Get_keyval_fold_cong [OF controlwords_ok assms(2) t(3) assms(3)])
  with t show ?thesis by (simp add: Get_controlword_def Get_controlstr_def)
qed

lemma controlword_roundtrip_witness: "Get_controlword (\<lambda>x. x) ''topq'' = OP_TOPQ"
proof -
  have "word_entry ''TOPQ'' (Some ''TOPQ'') OP_TOPQ \<in> set controlwords" "cstr_ok ''topq''"
    "fold_codes ''topq'' = fold_codes (keyword (word_entry ''TOPQ'' (Some ''TOPQ'') OP_TOPQ))"
    by (simp add: controlwords_def) code_simp+
  from controlword_roundtrip [OF this] show ?thesis by (simp add: word_entry_def)
qed

text \<open>
  After the variables of a table are cleared to their defaults and set from the configuration,
  each of them has a value that does not depend on any value a variable had before, and whether
  the conversion runs off the end of a value does not depend on it either.
\<close>

theorem config_forgets_old_values:
  "rel_option (agree (int_names ks) (str_names ks))
     (Option.bind (Clear_var_list a ks setv) (\<lambda>st. Set_var_list st ks l))
     (Option.bind (Clear_var_list b ks setv) (\<lambda>st. Set_var_list st ks l))"
proof -
  have "agree {} {} a b" by (simp add: agree_def)
  from Clear_var_list_agree [OF this, of ks setv]
  have "rel_option (agree (int_names ks) (str_names ks)) (Clear_var_list a ks setv) (Clear_var_list b ks setv)"
    by simp
  then show ?thesis by cases (auto intro: Set_var_list_agree)
qed

text \<open>
  A flag or number whose configured value consists of separators only (\<open>=\<close>, \<open>#\<close> or blanks
  after a first \<open>=\<close> or \<open>#\<close>) makes the conversion run over the end of the value; any other value
  is converted.
\<close>

theorem int_value_overrun:
  "int_value s = None \<longleftrightarrow> s \<noteq> [] \<and> hd s \<noteq> CHR ''@'' \<and> set s \<subseteq> set Option_value_sep"
proof -
  have "skip_value_sep t = None \<longleftrightarrow> set t \<subseteq> set Option_value_sep" for t
    by (induction t) auto
  then have n: "skip_value_sep s = None \<longleftrightarrow> set s \<subseteq> set Option_value_sep" .
  show ?thesis
  proof (cases s)
    case Nil
    then show ?thesis by (simp add: int_value_def)
  next
    case (Cons c r)
    show ?thesis
      unfolding n [symmetric] by (cases "skip_value_sep s") (simp_all add: Cons int_value_def)
  qed
qed

end
