(* ===== verification/JobKeys.thy ===== *)
theory JobKeys
  imports TextCodec
begin

section \<open>The names of the values of a job (getqueue.h)\<close>

text \<open>
  The constants of \<open>src/src/include/getqueue.h\<close> that name the entries of the lists of a job, of a
  queue's control and of a permission check, under their C names, and the facts that they are keys of
  a store. Single capital letters are the lines of a control file.
\<close>

definition ACTION :: cstr where "ACTION = ''action''"
definition ACCNTNAME :: cstr where "ACCNTNAME = ''R''"
definition ACTIVE_TIME :: cstr where "ACTIVE_TIME = ''active_time''"
definition ADDR :: cstr where "ADDR = ''addr''"
definition ALL_word :: cstr where "ALL_word = ''all''"
definition ATTEMPT :: cstr where "ATTEMPT = ''attempt''"
definition AUTH :: cstr where "AUTH = ''auth''"
definition AUTHCA :: cstr where "AUTHCA = ''authca''"
definition AUTHFROM :: cstr where "AUTHFROM = ''authfrom''"
definition AUTHTYPE :: cstr where "AUTHTYPE = ''authtype''"
definition AUTHUSER :: cstr where "AUTHUSER = ''authuser''"
definition AUTOHOLD :: cstr where "AUTOHOLD = ''autohold''"
definition BNRNAME :: cstr where "BNRNAME = ''L''"
definition CALL :: cstr where "CALL = ''call''"
definition CF_OUT_IMAGE :: cstr where "CF_OUT_IMAGE = ''cf_out_image''"
definition CHANGE :: cstr where "CHANGE = ''change''"
definition CLASS :: cstr where "CLASS = ''C''"
definition CLIENT :: cstr where "CLIENT = ''client''"
definition CMD :: cstr where "CMD = ''cmd''"
definition COPIES :: cstr where "COPIES = ''copies''"
definition COPY_DONE :: cstr where "COPY_DONE = ''copy_done''"
definition HFDATAFILES :: cstr where "HFDATAFILES = ''hfdatafiles''"
definition DATAFILES :: cstr where "DATAFILES = ''datafiles''"
definition DATAFILE_COUNT :: cstr where "DATAFILE_COUNT = ''datafile_count''"
definition DATE :: cstr where "DATE = ''D''"
definition DEBUG :: cstr where "DEBUG = ''debug''"
definition DEBUGFV :: cstr where "DEBUGFV = ''debugfv''"
definition DEST :: cstr where "DEST = ''dest''"
definition DESTINATION :: cstr where "DESTINATION = ''destination''"
definition DESTINATIONS :: cstr where "DESTINATIONS = ''destinations''"
definition DF_NAME :: cstr where "DF_NAME = ''df_name''"
definition DMALLOC_OPTIONS :: cstr where "DMALLOC_OPTIONS = ''DMALLOC_OPTIONS''"
definition DMALLOC_OUTFILE :: cstr where "DMALLOC_OUTFILE = ''dmalloc_outfile''"
definition DONE_TIME :: cstr where "DONE_TIME = ''done_time''"
definition DONE_REMOVE :: cstr where "DONE_REMOVE = ''done_remove''"
definition DUMP :: cstr where "DUMP = ''dump''"
definition END :: cstr where "END = ''end''"
definition ERROR :: cstr where "ERROR = ''error''"
definition ERROR_TIME :: cstr where "ERROR_TIME = ''error_time''"
definition ESC_ID :: cstr where "ESC_ID = ''esc_id''"
definition FILENAMES :: cstr where "FILENAMES = ''filenames''"
definition FILE_HOSTNAME :: cstr where "FILE_HOSTNAME = ''file_hostname''"
definition FILTER :: cstr where "FILTER = ''filter''"
definition FIRST_SCAN :: cstr where "FIRST_SCAN = ''first_scan''"
definition FORMAT :: cstr where "FORMAT = ''format''"
definition FORMAT_ERROR :: cstr where "FORMAT_ERROR = ''format_error''"
definition FORWARDING :: cstr where "FORWARDING = ''forwarding''"
definition FORWARD_ID :: cstr where "FORWARD_ID = ''forward_id''"
definition FROM :: cstr where "FROM = ''from''"
definition FROMHOST :: cstr where "FROMHOST = ''H''"
definition HELD :: cstr where "HELD = ''held''"
definition HF_IMAGE :: cstr where "HF_IMAGE = ''hf_image''"
definition HF_NAME :: cstr where "HF_NAME = ''hf_name''"
definition HOLD_ALL :: cstr where "HOLD_ALL = ''hold_all''"
definition HOLD_CLASS :: cstr where "HOLD_CLASS = ''hold_class''"
definition HOLD_TIME :: cstr where "HOLD_TIME = ''hold_time''"
definition HOST :: cstr where "HOST = ''host''"
definition HPFORMAT :: cstr where "HPFORMAT = ''hpformat''"
definition ID :: cstr where "ID = ''id''"
definition IDENTIFIER :: cstr where "IDENTIFIER = ''A''"
definition INCOMING_PID :: cstr where "INCOMING_PID = ''incoming_pid''"
definition INCOMING_TIME :: cstr where "INCOMING_TIME = ''incoming_time''"
definition INPUT :: cstr where "INPUT = ''input''"
definition JOBNAME :: cstr where "JOBNAME = ''J''"
definition JOBSEQ :: cstr where "JOBSEQ = ''jobseq''"
definition JOBSIZE :: cstr where "JOBSIZE = ''jobsize''"
definition JOB_TIME :: cstr where "JOB_TIME = ''job_time''"
definition JOB_TIME_USEC :: cstr where "JOB_TIME_USEC = ''job_time_usec''"
definition KEYID :: cstr where "KEYID = ''keyid''"
definition LOCALHOST :: cstr where "LOCALHOST = ''localhost''"
definition LOG :: cstr where "LOG = ''log''"
definition LOGNAME :: cstr where "LOGNAME = ''P''"
definition LP :: cstr where "LP = ''lp''"
definition LPC :: cstr where "LPC = ''lpc''"
definition LPD :: cstr where "LPD = ''lpd''"
definition LPD_CONF :: cstr where "LPD_CONF = ''LPD_CONF''"
definition LPD_PORT :: cstr where "LPD_PORT = ''lpd_port''"
definition MAILNAME :: cstr where "MAILNAME = ''M''"
definition MOVE :: cstr where "MOVE = ''move''"
definition MOVE_DEST :: cstr where "MOVE_DEST = ''move_dest''"
definition MOVE_COUNT :: cstr where "MOVE_COUNT = ''move_count''"
definition MSG :: cstr where "MSG = ''msg''"
definition NAME :: cstr where "NAME = ''name''"
definition NEW_DEST :: cstr where "NEW_DEST = ''new_dest''"
definition NONEP :: cstr where "NONEP = ''none''"
definition NUMBER :: cstr where "NUMBER = ''number''"
definition OPENNAME :: cstr where "OPENNAME = ''openname''"
definition ORIG_IDENTIFIER :: cstr where "ORIG_IDENTIFIER = ''orig_identifier''"
definition PORT :: cstr where "PORT = ''port''"
definition PRINTABLE :: cstr where "PRINTABLE = ''printable''"
definition PRINTER :: cstr where "PRINTER = ''printer''"
definition PRINTING_ABORTED :: cstr where "PRINTING_ABORTED = ''printing_aborted''"
definition PRINTING_DISABLED :: cstr where "PRINTING_DISABLED = ''printing_disabled''"
definition PRIORITY :: cstr where "PRIORITY = ''priority''"
definition PRIORITY_TIME :: cstr where "PRIORITY_TIME = ''priority_time''"
definition PROCESS :: cstr where "PROCESS = ''process''"
definition PRSTATUS :: cstr where "PRSTATUS = ''prstatus''"
definition QUEUE :: cstr where "QUEUE = ''queue''"
definition QUEUENAME :: cstr where "QUEUENAME = ''Q''"
definition QUEUE_CONTROL_FILE :: cstr where "QUEUE_CONTROL_FILE = ''queue_control_file''"
definition QUEUE_STATUS_FILE :: cstr where "QUEUE_STATUS_FILE = ''queue_status_file''"
definition REDIRECT :: cstr where "REDIRECT = ''redirect''"
definition REMOTEHOST :: cstr where "REMOTEHOST = ''remotehost''"
definition REMOTEPORT :: cstr where "REMOTEPORT = ''remoteport''"
definition REMOTEUSER :: cstr where "REMOTEUSER = ''remoteuser''"
definition REMOVE_TIME :: cstr where "REMOVE_TIME = ''remove_time''"
definition SD :: cstr where "SD = ''sd''"
definition SEQUENCE :: cstr where "SEQUENCE = ''sequence''"
definition SERVER :: cstr where "SERVER = ''server''"
definition SERVER_ORDER :: cstr where "SERVER_ORDER = ''server_order''"
definition SERVICE :: cstr where "SERVICE = ''service''"
definition SIZE :: cstr where "SIZE = ''size''"
definition SORT_KEY :: cstr where "SORT_KEY = ''sort_key''"
definition SPOOLDIR :: cstr where "SPOOLDIR = ''spooldir''"
definition SPOOLING_DISABLED :: cstr where "SPOOLING_DISABLED = ''spooling_disabled''"
definition START_TIME :: cstr where "START_TIME = ''start_time''"
definition STATE :: cstr where "STATE = ''state''"
definition STATUS_CHANGE :: cstr where "STATUS_CHANGE = ''status_change''"
definition SUBSERVER :: cstr where "SUBSERVER = ''subserver''"
definition TRACE :: cstr where "TRACE = ''trace''"
definition DFTRANSFERNAME :: cstr where "DFTRANSFERNAME = ''dftransfername''"
definition XXCFTRANSFERNAME :: cstr where "XXCFTRANSFERNAME = ''cftransfername''"
definition NTRANSFERNAME :: cstr where "NTRANSFERNAME = ''ntransfername''"
definition OTRANSFERNAME :: cstr where "OTRANSFERNAME = ''otransfername''"
definition UNIXSOCKET :: cstr where "UNIXSOCKET = ''unixsocket''"
definition UPDATE :: cstr where "UPDATE = ''update''"
definition UPDATE_TIME :: cstr where "UPDATE_TIME = ''update_time''"
definition USER :: cstr where "USER = ''user''"
definition VALUE :: cstr where "VALUE = ''value''"

lemmas job_key_defs =
  ACTION_def ACCNTNAME_def ACTIVE_TIME_def ADDR_def ALL_word_def ATTEMPT_def AUTH_def AUTHCA_def
  AUTHFROM_def AUTHTYPE_def AUTHUSER_def AUTOHOLD_def BNRNAME_def CALL_def CF_OUT_IMAGE_def
  CHANGE_def CLASS_def CLIENT_def CMD_def COPIES_def COPY_DONE_def HFDATAFILES_def
  DATAFILES_def DATAFILE_COUNT_def DATE_def DEBUG_def DEBUGFV_def DEST_def DESTINATION_def
  DESTINATIONS_def DF_NAME_def DMALLOC_OPTIONS_def DMALLOC_OUTFILE_def DONE_TIME_def
  DONE_REMOVE_def DUMP_def END_def ERROR_def ERROR_TIME_def ESC_ID_def FILENAMES_def
  FILE_HOSTNAME_def FILTER_def FIRST_SCAN_def FORMAT_def FORMAT_ERROR_def FORWARDING_def
  FORWARD_ID_def FROM_def FROMHOST_def HELD_def HF_IMAGE_def HF_NAME_def HOLD_ALL_def
  HOLD_CLASS_def HOLD_TIME_def HOST_def HPFORMAT_def ID_def IDENTIFIER_def INCOMING_PID_def
  INCOMING_TIME_def INPUT_def JOBNAME_def JOBSEQ_def JOBSIZE_def JOB_TIME_def
  JOB_TIME_USEC_def KEYID_def LOCALHOST_def LOG_def LOGNAME_def LP_def LPC_def LPD_def
  LPD_CONF_def LPD_PORT_def MAILNAME_def MOVE_def MOVE_DEST_def MOVE_COUNT_def MSG_def
  NAME_def NEW_DEST_def NONEP_def NUMBER_def OPENNAME_def ORIG_IDENTIFIER_def PORT_def
  PRINTABLE_def PRINTER_def PRINTING_ABORTED_def PRINTING_DISABLED_def PRIORITY_def
  PRIORITY_TIME_def PROCESS_def PRSTATUS_def QUEUE_def QUEUENAME_def QUEUE_CONTROL_FILE_def
  QUEUE_STATUS_FILE_def REDIRECT_def REMOTEHOST_def REMOTEPORT_def REMOTEUSER_def
  REMOVE_TIME_def SD_def SEQUENCE_def SERVER_def SERVER_ORDER_def SERVICE_def SIZE_def
  SORT_KEY_def SPOOLDIR_def SPOOLING_DISABLED_def START_TIME_def STATE_def STATUS_CHANGE_def
  SUBSERVER_def TRACE_def DFTRANSFERNAME_def XXCFTRANSFERNAME_def NTRANSFERNAME_def
  OTRANSFERNAME_def UNIXSOCKET_def UPDATE_def UPDATE_TIME_def USER_def VALUE_def

text \<open>Every name is a key of a case-insensitive store, and fits in the buffer of a flag.\<close>

lemma job_keys_ok:
  "list_all flag_key
    [ACTIVE_TIME, ATTEMPT, AUTHUSER, BNRNAME, CF_OUT_IMAGE, CLASS, COPIES, COPY_DONE, DATAFILE_COUNT,
     DEST, DESTINATION, DESTINATIONS, DFTRANSFERNAME, DONE_TIME, ERROR, ERROR_TIME, FILE_HOSTNAME,
     FORMAT, FORWARDING, FROMHOST, HELD, HFDATAFILES, HF_NAME, HOLD_ALL, HOLD_CLASS, HOLD_TIME,
     HPFORMAT, IDENTIFIER, JOBNAME, JOBSEQ, JOBSIZE, JOB_TIME, LOGNAME, MOVE, MOVE_DEST, NTRANSFERNAME,
     NUMBER, OPENNAME, OTRANSFERNAME, PRINTABLE, PRINTER, PRIORITY, PRIORITY_TIME, QUEUE, QUEUENAME,
     REMOTEUSER, REMOVE_TIME, SEQUENCE, SERVER, SIZE, SORT_KEY, START_TIME, STATE, USER]"
  by (simp add: job_key_defs flag_key_def key_ok_def cstr_ok_def NUL_def Option_value_sep_def)
    (simp add: iscntrl_def ccode_def)

end
