(* ===== verification/HostMatch.thy ===== *)
theory HostMatch
  imports Glob TextLines "HOL-Library.Word"
begin

unbundle bit_operations_syntax

section \<open>Matching host addresses and names (gethostinfo.c)\<close>

text \<open>
  \<open>struct host_information\<close> with its names and addresses, the comparison of two hosts
  (\<open>Same_host\<close>), the address/mask notation of access lists (\<open>form_addr_and_mask\<close>,
  \<open>cmp_ip_addr\<close>) and the match of a host against a list of patterns (\<open>Match_ipaddr_value\<close>).
  What the C library and the file system answer is the record \<open>net_env\<close>: \<open>innetgr\<close> for a host,
  \<open>inet_pton\<close>, and the content of a file. A pattern file may name further files; the model
  follows \<open>fuel\<close> levels of them and is \<open>None\<close> beyond, as it is when a glob pattern leads
  behind the end of a name. The truth value of a result is the one of the C \<open>int\<close>: True is "no
  match".
\<close>

record host_information =
  shorthost :: cstr
  fqdn :: "cstr option"
  host_names :: line_list
  h_addrtype :: int
  h_length :: nat
  h_addr_list :: "8 word list list"

record net_env =
  innetgr_host :: "cstr \<Rightarrow> cstr \<Rightarrow> bool"
  innetgr_user :: "cstr \<Rightarrow> cstr \<Rightarrow> bool"
  inet_pton :: "int \<Rightarrow> cstr \<Rightarrow> 8 word list option"
  file_image :: "cstr \<Rightarrow> cstr option"

definition AF_INET :: int where "AF_INET = 2"
definition AF_INET6 :: int where "AF_INET6 = 10"

subsection \<open>The same host\<close>

text \<open>
  \<open>Same_host\<close> is 0 (False) when both are there, have addresses of one length and share one.
\<close>

definition Same_host :: "host_information option \<Rightarrow> host_information option \<Rightarrow> bool" where
  "Same_host host remote =
     (case (host, remote) of
        (Some h1, Some h2) \<Rightarrow>
          if h_length h1 = h_length h2
          then list_all (\<lambda>a. list_all
                 (\<lambda>b. take (h_length h1) a \<noteq> take (h_length h1) b) (h_addr_list h2)) (h_addr_list h1)
          else True
      | _ \<Rightarrow> True)"

subsection \<open>Address and mask\<close>

definition bit_mask :: "nat \<Rightarrow> nat \<Rightarrow> 8 word list" where
  "bit_mask addrlen m =
     (let bytecount = (if addrlen \<le> m div 8 then addrlen else m div 8);
          bitcount = (if addrlen \<le> m div 8 then 0 else m mod 8)
      in replicate bytecount 0xFF
         @ (if bitcount \<noteq> 0 \<and> bytecount < addrlen
            then [NOT (push_bit (8 - bitcount) 1 - 1) AND 0xFF] else [])
         @ replicate (addrlen - bytecount - (if bitcount \<noteq> 0 \<and> bytecount < addrlen then 1 else 0)) 0)"

text \<open>
  \<open>None\<close> is the return value 0. The check of \<open>addrlen\<close> against the size of a debugging buffer,
  which ends the process, cannot fail for the two address families.
\<close>

definition form_addr_and_mask ::
  "net_env \<Rightarrow> cstr \<Rightarrow> nat \<Rightarrow> int \<Rightarrow> (8 word list \<times> 8 word list) option" where
  "form_addr_and_mask env v addrlen family =
     (let slash = (if family = AF_INET \<or> family = AF_INET6 then strchr v CHR ''/'' else None);
          addr_text = (case slash of None \<Rightarrow> v | Some t \<Rightarrow> take (length v - length t) v)
      in case inet_pton env family addr_text of
           None \<Rightarrow> None
         | Some addr \<Rightarrow>
             (case slash of
                None \<Rightarrow> Some (addr, replicate addrlen (NOT 0))
              | Some t \<Rightarrow>
                  (case strtol (tl t) 0 of (n, e) \<Rightarrow>
                     if e \<noteq> [] then
                       (case inet_pton env family (tl t) of
                          None \<Rightarrow> None | Some msk \<Rightarrow> Some (addr, msk))
                     else if 0 \<le> to_int n then Some (addr, bit_mask addrlen (nat (to_int n)))
                     else None)))"

text \<open>\<open>cmp_ip_addr\<close>: True is a difference under the mask; an empty address never matches.\<close>

definition cmp_ip_addr :: "8 word list \<Rightarrow> 8 word list \<Rightarrow> 8 word list \<Rightarrow> nat \<Rightarrow> bool" where
  "cmp_ip_addr h a m len =
     (len = 0 \<or> (\<exists>i\<in>set [0..<len]. m ! i AND (a ! i XOR h ! i) AND 0xFF \<noteq> 0))"

subsection \<open>Match_ipaddr_value\<close>

fun names_loop :: "cstr \<Rightarrow> line_list \<Rightarrow> bool option" where
  "names_loop str [] = Some True"
| "names_loop str (h # hs) =
     (case Globmatch (Some str) (Some (lowercase h)) of
        None \<Rightarrow> None
      | Some r \<Rightarrow> if r = 0 then Some False else names_loop str hs)"

definition match_name_or_addr :: "net_env \<Rightarrow> host_information \<Rightarrow> cstr \<Rightarrow> bool option" where
  "match_name_or_addr env host str0 =
     (let str = lowercase str0 in
      case names_loop str (host_names host) of
        None \<Rightarrow> None
      | Some False \<Rightarrow> Some False
      | Some True \<Rightarrow>
          (case form_addr_and_mask env str (h_length host) (h_addrtype host) of
             None \<Rightarrow> Some True
           | Some (addr, msk) \<Rightarrow>
               Some (list_all (\<lambda>v. cmp_ip_addr v addr msk (h_length host)) (h_addr_list host))))"

definition file_words :: "net_env \<Rightarrow> cstr \<Rightarrow> line_list" where
  "file_words env file =
     (case file_image env file of
        None \<Rightarrow> []
      | Some text \<Rightarrow> Split [] text Whitespace False None False NUL False None)"

text \<open>
  The loop over the list; \<open>invert\<close> is set by a leading \<open>!\<close> and keeps its value for the entries
  after it.
\<close>

fun match_ip_loop ::
  "net_env \<Rightarrow> nat \<Rightarrow> host_information \<Rightarrow> cstr \<Rightarrow> bool \<Rightarrow> line_list \<Rightarrow> bool option" where
  "match_ip_loop env fuel host name invert0 [] = Some True"
| "match_ip_loop env fuel host name invert0 (str0 # l) =
     (let invert = (invert0 \<or> take 1 str0 = ''!'');
          str = (if take 1 str0 = ''!'' then tl str0 else str0);
          r = (if take 1 str = ''@''
               then Some (\<not> innetgr_host env (tl str) (shorthost host)
                          \<and> \<not> innetgr_host env (tl str) name)
               else if take 2 str = ''</''
               then (case fuel of
                       0 \<Rightarrow> None
                     | Suc n \<Rightarrow> match_ip_loop env n host name False (file_words env (tl str)))
               else match_name_or_addr env host str)
      in case r of
           None \<Rightarrow> None
         | Some res \<Rightarrow>
             (if (if invert then \<not> res else res)
              then match_ip_loop env fuel host name invert l else Some False))"

definition Match_ipaddr_value ::
  "net_env \<Rightarrow> nat \<Rightarrow> line_list \<Rightarrow> host_information option \<Rightarrow> bool option" where
  "Match_ipaddr_value env fuel l host =
     (case host of
        None \<Rightarrow> Some True
      | Some h \<Rightarrow>
          (case fqdn h of None \<Rightarrow> Some True | Some name \<Rightarrow> match_ip_loop env fuel h name False l))"

subsection \<open>Masks\<close>

lemma length_bit_mask [simp]: "length (bit_mask n m) = n"
  by (auto simp: bit_mask_def Let_def)

lemma byte_and_FF: "(w :: 8 word) AND 0xFF = w"
proof -
  have e: "(0xFF :: 8 word) = -1" by simp
  show ?thesis unfolding e by (rule and.right_neutral)
qed

lemma bit_top_mask:
  assumes "0 < k" "k < 8" "b < 8"
  shows "bit (NOT (push_bit (8 - k) 1 - 1) :: 8 word) b \<longleftrightarrow> 8 - k \<le> b"
proof -
  have "push_bit (8 - k) (1 :: 8 word) - 1 = mask (8 - k)"
    by (simp add: mask_eq_exp_minus_1 push_bit_eq_mult)
  then show ?thesis using assms by (auto simp: bit_simps not_less)
qed

lemma bit_bit_mask:
  assumes "i < n" "b < 8"
  shows "bit (bit_mask n m ! i) b \<longleftrightarrow> 8 * i + (7 - b) < m"
proof (cases "n \<le> m div 8")
  case True
  then have "bit_mask n m ! i = 0xFF" using assms by (simp add: bit_mask_def)
  moreover have "(0xFF :: 8 word) = -1" by simp
  moreover have "8 * i + (7 - b) < m" using True assms by linarith
  ultimately show ?thesis using assms(2) by simp
next
  case False
  define q r where "q = m div 8" and "r = m mod 8"
  have m: "m = 8 * q + r" "r < 8" by (simp_all add: q_def r_def)
  have q: "q < n" using False by (simp add: q_def)
  have bm: "bit_mask n m = replicate q 0xFF
      @ (if r \<noteq> 0 then [NOT (push_bit (8 - r) 1 - 1)] else [])
      @ replicate (n - q - (if r \<noteq> 0 then 1 else 0)) 0"
    using False by (simp add: bit_mask_def Let_def byte_and_FF q_def r_def)
  consider "i < q" | "i = q" "r \<noteq> 0" | "i = q" "r = 0" | "q < i" by linarith
  then show ?thesis
  proof cases
    case 1
    then have "bit_mask n m ! i = 0xFF" by (simp add: bm nth_append)
    moreover have "(0xFF :: 8 word) = -1" by simp
    moreover have "8 * i + (7 - b) < m" using 1 m assms(2) by linarith
    ultimately show ?thesis using assms(2) by simp
  next
    case 2
    then have "bit_mask n m ! i = NOT (push_bit (8 - r) 1 - 1)" by (simp add: bm nth_append)
    moreover have "8 * i + (7 - b) < m \<longleftrightarrow> 8 - r \<le> b" using 2 m assms(2) by linarith
    ultimately show ?thesis using bit_top_mask [of r b] 2 m assms(2) by simp
  next
    case 3
    then have "bit_mask n m ! i = 0" using assms(1) by (simp add: bm nth_append)
    moreover have "\<not> 8 * i + (7 - b) < m" using 3 m by linarith
    ultimately show ?thesis by simp
  next
    case 4
    then have "bit_mask n m ! i = 0" using assms(1) by (auto simp: bm nth_append)
    moreover have "\<not> 8 * i + (7 - b) < m" using 4 m by linarith
    ultimately show ?thesis by simp
  qed
qed

lemma cmp_ip_addr_bits:
  assumes "0 < n"
  shows "cmp_ip_addr h a (bit_mask n m) n \<longleftrightarrow>
    \<not> (\<forall>i<n. \<forall>b<8. 8 * i + (7 - b) < m \<longrightarrow> bit (h ! i) b = bit (a ! i) b)"
proof -
  have z: "(w :: 8 word) = 0 \<longleftrightarrow> (\<forall>b<8. \<not> bit w b)" for w
    by (auto simp: bit_eq_iff bit_simps dest: bit_imp_le_length)
  have "(bit_mask n m ! i AND (a ! i XOR h ! i) AND 0xFF = 0) \<longleftrightarrow>
      (\<forall>b<8. 8 * i + (7 - b) < m \<longrightarrow> bit (h ! i) b = bit (a ! i) b)" if "i < n" for i
    unfolding byte_and_FF z using that by (auto simp: bit_and_iff bit_xor_iff bit_bit_mask)
  then show ?thesis
    using assms by (auto simp: cmp_ip_addr_def)
qed

subsection \<open>Plain entries of a list\<close>

definition plain_entry :: "cstr \<Rightarrow> bool" where
  "plain_entry e \<longleftrightarrow> take 1 e \<noteq> ''!'' \<and> take 1 e \<noteq> ''@'' \<and> take 2 e \<noteq> ''</''"

lemma match_ip_plain:
  "plain_entry e \<Longrightarrow> match_ip_loop env fuel h name ivt (e # l) =
     (case match_name_or_addr env h e of
        None \<Rightarrow> None
      | Some res \<Rightarrow> if (if ivt then \<not> res else res) then match_ip_loop env fuel h name ivt l else Some False)"
  by (simp add: plain_entry_def)

lemma match_ip_list:
  "\<forall>e\<in>set l. plain_entry e \<and> match_name_or_addr env h e \<noteq> None \<Longrightarrow>
   match_ip_loop env fuel h name False l =
     Some (\<not> (\<exists>e\<in>set l. match_name_or_addr env h e = Some False))"
  by (induction l) (auto simp: match_ip_plain simp del: match_ip_loop.simps(2))

subsection \<open>Properties\<close>

text \<open>
  An entry \<open>address/m\<close> of an access list gives a mask under which a host address matches
  exactly if its first \<open>m\<close> bits are those of the address.
\<close>

theorem cidr_match:
  assumes "CHR ''/'' \<notin> set t" "inet_pton env AF_INET t = Some a"
    and "strtol bits 0 = (int m, [])" "int m \<le> INT_MAX" "0 < n"
  shows "\<exists>msk. form_addr_and_mask env (t @ CHR ''/'' # bits) n AF_INET = Some (a, msk)
    \<and> (\<forall>h. \<not> cmp_ip_addr h a msk n \<longleftrightarrow>
         (\<forall>i<n. \<forall>b<8. 8 * i + (7 - b) < m \<longrightarrow> bit (h ! i) b = bit (a ! i) b))"
proof (intro exI [of _ "bit_mask n m"] conjI allI)
  have "strchr (t @ CHR ''/'' # bits) CHR ''/'' = Some (CHR ''/'' # bits)"
    using assms(1) by (induction t) auto
  moreover have "to_int (int m) = int m"
    using assms(4) by (intro to_int_id) (simp_all add: INT_MIN_def)
  ultimately show "form_addr_and_mask env (t @ CHR ''/'' # bits) n AF_INET = Some (a, bit_mask n m)"
    using assms(2,3) by (simp add: form_addr_and_mask_def)
  show "\<not> cmp_ip_addr h a (bit_mask n m) n \<longleftrightarrow>
      (\<forall>i<n. \<forall>b<8. 8 * i + (7 - b) < m \<longrightarrow> bit (h ! i) b = bit (a ! i) b)" for h
    unfolding cmp_ip_addr_bits [OF assms(5)] by (rule not_not)
qed

definition demo_env :: net_env where
  "demo_env = \<lparr>innetgr_host = (\<lambda>_ _. False), innetgr_user = (\<lambda>_ _. False),
     inet_pton = (\<lambda>_ s. if s = ''10.1.0.0'' then Some [10, 1, 0, 0] else None),
     file_image = (\<lambda>_. None)\<rparr>"

definition demo_host :: host_information where
  "demo_host = \<lparr>shorthost = ''h1'', fqdn = Some ''h1.dom'', host_names = [''H1.dom''],
     h_addrtype = AF_INET, h_length = 4, h_addr_list = [[10, 1, 7, 9]]\<rparr>"

lemma cidr_match_witness:
  "\<exists>msk. form_addr_and_mask demo_env ''10.1.0.0/16'' 4 AF_INET = Some ([10, 1, 0, 0], msk)
    \<and> \<not> cmp_ip_addr [10, 1, 7, 9] [10, 1, 0, 0] msk 4"
proof -
  have "CHR ''/'' \<notin> set ''10.1.0.0''" "inet_pton demo_env AF_INET ''10.1.0.0'' = Some [10, 1, 0, 0]"
    "strtol ''16'' 0 = (int 16, [])" "int 16 \<le> INT_MAX" "0 < (4::nat)"
    by (simp_all add: demo_env_def INT_MAX_def) code_simp
  from cidr_match [OF this] obtain msk where
    msk: "form_addr_and_mask demo_env (''10.1.0.0'' @ CHR ''/'' # ''16'') 4 AF_INET = Some ([10, 1, 0, 0], msk)"
    "\<forall>h. \<not> cmp_ip_addr h [10, 1, 0, 0] msk 4 \<longleftrightarrow>
       (\<forall>i<4. \<forall>b<8. 8 * i + (7 - b) < 16 \<longrightarrow> bit (h ! i) b = bit (([10, 1, 0, 0] :: 8 word list) ! i) b)"
    by blast
  have "bit (([10, 1, 7, 9] :: 8 word list) ! i) b = bit (([10, 1, 0, 0] :: 8 word list) ! i) b"
    if "i < 4" "8 * i + (7 - b) < 16" for i b :: nat
  proof -
    have "i = 0 \<or> i = 1" using that by linarith
    then show ?thesis by auto
  qed
  with msk(2) have "\<not> cmp_ip_addr [10, 1, 7, 9] [10, 1, 0, 0] msk 4" by blast
  with msk(1) show ?thesis by (auto simp: append_Cons)
qed

text \<open>
  A host matches a list of plain patterns and addresses exactly if it matches one of the
  entries, whatever their order, as long as no glob pattern runs off the end of a name.
\<close>

theorem Match_ipaddr_any:
  assumes "\<forall>e\<in>set l. plain_entry e \<and> match_name_or_addr env h e \<noteq> None" "fqdn h = Some name"
  shows "Match_ipaddr_value env fuel l (Some h) =
    Some (\<not> (\<exists>e\<in>set l. match_name_or_addr env h e = Some False))"
  using match_ip_list [OF assms(1)] assms(2) by (simp add: Match_ipaddr_value_def)

lemma Match_ipaddr_any_witness:
  "Match_ipaddr_value demo_env 0 [''x.dom'', ''*.dom''] (Some demo_host) = Some False"
proof -
  have e: "match_name_or_addr demo_env demo_host ''x.dom'' = Some True"
    "match_name_or_addr demo_env demo_host ''*.dom'' = Some False"
    by code_simp+
  then have "\<forall>e\<in>set [''x.dom'', ''*.dom'']. plain_entry e \<and> match_name_or_addr demo_env demo_host e \<noteq> None"
    by (simp add: plain_entry_def del: not_None_eq)
  moreover have "fqdn demo_host = Some ''h1.dom''" by (simp add: demo_host_def)
  ultimately show ?thesis
    using Match_ipaddr_any [of "[''x.dom'', ''*.dom'']" demo_env demo_host] e by simp
qed

text \<open>
  The inversion by \<open>!\<close> is not reset: a host that the entry \<open>!p\<close> excludes, and that does not
  match the entry \<open>q\<close> after it, is reported as a match of the list.
\<close>

theorem Match_ipaddr_invert_sticks:
  assumes "plain_entry p" "plain_entry q" "fqdn h = Some name"
    and "match_name_or_addr env h p = Some False" "match_name_or_addr env h q = Some True"
  shows "Match_ipaddr_value env fuel [CHR ''!'' # p, q] (Some h) = Some False"
  using assms by (simp add: Match_ipaddr_value_def plain_entry_def)

lemma Match_ipaddr_invert_sticks_witness:
  "Match_ipaddr_value demo_env 0 [''!*.dom'', ''x.org''] (Some demo_host) = Some False"
proof -
  have "plain_entry ''*.dom''" "plain_entry ''x.org''" "fqdn demo_host = Some ''h1.dom''"
    by (simp_all add: plain_entry_def demo_host_def)
  moreover have "match_name_or_addr demo_env demo_host ''*.dom'' = Some False"
    "match_name_or_addr demo_env demo_host ''x.org'' = Some True"
    by code_simp+
  ultimately show ?thesis
    using Match_ipaddr_invert_sticks [of "''*.dom''" "''x.org''"] by blast
qed

end
