(* ===== verification/Permission.thy ===== *)
theory Permission
  imports HostMatch Config JobKeys
begin

section \<open>The permission checks (permission.c)\<close>

text \<open>
  The permission file is a list of lines; each line is a list of tests, and the first line all of
  whose tests succeed decides. \<open>perm_test\<close> is the test of one keyword (the \<open>switch\<close> of
  \<open>Perms_check\<close>), \<open>perm_values\<close> the loop over the tests of a line with the state of the inversion
  by \<open>NOT\<close>, and \<open>Perms_check\<close> the loop over the lines.
  What the C library answers about users and groups and the addresses of the local host are in the
  record \<open>perm_env\<close>, with the network and files of \<open>net_env\<close>. As in the code a result that is
  True (not 0) is a test that failed; \<open>None\<close> is a nesting of files deeper than \<open>fuel\<close> or a glob
  pattern that runs off the end of a string.
  The lemmas give the meaning of a permission file as a list of rules (\<open>decide\<close>).
\<close>

record perm_check =
  user :: "cstr option"
  remoteuser :: "cstr option"
  host :: "host_information option"
  remotehost :: "host_information option"
  port :: int
  printer :: "cstr option"
  unix_socket :: bool
  service :: char
  lpc :: "cstr option"
  authtype :: "cstr option"
  authfrom :: "cstr option"
  authuser :: "cstr option"
  authca :: "cstr option"

record perm_env =
  net :: net_env
  pw_gid :: "cstr \<Rightarrow> int option"
  getgrnam :: "cstr \<Rightarrow> (int \<times> cstr list) option"
  all_groups :: "(cstr \<times> int \<times> cstr list) list"
  Host_IP :: host_information
  Localhost_IP :: host_information
  Default_permission :: "cstr option"

subsection \<open>Matching lists of values\<close>

fun match_loop :: "net_env \<Rightarrow> nat \<Rightarrow> line_list \<Rightarrow> cstr \<Rightarrow> bool option" where
  "match_loop env fuel [] str = Some True"
| "match_loop env fuel (s # l) str =
     (let r = (if take 1 s = ''@'' then Some (\<not> innetgr_host env (tl s) str)
               else if take 2 s = ''</''
               then (case fuel of 0 \<Rightarrow> None | Suc n \<Rightarrow> match_loop env n (file_words env (tl s)) str)
               else map_option (\<lambda>r. r \<noteq> 0) (Globmatch (Some s) (Some str)))
      in case r of
           None \<Rightarrow> None
         | Some res \<Rightarrow> if res then match_loop env fuel l str else Some False)"

definition invert_if :: "int \<Rightarrow> bool option \<Rightarrow> bool option" where
  "invert_if invert r = map_option (\<lambda>b. if invert \<noteq> 0 then \<not> b else b) r"

definition match :: "net_env \<Rightarrow> nat \<Rightarrow> line_list \<Rightarrow> cstr option \<Rightarrow> int \<Rightarrow> bool option" where
  "match env fuel l str invert =
     invert_if invert (case str of None \<Rightarrow> Some True | Some t \<Rightarrow> match_loop env fuel l t)"

definition match_host ::
  "net_env \<Rightarrow> nat \<Rightarrow> line_list \<Rightarrow> host_information option \<Rightarrow> int \<Rightarrow> bool option" where
  "match_host env fuel l h invert = invert_if invert (Match_ipaddr_value env fuel l h)"

text \<open>A bad number is logged and counts with the value \<open>strtol\<close> gives.\<close>

definition portmatch :: "cstr \<Rightarrow> int \<Rightarrow> bool" where
  "portmatch val p =
     (let dash = strchr val CHR ''-'';
          low = to_int (fst (strtol (case dash of None \<Rightarrow> val
                                     | Some t \<Rightarrow> take (length val - length t) val) 10));
          high = (case dash of None \<Rightarrow> low | Some t \<Rightarrow> to_int (fst (strtol (tl t) 10)));
          lo = (if high < low then high else low);
          hi = (if high < low then low else high)
      in \<not> (lo \<le> p \<and> p \<le> hi))"

definition match_range :: "line_list \<Rightarrow> int \<Rightarrow> int \<Rightarrow> bool option" where
  "match_range l p invert = invert_if invert (Some (list_all (\<lambda>s. portmatch s p) l))"

definition match_char :: "line_list \<Rightarrow> char \<Rightarrow> int \<Rightarrow> bool option" where
  "match_char l value invert =
     invert_if invert
       (Some (list_all (\<lambda>s. strchr s value = None \<and> strchr s CHR ''*'' = None) l))"

definition in_members :: "cstr \<Rightarrow> cstr list \<Rightarrow> bool" where
  "in_members usr members = list_ex (\<lambda>m. safestrcmp (Some usr) (Some m) = 0) members"

text \<open>The scan of all groups for a pattern; a group decides only when the user is in it.\<close>

fun scan_groups :: "int option \<Rightarrow> cstr \<Rightarrow> cstr \<Rightarrow> (cstr \<times> int \<times> cstr list) list \<Rightarrow> bool option" where
  "scan_groups gid grp usr [] = Some True"
| "scan_groups gid grp usr ((name, g, members) # gs) =
     (case Globmatch (Some grp) (Some name) of
        None \<Rightarrow> None
      | Some r \<Rightarrow>
          if r = 0 \<and> (gid = Some g \<or> in_members usr members) then Some False
          else scan_groups gid grp usr gs)"

text \<open>\<open>group_loop\<close> is the loop of \<open>match_group\<close> with the body of \<open>ingroup\<close>.\<close>

fun group_loop :: "perm_env \<Rightarrow> nat \<Rightarrow> line_list \<Rightarrow> cstr \<Rightarrow> bool option" where
  "group_loop env fuel [] usr = Some True"
| "group_loop env fuel (g # l) usr =
     (let r = (if take 1 g = ''@'' then Some (\<not> innetgr_user (net env) (tl g) usr)
               else if take 2 g = ''</''
               then (case fuel of 0 \<Rightarrow> None
                     | Suc n \<Rightarrow> group_loop env n (file_words (net env) (tl g)) usr)
               else (case getgrnam env g of
                       Some (gid, members) \<Rightarrow>
                         Some (\<not> (pw_gid env usr = Some gid \<or> in_members usr members))
                     | None \<Rightarrow>
                         if strpbrk g ''*[]'' \<noteq> None
                         then scan_groups (pw_gid env usr) g usr (all_groups env)
                         else Some True))
      in case r of
           None \<Rightarrow> None
         | Some res \<Rightarrow> if res then group_loop env fuel l usr else Some False)"

definition match_group :: "perm_env \<Rightarrow> nat \<Rightarrow> line_list \<Rightarrow> cstr option \<Rightarrow> int \<Rightarrow> bool option" where
  "match_group env fuel l str invert =
     invert_if invert (case str of None \<Rightarrow> Some True | Some u \<Rightarrow> group_loop env fuel l u)"

subsection \<open>One test\<close>

text \<open>
  The job of a check can be a null pointer, from which no value can be read: the server would die.
  The loop of \<open>P_CONTROLLINE\<close>: a pattern whose line is not in the job does not decide.
\<close>

definition job_value :: "line_list option \<Rightarrow> cstr \<Rightarrow> cstr option option" where
  "job_value job key = map_option (\<lambda>i. Find_str_value i key) job"

fun control_line_loop :: "line_list option \<Rightarrow> line_list \<Rightarrow> bool option" where
  "control_line_loop job [] = Some True"
| "control_line_loop job (t # l) =
     (case t of
        [] \<Rightarrow> control_line_loop job l
      | c # pat \<Rightarrow>
          (case (if isupper c then job_value job [c] else Some None) of
             None \<Rightarrow> None
           | Some None \<Rightarrow> control_line_loop job l
           | Some (Some s) \<Rightarrow>
               (case Globmatch (Some pat) (Some s) of
                  None \<Rightarrow> None
                | Some r \<Rightarrow> if r \<noteq> 0 then control_line_loop job l else Some False)))"

definition same_host_test :: "perm_env \<Rightarrow> perm_check \<Rightarrow> bool" where
  "same_host_test env chk =
     (let m = Same_host (host chk) (remotehost chk);
          r = (Same_host (remotehost chk) (Some (Host_IP env))
               \<and> Same_host (remotehost chk) (Some (Localhost_IP env)));
          h = (Same_host (host chk) (Some (Host_IP env))
               \<and> Same_host (host chk) (Some (Localhost_IP env)))
      in if m \<and> \<not> h \<and> \<not> r then False else m)"

text \<open>
  \<open>not_X\<close>: the tests that fail when the service is \<open>X\<close> (a new connection) and otherwise compare;
  \<open>job_only\<close>: the tests that succeed when there is no job to check. A key without a case does
  nothing, so its test succeeds.
\<close>

definition not_X :: "perm_check \<Rightarrow> bool option \<Rightarrow> bool option" where
  "not_X chk r = (if service chk = CHR ''X'' then Some True else r)"

definition job_only :: "bool \<Rightarrow> bool option \<Rightarrow> bool option" where
  "job_only job_check r = (if job_check then r else Some False)"

definition in_QMC :: "perm_check \<Rightarrow> bool" where
  "in_QMC chk \<longleftrightarrow> service chk = CHR ''Q'' \<or> service chk = CHR ''M'' \<or> service chk = CHR ''C''"

definition perm_test ::
  "perm_env \<Rightarrow> nat \<Rightarrow> perm_check \<Rightarrow> line_list option \<Rightarrow> bool \<Rightarrow> int \<Rightarrow> line_list \<Rightarrow> int \<Rightarrow> bool option" where
  "perm_test env fuel chk job job_check key args invert =
     (if key = P_USER then job_only job_check (not_X chk (match (net env) fuel args (user chk) invert))
      else if key = P_LPC then
        (if service chk = CHR ''C'' then match (net env) fuel args (lpc chk) invert else Some True)
      else if key = P_IP \<or> key = P_HOST then
        job_only job_check (not_X chk (match_host (net env) fuel args (host chk) invert))
      else if key = P_GROUP then
        job_only job_check (not_X chk (match_group env fuel args (user chk) invert))
      else if key = P_REMOTEPORT \<or> key = P_PORT then
        (if service chk = CHR ''X'' \<or> service chk = CHR ''M'' \<or> service chk = CHR ''C''
         then match_range args (port chk) invert else Some True)
      else if key = P_REMOTEUSER then not_X chk (match (net env) fuel args (remoteuser chk) invert)
      else if key = P_REMOTEGROUP then not_X chk (match_group env fuel args (remoteuser chk) invert)
      else if key = P_IFIP \<or> key = P_REMOTEHOST \<or> key = P_REMOTEIP then
        match_host (net env) fuel args (remotehost chk) invert
      else if key = P_AUTH then not_X chk (invert_if invert (Some (authuser chk = None)))
      else if key = P_AUTHTYPE then not_X chk (match (net env) fuel args (authtype chk) invert)
      else if key = P_AUTHFROM then not_X chk (match (net env) fuel args (authfrom chk) invert)
      else if key = P_AUTHCA then not_X chk (match (net env) fuel args (authca chk) invert)
      else if key = P_AUTHUSER then not_X chk (match (net env) fuel args (authuser chk) invert)
      else if key = P_CONTROLLINE then
        invert_if invert (job_only job_check (control_line_loop job args))
      else if key = P_PRINTER then not_X chk (match (net env) fuel args (printer chk) invert)
      else if key = P_SERVICE then match_char args (service chk) invert
      else if key = P_FORWARD then
        map_option Not (job_only job_check (invert_if invert (Some (same_host_test env chk))))
      else if key = P_SAMEHOST then
        job_only job_check (invert_if invert (Some (same_host_test env chk)))
      else if key = P_SAMEUSER then
        job_only job_check
          (if in_QMC chk
           then invert_if invert (Some (safestrcmp (user chk) (remoteuser chk) \<noteq> 0)) else Some True)
      else if key = P_AUTHSAMEUSER then
        job_only job_check
          (if in_QMC chk
           then invert_if invert
                  (map_option (\<lambda>t. safestrcmp (authuser chk) t \<noteq> 0) (job_value job AUTHUSER))
           else Some True)
      else if key = P_AUTHJOB then
        (if in_QMC chk then invert_if invert (map_option (\<lambda>t. t = None) (job_value job AUTHUSER))
         else Some True)
      else if key = P_SERVER then
        invert_if invert (Some (Same_host (remotehost chk) (Some (Host_IP env))
                                \<and> Same_host (remotehost chk) (Some (Localhost_IP env))))
      else if key = P_UNIXSOCKET then invert_if invert (Some (\<not> unix_socket chk))
      else Some False)"

subsection \<open>Lines\<close>

definition split_perm :: "cstr \<Rightarrow> line_list" where
  "split_perm s = Split [] s Perm_sep False None False NUL False None"

text \<open>
  The loop over the tests of a line: \<open>invert\<close> is 1 after \<open>NOT\<close>, -1 at the test after it, 0
  otherwise. The result is the failure \<open>m\<close>, the decision and the default permission.
\<close>

fun perm_values ::
  "perm_env \<Rightarrow> nat \<Rightarrow> perm_check \<Rightarrow> line_list option \<Rightarrow> bool \<Rightarrow> line_list \<Rightarrow> line_list \<Rightarrow>
     int \<Rightarrow> int \<Rightarrow> int \<Rightarrow> (bool \<times> int \<times> int) option" where
  "perm_values env fuel chk job job_check values [] invert result ldp = Some (False, result, ldp)"
| "perm_values env fuel chk job job_check values (v # vs) invert result ldp =
     (case split_perm v of
        [] \<Rightarrow> perm_values env fuel chk job job_check values vs invert result ldp
      | w # args \<Rightarrow>
          (let inv' = (if 0 < invert then -1 else 0);
               key = perm_val (Some w)
           in if key = 0 then Some (True, result, ldp)
              else if key = P_NOT then perm_values env fuel chk job job_check values vs 1 result ldp
              else if key = P_REJECT then
                perm_values env fuel chk job job_check values vs inv' P_REJECT ldp
              else if key = P_ACCEPT then
                perm_values env fuel chk job job_check values vs inv' P_ACCEPT ldp
              else if key = P_DEFAULT then
                Some (True, result,
                  (if length values = 2
                      \<and> (perm_val (Some (values ! 1)) = P_REJECT \<or> perm_val (Some (values ! 1)) = P_ACCEPT)
                   then perm_val (Some (values ! 1)) else ldp))
              else
                (case perm_test env fuel chk job job_check key args inv' of
                   None \<Rightarrow> None
                 | Some True \<Rightarrow> Some (True, result, ldp)
                 | Some False \<Rightarrow> perm_values env fuel chk job job_check values vs inv' result ldp)))"

definition split_white :: "cstr \<Rightarrow> line_list" where
  "split_white s = Split [] s Whitespace False None False NUL False None"

fun perm_lines ::
  "perm_env \<Rightarrow> nat \<Rightarrow> perm_check \<Rightarrow> line_list option \<Rightarrow> bool \<Rightarrow> line_list \<Rightarrow> int \<Rightarrow> int option" where
  "perm_lines env fuel chk job job_check [] ldp = Some ldp"
| "perm_lines env fuel chk job job_check (line # ls) ldp =
     (let values = split_white line in
      if values = [] then perm_lines env fuel chk job job_check ls ldp
      else
        (case perm_values env fuel chk job job_check values values 0 0 ldp of
           None \<Rightarrow> None
         | Some (m, result, ldp') \<Rightarrow>
             (let res = (if m then 0 else if result = 0 then ldp' else result)
              in if res = 0 then perm_lines env fuel chk job job_check ls ldp' else Some res)))"

definition Perms_check ::
  "perm_env \<Rightarrow> nat \<Rightarrow> line_list option \<Rightarrow> perm_check option \<Rightarrow> line_list option \<Rightarrow> bool \<Rightarrow> int option" where
  "Perms_check env fuel perms chk job job_check =
     (let ldp = perm_val (Default_permission env) in
      case (chk, perms) of
        (Some c, Some ls) \<Rightarrow> perm_lines env fuel c job job_check ls ldp
      | _ \<Rightarrow> Some ldp)"

definition Perm_check_to_list :: "line_list \<Rightarrow> perm_check \<Rightarrow> line_list" where
  "Perm_check_to_list l0 chk =
     (let l1 = Set_str_value l0 USER (user chk);
          l2 = Set_str_value l1 REMOTEUSER (remoteuser chk);
          l3 = Set_str_value l2 PRINTER (printer chk);
          l4 = Set_str_value l3 SERVICE
                 (Some (plp_snprintf SMALLBUFFER ''%c'' [AInt (ccode (service chk))]));
          l5 = Set_str_value l4 LPC (lpc chk);
          l6 = (case host chk of None \<Rightarrow> l5 | Some h \<Rightarrow> Set_str_value l5 HOST (fqdn h));
          l7 = (case remotehost chk of None \<Rightarrow> l6 | Some h \<Rightarrow> Set_str_value l6 HOST (fqdn h));
          l8 = Set_decimal_value l7 PORT (port chk);
          l9 = Set_str_value l8 AUTHTYPE (authtype chk);
          l10 = Set_str_value l9 AUTHFROM (authfrom chk);
          l11 = Set_str_value l10 AUTHUSER (authuser chk)
      in Set_str_value l11 AUTHCA (authca chk))"

subsection \<open>The meaning of a permission file\<close>

text \<open>
  A line as the list of its tests: whether \<open>NOT\<close> stands right before it, the keyword and its
  arguments.
\<close>

type_synonym perm_item = "bool \<times> int \<times> line_list"

fun parse_tests :: "bool \<Rightarrow> line_list \<Rightarrow> perm_item list" where
  "parse_tests neg [] = []"
| "parse_tests neg (v # vs) =
     (case split_perm v of
        [] \<Rightarrow> parse_tests neg vs
      | w # args \<Rightarrow>
          if perm_val (Some w) = P_NOT then parse_tests True vs
          else (neg, perm_val (Some w), args) # parse_tests False vs)"

definition line_tests :: "cstr \<Rightarrow> perm_item list" where
  "line_tests line = parse_tests False (split_white line)"

definition is_verdict :: "int \<Rightarrow> bool" where
  "is_verdict key \<longleftrightarrow> key = P_ACCEPT \<or> key = P_REJECT"

definition item_result ::
  "perm_env \<Rightarrow> nat \<Rightarrow> perm_check \<Rightarrow> line_list option \<Rightarrow> bool \<Rightarrow> perm_item \<Rightarrow> bool option" where
  "item_result env fuel chk job job_check it =
     (case it of (neg, key, args) \<Rightarrow>
        perm_test env fuel chk job job_check key args (if neg then -1 else 0))"

definition passes ::
  "perm_env \<Rightarrow> nat \<Rightarrow> perm_check \<Rightarrow> line_list option \<Rightarrow> bool \<Rightarrow> perm_item list \<Rightarrow> bool" where
  "passes env fuel chk job job_check ts \<longleftrightarrow>
     (\<forall>it\<in>set ts. fst (snd it) \<noteq> 0 \<and> fst (snd it) \<noteq> P_DEFAULT \<and>
        (is_verdict (fst (snd it)) \<or> item_result env fuel chk job job_check it = Some False))"

definition fails ::
  "perm_env \<Rightarrow> nat \<Rightarrow> perm_check \<Rightarrow> line_list option \<Rightarrow> bool \<Rightarrow> perm_item list \<Rightarrow> bool" where
  "fails env fuel chk job job_check ts \<longleftrightarrow>
     (\<exists>ts1 it ts2. ts = ts1 @ it # ts2 \<and> passes env fuel chk job job_check ts1 \<and>
        (fst (snd it) = 0 \<or>
         (fst (snd it) \<noteq> P_DEFAULT \<and> \<not> is_verdict (fst (snd it)) \<and>
          item_result env fuel chk job job_check it = Some True)))"

definition verdict :: "int \<Rightarrow> perm_item list \<Rightarrow> int" where
  "verdict r ts = foldl (\<lambda>r it. if is_verdict (fst (snd it)) then fst (snd it) else r) r ts"

lemma perm_key_distinct:
  "P_NOT \<noteq> 0" "P_ACCEPT \<noteq> 0" "P_REJECT \<noteq> 0" "P_NOT \<noteq> P_ACCEPT" "P_NOT \<noteq> P_REJECT"
  "P_ACCEPT \<noteq> P_REJECT" "P_DEFAULT \<noteq> P_ACCEPT" "P_DEFAULT \<noteq> P_REJECT" "P_DEFAULT \<noteq> 0"
  "P_DEFAULT \<noteq> P_NOT"
  by (simp_all add: P_NOT_def P_ACCEPT_def P_REJECT_def P_DEFAULT_def)

lemma not_verdict: "\<not> is_verdict P_DEFAULT" "\<not> is_verdict 0"
  using perm_key_distinct by (auto simp: is_verdict_def)

lemma perm_values_Cons:
  assumes "split_perm v = w # args" "key = perm_val (Some w)" "key \<noteq> P_NOT"
  shows "perm_values env fuel chk job jc vals (v # vs) ivt ldp0 ldp =
    (let inv' = (if 0 < ivt then -1 else 0)
     in if key = 0 then Some (True, ldp0, ldp)
        else if is_verdict key then perm_values env fuel chk job jc vals vs inv' key ldp
        else if key = P_DEFAULT then
          Some (True, ldp0,
            (if length vals = 2 \<and> is_verdict (perm_val (Some (vals ! 1)))
             then perm_val (Some (vals ! 1)) else ldp))
        else
          (case item_result env fuel chk job jc (0 < ivt, key, args) of
             None \<Rightarrow> None
           | Some True \<Rightarrow> Some (True, ldp0, ldp)
           | Some False \<Rightarrow> perm_values env fuel chk job jc vals vs inv' ldp0 ldp))"
  using assms perm_key_distinct
  by (auto simp: Let_def is_verdict_def item_result_def)

lemma perm_values_NOT:
  "split_perm v = w # args \<Longrightarrow> perm_val (Some w) = P_NOT \<Longrightarrow>
   perm_values env fuel chk job jc vals (v # vs) ivt r ldp = perm_values env fuel chk job jc vals vs 1 r ldp"
  using perm_key_distinct by (simp add: Let_def)

lemma perm_values_passes:
  "passes env fuel chk job jc (parse_tests (0 < ivt) vs) \<Longrightarrow>
   perm_values env fuel chk job jc vals vs ivt r ldp =
     Some (False, verdict r (parse_tests (0 < ivt) vs), ldp)"
proof (induction vs arbitrary: ivt r)
  case Nil
  then show ?case by (simp add: verdict_def)
next
  case (Cons v vs)
  show ?case
  proof (cases "split_perm v")
    case Nil
    with Cons show ?thesis by simp
  next
    case (Cons w args)
    define key where "key = perm_val (Some w)"
    show ?thesis
    proof (cases "key = P_NOT")
      case True
      have pt: "parse_tests (0 < ivt) (v # vs) = parse_tests True vs"
        using Cons True by (simp add: key_def)
      show ?thesis
        using Cons.IH [of 1] Cons.prems True
        unfolding pt perm_values_NOT [OF Cons True [unfolded key_def]] by simp
    next
      case False
      have pt: "parse_tests (0 < ivt) (v # vs) = (0 < ivt, key, args) # parse_tests False vs"
        using Cons False by (simp add: key_def)
      have ps: "passes env fuel chk job jc (parse_tests False vs)" "key \<noteq> 0" "key \<noteq> P_DEFAULT"
        "is_verdict key \<or> item_result env fuel chk job jc (0 < ivt, key, args) = Some False"
        using Cons.prems unfolding pt by (auto simp: passes_def)
      have nv: "\<not> 0 < (if 0 < ivt then -1 else 0 :: int)" by simp
      show ?thesis
        using perm_values_Cons [OF Cons key_def False, of env fuel chk job jc vals vs ivt r ldp]
          Cons.IH [of "if 0 < ivt then -1 else 0"] ps
        unfolding pt by (auto simp: verdict_def Let_def nv)
    qed
  qed
qed

lemma perm_values_fails:
  "fails env fuel chk job jc (parse_tests (0 < ivt) vs) \<Longrightarrow>
   \<exists>r'. perm_values env fuel chk job jc vals vs ivt r ldp = Some (True, r', ldp)"
proof (induction vs arbitrary: ivt r)
  case Nil
  then show ?case by (simp add: fails_def)
next
  case (Cons v vs)
  show ?case
  proof (cases "split_perm v")
    case Nil
    with Cons show ?thesis by simp
  next
    case (Cons w args)
    define key where "key = perm_val (Some w)"
    show ?thesis
    proof (cases "key = P_NOT")
      case True
      have pt: "parse_tests (0 < ivt) (v # vs) = parse_tests True vs"
        using Cons True by (simp add: key_def)
      show ?thesis
        using Cons.IH [of 1] Cons.prems True
        unfolding pt perm_values_NOT [OF Cons True [unfolded key_def]] by simp
    next
      case False
      have pt: "parse_tests (0 < ivt) (v # vs) = (0 < ivt, key, args) # parse_tests False vs"
        using Cons False by (simp add: key_def)
      from Cons.prems obtain ts1 it ts2 where
        ts: "(0 < ivt, key, args) # parse_tests False vs = ts1 @ it # ts2"
        "passes env fuel chk job jc ts1"
        "fst (snd it) = 0 \<or> (fst (snd it) \<noteq> P_DEFAULT \<and> \<not> is_verdict (fst (snd it)) \<and>
          item_result env fuel chk job jc it = Some True)"
        unfolding pt fails_def by blast
      note eq = perm_values_Cons [OF Cons key_def False, of env fuel chk job jc vals vs ivt r ldp]
      show ?thesis
      proof (cases ts1)
        case Nil
        with ts perm_key_distinct show ?thesis unfolding eq by (auto simp: is_verdict_def Let_def)
      next
        case (Cons t ts1')
        then have t: "parse_tests False vs = ts1' @ it # ts2" "passes env fuel chk job jc ts1'"
          and ps: "key \<noteq> 0" "key \<noteq> P_DEFAULT"
            "is_verdict key \<or> item_result env fuel chk job jc (0 < ivt, key, args) = Some False"
          using ts by (auto simp: passes_def)
        have f: "fails env fuel chk job jc (parse_tests False vs)"
          unfolding fails_def using t ts(3) by blast
        have nv: "\<not> 0 < (if 0 < ivt then -1 else 0 :: int)" by simp
        show ?thesis
          using Cons.IH [of "if 0 < ivt then -1 else 0"] f ps
          unfolding eq by (auto simp: Let_def nv)
      qed
    qed
  qed
qed

text \<open>When the loop ends without a failure, every test has passed.\<close>

lemma perm_values_success:
  "perm_values env fuel chk job jc vals vs ivt r ldp = Some (False, r', ldp') \<Longrightarrow>
   passes env fuel chk job jc (parse_tests (0 < ivt) vs) \<and>
   r' = verdict r (parse_tests (0 < ivt) vs) \<and> ldp' = ldp"
proof (induction vs arbitrary: ivt r)
  case Nil
  then show ?case by (simp add: passes_def verdict_def)
next
  case (Cons v vs)
  show ?case
  proof (cases "split_perm v")
    case Nil
    with Cons show ?thesis by simp
  next
    case (Cons w args)
    define key where "key = perm_val (Some w)"
    show ?thesis
    proof (cases "key = P_NOT")
      case True
      have pt: "parse_tests (0 < ivt) (v # vs) = parse_tests True vs"
        using Cons True by (simp add: key_def)
      show ?thesis
        using Cons.IH [of 1] Cons.prems True
        unfolding pt perm_values_NOT [OF Cons True [unfolded key_def]] by simp
    next
      case False
      have pt: "parse_tests (0 < ivt) (v # vs) = (0 < ivt, key, args) # parse_tests False vs"
        using Cons False by (simp add: key_def)
      have nv: "(0 < (if 0 < ivt then -1 else 0 :: int)) = False" by simp
      note eq = perm_values_Cons [OF Cons key_def False, of env fuel chk job jc vals vs ivt r ldp]
      show ?thesis
        using Cons.prems Cons.IH [of "if 0 < ivt then -1 else 0"]
        unfolding eq pt nv
        by (auto simp: Let_def passes_def verdict_def not_verdict
            split: if_splits option.splits bool.splits)
    qed
  qed
qed


lemma verdict_cases: "verdict r ts = r \<or> is_verdict (verdict r ts)"
  unfolding verdict_def by (induction ts rule: rev_induct) auto

lemma verdict_in: "verdict 0 ts = v \<Longrightarrow> is_verdict v \<Longrightarrow> \<exists>it\<in>set ts. fst (snd it) = v"
proof (induction ts rule: rev_induct)
  case Nil
  then show ?case using not_verdict by (simp add: verdict_def)
next
  case (snoc t ts)
  then show ?case by (auto simp: verdict_def split: if_splits)
qed

text \<open>Lines that decide nothing are skipped.\<close>

definition line_skipped ::
  "perm_env \<Rightarrow> nat \<Rightarrow> perm_check \<Rightarrow> line_list option \<Rightarrow> bool \<Rightarrow> cstr \<Rightarrow> bool" where
  "line_skipped env fuel chk job job_check line \<longleftrightarrow>
     split_white line = [] \<or> fails env fuel chk job job_check (line_tests line)"

lemma perm_lines_skip:
  "\<forall>l\<in>set pre. line_skipped env fuel chk job jc l \<Longrightarrow>
   perm_lines env fuel chk job jc (pre @ ls) ldp = perm_lines env fuel chk job jc ls ldp"
proof (induction pre)
  case (Cons l pre)
  show ?case
  proof (cases "split_white l = []")
    case True
    with Cons show ?thesis by simp
  next
    case False
    with Cons.prems have "fails env fuel chk job jc (parse_tests (0 < (0::int)) (split_white l))"
      by (simp add: line_skipped_def line_tests_def)
    from perm_values_fails [OF this] obtain r' where
      "perm_values env fuel chk job jc (split_white l) (split_white l) 0 0 ldp = Some (True, r', ldp)"
      by blast
    with Cons False show ?thesis by simp
  qed
qed simp

definition no_default_line :: "cstr \<Rightarrow> bool" where
  "no_default_line line \<longleftrightarrow> (\<forall>it\<in>set (line_tests line). fst (snd it) \<noteq> P_DEFAULT)"

lemma perm_values_ldp:
  "\<forall>it\<in>set (parse_tests (0 < ivt) vs). fst (snd it) \<noteq> P_DEFAULT \<Longrightarrow>
   perm_values env fuel chk job jc vals vs ivt r ldp = Some (m, r', ldp') \<Longrightarrow> ldp' = ldp"
proof (induction vs arbitrary: ivt r)
  case (Cons v vs)
  show ?case
  proof (cases "split_perm v")
    case Nil
    with Cons show ?thesis by simp
  next
    case (Cons w args)
    define key where "key = perm_val (Some w)"
    show ?thesis
    proof (cases "key = P_NOT")
      case True
      have pt: "parse_tests (0 < ivt) (v # vs) = parse_tests True vs"
        using Cons True by (simp add: key_def)
      show ?thesis
        using Cons.IH [of 1] Cons.prems True
        unfolding pt perm_values_NOT [OF Cons True [unfolded key_def]] by simp
    next
      case False
      have pt: "parse_tests (0 < ivt) (v # vs) = (0 < ivt, key, args) # parse_tests False vs"
        using Cons False by (simp add: key_def)
      have nv: "(0 < (if 0 < ivt then -1 else 0 :: int)) = False" by simp
      note eq = perm_values_Cons [OF Cons key_def False, of env fuel chk job jc vals vs ivt r ldp]
      show ?thesis
        using Cons.prems Cons.IH [of "if 0 < ivt then -1 else 0"]
        unfolding eq pt nv by (auto simp: Let_def split: if_splits option.splits bool.splits)
    qed
  qed
qed simp

lemma perm_lines_accept:
  "perm_lines env fuel chk job jc ls ldp = Some P_ACCEPT \<Longrightarrow> ldp \<noteq> P_ACCEPT \<Longrightarrow>
   \<forall>l\<in>set ls. no_default_line l \<Longrightarrow>
   \<exists>l\<in>set ls. passes env fuel chk job jc (line_tests l) \<and> verdict 0 (line_tests l) = P_ACCEPT"
proof (induction ls)
  case (Cons l ls)
  show ?case
  proof (cases "split_white l = []")
    case True
    with Cons show ?thesis by auto
  next
    case False
    from Cons.prems(1) False obtain m r' ldp' where
      v: "perm_values env fuel chk job jc (split_white l) (split_white l) 0 0 ldp = Some (m, r', ldp')"
      by (auto simp: Let_def split: option.splits)
    have d: "ldp' = ldp"
      using perm_values_ldp [OF _ v] Cons.prems(3) by (simp add: no_default_line_def line_tests_def)
    define res where "res = (if m then 0 else if r' = 0 then ldp' else r')"
    have pl: "perm_lines env fuel chk job jc (l # ls) ldp =
        (if res = 0 then perm_lines env fuel chk job jc ls ldp' else Some res)"
      using False v by (simp add: Let_def res_def)
    show ?thesis
    proof (cases "res = 0")
      case True
      with Cons pl d show ?thesis by auto
    next
      case False
      with pl Cons.prems(1) have "res = P_ACCEPT" by simp
      with d Cons.prems(2) perm_key_distinct have "\<not> m" "r' = P_ACCEPT"
        by (auto simp: res_def split: if_splits)
      with v perm_values_success [of env fuel chk job jc "split_white l" "split_white l" 0 0 ldp r' ldp']
      show ?thesis by (auto simp: line_tests_def)
    qed
  qed
qed (use perm_key_distinct in auto)

lemma perm_lines_range:
  "perm_lines env fuel chk job jc ls ldp = Some r \<Longrightarrow> is_verdict r \<or> r = ldp"
proof (induction ls arbitrary: ldp)
  case (Cons l ls)
  show ?case
  proof (cases "split_white l = []")
    case True
    with Cons show ?thesis by auto
  next
    case False
    from Cons.prems(1) False obtain m r' ldp' where
      v: "perm_values env fuel chk job jc (split_white l) (split_white l) 0 0 ldp = Some (m, r', ldp')"
      by (auto simp: Let_def split: option.splits)
    have gen: "perm_values env fuel chk job jc vals vs ivt r0 ldp = Some (m, r', ldp') \<Longrightarrow>
        (is_verdict ldp' \<or> ldp' = ldp) \<and> (is_verdict r' \<or> r' = r0)" for vals vs ivt r0
    proof (induction vs arbitrary: ivt r0)
      case (Cons v vs)
      show ?case
      proof (cases "split_perm v")
        case Nil
        with Cons show ?thesis by simp
      next
        case (Cons w args)
        define key where "key = perm_val (Some w)"
        show ?thesis
        proof (cases "key = P_NOT")
          case True
          show ?thesis
            using Cons.IH [of 1 r0] Cons.prems
            unfolding perm_values_NOT [OF Cons True [unfolded key_def]] by simp
        next
          case False
          note eq = perm_values_Cons [OF Cons key_def False, of env fuel chk job jc vals vs ivt r0 ldp]
          show ?thesis
            using Cons.prems Cons.IH [of "if 0 < ivt then -1 else 0"]
            unfolding eq
            by (auto simp: Let_def split: if_splits option.splits bool.splits)
        qed
      qed
    qed simp
    from gen [OF v] Cons v False show ?thesis
      by (auto simp: Let_def split: if_splits)
  qed
qed simp


subsection \<open>Properties\<close>

text \<open>
  C12: the first line of a permission file whose tests all succeed and which says \<open>ACCEPT\<close> or
  \<open>REJECT\<close> decides, with the last of these words on it: the lines before it, each with a test that
  fails or no word at all, and the lines after it have no influence.
\<close>

theorem Perms_first_match:
  assumes "\<forall>l\<in>set pre. line_skipped env fuel chk job jc l"
    and "passes env fuel chk job jc (line_tests line)" "is_verdict (verdict 0 (line_tests line))"
  shows "Perms_check env fuel (Some (pre @ line # post)) (Some chk) job jc =
    Some (verdict 0 (line_tests line))"
proof -
  let ?v = "verdict 0 (line_tests line)"
  have w: "split_white line \<noteq> []"
    using assms(3) not_verdict by (auto simp: line_tests_def verdict_def)
  have "perm_values env fuel chk job jc (split_white line) (split_white line) 0 0 ldp = Some (False, ?v, ldp)"
    for ldp
    using perm_values_passes [of env fuel chk job jc 0 "split_white line"] assms(2)
    by (simp add: line_tests_def)
  moreover have "?v \<noteq> 0" using assms(3) not_verdict by auto
  ultimately have "perm_lines env fuel chk job jc (line # post) ldp = Some ?v" for ldp
    using w by (simp add: Let_def)
  then show ?thesis
    using perm_lines_skip [OF assms(1)] by (simp add: Perms_check_def)
qed

definition demo_perm_env :: perm_env where
  "demo_perm_env = \<lparr>net = demo_env, pw_gid = (\<lambda>_. None), getgrnam = (\<lambda>_. None), all_groups = [],
     Host_IP = demo_host, Localhost_IP = demo_host, Default_permission = Some ''REJECT''\<rparr>"

definition demo_check :: perm_check where
  "demo_check = \<lparr>user = Some ''ann'', remoteuser = Some ''ann'', host = None, remotehost = None,
     port = 721, printer = Some ''lp'', unix_socket = False, service = CHR ''R'', lpc = None,
     authtype = None, authfrom = None, authuser = None, authca = None\<rparr>"

lemma Perms_first_match_witness:
  "Perms_check demo_perm_env 0
     (Some [''ACCEPT SERVICE=M'', ''REJECT SERVICE=R NOT USER=root'', ''ACCEPT''])
     (Some demo_check) (Some []) True = Some P_REJECT"
proof -
  have l1: "line_tests ''ACCEPT SERVICE=M'' = [(False, P_ACCEPT, []), (False, P_SERVICE, [''M''])]"
    and l2: "line_tests ''REJECT SERVICE=R NOT USER=root'' =
      [(False, P_REJECT, []), (False, P_SERVICE, [''R'']), (True, P_USER, [''root''])]"
    by code_simp+
  have "item_result demo_perm_env 0 demo_check (Some []) True (False, P_SERVICE, [''M'']) = Some True"
    "item_result demo_perm_env 0 demo_check (Some []) True (False, P_SERVICE, [''R'']) = Some False"
    "item_result demo_perm_env 0 demo_check (Some []) True (True, P_USER, [''root'']) = Some False"
    by code_simp+
  moreover have "P_SERVICE \<noteq> 0" "P_USER \<noteq> 0" "P_SERVICE \<noteq> P_DEFAULT" "P_USER \<noteq> P_DEFAULT"
    "\<not> is_verdict P_SERVICE" "\<not> is_verdict P_USER" "is_verdict P_ACCEPT" "is_verdict P_REJECT"
    by code_simp+
  ultimately have "\<forall>l\<in>set [''ACCEPT SERVICE=M'']. line_skipped demo_perm_env 0 demo_check (Some []) True l"
    "passes demo_perm_env 0 demo_check (Some []) True (line_tests ''REJECT SERVICE=R NOT USER=root'')"
    "verdict 0 (line_tests ''REJECT SERVICE=R NOT USER=root'') = P_REJECT"
    "is_verdict P_REJECT"
    using perm_key_distinct
    by (auto simp: line_skipped_def l1 l2 fails_def passes_def verdict_def
        intro!: exI [of _ "[(False, P_ACCEPT, [])]"])
  then show ?thesis
    using Perms_first_match [of "[''ACCEPT SERVICE=M'']" demo_perm_env 0 demo_check "Some []" True
        "''REJECT SERVICE=R NOT USER=root''" "[''ACCEPT'']"] by simp
qed

text \<open>
  Permission is never granted by accident: when the configured default is not to accept and no
  line changes the default, a request is accepted only if the file has a line that says \<open>ACCEPT\<close>
  and all of whose tests succeed for the request.
\<close>

theorem Perms_accept_needs_line:
  assumes "Perms_check env fuel (Some ls) (Some chk) job jc = Some P_ACCEPT"
    and "perm_val (Default_permission env) \<noteq> P_ACCEPT" "\<forall>l\<in>set ls. no_default_line l"
  shows "\<exists>l\<in>set ls. passes env fuel chk job jc (line_tests l)
    \<and> (\<exists>it\<in>set (line_tests l). fst (snd it) = P_ACCEPT)"
proof -
  have "perm_lines env fuel chk job jc ls (perm_val (Default_permission env)) = Some P_ACCEPT"
    using assms(1) by (simp add: Perms_check_def)
  from perm_lines_accept [OF this assms(2,3)] obtain l where
    "l \<in> set ls" "passes env fuel chk job jc (line_tests l)" "verdict 0 (line_tests l) = P_ACCEPT"
    by blast
  moreover have "is_verdict P_ACCEPT" by (simp add: is_verdict_def)
  ultimately show ?thesis using verdict_in by blast
qed

lemma Perms_accept_needs_line_witness:
  "\<exists>l\<in>set [''REJECT SERVICE=M'', ''ACCEPT USER=a*'']. passes demo_perm_env 0 demo_check (Some []) True (line_tests l)"
proof -
  have "Perms_check demo_perm_env 0 (Some [''REJECT SERVICE=M'', ''ACCEPT USER=a*'']) (Some demo_check) (Some []) True
      = Some P_ACCEPT"
    "perm_val (Default_permission demo_perm_env) \<noteq> P_ACCEPT"
    by code_simp+
  moreover have "line_tests ''REJECT SERVICE=M'' = [(False, P_REJECT, []), (False, P_SERVICE, [''M''])]"
    "line_tests ''ACCEPT USER=a*'' = [(False, P_ACCEPT, []), (False, P_USER, [''a*''])]"
    by code_simp+
  moreover have "P_SERVICE \<noteq> P_DEFAULT" "P_USER \<noteq> P_DEFAULT" by code_simp+
  ultimately show ?thesis
    using Perms_accept_needs_line [of demo_perm_env 0 "[''REJECT SERVICE=M'', ''ACCEPT USER=a*'']"
        demo_check "Some []" True] perm_key_distinct
    by (auto simp: no_default_line_def)
qed

text \<open>
  A permission check answers only \<open>ACCEPT\<close>, \<open>REJECT\<close> or the configured default, and the default
  when there is nothing to check or no line decides.
\<close>

theorem Perms_check_range:
  "(Perms_check env fuel perms chk job jc = Some r \<longrightarrow>
      r = P_ACCEPT \<or> r = P_REJECT \<or> r = perm_val (Default_permission env))
   \<and> (perms = None \<or> chk = None \<longrightarrow>
      Perms_check env fuel perms chk job jc = Some (perm_val (Default_permission env)))
   \<and> ((\<forall>l\<in>set ls. line_skipped env fuel c job jc l) \<longrightarrow>
      Perms_check env fuel (Some ls) (Some c) job jc = Some (perm_val (Default_permission env)))"
proof -
  have 1: "Perms_check env fuel perms chk job jc = Some r \<longrightarrow>
      r = P_ACCEPT \<or> r = P_REJECT \<or> r = perm_val (Default_permission env)"
    using perm_lines_range
    by (fastforce simp: Perms_check_def is_verdict_def Let_def split: option.splits prod.splits)
  have 2: "perms = None \<or> chk = None \<longrightarrow>
      Perms_check env fuel perms chk job jc = Some (perm_val (Default_permission env))"
    by (auto simp: Perms_check_def Let_def split: option.splits)
  have "perm_lines env fuel c job jc ls ldp = Some ldp"
    if "\<forall>l\<in>set ls. line_skipped env fuel c job jc l" for ldp
    using perm_lines_skip [OF that, of "[]"] by simp
  with 1 2 show ?thesis by (simp add: Perms_check_def)
qed

lemma Perms_check_range_witness:
  "Perms_check demo_perm_env 0 None (Some demo_check) (Some []) True = Some P_REJECT"
proof -
  have "perm_val (Default_permission demo_perm_env) = P_REJECT" by code_simp
  with Perms_check_range [of demo_perm_env 0 None "Some demo_check" "Some []" True P_REJECT "[]" demo_check]
  show ?thesis by simp
qed

end
