(* ===== verification/JobTicket.thy ===== *)
theory JobTicket
  imports JobKeys Glob
begin

section \<open>The job and its ticket (getqueue.c)\<close>

text \<open>
  \<open>struct job\<close> and the operations that fill it: the parsing of a control file
  (\<open>Set_job_ticket_from_cf_info\<close>) into values of the job and one list per data file, the hold
  class, the names of data and control files (\<open>Check_format\<close>), the job number and the identifier,
  the lines of the ticket file and their parsing.
  The configuration variables, the clock and what the system answers are the record \<open>job_env\<close>.
  The lemmas show that the data files and their copies are those of the control file in order,
  that the priority is one capital letter, and what a well-formed file name is.
\<close>

record job =
  sort_key :: cstr
  info :: line_list
  datafiles :: "line_list list"
  destination :: line_list

record job_env =
  Safe_chars :: "cstr option"
  ticket_file :: "cstr \<Rightarrow> cstr option"
  now :: int
  errno_text :: cstr
  pid_alive :: "int \<Rightarrow> bool"
  Ignore_requested_user_priority :: bool
  Break_classname_priority_link :: bool
  Default_priority :: "cstr option"
  Reverse_priority_order :: bool
  Long_number :: bool
  Backwards_compatible :: bool
  Nline_after_file :: bool
  Stalled_time :: int
  status_mtime :: "int option"
  log_mtime :: "int option"
  Order_routine :: bool

definition Init_job :: job where
  "Init_job = \<lparr>sort_key = [], info = [], datafiles = [], destination = []\<rparr>"

definition Free_job :: "job \<Rightarrow> job" where
  "Free_job j = j\<lparr>info := [], datafiles := [], destination := []\<rparr>"

definition Copy_job :: "job \<Rightarrow> job \<Rightarrow> job" where
  "Copy_job dest src =
     dest\<lparr>info := Merge_line_list (info dest) (info src) None False False,
          datafiles := Merge_listof_line_list (datafiles dest) (datafiles src),
          destination := Merge_line_list (destination dest) (destination src) None False False\<rparr>"

subsection \<open>Values of the queue control\<close>

definition Frwarding :: "line_list \<Rightarrow> cstr option" where "Frwarding l = Find_str_value l FORWARDING"
definition Pr_disabled :: "line_list \<Rightarrow> int" where "Pr_disabled l = Find_flag_value l PRINTING_DISABLED"
definition Sp_disabled :: "line_list \<Rightarrow> int" where "Sp_disabled l = Find_flag_value l SPOOLING_DISABLED"
definition Pr_aborted :: "line_list \<Rightarrow> int" where "Pr_aborted l = Find_flag_value l PRINTING_ABORTED"
definition Hld_all :: "line_list \<Rightarrow> int" where "Hld_all l = Find_flag_value l HOLD_ALL"
definition Clsses :: "line_list \<Rightarrow> cstr option" where "Clsses l = Find_str_value l CLASS"
definition Cntrol_debug :: "line_list \<Rightarrow> cstr option" where "Cntrol_debug l = Find_str_value l DEBUG"
definition Srver_order :: "line_list \<Rightarrow> cstr option" where "Srver_order l = Find_str_value l SERVER_ORDER"

subsection \<open>Holding a job\<close>

fun class_loop :: "line_list \<Rightarrow> cstr \<Rightarrow> int option" where
  "class_loop [] t = Some 1"
| "class_loop (p # l) t =
     (case Globmatch (Some p) (Some t) of
        None \<Rightarrow> None
      | Some r \<Rightarrow> if r \<noteq> 0 then (if l = [] then Some r else class_loop l t) else Some 0)"

text \<open>0 when the job is not held; \<open>None\<close> when a glob pattern runs off the class name.\<close>

definition Get_hold_class :: "line_list \<Rightarrow> line_list \<Rightarrow> int option" where
  "Get_hold_class jinfo sq =
     (case Clsses sq of
        None \<Rightarrow> Some 0
      | Some s \<Rightarrow>
          (case Find_str_value jinfo CLASS of
             None \<Rightarrow> Some 0
           | Some t \<Rightarrow> class_loop (Split [] s File_sep False None False NUL False None) t))"

definition Check_for_hold :: "job_env \<Rightarrow> job \<Rightarrow> line_list \<Rightarrow> job option" where
  "Check_for_hold env j spool_control =
     (case Get_hold_class (info j) spool_control of
        None \<Rightarrow> None
      | Some held \<Rightarrow>
          (let i1 = Set_flag_value (info j) HOLD_CLASS held;
               i2 = (if Find_exists_value i1 HOLD_TIME (Some Hash_value_sep) = None
                     then Set_flag_value i1 HOLD_TIME
                            (if Find_flag_value spool_control HOLD_TIME \<noteq> 0 then now env else 0)
                     else i1)
           in Some (j\<lparr>info := Set_flag_value i2 HELD (Find_flag_value i2 HOLD_TIME)\<rparr>)))"

subsection \<open>Parsing the control file\<close>

definition Append_Z_value :: "line_list \<Rightarrow> cstr \<Rightarrow> line_list" where
  "Append_Z_value jinfo s =
     (if s = [] then jinfo
      else
        (case Find_str_value jinfo ''Z'' of
           Some (c # t) \<Rightarrow>
             Set_str_value jinfo ''Z'' (Some (safestrdup3 (Some (c # t)) (Some '','') (Some s)))
         | _ \<Rightarrow> Set_str_value jinfo ''Z'' (Some s)))"

text \<open>The variables of the loop over the lines of the control file.\<close>

record cf_state =
  cf_info :: line_list
  cf_files :: "line_list list"
  cf_file :: line_list
  cf_copies :: int
  cf_format :: "char option"
  cf_found :: "cstr option"
  cf_names :: "cstr option"

definition push_file :: "cf_state \<Rightarrow> cf_state" where
  "push_file st =
     st\<lparr>cf_files := cf_files st @ [cf_file st], cf_copies := 0, cf_found := None, cf_file := []\<rparr>"

text \<open>A lower case letter: the format and name of a data file.\<close>

definition underscores :: "cstr \<Rightarrow> cstr" where
  "underscores s = map (\<lambda>c. if c = CHR '' '' \<or> c = CHR 0x09 then CHR ''_'' else c) s"

definition cf_file_line :: "cf_state \<Rightarrow> char \<Rightarrow> cstr \<Rightarrow> cf_state" where
  "cf_file_line st0 c name =
     (let st = (if cf_found st0 \<noteq> None
                   \<and> (safestrcmp (cf_found st0) (Some name) \<noteq> 0 \<or> cf_format st0 \<noteq> Some c)
                then push_file st0 else st0);
          n = cf_copies st + 1;
          f1 = Set_str_value (cf_file st) FORMAT (Some [c]);
          f2 = Set_flag_value f1 COPIES n;
          f3 = Set_str_value f2 OTRANSFERNAME (Some name)
      in st\<lparr>cf_format := Some c, cf_copies := n, cf_file := f3,
            cf_found := Find_str_value f3 OTRANSFERNAME\<rparr>)"

text \<open>\<open>N\<close>: the name of the file to be printed; in the HP format also banner and options.\<close>

definition cf_name_line :: "cf_state \<Rightarrow> cstr \<Rightarrow> cf_state" where
  "cf_name_line st0 name =
     (let st = (if cf_found st0 \<noteq> None \<and> Find_str_value (cf_file st0) ''N'' \<noteq> None
                then push_file st0 else st0)
      in st\<lparr>cf_file := Set_str_value (cf_file st) ''N'' (Some name),
            cf_names := Some (case cf_names st of
                                None \<Rightarrow> name
                              | Some ns \<Rightarrow> safeextend3 (Some ns) (Some '','') (Some name))\<rparr>)"

definition cf_hp_name_line :: "cf_state \<Rightarrow> cstr \<Rightarrow> cf_state" where
  "cf_hp_name_line st rest =
     (case rest of
        [] \<Rightarrow> st
      | c # s \<Rightarrow>
          if c = CHR ''B'' then
            (if s \<noteq> [] then st\<lparr>cf_info := Set_str_value (cf_info st) ''T'' (Some s)\<rparr> else st)
          else if c = CHR ''O'' then
            (if s \<noteq> []
             then st\<lparr>cf_info := Append_Z_value (cf_info st)
                       (map (\<lambda>x. if x = CHR '' '' then CHR '','' else x) s)\<rparr>
             else st)
          else st)"

definition cf_other_line :: "bool \<Rightarrow> cf_state \<Rightarrow> char \<Rightarrow> cstr \<Rightarrow> cf_state" where
  "cf_other_line hpformat st c s =
     (if hpformat \<and> c = CHR ''Z'' then st\<lparr>cf_info := Append_Z_value (cf_info st) s\<rparr>
      else if hpformat \<and> c = CHR ''R'' then st\<lparr>cf_info := Set_str_value (cf_info st) ''M'' (Some s)\<rparr>
      else if hpformat \<and> c = CHR ''A'' then
        (let n = to_int (fst (strtol s 10))
         in if 0 \<le> n \<and> n \<le> 10
            then st\<lparr>cf_info := Set_str_value (cf_info st) PRIORITY (Some [char_of (n + 65)])\<rparr>
            else st)
      else if isupper c then st\<lparr>cf_info := Set_str_value (cf_info st) [c] (Some s)\<rparr>
      else st)"

definition cf_line :: "job_env \<Rightarrow> bool \<Rightarrow> cf_state \<Rightarrow> cstr \<Rightarrow> cf_state" where
  "cf_line env hpformat st line =
     (case Clean_meta (Safe_chars env) line of
        [] \<Rightarrow> st
      | c # s \<Rightarrow>
          if islower c then cf_file_line st c (underscores s)
          else if c = CHR ''N'' then
            (if hpformat \<and> take 1 s = '' '' then cf_hp_name_line st (tl s) else cf_name_line st s)
          else if c = CHR ''U'' then st
          else cf_other_line hpformat st c s)"

text \<open>The priority is the first letter of the class or of the default, as a capital, or \<open>A\<close>.\<close>

definition first_of :: "cstr option \<Rightarrow> cstr option \<Rightarrow> cstr" where
  "first_of a b =
     (case a of Some (c # s) \<Rightarrow> c # s | _ \<Rightarrow> (case b of Some (c # s) \<Rightarrow> c # s | _ \<Rightarrow> ''A''))"

definition priority_text :: "job_env \<Rightarrow> line_list \<Rightarrow> cstr" where
  "priority_text env jinfo =
     (let p = first_of (if \<not> Ignore_requested_user_priority env \<and> \<not> Break_classname_priority_link env
                        then Find_str_value jinfo CLASS else None) (Default_priority env);
          c = toupper (hd p)
      in if ccode c < 65 \<or> 90 < ccode c then ''A'' else [c])"

definition set_priority :: "job_env \<Rightarrow> line_list \<Rightarrow> line_list" where
  "set_priority env jinfo =
     (let i1 = Set_str_value jinfo PRIORITY (Some (priority_text env jinfo))
      in if Find_str_value i1 CLASS = None
         then Set_str_value i1 CLASS (Find_str_value i1 PRIORITY) else i1)"

definition cf_init :: "job \<Rightarrow> cf_state" where
  "cf_init j = \<lparr>cf_info = info j, cf_files = [], cf_file = [], cf_copies = 0, cf_format = None,
     cf_found = None, cf_names = None\<rparr>"

definition cf_finish :: "job_env \<Rightarrow> job \<Rightarrow> cf_state \<Rightarrow> job" where
  "cf_finish env j st =
     j\<lparr>datafiles := cf_files st @ (if cf_found st \<noteq> None then [cf_file st] else []),
       info := set_priority env (Set_str_value (cf_info st) FILENAMES (cf_names st))\<rparr>"

text \<open>
  The result is the job and the returned status; with \<open>read_cf_file\<close> the lines of the file named
  by \<open>OPENNAME\<close> come before those of the image.
\<close>

definition Set_job_ticket_from_cf_info :: "job_env \<Rightarrow> job \<Rightarrow> cstr option \<Rightarrow> bool \<Rightarrow> job \<times> int" where
  "Set_job_ticket_from_cf_info env j cf_file_image read_cf_file =
     (let hpformat = (Find_flag_value (info j) HPFORMAT \<noteq> 0);
          name = (if read_cf_file then Find_str_value (info j) OPENNAME else None);
          image = (case name of None \<Rightarrow> None | Some [] \<Rightarrow> None | Some f \<Rightarrow> ticket_file env f)
      in if name \<noteq> None \<and> image = None then
           (j\<lparr>info := Set_nz_flag_value
                (Set_str_value (info j) ERROR
                   (Some (plp_snprintf SMALLBUFFER ''no control file %s - %s''
                            [AStr name, AStr (Some (errno_text env))])))
                ERROR_TIME (now env)\<rparr>, 1)
         else
           (let l1 = (case image of None \<Rightarrow> []
                      | Some t \<Rightarrow> Split [] t Line_ends False None False NUL False None);
                l2 = (case cf_file_image of None \<Rightarrow> l1
                      | Some t \<Rightarrow> Split l1 t Line_ends False None False NUL False None)
            in (cf_finish env j (foldl (cf_line env hpformat) (cf_init j) l2), 0)))"


subsection \<open>Texts without NUL\<close>

lemma Clean_meta_ok: "cstr_ok s \<Longrightarrow> cstr_ok (Clean_meta safe_chars s)"
  by (auto simp: Clean_meta_def cstr_ok_def NUL_def)

lemma underscores_ok: "cstr_ok s \<Longrightarrow> cstr_ok (underscores s)"
  by (auto simp: underscores_def cstr_ok_def NUL_def)

lemma split_scan_set: "split_scan sep escape prev s = (a, rest) \<Longrightarrow> set a \<subseteq> set s \<and> set rest \<subseteq> set s"
  using split_scan_append [of sep escape prev s a rest] by auto

lemma Split_ok:
  "cstr_ok str \<Longrightarrow> list_all cstr_ok l \<Longrightarrow>
   list_all cstr_ok (Split l str sep False None False NUL False None)"
proof (induction "length str" arbitrary: l str rule: less_induct)
  case less
  show ?case
  proof (cases "str = []")
    case False
    obtain tok rest where r: "split_scan sep None None str = (tok, rest)" by fastforce
    from split_scan_set [OF r] less.prems(1) have ok: "cstr_ok tok" "cstr_ok (tl rest)"
      by (cases rest; auto simp: cstr_ok_def)+
    have len: "length (tl rest) < length str"
      using False r split_scan_rest [of sep None None str tok] split_scan_append [OF r]
      by (cases rest) auto
    show ?thesis
      using False r ok less.prems(2) less.hyps [OF len ok(2)]
      by (subst Split.simps) (auto simp: Add_line_list_def Let_def split: list.split)
  qed (use less.prems in \<open>simp add: Split.simps\<close>)
qed

subsection \<open>The data files of a control file\<close>

text \<open>What the control file asks for: a format and a name for each line with a lower case letter.\<close>

definition data_line :: "job_env \<Rightarrow> cstr \<Rightarrow> (char \<times> cstr) list" where
  "data_line env line =
     (case Clean_meta (Safe_chars env) line of
        [] \<Rightarrow> [] | c # s \<Rightarrow> if islower c then [(c, underscores s)] else [])"

definition cf_data_lines :: "job_env \<Rightarrow> line_list \<Rightarrow> (char \<times> cstr) list" where
  "cf_data_lines env lines = concat (map (data_line env) lines)"

text \<open>What a data file list stands for: its format and name as often as it has copies.\<close>

definition file_copies :: "line_list \<Rightarrow> (cstr option \<times> cstr option) list" where
  "file_copies f =
     replicate (nat (Find_flag_value f COPIES)) (Find_str_value f FORMAT, Find_str_value f OTRANSFERNAME)"

definition wanted :: "(char \<times> cstr) list \<Rightarrow> (cstr option \<times> cstr option) list" where
  "wanted ds = map (\<lambda>(c, n). (Some [c], Some n)) ds"

definition cf_inv :: "cf_state \<Rightarrow> (char \<times> cstr) list \<Rightarrow> bool" where
  "cf_inv st ds \<longleftrightarrow>
     kv_inv (cf_file st) \<and> 0 \<le> cf_copies st \<and> cf_copies st \<le> int (length ds)
     \<and> (case cf_found st of
          None \<Rightarrow> cf_copies st = 0
        | Some nm \<Rightarrow> Find_str_value (cf_file st) OTRANSFERNAME = Some nm
            \<and> Find_str_value (cf_file st) FORMAT = map_option (\<lambda>c. [c]) (cf_format st)
            \<and> cf_format st \<noteq> None \<and> cstr_ok nm
            \<and> Find_flag_value (cf_file st) COPIES = cf_copies st)
     \<and> wanted ds = concat (map file_copies (cf_files st))
         @ (if cf_found st = None then [] else file_copies (cf_file st))"

lemma job_key [simp]:
  "key_ok FORMAT" "key_ok COPIES" "key_ok OTRANSFERNAME" "key_ok ''N''" "key_ok CLASS"
  "key_ok PRIORITY" "key_ok FILENAMES" "flag_key COPIES" "flag_key HOLD_CLASS" "flag_key HELD"
  "flag_key HOLD_TIME" "key_ok ''Z''" "key_ok ''M''" "key_ok ''T''"
  by (simp_all add: job_key_defs flag_key_def key_ok_def cstr_ok_def NUL_def Option_value_sep_def)
    (simp_all add: iscntrl_def ccode_def)

lemma job_key_codes [simp]:
  "fold_codes FORMAT \<noteq> fold_codes COPIES" "fold_codes FORMAT \<noteq> fold_codes OTRANSFERNAME"
  "fold_codes COPIES \<noteq> fold_codes OTRANSFERNAME" "fold_codes COPIES \<noteq> fold_codes FORMAT"
  "fold_codes OTRANSFERNAME \<noteq> fold_codes FORMAT" "fold_codes OTRANSFERNAME \<noteq> fold_codes COPIES"
  "fold_codes ''N'' \<noteq> fold_codes FORMAT" "fold_codes ''N'' \<noteq> fold_codes COPIES"
  "fold_codes ''N'' \<noteq> fold_codes OTRANSFERNAME"
  "fold_codes FILENAMES \<noteq> fold_codes CLASS" "fold_codes PRIORITY \<noteq> fold_codes CLASS"
  "fold_codes CLASS \<noteq> fold_codes PRIORITY"
  by (simp_all add: job_key_defs fold_codes_def tolower_def isupper_def ccode_def)

lemma islower_ok: "islower c \<Longrightarrow> c \<noteq> NUL"
  by (auto simp: islower_def)

text \<open>The values a data file has after its line.\<close>

lemma file_values:
  assumes "kv_inv f" "0 \<le> n" "n \<le> INT_MAX" "islower c" "cstr_ok s" "s \<noteq> []"
  defines "g \<equiv> Set_str_value (Set_flag_value (Set_str_value f FORMAT (Some [c])) COPIES n)
    OTRANSFERNAME (Some s)"
  shows "kv_inv g" "Find_str_value g OTRANSFERNAME = Some s" "Find_str_value g FORMAT = Some [c]"
    "Find_flag_value g COPIES = n"
proof -
  have c: "val_ok (Some [c])" using islower_ok [OF assms(4)] by (simp add: cstr_ok_def)
  have s: "val_ok (Some s)" using assms(5) by simp
  let ?f1 = "Set_str_value f FORMAT (Some [c])"
  let ?f2 = "Set_flag_value ?f1 COPIES n"
  have i1: "kv_inv ?f1" using kv.put_inv [OF assms(1) _ c] by simp
  have i2: "kv_inv ?f2" using Set_flag_value_inv [OF i1] assms(2,3) by simp
  have n: "norm_val (Some s) = Some s" using assms(6) by (cases s) auto
  show "kv_inv g" unfolding g_def using kv.put_inv [OF i2 _ s] by simp
  show "Find_str_value g OTRANSFERNAME = Some s"
    unfolding g_def using kv.get_put [OF i2 _ s] n by simp
  show "Find_str_value g FORMAT = Some [c]"
    unfolding g_def using kv.get_put [OF i2 _ s] Set_flag_value_str [OF i1] kv.get_put [OF assms(1) _ c] assms(2,3)
    by simp
  show "Find_flag_value g COPIES = n"
    unfolding g_def using Set_str_value_flag [OF i2 _ s] Set_flag_value_get [OF i1] assms(2,3)
    by simp
qed

lemma file_copies_snoc:
  assumes "Find_flag_value g COPIES = n + 1" "0 \<le> n"
    and "Find_str_value g OTRANSFERNAME = Some s" "Find_str_value g FORMAT = Some [c]"
  shows "file_copies g = replicate (nat n) (Some [c], Some s) @ [(Some [c], Some s)]"
proof -
  have "nat (n + 1) = Suc (nat n)" using assms(2) by simp
  then show ?thesis unfolding file_copies_def assms(1,3,4) by (simp add: replicate_append_same)
qed

lemma cf_inv_push: "cf_inv st ds \<Longrightarrow> cf_found st \<noteq> None \<Longrightarrow> cf_inv (push_file st) ds"
  by (auto simp: cf_inv_def push_file_def)

lemma cf_inv_file:
  assumes "cf_inv st ds" "int (length ds) < INT_MAX" "islower c" "cstr_ok s" "s \<noteq> []"
    and same: "cf_found st = None \<or> cf_found st = Some s \<and> cf_format st = Some c"
  defines "n \<equiv> cf_copies st + 1"
  defines "g \<equiv> Set_str_value (Set_flag_value (Set_str_value (cf_file st) FORMAT (Some [c])) COPIES n)
    OTRANSFERNAME (Some s)"
  shows "cf_inv (st\<lparr>cf_format := Some c, cf_copies := n, cf_file := g,
    cf_found := Find_str_value g OTRANSFERNAME\<rparr>) (ds @ [(c, s)])"
proof -
  from assms(1,2) have n: "0 \<le> n" "n \<le> INT_MAX" "n \<le> int (length ds) + 1" "0 \<le> cf_copies st"
    by (auto simp: cf_inv_def n_def)
  from assms(1) have f: "kv_inv (cf_file st)" by (simp add: cf_inv_def)
  note v = file_values [OF f n(1,2) assms(3-5), folded g_def]
  have fc: "file_copies g = replicate (nat (cf_copies st)) (Some [c], Some s) @ [(Some [c], Some s)]"
    using file_copies_snoc [of g "cf_copies st"] v n by (simp add: n_def)
  have w: "wanted (ds @ [(c, s)]) = concat (map file_copies (cf_files st)) @ file_copies g"
  proof (cases "cf_found st")
    case None
    with assms(1) fc show ?thesis by (simp add: cf_inv_def wanted_def)
  next
    case (Some nm)
    with same assms(1) have "file_copies (cf_file st) = replicate (nat (cf_copies st)) (Some [c], Some s)"
      by (simp add: cf_inv_def file_copies_def)
    with Some assms(1) fc show ?thesis by (simp add: cf_inv_def wanted_def)
  qed
  from v n w assms(4) show ?thesis by (simp add: cf_inv_def)
qed

lemma cf_inv_file_line:
  assumes "cf_inv st ds" "int (length ds) < INT_MAX" "islower c" "cstr_ok s" "s \<noteq> []"
  shows "cf_inv (cf_file_line st c s) (ds @ [(c, s)])"
proof -
  define st1 where "st1 = (if cf_found st \<noteq> None
    \<and> (safestrcmp (cf_found st) (Some s) \<noteq> 0 \<or> cf_format st \<noteq> Some c) then push_file st else st)"
  have i: "cf_inv st1 ds" using assms(1) cf_inv_push by (simp add: st1_def)
  have ok: "cf_found st = Some nm \<Longrightarrow> safestrcmp (Some nm) (Some s) = 0 \<Longrightarrow> nm = s" for nm
    using assms(1,4) by (simp add: cf_inv_def safestrcmp_def strcmp_eq_0_iff)
  have "cf_found st1 = None \<or> cf_found st1 = Some s \<and> cf_format st1 = Some c"
    using ok by (cases "cf_found st") (auto simp: st1_def push_file_def)
  from cf_inv_file [OF i assms(2-5) this] show ?thesis
    unfolding cf_file_line_def st1_def [symmetric] Let_def by simp
qed

lemma cf_inv_name_line:
  assumes "cf_inv st ds" "cstr_ok s"
  shows "cf_inv (cf_name_line st s) ds"
proof -
  define st1 where "st1 = (if cf_found st \<noteq> None \<and> Find_str_value (cf_file st) ''N'' \<noteq> None
    then push_file st else st)"
  have i: "cf_inv st1 ds" using assms(1) cf_inv_push by (simp add: st1_def)
  let ?g = "Set_str_value (cf_file st1) ''N'' (Some s)"
  have f: "kv_inv (cf_file st1)" using i by (simp add: cf_inv_def)
  have v: "val_ok (Some s)" using assms(2) by simp
  note g = kv.put_inv [OF f _ v, of "''N''"] kv.get_put [OF f _ v, of "''N''"]
    Set_str_value_flag [OF f _ v, of "''N''"]
  have "file_copies ?g = file_copies (cf_file st1)"
    using g by (simp add: file_copies_def)
  with i g have "cf_inv (st1\<lparr>cf_file := ?g, cf_names := z\<rparr>) ds" for z
    by (cases "cf_found st1") (simp_all add: cf_inv_def)
  then show ?thesis unfolding cf_name_line_def st1_def [symmetric] Let_def by simp
qed

lemma cf_inv_info: "cf_inv (st\<lparr>cf_info := i\<rparr>) ds \<longleftrightarrow> cf_inv st ds"
  by (auto simp: cf_inv_def split: option.splits)

lemma cf_inv_hp_name_line: "cf_inv st ds \<Longrightarrow> cf_inv (cf_hp_name_line st s) ds"
  by (auto simp: cf_hp_name_line_def cf_inv_info split: list.split)

lemma cf_inv_other_line: "cf_inv st ds \<Longrightarrow> cf_inv (cf_other_line hp st c s) ds"
  by (auto simp: cf_other_line_def cf_inv_info Let_def)

lemma cf_inv_line:
  assumes "cf_inv st ds" "cstr_ok line" "\<forall>(c, n)\<in>set (data_line env line). n \<noteq> []"
    and "int (length (ds @ data_line env line)) \<le> INT_MAX"
  shows "cf_inv (cf_line env hp st line) (ds @ data_line env line)"
proof (cases "Clean_meta (Safe_chars env) line")
  case Nil
  with assms(1) show ?thesis by (simp add: cf_line_def data_line_def)
next
  case (Cons c s)
  have s: "cstr_ok s" using Clean_meta_ok [OF assms(2), of "Safe_chars env"] Cons by simp
  then have u: "cstr_ok (underscores s)" by (rule underscores_ok)
  show ?thesis
  proof (cases "islower c")
    case True
    with Cons assms(3,4) have "underscores s \<noteq> []" "int (length ds) < INT_MAX"
      by (simp_all add: data_line_def)
    from cf_inv_file_line [OF assms(1) this(2) True u this(1)] True Cons show ?thesis
      by (simp add: cf_line_def data_line_def)
  next
    case False
    with Cons assms(1) s show ?thesis
      by (simp add: cf_line_def data_line_def cf_inv_name_line cf_inv_hp_name_line cf_inv_other_line)
  qed
qed

lemma cf_inv_lines:
  "cf_inv st ds \<Longrightarrow> list_all cstr_ok lines \<Longrightarrow>
   \<forall>(c, n)\<in>set (cf_data_lines env lines). n \<noteq> [] \<Longrightarrow>
   int (length (ds @ cf_data_lines env lines)) \<le> INT_MAX \<Longrightarrow>
   cf_inv (foldl (cf_line env hp) st lines) (ds @ cf_data_lines env lines)"
proof (induction lines arbitrary: st ds)
  case (Cons line lines)
  have "cf_inv (cf_line env hp st line) (ds @ data_line env line)"
    using cf_inv_line [OF Cons.prems(1)] Cons.prems(2-4) by (simp add: cf_data_lines_def)
  from Cons.IH [OF this] Cons.prems(2-4) show ?case by (simp add: cf_data_lines_def)
qed (simp add: cf_data_lines_def)

lemma cf_init_inv: "cf_inv (cf_init j) []"
  by (simp add: cf_inv_def cf_init_def wanted_def)

subsection \<open>The priority\<close>

lemma priority_letter: "\<exists>c. isupper c \<and> priority_text env i = [c]"
proof -
  have "isupper CHR ''A''" by (simp add: isupper_def ccode_def)
  then show ?thesis unfolding priority_text_def Let_def
    by (auto simp: isupper_def not_less)
qed

lemma isupper_ok: "isupper c \<Longrightarrow> c \<noteq> NUL"
  by (auto simp: isupper_def)

lemma set_priority_values:
  assumes "kv_inv i"
  shows "Find_str_value (set_priority env i) PRIORITY = Some (priority_text env i)"
    "Find_str_value (set_priority env i) CLASS =
       (case Find_str_value i CLASS of None \<Rightarrow> Some (priority_text env i) | Some c \<Rightarrow> Some c)"
    "kv_inv (set_priority env i)"
proof -
  obtain c where c: "isupper c" "priority_text env i = [c]" using priority_letter by blast
  have v: "val_ok (Some [c])" using isupper_ok [OF c(1)] by (simp add: cstr_ok_def)
  let ?i = "Set_str_value i PRIORITY (Some [c])"
  have i: "kv_inv ?i" using kv.put_inv [OF assms _ v] by simp
  have k: "\<not> (fold_codes PRIORITY = fold_codes CLASS)" "\<not> (fold_codes CLASS = fold_codes PRIORITY)"
    by simp_all
  have g: "Find_str_value ?i PRIORITY = Some [c]" "Find_str_value ?i CLASS = Find_str_value i CLASS"
    using kv.get_put [OF assms _ v, of PRIORITY] k by simp_all
  show "Find_str_value (set_priority env i) PRIORITY = Some (priority_text env i)"
    using kv.get_put [OF i _ v, of CLASS] k g c unfolding set_priority_def Let_def
    by auto
  show "Find_str_value (set_priority env i) CLASS =
       (case Find_str_value i CLASS of None \<Rightarrow> Some (priority_text env i) | Some c \<Rightarrow> Some c)"
    using kv.get_put [OF i _ v, of CLASS] g c unfolding set_priority_def Let_def
    by (auto split: option.split)
  show "kv_inv (set_priority env i)"
    using kv.put_inv [OF i _ v, of CLASS] i g c unfolding set_priority_def Let_def by auto
qed

text \<open>Every line keeps the job information a proper store.\<close>

lemma upper_key: "isupper c \<Longrightarrow> key_ok [c]"
  using isupper_ok [of c]
  by (auto simp: key_ok_def cstr_ok_def Option_value_sep_def isupper_def ccode_def)

lemma Append_Z_inv:
  assumes "kv_inv i" "cstr_ok s"
  shows "kv_inv (Append_Z_value i s)"
proof -
  have z: "val_ok (Find_str_value i ''Z'')"
    using Find_str_value_val_ok [OF assms(1)] by (simp add: cstr_ok_def NUL_def)
  then have "Find_str_value i ''Z'' = Some t \<Longrightarrow> val_ok (Some (t @ CHR '','' # s))" for t
    using assms(2) by (simp add: cstr_ok_def NUL_def)
  with assms show ?thesis
    by (auto simp: Append_Z_value_def safestrdup3_def intro!: kv.put_inv split: option.split list.split)
qed

lemma cf_line_info:
  assumes "kv_inv (cf_info st)" "cstr_ok line"
  shows "kv_inv (cf_info (cf_line env hp st line))"
proof (cases "Clean_meta (Safe_chars env) line")
  case (Cons c s)
  have s: "cstr_ok s" using Clean_meta_ok [OF assms(2), of "Safe_chars env"] Cons by simp
  have t: "cstr_ok t" if "set t \<subseteq> set s" for t using s that by (auto simp: cstr_ok_def)
  have m: "cstr_ok (map (\<lambda>x. if x = CHR '' '' then CHR '','' else x) t)" if "set t \<subseteq> set s" for t
    using t [OF that] by (auto simp: cstr_ok_def NUL_def)
  have "kv_inv (cf_info (cf_file_line st c n))" "kv_inv (cf_info (cf_name_line st n))" for n
    using assms(1) by (simp_all add: cf_file_line_def cf_name_line_def push_file_def Let_def)
  moreover have "kv_inv (cf_info (cf_hp_name_line st (tl s)))"
  proof (cases "tl s")
    case Nil
    then show ?thesis using assms(1) by (simp add: cf_hp_name_line_def)
  next
    case (Cons b u)
    then have "set u \<subseteq> set s" by (cases s) auto
    with Cons assms(1) t [of u] m [of u] show ?thesis
      by (auto simp: cf_hp_name_line_def intro!: kv.put_inv Append_Z_inv)
  qed
  moreover have "kv_inv (cf_info (cf_other_line hp st c s))"
  proof -
    have "NUL \<notin> set [char_of (n + 65)]" if "0 \<le> n" "n \<le> 10" for n :: int
      using that ccode_char_of [of "n + 65"] ccode_NUL by (auto simp del: ccode_NUL)
    moreover have "isupper c \<Longrightarrow> key_ok [c]" by (rule upper_key)
    ultimately show ?thesis using assms(1) s
      by (auto simp: cf_other_line_def Let_def cstr_ok_def intro!: kv.put_inv Append_Z_inv)
  qed
  ultimately show ?thesis using Cons assms(1) by (simp add: cf_line_def)
qed (use assms in \<open>simp add: cf_line_def\<close>)

lemma cf_lines_info:
  "kv_inv (cf_info st) \<Longrightarrow> list_all cstr_ok lines \<Longrightarrow>
   kv_inv (cf_info (foldl (cf_line env hp) st lines))"
  by (induction lines arbitrary: st) (auto intro: cf_line_info)

lemma cf_line_names:
  assumes "val_ok (cf_names st)" "cstr_ok line"
  shows "val_ok (cf_names (cf_line env hp st line))"
proof (cases "Clean_meta (Safe_chars env) line")
  case (Cons c s)
  have s: "cstr_ok s" using Clean_meta_ok [OF assms(2), of "Safe_chars env"] Cons by simp
  have h: "cf_names (cf_hp_name_line st u) = cf_names st" "cf_names (cf_other_line hp st c u) = cf_names st"
    "cf_names (cf_file_line st c u) = cf_names st" for u
    by (simp_all add: cf_hp_name_line_def cf_other_line_def cf_file_line_def push_file_def Let_def
        split: list.split)
  have "val_ok (cf_names (cf_name_line st s))"
    using assms(1) s
    by (auto simp: cf_name_line_def push_file_def Let_def safeextend3_def cstr_ok_def NUL_def
        split: option.splits)
  with Cons assms(1) h show ?thesis by (simp add: cf_line_def)
qed (use assms in \<open>simp add: cf_line_def\<close>)

lemma cf_lines_names:
  "list_all cstr_ok lines \<Longrightarrow> val_ok (cf_names st) \<Longrightarrow>
   val_ok (cf_names (foldl (cf_line env hp) st lines))"
  by (induction lines arbitrary: st) (auto intro: cf_line_names)

lemma toupper_upper: "isupper c \<Longrightarrow> toupper c = c"
  by (auto simp: toupper_def islower_def isupper_def)

text \<open>The priority is a fixed point: computed again from the finished job it is the same.\<close>

lemma set_priority_again:
  assumes "kv_inv i"
  shows "priority_text env (set_priority env i) = priority_text env i"
proof -
  obtain c where c: "isupper c" "priority_text env i = [c]" using priority_letter by blast
  show ?thesis
  proof (cases "Find_str_value i CLASS")
    case (Some cls)
    with set_priority_values(2) [OF assms] show ?thesis by (simp add: priority_text_def)
  next
    case None
    with set_priority_values(2) [OF assms] c have "Find_str_value (set_priority env i) CLASS = Some [c]"
      by simp
    moreover have "priority_text env i = (let c = toupper (hd (first_of None (Default_priority env)))
        in if ccode c < 65 \<or> 90 < ccode c then ''A'' else [c])"
      by (simp add: priority_text_def None)
    ultimately show ?thesis using c toupper_upper [OF c(1)]
      by (auto simp: priority_text_def first_of_def isupper_def Let_def)
  qed
qed

lemma cf_parse_values:
  assumes "Set_job_ticket_from_cf_info env j (Some t) False = (j', r)"
  shows "r = 0" and "\<exists>hp. j' = cf_finish env j (foldl (cf_line env hp) (cf_init j)
    (Split [] t Line_ends False None False NUL False None))"
  using assms by (auto simp: Set_job_ticket_from_cf_info_def Let_def)

lemma cf_finish_files:
  assumes "cf_inv st ds" "cf_found st \<noteq> None \<longrightarrow> fs = cf_files st @ [cf_file st]"
    "cf_found st = None \<longrightarrow> fs = cf_files st"
  shows "concat (map file_copies fs) = wanted ds"
  using assms by (cases "cf_found st") (auto simp: cf_inv_def)

lemma class_loop_spec:
  "\<forall>p\<in>set l. Globmatch (Some p) (Some t) \<noteq> None \<Longrightarrow>
   \<exists>h. class_loop l t = Some h \<and> (h = 0 \<longleftrightarrow> (\<exists>p\<in>set l. Globmatch (Some p) (Some t) = Some 0))"
proof (induction l)
  case (Cons p l)
  then obtain r where r: "Globmatch (Some p) (Some t) = Some r" by auto
  from Cons obtain h where h: "class_loop l t = Some h"
    "(h = 0 \<longleftrightarrow> (\<exists>p\<in>set l. Globmatch (Some p) (Some t) = Some 0))" by auto
  show ?case using r h by (cases "l = []") auto
qed simp

subsection \<open>The properties\<close>

text \<open>
  C27: the data files of the job are those of the control file: listing every data file with its
  format as often as its number of copies says gives the data file lines of the control file, in
  their order, whatever other lines stand between them. The file names must not be empty.
\<close>

theorem cf_datafiles:
  assumes "cstr_ok t"
    and "\<forall>(c, n)\<in>set (cf_data_lines env (Split [] t Line_ends False None False NUL False None)). n \<noteq> []"
    and "int (length (cf_data_lines env (Split [] t Line_ends False None False NUL False None))) \<le> INT_MAX"
  shows "concat (map file_copies (datafiles (fst (Set_job_ticket_from_cf_info env j (Some t) False)))) =
    wanted (cf_data_lines env (Split [] t Line_ends False None False NUL False None))"
proof -
  let ?lines = "Split [] t Line_ends False None False NUL False None"
  obtain j' r where r: "Set_job_ticket_from_cf_info env j (Some t) False = (j', r)" by fastforce
  then obtain hp where j': "j' = cf_finish env j (foldl (cf_line env hp) (cf_init j) ?lines)"
    using cf_parse_values(2) by blast
  have "list_all cstr_ok ?lines" using Split_ok [OF assms(1)] by simp
  from cf_inv_lines [OF cf_init_inv this, of env hp] assms(2,3)
  have "cf_inv (foldl (cf_line env hp) (cf_init j) ?lines) (cf_data_lines env ?lines)" by simp
  from cf_finish_files [OF this, of "datafiles j'"] r j' show ?thesis
    by (auto simp: cf_finish_def)
qed

definition demo_job_env :: job_env where
  "demo_job_env = \<lparr>Safe_chars = None, ticket_file = (\<lambda>_. None), now = 1000, errno_text = ''no such file'',
     pid_alive = (\<lambda>_. False), Ignore_requested_user_priority = False,
     Break_classname_priority_link = False, Default_priority = None, Reverse_priority_order = False,
     Long_number = False, Backwards_compatible = False, Nline_after_file = False, Stalled_time = 120,
     status_mtime = None, log_mtime = None,
     Order_routine = False\<rparr>"

definition demo_cf :: cstr where
  "demo_cf = ''Hhost'' @ [CHR 0x0A] @ ''CZ'' @ [CHR 0x0A] @ ''fdfA1h'' @ [CHR 0x0A] @ ''fdfA1h'' @ [CHR 0x0A]
     @ ''Na.txt'' @ [CHR 0x0A] @ ''ldfB1h''"

lemma cf_datafiles_witness:
  "concat (map file_copies (datafiles (fst (Set_job_ticket_from_cf_info demo_job_env Init_job
     (Some demo_cf) False)))) = [(Some ''f'', Some ''dfA1h''), (Some ''f'', Some ''dfA1h''), (Some ''l'', Some ''dfB1h'')]"
proof -
  have v: "cf_data_lines demo_job_env (Split [] demo_cf Line_ends False None False NUL False None) =
      [(CHR ''f'', ''dfA1h''), (CHR ''f'', ''dfA1h''), (CHR ''l'', ''dfB1h'')]" by code_simp
  have "cstr_ok demo_cf" by code_simp
  from cf_datafiles [OF this, of demo_job_env] v show ?thesis
    by (simp add: wanted_def INT_MAX_def)
qed

text \<open>
  After a control file has been read the priority of the job is the one capital letter that
  its class and the configuration give, and the job has a class: computed from the finished job it
  is the same again. An HP \<open>A\<close> line, which sets the priority while the lines are read, therefore has
  no effect.
\<close>

theorem cf_priority:
  assumes "kv_inv (info j)" "cstr_ok t"
  shows "let i = info (fst (Set_job_ticket_from_cf_info env j (Some t) False)) in
    Find_str_value i PRIORITY = Some (priority_text env i)
    \<and> (\<exists>c. isupper c \<and> priority_text env i = [c]) \<and> Find_str_value i CLASS \<noteq> None \<and> kv_inv i"
proof -
  let ?lines = "Split [] t Line_ends False None False NUL False None"
  obtain j' r where r: "Set_job_ticket_from_cf_info env j (Some t) False = (j', r)" by fastforce
  then obtain hp where j': "j' = cf_finish env j (foldl (cf_line env hp) (cf_init j) ?lines)"
    using cf_parse_values(2) by blast
  let ?st = "foldl (cf_line env hp) (cf_init j) ?lines"
  have ok: "list_all cstr_ok ?lines" using Split_ok [OF assms(2)] by simp
  have "kv_inv (cf_info ?st)" using cf_lines_info [OF _ ok] assms(1) by (simp add: cf_init_def)
  moreover have "val_ok (cf_names ?st)" using cf_lines_names [OF ok] by (simp add: cf_init_def)
  ultimately have k: "kv_inv (Set_str_value (cf_info ?st) FILENAMES (cf_names ?st))"
    using kv.put_inv by simp
  from r j' have i: "info (fst (Set_job_ticket_from_cf_info env j (Some t) False)) =
      set_priority env (Set_str_value (cf_info ?st) FILENAMES (cf_names ?st))"
    by (simp add: cf_finish_def)
  show ?thesis unfolding i Let_def
    using set_priority_values [OF k] set_priority_again [OF k] priority_letter
    by (auto split: option.split)
qed

lemma cf_priority_witness:
  "let i = info (fst (Set_job_ticket_from_cf_info demo_job_env (Init_job\<lparr>info := [''hpformat=0x1'']\<rparr>)
     (Some (''A5'' @ [CHR 0x0A] @ ''fdfA1h'')) False)) in
   Find_str_value i PRIORITY = Some ''A'' \<and> Find_str_value i CLASS = Some ''A''"
proof -
  let ?j = "Init_job\<lparr>info := [''hpformat=0x1'']\<rparr>" and ?t = "''A5'' @ [CHR 0x0A] @ ''fdfA1h''"
  have k: "kv_inv (info ?j)" "cstr_ok ?t" by code_simp+
  have v: "priority_text demo_job_env (info (fst (Set_job_ticket_from_cf_info demo_job_env ?j (Some ?t) False)))
      = ''A''"
    "Find_str_value (info (fst (Set_job_ticket_from_cf_info demo_job_env ?j (Some ?t) False))) CLASS = Some ''A''"
    by code_simp+
  from cf_priority [OF k, of demo_job_env] v show ?thesis by (simp add: Let_def)
qed

text \<open>
  A job is held by the class control exactly if the queue and the job both have a class and no
  pattern of the queue's list matches the class of the job (the patterns being such that the glob
  matcher stays inside the class name); the result is 0 for a job that is not held.
\<close>

theorem hold_class:
  assumes "\<forall>p\<in>set (Split [] s File_sep False None False NUL False None). Globmatch (Some p) (Some t) \<noteq> None"
    and "Clsses sq = Some s" "Find_str_value jinfo CLASS = Some t"
  shows "\<exists>h. Get_hold_class jinfo sq = Some h
    \<and> (h = 0 \<longleftrightarrow> (\<exists>p\<in>set (Split [] s File_sep False None False NUL False None). Globmatch (Some p) (Some t) = Some 0))"
  using class_loop_spec [OF assms(1)] assms(2,3) by (simp add: Get_hold_class_def)

lemma hold_class_witness:
  "\<exists>h. Get_hold_class [''C=B''] [''C=A,b*''] = Some h \<and> h = 0"
proof -
  have s: "Split [] ''A,b*'' File_sep False None False NUL False None = [''A'', ''b*'']" by code_simp
  have m: "Globmatch (Some ''A'') (Some ''B'') = Some (-1)" "Globmatch (Some ''b*'') (Some ''B'') = Some 0"
    by code_simp+
  have c: "Clsses [''C=A,b*''] = Some ''A,b*''" "Find_str_value [''C=B''] CLASS = Some ''B''"
    by code_simp+
  show ?thesis
    using hold_class [of "''A,b*''" "''B''" "[''C=A,b*'']" "[''C=B'']"] c
    unfolding s by (auto simp: m)
qed
end
