(* ===== verification/Digits.thy ===== *)
theory Digits
  imports KeyValue
begin

section \<open>Numbers of a fixed width\<close>

text \<open>
  The texts that the conversions \<open>%0*d\<close> and \<open>%08x\<close> give: digits padded with zeros. The lemmas show
  their length, that \<open>strtol\<close> reads them back, and that texts of the same length compare like the
  numbers they stand for, which is what the job order rests on.
\<close>

definition padded :: "nat \<Rightarrow> nat \<Rightarrow> nat \<Rightarrow> cstr" where
  "padded b k n = replicate (k - length (nat_digits b n)) CHR ''0'' @ nat_digits b n"

lemma digit_zero: "CHR ''0'' = digit_char 0"
  by (simp add: digit_char_def char_of_def bit_simps)

lemma padded_set:
  assumes "2 \<le> b"
  shows "set (padded b k n) \<subseteq> digit_char ` {0..<b}"
proof -
  have "CHR ''0'' \<in> digit_char ` {0..<b}" unfolding digit_zero using assms by (intro imageI) simp
  with nat_digits_set [OF assms, of n] show ?thesis by (auto simp: padded_def)
qed

lemma padded_nonempty [simp]: "padded b k n \<noteq> []"
  by (simp add: padded_def nat_digits_nonempty)

lemma length_padded:
  assumes "2 \<le> b" "n < b ^ Suc k"
  shows "length (padded b (Suc k) n) = Suc k"
  using length_nat_digits [OF assms] by (simp add: padded_def)

lemma foldl_zeros: "foldl (\<lambda>v c. v * b + digit_val c) 0 (replicate k CHR ''0'') = (0::int)"
proof -
  have "digit_val CHR ''0'' = 0" using digit_val_char [of 0] digit_zero by simp
  then show ?thesis by (induction k) simp_all
qed

lemma digits_value_padded: "2 \<le> b \<Longrightarrow> b \<le> 16 \<Longrightarrow> digits_value (int b) (padded b k n) = int n"
  using digits_value_nat_digits [of b n] by (simp add: digits_value_def padded_def foldl_zeros)

lemma padded_char: "2 \<le> b \<Longrightarrow> b \<le> 16 \<Longrightarrow> c \<in> set (padded b k n) \<Longrightarrow> \<exists>d < b. c = digit_char d"
  using padded_set [of b k n] by fastforce

lemma cstr_ok_padded: "2 \<le> b \<Longrightarrow> b \<le> 16 \<Longrightarrow> cstr_ok (padded b k n)"
proof -
  assume b: "2 \<le> b" "b \<le> 16"
  have "NUL \<notin> set (padded b k n)"
  proof
    assume "NUL \<in> set (padded b k n)"
    from padded_char [OF b this] obtain d where "d < b" "NUL = digit_char d" by blast
    with digit_char_props [of d] b show False by simp
  qed
  then show ?thesis by (auto simp: cstr_ok_def)
qed

lemma strtol_padded: "strtol (padded 10 k n) 10 = (clamp_long (int n), [])"
proof -
  let ?ds = "padded 10 k n"
  have "hd ?ds \<in> set ?ds" by simp
  from padded_char [OF _ _ this] obtain d where d: "d < 10" "hd ?ds = digit_char d" by auto
  then have "strtol ?ds 10 = (clamp_long (digits_value (int 10) ?ds), [])"
    using padded_set [of 10 k n] digit_char_props [of d]
    by (intro strtol_digits) (auto simp: strtol_base_def)
  then show ?thesis using digits_value_padded [of 10 k n] by simp
qed

lemma padded_hd: "2 \<le> b \<Longrightarrow> b \<le> 16 \<Longrightarrow> \<not> isspace (hd (padded b k n))"
  using padded_char [of b "hd (padded b k n)" k n] digit_char_props
  by (metis hd_in_set less_le_trans padded_nonempty)

text \<open>The conversions.\<close>

lemma fmtnum_padded_pos:
  assumes "0 \<le> v" "v < 18446744073709551616"
  shows "fmtnum_text v 10 True False (int k) True = padded 10 k (nat v)"
    and "fmtnum_text v 16 False False (int k) True = padded 16 k (nat v)"
proof -
  have m: "v mod 18446744073709551616 = v" using assms by simp
  have p: "(if 0 < max 0 (int k - int l) then pad_text CHR ''0'' (max 0 (int k - int l)) else [])
      = replicate (k - l) CHR ''0''" for l
    by (simp add: pad_text_def max_def nat_diff_distrib')
  show "fmtnum_text v 10 True False (int k) True = padded 10 k (nat v)"
    using assms p [of "length (nat_digits 10 (nat v))"]
    by (auto simp: fmtnum_text_def fmtnum_out_text_def rev_convert_digits Let_def padded_def m
        split: if_splits)
  show "fmtnum_text v 16 False False (int k) True = padded 16 k (nat v)"
    using assms p [of "length (nat_digits 16 (nat v))"]
    by (auto simp: fmtnum_text_def fmtnum_out_text_def rev_convert_digits Let_def padded_def m
        split: if_splits)
qed

subsection \<open>Texts of the same length compare like their values\<close>

lemma digit_code_mono:
  "d < 16 \<Longrightarrow> e < 16 \<Longrightarrow> ccode (digit_char d) < ccode (digit_char e) \<longleftrightarrow> d < e"
  by (auto simp: ccode_digit_char)

lemma digits_value_cons:
  "digits_value b (c # ds) = digit_val c * b ^ length ds + digits_value b ds"
proof -
  have "foldl (\<lambda>v c. v * b + digit_val c) a ds
      = a * b ^ length ds + foldl (\<lambda>v c. v * b + digit_val c) 0 ds" for a
  proof (induction ds arbitrary: a)
    case (Cons c ds)
    show ?case
      using Cons.IH [of "a * b + digit_val c"] Cons.IH [of "digit_val c"]
      by (simp add: algebra_simps)
  qed simp
  from this [of "digit_val c"] show ?thesis by (simp add: digits_value_def)
qed

lemma digits_value_bound:
  "2 \<le> b \<Longrightarrow> b \<le> 16 \<Longrightarrow> set ds \<subseteq> digit_char ` {0..<b} \<Longrightarrow>
   0 \<le> digits_value (int b) ds \<and> digits_value (int b) ds < int b ^ length ds"
proof (induction ds)
  case (Cons c ds)
  from Cons.prems obtain d where d: "c = digit_char d" "d < b" by auto
  then have v: "digit_val c = int d" using Cons.prems(2) by (simp add: digit_val_char)
  from Cons have IH: "0 \<le> digits_value (int b) ds" "digits_value (int b) ds < int b ^ length ds" by auto
  have "int d * int b ^ length ds + digits_value (int b) ds < (int d + 1) * int b ^ length ds"
    using IH(2) by (simp add: algebra_simps)
  also have "\<dots> \<le> int b * int b ^ length ds"
    using d(2) by (intro mult_right_mono) auto
  finally show ?case using IH(1) by (simp add: digits_value_cons v)
qed (simp add: digits_value_def)

lemma codes_compare_digits:
  assumes "2 \<le> b" "b \<le> 16"
  shows "set xs \<subseteq> digit_char ` {0..<b} \<Longrightarrow> set ys \<subseteq> digit_char ` {0..<b} \<Longrightarrow> length xs = length ys \<Longrightarrow>
    (codes xs < codes ys \<longleftrightarrow> digits_value (int b) xs < digits_value (int b) ys)"
proof (induction xs arbitrary: ys)
  case Nil
  then show ?case by (simp add: codes_def digits_value_def)
next
  case (Cons x xs)
  then obtain y ys' where ys: "ys = y # ys'" by (cases ys) auto
  from Cons.prems ys obtain d e where d: "x = digit_char d" "d < b" and e: "y = digit_char e" "e < b"
    by auto
  have dv: "digit_val x = int d" "digit_val y = int e" using d e assms by (simp_all add: digit_val_char)
  have len: "length xs = length ys'" using Cons.prems ys by simp
  have bx: "0 \<le> digits_value (int b) xs" "digits_value (int b) xs < int b ^ length ys'"
    using digits_value_bound [OF assms, of xs] Cons.prems(1) len by auto
  have b_y: "0 \<le> digits_value (int b) ys'" "digits_value (int b) ys' < int b ^ length ys'"
    using digits_value_bound [OF assms, of ys'] Cons.prems(2) ys by auto
  have IH: "codes xs < codes ys' \<longleftrightarrow> digits_value (int b) xs < digits_value (int b) ys'"
    using Cons ys by simp
  have step: "int p * int b ^ length ys' + v < int q * int b ^ length ys' + w"
    if "p < q" "v < int b ^ length ys'" "0 \<le> w" for p q v w
  proof -
    have "(int p + 1) * int b ^ length ys' \<le> int q * int b ^ length ys'"
      using that(1) by (intro mult_right_mono) auto
    then have "int p * int b ^ length ys' + int b ^ length ys' \<le> int q * int b ^ length ys'"
      by (simp only: distrib_right mult_1_left)
    with that(2,3) show ?thesis by linarith
  qed
  consider "d < e" | "e < d" | "d = e" by linarith
  then show ?case
  proof cases
    case 1
    with digit_code_mono [of d e] d e assms have "ccode x < ccode y" by auto
    moreover have "digits_value (int b) (x # xs) < digits_value (int b) ys"
      unfolding ys digits_value_cons dv len using step [OF 1 bx(2) b_y(1)] .
    ultimately show ?thesis by (simp add: ys codes_def)
  next
    case 2
    with digit_code_mono [of e d] d e assms have "ccode y < ccode x" by auto
    moreover have "digits_value (int b) ys < digits_value (int b) (x # xs)"
      unfolding ys digits_value_cons dv len using step [OF 2 b_y(2) bx(1)] .
    ultimately show ?thesis by (auto simp: ys codes_def)
  next
    case 3
    then show ?thesis using IH by (simp add: ys d(1) e(1) codes_def digits_value_cons len)
  qed
qed

lemma padded_compare:
  assumes "2 \<le> b" "b \<le> 16" "m < b ^ Suc k" "n < b ^ Suc k"
  shows "codes (padded b (Suc k) m) < codes (padded b (Suc k) n) \<longleftrightarrow> m < n"
proof -
  have "length (padded b (Suc k) m) = length (padded b (Suc k) n)"
    using length_padded [OF assms(1,3)] length_padded [OF assms(1,4)] by (rule trans [OF _ sym])
  from codes_compare_digits [OF assms(1,2) padded_set [OF assms(1)] padded_set [OF assms(1)] this]
  show ?thesis unfolding digits_value_padded [OF assms(1,2)] of_nat_less_iff .
qed

lemma padded_inject:
  assumes "2 \<le> b" "b \<le> 16"
  shows "padded b k m = padded b k n \<longleftrightarrow> m = n"
  by (metis digits_value_padded [OF assms] of_nat_eq_iff)

end
