(* ===== verification/JobState.thy ===== *)
theory JobState
  imports JobName
begin

section \<open>Ticket files, destinations and the state of a job (getqueue.c)\<close>

text \<open>
  The text of a job ticket file (\<open>Make_job_ticket_image\<close>, with \<open>Set_job_ticket_datafile_info\<close>) and
  its reading (\<open>Get_job_ticket_file\<close>), the destinations of a routed job, which are kept escaped in
  the job information (\<open>Update_destination\<close>, \<open>Get_destination\<close>), and the decision whether a job can
  be printed (\<open>Job_printable\<close>).
  The lemmas show that what is written is read back, and what makes a job printable.
\<close>

subsection \<open>Reading and writing the ticket\<close>

definition starts_with :: "cstr \<Rightarrow> cstr \<Rightarrow> bool" where
  "starts_with p s \<longleftrightarrow> take (length p) s = p"

definition ticket_line :: "cstr \<Rightarrow> bool" where
  "ticket_line s \<longleftrightarrow> \<not> starts_with ''openname'' s \<and> \<not> starts_with ''otransfername'' s"

definition add_datalines :: "cstr option \<Rightarrow> line_list \<Rightarrow> cstr option" where
  "add_datalines dataline lp =
     foldl (\<lambda>d s. if ticket_line s then Some (safeextend3 d (Some s) (Some [CHR 0x02])) else d)
       dataline lp"

definition add_datafile :: "cstr option \<Rightarrow> line_list \<Rightarrow> line_list \<Rightarrow> cstr option \<times> line_list" where
  "add_datafile files dups lp =
     (let t = Find_str_value lp OPENNAME in
      case Find_str_value lp DFTRANSFERNAME of
        Some (c # s) \<Rightarrow>
          if Find_flag_value dups (c # s) = 0 then
            (Some (case t of
                     Some t' \<Rightarrow> safeextend5 files (Some (c # s)) (Some ''='') (Some t') (Some '' '')
                   | None \<Rightarrow> safeextend3 files (Some (c # s)) (Some '' '')),
             Set_flag_value dups (c # s) 1)
          else (files, dups)
      | _ \<Rightarrow> (files, dups))"

text \<open>
  The loop over the data files; the separator after the last line of a data file becomes
  \<open>\001\<close>. \<open>None\<close>: the call of \<open>strlen\<close> with a null pointer.
\<close>

fun datafile_loop ::
  "line_list list \<Rightarrow> cstr option \<Rightarrow> cstr option \<Rightarrow> line_list \<Rightarrow> (cstr option \<times> cstr option) option" where
  "datafile_loop [] dataline files dups = Some (dataline, files)"
| "datafile_loop (lp # lps) dataline files dups =
     (case add_datafile files dups lp of (files', dups') \<Rightarrow>
        (case add_datalines dataline lp of
           None \<Rightarrow> None
         | Some d \<Rightarrow> datafile_loop lps (Some (if d = [] then d else butlast d @ [CHR 0x01])) files' dups'))"

definition Set_job_ticket_datafile_info :: "job \<Rightarrow> job option" where
  "Set_job_ticket_datafile_info j =
     (case datafile_loop (datafiles j) None None [] of
        None \<Rightarrow> None
      | Some (dataline, files) \<Rightarrow>
          Some (j\<lparr>info := Set_str_value (Set_str_value (info j) HFDATAFILES dataline) DATAFILES files\<rparr>))"

definition image_line :: "cstr \<Rightarrow> bool" where
  "image_line s \<longleftrightarrow> s \<noteq> [] \<and> strpbrk s Line_ends = None
     \<and> safestrncasecmp (Some OPENNAME) (Some s) (length OPENNAME) \<noteq> 0"

definition Make_job_ticket_image :: "job \<Rightarrow> (job \<times> cstr option) option" where
  "Make_job_ticket_image j =
     (case Set_job_ticket_datafile_info j of
        None \<Rightarrow> None
      | Some j' \<Rightarrow>
          Some (j', foldl (\<lambda>out s. if image_line s then Some (safeextend3 out (Some s) (Some [CHR 0x0A]))
                                   else out) None (info j')))"

text \<open>Reading with the parameters of all ticket and control status files.\<close>

definition read_lines :: "line_list \<Rightarrow> cstr \<Rightarrow> line_list" where
  "read_lines l s = Split l s Line_ends True (Some Option_value_sep) True (CHR 0x01) True None"

definition read_datafile :: "cstr \<Rightarrow> line_list" where
  "read_datafile s = Split [] s [CHR 0x02] True (Some Option_value_sep) True (CHR 0x01) True None"

definition Get_fd_image_and_split_ticket :: "line_list \<Rightarrow> cstr option \<Rightarrow> line_list" where
  "Get_fd_image_and_split_ticket l img = (case img of None \<Rightarrow> l | Some s \<Rightarrow> read_lines l s)"

text \<open>\<open>img\<close> is what the locked ticket file holds; \<open>None\<close> when it is empty or cannot be opened.\<close>

definition Get_job_ticket_file :: "cstr option \<Rightarrow> job \<Rightarrow> job" where
  "Get_job_ticket_file img j =
     (let i = Get_fd_image_and_split_ticket (info j) img in
      if i = [] then j\<lparr>info := i\<rparr>
      else
        (let cf = (case Find_str_value i HFDATAFILES of
                     None \<Rightarrow> [] | Some s \<Rightarrow> Split [] s [CHR 0x01] False None False NUL False None)
         in j\<lparr>info := i, datafiles := map read_datafile cf\<rparr>))"

definition Get_spool_control :: "cstr option \<Rightarrow> line_list" where
  "Get_spool_control img = Get_fd_image_and_split_ticket [] img"

subsection \<open>Destinations\<close>

definition dest_key :: "int \<Rightarrow> cstr" where
  "dest_key n = plp_snprintf SMALLBUFFER ''DEST%d'' [AInt n]"

text \<open>
  \<open>Join_line_list\<close> of an empty list is a null pointer, and so is \<open>Escape\<close> of it. \<open>None\<close> when
  \<open>Escape\<close> leaves its buffer.
\<close>

definition Update_destination :: "job \<Rightarrow> job option" where
  "Update_destination j =
     (case Escape (Join_line_list (destination j) (Some [CHR 0x0A])) 1 of
        None \<Rightarrow> None
      | Some t \<Rightarrow>
          Some (j\<lparr>info := Set_str_value (info j)
                   (dest_key (Find_flag_value (destination j) DESTINATION)) t\<rparr>))"

definition read_destination :: "job \<Rightarrow> cstr option \<Rightarrow> job \<times> int" where
  "read_destination j value =
     (case value of
        None \<Rightarrow> (j\<lparr>destination := []\<rparr>, 1)
      | Some s \<Rightarrow> (j\<lparr>destination := read_lines [] (Unescape s)\<rparr>, 0))"

definition Get_destination :: "job \<Rightarrow> int \<Rightarrow> job \<times> int" where
  "Get_destination j n = read_destination j (Find_str_value (info j) (dest_key n))"

definition Get_destination_by_name :: "job \<Rightarrow> cstr option \<Rightarrow> job \<times> int" where
  "Get_destination_by_name j name =
     read_destination j (case name of None \<Rightarrow> None | Some n \<Rightarrow> Find_str_value (info j) n)"

subsection \<open>Job\_printable\<close>

record pstate =
  ptext :: cstr
  printable :: int
  held :: int
  moved :: int
  perror :: int
  pdone :: int

definition no_state :: pstate where
  "no_state = \<lparr>ptext = [], printable = 0, held = 0, moved = 0, perror = 0, pdone = 0\<rparr>"

text \<open>The text for a job whose server is alive.\<close>

definition active_text :: "job_env \<Rightarrow> line_list \<Rightarrow> int \<Rightarrow> cstr" where
  "active_text env l last_change =
     (let delta = to_int (now env - last_change); n = Find_flag_value l ATTEMPT in
      if Stalled_time env \<noteq> 0 \<and> Stalled_time env < delta
      then plp_snprintf SMALLBUFFER ''stalled(%dsec)'' [AInt delta]
      else if 0 < n then plp_snprintf SMALLBUFFER ''active(attempt-%d)'' [AInt (n + 1)]
      else ''active'')"

text \<open>\<open>kill(n, 0) == 0\<close> for the process id under the key \<open>SERVER\<close>.\<close>

definition server_alive :: "job_env \<Rightarrow> line_list \<Rightarrow> bool" where
  "server_alive env l = (Find_flag_value l SERVER \<noteq> 0 \<and> pid_alive env (Find_flag_value l SERVER))"

definition newer :: "int \<Rightarrow> int option \<Rightarrow> int" where
  "newer t m = (case m of None \<Rightarrow> t | Some m' \<Rightarrow> if t < m' then m' else t)"

definition info_state :: "job_env \<Rightarrow> line_list \<Rightarrow> line_list \<Rightarrow> pstate option" where
  "info_state env i sc =
     (if i = [] then Some (no_state\<lparr>ptext := ''removed''\<rparr>)
      else if Find_flag_value i INCOMING_TIME \<noteq> 0 then
        (let pid = Find_flag_value i INCOMING_PID in
         Some (no_state\<lparr>ptext := if pid = 0 \<or> \<not> pid_alive env pid then ''incoming (orphan)'' else ''incoming''\<rparr>))
      else if Find_flag_value i ERROR_TIME \<noteq> 0 then
        Some (no_state\<lparr>ptext := ''error'', perror := Find_flag_value i ERROR_TIME\<rparr>)
      else if Find_flag_value i HOLD_TIME \<noteq> 0 then Some (no_state\<lparr>ptext := ''hold'', held := 1\<rparr>)
      else if Find_flag_value i DONE_TIME \<noteq> 0 then
        Some (no_state\<lparr>ptext := ''done'', pdone := Find_flag_value i DONE_TIME\<rparr>)
      else if server_alive env i then
        Some (no_state\<lparr>ptext := active_text env i
                  (newer (newer (Find_flag_value i START_TIME) (status_mtime env)) (log_mtime env)),
                printable := 1\<rparr>)
      else
        (case Find_str_value i MOVE of
           Some s \<Rightarrow> Some (no_state\<lparr>ptext := plp_snprintf SMALLBUFFER ''moved->%s'' [AStr (Some s)], moved := 1\<rparr>)
         | None \<Rightarrow>
             (case Get_hold_class i sc of
                None \<Rightarrow> None
              | Some h \<Rightarrow> if h \<noteq> 0 then Some (no_state\<lparr>ptext := ''holdclass'', held := 1\<rparr>)
                          else Some (no_state\<lparr>printable := 1\<rparr>))))"

text \<open>The state of one destination adds to the counts of those before it.\<close>

definition dest_state :: "job_env \<Rightarrow> line_list \<Rightarrow> line_list \<Rightarrow> pstate \<Rightarrow> (cstr \<times> pstate) option" where
  "dest_state env d sc st =
     (if Find_flag_value d ERROR_TIME \<noteq> 0 then Some (''error'', st)
      else if Find_flag_value d HOLD_TIME \<noteq> 0 then Some (''hold'', st\<lparr>held := held st + 1\<rparr>)
      else if Find_flag_value d DONE_TIME \<noteq> 0 then Some (''done'', st)
      else if server_alive env d then
        Some (active_text env d (Find_flag_value d START_TIME), st\<lparr>printable := printable st + 1\<rparr>)
      else
        (case Find_str_value d MOVE of
           Some s \<Rightarrow> Some (plp_snprintf SMALLBUFFER ''moved->%s'' [AStr (Some s)], st\<lparr>moved := moved st + 1\<rparr>)
         | None \<Rightarrow>
             (case Get_hold_class d sc of
                None \<Rightarrow> None
              | Some h \<Rightarrow> if h \<noteq> 0 then Some (''holdclass'', st\<lparr>held := held st + 1\<rparr>)
                          else Some ([], st\<lparr>printable := printable st + 1\<rparr>))))"

definition dest_step :: "job_env \<Rightarrow> line_list \<Rightarrow> int \<Rightarrow> job \<times> pstate \<Rightarrow> (job \<times> pstate) option" where
  "dest_step env sc n js =
     (case js of (j, st) \<Rightarrow>
        (let j1 = fst (Get_destination j n) in
         case dest_state env (destination j1) sc st of
           None \<Rightarrow> None
         | Some (txt, st') \<Rightarrow>
             (let d1 = Set_str_value (destination j1) PRSTATUS (Some txt);
                  d2 = Set_flag_value d1 PRINTABLE (printable st');
                  d3 = Set_flag_value d2 HELD (held st')
              in map_option (\<lambda>j2. (j2, st')) (Update_destination (j1\<lparr>destination := d3\<rparr>)))))"

fun dest_loop :: "job_env \<Rightarrow> line_list \<Rightarrow> int list \<Rightarrow> job \<times> pstate \<Rightarrow> (job \<times> pstate) option" where
  "dest_loop env sc [] js = Some js"
| "dest_loop env sc (n # ns) js =
     (case dest_step env sc n js of None \<Rightarrow> None | Some js' \<Rightarrow> dest_loop env sc ns js')"

definition Job_printable :: "job_env \<Rightarrow> job \<Rightarrow> line_list \<Rightarrow> (job \<times> pstate) option" where
  "Job_printable env j sc =
     (case info_state env (info j) sc of
        None \<Rightarrow> None
      | Some st \<Rightarrow>
          (let n = Find_flag_value (info j) DESTINATIONS in
           case (if n \<noteq> 0 then dest_loop env sc (map int [0..<nat n]) (j, st\<lparr>printable := 0\<rparr>) else Some (j, st)) of
             None \<Rightarrow> None
           | Some (j1, st1) \<Rightarrow>
               (let i1 = Set_str_value (info j1) PRSTATUS (Some (ptext st));
                    i2 = Set_flag_value i1 PRINTABLE (printable st1);
                    i3 = Set_flag_value i2 HELD (held st1)
                in Some (j1\<lparr>info := i3\<rparr>, st1))))"

subsection \<open>Lock files with a process id, and status files\<close>

definition LINEBUFFER :: nat where "LINEBUFFER = 180"
definition LARGEBUFFER :: nat where "LARGEBUFFER = 10240"

text \<open>\<open>Read_pid\<close> and \<open>Write_pid\<close> work on the bytes of the file.\<close>

definition Read_pid :: "char list \<Rightarrow> int" where
  "Read_pid content = to_int (fst (strtol (buf_str (take (LINEBUFFER - 1) content @ [NUL])) 10))"

definition Write_pid :: "int \<Rightarrow> cstr option \<Rightarrow> char list" where
  "Write_pid pid str =
     (case str of
        None \<Rightarrow> plp_snprintf (int LINEBUFFER) (''%d'' @ [CHR 0x0A]) [AInt pid]
      | Some s \<Rightarrow> plp_snprintf (int LINEBUFFER) (''%s'' @ [CHR 0x0A]) [AStr (Some s)])"

definition Read_pid_from_file :: "char list option \<Rightarrow> int" where
  "Read_pid_from_file content = (case content of None \<Rightarrow> -1 | Some c \<Rightarrow> Read_pid c)"

text \<open>The contents of the lock file, \<open>None\<close> when it cannot be read.\<close>

definition Server_active :: "job_env \<Rightarrow> char list option \<Rightarrow> int" where
  "Server_active env content =
     (case content of
        None \<Rightarrow> 0
      | Some c \<Rightarrow> if 0 < Read_pid c \<and> \<not> pid_alive env (Read_pid c) then 0 else Read_pid c)"

text \<open>
  \<open>Trim_status_file\<close>: the loop that looks for the first newline, a buffer at a time; what is left of
  the buffer is written as a string, so up to a NUL.
\<close>

function skip_to_newline :: "char list \<Rightarrow> char list" where
  "skip_to_newline content =
     (if content = [] then []
      else
        (let chunk = buf_str (take (LARGEBUFFER - 1) content @ [NUL]) in
         case strchr chunk (CHR 0x0A) of
           Some s \<Rightarrow> tl s @ drop (LARGEBUFFER - 1) content
         | None \<Rightarrow> skip_to_newline (drop (LARGEBUFFER - 1) content)))"
  by pat_completeness auto
termination
  by (relation "measure length") (auto simp: LARGEBUFFER_def)

declare skip_to_newline.simps [simp del]

definition trim_min :: "int \<Rightarrow> int \<Rightarrow> int" where
  "trim_min mx mn =
     (let m = (if mn > mx \<or> mn = 0 then mx div 4 else mn) in if m = 0 then 1 else m)"

text \<open>\<open>lseek\<close> to a place before the beginning of the file fails and leaves it at the
  beginning. (\<open>min\<close> is taken small enough for \<open>min * 1024\<close> to be an \<open>int\<close>.)\<close>

definition trim_start :: "int \<Rightarrow> int \<Rightarrow> nat" where
  "trim_start len mn = (if len - mn * 1024 < 0 then 0 else nat (len - mn * 1024))"

definition Trim_status_file :: "char list \<Rightarrow> int \<Rightarrow> int \<Rightarrow> char list" where
  "Trim_status_file content mx mn =
     (let len = int (length content) in
      if 0 < mx \<and> len div 1024 > mx
      then skip_to_newline (drop (trim_start len (trim_min mx mn)) content)
      else content)"


subsection \<open>Sorted lists are determined by their map\<close>

lemma ll_uniq_ext:
  assumes "ll_uniq code sep l" "ll_uniq code sep l'" "ll_map code sep l = ll_map code sep l'"
  shows "l = l'"
proof -
  have k: "sorted (lkeys code sep l)" "distinct (lkeys code sep l)"
    "sorted (lkeys code sep l')" "distinct (lkeys code sep l')"
    using assms(1,2) by (auto simp: ll_uniq_def ll_sorted_def)
  have "set (lkeys code sep l) = set (lkeys code sep l')"
    using assms(3) by (simp flip: dom_ll_map)
  with k have eq: "lkeys code sep l = lkeys code sep l'"
    by (simp add: sorted_distinct_set_unique)
  show ?thesis
  proof (rule nth_equalityI)
    show len: "length l = length l'" using arg_cong [OF eq, of length] by simp
    fix i assume i: "i < length l"
    then have "ll_map code sep l (code (key_of sep (l ! i))) = Some (l ! i)"
      "ll_map code sep l' (code (key_of sep (l' ! i))) = Some (l' ! i)"
      using ll_map_nth [OF k(2)] ll_map_nth [OF k(4)] len by auto
    moreover have "code (key_of sep (l ! i)) = code (key_of sep (l' ! i))"
      using arg_cong [OF eq, of "\<lambda>x. x ! i"] i len by simp
    ultimately show "l ! i = l' ! i" by (metis assms(3) option.inject)
  qed
qed

lemma ll_uniq_snoc:
  assumes "ll_uniq fold_codes sep (d @ [s])"
  shows "Add_line_list d s sep True True = d @ [s]"
proof -
  have k: "sorted (lkeys fold_codes sep (d @ [s]))" "distinct (lkeys fold_codes sep (d @ [s]))"
    "ll_ok (d @ [s])" using assms by (auto simp: ll_uniq_def ll_sorted_def)
  have d: "ll_uniq fold_codes sep d" and s: "cstr_ok s"
    using k by (auto simp: ll_uniq_def ll_sorted_def lkeys_def ll_ok_def sorted_append)
  from k(2) have new: "fold_codes (key_of sep s) \<notin> set (lkeys fold_codes sep d)"
    by (auto simp: lkeys_def)
  have "d @ [s] = insert_at (length d) s d" by (simp add: insert_at_def)
  then have m: "ll_map fold_codes sep (d @ [s]) = (ll_map fold_codes sep d)(fold_codes (key_of sep s) \<mapsto> s)"
    using ll_map_insert_at [OF new, of "length d"] by simp
  from nocase.place_uniq [OF d s]
  have "ll_uniq fold_codes sep (Add_line_list d s sep True True)"
    "ll_map fold_codes sep (Add_line_list d s sep True True) = ll_map fold_codes sep (d @ [s])"
    by (simp_all add: Add_line_list_def Find_last_key_def m)
  then show ?thesis by (rule ll_uniq_ext [OF _ assms])
qed

text \<open>A line that the trimming of \<open>Split\<close> and its comment test leave alone.\<close>

definition plain_line :: "cstr \<Rightarrow> cstr \<Rightarrow> bool" where
  "plain_line seps s \<longleftrightarrow> s \<noteq> [] \<and> set s \<inter> set seps = {} \<and> \<not> isspace (hd s) \<and> \<not> isspace (last s)
     \<and> hd s \<noteq> CHR ''#''"

lemma trim_plain: "plain_line seps s \<Longrightarrow> split_trim (CHR 0x01) s = s"
proof -
  assume p: "plain_line seps s"
  then have "dropWhile isspace s = s" by (cases s) (auto simp: plain_line_def)
  moreover have "trunc_str s = s"
    using p by (cases s rule: rev_cases) (auto simp: plain_line_def trunc_str_def)
  moreover have "\<not> isprint (CHR 0x01)" by (simp add: isprint_def ccode_def)
  ultimately show ?thesis by (simp add: split_trim_def)
qed

lemma split_scan_plain:
  "set s \<inter> set seps = {} \<Longrightarrow> c \<in> set seps \<Longrightarrow> split_scan seps None prev (s @ c # r) = (s, c # r)"
  by (induction s arbitrary: prev) (auto simp: opt_str_def)

text \<open>
  Lines that are sorted and unique, each ended by a separator, are read back by \<open>Split\<close>, trimmed.
\<close>

definition unlines :: "char \<Rightarrow> line_list \<Rightarrow> cstr" where
  "unlines c l = concat (map (\<lambda>s. s @ [c]) l)"

definition trimmable :: "cstr \<Rightarrow> cstr \<Rightarrow> bool" where
  "trimmable seps s \<longleftrightarrow> split_trim (CHR 0x01) s \<noteq> [] \<and> set s \<inter> set seps = {} \<and> \<not> isspace (hd s)
     \<and> hd s \<noteq> CHR ''#'' \<and> key_of (Some Option_value_sep) (split_trim (CHR 0x01) s) = key_of (Some Option_value_sep) s"

lemma plain_trimmable: "plain_line seps s \<Longrightarrow> trimmable seps s"
  by (simp add: trimmable_def trim_plain) (simp add: plain_line_def)

lemma ll_uniq_app1: "ll_uniq code sep (d @ l) \<Longrightarrow> ll_uniq code sep d"
  by (auto simp: ll_uniq_def ll_sorted_def lkeys_def ll_ok_def sorted_append)

lemma trim_head: "trimmable seps s \<Longrightarrow> take 1 (split_trim (CHR 0x01) s @ r) \<noteq> ''#''"
proof -
  assume t: "trimmable seps s"
  then obtain c cs where s: "s = c # cs" "\<not> isspace c" "c \<noteq> CHR ''#''"
    by (cases s) (auto simp: trimmable_def split_trim_def trunc_str_def)
  have "\<not> isprint (CHR 0x01)" by (simp add: isprint_def ccode_def)
  then have tr: "split_trim (CHR 0x01) s = trunc_str s" using s by (simp add: split_trim_def)
  have "\<exists>u. trunc_str s @ u = s" for s :: cstr
  proof -
    have "rev s = takeWhile isspace (rev s) @ dropWhile isspace (rev s)" by simp
    from arg_cong [OF this, of rev] have "s = trunc_str s @ rev (takeWhile isspace (rev s))"
      by (simp add: trunc_str_def del: takeWhile_dropWhile_id)
    then show ?thesis by metis
  qed
  then obtain u where "trunc_str s @ u = c # cs" using s(1) by metis
  moreover have "trunc_str s \<noteq> []" using t tr by (simp add: trimmable_def)
  ultimately have "\<exists>v. trunc_str s = c # v" by (cases "trunc_str s") auto
  with tr s show ?thesis by auto
qed

lemma Split_unlines_rest:
  assumes "c \<in> set seps" "\<forall>s\<in>set l. trimmable seps s"
    and "ll_uniq fold_codes (Some Option_value_sep) (d @ map (split_trim (CHR 0x01)) l)"
  shows "Split d (unlines c l @ r) seps True (Some Option_value_sep) True (CHR 0x01) True None =
    Split (d @ map (split_trim (CHR 0x01)) l) r seps True (Some Option_value_sep) True (CHR 0x01) True None"
  using assms(2,3)
proof (induction l arbitrary: d)
  case Nil
  then show ?case by (simp add: unlines_def)
next
  case (Cons s l)
  let ?t = "split_trim (CHR 0x01) s"
  have u: "ll_uniq fold_codes (Some Option_value_sep) ((d @ [?t]) @ map (split_trim (CHR 0x01)) l)"
    using Cons.prems by simp
  then have a: "Add_line_list d ?t (Some Option_value_sep) True True = d @ [?t]"
    using ll_uniq_snoc [OF ll_uniq_app1] by blast
  have p: "trimmable seps s" using Cons.prems by simp
  have "split_scan seps None None (unlines c (s # l) @ r) = (s, c # unlines c l @ r)"
    using split_scan_plain [of s seps c None "unlines c l @ r"] p assms(1) by (simp add: unlines_def trimmable_def)
  then have "Split d (unlines c (s # l) @ r) seps True (Some Option_value_sep) True (CHR 0x01) True None =
      Split (d @ [?t]) (unlines c l @ r) seps True (Some Option_value_sep) True (CHR 0x01) True None"
    using a trim_head [OF p] p by (subst Split.simps) (simp add: unlines_def NUL_def trimmable_def)
  with Cons.IH [OF _ u] Cons.prems show ?case by simp
qed

lemma map_trim_plain: "\<forall>s\<in>set l. plain_line seps s \<Longrightarrow> map (split_trim (CHR 0x01)) l = l"
  by (induction l) (auto simp: trim_plain)

lemma Split_unlines:
  assumes "c \<in> set seps" "\<forall>s\<in>set l. plain_line seps s"
    and "ll_uniq fold_codes (Some Option_value_sep) (d @ l)"
  shows "Split d (unlines c l) seps True (Some Option_value_sep) True (CHR 0x01) True None = d @ l"
  using Split_unlines_rest [OF assms(1), of l d "[]"] assms(2,3) plain_trimmable map_trim_plain [OF assms(2)]
  by (simp add: Split.simps)

text \<open>The same when the last separator is missing.\<close>

lemma Split_butlast:
  assumes "c \<in> set seps" "\<forall>s\<in>set l. plain_line seps s" "l \<noteq> []"
    and "ll_uniq fold_codes (Some Option_value_sep) l"
  shows "Split [] (butlast (unlines c l)) seps True (Some Option_value_sep) True (CHR 0x01) True None = l"
proof -
  obtain k s where l: "l = k @ [s]" using assms(3) by (cases l rule: rev_cases) auto
  have b: "butlast (unlines c l) = unlines c k @ s" by (simp add: l unlines_def butlast_append)
  have p: "plain_line seps s" "\<forall>s\<in>set k. plain_line seps s" using assms(2) by (simp_all add: l)
  have k: "ll_uniq fold_codes (Some Option_value_sep) k" using assms(4) unfolding l by (rule ll_uniq_app1)
  have sc: "split_scan seps None None s = (s, [])"
  proof -
    have "set t \<inter> set seps = {} \<Longrightarrow> split_scan seps None prev t = (t, [])" for t prev
      by (induction t arbitrary: prev) (auto simp: opt_str_def)
    then show ?thesis using p(1) by (simp add: plain_line_def)
  qed
  have "Split k s seps True (Some Option_value_sep) True (CHR 0x01) True None = k @ [s]"
    using sc p(1) trim_plain [OF p(1)] trim_head [OF plain_trimmable [OF p(1)], of "[]"]
      ll_uniq_snoc [of "Some Option_value_sep" k s] assms(4)
    by (subst Split.simps) (simp add: l plain_line_def NUL_def)
  then show ?thesis
    using Split_unlines_rest [OF assms(1), of k "[]" s] p(2) k plain_trimmable map_trim_plain [OF p(2)]
    unfolding b by (simp add: l)
qed

subsection \<open>Destinations are read back\<close>

lemma dest_key_text:
  assumes "0 \<le> n" "n \<le> INT_MAX"
  shows "dest_key n = ''DEST'' @ nat_digits 10 (nat n)"
proof -
  have t: "dopr_text (\<lambda>_ _. []) [] True ''DEST%d'' [AInt n :: unit fmt_arg] = Some (''DEST'' @ dec_text n)"
    using assms by (simp add: fmt_eval fmtnum_dec INT_MAX_def)
  have "length (dec_text n) \<le> 11" using assms by (intro length_dec_text) (auto simp: INT_MIN_def)
  then show ?thesis
    using snprintf_text [OF t, of SMALLBUFFER] assms cstr_ok_dec_text [of n]
    by (simp add: dest_key_def SMALLBUFFER_def NUL_def dec_text_def)
qed

lemma dest_key_ok: "0 \<le> n \<Longrightarrow> n \<le> INT_MAX \<Longrightarrow> key_ok (dest_key n)"
proof -
  assume n: "0 \<le> n" "n \<le> INT_MAX"
  have "isdigit c" if c: "c \<in> set (nat_digits 10 (nat n))" for c
    using nat_digits_char [OF _ _ c] by (auto simp: isdigit_def ccode_digit_char)
  moreover have "\<not> isdigit c" if "c \<in> set Option_value_sep" for c
    using that by (auto simp: Option_value_sep_def isdigit_def ccode_def)
  ultimately have "set (nat_digits 10 (nat n)) \<inter> set Option_value_sep = {}" by blast
  then show ?thesis unfolding dest_key_text [OF n]
    by (auto simp: key_ok_def cstr_ok_nat_digits NUL_def Option_value_sep_def)
qed

lemma Join_unlines:
  "l \<noteq> [] \<Longrightarrow> \<forall>s\<in>set l. s \<noteq> [] \<Longrightarrow> Join_line_list l (Some [c]) = Some (unlines c l)"
  by (auto simp: Join_line_list_def unlines_def opt_str_def intro!: arg_cong [where f = concat])

lemma unlines_ok: "c \<noteq> NUL \<Longrightarrow> \<forall>s\<in>set l. cstr_ok s \<Longrightarrow> cstr_ok (unlines c l)"
  by (auto simp: unlines_def cstr_ok_def)

lemma newline_end: "CHR 0x0A \<in> set Line_ends" "CHR 0x0A \<noteq> NUL"
  by (simp_all add: Line_ends_def NUL_def)

lemma update_get:
  assumes "kv_inv (info j)" "ll_uniq fold_codes (Some Option_value_sep) d"
    and "\<forall>s\<in>set d. plain_line Line_ends s" "d \<noteq> []" "destination j = d"
    and "0 \<le> Find_flag_value d DESTINATION"
  shows "\<exists>j'. Update_destination j = Some j' \<and> kv_inv (info j')
    \<and> Get_destination j' (Find_flag_value d DESTINATION) = (j', 0)
    \<and> (\<forall>k. key_ok k \<longrightarrow> fold_codes k \<noteq> fold_codes (dest_key (Find_flag_value d DESTINATION)) \<longrightarrow>
         Find_str_value (info j') k = Find_str_value (info j) k)"
proof -
  let ?n = "Find_flag_value d DESTINATION"
  have n: "?n \<le> INT_MAX" using to_int_range by (auto simp: Find_flag_value_def Let_def INT_MAX_def split: prod.split)
  note k = dest_key_ok [OF assms(6) n]
  have ne: "\<forall>s\<in>set d. s \<noteq> []" using assms(3) by (auto simp: plain_line_def)
  have ok: "\<forall>s\<in>set d. cstr_ok s" using assms(2) by (auto simp: ll_uniq_def ll_sorted_def ll_ok_def)
  have "cstr_ok (unlines CHR 0x0A d)" using unlines_ok [OF newline_end(2) ok] .
  moreover have "unlines CHR 0x0A d \<noteq> []" using assms(4) by (cases d) (simp_all add: unlines_def)
  ultimately obtain t where t: "Escape (Some (unlines CHR 0x0A d)) 1 = Some (Some t)"
    "Unescape t = unlines CHR 0x0A d" "cstr_ok t" "t \<noteq> []" using Escape_one by blast
  let ?j = "j\<lparr>info := Set_str_value (info j) (dest_key ?n) (Some t)\<rparr>"
  have u: "Update_destination j = Some ?j"
    using Join_unlines [OF assms(4) ne, of "CHR 0x0A"] t(1) assms(5) by (simp add: Update_destination_def)
  have v: "val_ok (Some t)" "norm_val (Some t) = Some t" using t(3,4) by (simp, cases t, auto)
  note g = kv.get_put [OF assms(1) k v(1)] kv.put_inv [OF assms(1) k v(1)]
  have "read_lines [] (unlines CHR 0x0A d) = d"
    using Split_unlines [OF newline_end(1) assms(3), of "[]"] assms(2) by (simp add: read_lines_def)
  then have "Get_destination ?j ?n = (?j, 0)"
    using g(1) [OF k] v(2) t(2) assms(5) by (simp add: Get_destination_def read_destination_def)
  with u g show ?thesis by auto
qed


subsection \<open>Ticket files are read back\<close>

lemma add_datalines_text:
  "add_datalines dl lp =
     (if filter ticket_line lp = [] then dl else Some (opt_str dl @ unlines (CHR 0x02) (filter ticket_line lp)))"
proof (induction lp arbitrary: dl)
  case (Cons s lp)
  have step: "add_datalines dl (s # lp) =
      add_datalines (if ticket_line s then Some (opt_str dl @ s @ [CHR 0x02]) else dl) lp"
    by (simp add: add_datalines_def safeextend3_def)
  show ?case unfolding step Cons.IH by (auto simp: unlines_def)
qed (simp add: add_datalines_def)

definition piece :: "line_list \<Rightarrow> cstr" where
  "piece lp = butlast (unlines (CHR 0x02) (filter ticket_line lp))"

lemma add_datafile_ok:
  assumes "kv_inv lp" "val_ok files"
  shows "val_ok (fst (add_datafile files dups lp))"
proof -
  have k: "cstr_ok OPENNAME" "cstr_ok DFTRANSFERNAME" by code_simp+
  show ?thesis
    using assms(2) Find_str_value_val_ok [OF assms(1) k(1)] Find_str_value_val_ok [OF assms(1) k(2)]
    by (cases files) (auto simp: add_datafile_def safeextend5_def safeextend3_def cstr_ok_def NUL_def
        split: option.splits list.splits)
qed

lemma datafile_loop_text:
  assumes "\<forall>lp\<in>set lps. filter ticket_line lp \<noteq> [] \<and> kv_inv lp" "val_ok files"
  shows "\<exists>files'. val_ok files' \<and> datafile_loop lps dl files dups =
    Some (if lps = [] then dl else Some (opt_str dl @ unlines (CHR 0x01) (map piece lps)), files')"
  using assms
proof (induction lps arbitrary: dl files dups)
  case (Cons lp lps)
  let ?k = "filter ticket_line lp"
  have ne: "?k \<noteq> []" and kv: "kv_inv lp" using Cons.prems by auto
  obtain files1 dups1 where f: "add_datafile files dups lp = (files1, dups1)" by fastforce
  with add_datafile_ok [OF kv Cons.prems(2), of dups] have ok: "val_ok files1" by simp
  obtain s k where k: "?k = k @ [s]" using ne by (cases ?k rule: rev_cases) auto
  have b: "butlast (opt_str dl @ unlines (CHR 0x02) ?k) @ [CHR 0x01] = opt_str dl @ piece lp @ [CHR 0x01]"
    by (simp add: piece_def k unlines_def butlast_append)
  have "opt_str dl @ unlines (CHR 0x02) ?k \<noteq> []" by (simp add: k unlines_def)
  then have "datafile_loop (lp # lps) dl files dups =
      datafile_loop lps (Some (opt_str dl @ piece lp @ [CHR 0x01])) files1 dups1"
    using ne f b by (auto simp: add_datalines_text simp del: butlast_append)
  with Cons.IH [OF _ ok, of "Some (opt_str dl @ piece lp @ [CHR 0x01])" dups1] Cons.prems(1)
  show ?case by (auto simp: unlines_def)
qed simp

lemma Split_pieces:
  assumes "\<forall>p\<in>set ps. c \<notin> set p"
  shows "Split d (unlines c ps) [c] False None False NUL False None = d @ ps"
  using assms
proof (induction ps arbitrary: d)
  case (Cons p ps)
  have "split_scan [c] None None (unlines c (p # ps)) = (p, c # unlines c ps)"
    using split_scan_plain [of p "[c]" c None "unlines c ps"] Cons.prems by (simp add: unlines_def)
  then have "Split d (unlines c (p # ps)) [c] False None False NUL False None =
      Split (d @ [p]) (unlines c ps) [c] False None False NUL False None"
    by (subst Split.simps) (simp add: unlines_def Add_line_list_def)
  with Cons.IH Cons.prems show ?case by simp
qed (simp add: unlines_def Split.simps)

text \<open>A data file list that a ticket can carry.\<close>

definition ticket_file_ok :: "line_list \<Rightarrow> bool" where
  "ticket_file_ok lp \<longleftrightarrow> kv_inv lp \<and> filter ticket_line lp \<noteq> []
     \<and> (\<forall>s\<in>set lp. plain_line [CHR 0x02] s \<and> set s \<inter> {CHR 0x01, CHR 0x0A, CHR 0x0C, CHR 0x04, CHR 0x14} = {})"

lemma ll_uniq_filter: "ll_uniq code sep l \<Longrightarrow> ll_uniq code sep (filter P l)"
proof (induction l)
  case (Cons s l)
  then have "ll_uniq code sep (filter P l)"
    by (auto simp: ll_uniq_def ll_sorted_def ll_ok_def lkeys_def)
  moreover have "set (lkeys code sep (filter P l)) \<subseteq> set (lkeys code sep l)" by (auto simp: lkeys_def)
  ultimately show ?case using Cons.prems
    by (auto simp: ll_uniq_def ll_sorted_def ll_ok_def lkeys_def)
qed simp

lemma read_piece:
  assumes "ticket_file_ok lp"
  shows "read_datafile (piece lp) = filter ticket_line lp"
proof -
  have "ll_uniq fold_codes (Some Option_value_sep) lp"
    using assms kv_inv_option_sep(1) by (simp add: ticket_file_ok_def)
  then have u: "ll_uniq fold_codes (Some Option_value_sep) (filter ticket_line lp)" by (rule ll_uniq_filter)
  have p: "\<forall>s\<in>set (filter ticket_line lp). plain_line [CHR 0x02] s" and ne: "filter ticket_line lp \<noteq> []"
    using assms by (auto simp: ticket_file_ok_def)
  show ?thesis unfolding read_datafile_def piece_def by (rule Split_butlast [OF _ p ne u]) simp
qed

lemma piece_chars:
  assumes "ticket_file_ok lp"
  shows "set (piece lp) \<inter> {CHR 0x01, CHR 0x0A, CHR 0x0C, CHR 0x04, CHR 0x14, NUL} = {}"
proof -
  have "set (piece lp) \<subseteq> set (unlines (CHR 0x02) (filter ticket_line lp))"
    unfolding piece_def by (auto dest: in_set_butlastD)
  moreover have "set (unlines (CHR 0x02) (filter ticket_line lp)) \<inter> {CHR 0x01, CHR 0x0A, CHR 0x0C, CHR 0x04, CHR 0x14, NUL} = {}"
    using assms
    by (auto simp: unlines_def ticket_file_ok_def kv_inv_def ll_uniq_def ll_sorted_def ll_ok_def cstr_ok_def NUL_def)
  ultimately show ?thesis by blast
qed


lemma Find_str_value_opt:
  assumes "ll_uniq fold_codes (Some Option_value_sep) l" "cstr_ok k"
  shows "Find_str_value l k = kv_value Option_value_sep (ll_map fold_codes (Some Option_value_sep) l (fold_codes k))"
proof -
  obtain c m where r: "Find_first_key l k (Some Option_value_sep) = (c, m)" by fastforce
  from nocase.find_first_map [OF assms, of c m] r show ?thesis
    by (auto simp: Find_str_value_def kv_value_def Find_first_key_def split: option.splits)
qed

lemma ll_map_mem:
  assumes "ll_uniq code sep l"
  shows "ll_map code sep l k = Some s \<longleftrightarrow> s \<in> set l \<and> code (key_of sep s) = k"
proof -
  have "distinct (map fst (map (\<lambda>s. (code (key_of sep s), s)) l))"
    using assms by (simp add: ll_uniq_def lkeys_def comp_def)
  from map_of_eq_Some_iff [OF this] show ?thesis unfolding ll_map_def by auto
qed

lemma mem_Set_str_value:
  assumes "kv_inv l" "key_ok k" "val_ok v" "s \<in> set (Set_str_value l k v)"
  shows "s \<in> set l \<or> (\<exists>w. norm_val v = Some w \<and> s = k @ CHR ''='' # w)"
proof -
  have u: "ll_uniq fold_codes (Some Hash_value_sep) l"
    "ll_uniq fold_codes (Some Hash_value_sep) (Set_str_value l k v)"
    using Set_str_value_kv [OF assms(1-3)] assms(1) by (auto simp: kv_inv_def)
  let ?c = "fold_codes (key_of (Some Hash_value_sep) s)"
  have "ll_map fold_codes (Some Hash_value_sep) (Set_str_value l k v) ?c = Some s"
    using ll_map_mem [OF u(2)] assms(4) by blast
  then show ?thesis
    using Set_str_value_kv [OF assms(1-3)] ll_map_mem [OF u(1)] by (auto split: if_splits)
qed

lemma Set_str_value_mem:
  assumes "kv_inv l" "key_ok k" "val_ok v" "norm_val v = Some w"
  shows "k @ CHR ''='' # w \<in> set (Set_str_value l k v)"
proof -
  have u: "ll_uniq fold_codes (Some Hash_value_sep) l"
    "ll_uniq fold_codes (Some Hash_value_sep) (Set_str_value l k v)"
    using Set_str_value_kv [OF assms(1-3)] assms(1) by (auto simp: kv_inv_def)
  have m: "ll_map fold_codes (Some Hash_value_sep) (Set_str_value l k v) =
      (ll_map fold_codes (Some Hash_value_sep) l)(fold_codes k \<mapsto> k @ CHR ''='' # w)"
    using Set_str_value_kv [OF assms(1-3)] assms(4) by simp
  show "k @ CHR ''='' # w \<in> set (Set_str_value l k v)"
    using ll_map_mem [OF u(2), of "fold_codes k" "k @ CHR ''='' # w"] m by simp
qed

lemma Set_str_value_keep:
  assumes "kv_inv l" "key_ok k" "val_ok v" "s \<in> set l"
    "fold_codes k \<noteq> fold_codes (key_of (Some Hash_value_sep) s)"
  shows "s \<in> set (Set_str_value l k v)"
proof -
  have u: "ll_uniq fold_codes (Some Hash_value_sep) l"
    "ll_uniq fold_codes (Some Hash_value_sep) (Set_str_value l k v)"
    using Set_str_value_kv [OF assms(1-3)] assms(1) by (auto simp: kv_inv_def)
  show ?thesis
    using ll_map_mem [OF u(2), of "fold_codes (key_of (Some Hash_value_sep) s)" s]
      ll_map_mem [OF u(1), of "fold_codes (key_of (Some Hash_value_sep) s)" s]
      Set_str_value_kv [OF assms(1-3)] assms(4,5) by simp
qed

lemma trunc_str_value: "trunc_str (k @ CHR ''='' # w) = k @ CHR ''='' # trunc_str w"
proof -
  have "\<not> isspace CHR ''=''" by (simp add: isspace_def ccode_def)
  then show ?thesis
    by (cases "\<forall>c\<in>set w. isspace c") (auto simp: trunc_str_def dropWhile_append)
qed

lemma value_trimmable:
  assumes "key_ok k" "k \<noteq> []" "\<not> isspace (hd k)" "hd k \<noteq> CHR ''#''"
    "set (k @ CHR ''='' # w) \<inter> set seps = {}"
  shows "trimmable seps (k @ CHR ''='' # w)"
    and "split_trim (CHR 0x01) (k @ CHR ''='' # w) = k @ CHR ''='' # trunc_str w"
proof -
  have "dropWhile isspace (k @ CHR ''='' # w) = k @ CHR ''='' # w" using assms(2,3) by (cases k) auto
  moreover have "\<not> isprint (CHR 0x01)" by (simp add: isprint_def ccode_def)
  ultimately show t: "split_trim (CHR 0x01) (k @ CHR ''='' # w) = k @ CHR ''='' # trunc_str w"
    by (simp add: split_trim_def trunc_str_value)
  show "trimmable seps (k @ CHR ''='' # w)"
    using assms key_of_line(2) [OF assms(1)] by (simp add: trimmable_def t)
qed

lemma trim_subset: "set (split_trim (CHR 0x01) s) \<subseteq> set s"
proof -
  have "set (trunc_str t) \<subseteq> set t" for t
    unfolding trunc_str_def set_rev by (metis set_dropWhileD set_rev subsetI)
  moreover have "set (dropWhile isspace s) \<subseteq> set s" by (meson set_dropWhileD subsetI)
  moreover have "\<not> isprint (CHR 0x01)" by (simp add: isprint_def ccode_def)
  ultimately show ?thesis by (auto simp: split_trim_def Let_def)
qed

lemma ll_uniq_trim:
  assumes "ll_uniq fold_codes (Some Option_value_sep) l" "\<forall>s\<in>set l. trimmable seps s"
  shows "ll_uniq fold_codes (Some Option_value_sep) (map (split_trim (CHR 0x01)) l)"
proof -
  have "lkeys fold_codes (Some Option_value_sep) (map (split_trim (CHR 0x01)) l)
      = lkeys fold_codes (Some Option_value_sep) l"
    using assms(2) by (auto simp: lkeys_def trimmable_def)
  moreover have "ll_ok (map (split_trim (CHR 0x01)) l)"
    using assms(1) trim_subset by (fastforce simp: ll_uniq_def ll_sorted_def ll_ok_def cstr_ok_def)
  ultimately show ?thesis using assms(1) by (simp add: ll_uniq_def ll_sorted_def)
qed


lemma ticket_keys:
  "key_ok HFDATAFILES" "key_ok DATAFILES" "HFDATAFILES \<noteq> []" "DATAFILES \<noteq> []"
  "\<not> isspace (hd HFDATAFILES)" "\<not> isspace (hd DATAFILES)"
  "hd HFDATAFILES \<noteq> CHR ''#''" "hd DATAFILES \<noteq> CHR ''#''"
  "fold_codes HFDATAFILES \<noteq> fold_codes DATAFILES"
  "set HFDATAFILES \<inter> set Line_ends = {}"
  "safestrncasecmp (Some OPENNAME) (Some (HFDATAFILES @ w)) (length OPENNAME) \<noteq> 0"
  by (simp_all add: HFDATAFILES_def DATAFILES_def OPENNAME_def Line_ends_def fold_codes_def key_ok_def
      cstr_ok_def NUL_def Option_value_sep_def isspace_def ccode_def tolower_def isupper_def
      safestrncasecmp_def)

lemma fold_image:
  "foldl (\<lambda>out s. if P s then Some (safeextend3 out (Some s) (Some [c])) else out) acc l =
     (if filter P l = [] then acc else Some (opt_str acc @ unlines c (filter P l)))"
proof (induction l arbitrary: acc)
  case (Cons s l)
  show ?case by (auto simp: Cons.IH unlines_def safeextend3_def)
qed simp

lemma image_kept:
  assumes "ll_uniq fold_codes (Some Option_value_sep) i" "\<forall>s\<in>set (filter image_line i). trimmable Line_ends s"
    and "HFDATAFILES @ CHR ''='' # dl \<in> set i" "set dl \<inter> set Line_ends = {}" "trunc_str dl = dl" "cstr_ok dl"
  shows "Find_str_value (read_lines [] (unlines (CHR 0x0A) (filter image_line i))) HFDATAFILES = Some dl"
proof -
  let ?h = "HFDATAFILES @ CHR ''='' # dl" and ?k = "filter image_line i"
  let ?l = "map (split_trim (CHR 0x01)) ?k"
  have u: "ll_uniq fold_codes (Some Option_value_sep) ?k" using assms(1) by (rule ll_uniq_filter)
  have ul: "ll_uniq fold_codes (Some Option_value_sep) ?l" using ll_uniq_trim [OF u assms(2)] .
  have r: "read_lines [] (unlines (CHR 0x0A) ?k) = ?l"
    using Split_unlines_rest [OF newline_end(1) assms(2), of "[]" "[]"] ul
    by (simp add: read_lines_def Split.simps)
  have "CHR ''='' \<notin> set Line_ends" by (simp add: Line_ends_def)
  with ticket_keys(10) assms(4) have s: "set ?h \<inter> set Line_ends = {}" by auto
  then have "?h \<in> set ?k"
    using assms(3) ticket_keys(11) [of "CHR ''='' # dl"] by (simp add: image_line_def strpbrk_None_iff)
  moreover have "split_trim (CHR 0x01) ?h = ?h"
    using value_trimmable(2) [OF ticket_keys(1,3,5,7) s] assms(5) by simp
  ultimately have "?h \<in> set ?l" by force
  then have "ll_map fold_codes (Some Option_value_sep) ?l (fold_codes HFDATAFILES) = Some ?h"
    using ll_map_mem [OF ul, of "fold_codes HFDATAFILES" ?h] key_of_line(2) [OF ticket_keys(1)] by simp
  then show ?thesis
    unfolding r using Find_str_value_opt [OF ul key_ok_cstr_ok [OF ticket_keys(1)]]
      key_of_line(3) [OF ticket_keys(1), of dl] by (simp add: kv_value_def after_equals_def)
qed

lemma ticket_read_back:
  assumes "kv_inv (info j)" "\<forall>lp\<in>set (datafiles j). ticket_file_ok lp" "datafiles j \<noteq> []"
    and "\<forall>s\<in>set (info j). image_line s \<longrightarrow> trimmable Line_ends s"
  shows "\<exists>j' img. Make_job_ticket_image j = Some (j', Some img)
    \<and> datafiles (Get_job_ticket_file (Some img) Init_job) = map (filter ticket_line) (datafiles j)"
proof -
  let ?dl = "unlines (CHR 0x01) (map piece (datafiles j))"
  have pre: "\<forall>lp\<in>set (datafiles j). filter ticket_line lp \<noteq> [] \<and> kv_inv lp"
    using assms(2) by (auto simp: ticket_file_ok_def)
  from datafile_loop_text [OF pre, of None None "[]"] assms(3)
  obtain files where f: "val_ok files" "datafile_loop (datafiles j) None None [] = Some (Some ?dl, files)"
    by auto
  let ?i1 = "Set_str_value (info j) HFDATAFILES (Some ?dl)"
  let ?i = "Set_str_value ?i1 DATAFILES files"
  have pc: "\<forall>p\<in>set (map piece (datafiles j)). set p \<inter> {CHR 0x01, CHR 0x0A, CHR 0x0C, CHR 0x04, CHR 0x14, NUL} = {}"
    using assms(2) piece_chars by simp
  then have dl: "set ?dl \<inter> set Line_ends = {}" "cstr_ok ?dl"
    by (auto simp: unlines_def Line_ends_def cstr_ok_def NUL_def)
  have dne: "?dl \<noteq> []" using assms(3) by (cases "datafiles j") (auto simp: unlines_def)
  then have ne: "norm_val (Some ?dl) = Some ?dl" by (cases ?dl) auto
  have tr: "trunc_str ?dl = ?dl"
  proof -
    obtain u where "?dl = u @ [CHR 0x01]" using assms(3)
      by (cases "datafiles j" rule: rev_cases) (auto simp: unlines_def)
    then show ?thesis by (simp add: trunc_str_def isspace_def ccode_def)
  qed
  have vd: "val_ok (Some ?dl)" using dl(2) by simp
  note i1 = kv.put_inv [OF assms(1) ticket_keys(1) vd]
  have i2: "kv_inv ?i" using kv.put_inv [OF i1 ticket_keys(2) f(1)] .
  let ?h = "HFDATAFILES @ CHR ''='' # ?dl"
  have "?h \<in> set ?i1" using Set_str_value_mem [OF assms(1) ticket_keys(1) vd ne] .
  then have h: "?h \<in> set ?i"
    using Set_str_value_keep [OF i1 ticket_keys(2) f(1)] key_of_line(1) [OF ticket_keys(1), of ?dl] ticket_keys(9)
    by fastforce
  have t: "\<forall>s\<in>set (filter image_line ?i). trimmable Line_ends s"
  proof
    fix s assume s: "s \<in> set (filter image_line ?i)"
    then have im: "image_line s" "set s \<inter> set Line_ends = {}"
      by (auto simp: image_line_def strpbrk_None_iff)
    from s have "s \<in> set ?i" by simp
    with mem_Set_str_value [OF i1 ticket_keys(2) f(1), of s]
      mem_Set_str_value [OF assms(1) ticket_keys(1) vd, of s]
    consider "s \<in> set (info j)" | w where "s = HFDATAFILES @ CHR ''='' # w" | w where "s = DATAFILES @ CHR ''='' # w"
      by metis
    then show "trimmable Line_ends s"
    proof cases
      case 1
      with assms(4) im show ?thesis by blast
    next
      case 2
      with value_trimmable(1) [OF ticket_keys(1,3,5,7)] im(2) show ?thesis by blast
    next
      case 3
      with value_trimmable(1) [OF ticket_keys(2,4,6,8)] im(2) show ?thesis by blast
    qed
  qed
  let ?img = "unlines (CHR 0x0A) (filter image_line ?i)"
  have u: "ll_uniq fold_codes (Some Option_value_sep) ?i" using kv_inv_option_sep(1) [OF i2] .
  note v = image_kept [OF u t h dl(1) tr dl(2)]
  have hk: "?h \<in> set (filter image_line ?i)"
    using h dl(1) ticket_keys(10) ticket_keys(11) [of "CHR ''='' # ?dl"]
    by (auto simp: image_line_def strpbrk_None_iff Line_ends_def)
  have nz: "read_lines [] ?img \<noteq> []"
  proof
    assume "read_lines [] ?img = []"
    moreover have "Find_str_value [] HFDATAFILES = None"
      using Find_str_value_opt [of "[]" HFDATAFILES] key_ok_cstr_ok [OF ticket_keys(1)]
      by (simp add: ll_uniq_def ll_sorted_def ll_ok_def lkeys_def ll_map_def kv_value_def)
    ultimately show False using v by simp
  qed
  have mk: "Make_job_ticket_image j = Some (j\<lparr>info := ?i\<rparr>, Some ?img)"
    using f(2) hk fold_image [of image_line "CHR 0x0A" None ?i]
    by (auto simp: Make_job_ticket_image_def Set_job_ticket_datafile_info_def filter_empty_conv)
  have sp: "Split [] ?dl [CHR 0x01] False None False NUL False None = map piece (datafiles j)"
    using Split_pieces [of "map piece (datafiles j)" "CHR 0x01" "[]"] pc by auto
  have "map read_datafile (map piece (datafiles j)) = map (filter ticket_line) (datafiles j)"
    using assms(2) read_piece by simp
  then have "datafiles (Get_job_ticket_file (Some ?img) Init_job) = map (filter ticket_line) (datafiles j)"
    using nz v sp by (simp add: Get_job_ticket_file_def Get_fd_image_and_split_ticket_def Init_job_def Let_def)
  with mk show ?thesis by blast
qed


subsection \<open>What makes a job printable\<close>

lemma state_keys [simp]:
  "flag_key PRINTABLE" "key_ok PRINTABLE" "key_ok HELD" "key_ok PRSTATUS"
  "fold_codes HELD \<noteq> fold_codes PRINTABLE"
  by (simp_all add: job_key_defs flag_key_def key_ok_def cstr_ok_def NUL_def Option_value_sep_def
      fold_codes_def tolower_def isupper_def ccode_def)
    (simp_all add: iscntrl_def ccode_def)

lemma cstr_ok_snprintf: "cstr_ok (plp_snprintf n f a)"
proof (cases "plp_vsnprintf (\<lambda>_ _. []) [] n f a")
  case (Some r)
  then show ?thesis
    by (cases r) (auto simp: plp_snprintf_def buf_str_def cstr_ok_def dest: set_takeWhileD)
qed (simp add: plp_snprintf_def)

lemma info_state_ok:
  assumes "info_state env i sc = Some st"
  shows "cstr_ok (ptext st) \<and> 0 \<le> printable st \<and> printable st \<le> 1 \<and> 0 \<le> held st \<and> held st \<le> 1"
proof -
  have a: "cstr_ok (active_text env l t)" for l t
    using cstr_ok_snprintf by (simp add: active_text_def Let_def NUL_def cstr_ok_def)
  show ?thesis
    using assms a cstr_ok_snprintf unfolding info_state_def Let_def
    by (auto simp: no_state_def NUL_def cstr_ok_def split: if_splits option.splits)
qed

definition may_print :: "job_env \<Rightarrow> line_list \<Rightarrow> int \<Rightarrow> bool" where
  "may_print env i h \<longleftrightarrow>
     i \<noteq> [] \<and> Find_flag_value i INCOMING_TIME = 0 \<and> Find_flag_value i ERROR_TIME = 0
     \<and> Find_flag_value i HOLD_TIME = 0 \<and> Find_flag_value i DONE_TIME = 0
     \<and> (server_alive env i \<or> Find_str_value i MOVE = None \<and> h = 0)"

lemma info_state_spec:
  assumes "Get_hold_class i sc = Some h"
  shows "\<exists>st. info_state env i sc = Some st \<and> (printable st = (if may_print env i h then 1 else 0))
    \<and> (held st \<noteq> 0 \<longrightarrow> printable st = 0)"
  using assms unfolding info_state_def may_print_def no_state_def Let_def
  by (auto split: option.split)

lemma Job_printable_single:
  assumes "kv_inv (info j)" "Find_flag_value (info j) DESTINATIONS = 0" "Get_hold_class (info j) sc = Some h"
  shows "\<exists>j' st. Job_printable env j sc = Some (j', st)
    \<and> printable st = (if may_print env (info j) h then 1 else 0) \<and> (held st \<noteq> 0 \<longrightarrow> printable st = 0)
    \<and> Find_flag_value (info j') PRINTABLE = printable st \<and> Find_flag_value (info j') HELD = held st
    \<and> datafiles j' = datafiles j \<and> kv_inv (info j')"
proof -
  from info_state_spec [OF assms(3), of env] obtain st where st: "info_state env (info j) sc = Some st"
    "printable st = (if may_print env (info j) h then 1 else 0)" "held st \<noteq> 0 \<longrightarrow> printable st = 0" by blast
  note ok = info_state_ok [OF st(1)]
  have v: "val_ok (Some (ptext st))" using ok by simp
  let ?i1 = "Set_str_value (info j) PRSTATUS (Some (ptext st))"
  let ?i2 = "Set_flag_value ?i1 PRINTABLE (printable st)"
  let ?i3 = "Set_flag_value ?i2 HELD (held st)"
  have i1: "kv_inv ?i1" using kv.put_inv [OF assms(1) _ v] by simp
  have b: "0 \<le> printable st" "printable st \<le> INT_MAX" "0 \<le> held st" "held st \<le> INT_MAX"
    using ok by (auto simp: INT_MAX_def)
  have i2: "kv_inv ?i2" using Set_flag_value_inv [OF i1] b by simp
  have i3: "kv_inv ?i3" using Set_flag_value_inv [OF i2] b by simp
  have "Find_flag_value ?i3 PRINTABLE = printable st" "Find_flag_value ?i3 HELD = held st"
    using Set_flag_value_get [OF i2] Set_flag_value_get [OF i1] b by simp_all
  with i3 st assms(2) show ?thesis by (simp add: Job_printable_def Let_def)
qed

lemma Escape_total: "\<exists>t. Escape s 1 = Some t"
  using Escape_fits [of 1] by (cases s) (auto simp: Escape_def Let_def)

lemma dest_step_held:
  assumes "fst (Get_destination j n) = j1" "kv_inv (destination j1)"
    "Find_flag_value (destination j1) ERROR_TIME = 0" "Find_flag_value (destination j1) HOLD_TIME \<noteq> 0"
    and b: "0 \<le> printable st" "printable st \<le> INT_MAX" "0 \<le> held st" "held st < INT_MAX"
  shows "\<exists>j'. dest_step env sc n (j, st) = Some (j', st\<lparr>held := held st + 1\<rparr>)
    \<and> Find_flag_value (destination j') PRINTABLE = printable st
    \<and> Find_flag_value (destination j') HELD = held st + 1"
proof -
  let ?d1 = "Set_str_value (destination j1) PRSTATUS (Some ''hold'')"
  let ?d2 = "Set_flag_value ?d1 PRINTABLE (printable st)"
  let ?d3 = "Set_flag_value ?d2 HELD (held st + 1)"
  have v: "val_ok (Some ''hold'')" by (simp add: cstr_ok_def NUL_def)
  have d1: "kv_inv ?d1" using kv.put_inv [OF assms(2) _ v] by simp
  have d2: "kv_inv ?d2" using Set_flag_value_inv [OF d1] b by simp
  have g: "Find_flag_value ?d3 PRINTABLE = printable st" "Find_flag_value ?d3 HELD = held st + 1"
    using Set_flag_value_get [OF d2] Set_flag_value_get [OF d1] b by simp_all
  obtain j2 where "Update_destination (j1\<lparr>destination := ?d3\<rparr>) = Some j2" "destination j2 = ?d3"
    using Escape_total [of "Join_line_list ?d3 (Some [CHR 0x0A])"] by (auto simp: Update_destination_def)
  with g assms(1,3,4) show ?thesis by (auto simp: dest_step_def dest_state_def Let_def)
qed

subsection \<open>Trimming a status file\<close>

lemma skip_newline_suffix:
  "NUL \<notin> set s \<Longrightarrow>
   skip_to_newline s = drop 1 (dropWhile (\<lambda>c. c \<noteq> CHR 0x0A) s)"
proof (induction s rule: skip_to_newline.induct)
  case (1 s)
  let ?n = "LARGEBUFFER - 1"
  have c: "buf_str (take ?n s @ [NUL]) = take ?n s"
    using 1(2) by (intro buf_str_hit) (auto simp: cstr_ok_def dest: in_set_takeD)
  have "NUL \<notin> set (drop ?n s)" using 1(2) by (auto dest: in_set_dropD)
  note nd = this
  have sp: "s = take ?n s @ drop ?n s" by simp
  show ?case
  proof (cases "CHR 0x0A \<in> set (take ?n s)")
    case True
    then have ne: "s \<noteq> []" by auto
    have "dropWhile (\<lambda>c. c \<noteq> CHR 0x0A) s = dropWhile (\<lambda>c. c \<noteq> CHR 0x0A) (take ?n s) @ drop ?n s"
      using True by (subst sp) (rule dropWhile_append1, auto)
    moreover have "dropWhile (\<lambda>c. c \<noteq> CHR 0x0A) (take ?n s) \<noteq> []" using True by (auto simp: dropWhile_eq_Nil_conv)
    ultimately have "drop 1 (dropWhile (\<lambda>c. c \<noteq> CHR 0x0A) s)
        = tl (dropWhile (\<lambda>c. c \<noteq> CHR 0x0A) (take ?n s)) @ drop ?n s"
      by (cases "dropWhile (\<lambda>c. c \<noteq> CHR 0x0A) (take ?n s)") auto
    then show ?thesis
      using strchr_dropWhile [OF True] ne c by (subst skip_to_newline.simps) simp
  next
    case False
    show ?thesis
    proof (cases "s = []")
      case ne: False
      have "dropWhile (\<lambda>c. c \<noteq> CHR 0x0A) s = dropWhile (\<lambda>c. c \<noteq> CHR 0x0A) (drop ?n s)"
        using False by (subst sp) (rule dropWhile_append2, auto)
      moreover have st: "strchr (take ?n s) (CHR 0x0A) = None"
        using False strchr_None_iff [of "CHR 0x0A"] by (simp add: NUL_def)
      moreover have "skip_to_newline s = skip_to_newline (drop ?n s)"
        using ne c st by (subst skip_to_newline.simps) simp
      moreover have "skip_to_newline (drop ?n s) = drop 1 (dropWhile (\<lambda>c. c \<noteq> CHR 0x0A) (drop ?n s))"
        using 1(1) [OF ne refl] c st nd by simp
      ultimately show ?thesis by simp
    qed (simp add: skip_to_newline.simps)
  qed
qed


lemma trim_suffix:
  assumes "NUL \<notin> set content" "0 < mx" "int (length content) div 1024 > mx" "0 \<le> mn"
  shows "\<exists>pre. content = pre @ Trim_status_file content mx mn
    \<and> (Trim_status_file content mx mn = [] \<or> last pre = CHR 0x0A)
    \<and> int (length (Trim_status_file content mx mn)) \<le> trim_min mx mn * 1024
    \<and> 1 \<le> trim_min mx mn \<and> trim_min mx mn \<le> mx"
proof -
  let ?m = "trim_min mx mn" and ?nl = "\<lambda>c. c \<noteq> CHR 0x0A"
  have m: "1 \<le> ?m" "?m \<le> mx" using assms(2,4) by (auto simp: trim_min_def Let_def)
  define k where "k = trim_start (int (length content)) ?m"
  let ?tail = "drop k content"
  have "NUL \<notin> set ?tail" using assms(1) by (auto dest: in_set_dropD)
  then have t: "Trim_status_file content mx mn = drop 1 (dropWhile ?nl ?tail)"
    using assms(2,3) skip_newline_suffix [of ?tail] by (simp add: Trim_status_file_def k_def)
  have "int (length content) - ?m * 1024 \<ge> 0"
  proof -
    have "mx * 1024 \<le> int (length content)" using assms(3) by linarith
    with m(2) show ?thesis by linarith
  qed
  then have len: "int (length ?tail) \<le> ?m * 1024" using m by (simp add: k_def trim_start_def)
  have "content = (take k content @ takeWhile ?nl ?tail @ take 1 (dropWhile ?nl ?tail))
      @ drop 1 (dropWhile ?nl ?tail)"
    by (metis append.assoc append_take_drop_id takeWhile_dropWhile_id)
  moreover have "drop 1 (dropWhile ?nl ?tail) = [] \<or>
      last (take k content @ takeWhile ?nl ?tail @ take 1 (dropWhile ?nl ?tail)) = CHR 0x0A"
  proof (cases "dropWhile ?nl ?tail")
    case (Cons c cs)
    then have "\<not> ?nl c" using hd_dropWhile [of ?nl ?tail] by (metis list.distinct(1) list.sel(1))
    then show ?thesis using Cons by simp
  next
    case Nil
    then show ?thesis by (simp only: drop_Nil simp_thms)
  qed
  moreover have "length (drop 1 (dropWhile ?nl ?tail)) \<le> length ?tail"
    using length_dropWhile_le_self [of ?nl ?tail] by simp
  ultimately show ?thesis using m len unfolding t by fastforce
qed

subsection \<open>The properties\<close>

text \<open>
  C16: the ticket file of a job is read back: for a job with data files whose lines hold none of the
  separators, the image that \<open>Make_job_ticket_image\<close> writes gives \<open>Get_job_ticket_file\<close> the same data
  files, without their \<open>openname\<close> and \<open>otransfername\<close> lines.
\<close>

theorem ticket_roundtrip:
  assumes "kv_inv (info j)" "\<forall>lp\<in>set (datafiles j). ticket_file_ok lp" "datafiles j \<noteq> []"
    and "\<forall>s\<in>set (info j). image_line s \<longrightarrow> trimmable Line_ends s"
  shows "\<exists>j' img. Make_job_ticket_image j = Some (j', Some img)
    \<and> datafiles (Get_job_ticket_file (Some img) Init_job) = map (filter ticket_line) (datafiles j)"
  using assms by (rule ticket_read_back)

definition demo_job :: job where
  "demo_job = Init_job\<lparr>info := [''C=A'', ''number=012''],
     datafiles := [[''copies=0x1'', ''dftransfername=dfA012h'', ''openname=/tmp/x''], [''dftransfername=dfB012h'']]\<rparr>"

lemma ticket_roundtrip_witness:
  "\<exists>j' img. Make_job_ticket_image demo_job = Some (j', Some img)
    \<and> datafiles (Get_job_ticket_file (Some img) Init_job)
      = [[''copies=0x1'', ''dftransfername=dfA012h''], [''dftransfername=dfB012h'']]"
proof -
  have k: "kv_inv (info demo_job)" "\<forall>lp\<in>set (datafiles demo_job). ticket_file_ok lp" "datafiles demo_job \<noteq> []"
    "\<forall>s\<in>set (info demo_job). image_line s \<longrightarrow> trimmable Line_ends s"
    "map (filter ticket_line) (datafiles demo_job) = [[''copies=0x1'', ''dftransfername=dfA012h''], [''dftransfername=dfB012h'']]"
    by code_simp+
  from ticket_roundtrip [OF k(1-4)] show ?thesis unfolding k(5) .
qed

text \<open>
  A destination that \<open>Update_destination\<close> has stored in the job is what \<open>Get_destination\<close> finds
  under its number, and the values of all other keys stay as they were.
\<close>

theorem destination_roundtrip:
  assumes "kv_inv (info j)" "ll_uniq fold_codes (Some Option_value_sep) d"
    and "\<forall>s\<in>set d. plain_line Line_ends s" "d \<noteq> []" "destination j = d"
    and "0 \<le> Find_flag_value d DESTINATION"
  shows "\<exists>j'. Update_destination j = Some j' \<and> kv_inv (info j')
    \<and> Get_destination j' (Find_flag_value d DESTINATION) = (j', 0)
    \<and> (\<forall>k. key_ok k \<longrightarrow> fold_codes k \<noteq> fold_codes (dest_key (Find_flag_value d DESTINATION)) \<longrightarrow>
         Find_str_value (info j') k = Find_str_value (info j) k)"
  using assms by (rule update_get)

lemma destination_roundtrip_witness:
  "\<exists>j'. Update_destination (Init_job\<lparr>destination := [''copies=2'', ''destination=0x1'']\<rparr>) = Some j'
    \<and> Get_destination j' 1 = (j', 0)"
proof -
  let ?j = "Init_job\<lparr>destination := [''copies=2'', ''destination=0x1'']\<rparr>"
  have k: "kv_inv (info ?j)" "ll_uniq fold_codes (Some Option_value_sep) [''copies=2'', ''destination=0x1'']"
    "\<forall>s\<in>set [''copies=2'', ''destination=0x1'']. plain_line Line_ends s" "[''copies=2'', ''destination=0x1''] \<noteq> []"
    "destination ?j = [''copies=2'', ''destination=0x1'']"
    "0 \<le> Find_flag_value [''copies=2'', ''destination=0x1''] DESTINATION"
    "Find_flag_value [''copies=2'', ''destination=0x1''] DESTINATION = 1" by code_simp+
  from destination_roundtrip [OF k(1-6)] show ?thesis unfolding k(7) by blast
qed

text \<open>
  C37: a job without destinations is printable exactly if it is there, has no incoming, error, hold
  or done time, and is being served, or neither moved nor held by its class; it is never printable
  and held at once, and \<open>PRINTABLE\<close> and \<open>HELD\<close> of the job say what was found.
\<close>

theorem Job_printable_when:
  assumes "kv_inv (info j)" "Find_flag_value (info j) DESTINATIONS = 0" "Get_hold_class (info j) sc = Some h"
  shows "\<exists>j' st. Job_printable env j sc = Some (j', st)
    \<and> printable st = (if may_print env (info j) h then 1 else 0) \<and> (held st \<noteq> 0 \<longrightarrow> printable st = 0)
    \<and> Find_flag_value (info j') PRINTABLE = printable st \<and> Find_flag_value (info j') HELD = held st
    \<and> datafiles j' = datafiles j \<and> kv_inv (info j')"
  using assms by (rule Job_printable_single)

lemma Job_printable_when_witness:
  "\<exists>j' st. Job_printable demo_job_env demo_job [] = Some (j', st) \<and> printable st = 1"
proof -
  have k: "kv_inv (info demo_job)" "Find_flag_value (info demo_job) DESTINATIONS = 0"
    "Get_hold_class (info demo_job) [] = Some 0" "may_print demo_job_env (info demo_job) 0" by code_simp+
  from Job_printable_when [OF k(1-3), of demo_job_env] k(4) show ?thesis by auto
qed

text \<open>
  \<open>PRINTABLE\<close> and \<open>HELD\<close> of a destination are running totals: a destination that is on hold gets
  as its \<open>PRINTABLE\<close> the number of printable destinations before it, so that behind a printable one
  it is recorded as printable itself.
\<close>

theorem held_destination_total:
  assumes "fst (Get_destination j n) = j1" "kv_inv (destination j1)"
    "Find_flag_value (destination j1) ERROR_TIME = 0" "Find_flag_value (destination j1) HOLD_TIME \<noteq> 0"
    and "0 \<le> printable st" "printable st \<le> INT_MAX" "0 \<le> held st" "held st < INT_MAX"
  shows "\<exists>j'. dest_step env sc n (j, st) = Some (j', st\<lparr>held := held st + 1\<rparr>)
    \<and> Find_flag_value (destination j') PRINTABLE = printable st
    \<and> Find_flag_value (destination j') HELD = held st + 1"
  using dest_step_held [OF assms] .

lemma held_destination_total_witness:
  "\<exists>j' st'. dest_step demo_job_env [] 1
      (Init_job\<lparr>info := [''DEST1=destination%3d0x1%0ahold%5ftime%3d0x5'']\<rparr>, no_state\<lparr>printable := 1\<rparr>) = Some (j', st')
    \<and> Find_flag_value (destination j') PRINTABLE = 1"
proof -
  let ?j = "Init_job\<lparr>info := [''DEST1=destination%3d0x1%0ahold%5ftime%3d0x5'']\<rparr>"
  have d: "destination (fst (Get_destination ?j 1)) = [''destination=0x1'', ''hold_time=0x5'']" by code_simp
  have k: "kv_inv [''destination=0x1'', ''hold_time=0x5'']"
    "Find_flag_value [''destination=0x1'', ''hold_time=0x5''] ERROR_TIME = 0"
    "Find_flag_value [''destination=0x1'', ''hold_time=0x5''] HOLD_TIME \<noteq> 0" by code_simp+
  from held_destination_total [OF refl, of ?j 1 "no_state\<lparr>printable := 1\<rparr>" demo_job_env "[]"] d k
  show ?thesis by (auto simp: no_state_def INT_MAX_def)
qed

text \<open>
  A status file that is larger than its maximum is cut to a suffix of whole lines shorter than
  the minimum size (in kilobytes); a smaller file is left alone. (The file holds no NUL and the
  minimum is not negative.)
\<close>

theorem Trim_status_file_suffix:
  assumes "NUL \<notin> set content" "0 < mx" "int (length content) div 1024 > mx" "0 \<le> mn"
  shows "\<exists>pre. content = pre @ Trim_status_file content mx mn
    \<and> (Trim_status_file content mx mn = [] \<or> last pre = CHR 0x0A)
    \<and> int (length (Trim_status_file content mx mn)) \<le> trim_min mx mn * 1024
    \<and> 1 \<le> trim_min mx mn \<and> trim_min mx mn \<le> mx"
  using trim_suffix [OF assms] .

lemma Trim_status_file_suffix_witness:
  "\<exists>pre. replicate 2048 CHR ''x'' = pre @ Trim_status_file (replicate 2048 CHR ''x'') 1 0"
proof -
  have "NUL \<notin> set (replicate 2048 CHR ''x'')" "(0::int) < 1"
    "int (length (replicate 2048 CHR ''x'')) div 1024 > 1" "(0::int) \<le> 0" by (auto simp: NUL_def)
  from Trim_status_file_suffix [OF this] show ?thesis by blast
qed

end
