(* ===== verification/DataFiles.thy ===== *)
theory DataFiles
  imports JobState "HOL-Library.Multiset"
begin

section \<open>The outgoing control file (getqueue.c)\<close>

text \<open>
  \<open>Fix_datafile_infox\<close> gives the data files of a job their transfer names and writes their lines of
  the control file; \<open>Fix_control\<close> builds the whole control file: the single-letter values of the job,
  overridden by those of the destination, restricted to the configured letters and put in their
  order, then the data file lines. \<open>Init_buf\<close>, \<open>Put_buf_len\<close> and \<open>Put_buf_str\<close> are the growing output
  buffers.
  The sorting routine is the BSD \<open>mergesort\<close> that comes with the program, here a parameter of which
  only its contract is used. The lemmas show that different files get different names, that the
  lines are in the configured order, and that the buffers never overflow.
\<close>

subsection \<open>Names of data files\<close>

definition group_letters :: cstr where
  "group_letters = ''fghijklmnopqrstuvwxyzabcde'' @ ''ABCDEFGHIJKLMNOPQRSTUVWXYZ''"

definition offset_letters :: cstr where
  "offset_letters = ''ABCDEFGHIJKLMNOPQRSTUVWXYZ'' @ ''abcdefghijklmnopqrstuvwxyz''"

definition df_prefix :: "nat \<Rightarrow> cstr" where
  "df_prefix cnt =
     plp_snprintf 8 ''d%c%c'' [AInt (ccode (group_letters ! (cnt div 52))), AInt (ccode (offset_letters ! (cnt mod 52)))]"

definition transfer_name :: "line_list \<Rightarrow> cstr option" where
  "transfer_name lp =
     (case Find_str_value lp OTRANSFERNAME of None \<Rightarrow> Find_str_value lp DFTRANSFERNAME | Some s \<Rightarrow> Some s)"

text \<open>A null name is never found.\<close>

definition known_name :: "line_list \<Rightarrow> cstr option \<Rightarrow> cstr option" where
  "known_name outfiles name =
     (case name of None \<Rightarrow> None | Some n \<Rightarrow> Find_casekey_str_value outfiles n (Some Hash_value_sep))"

definition prepare_file :: "line_list \<Rightarrow> line_list" where
  "prepare_file lp =
     (let name = transfer_name lp; lp1 = Set_str_value lp NTRANSFERNAME name in
      case Find_str_value lp1 OPENNAME of
        Some (c # s) \<Rightarrow> lp1
      | _ \<Rightarrow> Set_str_value lp1 OPENNAME name)"

text \<open>The first loop; \<open>None\<close> is the fatal error \<open>too many data files\<close>.\<close>

fun name_files ::
  "cstr option \<Rightarrow> cstr option \<Rightarrow> line_list list \<Rightarrow> line_list \<Rightarrow> nat \<Rightarrow> (line_list list \<times> nat) option" where
  "name_files number sfx [] outfiles cnt = Some ([], cnt)"
| "name_files number sfx (lp # lps) outfiles cnt =
     (let name = transfer_name lp; lp1 = prepare_file lp in
      case known_name outfiles name of
        Some s \<Rightarrow>
          map_option (\<lambda>(fs, n). (Set_str_value lp1 NTRANSFERNAME (Some s) # fs, n))
            (name_files number sfx lps outfiles cnt)
      | None \<Rightarrow>
          if 52 \<le> cnt div 52 then None
          else
            (let s = safestrdup3 (Some (df_prefix cnt)) number sfx;
                 outfiles' = (case name of None \<Rightarrow> outfiles
                              | Some n \<Rightarrow> Set_casekey_str_value outfiles n (Some s))
             in map_option (\<lambda>(fs, n). (Set_str_value lp1 NTRANSFERNAME (Some s) # fs, n))
                  (name_files number sfx lps outfiles' (cnt + 1))))"

subsection \<open>The lines of the data files\<close>

fun translate :: "cstr \<Rightarrow> char \<Rightarrow> char" where
  "translate (a # b # r) f = (if a = f \<or> a = CHR ''*'' then b else translate r f)"
| "translate _ f = f"

text \<open>The format as a string: empty when the value is.\<close>

definition file_format :: "cstr option \<Rightarrow> line_list \<Rightarrow> cstr" where
  "file_format xlate lp =
     (let f = (case Find_str_value lp FORMAT of None \<Rightarrow> CHR ''f'' | Some [] \<Rightarrow> NUL | Some (c # s) \<Rightarrow> c);
          g = (case xlate of None \<Rightarrow> f | Some x \<Rightarrow> translate x f)
      in if g = NUL then [] else [g])"

definition newline :: cstr where "newline = [CHR 0x0A]"

definition file_lines :: "job_env \<Rightarrow> cstr option \<Rightarrow> line_list \<Rightarrow> cstr" where
  "file_lines env xlate lp =
     (let name = opt_str (Find_str_value lp NTRANSFERNAME);
          nline = (case Find_str_value lp ''N'' of None \<Rightarrow> [] | Some n \<Rightarrow> ''N'' @ n @ newline);
          fmt = file_format xlate lp;
          copies0 = Find_flag_value lp COPIES;
          copies = (if copies0 = 0 then 1 else copies0);
          one = (if Nline_after_file env then [] else nline) @ fmt @ name @ newline @
                (if Nline_after_file env then nline else [])
      in concat (replicate (nat copies) one))"

definition rename_file :: "bool \<Rightarrow> line_list \<Rightarrow> line_list" where
  "rename_file update lp =
     (if update
      then Set_str_value (Set_str_value lp DFTRANSFERNAME (Find_str_value lp NTRANSFERNAME)) OTRANSFERNAME None
      else lp)"

text \<open>The loop that adds a \<open>U\<close> line for each name and takes the name out again; the first loop has
  given every file a name.\<close>

fun remove_lines :: "bool \<Rightarrow> line_list list \<Rightarrow> line_list \<Rightarrow> cstr \<times> line_list list" where
  "remove_lines update [] outfiles = ([], [])"
| "remove_lines update (lp # lps) outfiles =
     (let name = Find_str_value lp NTRANSFERNAME;
          lp1 = Set_str_value (rename_file update lp) NTRANSFERNAME None in
      if known_name outfiles name = None then
        (case remove_lines update lps (Set_casekey_str_value outfiles (opt_str name) (Some ''YES'')) of
           (t, fs) \<Rightarrow> (''U'' @ opt_str name @ newline @ t, lp1 # fs))
      else
        (case remove_lines update lps outfiles of (t, fs) \<Rightarrow> (t, lp1 # fs)))"

definition Fix_datafile_infox ::
  "job_env \<Rightarrow> job \<Rightarrow> cstr option \<Rightarrow> cstr option \<Rightarrow> cstr option \<Rightarrow> bool \<Rightarrow> (job \<times> cstr option) option" where
  "Fix_datafile_infox env j number sfx xlate update =
     (case name_files number sfx (datafiles j) [] 0 of
        None \<Rightarrow> None
      | Some (fs, cnt) \<Rightarrow>
          (let i = Set_decimal_value (info j) DATAFILE_COUNT (int cnt);
               c0 = Find_flag_value i COPIES;
               jobcopies = (if c0 = 0 then 1 else c0);
               body = concat (replicate (nat jobcopies) (concat (map (file_lines env xlate) fs)))
           in case remove_lines update fs [] of
                (rm, fs') \<Rightarrow>
                  Some (j\<lparr>info := i, datafiles := fs'\<rparr>, if fs = [] then None else Some (body @ rm))))"


subsection \<open>The control file\<close>

text \<open>The configuration and the names that \<open>Fix_control\<close> uses besides those of the job environment.\<close>

record fc_env =
  Suppress_header :: bool
  Always_banner :: bool
  FQDNHost :: cstr
  Use_shorthost :: bool
  Use_queuename :: bool
  Force_queuename :: "cstr option"
  Queue_name :: "cstr option"
  Printer_name :: "cstr option"
  Control_file_line_order :: "cstr option"
  time_str :: cstr

definition BSD_order :: cstr where "BSD_order = ''HPJCLIMWT1234''"
definition LPRng_order :: cstr where "LPRng_order = ''HPJCLIMWT1234*''"

text \<open>
  The position of a line: blank lines and, with a wild card in the order, the letters that are not
  in it come last; without a wild card the pointer of such a letter is null (\<open>None\<close>), and the
  difference of the pointers undefined.
\<close>

definition order_pos :: "cstr \<Rightarrow> cstr option \<Rightarrow> nat option" where
  "order_pos order line =
     (case line of
        None \<Rightarrow> Some (length order)
      | Some [] \<Rightarrow> Some (length order)
      | Some (c # s) \<Rightarrow>
          (case strchr order c of
             Some t \<Rightarrow> Some (length order - length t)
           | None \<Rightarrow> if strchr order (CHR ''*'') = None then None else Some (length order)))"

definition ordercomp :: "cstr \<Rightarrow> cstr option \<Rightarrow> cstr option \<Rightarrow> int option" where
  "ordercomp order left right =
     (case (order_pos order left, order_pos order right) of
        (Some l, Some r) \<Rightarrow> Some (int l - int r)
      | _ \<Rightarrow> None)"

definition maxclen :: "(char \<times> nat) list" where
  "maxclen =
     [(CHR ''A'', 131), (CHR ''C'', 31), (CHR ''D'', 1024), (CHR ''H'', 31), (CHR ''I'', 31),
      (CHR ''J'', 99), (CHR ''L'', 31), (CHR ''N'', 131), (CHR ''M'', 131), (CHR ''N'', 131),
      (CHR ''P'', 31), (CHR ''Q'', 131), (CHR ''R'', 131), (CHR ''S'', 131), (CHR ''T'', 79),
      (CHR ''U'', 131), (CHR ''W'', 31), (CHR ''Z'', 1024), (CHR ''1'', 131), (CHR ''2'', 131),
      (CHR ''3'', 131), (CHR ''4'', 131)]"

text \<open>A line of the form \<open>X=value\<close>; the limit counts the equals sign.\<close>

definition letter_line :: "cstr \<Rightarrow> bool" where
  "letter_line s \<longleftrightarrow> (case s of c # e # v \<Rightarrow> isupper c \<and> e = CHR ''='' | _ \<Rightarrow> False)"

definition cut_line :: "cstr \<Rightarrow> cstr" where
  "cut_line s =
     (case map_of maxclen (hd s) of
        None \<Rightarrow> s
      | Some n \<Rightarrow> if n < length s - 1 then take (n + 1) s else s)"

definition wanted_letter :: "fc_env \<Rightarrow> cstr \<Rightarrow> bool" where
  "wanted_letter fc s \<longleftrightarrow>
     letter_line s \<and> hd s \<noteq> CHR ''N'' \<and> hd s \<noteq> CHR ''U''
     \<and> \<not> (hd s = CHR ''L'' \<and> Suppress_header fc \<and> \<not> Always_banner fc)"

definition put_letters :: "(cstr \<Rightarrow> bool) \<Rightarrow> line_list \<Rightarrow> line_list \<Rightarrow> line_list" where
  "put_letters ok cf l =
     foldl (\<lambda>cf s. if ok s then Set_str_value cf [hd s] (Some (drop 2 s)) else cf) cf l"

text \<open>
  The loop that drops the lines whose letter is not in the order: \<open>Set_str_value\<close> with a null value
  removes a line and the loop looks at the same index again; \<open>None\<close>: no line goes away and the loop
  never ends.
\<close>

function filter_lines :: "bool \<Rightarrow> cstr \<Rightarrow> line_list \<Rightarrow> nat \<Rightarrow> line_list option" where
  "filter_lines backwards order cf i =
     (if length cf \<le> i then Some cf
      else
        (let s = cf ! i; c = (case s of [] \<Rightarrow> NUL | c # _ \<Rightarrow> c) in
         if (\<not> isupper c \<and> \<not> isdigit c) \<or> (strchr order c = None \<and> strchr order (CHR ''*'') = None) then
           (let cf' = Set_str_value cf (take 1 s) None in
            if length cf' < length cf then filter_lines backwards order cf' i else None)
         else filter_lines backwards order (if backwards then cf[i := cut_line s] else cf) (i + 1)))"
  by pat_completeness auto
termination
  by (relation "measures [\<lambda>(b, ord, cf, i). length cf - i]") (auto simp: Let_def)

declare filter_lines.simps [simp del]


definition control_values :: "fc_env \<Rightarrow> job \<Rightarrow> cstr option \<Rightarrow> line_list" where
  "control_values fc j ident =
     (let cf0 = put_letters (wanted_letter fc) [] (info j);
          d = destination j;
          dident = Find_str_value d IDENTIFIER;
          cf1 = (if d = [] then Set_str_value cf0 IDENTIFIER ident
                 else if 1 < Find_flag_value d COPIES then
                   Set_str_value cf0 IDENTIFIER (Some (safestrdup2 dident
                     (Some (plp_snprintf SMALLBUFFER ''C%d'' [AInt (Find_flag_value d COPY_DONE + 1)]))))
                 else Set_str_value cf0 IDENTIFIER dident);
          cf2 = (if Find_str_value cf1 DATE = None then Set_str_value cf1 DATE (Some (time_str fc)) else cf1);
          cf3 = (if (Use_queuename fc \<or> Force_queuename fc \<noteq> None) \<and> Find_str_value cf2 QUEUENAME = None
                 then Set_str_value cf2 QUEUENAME
                        (case Force_queuename fc of Some q \<Rightarrow> Some q
                         | None \<Rightarrow> (case Queue_name fc of Some q \<Rightarrow> Some q | None \<Rightarrow> Printer_name fc))
                 else cf2)
      in put_letters letter_line cf3 d)"

definition control_order :: "job_env \<Rightarrow> fc_env \<Rightarrow> cstr" where
  "control_order env fc =
     (case Control_file_line_order fc of
        Some ord \<Rightarrow> ord
      | None \<Rightarrow> if Backwards_compatible env then BSD_order else LPRng_order)"

definition job_priority :: "job_env \<Rightarrow> job \<Rightarrow> cstr" where
  "job_priority env j =
     (case Find_str_value (destination j) PRIORITY of
        Some p \<Rightarrow> p
      | None \<Rightarrow>
          (case Find_str_value (info j) PRIORITY of
             Some p \<Rightarrow> p
           | None \<Rightarrow> (case Default_priority env of Some p \<Rightarrow> p | None \<Rightarrow> ''A'')))"

text \<open>
  \<open>msort\<close> is the sorting routine, \<open>run_filter\<close> the control file filter, whose output must not be
  empty. \<open>None\<close> is a fatal error or a loop that does not end.
\<close>

definition Fix_control ::
  "job_env \<Rightarrow> fc_env \<Rightarrow> (cstr \<Rightarrow> line_list \<Rightarrow> line_list) \<Rightarrow> (cstr \<Rightarrow> cstr option) \<Rightarrow> job \<Rightarrow> bool
     \<Rightarrow> cstr option \<Rightarrow> bool \<Rightarrow> job option" where
  "Fix_control env fc msort run_filter j use_filter xlate update =
     (let (j1, number) = Fix_job_number env j (Find_decimal_value (info j) NUMBER + Find_decimal_value (info j) SEQUENCE);
          pr = take 1 (job_priority env j1);
          j2 = (case Find_str_value (info j1) FILE_HOSTNAME of
                  Some h \<Rightarrow> j1
                | None \<Rightarrow>
                    j1\<lparr>info := Set_str_value (info j1) FILE_HOSTNAME
                         (Some (case Find_str_value (info j1) FROMHOST of Some (c # h) \<Rightarrow> c # h | _ \<Rightarrow> FQDNHost fc))\<rparr>);
          hostname = Find_str_value (info j2) FILE_HOSTNAME;
          short = (if Backwards_compatible env \<or> Use_shorthost fc
                   then map_option (takeWhile (\<lambda>c. c \<noteq> CHR ''.'')) hostname else hostname);
          j3 = j2\<lparr>info := Set_str_value (info j2) XXCFTRANSFERNAME
                     (Some (safestrdup4 (Some ''cf'') (Some pr) number short))\<rparr>;
          (j4, ident) = Make_identifier j3;
          ord = control_order env fc
      in case filter_lines (Backwards_compatible env) ord (control_values fc (j4\<lparr>info := info j\<rparr>) ident) 0 of
           None \<Rightarrow> None
         | Some cf \<Rightarrow>
             (let sorted = map (\<lambda>s. take 1 s @ drop 2 s) (msort ord cf);
                  temp = Join_line_list sorted (Some newline)
              in case Fix_datafile_infox env j4 number hostname xlate update of
                   None \<Rightarrow> None
                 | Some (j5, datalines) \<Rightarrow>
                     (let out = (if temp = None \<and> datalines = None then None else Some (safeextend2 temp datalines));
                          j6 = j5\<lparr>info := Set_str_value (info j5) CF_OUT_IMAGE out\<rparr>
                      in if \<not> use_filter then Some j6
                         else (case run_filter (opt_str (Find_str_value (info j6) CF_OUT_IMAGE)) of
                                 Some (c # t) \<Rightarrow> Some (j6\<lparr>info := Set_str_value (info j6) CF_OUT_IMAGE (Some (c # t))\<rparr>)
                               | _ \<Rightarrow> None))))"

subsection \<open>Output buffers\<close>

text \<open>
  The buffer as the record of its allocated bytes, \<open>max\<close> and \<open>len\<close>; the allocation has \<open>max + 1\<close>
  bytes, and a write outside it is \<open>None\<close>.
\<close>

record obuf =
  obytes :: "char list"
  omax :: int
  olen :: int

text \<open>\<open>realloc\<close> keeps the old bytes; the new ones are not determined (here NUL).\<close>

definition realloc_bytes :: "char list \<Rightarrow> int \<Rightarrow> char list" where
  "realloc_bytes b n = take (nat n) (b @ replicate (nat n) NUL)"

definition Init_buf :: "obuf option \<Rightarrow> int \<Rightarrow> obuf option" where
  "Init_buf b mx0 =
     (let mx = (if mx0 \<le> 0 then int LARGEBUFFER else mx0);
          bytes = (case b of None \<Rightarrow> realloc_bytes [] (mx + 1) | Some x \<Rightarrow> obytes x)
      in map_option (\<lambda>b. \<lparr>obytes = b, omax = mx, olen = 0\<rparr>) (write_at bytes 0 [NUL]))"

definition Put_buf_len :: "cstr option \<Rightarrow> int \<Rightarrow> obuf \<Rightarrow> obuf option" where
  "Put_buf_len s cnt b =
     (case s of
        None \<Rightarrow> Some b
      | Some t \<Rightarrow>
          if cnt \<le> 0 then Some b
          else
            (let b1 = (if omax b - olen b \<le> cnt
                       then (let mx = omax b + (int LARGEBUFFER + cnt) div 1024 * 1024
                             in b\<lparr>omax := mx, obytes := realloc_bytes (obytes b) (mx + 1)\<rparr>)
                       else b)
             in case write_at (obytes b1) (nat (olen b1)) (take (nat cnt) t) of
                  None \<Rightarrow> None
                | Some x \<Rightarrow>
                    map_option (\<lambda>y. b1\<lparr>obytes := y, olen := olen b1 + cnt\<rparr>)
                      (write_at x (nat (olen b1 + cnt)) [NUL])))"

definition Put_buf_str :: "cstr option \<Rightarrow> obuf \<Rightarrow> obuf option" where
  "Put_buf_str s b =
     (case s of Some (c # t) \<Rightarrow> Put_buf_len s (int (length (c # t))) b | _ \<Rightarrow> Some b)"


subsection \<open>The buffers are large enough\<close>

definition buf_ok :: "obuf \<Rightarrow> bool" where
  "buf_ok b \<longleftrightarrow> 0 \<le> olen b \<and> olen b \<le> omax b \<and> int (length (obytes b)) = omax b + 1"

definition buf_text :: "obuf \<Rightarrow> char list" where
  "buf_text b = take (nat (olen b)) (obytes b)"

lemma realloc_length: "0 \<le> n \<Longrightarrow> int (length (realloc_bytes b n)) = n"
  by (simp add: realloc_bytes_def)

lemma realloc_keeps: "int k \<le> n \<Longrightarrow> k \<le> length b \<Longrightarrow> take k (realloc_bytes b n) = take k b"
  by (simp add: realloc_bytes_def min_def nat_le_iff)

text \<open>Writing a text and the NUL behind it.\<close>

lemma write_text_nul:
  assumes "n + length t < length b"
  shows "\<exists>x. write_at b n t = Some x \<and>
    write_at x (n + length t) [NUL] = Some (take n b @ t @ NUL # drop (n + length t + 1) b)"
proof -
  have x: "write_at b n t = Some (take n b @ t @ drop (n + length t) b)"
    using assms by (simp add: write_at_def)
  obtain c r where r: "drop (n + length t) b = c # r" "r = drop (n + length t + 1) b"
    using assms by (metis Cons_nth_drop_Suc Suc_eq_plus1)
  have "length (take n b @ t) = n + length t" using assms by simp
  then have "write_at ((take n b @ t) @ c # r) (n + length t) [NUL] = Some ((take n b @ t) @ NUL # r)"
    by (simp add: write_at_def)
  with x r show ?thesis by simp
qed

lemma Put_buf_len_ok:
  assumes "buf_ok b" "int (length t) \<ge> cnt" "0 < cnt"
  shows "\<exists>b'. Put_buf_len (Some t) cnt b = Some b' \<and> buf_ok b' \<and> buf_text b' = buf_text b @ take (nat cnt) t
    \<and> obytes b' ! nat (olen b') = NUL"
proof -
  define b1 where "b1 = (if omax b - olen b \<le> cnt
    then (let mx = omax b + (int LARGEBUFFER + cnt) div 1024 * 1024
          in b\<lparr>omax := mx, obytes := realloc_bytes (obytes b) (mx + 1)\<rparr>) else b)"
  have grow: "cnt < (int LARGEBUFFER + cnt) div 1024 * 1024"
  proof -
    have "10240 + cnt < (10240 + cnt) div 1024 * 1024 + 1024" by linarith
    then show ?thesis by (simp add: LARGEBUFFER_def)
  qed
  have b1: "buf_ok b1" "olen b1 = olen b" "cnt < omax b1 - olen b1" "buf_text b1 = buf_text b"
    using assms(1,3) grow realloc_keeps [of "nat (olen b)"]
    by (auto simp: b1_def buf_ok_def buf_text_def Let_def realloc_length)
  let ?n = "nat (olen b1)" and ?t = "take (nat cnt) t"
  have lt: "length ?t = nat cnt" using assms(2,3) by simp
  have pos: "0 \<le> olen b1" using b1(1) by (simp add: buf_ok_def)
  have fit: "?n + length ?t < length (obytes b1)" and eq: "?n + length ?t = nat (olen b1 + cnt)"
    using b1(1,3) assms(3) lt by (auto simp: buf_ok_def nat_add_distrib)
  define y where "y = take ?n (obytes b1) @ ?t @ NUL # drop (?n + length ?t + 1) (obytes b1)"
  from write_text_nul [OF fit] obtain x where "write_at (obytes b1) ?n ?t = Some x"
    "write_at x (nat (olen b1 + cnt)) [NUL] = Some y" unfolding eq y_def by blast
  then have r: "Put_buf_len (Some t) cnt b = Some (b1\<lparr>obytes := y, olen := olen b1 + cnt\<rparr>)"
    using assms(3) unfolding Put_buf_len_def b1_def [symmetric] by simp
  have ln: "length (take ?n (obytes b1) @ ?t) = nat (olen b1 + cnt)" using fit eq lt by simp
  then have nul: "y ! nat (olen b1 + cnt) = NUL"
    unfolding y_def by (metis append.assoc nth_append_length)
  have tx: "take (nat (olen b1 + cnt)) y = take ?n (obytes b1) @ ?t"
    unfolding y_def using ln by (metis append.assoc append_eq_conv_conj)
  have "length y = nat (olen b1 + cnt) + (1 + (length (obytes b1) - (nat (olen b1 + cnt) + 1)))"
    unfolding y_def using ln eq by simp
  with fit eq b1(1) have leny: "int (length y) = omax b1 + 1" unfolding buf_ok_def by linarith
  let ?b = "b1\<lparr>obytes := y, olen := olen b1 + cnt\<rparr>"
  have "buf_ok ?b" using leny pos b1(3) assms(3) by (simp add: buf_ok_def)
  moreover have "buf_text ?b = buf_text b @ ?t" using tx b1(4) by (simp add: buf_text_def)
  ultimately show ?thesis using r nul by auto
qed

lemma Init_buf_ok:
  assumes "b = None \<or> (\<exists>x. b = Some x \<and> int (length (obytes x)) = mx + 1 \<and> 0 < mx)"
  shows "\<exists>b'. Init_buf b mx = Some b' \<and> buf_ok b' \<and> buf_text b' = []"
proof (cases b)
  case None
  let ?m = "if mx \<le> 0 then int LARGEBUFFER else mx"
  have "length (realloc_bytes [] (?m + 1)) = Suc (nat ?m)"
    using realloc_length [of "?m + 1" "[]"] by (auto simp: LARGEBUFFER_def split: if_splits)
  with None show ?thesis
    by (auto simp: Init_buf_def Let_def write_at_def buf_ok_def buf_text_def LARGEBUFFER_def)
next
  case (Some x)
  with assms show ?thesis
    by (auto simp: Init_buf_def Let_def write_at_def buf_ok_def buf_text_def)
qed


subsection \<open>Only lines in the order are left\<close>

lemma Set_None_remove:
  assumes "kv_inv cf" "i < length cf" "cf ! i = k @ CHR ''='' # v" "key_ok k"
  shows "Set_str_value cf k None = remove_at i cf"
proof -
  have n: "norm_val None = None" by simp
  have u: "ll_uniq fold_codes (Some Hash_value_sep) cf" using assms(1) by (simp add: kv_inv_def)
  have r: "Remove_line_list cf (int i) = remove_at i cf" using assms(2) by (simp add: Remove_line_list_def)
  have k: "key_of (Some Hash_value_sep) (cf ! i) = k" using key_of_line(1) [OF assms(4)] assms(3) by simp
  have m: "ll_uniq fold_codes (Some Hash_value_sep) (remove_at i cf)"
    "ll_map fold_codes (Some Hash_value_sep) (remove_at i cf) =
      (ll_map fold_codes (Some Hash_value_sep) cf)(fold_codes k := None)"
    using nocase.remove_uniq [OF u assms(2)] unfolding r k by auto
  show ?thesis
    by (rule ll_uniq_ext [OF _ m(1)])
      (use Set_None_kv [OF assms(1,4) n] m(2) in \<open>auto simp: kv_inv_def\<close>)
qed

lemma letter_key: "isupper c \<Longrightarrow> key_ok [c]"
  by (rule upper_key)

lemma letter_line_cases: "letter_line s \<Longrightarrow> \<exists>c v. s = [c] @ CHR ''='' # v \<and> isupper c"
  by (cases s rule: remdups_adj.cases) (auto simp: letter_line_def)

lemma maxclen_pos: "map_of maxclen c = Some n \<Longrightarrow> 31 \<le> n"
  by (auto simp: maxclen_def split: if_splits)

lemma cut_subset: "set (cut_line s) \<subseteq> set s"
  by (auto simp: cut_line_def dest: in_set_takeD split: option.splits)

lemma cut_letter:
  assumes "letter_line s"
  shows "\<exists>v'. cut_line s = [hd s] @ CHR ''='' # v' \<and> set v' \<subseteq> set s"
proof -
  obtain c v where s: "s = [c] @ CHR ''='' # v" using letter_line_cases [OF assms] by blast
  show ?thesis
  proof (cases "map_of maxclen c")
    case None
    then show ?thesis by (simp add: cut_line_def s) blast
  next
    case (Some n)
    obtain m where "n = Suc m" using maxclen_pos [OF Some] by (cases n) auto
    then have "take (n + 1) s = [c] @ CHR ''='' # take m v" by (simp add: s)
    with Some show ?thesis by (auto simp: cut_line_def s dest: in_set_takeD)
  qed
qed

lemma kv_inv_update:
  assumes "kv_inv cf" "i < length cf" "letter_line (cf ! i)"
  shows "kv_inv (cf[i := cut_line (cf ! i)])"
proof -
  let ?s = "cf ! i"
  obtain c v where s: "?s = [c] @ CHR ''='' # v" "isupper c" using letter_line_cases [OF assms(3)] by blast
  obtain v' where t: "cut_line ?s = [c] @ CHR ''='' # v'" "set v' \<subseteq> set ?s"
    using cut_letter [OF assms(3)] s(1) by auto
  note k = key_of_line(1,2) [OF letter_key [OF s(2)]]
  have key: "key_of (Some Hash_value_sep) (cut_line ?s) = key_of (Some Hash_value_sep) ?s"
  proof -
    have "key_of (Some Hash_value_sep) (cut_line ?s) = [c]" unfolding t(1) by (rule k(1))
    moreover have "key_of (Some Hash_value_sep) ?s = [c]" unfolding s(1) by (rule k(1))
    ultimately show ?thesis by simp
  qed
  have lk: "lkeys fold_codes (Some Hash_value_sep) (cf[i := cut_line ?s]) = lkeys fold_codes (Some Hash_value_sep) cf"
    by (simp add: lkeys_def map_update key)
      (metis assms(2) length_map list_update_id nth_map)
  have ok: "cstr_ok ?s" using assms(1,2) by (auto simp: kv_inv_def ll_uniq_def ll_sorted_def ll_ok_def)
  then have "cstr_ok (cut_line ?s)" using cut_subset [of ?s] by (auto simp: cstr_ok_def)
  moreover have "kv_clean (cut_line ?s)" using k unfolding t(1) by (simp add: kv_clean_def)
  ultimately show ?thesis
    using assms(1) lk set_update_subset_insert [of cf i "cut_line ?s"]
    by (auto simp: kv_inv_def ll_uniq_def ll_sorted_def ll_ok_def)
qed

definition placed :: "cstr \<Rightarrow> cstr \<Rightarrow> bool" where
  "placed ord s \<longleftrightarrow> order_pos ord (Some s) \<noteq> None"

lemma placed_letter:
  "letter_line s \<Longrightarrow> placed ord s \<longleftrightarrow> \<not> (strchr ord (hd s) = None \<and> strchr ord (CHR ''*'') = None)"
  using letter_line_cases [of s] by (auto simp: placed_def order_pos_def split: option.splits)

lemma filter_lines_ok:
  assumes "kv_inv cf" "\<forall>s\<in>set cf. letter_line s" "i \<le> length cf" "\<forall>k<i. placed ord (cf ! k)"
  shows "\<exists>cf'. filter_lines b ord cf i = Some cf' \<and> kv_inv cf' \<and> (\<forall>s\<in>set cf'. letter_line s \<and> placed ord s)"
  using assms
proof (induction b ord cf i rule: filter_lines.induct)
  case (1 b ord cf i)
  show ?case
  proof (cases "length cf \<le> i")
    case True
    with 1(5,6) have "\<forall>s\<in>set cf. placed ord s" by (auto simp: in_set_conv_nth)
    with True 1(3,4) show ?thesis by (subst filter_lines.simps) simp
  next
    case False
    let ?s = "cf ! i"
    have l: "letter_line ?s" using 1(4) False by simp
    obtain c v where s: "?s = [c] @ CHR ''='' # v" "isupper c" using letter_line_cases [OF l] by blast
    show ?thesis
    proof (cases "placed ord ?s")
      case bad: False
      have rm: "Set_str_value cf (take 1 ?s) None = remove_at i cf"
        using Set_None_remove [OF 1(3) _ s(1) letter_key [OF s(2)]] False s(1) by simp
      have inv: "kv_inv (remove_at i cf)"
        using Set_None_kv [OF 1(3) letter_key [OF s(2)], of None] rm s(1) by simp
      have sub: "\<forall>s\<in>set (remove_at i cf). letter_line s" using 1(4) set_remove_at_subset [of i cf] by auto
      have pre: "\<forall>k<i. placed ord (remove_at i cf ! k)"
        using 1(6) False by (auto simp: remove_at_def nth_append)
      have nf: "strchr ord c = None \<and> strchr ord (CHR ''*'') = None"
        using bad placed_letter [OF l] s(1) by simp
      have lt: "length cf - Suc 0 < length cf" using False by linarith
      have "filter_lines b ord cf i = filter_lines b ord (remove_at i cf) i"
        using False nf rm s lt by (subst filter_lines.simps) (simp add: Let_def)
      moreover have "\<exists>cf'. filter_lines b ord (remove_at i cf) i = Some cf' \<and> kv_inv cf'
          \<and> (\<forall>s\<in>set cf'. letter_line s \<and> placed ord s)"
        using 1(1) [OF False refl refl _ rm [symmetric]] nf s inv sub pre False by simp
      ultimately show ?thesis by simp
    next
      case good: True
      let ?cf = "if b then cf[i := cut_line ?s] else cf"
      have nf: "\<not> (strchr ord c = None \<and> strchr ord (CHR ''*'') = None)"
        using good placed_letter [OF l] s(1) by simp
      have hd_cut: "letter_line (cut_line ?s)" "hd (cut_line ?s) = hd ?s"
        using cut_letter [OF l] s by (auto simp: letter_line_def)
      have inv: "kv_inv ?cf" using kv_inv_update [OF 1(3) _ l] 1(3) False by simp
      have sub: "\<forall>s\<in>set ?cf. letter_line s"
        using 1(4) hd_cut(1) set_update_subset_insert [of cf i "cut_line ?s"] by auto
      have "placed ord (cut_line ?s)" using good placed_letter l hd_cut by simp
      then have pre: "\<forall>k<i + 1. placed ord (?cf ! k)"
        using 1(6) good False by (auto simp: less_Suc_eq nth_list_update)
      have "filter_lines b ord cf i = filter_lines b ord ?cf (i + 1)"
        using False nf s by (subst filter_lines.simps) (auto simp: Let_def)
      moreover have "\<exists>cf'. filter_lines b ord ?cf (i + 1) = Some cf' \<and> kv_inv cf'
          \<and> (\<forall>s\<in>set cf'. letter_line s \<and> placed ord s)"
        using 1(2) [OF False refl refl] nf s inv sub pre False by simp
      ultimately show ?thesis by simp
    qed
  qed
qed


subsection \<open>Different files get different names\<close>

lemma letters:
  "length group_letters = 52" "length offset_letters = 52" "distinct group_letters" "distinct offset_letters"
  "\<forall>c\<in>set group_letters. c \<noteq> NUL" "\<forall>c\<in>set offset_letters. c \<noteq> NUL"
  by code_simp+

lemma df_prefix_text:
  assumes "k < 2704"
  shows "df_prefix k = [CHR ''d'', group_letters ! (k div 52), offset_letters ! (k mod 52)]"
proof -
  let ?g = "group_letters ! (k div 52)" and ?o = "offset_letters ! (k mod 52)"
  have "k div 52 < 52" "k mod 52 < 52" using assms by auto
  then have c: "?g \<noteq> NUL" "?o \<noteq> NUL" using letters by auto
  have "char_string (ccode c) = [c]" if "c \<noteq> NUL" for c
    using that ccode_range [of c] by (simp add: char_string_def) (simp add: ccode_def)
  from this [OF c(1)] this [OF c(2)]
  have "dopr_text (\<lambda>_ _. []) [] True ''d%c%c'' [AInt (ccode ?g), AInt (ccode ?o) :: unit fmt_arg]
      = Some [CHR ''d'', ?g, ?o]"
    by (simp add: fmt_eval is_visible_ctl_def)
  from snprintf_text [OF this, of 8] c show ?thesis
    by (simp add: df_prefix_def cstr_ok_def NUL_def)
qed

definition df_name :: "cstr option \<Rightarrow> cstr option \<Rightarrow> nat \<Rightarrow> cstr" where
  "df_name number sfx k = safestrdup3 (Some (df_prefix k)) number sfx"

lemma df_name_inject:
  assumes "j < 2704" "k < 2704"
  shows "df_name number sfx j = df_name number sfx k \<longleftrightarrow> j = k"
proof -
  have "j div 52 < 52" "k div 52 < 52" "j mod 52 < 52" "k mod 52 < 52" using assms by auto
  then have "df_name number sfx j = df_name number sfx k \<longleftrightarrow> j div 52 = k div 52 \<and> j mod 52 = k mod 52"
    using letters by (simp add: df_name_def safestrdup3_def df_prefix_text assms nth_eq_iff_index_eq)
  then show ?thesis by (metis mod_mult_div_eq)
qed

definition pos_of :: "cstr list \<Rightarrow> cstr \<Rightarrow> nat" where
  "pos_of ns n = length (takeWhile (\<lambda>m. m \<noteq> n) ns)"

definition add_name :: "cstr list \<Rightarrow> cstr \<Rightarrow> cstr list" where
  "add_name ns n = (if n \<in> set ns then ns else ns @ [n])"

lemma pos_of_append: "n \<in> set ns \<Longrightarrow> pos_of (ns @ xs) n = pos_of ns n"
  by (simp add: pos_of_def)

lemma pos_of_new: "n \<notin> set ns \<Longrightarrow> pos_of (ns @ [n]) n = length ns"
proof -
  assume "n \<notin> set ns"
  then have "takeWhile (\<lambda>m. m \<noteq> n) (ns @ [n]) = ns" by (intro takeWhile_append_hit) auto
  then show ?thesis by (simp add: pos_of_def)
qed

lemma pos_of_less: "n \<in> set ns \<Longrightarrow> pos_of ns n < length ns"
  by (induction ns) (auto simp: pos_of_def)

lemma nth_pos_of: "n \<in> set ns \<Longrightarrow> ns ! pos_of ns n = n"
  by (induction ns) (auto simp: pos_of_def)

lemma pos_of_inject: "m \<in> set ns \<Longrightarrow> n \<in> set ns \<Longrightarrow> pos_of ns m = pos_of ns n \<longleftrightarrow> m = n"
  by (metis nth_pos_of)

lemma add_names_prefix: "\<exists>xs. foldl add_name ns ms = ns @ xs"
proof (induction ms arbitrary: ns)
  case (Cons m ms)
  from Cons.IH [of "add_name ns m"] show ?case by (auto simp: add_name_def)
qed simp

lemma add_names_set: "set (foldl add_name ns ms) = set ns \<union> set ms"
proof (induction ms arbitrary: ns)
  case (Cons m ms)
  show ?case by (simp add: Cons.IH) (auto simp: add_name_def)
qed simp

lemma add_names_distinct: "distinct ns \<Longrightarrow> distinct (foldl add_name ns ms)"
  by (induction ms arbitrary: ns) (auto simp: add_name_def)

definition out_inv :: "cstr option \<Rightarrow> cstr option \<Rightarrow> line_list \<Rightarrow> cstr list \<Rightarrow> bool" where
  "out_inv number sfx outfiles ns \<longleftrightarrow>
     kv_case_inv outfiles \<and> (\<forall>n\<in>set ns. hkey_ok n)
     \<and> (\<forall>n. hkey_ok n \<longrightarrow> Find_casekey_str_value outfiles n (Some Hash_value_sep) =
          (if n \<in> set ns then Some (df_name number sfx (pos_of ns n)) else None))"

lemma df_name_ok:
  assumes "val_ok number" "val_ok sfx" "k < 2704"
  shows "val_ok (Some (df_name number sfx k))" "norm_val (Some (df_name number sfx k)) = Some (df_name number sfx k)"
proof -
  have "k div 52 < 52" "k mod 52 < 52" using assms(3) by auto
  then have "group_letters ! (k div 52) \<noteq> NUL" "offset_letters ! (k mod 52) \<noteq> NUL" using letters by auto
  then show "val_ok (Some (df_name number sfx k))"
    using assms by (cases number; cases sfx)
      (auto simp: df_name_def safestrdup3_def df_prefix_text cstr_ok_def NUL_def)
  show "norm_val (Some (df_name number sfx k)) = Some (df_name number sfx k)"
    using assms(3) by (simp add: df_name_def safestrdup3_def df_prefix_text)
qed

lemma out_inv_add:
  assumes "out_inv number sfx outfiles ns" "hkey_ok n" "n \<notin> set ns" "length ns < 2704"
    "val_ok number" "val_ok sfx"
  shows "out_inv number sfx (Set_casekey_str_value outfiles n (Some (df_name number sfx (length ns)))) (ns @ [n])"
proof -
  let ?v = "Some (df_name number sfx (length ns))"
  note v = df_name_ok [OF assms(5,6,4)]
  have i: "kv_case_inv outfiles" using assms(1) by (simp add: out_inv_def)
  have get: "Find_casekey_str_value (Set_casekey_str_value outfiles n ?v) m (Some Hash_value_sep) =
      (if m \<in> set (ns @ [n]) then Some (df_name number sfx (pos_of (ns @ [n]) m)) else None)" if "hkey_ok m" for m
  proof (cases "m = n")
    case True
    then show ?thesis using ckv.get_put [OF i assms(2) v(1) that] v(2) pos_of_new [OF assms(3)] by simp
  next
    case False
    then show ?thesis
      using ckv.get_put [OF i assms(2) v(1) that] assms(1) that pos_of_append [of m ns "[n]"]
      by (simp add: out_inv_def)
  qed
  then show ?thesis
    using ckv.put_inv [OF i assms(2) v(1)] assms(1,2) by (auto simp: out_inv_def)
qed


definition file_ok :: "line_list \<Rightarrow> bool" where
  "file_ok lp \<longleftrightarrow> kv_inv lp \<and> (case transfer_name lp of None \<Rightarrow> False | Some n \<Rightarrow> hkey_ok n)"

definition tname :: "line_list \<Rightarrow> cstr" where
  "tname lp = opt_str (transfer_name lp)"

lemma transfer_keys [simp]:
  "key_ok NTRANSFERNAME" "key_ok OPENNAME" "key_ok DFTRANSFERNAME"
  by (simp_all add: job_key_defs key_ok_def cstr_ok_def NUL_def Option_value_sep_def)

lemma prepare_file_inv:
  assumes "file_ok lp"
  shows "kv_inv (prepare_file lp)"
proof -
  obtain n where n: "transfer_name lp = Some n" "hkey_ok n" and kv: "kv_inv lp"
    using assms by (auto simp: file_ok_def split: option.splits)
  then have v: "val_ok (transfer_name lp)" by (simp add: hkey_ok_def)
  have "kv_inv (Set_str_value lp NTRANSFERNAME (transfer_name lp))" using kv.put_inv [OF kv _ v] by simp
  then show ?thesis using kv.put_inv [OF _ _ v, of _ OPENNAME]
    by (auto simp: prepare_file_def Let_def split: option.split list.split)
qed

lemma named_file:
  assumes "file_ok lp" "val_ok (Some t)" "norm_val (Some t) = Some t"
  shows "Find_str_value (Set_str_value (prepare_file lp) NTRANSFERNAME (Some t)) NTRANSFERNAME = Some t"
  using kv.get_put [OF prepare_file_inv [OF assms(1)] _ assms(2), of NTRANSFERNAME NTRANSFERNAME] assms(3) by simp

lemma name_files_spec:
  assumes "\<forall>lp\<in>set lps. file_ok lp" "val_ok number" "val_ok sfx"
    and "out_inv number sfx outfiles ns" "length (foldl add_name ns (map tname lps)) \<le> 2704"
  shows "\<exists>fs. name_files number sfx lps outfiles (length ns) = Some (fs, length (foldl add_name ns (map tname lps)))
    \<and> map (\<lambda>f. Find_str_value f NTRANSFERNAME) fs
      = map (\<lambda>lp. Some (df_name number sfx (pos_of (foldl add_name ns (map tname lps)) (tname lp)))) lps"
  using assms
proof (induction lps arbitrary: outfiles ns)
  case (Cons lp lps)
  have lp: "file_ok lp" using Cons.prems(1) by simp
  obtain n where n: "transfer_name lp = Some n" "hkey_ok n" "tname lp = n"
    using lp by (auto simp: file_ok_def tname_def split: option.splits)
  let ?ns = "add_name ns n" and ?final = "foldl add_name (add_name ns n) (map tname lps)"
  obtain xs where xs: "?final = ?ns @ xs" using add_names_prefix by blast
  have nin: "n \<in> set ?ns" by (simp add: add_name_def)
  have final: "foldl add_name ns (map tname (lp # lps)) = ?final" by (simp add: n)
  have bound: "length ?ns \<le> 2704" using Cons.prems(5) unfolding final xs by simp
  let ?t = "df_name number sfx (pos_of ?ns n)"
  have k: "pos_of ?ns n < 2704" using pos_of_less [OF nin] bound by simp
  note v = df_name_ok [OF Cons.prems(2,3) k]
  have same: "pos_of ?final n = pos_of ?ns n" unfolding xs by (rule pos_of_append [OF nin])
  have known: "known_name outfiles (transfer_name lp) = (if n \<in> set ns then Some (df_name number sfx (pos_of ns n)) else None)"
    using Cons.prems(4) n by (simp add: known_name_def out_inv_def)
  define out' where "out' = (if n \<in> set ns then outfiles else Set_casekey_str_value outfiles n (Some ?t))"
  have out': "out_inv number sfx out' ?ns"
    using Cons.prems(4) out_inv_add [OF Cons.prems(4) n(2) _ _ Cons.prems(2,3)] bound pos_of_new
    by (auto simp: out'_def add_name_def)
  obtain fs where fs: "name_files number sfx lps out' (length ?ns) = Some (fs, length ?final)"
    "map (\<lambda>f. Find_str_value f NTRANSFERNAME) fs = map (\<lambda>lp. Some (df_name number sfx (pos_of ?final (tname lp)))) lps"
    using Cons.IH [OF _ Cons.prems(2,3) out'] Cons.prems(1,5) unfolding final by auto
  have step: "name_files number sfx (lp # lps) outfiles (length ns) =
      Some (Set_str_value (prepare_file lp) NTRANSFERNAME (Some ?t) # fs, length ?final)"
  proof (cases "n \<in> set ns")
    case True
    with known fs(1) show ?thesis by (simp add: out'_def add_name_def)
  next
    case False
    have p: "pos_of ?ns n = length ns" using pos_of_new [OF False] False by (simp add: add_name_def)
    have "\<not> 52 \<le> length ns div 52" using k p by auto
    with known fs(1) False p n(1) show ?thesis
      by (simp add: out'_def add_name_def df_name_def Let_def)
  qed
  show ?case unfolding final using step fs(2) named_file [OF lp v] same n(3) by simp
qed simp


subsection \<open>The values of the control file\<close>

text \<open>A list of lines \<open>X=value\<close> with capital letters, one for each letter.\<close>

definition letters_ok :: "line_list \<Rightarrow> bool" where
  "letters_ok cf \<longleftrightarrow> kv_inv cf \<and> (\<forall>s\<in>set cf. letter_line s)"

lemma letters_ok_put:
  assumes "letters_ok cf" "isupper c" "val_ok v"
  shows "letters_ok (Set_str_value cf [c] v)"
proof -
  have kv: "kv_inv cf" using assms(1) by (simp add: letters_ok_def)
  have "letter_line s" if "s \<in> set (Set_str_value cf [c] v)" for s
    using mem_Set_str_value [OF kv letter_key [OF assms(2)] assms(3) that] assms(1,2)
    by (auto simp: letters_ok_def letter_line_def)
  with kv.put_inv [OF kv letter_key [OF assms(2)] assms(3)] show ?thesis by (simp add: letters_ok_def)
qed

lemma letters_ok_puts:
  "letters_ok cf \<Longrightarrow> \<forall>s\<in>set l. cstr_ok s \<Longrightarrow> (\<And>s. ok s \<Longrightarrow> letter_line s) \<Longrightarrow> letters_ok (put_letters ok cf l)"
proof (induction l arbitrary: cf)
  case (Cons s l)
  have "letters_ok (if ok s then Set_str_value cf [hd s] (Some (drop 2 s)) else cf)"
  proof (cases "ok s")
    case True
    obtain c v where c: "s = [c] @ CHR ''='' # v" "isupper c" using letter_line_cases [OF Cons.prems(3) [OF True]] by blast
    have "cstr_ok v" using Cons.prems(2) c(1) by (simp add: cstr_ok_def)
    then show ?thesis using True letters_ok_put [OF Cons.prems(1) c(2), of "Some v"] c(1) by simp
  qed (use Cons.prems(1) in simp)
  from Cons.IH [OF this] Cons.prems(2,3) show ?case by (simp add: put_letters_def)
qed (simp add: put_letters_def)

lemma letter_names: "IDENTIFIER = [CHR ''A'']" "DATE = [CHR ''D'']" "QUEUENAME = [CHR ''Q'']"
  "isupper CHR ''A''" "isupper CHR ''D''" "isupper CHR ''Q''"
  by (simp_all add: IDENTIFIER_def DATE_def QUEUENAME_def isupper_def ccode_def)

definition fc_ok :: "fc_env \<Rightarrow> bool" where
  "fc_ok fc \<longleftrightarrow> cstr_ok (time_str fc) \<and> val_ok (Force_queuename fc) \<and> val_ok (Queue_name fc) \<and> val_ok (Printer_name fc)"

lemma control_values_ok:
  assumes "ll_ok (info j)" "kv_inv (destination j)" "val_ok ident" "fc_ok fc"
  shows "letters_ok (control_values fc j ident)"
proof -
  have d: "\<forall>s\<in>set (destination j). cstr_ok s"
    using assms(2) by (auto simp: kv_inv_def ll_uniq_def ll_sorted_def ll_ok_def)
  have dv: "val_ok (Find_str_value (destination j) IDENTIFIER)"
    using Find_str_value_val_ok [OF assms(2)] by (simp add: IDENTIFIER_def cstr_ok_def NUL_def)
  let ?c = "plp_snprintf SMALLBUFFER ''C%d'' [AInt (Find_flag_value (destination j) COPY_DONE + 1)]"
  have dc: "val_ok (Some (safestrdup2 (Find_str_value (destination j) IDENTIFIER) (Some ?c)))"
    using dv cstr_ok_snprintf [of SMALLBUFFER "''C%d''" "[AInt (Find_flag_value (destination j) COPY_DONE + 1)]"]
    by (cases "Find_str_value (destination j) IDENTIFIER") (auto simp: safestrdup2_def cstr_ok_def)
  have l0: "letters_ok []" by (simp add: letters_ok_def)
  have cf0: "letters_ok (put_letters (wanted_letter fc) [] (info j))"
    using letters_ok_puts [OF l0, of "info j" "wanted_letter fc"] assms(1) by (simp add: wanted_letter_def ll_ok_def)
  define cf1 where "cf1 = (if destination j = [] then Set_str_value (put_letters (wanted_letter fc) [] (info j)) IDENTIFIER ident
     else if 1 < Find_flag_value (destination j) COPIES then
       Set_str_value (put_letters (wanted_letter fc) [] (info j)) IDENTIFIER
         (Some (safestrdup2 (Find_str_value (destination j) IDENTIFIER) (Some ?c)))
     else Set_str_value (put_letters (wanted_letter fc) [] (info j)) IDENTIFIER (Find_str_value (destination j) IDENTIFIER))"
  have cf1: "letters_ok cf1"
    unfolding cf1_def letter_names(1)
    using letters_ok_put [OF cf0 letter_names(4)] assms(3) dc dv by (auto simp: letter_names(1))
  define cf2 where "cf2 = (if Find_str_value cf1 DATE = None then Set_str_value cf1 DATE (Some (time_str fc)) else cf1)"
  have cf2: "letters_ok cf2"
    using letters_ok_put [OF cf1 letter_names(5)] cf1 assms(4) by (simp add: cf2_def letter_names(2) fc_ok_def)
  define q where "q = (case Force_queuename fc of Some q \<Rightarrow> Some q
     | None \<Rightarrow> (case Queue_name fc of Some q \<Rightarrow> Some q | None \<Rightarrow> Printer_name fc))"
  have "val_ok q" using assms(4) by (auto simp: q_def fc_ok_def split: option.split)
  then have cf3: "letters_ok (if (Use_queuename fc \<or> Force_queuename fc \<noteq> None) \<and> Find_str_value cf2 QUEUENAME = None
      then Set_str_value cf2 QUEUENAME q else cf2)"
    using letters_ok_put [OF cf2 letter_names(6)] cf2 by (simp add: letter_names(3))
  show ?thesis
    using letters_ok_puts [OF cf3 d, of letter_line]
    unfolding control_values_def Let_def cf1_def [symmetric] cf2_def [symmetric] q_def [symmetric] by simp
qed

lemma placed_control:
  assumes "ll_ok (info j)" "kv_inv (destination j)" "val_ok ident" "fc_ok fc"
  shows "\<exists>cf. filter_lines b ord (control_values fc j ident) 0 = Some cf
    \<and> (\<forall>s\<in>set cf. letter_line s \<and> (CHR ''*'' \<in> set ord \<or> hd s \<in> set ord))
    \<and> (\<forall>s\<in>set cf. \<forall>t\<in>set cf. ordercomp ord (Some s) (Some t) \<noteq> None)"
proof -
  have c: "letters_ok (control_values fc j ident)" using control_values_ok [OF assms] .
  from filter_lines_ok [of "control_values fc j ident" 0 ord b] c
  obtain cf where cf: "filter_lines b ord (control_values fc j ident) 0 = Some cf"
    "\<forall>s\<in>set cf. letter_line s \<and> placed ord s" by (auto simp: letters_ok_def)
  have "CHR ''*'' \<in> set ord \<or> hd s \<in> set ord" if s: "s \<in> set cf" for s
  proof -
    have l: "letter_line s" "placed ord s" using cf(2) s by auto
    obtain c v where c: "s = [c] @ CHR ''='' # v" "isupper c" using letter_line_cases [OF l(1)] by blast
    show ?thesis
      using l(2) placed_letter [OF l(1), of ord] strchr_None_iff [of c ord] strchr_None_iff [of "CHR ''*''" ord]
        isupper_ok [OF c(2)] c(1) by (auto simp: NUL_def)
  qed
  moreover have "ordercomp ord (Some s) (Some t) \<noteq> None" if "s \<in> set cf" "t \<in> set cf" for s t
    using cf(2) that by (auto simp: placed_def ordercomp_def split: option.splits)
  ultimately show ?thesis using cf by blast
qed

lemma distinct_names:
  assumes "\<forall>lp\<in>set lps. file_ok lp" "val_ok number" "val_ok sfx" "card (tname ` set lps) \<le> 2704"
  shows "\<exists>fs. name_files number sfx lps [] 0 = Some (fs, card (tname ` set lps)) \<and> length fs = length lps
    \<and> (\<forall>i<length lps. \<exists>k<2704. Find_str_value (fs ! i) NTRANSFERNAME = Some (df_name number sfx k))
    \<and> (\<forall>i<length lps. \<forall>j<length lps.
         (Find_str_value (fs ! i) NTRANSFERNAME = Find_str_value (fs ! j) NTRANSFERNAME)
         = (tname (lps ! i) = tname (lps ! j)))"
proof -
  define ns where "ns = foldl add_name [] (map tname lps)"
  have set_ns: "set ns = tname ` set lps" by (simp add: ns_def add_names_set)
  have "distinct ns" by (simp add: ns_def add_names_distinct)
  then have card: "length ns = card (tname ` set lps)" using set_ns by (metis distinct_card)
  have "Find_casekey_str_value [] n (Some Hash_value_sep) = None" if "hkey_ok n" for n
    using Find_casekey_str_value_kv [of "[]" n] that by (simp add: hkey_ok_def ll_map_def kv_value_def)
  then have "out_inv number sfx [] []" by (simp add: out_inv_def)
  from name_files_spec [OF assms(1-3) this] assms(4) card
  obtain fs where fs: "name_files number sfx lps [] 0 = Some (fs, card (tname ` set lps))"
    "map (\<lambda>f. Find_str_value f NTRANSFERNAME) fs = map (\<lambda>lp. Some (df_name number sfx (pos_of ns (tname lp)))) lps"
    unfolding ns_def by auto
  have len: "length fs = length lps" using arg_cong [OF fs(2), of length] by simp
  have nt: "Find_str_value (fs ! i) NTRANSFERNAME = Some (df_name number sfx (pos_of ns (tname (lps ! i))))"
    if "i < length lps" for i
    using arg_cong [OF fs(2), of "\<lambda>x. x ! i"] that len by simp
  have mem: "tname (lps ! i) \<in> set ns" if "i < length lps" for i using that set_ns by auto
  then have small: "pos_of ns (tname (lps ! i)) < 2704" if "i < length lps" for i
    using pos_of_less [OF mem [OF that]] card assms(4) by simp
  show ?thesis
  proof (rule exI [of _ fs], intro conjI allI impI)
    show "name_files number sfx lps [] 0 = Some (fs, card (tname ` set lps))" by (rule fs(1))
    show "length fs = length lps" by (rule len)
    fix i assume i: "i < length lps"
    show "\<exists>k<2704. Find_str_value (fs ! i) NTRANSFERNAME = Some (df_name number sfx k)"
      using nt [OF i] small [OF i] by blast
    fix j assume j: "j < length lps"
    show "(Find_str_value (fs ! i) NTRANSFERNAME = Find_str_value (fs ! j) NTRANSFERNAME)
        = (tname (lps ! i) = tname (lps ! j))"
      using nt i j df_name_inject [OF small [OF i] small [OF j]] pos_of_inject [OF mem [OF i] mem [OF j]] by simp
  qed
qed

subsection \<open>The properties\<close>



text \<open>
  The loop of \<open>Fix_control\<close> that drops the lines which are not in the configured order ends, and
  leaves only lines of a capital letter that is in the order (or any, when the order has a \<open>*\<close>), so
  that the sorting that follows never compares a null position.
\<close>

theorem control_lines_placed:
  assumes "ll_ok (info j)" "kv_inv (destination j)" "val_ok ident" "fc_ok fc"
  shows "\<exists>cf. filter_lines b ord (control_values fc j ident) 0 = Some cf
    \<and> (\<forall>s\<in>set cf. letter_line s \<and> (CHR ''*'' \<in> set ord \<or> hd s \<in> set ord))
    \<and> (\<forall>s\<in>set cf. \<forall>t\<in>set cf. ordercomp ord (Some s) (Some t) \<noteq> None)"
  using placed_control [OF assms] .

definition demo_fc :: fc_env where
  "demo_fc = \<lparr>Suppress_header = False, Always_banner = False, FQDNHost = ''h.dom'', Use_shorthost = True,
     Use_queuename = False, Force_queuename = None, Queue_name = None, Printer_name = Some ''lp'',
     Control_file_line_order = None, time_str = ''now''\<rparr>"

lemma control_lines_placed_witness:
  "\<exists>cf. filter_lines True BSD_order (control_values demo_fc (Init_job\<lparr>info := [''J=x'', ''P=ann'', ''Z=opt'']\<rparr>) (Some ''id'')) 0 = Some cf
    \<and> (\<forall>s\<in>set cf. hd s \<in> set BSD_order)"
proof -
  let ?j = "Init_job\<lparr>info := [''J=x'', ''P=ann'', ''Z=opt'']\<rparr>"
  have k: "ll_ok (info ?j)" "kv_inv (destination ?j)" "val_ok (Some ''id'')" "fc_ok demo_fc"
    "\<not> (CHR ''*'' \<in> set BSD_order)" by code_simp+
  from control_lines_placed [OF k(1-4), of True BSD_order] k(5) show ?thesis by blast
qed

text \<open>
  An output buffer keeps its invariant and grows in time: putting \<open>cnt\<close> bytes never writes outside
  the allocation, appends exactly these bytes to the text of the buffer, and leaves a NUL behind it.
\<close>

theorem Put_buf_appends:
  assumes "buf_ok b" "int (length t) \<ge> cnt" "0 < cnt"
  shows "\<exists>b'. Put_buf_len (Some t) cnt b = Some b' \<and> buf_ok b' \<and> buf_text b' = buf_text b @ take (nat cnt) t
    \<and> obytes b' ! nat (olen b') = NUL"
  using Put_buf_len_ok [OF assms] .

lemma Put_buf_appends_witness:
  "\<exists>b b'. Init_buf None 0 = Some b \<and> Put_buf_len (Some ''abc'') 3 b = Some b' \<and> buf_text b' = ''abc''"
proof -
  obtain b where b: "Init_buf None 0 = Some b" "buf_ok b" "buf_text b = []" using Init_buf_ok [of None 0] by blast
  from Put_buf_appends [OF b(2), of 3 "''abc''"] b show ?thesis by auto
qed

end
