(* ===== verification/QueueScan.thy ===== *)
theory QueueScan
  imports JobState
begin

section \<open>The order of the jobs in a queue (getqueue.c)\<close>

text \<open>
  \<open>Make_sort_key\<close> turns the state of a job into a text, and \<open>Scan_queue\<close> collects the tickets of a
  spool directory in a list that is kept sorted by these texts.
  The lemmas show that comparing the texts is comparing the values behind them in the documented
  order, and what the scan finds. The directory is a list of names with the contents of the ticket
  files; the buffer of the key is the one of \<open>struct job\<close>, 512 bytes.
\<close>

definition key_room :: "cstr \<Rightarrow> int" where
  "key_room sk = 512 - int (length sk)"

definition intval :: "cstr \<Rightarrow> line_list \<Rightarrow> cstr \<Rightarrow> cstr" where
  "intval key l sk =
     sk @ plp_snprintf (key_room sk) ''|%s.0x%08x'' [AStr (Some key), AInt (Find_flag_value l key mod 4294967296)]"

definition revintval :: "cstr \<Rightarrow> line_list \<Rightarrow> cstr \<Rightarrow> cstr" where
  "revintval key l sk =
     sk @ plp_snprintf (key_room sk) ''|%s.0x%08x''
       [AStr (Some key), AInt ((- Find_flag_value l key - 1) mod 4294967296)]"

definition strzval :: "cstr \<Rightarrow> line_list \<Rightarrow> cstr \<Rightarrow> cstr" where
  "strzval key l sk =
     sk @ plp_snprintf (key_room sk) ''|%s.%d'' [AStr (Some key), AInt (if Find_str_value l key \<noteq> None then 1 else 0)]"

definition strnzval :: "cstr \<Rightarrow> line_list \<Rightarrow> cstr \<Rightarrow> cstr" where
  "strnzval key l sk =
     sk @ plp_snprintf (key_room sk) ''|%s.%d''
       [AStr (Some key), AInt (if norm_val (Find_str_value l key) = None then 1 else 0)]"

definition strval :: "cstr \<Rightarrow> line_list \<Rightarrow> cstr \<Rightarrow> bool \<Rightarrow> cstr" where
  "strval key l sk reverse =
     (let c0 = (case Find_str_value l key of Some (x # s) \<Rightarrow> ccode x | _ \<Rightarrow> 0);
          c1 = (if reverse then - c0 else c0);
          c = (- c1) mod 256
      in sk @ plp_snprintf (key_room sk) ''|%s.%02x'' [AStr (Some key), AInt c])"

text \<open>\<open>None\<close>: an order routine is configured and none is compiled in, a fatal error.\<close>

definition Make_sort_key :: "job_env \<Rightarrow> job \<Rightarrow> job option" where
  "Make_sort_key env j =
     (if Order_routine env then None
      else
        (let i = info j;
             k1 = intval REMOVE_TIME i [];
             k2 = intval HOLD_CLASS i k1;
             k3 = intval HOLD_TIME i k2;
             k4 = strnzval MOVE i k3;
             k5 = (if \<not> Ignore_requested_user_priority env
                   then strval PRIORITY i k4 (Reverse_priority_order env) else k4);
             k6 = revintval PRIORITY_TIME i k5;
             k7 = intval JOB_TIME i k6;
             k8 = intval JOB_TIME_USEC i k7;
             k9 = intval NUMBER i k8
         in Some (j\<lparr>sort_key := k9\<rparr>)))"

subsection \<open>Scan\_queue\<close>

text \<open>
  The test on the name of a file: whether it is removed, is a ticket, or neither. The test on the
  suffix reads before the name when the name is shorter, \<open>None\<close>.
\<close>

datatype scan_class = Remove_file | Ticket | Skip_file

definition ticket_name :: "cstr \<Rightarrow> bool" where
  "ticket_name n \<longleftrightarrow> cval_at n 0 = 104 \<and> cval_at n 1 = 102 \<and> 3 < length n \<and> isalpha (n ! 2) \<and> isdigit (n ! 3)"

definition scan_name :: "cstr option \<Rightarrow> cstr option \<Rightarrow> cstr \<Rightarrow> scan_class option" where
  "scan_name remove_prefix remove_suffix n =
     (let pre = opt_str remove_prefix; suf = opt_str remove_suffix in
      if pre \<noteq> [] \<and> take (length pre) n = pre then Some Remove_file
      else if suf \<noteq> [] \<and> length n < length suf then None
      else if suf \<noteq> [] \<and> drop (length n - length suf) n = suf then Some Remove_file
      else Some (if ticket_name n then Ticket else Skip_file))"

record scan_state =
  order_list :: line_list
  n_printable :: int
  n_held :: int
  n_move :: int
  n_error :: int
  n_done :: int
  removed :: "cstr list"

definition scan_init :: scan_state where
  "scan_init = \<lparr>order_list = [], n_printable = 0, n_held = 0, n_move = 0, n_error = 0, n_done = 0, removed = []\<rparr>"

definition count_state :: "pstate \<Rightarrow> scan_state \<Rightarrow> scan_state" where
  "count_state p st =
     st\<lparr>n_printable := n_printable st + (if printable p \<noteq> 0 then 1 else 0),
        n_held := n_held st + (if held p \<noteq> 0 then 1 else 0),
        n_move := n_move st + (if moved p \<noteq> 0 then 1 else 0),
        n_error := n_error st + (if perror p \<noteq> 0 then 1 else 0),
        n_done := n_done st + (if pdone p \<noteq> 0 then 1 else 0)\<rparr>"

definition scan_ticket ::
  "job_env \<Rightarrow> line_list \<Rightarrow> bool \<Rightarrow> cstr \<Rightarrow> cstr option \<Rightarrow> scan_state \<Rightarrow> scan_state option" where
  "scan_ticket env sc only_queue_process name content st =
     (let j = Get_job_ticket_file content Init_job in
      if info j = [] then Some st
      else
        (case Job_printable env j sc of
           None \<Rightarrow> None
         | Some (j1, p) \<Rightarrow>
             (let st1 = count_state p st in
              if \<not> only_queue_process \<or> printable p \<noteq> 0 \<or> moved p \<noteq> 0 \<or> perror p \<noteq> 0 \<or> pdone p \<noteq> 0 then
                map_option (\<lambda>j2. st1\<lparr>order_list := Set_str_value (order_list st1) (sort_key j2) (Some name)\<rparr>)
                  (Make_sort_key env j1)
              else Some st1)))"

fun scan_loop ::
  "job_env \<Rightarrow> line_list \<Rightarrow> bool \<Rightarrow> cstr option \<Rightarrow> cstr option \<Rightarrow> (cstr \<times> cstr option) list \<Rightarrow> scan_state
     \<Rightarrow> scan_state option" where
  "scan_loop env sc oqp pre suf [] st = Some st"
| "scan_loop env sc oqp pre suf ((name, content) # dir) st =
     (case scan_name pre suf name of
        None \<Rightarrow> None
      | Some Remove_file \<Rightarrow> scan_loop env sc oqp pre suf dir (st\<lparr>removed := removed st @ [name]\<rparr>)
      | Some Skip_file \<Rightarrow> scan_loop env sc oqp pre suf dir st
      | Some Ticket \<Rightarrow>
          (case scan_ticket env sc oqp name content st of
             None \<Rightarrow> None
           | Some st' \<Rightarrow> scan_loop env sc oqp pre suf dir st'))"

text \<open>A null directory is one that cannot be opened; the returned status is 1 then.\<close>

definition Scan_queue ::
  "job_env \<Rightarrow> line_list \<Rightarrow> bool \<Rightarrow> cstr option \<Rightarrow> cstr option \<Rightarrow> (cstr \<times> cstr option) list option
     \<Rightarrow> (scan_state \<times> int) option" where
  "Scan_queue env sc oqp pre suf dir =
     (case dir of
        None \<Rightarrow> Some (scan_init, 1)
      | Some d \<Rightarrow> map_option (\<lambda>st. (st, 0)) (scan_loop env sc oqp pre suf d scan_init))"

subsection \<open>The text of a sort key\<close>

text \<open>
  \<open>sort_values\<close> is the tuple of numbers that a key stands for, in their documented order: removed
  jobs last, then by hold class and hold time, jobs to be moved first, then by the letter of the
  priority, the time the job was moved to the top (the latest first), its arrival and its number.
  \<open>sort_widths\<close> are the digits the key has for each.
\<close>

definition flag_word :: "line_list \<Rightarrow> cstr \<Rightarrow> int" where
  "flag_word i key = Find_flag_value i key mod 4294967296"

definition priority_byte :: "line_list \<Rightarrow> bool \<Rightarrow> int" where
  "priority_byte i reverse =
     (let c = (case Find_str_value i PRIORITY of Some (x # s) \<Rightarrow> ccode x | _ \<Rightarrow> 0)
      in (if reverse then c else - c) mod 256)"

definition sort_values :: "job_env \<Rightarrow> line_list \<Rightarrow> int list" where
  "sort_values env i =
     [flag_word i REMOVE_TIME, flag_word i HOLD_CLASS, flag_word i HOLD_TIME,
      (if norm_val (Find_str_value i MOVE) = None then 1 else 0)]
     @ (if Ignore_requested_user_priority env then [] else [priority_byte i (Reverse_priority_order env)])
     @ [4294967295 - flag_word i PRIORITY_TIME, flag_word i JOB_TIME, flag_word i JOB_TIME_USEC,
        flag_word i NUMBER]"

definition sort_fields :: "job_env \<Rightarrow> (cstr \<times> nat) list" where
  "sort_fields env =
     [(''|remove_time.0x'', 8), (''|hold_class.0x'', 8), (''|hold_time.0x'', 8), (''|move.'', 1)]
     @ (if Ignore_requested_user_priority env then [] else [(''|priority.'', 2)])
     @ [(''|priority_time.0x'', 8), (''|job_time.0x'', 8), (''|job_time_usec.0x'', 8), (''|number.0x'', 8)]"

definition field_text :: "(cstr \<times> nat) \<times> int \<Rightarrow> cstr" where
  "field_text f = fst (fst f) @ padded 16 (snd (fst f)) (nat (snd f))"

definition key_text :: "(cstr \<times> nat) list \<Rightarrow> int list \<Rightarrow> cstr" where
  "key_text fs vs = concat (map field_text (zip fs vs))"

lemma text_hex8:
  "dopr_text fd em vis ''|%s.0x%08x'' [AStr (Some k), AInt v] =
     Some (''|'' @ visible vis k @ ''.0x'' @ padded 16 8 (nat (v mod 4294967296)))"
proof -
  have m: "v mod 4294967296 mod 18446744073709551616 = v mod 4294967296"
    by (intro mod_pos_pos_trivial) (auto intro: less_trans [OF pos_mod_bound])
  have "fmtnum_text (v mod 4294967296) 16 False False 8 True = padded 16 8 (nat (v mod 4294967296))"
    using fmtnum_padded_pos(2) [of "v mod 4294967296" 8] pos_mod_bound [of 4294967296 v]
    by simp
  then show ?thesis by (simp add: fmt_eval)
qed

lemma text_hex2:
  assumes "0 \<le> v" "v < 256"
  shows "dopr_text fd em vis ''|%s.%02x'' [AStr (Some k), AInt v] =
     Some (''|'' @ visible vis k @ ''.'' @ padded 16 2 (nat v))"
proof -
  have "v mod 4294967296 = v" using assms by (intro mod_pos_pos_trivial) auto
  moreover have "fmtnum_text v 16 False False 2 True = padded 16 2 (nat v)"
    using fmtnum_padded_pos(2) [of v 2] assms by simp
  ultimately show ?thesis by (simp add: fmt_eval)
qed

lemma text_digit:
  "dopr_text fd em vis ''|%s.%d'' [AStr (Some k), AInt (if b then 1 else 0)] =
     Some (''|'' @ visible vis k @ ''.'' @ padded 16 1 (if b then 1 else 0))"
  by (simp add: fmt_eval fmtnum_dec dec_text_def padded_def nat_digits.simps)

lemma snprintf_field:
  assumes "dopr_text (\<lambda>_ _. []) [] True fmt args = Some (p @ visible True k @ q @ padded 16 w n)"
    and "flag_key k" "cstr_ok p" "cstr_ok q"
    and "length sk + length p + length k + length q + length (padded 16 w n) < 512"
  shows "plp_snprintf (key_room sk) fmt args = p @ k @ q @ padded 16 w n"
proof -
  have vis: "visible True k = k" using assms(2) by (intro visible_clean) (simp add: flag_key_def)
  have ok: "cstr_ok (p @ k @ q @ padded 16 w n)"
    using assms(2-4) by (simp add: flag_key_def key_ok_cstr_ok cstr_ok_padded)
  have "plp_snprintf (key_room sk) fmt args = take (nat (key_room sk - 1)) (p @ k @ q @ padded 16 w n)"
    using assms(1,5) ok by (intro snprintf_text) (simp_all add: vis key_room_def)
  then show ?thesis using assms(5) by (simp add: key_room_def)
qed

lemma flag_word_range: "0 \<le> flag_word i k" "flag_word i k < 4294967296"
  by (simp_all add: flag_word_def)

lemma length_hex8: "0 \<le> v \<Longrightarrow> v < 4294967296 \<Longrightarrow> length (padded 16 8 (nat v)) = 8"
  using length_padded [of 16 "nat v" 7] by (simp add: nat_less_iff)

lemma length_hex2: "0 \<le> v \<Longrightarrow> v < 256 \<Longrightarrow> length (padded 16 2 (nat v)) = 2"
  using length_padded [of 16 "nat v" 1] by (simp add: nat_less_iff numeral_2_eq_2 del: One_nat_def)

lemma hex8_field:
  assumes "flag_key k" "length sk + length k + 12 < 512" "0 \<le> v" "v < 4294967296"
  shows "plp_snprintf (key_room sk) ''|%s.0x%08x'' [AStr (Some k), AInt v] =
    field_text ((''|'' @ k @ ''.0x'', 8), v)"
proof -
  have m: "v mod 4294967296 = v" using assms(3,4) by (rule mod_pos_pos_trivial)
  show ?thesis
    unfolding field_text_def
    by (subst snprintf_field [OF text_hex8 assms(1)])
      (use assms(2) length_hex8 [OF assms(3,4)] in \<open>simp_all add: m NUL_def\<close>)
qed

lemma intval_text:
  assumes "flag_key k" "length sk + length k + 12 < 512"
  shows "intval k l sk = sk @ field_text ((''|'' @ k @ ''.0x'', 8), flag_word l k)"
  unfolding intval_def flag_word_def [symmetric]
  by (simp only: hex8_field [OF assms flag_word_range])

lemma not_mod: "0 < m \<Longrightarrow> (- x - 1) mod m = m - 1 - x mod m" for m :: int
proof -
  assume m: "0 < m"
  have "- x - 1 = (m - 1 - x mod m) + m * (- (x div m) - 1)"
    using mult_div_mod_eq [of m x] by (simp add: algebra_simps)
  then have "(- x - 1) mod m = (m - 1 - x mod m) mod m" by (metis mod_mult_self2)
  also have "\<dots> = m - 1 - x mod m"
    using pos_mod_bound [OF m, of x] pos_mod_sign [OF m, of x] by (intro mod_pos_pos_trivial) linarith+
  finally show ?thesis .
qed

lemma revintval_text:
  assumes "flag_key k" "length sk + length k + 12 < 512"
  shows "revintval k l sk = sk @ field_text ((''|'' @ k @ ''.0x'', 8), 4294967295 - flag_word l k)"
proof -
  have e: "(- Find_flag_value l k - 1) mod 4294967296 = 4294967295 - flag_word l k"
    by (simp add: not_mod flag_word_def)
  show ?thesis
    unfolding revintval_def e using flag_word_range [of l k]
    by (subst hex8_field [OF assms]) auto
qed

lemma nat_bit: "nat (if b then 1 else 0) = (if b then 1 else 0)"
  by simp

lemma strnzval_text:
  assumes "flag_key k" "length sk + length k + 3 < 512"
  shows "strnzval k l sk =
    sk @ field_text ((''|'' @ k @ ''.'', 1), if norm_val (Find_str_value l k) = None then 1 else 0)"
proof -
  let ?b = "norm_val (Find_str_value l k) = None"
  have w: "length (padded 16 1 n) = 1" if "n \<le> 1" for n
    using length_padded [of 16 n 0] that by simp
  have "plp_snprintf (key_room sk) ''|%s.%d'' [AStr (Some k), AInt (if ?b then 1 else 0)] =
      ''|'' @ k @ ''.'' @ padded 16 1 (if ?b then 1 else 0)"
    by (rule snprintf_field [OF text_digit assms(1)]) (use assms(2) w in \<open>simp_all add: NUL_def\<close>)
  then show ?thesis
    unfolding strnzval_def field_text_def fst_conv snd_conv append_assoc nat_bit
    by (simp only: append_assoc)
qed

lemma strval_text:
  assumes "flag_key PRIORITY" "length sk + 12 < 512"
  shows "strval PRIORITY l sk reverse = sk @ field_text ((''|priority.'', 2), priority_byte l reverse)"
proof -
  have e: "0 \<le> priority_byte l reverse" "priority_byte l reverse < 256"
    by (simp_all add: priority_byte_def Let_def)
  have d: "strval PRIORITY l sk reverse =
      sk @ plp_snprintf (key_room sk) ''|%s.%02x'' [AStr (Some PRIORITY), AInt (priority_byte l reverse)]"
    by (simp add: strval_def priority_byte_def Let_def)
  have "length PRIORITY = 8" by (simp add: PRIORITY_def)
  then show ?thesis
    unfolding d field_text_def
    by (subst snprintf_field [OF text_hex2 [OF e] assms(1)])
      (use assms(2) length_hex2 [OF e] in \<open>auto simp: NUL_def PRIORITY_def\<close>)
qed

lemma sort_flag_keys:
  "flag_key REMOVE_TIME" "flag_key HOLD_CLASS" "flag_key HOLD_TIME" "flag_key MOVE" "flag_key PRIORITY"
  "flag_key PRIORITY_TIME" "flag_key JOB_TIME" "flag_key JOB_TIME_USEC" "flag_key NUMBER"
proof -
  show "flag_key JOB_TIME_USEC"
    by (simp add: JOB_TIME_USEC_def flag_key_def key_ok_def cstr_ok_def NUL_def Option_value_sep_def)
      (simp add: iscntrl_def ccode_def)
qed (use job_keys_ok in simp_all)

lemma length_field:
  "length (field_text ((p, 8), flag_word l k)) = length p + 8"
  "length (field_text ((p, 8), 4294967295 - flag_word l k)) = length p + 8"
  "length (field_text ((p, 1), if b then 1 else 0)) = length p + 1"
  "length (field_text ((p, 2), priority_byte l r)) = length p + 2"
  "length (field_text ((p, Suc 0), 0)) = length p + 1" "length (field_text ((p, Suc 0), 1)) = length p + 1"
proof -
  show "length (field_text ((p, 8), flag_word l k)) = length p + 8"
    using length_hex8 [OF flag_word_range] by (simp add: field_text_def)
  show "length (field_text ((p, 8), 4294967295 - flag_word l k)) = length p + 8"
    using length_hex8 [of "4294967295 - flag_word l k"] flag_word_range [of l k]
    by (simp add: field_text_def)
  show "length (field_text ((p, 1), if b then 1 else 0)) = length p + 1"
    "length (field_text ((p, Suc 0), 0)) = length p + 1" "length (field_text ((p, Suc 0), 1)) = length p + 1"
    using length_padded [of 16 0 0] length_padded [of 16 1 0] by (simp_all add: field_text_def)
  show "length (field_text ((p, 2), priority_byte l r)) = length p + 2"
    using length_hex2 [of "priority_byte l r"] by (simp add: field_text_def priority_byte_def Let_def)
qed

lemma key_lengths:
  "length REMOVE_TIME = 11" "length HOLD_CLASS = 10" "length HOLD_TIME = 9" "length MOVE = 4"
  "length PRIORITY = 8" "length PRIORITY_TIME = 13" "length JOB_TIME = 8" "length JOB_TIME_USEC = 13"
  "length NUMBER = 6"
  by (simp_all add: REMOVE_TIME_def HOLD_CLASS_def HOLD_TIME_def MOVE_def PRIORITY_def PRIORITY_TIME_def
      JOB_TIME_def JOB_TIME_USEC_def NUMBER_def)

text \<open>The fields before the priority, and those behind it.\<close>

lemma first_fields:
  fixes i :: line_list
  defines "a \<equiv> intval HOLD_TIME i (intval HOLD_CLASS i (intval REMOVE_TIME i []))"
  shows "strnzval MOVE i a = key_text (take 4 (sort_fields env)) (take 4 (sort_values env i))"
    and "length (strnzval MOVE i a) = 73"
proof -
  have f: "intval REMOVE_TIME i [] = field_text ((''|remove_time.0x'', 8), flag_word i REMOVE_TIME)"
    by (simp add: intval_text sort_flag_keys key_lengths) (simp add: REMOVE_TIME_def)
  show "length (strnzval MOVE i a) = 73"
    by (simp add: a_def intval_text strnzval_text sort_flag_keys key_lengths length_field)
  show "strnzval MOVE i a = key_text (take 4 (sort_fields env)) (take 4 (sort_values env i))"
    by (simp add: a_def f intval_text strnzval_text sort_flag_keys key_lengths length_field
        key_text_def sort_fields_def sort_values_def)
      (simp add: HOLD_CLASS_def HOLD_TIME_def MOVE_def)
qed

lemma last_fields:
  fixes i :: line_list
  assumes "length sk \<le> 120"
  shows "intval NUMBER i (intval JOB_TIME_USEC i (intval JOB_TIME i (revintval PRIORITY_TIME i sk))) =
    sk @ key_text (drop (length (sort_fields env) - 4) (sort_fields env))
      (drop (length (sort_fields env) - 4) (sort_values env i))"
proof -
  have "intval NUMBER i (intval JOB_TIME_USEC i (intval JOB_TIME i (revintval PRIORITY_TIME i sk))) =
      sk @ field_text ((''|'' @ PRIORITY_TIME @ ''.0x'', 8), 4294967295 - flag_word i PRIORITY_TIME)
      @ field_text ((''|'' @ JOB_TIME @ ''.0x'', 8), flag_word i JOB_TIME)
      @ field_text ((''|'' @ JOB_TIME_USEC @ ''.0x'', 8), flag_word i JOB_TIME_USEC)
      @ field_text ((''|'' @ NUMBER @ ''.0x'', 8), flag_word i NUMBER)"
    using assms by (simp add: intval_text revintval_text sort_flag_keys key_lengths length_field)
  then show ?thesis
    by (simp add: key_text_def sort_fields_def sort_values_def)
      (simp add: PRIORITY_TIME_def JOB_TIME_def JOB_TIME_USEC_def NUMBER_def)
qed

lemma Make_sort_key_text:
  assumes "\<not> Order_routine env"
  shows "Make_sort_key env j = Some (j\<lparr>sort_key := key_text (sort_fields env) (sort_values env (info j))\<rparr>)"
proof -
  define a where "a = strnzval MOVE (info j)
    (intval HOLD_TIME (info j) (intval HOLD_CLASS (info j) (intval REMOVE_TIME (info j) [])))"
  define b where "b = (if \<not> Ignore_requested_user_priority env
      then strval PRIORITY (info j) a (Reverse_priority_order env) else a)"
  have la: "length a = 73" by (simp add: a_def first_fields)
  have bt: "b = a @ (if \<not> Ignore_requested_user_priority env
      then field_text ((''|priority.'', 2), priority_byte (info j) (Reverse_priority_order env)) else [])"
    by (simp add: b_def strval_text sort_flag_keys la)
  have lb: "length b \<le> 120" by (simp add: bt la length_field)
  have "Make_sort_key env j = Some (j\<lparr>sort_key := intval NUMBER (info j) (intval JOB_TIME_USEC (info j)
      (intval JOB_TIME (info j) (revintval PRIORITY_TIME (info j) b)))\<rparr>)"
    using assms by (simp add: Make_sort_key_def Let_def a_def b_def)
  also have "\<dots> = Some (j\<lparr>sort_key := b @ key_text (drop (length (sort_fields env) - 4) (sort_fields env))
      (drop (length (sort_fields env) - 4) (sort_values env (info j)))\<rparr>)"
    by (simp only: last_fields [OF lb, where i = "info j" and env = env])
  also have "b @ key_text (drop (length (sort_fields env) - 4) (sort_fields env))
      (drop (length (sort_fields env) - 4) (sort_values env (info j))) =
      key_text (sort_fields env) (sort_values env (info j))"
    unfolding bt unfolding a_def first_fields(1) [where env = env]
    by (simp add: key_text_def sort_fields_def sort_values_def)
  finally show ?thesis .
qed

subsection \<open>Comparing keys is comparing the values\<close>

lemma less_append_same:
  "length a = length b \<Longrightarrow> a @ c < b @ d \<longleftrightarrow> a < b \<or> a = b \<and> c < d" for a b :: "int list"
  by (induction a b rule: list_induct2) auto

lemma fold_codes_append: "fold_codes (s @ t) = fold_codes s @ fold_codes t"
  by (simp add: fold_codes_def)

lemma fold_codes_padded:
  assumes "2 \<le> b" "b \<le> 16"
  shows "fold_codes (padded b k n) = codes (padded b k n)"
  unfolding fold_codes_def codes_def
proof (rule map_cong [OF refl])
  fix c assume "c \<in> set (padded b k n)"
  from padded_char [OF assms this] obtain d where d: "d < b" "c = digit_char d" by blast
  then have "d < 16" using assms by simp
  then show "ccode (tolower c) = ccode c"
    by (simp add: d(2) tolower_def isupper_def ccode_digit_char)
qed

text \<open>Field values that fit in the digits of their field.\<close>

definition fits :: "(cstr \<times> nat) list \<Rightarrow> int list \<Rightarrow> bool" where
  "fits fs vs \<longleftrightarrow> list_all2 (\<lambda>f v. 0 \<le> v \<and> 0 < snd f \<and> nat v < 16 ^ snd f) fs vs"

lemma key_text_compare:
  "fits fs vs \<Longrightarrow> fits fs ws \<Longrightarrow>
   (fold_codes (key_text fs vs) < fold_codes (key_text fs ws) \<longleftrightarrow> vs < ws) \<and>
   (fold_codes (key_text fs vs) = fold_codes (key_text fs ws) \<longleftrightarrow> vs = ws)"
proof (induction fs arbitrary: vs ws)
  case Nil
  then show ?case by (simp add: fits_def)
next
  case (Cons f fs)
  from Cons.prems obtain v vs' w ws' where v: "vs = v # vs'" and w: "ws = w # ws'"
    by (cases vs; cases ws) (auto simp: fits_def)
  from Cons.prems have IH:
    "(fold_codes (key_text fs vs') < fold_codes (key_text fs ws') \<longleftrightarrow> vs' < ws') \<and>
     (fold_codes (key_text fs vs') = fold_codes (key_text fs ws') \<longleftrightarrow> vs' = ws')"
    by (intro Cons.IH) (simp_all add: v w fits_def)
  obtain p k where f: "f = (p, Suc k)"
    using Cons.prems(1) by (cases f) (auto simp: v fits_def gr0_conv_Suc)
  have r: "0 \<le> v" "0 \<le> w" "nat v < 16 ^ Suc k" "nat w < 16 ^ Suc k"
    using Cons.prems by (simp_all add: v w f fits_def nat_less_iff)
  have len: "length (codes (padded 16 (Suc k) (nat v))) = length (codes (padded 16 (Suc k) (nat w)))"
    using length_padded [OF _ r(3)] length_padded [OF _ r(4)] by (simp add: codes_def)
  have lt: "codes (padded 16 (Suc k) (nat v)) < codes (padded 16 (Suc k) (nat w)) \<longleftrightarrow> v < w"
    using padded_compare [OF _ _ r(3,4)] nat_less_eq_zless [OF r(1), of w] by simp
  have eq: "padded 16 (Suc k) (nat v) = padded 16 (Suc k) (nat w) \<longleftrightarrow> v = w"
    using padded_inject [of 16 "Suc k"] r(1,2) by (simp add: nat_eq_iff)
  have split: "fold_codes (key_text (f # fs) (x # xs)) =
      fold_codes p @ codes (padded 16 (Suc k) (nat x)) @ fold_codes (key_text fs xs)" for x xs
    by (simp add: key_text_def field_text_def f fold_codes_append fold_codes_padded)
  show ?case
    unfolding v w split using IH len
    by (simp add: less_append_same lt eq)
qed

lemma fits_sort_values: "fits (sort_fields env) (sort_values env i)"
proof -
  have "0 \<le> priority_byte i r" "priority_byte i r < 256" for r
    by (simp_all add: priority_byte_def Let_def)
  then show ?thesis
    using flag_word_range [of i] less_imp_le [OF flag_word_range(2) [of i PRIORITY_TIME]]
    by (auto simp: fits_def sort_fields_def sort_values_def nat_less_iff algebra_simps)
      (smt (verit) flag_word_range)+
qed

lemma cstr_ok_key_text: "\<forall>f\<in>set fs. cstr_ok (fst f) \<Longrightarrow> cstr_ok (key_text fs vs)"
proof (induction fs arbitrary: vs)
  case (Cons f fs)
  then show ?case
    by (cases vs) (auto simp: key_text_def field_text_def cstr_ok_padded)
qed (simp add: key_text_def)

lemma cstr_ok_sort_key: "cstr_ok (key_text (sort_fields env) vs)"
  by (intro cstr_ok_key_text) (simp add: sort_fields_def NUL_def)

subsection \<open>What a scan lists\<close>

text \<open>The entry that a name of the directory contributes to the list: its key and the name.\<close>

definition ticket_entry ::
  "job_env \<Rightarrow> line_list \<Rightarrow> bool \<Rightarrow> cstr \<Rightarrow> cstr option \<Rightarrow> (cstr \<times> cstr option) list" where
  "ticket_entry env sc oqp name content =
     (let j = Get_job_ticket_file content Init_job in
      if info j = [] then []
      else (case Job_printable env j sc of
              None \<Rightarrow> []
            | Some (j1, p) \<Rightarrow>
                if \<not> oqp \<or> printable p \<noteq> 0 \<or> moved p \<noteq> 0 \<or> perror p \<noteq> 0 \<or> pdone p \<noteq> 0 then
                  [(key_text (sort_fields env) (sort_values env (info j1)), Some name)]
                else []))"

fun scan_entries ::
  "job_env \<Rightarrow> line_list \<Rightarrow> bool \<Rightarrow> cstr option \<Rightarrow> cstr option \<Rightarrow> (cstr \<times> cstr option) list
     \<Rightarrow> (cstr \<times> cstr option) list" where
  "scan_entries env sc oqp pre suf [] = []"
| "scan_entries env sc oqp pre suf ((name, content) # dir) =
     (if scan_name pre suf name = Some Ticket then ticket_entry env sc oqp name content else [])
     @ scan_entries env sc oqp pre suf dir"

lemma put_all_append: "put_all f s (xs @ ys) = put_all f (put_all f s xs) ys"
  by (induction xs arbitrary: s) auto

lemma scan_ticket_entry:
  assumes "\<not> Order_routine env" "scan_ticket env sc oqp name content st = Some st'"
  shows "order_list st' = put_all Set_str_value (order_list st) (ticket_entry env sc oqp name content)
    \<and> removed st' = removed st"
  using assms(2) Make_sort_key_text [OF assms(1)]
  by (auto simp: scan_ticket_def ticket_entry_def Let_def count_state_def split: if_splits option.splits)

lemma scan_loop_entries:
  assumes "\<not> Order_routine env"
  shows "scan_loop env sc oqp pre suf dir st = Some st' \<Longrightarrow>
    order_list st' = put_all Set_str_value (order_list st) (scan_entries env sc oqp pre suf dir)
    \<and> removed st' = removed st @ filter (\<lambda>n. scan_name pre suf n = Some Remove_file) (map fst dir)"
proof (induction dir arbitrary: st)
  case (Cons e dir)
  obtain name content where e: "e = (name, content)" by fastforce
  from Cons.prems obtain c where c: "scan_name pre suf name = Some c" by (auto simp: e split: option.splits)
  show ?case
  proof (cases c)
    case Ticket
    with Cons.prems c obtain st1 where st1: "scan_ticket env sc oqp name content st = Some st1"
      "scan_loop env sc oqp pre suf dir st1 = Some st'" by (auto simp: e split: option.splits)
    from Cons.IH [OF st1(2)] scan_ticket_entry [OF assms st1(1)] c Ticket
    show ?thesis by (simp add: e put_all_append)
  next
    case Remove_file
    with Cons.prems c have "scan_loop env sc oqp pre suf dir (st\<lparr>removed := removed st @ [name]\<rparr>) = Some st'"
      by (simp add: e)
    from Cons.IH [OF this] c Remove_file show ?thesis by (simp add: e)
  next
    case Skip_file
    with Cons.prems c have "scan_loop env sc oqp pre suf dir st = Some st'" by (simp add: e)
    from Cons.IH [OF this] c Skip_file show ?thesis by (simp add: e)
  qed
qed simp

lemma key_text_chars:
  "set (key_text fs ws) \<subseteq> (\<Union>f\<in>set fs. set (fst f)) \<union> digit_char ` {0..<16}"
proof (induction fs arbitrary: ws)
  case (Cons f fs)
  have "set (padded 16 n v) \<subseteq> digit_char ` {0..<16}" for n v by (rule padded_set) simp
  then have "set (field_text (f, v)) \<subseteq> set (fst f) \<union> digit_char ` {0..<16}" for v
    unfolding field_text_def fst_conv snd_conv set_append by blast
  moreover have "key_text (f # fs) (v # vs) = field_text (f, v) @ key_text fs vs" for v vs
    by (simp add: key_text_def)
  ultimately have "set (key_text (f # fs) (v # vs)) \<subseteq> (\<Union>f\<in>set (f # fs). set (fst f)) \<union> digit_char ` {0..<16}"
    for v vs using Cons.IH [of vs] by fastforce
  moreover have "key_text (f # fs) [] = []" by (simp add: key_text_def)
  ultimately show ?case by (cases ws) simp_all
qed (simp add: key_text_def)

lemma digit_char_no_sep: "d < 16 \<Longrightarrow> digit_char d \<notin> set Option_value_sep"
  using ccode_digit_char [of d]
  by (auto simp: Option_value_sep_def ccode_def dest!: arg_cong [where f = ccode] split: if_splits)

lemma key_ok_sort_key: "key_ok (key_text (sort_fields env) vs)"
proof -
  have f: "(\<Union>f\<in>set (sort_fields env). set (fst f)) \<inter> set Option_value_sep = {}"
    by (simp add: sort_fields_def Option_value_sep_def)
  then have "set (key_text (sort_fields env) vs) \<inter> set Option_value_sep = {}"
  proof -
    have "digit_char ` {0..<16} \<inter> set Option_value_sep = {}" using digit_char_no_sep by auto
    with f key_text_chars [of "sort_fields env" vs] show ?thesis by blast
  qed
  with cstr_ok_sort_key show ?thesis by (simp add: key_ok_def)
qed

lemma scan_entries_ok:
  assumes "\<forall>n\<in>set (map fst dir). cstr_ok n"
  shows "\<forall>(k, v)\<in>set (scan_entries env sc oqp pre suf dir). key_ok k \<and> val_ok v \<and> norm_val v = v"
proof -
  have t: "scan_name pre suf n = Some Ticket \<Longrightarrow> n \<noteq> []" for n
    by (auto simp: scan_name_def ticket_name_def Let_def split: if_splits)
  have e: "(k, v) \<in> set (ticket_entry env sc oqp n c) \<Longrightarrow> key_ok k \<and> v = Some n" for k v n c
    by (auto simp: ticket_entry_def Let_def key_ok_sort_key split: if_splits option.splits)
  have nv: "n \<noteq> [] \<Longrightarrow> norm_val (Some n) = Some n" for n by (cases n) (simp_all add: norm_val_def)
  show ?thesis
    using assms
  proof (induction dir)
    case (Cons d dir)
    show ?case
    proof clarify
      fix k v assume "(k, v) \<in> set (scan_entries env sc oqp pre suf (d # dir))"
      then consider "(k, v) \<in> set (ticket_entry env sc oqp (fst d) (snd d))" "fst d \<noteq> []"
        | "(k, v) \<in> set (scan_entries env sc oqp pre suf dir)"
        by (cases d) (auto split: if_splits dest: t)
      then show "key_ok k \<and> val_ok v \<and> norm_val v = v"
      proof cases
        case 1
        with e [OF 1(1)] Cons.prems show ?thesis by (simp add: nv)
      next
        case 2
        with Cons show ?thesis by fastforce
      qed
    qed
  qed simp
qed

subsection \<open>Properties\<close>

text \<open>
  C26: the order of the queue. When no private order routine is configured, every job gets a sort
  key, and comparing the keys of two jobs as the queue's list does, without regard to case, is
  comparing their values lexicographically: removed jobs last, then by hold class and hold time, then
  jobs to be moved first, then by priority, then the jobs moved to the top, the latest first, then by
  arrival time and number. Two keys are equal only if all these values are.
\<close>

theorem sort_key_order:
  assumes "\<not> Order_routine env"
  shows "\<exists>ka kb. Make_sort_key env a = Some (a\<lparr>sort_key := ka\<rparr>) \<and> Make_sort_key env b = Some (b\<lparr>sort_key := kb\<rparr>) \<and>
    (cmp_nocase ka kb < 0 \<longleftrightarrow> sort_values env (info a) < sort_values env (info b)) \<and>
    (cmp_nocase ka kb = 0 \<longleftrightarrow> sort_values env (info a) = sort_values env (info b))"
proof (intro exI conjI)
  let ?k = "\<lambda>j. key_text (sort_fields env) (sort_values env (info j))"
  show "Make_sort_key env a = Some (a\<lparr>sort_key := ?k a\<rparr>)" "Make_sort_key env b = Some (b\<lparr>sort_key := ?k b\<rparr>)"
    by (rule Make_sort_key_text [OF assms])+
  show "cmp_nocase (?k a) (?k b) < 0 \<longleftrightarrow> sort_values env (info a) < sort_values env (info b)"
    "cmp_nocase (?k a) (?k b) = 0 \<longleftrightarrow> sort_values env (info a) = sort_values env (info b)"
    using key_text_compare [OF fits_sort_values fits_sort_values, of env "info a" "info b"]
    by (simp_all add: cmp_nocase_def safestrcasecmp_def strcasecmp_sgn cstr_ok_sort_key)
qed

definition demo_first :: job where
  "demo_first = Init_job\<lparr>info := [''job_time=0x10'', ''number=007'', ''priority=A'']\<rparr>"

definition demo_second :: job where
  "demo_second = Init_job\<lparr>info := [''job_time=0x20'', ''number=003'', ''priority=A'']\<rparr>"

lemma sort_key_order_witness:
  "\<exists>ka kb. Make_sort_key demo_job_env demo_first = Some (demo_first\<lparr>sort_key := ka\<rparr>)
    \<and> Make_sort_key demo_job_env demo_second = Some (demo_second\<lparr>sort_key := kb\<rparr>) \<and> cmp_nocase ka kb < 0"
proof -
  have "\<not> Order_routine demo_job_env"
    "sort_values demo_job_env (info demo_first) < sort_values demo_job_env (info demo_second)" by code_simp+
  with sort_key_order [of demo_job_env demo_first demo_second] show ?thesis by blast
qed

text \<open>
  What a scan of the spool directory leaves. Exactly the names with the prefix or suffix asked for
  are removed, in the order of the directory, and the list is sorted by the sort keys with one entry
  for each: under a key stands the last ticket of the directory that has it. Tickets whose values
  agree therefore hide one another.
\<close>

theorem Scan_queue_order:
  assumes "\<not> Order_routine env" "\<forall>n\<in>set (map fst dir). cstr_ok n"
    and "Scan_queue env sc oqp pre suf (Some dir) = Some (st, rc)"
  shows "rc = 0 \<and> removed st = filter (\<lambda>n. scan_name pre suf n = Some Remove_file) (map fst dir)
    \<and> kv_inv (order_list st)
    \<and> (\<forall>k. key_ok k \<longrightarrow> Find_str_value (order_list st) k =
        Option.bind (map_of (rev (map (apfst fold_codes) (scan_entries env sc oqp pre suf dir))) (fold_codes k)) id)"
proof -
  let ?e = "scan_entries env sc oqp pre suf dir"
  from assms(3) have l: "scan_loop env sc oqp pre suf dir scan_init = Some st" "rc = 0"
    by (auto simp: Scan_queue_def)
  from scan_loop_entries [OF assms(1) l(1)] have o: "order_list st = put_all Set_str_value [] ?e"
    "removed st = filter (\<lambda>n. scan_name pre suf n = Some Remove_file) (map fst dir)"
    by (simp_all add: scan_init_def)
  note ok = scan_entries_ok [OF assms(2), of env sc oqp pre suf]
  have m: "map (\<lambda>(k, v). (fold_codes k, norm_val v)) ?e = map (apfst fold_codes) ?e"
    using ok by (intro map_cong) auto
  have "kv_inv (order_list st)" unfolding o(1) using ok by (intro kv.put_all_inv) auto
  moreover have "Find_str_value (order_list st) k =
      Option.bind (map_of (rev (map (apfst fold_codes) ?e)) (fold_codes k)) id" if "key_ok k" for k
  proof -
    have "Find_str_value (order_list st) k =
        (case map_of (rev (map (\<lambda>(k, v). (fold_codes k, norm_val v)) ?e)) (fold_codes k) of
           Some w \<Rightarrow> w | None \<Rightarrow> Find_str_value [] k)"
      unfolding o(1) using ok that by (intro kv.get_put_all) auto
    moreover have "Find_str_value [] k = None"
      using key_ok_cstr_ok [OF that] by (simp add: Find_str_value_kv ll_map_def kv_value_def)
    ultimately show ?thesis unfolding m by (simp split: option.split)
  qed
  ultimately show ?thesis using o(2) l(2) by blast
qed

definition demo_dir :: "(cstr \<times> cstr option) list" where
  "demo_dir = [(''hfA008'', Some []), (''core'', None), (''dfA008.tmp'', Some ''x''), (''hfA009'', None)]"

lemma Scan_queue_order_witness:
  "\<exists>st. Scan_queue demo_job_env [] False None (Some ''.tmp'') (Some demo_dir) = Some (st, 0)
    \<and> removed st = [''dfA008.tmp'']"
proof -
  have h: "\<not> Order_routine demo_job_env" "\<forall>n\<in>set (map fst demo_dir). cstr_ok n" by code_simp+
  have "Scan_queue demo_job_env [] False None (Some ''.tmp'') (Some demo_dir) \<noteq> None" by code_simp
  then obtain st rc where r: "Scan_queue demo_job_env [] False None (Some ''.tmp'') (Some demo_dir) = Some (st, rc)"
    by auto
  have f: "filter (\<lambda>n. scan_name None (Some ''.tmp'') n = Some Remove_file) (map fst demo_dir) = [''dfA008.tmp'']"
    by code_simp
  from Scan_queue_order [OF h r] r show ?thesis unfolding f by blast
qed

text \<open>
  A number is read as an octal number when it starts with a zero, so the job numbers 008 and 009 both
  have the value 0: of two jobs that arrived at the same time and carry them, one is not listed.
\<close>

lemma octal_numbers_collide:
  "sort_values demo_job_env [''job_time=0x10'', ''number=008''] =
   sort_values demo_job_env [''job_time=0x10'', ''number=009'']"
  by code_simp

text \<open>
  The test for the suffix of the files to be removed looks before the start of every name that is
  shorter than the suffix, so that a scan that removes by suffix never gets past such a name.
\<close>

theorem scan_short_name:
  assumes "opt_str pre = []" "length n < length suf"
  shows "scan_loop env sc oqp pre (Some suf) ((n, content) # dir) st = None"
  using assms by (auto simp: scan_name_def Let_def opt_str_def)

lemma scan_short_name_witness: "scan_loop demo_job_env [] False None (Some ''.tmp'') [(''..'', None)] scan_init = None"
  using scan_short_name [of None "''..''" "''.tmp''"] by (simp add: opt_str_def)

end
