(* ===== verification/Frames.thy ===== *)
theory Frames
  imports JobKeys
begin

section \<open>What an update leaves alone\<close>

text \<open>
  The handlers of the server change a few keys of a long list of values. \<open>same_but K a b\<close> says that
  \<open>b\<close> is a sorted list of unique keys in which every key outside \<open>K\<close> has the value it has in \<open>a\<close>;
  the lemmas compose such steps and read values through them.
\<close>

definition same_but :: "cstr set \<Rightarrow> line_list \<Rightarrow> line_list \<Rightarrow> bool" where
  "same_but K a b \<longleftrightarrow> kv_inv b \<and>
     (\<forall>k. key_ok k \<longrightarrow> fold_codes k \<notin> fold_codes ` K \<longrightarrow>
        Find_str_value b k = Find_str_value a k \<and> Find_flag_value b k = Find_flag_value a k)"

lemma same_but_inv: "same_but K a b \<Longrightarrow> kv_inv b"
  by (simp add: same_but_def)

lemma same_but_refl: "kv_inv a \<Longrightarrow> same_but K a a"
  by (simp add: same_but_def)

lemma same_but_trans: "same_but K a b \<Longrightarrow> same_but L b c \<Longrightarrow> same_but (K \<union> L) a c"
  by (auto simp: same_but_def image_Un)

lemma same_but_mono: "same_but K a b \<Longrightarrow> K \<subseteq> L \<Longrightarrow> same_but L a b"
  unfolding same_but_def by blast

lemma same_but_get:
  assumes "same_but K a b" "key_ok k" "\<forall>x\<in>K. fold_codes x \<noteq> fold_codes k"
  shows "Find_str_value b k = Find_str_value a k" "Find_flag_value b k = Find_flag_value a k"
proof -
  have "fold_codes k \<notin> fold_codes ` K" using assms(3) by (metis imageE)
  with assms(1,2) show "Find_str_value b k = Find_str_value a k" "Find_flag_value b k = Find_flag_value a k"
    by (simp_all add: same_but_def)
qed

lemma same_but_flag:
  assumes "kv_inv a" "flag_key k" "0 \<le> v" "v \<le> INT_MAX"
  shows "same_but {k} a (Set_flag_value a k v)" "Find_flag_value (Set_flag_value a k v) k = v"
  using Set_flag_value_inv [OF assms] Set_flag_value_str [OF assms(1,2) _ assms(3,4)]
    Set_flag_value_get [OF assms(1,2) _ assms(3,4)] assms(2)
  by (auto simp: same_but_def flag_key_def)

lemma same_but_str:
  assumes "kv_inv a" "key_ok k" "val_ok v"
  shows "same_but {k} a (Set_str_value a k v)" "Find_str_value (Set_str_value a k v) k = norm_val v"
  using kv.put_inv [OF assms] kv.get_put [OF assms] Set_str_value_flag [OF assms] assms(2)
  by (auto simp: same_but_def)

lemma same_but_decimal:
  assumes "kv_inv a" "flag_key k" "INT_MIN \<le> v" "v \<le> INT_MAX"
  shows "same_but {k} a (Set_decimal_value a k v)"
proof -
  have k: "key_ok k" using assms(2) by (simp add: flag_key_def)
  have e: "Set_decimal_value a k v = Add_line_list a (k @ CHR ''='' # dec_text v) (Some Hash_value_sep) True True"
    using snprintf_dec_value [OF assms(2-4)] by (simp add: Set_decimal_value_def)
  from Add_line_list_kv [OF assms(1) k, of "dec_text v"] cstr_ok_dec_text
  have a: "kv_inv (Set_decimal_value a k v)"
    "ll_map fold_codes (Some Hash_value_sep) (Set_decimal_value a k v)
      = (ll_map fold_codes (Some Hash_value_sep) a)(fold_codes k \<mapsto> k @ CHR ''='' # dec_text v)"
    unfolding e by auto
  show ?thesis
    using a assms(1) by (auto simp: same_but_def Find_str_value_kv Find_flag_value_def Find_value_kv
        key_ok_cstr_ok)
qed

lemma Find_flag_value_range: "INT_MIN \<le> Find_flag_value l k" "Find_flag_value l k \<le> INT_MAX"
  using to_int_range by (auto simp: Find_flag_value_def Let_def INT_MAX_def INT_MIN_def split: prod.split)

subsection \<open>The keys the server works with\<close>

lemma server_flag_keys [simp]:
  "flag_key ATTEMPT" "flag_key COPIES" "flag_key COPY_DONE" "flag_key DESTINATION" "flag_key DESTINATIONS"
  "flag_key DONE_TIME" "flag_key ERROR" "flag_key ERROR_TIME" "flag_key HOLD_TIME" "flag_key HFDATAFILES"
  "flag_key MOVE" "flag_key PRIORITY_TIME" "flag_key REMOVE_TIME" "flag_key SEQUENCE" "flag_key SERVER"
  "flag_key HF_NAME" "flag_key IDENTIFIER" "flag_key OPENNAME" "flag_key START_TIME"
  using job_keys_ok by simp_all

lemma server_more_keys [simp]:
  "flag_key DATAFILES" "flag_key PRSTATUS" "flag_key UPDATE_TIME" "flag_key INCOMING_TIME"
  "flag_key PRINTING_ABORTED" "flag_key HOLD_CLASS" "flag_key MOVE_COUNT" "flag_key DONE_REMOVE"
  by (simp_all add: job_key_defs flag_key_def key_ok_def cstr_ok_def NUL_def Option_value_sep_def)
    (simp_all add: iscntrl_def ccode_def)

lemma flag_key_ok [intro]: "flag_key k \<Longrightarrow> key_ok k"
  by (simp add: flag_key_def)

lemma server_keys [simp]:
  "key_ok ATTEMPT" "key_ok COPY_DONE" "key_ok DESTINATION" "key_ok DESTINATIONS"
  "key_ok DONE_TIME" "key_ok ERROR" "key_ok ERROR_TIME" "key_ok HOLD_TIME"
  "key_ok MOVE" "key_ok PRIORITY_TIME" "key_ok REMOVE_TIME" "key_ok SEQUENCE" "key_ok SERVER"
  "key_ok HF_NAME" "key_ok OPENNAME" "key_ok UPDATE_TIME" "key_ok INCOMING_TIME"
  "key_ok HOLD_CLASS" "key_ok HFDATAFILES" "key_ok DATAFILES" "key_ok START_TIME"
  by (rule flag_key_ok, simp)+

text \<open>All these keys are different, in both directions for the simplifier.\<close>

lemma server_codes:
  "distinct (map fold_codes
    [ATTEMPT, COPIES, COPY_DONE, DESTINATION, DESTINATIONS, DONE_TIME, ERROR, ERROR_TIME,
     HOLD_TIME, HFDATAFILES, MOVE, PRIORITY_TIME, REMOVE_TIME, SEQUENCE, SERVER, HF_NAME,
     IDENTIFIER, OPENNAME, DATAFILES, PRSTATUS, UPDATE_TIME, INCOMING_TIME, HOLD_CLASS])"
  "distinct (map fold_codes
    [HOLD_CLASS, INCOMING_TIME, UPDATE_TIME, PRSTATUS, DATAFILES, OPENNAME, IDENTIFIER,
     HF_NAME, SERVER, SEQUENCE, REMOVE_TIME, PRIORITY_TIME, MOVE, HFDATAFILES, HOLD_TIME,
     ERROR_TIME, ERROR, DONE_TIME, DESTINATIONS, DESTINATION, COPY_DONE, COPIES, ATTEMPT])"
  by code_simp+

lemmas server_neq [simp] = server_codes [simplified]

end
