(* ===== verification/JobServer.thy ===== *)
theory JobServer
  imports QueueScan DataFiles Frames
begin

section \<open>The status of a finished job (lpd\_jobs.c)\<close>

text \<open>
  When the process that prints a job exits, \<open>Update_status\<close> turns its exit status into changes of the
  job ticket: another copy, a retry, a hold, an error, or the removal of the job. The theory models it
  with the functions it calls: \<open>Set_job_ticket_file\<close> (getqueue.c), \<open>Remove_file\<close> and \<open>Remove_job\<close>
  (lpd\_remove.c) and \<open>Decode_transfer_failure\<close>. The state holds the job, what its ticket file
  contains, the files of the spool directory, the counters of finished jobs, the control information
  of the queue and the mails sent. Status and log messages are not part of it. The lemmas show that the
  retries end, and what happens to a job then.
\<close>

subsection \<open>The exit codes of errorcodes.h\<close>

definition JSUCC :: int where "JSUCC = 0"
definition JFAIL :: int where "JFAIL = 32"
definition JABORT :: int where "JABORT = 33"
definition JREMOVE :: int where "JREMOVE = 34"
definition JHOLD :: int where "JHOLD = 37"
definition JNOSPOOL :: int where "JNOSPOOL = 38"
definition JNOPRINT :: int where "JNOPRINT = 39"
definition JSIGNAL :: int where "JSIGNAL = 40"
definition JFAILNORETRY :: int where "JFAILNORETRY = 41"
definition JSUSP :: int where "JSUSP = 42"
definition JTIMEOUT :: int where "JTIMEOUT = 43"
definition JWRERR :: int where "JWRERR = 44"
definition JRDERR :: int where "JRDERR = 45"
definition JCHILD :: int where "JCHILD = 46"
definition JNOWAIT :: int where "JNOWAIT = 47"

lemmas exit_codes =
  JSUCC_def JFAIL_def JABORT_def JREMOVE_def JHOLD_def JNOSPOOL_def JNOPRINT_def JSIGNAL_def
  JFAILNORETRY_def JSUSP_def JTIMEOUT_def JWRERR_def JRDERR_def JCHILD_def JNOWAIT_def

subsection \<open>The state\<close>

text \<open>
  The configuration of the queue and what the functions get from outside: the time, whether the
  system lets a file be removed, and the exit status and output of the filter for failed transfers.
\<close>

record sv_env =
  Send_try :: int
  Save_when_done :: bool
  Save_on_error :: bool
  Done_jobs :: int
  Done_jobs_max_age :: int
  Stop_on_abort :: bool
  Send_failure_action :: "cstr option"
  failure_filter :: "int \<Rightarrow> int \<times> cstr"
  sv_time :: int
  ticket_time :: cstr
  unlink_ok :: "cstr \<Rightarrow> bool"

record server_state =
  ss_job :: job
  ss_ticket :: "cstr option"
  ss_files :: "cstr list"
  ss_done_count :: int
  ss_done_time :: int
  ss_control :: line_list
  ss_control_file :: line_list
  ss_mail :: "int list"

abbreviation upd_info :: "(line_list \<Rightarrow> line_list) \<Rightarrow> server_state \<Rightarrow> server_state" where
  "upd_info f st \<equiv> st\<lparr>ss_job := (ss_job st)\<lparr>info := f (info (ss_job st))\<rparr>\<rparr>"

abbreviation upd_dest :: "(line_list \<Rightarrow> line_list) \<Rightarrow> server_state \<Rightarrow> server_state" where
  "upd_dest f st \<equiv> st\<lparr>ss_job := (ss_job st)\<lparr>destination := f (destination (ss_job st))\<rparr>\<rparr>"

text \<open>The list a status goes to: that of the destination, or that of the job.\<close>

definition target :: "bool \<Rightarrow> server_state \<Rightarrow> line_list" where
  "target d st = (if d then destination (ss_job st) else info (ss_job st))"

definition on_target :: "bool \<Rightarrow> (line_list \<Rightarrow> line_list) \<Rightarrow> server_state \<Rightarrow> server_state" where
  "on_target d f st = (if d then upd_dest f st else upd_info f st)"

subsection \<open>Files and tickets\<close>

definition Remove_file :: "sv_env \<Rightarrow> cstr option \<Rightarrow> cstr list \<Rightarrow> cstr list \<times> bool" where
  "Remove_file env openname files =
     (case openname of
        None \<Rightarrow> (files, False)
      | Some n \<Rightarrow>
          if n \<in> set files then
            (if unlink_ok env n then (filter (\<lambda>f. f \<noteq> n) files, False) else (files, True))
          else (files, False))"

definition remove_step :: "sv_env \<Rightarrow> cstr list \<times> bool \<Rightarrow> cstr option \<Rightarrow> cstr list \<times> bool" where
  "remove_step env r openname =
     (case Remove_file env openname (fst r) of (fs, b) \<Rightarrow> (fs, snd r \<or> b))"

text \<open>The names that \<open>Remove_job\<close> removes, in order.\<close>

definition job_names :: "job \<Rightarrow> cstr option list" where
  "job_names j =
     concat (map (\<lambda>lp. [Find_str_value lp OPENNAME, Find_str_value lp DFTRANSFERNAME]) (datafiles j))
     @ [Find_str_value (info j) OPENNAME, Find_str_value (info j) HF_NAME]"

definition Remove_job :: "sv_env \<Rightarrow> job \<Rightarrow> cstr list \<Rightarrow> cstr list \<times> bool" where
  "Remove_job env j files = foldl (remove_step env) (files, False) (job_names j)"

text \<open>
  The locked ticket file is truncated and rewritten. \<open>None\<close>: the null pointer of
  \<open>Set_job_ticket_datafile_info\<close>, or the fatal error of a job without a ticket name.
\<close>

definition Set_job_ticket_file :: "sv_env \<Rightarrow> server_state \<Rightarrow> server_state option" where
  "Set_job_ticket_file env st =
     (case Set_job_ticket_datafile_info (ss_job st) of
        None \<Rightarrow> None
      | Some j1 \<Rightarrow>
          (case Make_job_ticket_image (j1\<lparr>info := Set_str_value (info j1) UPDATE_TIME (Some (ticket_time env))\<rparr>) of
             None \<Rightarrow> None
           | Some (j2, img) \<Rightarrow>
               if Find_str_value (info j2) HF_NAME = None then None
               else Some (st\<lparr>ss_job := j2, ss_ticket := img\<rparr>)))"

definition store_destination :: "server_state \<Rightarrow> server_state option" where
  "store_destination st = map_option (\<lambda>j. st\<lparr>ss_job := j\<rparr>) (Update_destination (ss_job st))"

definition save_job :: "sv_env \<Rightarrow> server_state \<Rightarrow> server_state" where
  "save_job env st =
     st\<lparr>ss_done_count := ss_done_count st + 1,
        ss_done_time := (if ss_done_time st = 0 then sv_time env else ss_done_time st)\<rparr>"

definition save_or_remove :: "bool \<Rightarrow> sv_env \<Rightarrow> server_state \<Rightarrow> server_state" where
  "save_or_remove save env st =
     (if save \<or> Done_jobs env \<noteq> 0 \<or> Done_jobs_max_age env \<noteq> 0 then save_job env st
      else st\<lparr>ss_files := fst (Remove_job env (ss_job st) (ss_files st))\<rparr>)"

subsection \<open>The action for repeated failures\<close>

definition failure_keys :: "(cstr \<times> int) list" where
  "failure_keys =
     [(''succ'', JSUCC), (''jsucc'', JSUCC), (''success'', JSUCC), (''jsuccess'', JSUCC),
      (''abort'', JABORT), (''jabort'', JABORT), (''hold'', JHOLD), (''jhold'', JHOLD),
      (''remove'', JREMOVE), (''jremove'', JREMOVE)]"

fun keyword_value :: "(cstr \<times> int) list \<Rightarrow> cstr \<Rightarrow> int option" where
  "keyword_value [] s = None"
| "keyword_value ((k, v) # ks) s = (if safestrcasecmp (Some k) (Some s) = 0 then Some v else keyword_value ks s)"

text \<open>
  A filter's output is read into a buffer and trimmed, but the string that is compared with the
  keywords stays the null pointer it was set to.
\<close>

definition Decode_transfer_failure :: "sv_env \<Rightarrow> int \<Rightarrow> int" where
  "Decode_transfer_failure env attempt =
     (case map_option (dropWhile isspace) (Send_failure_action env) of
        None \<Rightarrow> JREMOVE
      | Some outstr \<Rightarrow>
          if outstr \<noteq> [] \<and> hd outstr = CHR ''|'' then
            (case failure_filter env attempt of (n, out) \<Rightarrow> if n \<noteq> 0 then n else JREMOVE)
          else if outstr \<noteq> [] then
            (case keyword_value failure_keys outstr of Some v \<Rightarrow> v | None \<Rightarrow> JREMOVE)
          else JREMOVE)"

text \<open>The status after the maximal number of attempts: one that the caller does not know is an abort.\<close>

definition failure_status :: "sv_env \<Rightarrow> int \<Rightarrow> int" where
  "failure_status env attempt =
     (let s = Decode_transfer_failure env attempt in
      if s = JSUCC \<or> s = JFAIL \<or> s = JFAILNORETRY \<or> s = JABORT \<or> s = JREMOVE \<or> s = JHOLD then s else JABORT)"

subsection \<open>Update\_status\<close>

text \<open>
  The flag \<open>d\<close> says that the job has destinations and the current one was found. Each case of the
  \<open>switch\<close> is a definition; the result of the retry case also is the status it goes on with, if any.
\<close>

definition hold_case :: "sv_env \<Rightarrow> bool \<Rightarrow> server_state \<Rightarrow> server_state option" where
  "hold_case env d st =
     Option.bind
       (if d then store_destination (upd_dest (\<lambda>l. Set_flag_value l HOLD_TIME (sv_time env)) st)
        else Some (upd_info (\<lambda>l. Set_flag_value (Set_flag_value l HOLD_TIME (sv_time env)) PRIORITY_TIME 0) st))
       (Set_job_ticket_file env)"

definition finish_job :: "sv_env \<Rightarrow> server_state \<Rightarrow> server_state option" where
  "finish_job env st =
     (if Find_str_value (info (ss_job st)) HF_NAME = None then Some st
      else map_option (save_or_remove (Save_when_done env) env)
             (Set_job_ticket_file env (upd_info (\<lambda>l. Set_flag_value l REMOVE_TIME (sv_time env)) st)))"

definition dest_success :: "sv_env \<Rightarrow> int \<Rightarrow> server_state \<Rightarrow> server_state option" where
  "dest_success env destinations st0 =
     (let st = upd_info (\<lambda>l. Set_flag_value l SEQUENCE (Find_flag_value l SEQUENCE + 1)) st0;
          dl = destination (ss_job st);
          copies = Find_flag_value dl COPIES;
          copy = Find_flag_value dl COPY_DONE;
          n = Find_flag_value dl DESTINATION;
          done_now = (\<lambda>l. Set_flag_value l DONE_TIME (sv_time env));
          (st1, fin, n1) =
            (if Find_str_value dl MOVE \<noteq> None then (upd_dest done_now st, True, n)
             else
               (let stc = upd_dest (\<lambda>l. Set_flag_value l COPY_DONE (copy + 1)) st in
                if copies \<le> copy + 1 then (upd_dest done_now stc, True, n + 1) else (stc, False, n)))
      in Option.bind (store_destination st1)
           (\<lambda>st2. if fin \<and> destinations \<le> n1 then finish_job env (upd_info done_now st2)
                  else Set_job_ticket_file env st2))"

definition job_success :: "sv_env \<Rightarrow> server_state \<Rightarrow> server_state option" where
  "job_success env st =
     (let l = info (ss_job st);
          copies = Find_flag_value l COPIES;
          copy = Find_flag_value l COPY_DONE;
          done_now = (\<lambda>l. Set_flag_value l DONE_TIME (sv_time env))
      in if Find_str_value l MOVE \<noteq> None then finish_job env (upd_info done_now st)
         else
           (let st1 = upd_info (\<lambda>l. Set_flag_value l COPY_DONE (copy + 1)) st in
            if copies \<le> copy + 1 then
              finish_job env (upd_info done_now st1\<lparr>ss_mail := ss_mail st1 @ [JSUCC]\<rparr>)
            else Set_job_ticket_file env st1))"

definition clear_error :: "line_list \<Rightarrow> line_list" where
  "clear_error l = Set_str_value (Set_flag_value (Set_str_value l ERROR None) ERROR_TIME 0) PRSTATUS None"

definition fail_case :: "sv_env \<Rightarrow> bool \<Rightarrow> server_state \<Rightarrow> (server_state \<times> int option) option" where
  "fail_case env d st =
     (let attempt = Find_flag_value (target d st) ATTEMPT + 1;
          st1 = on_target d (\<lambda>l. Set_flag_value l ATTEMPT attempt) st
      in Option.bind (if d then store_destination st1 else Some st1)
           (\<lambda>st2. Option.bind (Set_job_ticket_file env st2)
              (\<lambda>st3.
                 let status = (if 0 < Send_try env \<and> Send_try env \<le> attempt then failure_status env attempt else JFAIL)
                 in if status = JFAIL
                    then map_option (\<lambda>st4. (st4, None)) (Set_job_ticket_file env (on_target d clear_error st3))
                    else Some (st3, Some status))))"

definition set_error :: "sv_env \<Rightarrow> cstr \<Rightarrow> line_list \<Rightarrow> line_list" where
  "set_error env msg l =
     (let l1 = (if Find_str_value l ERROR = None then Set_str_value l ERROR (Some msg) else l)
      in if Find_flag_value l1 ERROR_TIME = 0 then Set_nz_flag_value l1 ERROR_TIME (sv_time env) else l1)"

definition drop_failed :: "sv_env \<Rightarrow> int \<Rightarrow> server_state \<Rightarrow> server_state option" where
  "drop_failed env status st =
     map_option (\<lambda>st1. save_or_remove (Save_on_error env) env (st1\<lparr>ss_mail := ss_mail st1 @ [status]\<rparr>))
       (Set_job_ticket_file env (upd_info (\<lambda>l. Set_nz_flag_value l REMOVE_TIME (sv_time env)) st))"

definition noretry_case :: "sv_env \<Rightarrow> bool \<Rightarrow> server_state \<Rightarrow> server_state option" where
  "noretry_case env d st =
     (let attempt = Find_flag_value (target d st) ATTEMPT + 1 in
      if d then
        Option.bind (store_destination
            (upd_dest (\<lambda>l. Set_flag_value (set_error env ''failed, no retry'' l) ATTEMPT attempt) st))
          (Set_job_ticket_file env)
      else
        drop_failed env JFAILNORETRY
          (upd_info (\<lambda>l. set_error env ''failed, no retry'' (Set_flag_value l ATTEMPT attempt)) st))"

text \<open>The abort of a destination does not write the job ticket.\<close>

definition abort_case :: "sv_env \<Rightarrow> bool \<Rightarrow> int \<Rightarrow> server_state \<Rightarrow> server_state option" where
  "abort_case env d status st0 =
     (let st = upd_info (\<lambda>l. Set_flag_value l PRIORITY_TIME 0) st0;
          st1 = on_target d (set_error env ''aborting operations'') st
      in map_option
           (\<lambda>st2. if Stop_on_abort env
                  then (let c = Set_flag_value (ss_control st2) PRINTING_ABORTED 1
                        in st2\<lparr>ss_control := c, ss_control_file := c\<rparr>)
                  else st2)
           (if d then store_destination st1 else drop_failed env status st1))"

definition remove_case :: "sv_env \<Rightarrow> bool \<Rightarrow> server_state \<Rightarrow> server_state option" where
  "remove_case env d st =
     (if d then
        Option.bind (store_destination (upd_dest (set_error env ''removing destination due to errors'') st))
          (Set_job_ticket_file env)
      else drop_failed env JREMOVE (upd_info (set_error env ''too many errors'') st))"

lemma failure_status_cases: "failure_status env attempt \<in> {JSUCC, JFAIL, JFAILNORETRY, JABORT, JREMOVE, JHOLD}"
  by (simp add: failure_status_def Let_def)

lemma fail_case_next:
  "fail_case env d st = Some (st1, Some s) \<Longrightarrow> s \<noteq> JFAIL \<and> s \<noteq> JTIMEOUT"
proof -
  assume a: "fail_case env d st = Some (st1, Some s)"
  then have "s \<noteq> JFAIL" "s = JFAIL \<or> s \<in> range (failure_status env)"
    by (auto simp: fail_case_def Let_def bind_eq_Some_conv split: if_splits)
  then consider "s = JFAIL" | a where "s = failure_status env a" "s \<noteq> JFAIL" by blast
  then show ?thesis
  proof cases
    case 2
    from failure_status_cases [of env a] 2(2) show ?thesis unfolding 2(1) by (auto simp: exit_codes)
  qed (use \<open>s \<noteq> JFAIL\<close> in simp)
qed

function status_loop :: "sv_env \<Rightarrow> bool \<Rightarrow> int \<Rightarrow> int \<Rightarrow> server_state \<Rightarrow> server_state option" where
  "status_loop env d destinations status st =
     (if status = JHOLD then hold_case env d st
      else if status = JSUCC then (if d then dest_success env destinations st else job_success env st)
      else if status = JTIMEOUT \<or> status = JFAIL then
        (case fail_case env d st of
           None \<Rightarrow> None
         | Some (st1, None) \<Rightarrow> Some st1
         | Some (st1, Some s) \<Rightarrow> status_loop env d destinations s st1)
      else if status = JFAILNORETRY then noretry_case env d st
      else if status = JREMOVE then remove_case env d st
      else abort_case env d status st)"
  by pat_completeness auto
termination
  by (relation "measure (\<lambda>(env, d, n, status, st). if status = JTIMEOUT \<or> status = JFAIL then 1 else 0)")
    (auto dest: fail_case_next)

declare status_loop.simps [simp del]

definition Update_status :: "sv_env \<Rightarrow> int \<Rightarrow> server_state \<Rightarrow> server_state option" where
  "Update_status env status st0 =
     (let st = upd_info (\<lambda>l. Set_decimal_value l SERVER 0) st0; j = ss_job st in
      if Find_str_value (info j) IDENTIFIER = None then Some st
      else
        (let destinations = Find_flag_value (info j) DESTINATIONS in
         if destinations = 0 then status_loop env False destinations status st
         else
           (case Get_destination_by_name j (Find_str_value (info j) DESTINATION) of
              (j1, r) \<Rightarrow>
                if r = 0 then
                  status_loop env True destinations status
                    (st\<lparr>ss_job := j1\<lparr>destination := Set_decimal_value (destination j1) SERVER 0\<rparr>\<rparr>)
                else status_loop env False destinations status (st\<lparr>ss_job := j1\<rparr>))))"

subsection \<open>Writing the ticket\<close>

definition ticket_ready :: "job \<Rightarrow> bool" where
  "ticket_ready j \<longleftrightarrow> kv_inv (info j) \<and> Find_str_value (info j) HF_NAME \<noteq> None
     \<and> (\<forall>lp\<in>set (datafiles j). filter ticket_line lp \<noteq> [] \<and> kv_inv lp)"

abbreviation ticket_keys_set :: "cstr set" where
  "ticket_keys_set \<equiv> {UPDATE_TIME, HFDATAFILES, DATAFILES}"

lemma datafile_info_total:
  assumes "ticket_ready j"
  shows "\<exists>i. Set_job_ticket_datafile_info j = Some (j\<lparr>info := i\<rparr>) \<and> same_but {HFDATAFILES, DATAFILES} (info j) i"
proof -
  have lps: "\<forall>lp\<in>set (datafiles j). filter ticket_line lp \<noteq> [] \<and> kv_inv lp" and kv: "kv_inv (info j)"
    using assms by (auto simp: ticket_ready_def)
  have "val_ok None" by simp
  from datafile_loop_text [OF lps this, of None "[]"] obtain files where f: "val_ok files"
    "datafile_loop (datafiles j) None None [] =
      Some (if datafiles j = [] then None else Some (opt_str None @ unlines (CHR 0x01) (map piece (datafiles j))), files)"
    by blast
  have "\<forall>p\<in>set (map piece (datafiles j)). cstr_ok p"
  proof -
    have "cstr_ok (piece lp)" if "kv_inv lp" for lp
    proof -
      have "\<forall>s\<in>set (filter ticket_line lp). cstr_ok s"
        using that by (auto simp: kv_inv_def ll_uniq_def ll_sorted_def ll_ok_def)
      then have "cstr_ok (unlines (CHR 0x02) (filter ticket_line lp))" by (intro unlines_ok) (simp_all add: NUL_def)
      then show ?thesis unfolding piece_def by (rule cstr_ok_subset) (auto dest: in_set_butlastD)
    qed
    with lps show ?thesis by simp
  qed
  then have "cstr_ok (unlines (CHR 0x01) (map piece (datafiles j)))" by (intro unlines_ok) (simp_all add: NUL_def)
  then have v: "val_ok (if datafiles j = [] then None else Some (opt_str None @ unlines (CHR 0x01) (map piece (datafiles j))))"
    (is "val_ok ?v") by simp
  note s1 = same_but_str(1) [OF kv server_keys(19) v]
  note s2 = same_but_str(1) [OF same_but_inv [OF s1] server_keys(20) f(1)]
  have "{HFDATAFILES} \<union> {DATAFILES} = {HFDATAFILES, DATAFILES}" by auto
  with same_but_trans [OF s1 s2] f(2) show ?thesis
    by (auto simp: Set_job_ticket_datafile_info_def)
qed

lemma Set_job_ticket_file_total:
  assumes "ticket_ready (ss_job st)" "cstr_ok (ticket_time env)"
  shows "\<exists>i img. Set_job_ticket_file env st = Some (st\<lparr>ss_job := (ss_job st)\<lparr>info := i\<rparr>, ss_ticket := img\<rparr>)
    \<and> same_but ticket_keys_set (info (ss_job st)) i"
proof -
  let ?j = "ss_job st"
  from datafile_info_total [OF assms(1)] obtain i1 where
    i1: "Set_job_ticket_datafile_info ?j = Some (?j\<lparr>info := i1\<rparr>)" "same_but {HFDATAFILES, DATAFILES} (info ?j) i1"
    by blast
  let ?i2 = "Set_str_value i1 UPDATE_TIME (Some (ticket_time env))"
  have v: "val_ok (Some (ticket_time env))" using assms(2) by simp
  note s2 = same_but_trans [OF i1(2) same_but_str(1) [OF same_but_inv [OF i1(2)] server_keys(16) v]]
  have s2': "same_but ticket_keys_set (info ?j) ?i2" using s2 by (rule same_but_mono) auto
  have "Find_str_value ?i2 HF_NAME = Find_str_value (info ?j) HF_NAME"
    by (rule same_but_get(1) [OF s2']) simp_all
  then have "ticket_ready (?j\<lparr>info := ?i2\<rparr>)"
    using assms(1) same_but_inv [OF s2'] by (simp add: ticket_ready_def)
  from datafile_info_total [OF this] obtain i3 where
    i3: "Set_job_ticket_datafile_info (?j\<lparr>info := ?i2\<rparr>) = Some (?j\<lparr>info := i3\<rparr>)"
    "same_but {HFDATAFILES, DATAFILES} ?i2 i3" by auto
  have s3: "same_but ticket_keys_set (info ?j) i3"
    using same_but_trans [OF s2' i3(2)] by (rule same_but_mono) auto
  have "Find_str_value i3 HF_NAME = Find_str_value (info ?j) HF_NAME"
    by (rule same_but_get(1) [OF s3]) simp_all
  then have "Find_str_value i3 HF_NAME \<noteq> None" using assms(1) by (simp add: ticket_ready_def)
  then show ?thesis using i1(1) i3(1) s3
    by (auto simp: Set_job_ticket_file_def Make_job_ticket_image_def)
qed

text \<open>The same with what stays readable: everything but the three keys the ticket itself uses.\<close>

lemma Set_ticket_obtain:
  assumes "ticket_ready (ss_job st)" "cstr_ok (ticket_time env)"
  obtains st' where "Set_job_ticket_file env st = Some st'" "ticket_ready (ss_job st')"
    "same_but ticket_keys_set (info (ss_job st)) (info (ss_job st'))"
    "destination (ss_job st') = destination (ss_job st)" "datafiles (ss_job st') = datafiles (ss_job st)"
    "ss_files st' = ss_files st" "ss_mail st' = ss_mail st" "ss_control st' = ss_control st"
    "ss_done_count st' = ss_done_count st"
proof -
  from Set_job_ticket_file_total [OF assms] obtain i img where
    t: "Set_job_ticket_file env st = Some (st\<lparr>ss_job := (ss_job st)\<lparr>info := i\<rparr>, ss_ticket := img\<rparr>)"
    "same_but ticket_keys_set (info (ss_job st)) i" by blast
  have "Find_str_value i HF_NAME = Find_str_value (info (ss_job st)) HF_NAME"
    by (rule same_but_get(1) [OF t(2)]) simp_all
  then have "ticket_ready ((ss_job st)\<lparr>info := i\<rparr>)"
    using assms(1) same_but_inv [OF t(2)] by (simp add: ticket_ready_def)
  with t show thesis by (intro that [OF t(1)]) simp_all
qed

lemma ready_info:
  assumes "ticket_ready j" "same_but K (info j) i" "\<forall>k\<in>K. fold_codes k \<noteq> fold_codes HF_NAME"
  shows "ticket_ready (j\<lparr>info := i\<rparr>)"
  using assms same_but_get(1) [OF assms(2) server_keys(14)] same_but_inv [OF assms(2)]
  by (simp add: ticket_ready_def)

subsection \<open>The cases of a job without destinations\<close>

lemma set_error_spec:
  assumes "kv_inv l" "cstr_ok msg" "msg \<noteq> []" "0 < sv_time env" "sv_time env \<le> INT_MAX"
  shows "same_but {ERROR, ERROR_TIME} l (set_error env msg l)"
    and "Find_flag_value (set_error env msg l) ERROR_TIME \<noteq> 0"
    and "Find_str_value (set_error env msg l) ERROR \<noteq> None"
proof -
  define l1 where "l1 = (if Find_str_value l ERROR = None then Set_str_value l ERROR (Some msg) else l)"
  have v: "val_ok (Some msg)" using assms(2) by simp
  have n: "norm_val (Some msg) = Some msg" using assms(3) by (cases msg) simp_all
  have l1: "same_but {ERROR} l l1" "Find_str_value l1 ERROR \<noteq> None"
    using same_but_str [OF assms(1) server_keys(6) v] n same_but_refl [OF assms(1)] by (auto simp: l1_def)
  have e: "set_error env msg l =
      (if Find_flag_value l1 ERROR_TIME = 0 then Set_flag_value l1 ERROR_TIME (sv_time env) else l1)"
    by (simp add: set_error_def l1_def Let_def Set_nz_flag_value_def)
  have r: "0 \<le> sv_time env" using assms(4) by simp
  note t = same_but_flag [OF same_but_inv [OF l1(1)], of ERROR_TIME "sv_time env", OF _ r assms(5)]
  have "same_but {ERROR_TIME} l1 (set_error env msg l)"
    using t(1) same_but_refl [OF same_but_inv [OF l1(1)]] by (simp add: e)
  from same_but_trans [OF l1(1) this] show "same_but {ERROR, ERROR_TIME} l (set_error env msg l)"
    by (rule same_but_mono) auto
  show "Find_flag_value (set_error env msg l) ERROR_TIME \<noteq> 0" using t(2) assms(4) by (simp add: e)
  have "Find_str_value (set_error env msg l) ERROR = Find_str_value l1 ERROR"
    by (rule same_but_get(1) [OF \<open>same_but {ERROR_TIME} l1 _\<close>]) simp_all
  with l1(2) show "Find_str_value (set_error env msg l) ERROR \<noteq> None" by simp
qed

definition env_ok :: "sv_env \<Rightarrow> bool" where
  "env_ok env \<longleftrightarrow> 0 < sv_time env \<and> sv_time env \<le> INT_MAX \<and> cstr_ok (ticket_time env)"

lemma ss_job_save_or_remove [simp]: "ss_job (save_or_remove b env st) = ss_job st"
  by (simp add: save_or_remove_def save_job_def)

lemma Set_nz_same_but:
  assumes "kv_inv l" "flag_key k" "0 \<le> v" "v \<le> INT_MAX"
  shows "same_but {k} l (Set_nz_flag_value l k v)"
  using same_but_flag(1) [OF assms] same_but_refl [OF assms(1)] by (simp add: Set_nz_flag_value_def)

lemma drop_failed_spec:
  assumes "ticket_ready (ss_job st)" "env_ok env"
  shows "\<exists>st'. drop_failed env status st = Some st'
    \<and> same_but ({REMOVE_TIME} \<union> ticket_keys_set) (info (ss_job st)) (info (ss_job st'))"
proof -
  let ?i = "Set_nz_flag_value (info (ss_job st)) REMOVE_TIME (sv_time env)"
  have s: "same_but {REMOVE_TIME} (info (ss_job st)) ?i"
    using assms by (intro Set_nz_same_but) (simp_all add: ticket_ready_def env_ok_def)
  have "ticket_ready ((ss_job st)\<lparr>info := ?i\<rparr>)" by (rule ready_info [OF assms(1) s]) auto
  then obtain st1 where "Set_job_ticket_file env (upd_info (\<lambda>l. Set_nz_flag_value l REMOVE_TIME (sv_time env)) st) = Some st1"
    "same_but ticket_keys_set ?i (info (ss_job st1))"
    using assms(2) by (auto simp: env_ok_def intro: Set_ticket_obtain [of "upd_info (\<lambda>l. Set_nz_flag_value l REMOVE_TIME (sv_time env)) st" env])
  with same_but_trans [OF s, of ticket_keys_set "info (ss_job st1)"] show ?thesis
    by (simp add: drop_failed_def)
qed

lemma stopped_cases:
  assumes "ticket_ready (ss_job st)" "env_ok env" "s \<in> {JHOLD, JABORT, JREMOVE, JFAILNORETRY}"
    and "0 \<le> Find_flag_value (info (ss_job st)) ATTEMPT" "Find_flag_value (info (ss_job st)) ATTEMPT < INT_MAX"
  shows "\<exists>st'. status_loop env False n s st = Some st'
    \<and> (Find_flag_value (info (ss_job st')) HOLD_TIME \<noteq> 0 \<or> Find_flag_value (info (ss_job st')) ERROR_TIME \<noteq> 0)"
proof -
  let ?l = "info (ss_job st)"
  have kv: "kv_inv ?l" using assms(1) by (simp add: ticket_ready_def)
  have t: "0 < sv_time env" "sv_time env \<le> INT_MAX" using assms(2) by (simp_all add: env_ok_def)
  have err: "\<exists>st'. drop_failed env status (upd_info f st) = Some st'
      \<and> Find_flag_value (info (ss_job st')) ERROR_TIME \<noteq> 0"
    if "same_but K ?l (f ?l)" "\<forall>k\<in>K. fold_codes k \<noteq> fold_codes HF_NAME" "Find_flag_value (f ?l) ERROR_TIME \<noteq> 0"
    for K f status
  proof -
    have "ticket_ready (ss_job (upd_info f st))" using ready_info [OF assms(1) that(1,2)] by simp
    from drop_failed_spec [OF this assms(2), of status] obtain st' where st':
      "drop_failed env status (upd_info f st) = Some st'"
      "same_but ({REMOVE_TIME} \<union> ticket_keys_set) (f ?l) (info (ss_job st'))" by auto
    have "Find_flag_value (info (ss_job st')) ERROR_TIME = Find_flag_value (f ?l) ERROR_TIME"
      by (rule same_but_get(2) [OF st'(2)]) simp_all
    with st'(1) that(3) show ?thesis by auto
  qed
  consider "s = JHOLD" | "s = JFAILNORETRY" | "s = JREMOVE" | "s = JABORT" using assms(3) by auto
  then show ?thesis
  proof cases
    case 1
    let ?f = "\<lambda>l. Set_flag_value (Set_flag_value l HOLD_TIME (sv_time env)) PRIORITY_TIME 0"
    note a = same_but_flag [OF kv, of HOLD_TIME "sv_time env"]
    have f1: "same_but {HOLD_TIME} ?l (Set_flag_value ?l HOLD_TIME (sv_time env))"
      "Find_flag_value (Set_flag_value ?l HOLD_TIME (sv_time env)) HOLD_TIME = sv_time env" using a t by simp_all
    note f2 = same_but_flag(1) [OF same_but_inv [OF f1(1)], of PRIORITY_TIME 0]
    have f2: "same_but {PRIORITY_TIME} (Set_flag_value ?l HOLD_TIME (sv_time env)) (?f ?l)" using f2 by (simp add: INT_MAX_def)
    have "ticket_ready (ss_job (upd_info ?f st))"
      using ready_info [OF assms(1) same_but_trans [OF f1(1) f2]] by auto
    then obtain st' where st': "Set_job_ticket_file env (upd_info ?f st) = Some st'"
      "same_but ticket_keys_set (?f ?l) (info (ss_job st'))"
      using assms(2) Set_ticket_obtain [of "upd_info ?f st" env] by (auto simp: env_ok_def)
    have "Find_flag_value (info (ss_job st')) HOLD_TIME = Find_flag_value (?f ?l) HOLD_TIME"
      by (rule same_but_get(2) [OF st'(2)]) simp_all
    also have "\<dots> = sv_time env" using same_but_get(2) [OF f2, of HOLD_TIME] f1(2) by simp
    finally show ?thesis using st'(1) t 1 by (simp add: status_loop.simps hold_case_def)
  next
    case 2
    let ?a = "Find_flag_value ?l ATTEMPT + 1"
    let ?f = "\<lambda>l. set_error env ''failed, no retry'' (Set_flag_value l ATTEMPT ?a)"
    have f1: "same_but {ATTEMPT} ?l (Set_flag_value ?l ATTEMPT ?a)"
      using same_but_flag(1) [OF kv, of ATTEMPT ?a] assms(4,5) by simp
    have c: "cstr_ok ''failed, no retry''" by (simp add: NUL_def)
    note f2 = set_error_spec [OF same_but_inv [OF f1] c, of env]
    from err [where f = ?f and status = JFAILNORETRY, OF same_but_trans [OF f1 f2(1)]] f2(2) t 2
    show ?thesis by (auto simp: status_loop.simps noretry_case_def target_def exit_codes)
  next
    case 3
    have c: "cstr_ok ''too many errors''" by (simp add: NUL_def)
    note f = set_error_spec [OF kv c, of env]
    from err [where f = "set_error env ''too many errors''" and status = JREMOVE, OF f(1)] f(2) t 3
    show ?thesis by (auto simp: status_loop.simps remove_case_def exit_codes)
  next
    case 4
    let ?p = "Set_flag_value ?l PRIORITY_TIME 0"
    have p: "same_but {PRIORITY_TIME} ?l ?p"
      using same_but_flag(1) [OF kv, of PRIORITY_TIME 0] by (simp add: INT_MAX_def)
    have c: "cstr_ok ''aborting operations''" by (simp add: NUL_def)
    note f = set_error_spec [OF same_but_inv [OF p] c, of env]
    from err [where f = "\<lambda>l. set_error env ''aborting operations'' (Set_flag_value l PRIORITY_TIME 0)" and status = JABORT,
      OF same_but_trans [OF p f(1)]] f(2) t 4
    show ?thesis
      by (cases "Stop_on_abort env") (auto simp: status_loop.simps abort_case_def on_target_def exit_codes Let_def)
  qed
qed

subsection \<open>Failures, one after the other\<close>

text \<open>A job without destinations that has failed \<open>n\<close> times.\<close>

definition failed_times :: "server_state \<Rightarrow> int \<Rightarrow> bool" where
  "failed_times st n \<longleftrightarrow> ticket_ready (ss_job st) \<and> Find_str_value (info (ss_job st)) IDENTIFIER \<noteq> None
     \<and> Find_flag_value (info (ss_job st)) DESTINATIONS = 0 \<and> Find_flag_value (info (ss_job st)) ATTEMPT = n"

lemma failed_times_step:
  assumes "failed_times st n" "same_but K (info (ss_job st)) i"
    and "\<forall>k\<in>K. fold_codes k \<noteq> fold_codes HF_NAME \<and> fold_codes k \<noteq> fold_codes IDENTIFIER \<and> fold_codes k \<noteq> fold_codes DESTINATIONS"
    and "datafiles j = datafiles (ss_job st)" "info j = i" "ss_job st' = j" "Find_flag_value i ATTEMPT = m"
  shows "failed_times st' m"
proof -
  have "Find_str_value i HF_NAME = Find_str_value (info (ss_job st)) HF_NAME"
    "Find_str_value i IDENTIFIER = Find_str_value (info (ss_job st)) IDENTIFIER"
    "Find_flag_value i DESTINATIONS = Find_flag_value (info (ss_job st)) DESTINATIONS"
    using same_but_get(1) [OF assms(2), of HF_NAME] same_but_get(1) [OF assms(2), of IDENTIFIER]
      same_but_get(2) [OF assms(2), of DESTINATIONS] assms(3) by auto
  with assms same_but_inv [OF assms(2)] show ?thesis by (simp add: failed_times_def ticket_ready_def)
qed

lemma clear_error_spec:
  assumes "kv_inv l"
  shows "same_but {ERROR, ERROR_TIME, PRSTATUS} l (clear_error l)" "Find_flag_value (clear_error l) ERROR_TIME = 0"
proof -
  have v: "val_ok None" by simp
  let ?a = "Set_str_value l ERROR None" and ?b = "Set_flag_value (Set_str_value l ERROR None) ERROR_TIME 0"
  have a: "same_but {ERROR} l ?a" using same_but_str(1) [OF assms server_keys(6) v] .
  have b: "same_but {ERROR_TIME} ?a ?b" "Find_flag_value ?b ERROR_TIME = 0"
    using same_but_flag [OF same_but_inv [OF a], of ERROR_TIME 0] by (simp_all add: INT_MAX_def)
  have c: "same_but {PRSTATUS} ?b (clear_error l)"
    using same_but_str(1) [OF same_but_inv [OF b(1)] state_keys(4) v] by (simp add: clear_error_def)
  from same_but_trans [OF same_but_trans [OF a b(1)] c]
  show "same_but {ERROR, ERROR_TIME, PRSTATUS} l (clear_error l)" by (rule same_but_mono) auto
  show "Find_flag_value (clear_error l) ERROR_TIME = 0"
    using same_but_get(2) [OF c, of ERROR_TIME] b(2) by simp
qed

lemma fail_case_spec:
  assumes "failed_times st a" "env_ok env" "0 \<le> a" "a < INT_MAX"
  shows "\<exists>st1. failed_times st1 (a + 1) \<and>
    (if 0 < Send_try env \<and> Send_try env \<le> a + 1 \<and> failure_status env (a + 1) \<noteq> JFAIL
     then fail_case env False st = Some (st1, Some (failure_status env (a + 1)))
     else fail_case env False st = Some (st1, None) \<and> Find_flag_value (info (ss_job st1)) ERROR_TIME = 0)"
proof -
  let ?l = "info (ss_job st)"
  let ?f = "\<lambda>l. Set_flag_value l ATTEMPT (a + 1)"
  have at: "Find_flag_value ?l ATTEMPT = a" and kv: "kv_inv ?l"
    using assms(1) by (simp_all add: failed_times_def ticket_ready_def)
  have f: "same_but {ATTEMPT} ?l (?f ?l)" "Find_flag_value (?f ?l) ATTEMPT = a + 1"
    using same_but_flag [OF kv, of ATTEMPT "a + 1"] assms(3,4) by simp_all
  have ft: "failed_times (upd_info ?f st) (a + 1)"
    by (rule failed_times_step [OF assms(1) f(1)]) (use f(2) in simp_all)
  then have "ticket_ready (ss_job (upd_info ?f st))" by (simp add: failed_times_def)
  then obtain st3 where st3: "Set_job_ticket_file env (upd_info ?f st) = Some st3"
    "same_but ticket_keys_set (?f ?l) (info (ss_job st3))" "datafiles (ss_job st3) = datafiles (ss_job st)"
    "ticket_ready (ss_job st3)"
    using assms(2) Set_ticket_obtain [of "upd_info ?f st" env] by (auto simp: env_ok_def)
  have "Find_flag_value (info (ss_job st3)) ATTEMPT = a + 1"
    using same_but_get(2) [OF st3(2), of ATTEMPT] f(2) by simp
  then have f3: "failed_times st3 (a + 1)"
    by (intro failed_times_step [OF ft, of ticket_keys_set]) (use st3 in simp_all)
  have c: "same_but {ERROR, ERROR_TIME, PRSTATUS} (info (ss_job st3)) (clear_error (info (ss_job st3)))"
    "Find_flag_value (clear_error (info (ss_job st3))) ERROR_TIME = 0"
    using clear_error_spec st3(4) by (simp_all add: ticket_ready_def)
  have f4: "failed_times (upd_info clear_error st3) (a + 1)"
    by (rule failed_times_step [OF f3 c(1)])
      (use f3 same_but_get(2) [OF c(1), of ATTEMPT] in \<open>simp_all add: failed_times_def\<close>)
  then obtain st5 where st5: "Set_job_ticket_file env (upd_info clear_error st3) = Some st5"
    "same_but ticket_keys_set (clear_error (info (ss_job st3))) (info (ss_job st5))"
    "datafiles (ss_job st5) = datafiles (ss_job st3)"
    using assms(2) Set_ticket_obtain [of "upd_info clear_error st3" env] by (auto simp: env_ok_def failed_times_def)
  have "Find_flag_value (info (ss_job st5)) ATTEMPT = a + 1"
    using same_but_get(2) [OF st5(2), of ATTEMPT] f4 by (simp add: failed_times_def)
  then have f5: "failed_times st5 (a + 1)"
    by (intro failed_times_step [OF f4, of ticket_keys_set]) (use st5 in simp_all)
  have e5: "Find_flag_value (info (ss_job st5)) ERROR_TIME = 0"
    using same_but_get(2) [OF st5(2), of ERROR_TIME] c(2) by simp
  show ?thesis
  proof (cases "0 < Send_try env \<and> Send_try env \<le> a + 1 \<and> failure_status env (a + 1) \<noteq> JFAIL")
    case True
    with f3 st3(1) at show ?thesis by (auto simp: fail_case_def target_def on_target_def Let_def)
  next
    case False
    then have "fail_case env False st = Some (st5, None)"
      using st3(1) st5(1) at by (auto simp: fail_case_def target_def on_target_def Let_def)
    with False f5 e5 show ?thesis by auto
  qed
qed

text \<open>The state after \<open>n\<close> failures of the process that prints the job.\<close>

primrec failures :: "sv_env \<Rightarrow> nat \<Rightarrow> server_state \<Rightarrow> server_state option" where
  "failures env 0 st = Some st"
| "failures env (Suc n) st = Option.bind (failures env n st) (Update_status env JFAIL)"

lemma Update_status_plain:
  assumes "failed_times st a"
  obtains st1 where "failed_times st1 a" "Update_status env s st = status_loop env False 0 s st1"
    "destination (ss_job st1) = destination (ss_job st)" "ss_files st1 = ss_files st"
    "same_but {SERVER} (info (ss_job st)) (info (ss_job st1))" "datafiles (ss_job st1) = datafiles (ss_job st)"
proof -
  let ?f = "\<lambda>l. Set_decimal_value l SERVER 0"
  have kv: "kv_inv (info (ss_job st))" using assms by (simp add: failed_times_def ticket_ready_def)
  have f: "same_but {SERVER} (info (ss_job st)) (?f (info (ss_job st)))"
    using same_but_decimal [OF kv, of SERVER 0] by (simp add: INT_MIN_def INT_MAX_def)
  have "Find_flag_value (?f (info (ss_job st))) ATTEMPT = a"
    using same_but_get(2) [OF f, of ATTEMPT] assms by (simp add: failed_times_def)
  then have st1: "failed_times (upd_info ?f st) a"
    by (intro failed_times_step [OF assms f]) simp_all
  then have "Update_status env s st = status_loop env False 0 s (upd_info ?f st)"
    by (auto simp: Update_status_def failed_times_def Let_def)
  with st1 f show thesis by (intro that [of "upd_info ?f st"]) simp_all
qed

lemma one_failure:
  assumes "failed_times st a" "env_ok env" "0 \<le> a" "a < INT_MAX - 1"
  shows "\<exists>st1. (if 0 < Send_try env \<and> Send_try env \<le> a + 1 \<and> failure_status env (a + 1) \<noteq> JFAIL
     then failed_times st1 (a + 1) \<and> Update_status env JFAIL st = status_loop env False 0 (failure_status env (a + 1)) st1
     else Update_status env JFAIL st = Some st1 \<and> failed_times st1 (a + 1)
       \<and> Find_flag_value (info (ss_job st1)) ERROR_TIME = 0)"
proof -
  obtain st0 where st0: "failed_times st0 a" "Update_status env JFAIL st = status_loop env False 0 JFAIL st0"
    using Update_status_plain [OF assms(1), of env JFAIL] by metis
  have "a < INT_MAX" using assms(4) by simp
  from fail_case_spec [OF st0(1) assms(2,3) this] obtain st1 where "failed_times st1 (a + 1)"
    "if 0 < Send_try env \<and> Send_try env \<le> a + 1 \<and> failure_status env (a + 1) \<noteq> JFAIL
     then fail_case env False st0 = Some (st1, Some (failure_status env (a + 1)))
     else fail_case env False st0 = Some (st1, None) \<and> Find_flag_value (info (ss_job st1)) ERROR_TIME = 0" by blast
  moreover have "status_loop env False 0 JFAIL st0 =
      (case fail_case env False st0 of None \<Rightarrow> None | Some (st1, None) \<Rightarrow> Some st1
       | Some (st1, Some s) \<Rightarrow> status_loop env False 0 s st1)"
    by (subst status_loop.simps) (simp add: exit_codes)
  ultimately show ?thesis unfolding st0(2) by (intro exI [of _ st1]) (auto split: if_splits)
qed

lemma retry_run:
  assumes "failed_times st 0" "env_ok env" "Send_try env < INT_MAX"
  shows "int k < Send_try env \<Longrightarrow> \<exists>s. failures env k st = Some s \<and> failed_times s (int k)
    \<and> (0 < k \<longrightarrow> Find_flag_value (info (ss_job s)) ERROR_TIME = 0)"
proof (induction k)
  case (Suc k)
  then obtain s where s: "failures env k st = Some s" "failed_times s (int k)" by auto
  have "int k < INT_MAX - 1" using Suc.prems assms(3) by simp
  from one_failure [OF s(2) assms(2) _ this] Suc.prems s(1) show ?case by (auto split: if_splits simp: add.commute)
qed (use assms(1) in simp)

subsection \<open>The destination of a job\<close>

lemma dest_key_neq [simp]:
  assumes "0 \<le> n" "n \<le> INT_MAX"
  shows "fold_codes (dest_key n) \<noteq> fold_codes HF_NAME" "fold_codes (dest_key n) \<noteq> fold_codes REMOVE_TIME"
    "fold_codes (dest_key n) \<noteq> fold_codes IDENTIFIER" "fold_codes (dest_key n) \<noteq> fold_codes DESTINATION"
    "fold_codes (dest_key n) \<noteq> fold_codes DESTINATIONS" "fold_codes (dest_key n) \<noteq> fold_codes DONE_TIME"
    "fold_codes SERVER \<noteq> fold_codes (dest_key n)" "fold_codes SEQUENCE \<noteq> fold_codes (dest_key n)"
proof -
  have d: "dest_key n = ''DEST'' @ nat_digits 10 (nat n)" using dest_key_text [of n] assms by (simp add: dec_text_def)
  have h: "hd (nat_digits 10 (nat n)) \<in> digit_char ` {0..<10}"
    using nat_digits_set [of 10 "nat n"] nat_digits_nonempty [of 10 "nat n"] hd_in_set by force
  obtain c cs where c: "nat_digits 10 (nat n) = c # cs" "isdigit c"
    using h nat_digits_nonempty [of 10 "nat n"]
    by (cases "nat_digits 10 (nat n)") (auto simp: isdigit_def ccode_digit_char)
  show "fold_codes (dest_key n) \<noteq> fold_codes HF_NAME" "fold_codes (dest_key n) \<noteq> fold_codes REMOVE_TIME"
    "fold_codes (dest_key n) \<noteq> fold_codes IDENTIFIER" "fold_codes (dest_key n) \<noteq> fold_codes DESTINATION"
    "fold_codes (dest_key n) \<noteq> fold_codes DESTINATIONS" "fold_codes (dest_key n) \<noteq> fold_codes DONE_TIME"
    "fold_codes SERVER \<noteq> fold_codes (dest_key n)" "fold_codes SEQUENCE \<noteq> fold_codes (dest_key n)"
    using c(2) unfolding d c(1)
    by (auto simp: job_key_defs fold_codes_def tolower_def isupper_def isdigit_def ccode_def)
qed

text \<open>A job whose current destination is number \<open>n\<close> of \<open>tot\<close>, with the stored text \<open>v\<close>.\<close>

definition current_destination :: "job \<Rightarrow> int \<Rightarrow> int \<Rightarrow> cstr \<Rightarrow> bool" where
  "current_destination j n tot v \<longleftrightarrow> kv_inv (info j) \<and> Find_str_value (info j) IDENTIFIER \<noteq> None
     \<and> Find_flag_value (info j) DESTINATIONS = tot \<and> tot \<noteq> 0 \<and> 0 \<le> n \<and> n \<le> INT_MAX
     \<and> Find_str_value (info j) DESTINATION = Some (dest_key n) \<and> Find_str_value (info j) (dest_key n) = Some v"

lemma Update_status_destination:
  assumes "current_destination (ss_job st) n tot v"
  shows "\<exists>i. same_but {SERVER} (info (ss_job st)) i \<and> Update_status env status st =
    status_loop env True tot status (st\<lparr>ss_job := (ss_job st)\<lparr>info := i,
      destination := Set_decimal_value (read_lines [] (Unescape v)) SERVER 0\<rparr>\<rparr>)"
proof -
  let ?i = "Set_decimal_value (info (ss_job st)) SERVER 0"
  have n: "0 \<le> n" "n \<le> INT_MAX" and kv: "kv_inv (info (ss_job st))"
    using assms by (simp_all add: current_destination_def)
  have s: "same_but {SERVER} (info (ss_job st)) ?i"
    using same_but_decimal [OF kv, of SERVER 0] by (simp add: INT_MIN_def INT_MAX_def)
  note g = same_but_get [OF s]
  have "Find_str_value ?i (dest_key n) = Some v" "Find_str_value ?i DESTINATION = Some (dest_key n)"
    "Find_flag_value ?i DESTINATIONS = tot" "Find_str_value ?i IDENTIFIER \<noteq> None"
    using g(1) [of "dest_key n"] g(1) [of DESTINATION] g(2) [of DESTINATIONS] g(1) [of IDENTIFIER] assms
      dest_key_ok [OF n] n by (simp_all add: current_destination_def)
  with assms s show ?thesis
    by (intro exI [of _ ?i]) (auto simp: Update_status_def Let_def Get_destination_by_name_def
        read_destination_def current_destination_def)
qed

lemma abort_dest_ticket:
  "abort_case env True status st = Some st' \<Longrightarrow> ss_ticket st' = ss_ticket st"
  by (auto simp: abort_case_def Let_def on_target_def store_destination_def split: if_splits)

lemma store_destination_total:
  assumes "kv_inv (info (ss_job st))" "kv_inv (destination (ss_job st))"
    and "Find_flag_value (destination (ss_job st)) DESTINATION = n" "0 \<le> n" "n \<le> INT_MAX"
  shows "\<exists>i. store_destination st = Some (st\<lparr>ss_job := (ss_job st)\<lparr>info := i\<rparr>\<rparr>)
    \<and> same_but {dest_key n} (info (ss_job st)) i"
proof -
  let ?d = "destination (ss_job st)" and ?nl = "Some [CHR 0x0A]"
  obtain t where t: "Escape (Join_line_list ?d ?nl) 1 = Some t" "val_ok t"
  proof (cases "Join_line_list ?d ?nl")
    case None
    then show thesis using that [of None] by (simp add: Escape_def)
  next
    case (Some s)
    have "\<forall>x\<in>set ?d. cstr_ok x" using assms(2) by (auto simp: kv_inv_def ll_uniq_def ll_sorted_def ll_ok_def)
    then have "cstr_ok s" using Some by (auto simp: Join_line_list_def cstr_ok_def NUL_def split: if_splits)
    show thesis
    proof (cases s)
      case Nil
      then show thesis using Some that [of None] by (simp add: Escape_def)
    next
      case (Cons c cs)
      with Escape_one [OF \<open>cstr_ok s\<close>] Some that show thesis by auto
    qed
  qed
  have "same_but {dest_key n} (info (ss_job st)) (Set_str_value (info (ss_job st)) (dest_key n) t)"
    using same_but_str(1) [OF assms(1) dest_key_ok [OF assms(4,5)] t(2)] .
  with t(1) assms(3) show ?thesis by (auto simp: store_destination_def Update_destination_def)
qed

text \<open>The job is over: it gets the time of its removal, and is removed unless jobs are kept.\<close>

lemma finish_job_spec:
  assumes "ticket_ready (ss_job st)" "env_ok env"
  shows "\<exists>st'. finish_job env st = Some st' \<and> Find_flag_value (info (ss_job st')) REMOVE_TIME = sv_time env
    \<and> (\<not> Save_when_done env \<and> Done_jobs env = 0 \<and> Done_jobs_max_age env = 0 \<longrightarrow>
         ss_files st' = fst (Remove_job env (ss_job st') (ss_files st)))"
proof -
  let ?f = "\<lambda>l. Set_flag_value l REMOVE_TIME (sv_time env)"
  have f: "same_but {REMOVE_TIME} (info (ss_job st)) (?f (info (ss_job st)))"
    "Find_flag_value (?f (info (ss_job st))) REMOVE_TIME = sv_time env"
    using same_but_flag [of "info (ss_job st)" REMOVE_TIME "sv_time env"] assms
    by (simp_all add: ticket_ready_def env_ok_def)
  have "ticket_ready (ss_job (upd_info ?f st))" using ready_info [OF assms(1) f(1)] by simp
  then obtain st1 where st1: "Set_job_ticket_file env (upd_info ?f st) = Some st1"
    "same_but ticket_keys_set (?f (info (ss_job st))) (info (ss_job st1))" "ss_files st1 = ss_files st"
    using assms(2) Set_ticket_obtain [of "upd_info ?f st" env] by (auto simp: env_ok_def)
  have "Find_flag_value (info (ss_job st1)) REMOVE_TIME = sv_time env"
    using same_but_get(2) [OF st1(2), of REMOVE_TIME] f(2) by simp
  with st1(1,3) assms(1) show ?thesis
    by (auto simp: finish_job_def ticket_ready_def save_or_remove_def save_job_def)
qed

subsection \<open>Properties\<close>

text \<open>
  C3: retries end. A job without destinations whose printing fails again and again is tried
  \<open>send_try\<close> times: after each earlier failure its ticket counts the attempts and carries no error, and
  after the last one, unless the configured action is to treat it as a success or to retry, it is held
  or in error, so that it is never printable again whatever else happens to its queue.
\<close>

theorem failing_job_stops:
  assumes "failed_times st 0" "env_ok env" "0 < Send_try env" "Send_try env < INT_MAX - 1"
    and "failure_status env (Send_try env) \<in> {JHOLD, JABORT, JREMOVE, JFAILNORETRY}"
  shows "(\<forall>k. int k < Send_try env \<longrightarrow> (\<exists>s. failures env k st = Some s \<and> failed_times s (int k)
       \<and> (0 < k \<longrightarrow> Find_flag_value (info (ss_job s)) ERROR_TIME = 0)))
    \<and> (\<exists>s. failures env (nat (Send_try env)) st = Some s \<and> (\<forall>jenv h. \<not> may_print jenv (info (ss_job s)) h))"
proof (intro conjI allI impI)
  have lt: "Send_try env < INT_MAX" using assms(4) by simp
  show "\<exists>s. failures env k st = Some s \<and> failed_times s (int k)
      \<and> (0 < k \<longrightarrow> Find_flag_value (info (ss_job s)) ERROR_TIME = 0)" if "int k < Send_try env" for k
    using retry_run [OF assms(1,2) lt that] .
  obtain m where m: "nat (Send_try env) = Suc m" "Send_try env = int m + 1"
    using assms(3) by (metis Suc_pred' add.commute int_nat_eq of_nat_Suc zero_less_nat_eq less_le)
  from retry_run [OF assms(1,2) lt, of m] m(2) obtain s where
    s: "failures env m st = Some s" "failed_times s (int m)" by auto
  have "failure_status env (int m + 1) \<noteq> JFAIL" using assms(5) by (auto simp: m(2) exit_codes)
  with one_failure [OF s(2) assms(2)] assms(3,4) m(2) obtain st1 where st1: "failed_times st1 (int m + 1)"
    "Update_status env JFAIL s = status_loop env False 0 (failure_status env (int m + 1)) st1" by fastforce
  from st1(1) have "ticket_ready (ss_job st1)" "Find_flag_value (info (ss_job st1)) ATTEMPT = int m + 1"
    by (simp_all add: failed_times_def)
  from stopped_cases [OF this(1) assms(2), of "failure_status env (int m + 1)" 0] this(2) assms(4,5) m(2)
  obtain st' where "status_loop env False 0 (failure_status env (int m + 1)) st1 = Some st'"
    "Find_flag_value (info (ss_job st')) HOLD_TIME \<noteq> 0 \<or> Find_flag_value (info (ss_job st')) ERROR_TIME \<noteq> 0"
    by auto
  with s(1) st1(2) show "\<exists>s. failures env (nat (Send_try env)) st = Some s \<and> (\<forall>jenv h. \<not> may_print jenv (info (ss_job s)) h)"
    by (auto simp: m(1) may_print_def)
qed

definition demo_sv_env :: sv_env where
  "demo_sv_env = \<lparr>Send_try = 3, Save_when_done = False, Save_on_error = False, Done_jobs = 0,
     Done_jobs_max_age = 0, Stop_on_abort = False, Send_failure_action = None, failure_filter = (\<lambda>_. (0, ''hold'')),
     sv_time = 5000, ticket_time = ''12:00'', unlink_ok = (\<lambda>_. True)\<rparr>"

definition demo_state :: "line_list \<Rightarrow> server_state" where
  "demo_state i = \<lparr>ss_job = Init_job\<lparr>info := i\<rparr>, ss_ticket = None, ss_files = [''hfA001'', ''dfA001''],
     ss_done_count = 0, ss_done_time = 0, ss_control = [], ss_control_file = [], ss_mail = []\<rparr>"

lemma failing_job_stops_witness:
  "\<exists>s. failures demo_sv_env 3 (demo_state [''A=ann@host+1'', ''hf_name=hfA001'']) = Some s
    \<and> (\<forall>jenv h. \<not> may_print jenv (info (ss_job s)) h)"
proof -
  have "failed_times (demo_state [''A=ann@host+1'', ''hf_name=hfA001'']) 0"
    unfolding failed_times_def ticket_ready_def demo_state_def by code_simp
  moreover have "env_ok demo_sv_env" unfolding env_ok_def by code_simp
  moreover have "0 < Send_try demo_sv_env" "Send_try demo_sv_env < INT_MAX - 1"
    "failure_status demo_sv_env (Send_try demo_sv_env) \<in> {JHOLD, JABORT, JREMOVE, JFAILNORETRY}"
    "nat (Send_try demo_sv_env) = 3" by code_simp+
  ultimately show ?thesis
    using failing_job_stops [of "demo_state [''A=ann@host+1'', ''hf_name=hfA001'']" demo_sv_env] by metis
qed

text \<open>
  What is done after the last attempt: a filter decides by its exit status alone, so that what it
  prints is ignored and a filter that succeeds has the job removed; and the documented keyword
  \<open>retry\<close> is not in the table, so that the job is removed.
\<close>

lemma failure_action_filter:
  "hd (dropWhile isspace a) = CHR ''|'' \<Longrightarrow> dropWhile isspace a \<noteq> [] \<Longrightarrow>
   Decode_transfer_failure (env\<lparr>Send_failure_action := Some a, failure_filter := (\<lambda>_. (0, out))\<rparr>) n = JREMOVE"
  by (simp add: Decode_transfer_failure_def)

lemma failure_action_retry:
  "Decode_transfer_failure (env\<lparr>Send_failure_action := Some ''retry''\<rparr>) n = JREMOVE"
proof -
  have "keyword_value failure_keys ''retry'' = None" by code_simp
  then show ?thesis by (simp add: Decode_transfer_failure_def isspace_def ccode_def)
qed

text \<open>
  An abort of one destination of a job is not stored: \<open>Update_status\<close> with \<open>JABORT\<close>, or any
  exit status without a case of its own, leaves the ticket file as it was, with the process number of
  the server that has gone and without the error, while every other status of a destination is written.
\<close>

theorem abort_destination_unsaved:
  assumes "current_destination (ss_job st) n tot v"
    and "status \<notin> {JHOLD, JSUCC, JTIMEOUT, JFAIL, JFAILNORETRY, JREMOVE}"
    and "Update_status env status st = Some st'"
  shows "ss_ticket st' = ss_ticket st"
proof -
  from Update_status_destination [OF assms(1), of env status] obtain i where
    "Update_status env status st = status_loop env True tot status (st\<lparr>ss_job := (ss_job st)\<lparr>info := i,
      destination := Set_decimal_value (read_lines [] (Unescape v)) SERVER 0\<rparr>\<rparr>)" by blast
  with assms(2,3) have "abort_case env True status (st\<lparr>ss_job := (ss_job st)\<lparr>info := i,
      destination := Set_decimal_value (read_lines [] (Unescape v)) SERVER 0\<rparr>\<rparr>) = Some st'"
    by (simp add: status_loop.simps)
  from abort_dest_ticket [OF this] show ?thesis by simp
qed

definition demo_routed :: server_state where
  "demo_routed = demo_state [''A=ann@host+1'', ''DEST1=destination%3d1'', ''destination=DEST1'', ''destinations=2'',
     ''hf_name=hfA001'', ''server=77'']"

lemma demo_routed_ok: "current_destination (ss_job demo_routed) 1 2 ''destination%3d1''"
  unfolding current_destination_def demo_routed_def demo_state_def by code_simp

lemma abort_destination_unsaved_witness:
  "\<exists>st'. Update_status demo_sv_env JABORT demo_routed = Some st' \<and> ss_ticket st' = None"
proof -
  have n: "JABORT \<notin> {JHOLD, JSUCC, JTIMEOUT, JFAIL, JFAILNORETRY, JREMOVE}" by code_simp
  have "Update_status demo_sv_env JABORT demo_routed \<noteq> None"
  proof -
    obtain i where "Update_status demo_sv_env JABORT demo_routed = status_loop demo_sv_env True 2 JABORT
        (demo_routed\<lparr>ss_job := (ss_job demo_routed)\<lparr>info := i,
          destination := Set_decimal_value (read_lines [] (Unescape ''destination%3d1'')) SERVER 0\<rparr>\<rparr>)"
      using Update_status_destination [OF demo_routed_ok, of demo_sv_env JABORT] by blast
    then show ?thesis using n Escape_total
      by (auto simp: status_loop.simps abort_case_def Let_def on_target_def store_destination_def
          Update_destination_def split: option.splits)
  qed
  then obtain st' where st': "Update_status demo_sv_env JABORT demo_routed = Some st'" by auto
  from abort_destination_unsaved [OF demo_routed_ok n st'] st' show ?thesis by (simp add: demo_routed_def demo_state_def)
qed

text \<open>
  The last destination ends the job. When the last one of the destinations of a job has printed its
  last copy, the whole job gets its removal time and its files are removed (unless finished jobs are
  kept), whatever the state of the other destinations: a destination that is held or failed is lost.
\<close>

theorem last_destination_ends_job:
  assumes "current_destination (ss_job st) n tot v" "tot \<le> n + 1" "ticket_ready (ss_job st)" "env_ok env"
    and "kv_inv (read_lines [] (Unescape v))" "Find_flag_value (read_lines [] (Unescape v)) DESTINATION = n"
    and "Find_str_value (read_lines [] (Unescape v)) MOVE = None"
    and "Find_flag_value (read_lines [] (Unescape v)) COPIES \<le> Find_flag_value (read_lines [] (Unescape v)) COPY_DONE + 1"
    and "0 \<le> Find_flag_value (read_lines [] (Unescape v)) COPY_DONE"
    and "Find_flag_value (read_lines [] (Unescape v)) COPY_DONE < INT_MAX"
    and "0 \<le> Find_flag_value (info (ss_job st)) SEQUENCE" "Find_flag_value (info (ss_job st)) SEQUENCE < INT_MAX"
  shows "\<exists>st'. Update_status env JSUCC st = Some st' \<and> Find_flag_value (info (ss_job st')) REMOVE_TIME = sv_time env
    \<and> (\<not> Save_when_done env \<and> Done_jobs env = 0 \<and> Done_jobs_max_age env = 0 \<longrightarrow>
         ss_files st' = fst (Remove_job env (ss_job st') (ss_files st)))"
proof -
  define dl where "dl = read_lines [] (Unescape v)"
  define d0 where "d0 = Set_decimal_value dl SERVER 0"
  note asm = assms(5-10) [folded dl_def]
  have n: "0 \<le> n" "n \<le> INT_MAX" using assms(1) by (simp_all add: current_destination_def)
  obtain i where i: "same_but {SERVER} (info (ss_job st)) i"
    "Update_status env JSUCC st =
      status_loop env True tot JSUCC (st\<lparr>ss_job := (ss_job st)\<lparr>info := i, destination := d0\<rparr>\<rparr>)"
    using Update_status_destination [OF assms(1), of env JSUCC] by (auto simp: dl_def d0_def)
  have d0: "same_but {SERVER} dl d0"
    unfolding d0_def using same_but_decimal [OF asm(1), of SERVER 0] by (simp add: INT_MIN_def INT_MAX_def)
  define copy where "copy = Find_flag_value dl COPY_DONE"
  define d1 where "d1 = Set_flag_value (Set_flag_value d0 COPY_DONE (copy + 1)) DONE_TIME (sv_time env)"
  have t: "0 \<le> sv_time env" "sv_time env \<le> INT_MAX" using assms(4) by (simp_all add: env_ok_def)
  have c: "same_but {COPY_DONE} d0 (Set_flag_value d0 COPY_DONE (copy + 1))"
    using same_but_flag(1) [OF same_but_inv [OF d0], of COPY_DONE "copy + 1"] asm(5,6) by (simp add: copy_def)
  have d1: "same_but ({COPY_DONE} \<union> {DONE_TIME}) d0 d1" unfolding d1_def
    using same_but_trans [OF c same_but_flag(1) [OF same_but_inv [OF c], of DONE_TIME "sv_time env"]] t by simp
  have v0: "Find_flag_value d0 COPIES = Find_flag_value dl COPIES" "Find_flag_value d0 COPY_DONE = copy"
    "Find_flag_value d0 DESTINATION = n" "Find_str_value d0 MOVE = None"
    using same_but_get [OF d0, of COPIES] same_but_get [OF d0, of COPY_DONE]
      same_but_get [OF d0, of DESTINATION] same_but_get [OF d0, of MOVE] asm by (simp_all add: copy_def)
  have v1: "Find_flag_value d1 DESTINATION = n" using same_but_get(2) [OF d1, of DESTINATION] v0(3) by simp
  let ?q = "\<lambda>l. Set_flag_value l SEQUENCE (Find_flag_value l SEQUENCE + 1)"
  have q: "same_but {SEQUENCE} i (?q i)"
    using same_but_flag(1) [OF same_but_inv [OF i(1)], of SEQUENCE "Find_flag_value i SEQUENCE + 1"]
      same_but_get(2) [OF i(1), of SEQUENCE] assms(11,12) by simp
  define st1 where "st1 = st\<lparr>ss_job := (ss_job st)\<lparr>info := ?q i, destination := d1\<rparr>\<rparr>"
  obtain i2 where i2: "store_destination st1 = Some (st1\<lparr>ss_job := (ss_job st1)\<lparr>info := i2\<rparr>\<rparr>)"
    "same_but {dest_key n} (?q i) i2"
    using store_destination_total [of st1 n] same_but_inv [OF q] same_but_inv [OF d1] v1 n by (auto simp: st1_def)
  define i3 where "i3 = Set_flag_value i2 DONE_TIME (sv_time env)"
  have i3: "same_but {DONE_TIME} i2 i3" unfolding i3_def
    using same_but_flag(1) [OF same_but_inv [OF i2(2)], of DONE_TIME] t by simp
  define st3 where "st3 = st\<lparr>ss_job := (ss_job st)\<lparr>destination := d1, info := i3\<rparr>\<rparr>"
  have "ticket_ready ((ss_job st)\<lparr>info := i3\<rparr>)"
    by (rule ready_info [OF assms(3) same_but_trans [OF same_but_trans [OF same_but_trans [OF i(1) q] i2(2)] i3]])
      (use n in auto)
  then have "ticket_ready (ss_job st3)" by (simp add: st3_def ticket_ready_def)
  from finish_job_spec [OF this assms(4)] obtain st' where st': "finish_job env st3 = Some st'"
    "Find_flag_value (info (ss_job st')) REMOVE_TIME = sv_time env"
    "\<not> Save_when_done env \<and> Done_jobs env = 0 \<and> Done_jobs_max_age env = 0 \<longrightarrow>
         ss_files st' = fst (Remove_job env (ss_job st') (ss_files st3))" by blast
  have "Update_status env JSUCC st = finish_job env st3"
    unfolding i(2) using v0 asm(4) assms(2) i2(1)
    by (simp add: status_loop.simps dest_success_def Let_def exit_codes st1_def st3_def d1_def i3_def copy_def)
  with st' show ?thesis by (simp add: st3_def)
qed

text \<open>The first destination of this job is on hold.\<close>

definition demo_held :: server_state where
  "demo_held = demo_state [''A=ann@host+1'', ''DEST0=destination%3d0%0ahold_time%3d0x10'', ''DEST1=destination%3d1'',
     ''destination=DEST1'', ''destinations=2'', ''hf_name=hfA001'', ''server=77'']"

lemma last_destination_ends_job_witness:
  "\<exists>st'. Update_status demo_sv_env JSUCC demo_held = Some st'
    \<and> Find_flag_value (info (ss_job st')) REMOVE_TIME = 5000"
proof -
  have c: "current_destination (ss_job demo_held) 1 2 ''destination%3d1''" "ticket_ready (ss_job demo_held)"
    unfolding current_destination_def ticket_ready_def demo_held_def demo_state_def by code_simp+
  have e: "(2::int) \<le> 1 + 1" "env_ok demo_sv_env" unfolding env_ok_def by code_simp+
  have d: "kv_inv (read_lines [] (Unescape ''destination%3d1''))"
    "Find_flag_value (read_lines [] (Unescape ''destination%3d1'')) DESTINATION = 1"
    "Find_str_value (read_lines [] (Unescape ''destination%3d1'')) MOVE = None"
    "Find_flag_value (read_lines [] (Unescape ''destination%3d1'')) COPIES
      \<le> Find_flag_value (read_lines [] (Unescape ''destination%3d1'')) COPY_DONE + 1"
    "0 \<le> Find_flag_value (read_lines [] (Unescape ''destination%3d1'')) COPY_DONE"
    "Find_flag_value (read_lines [] (Unescape ''destination%3d1'')) COPY_DONE < INT_MAX"
    "0 \<le> Find_flag_value (info (ss_job demo_held)) SEQUENCE"
    "Find_flag_value (info (ss_job demo_held)) SEQUENCE < INT_MAX"
    by code_simp+
  have t: "sv_time demo_sv_env = 5000" by (simp add: demo_sv_env_def)
  from last_destination_ends_job [OF c(1) e(1) c(2) e(2) d] show ?thesis unfolding t by blast
qed

end
