(* ===== verification/ServerQueue.thy ===== *)
theory ServerQueue
  imports JobServer
begin

section \<open>Choosing what to print (lpd\_jobs.c)\<close>

text \<open>
  The decisions of the queue server \<open>Do_queue_jobs\<close>: the spool information of its servers, the removal
  of stale activity marks at its start, the exit status of a subserver, the destination and the server
  of a job, the scan of the sorted queue for the first job that can be started, and the removal of old
  finished jobs by \<open>Remove_done_jobs\<close>. The chooser program, permissions, the size of a job (a double)
  and the process table are parameters. Files, locks, signals and the processes themselves are not
  modelled: the loop around these decisions waits for processes and starts them.
\<close>

subsection \<open>The servers of a queue\<close>

definition copy_value :: "line_list \<Rightarrow> line_list \<Rightarrow> cstr \<Rightarrow> line_list" where
  "copy_value from dest key = Set_str_value dest key (Find_str_value from key)"

text \<open>\<open>control\<close> gives the contents of a control file by its path.\<close>

definition Update_spool_info :: "(cstr option \<Rightarrow> cstr option) \<Rightarrow> line_list \<Rightarrow> line_list" where
  "Update_spool_info control sp =
     (let i = foldl (copy_value sp) [] [SPOOLDIR, PRINTER, QUEUE_CONTROL_FILE, HF_NAME, IDENTIFIER, SERVER, DONE_TIME];
          sc = Find_str_value i QUEUE_CONTROL_FILE
      in Merge_line_list (Get_spool_control (control sc)) i (Some Hash_value_sep) True True)"

definition cmp_server :: "line_list \<Rightarrow> line_list \<Rightarrow> int" where
  "cmp_server left right = Find_flag_value left DONE_TIME - Find_flag_value right DONE_TIME"

text \<open>The list that names every server once: first the old order, then the configured names.\<close>

fun server_order :: "line_list \<Rightarrow> line_list \<Rightarrow> line_list" where
  "server_order seen [] = []"
| "server_order seen (s # ss) =
     (if Find_str_value seen s \<noteq> None then server_order seen ss
      else s # server_order (Set_str_value seen s (Some s)) ss)"

definition Get_subserver_names :: "cstr option \<Rightarrow> cstr option \<Rightarrow> line_list" where
  "Get_subserver_names list old_order =
     (let split = (\<lambda>l s. case s of None \<Rightarrow> l | Some t \<Rightarrow> Split l t File_sep False None False (CHR 0x01) False None)
      in server_order [] (split (split [] (map_option Unescape old_order)) list))"

subsection \<open>The exit status of a process\<close>

datatype proc_status = Exited int | Signaled int

definition quiet_signals :: "int list" where
  "quiet_signals = [0, 2, 9, 3, 15, 10]"

text \<open>
  \<open>SIGINT\<close>, \<open>SIGKILL\<close>, \<open>SIGQUIT\<close>, \<open>SIGTERM\<close> and \<open>SIGUSR1\<close> by their numbers on Linux.
\<close>

definition exit_status :: "proc_status \<Rightarrow> int" where
  "exit_status p =
     (case p of
        Signaled s \<Rightarrow> if s \<in> set quiet_signals then JFAIL else JABORT
      | Exited n \<Rightarrow>
          (let st = (if 0 < n \<and> n < 32 then n + (JFAIL - 1) else n) in if st = JSIGNAL then JABORT else st))"

subsection \<open>Stale marks\<close>

definition clear_dest :: "job \<times> bool \<Rightarrow> int \<Rightarrow> (job \<times> bool) option" where
  "clear_dest s n =
     (case s of (j, changed) \<Rightarrow>
        let j1 = fst (Get_destination j n) in
        if Find_flag_value (destination j1) SERVER \<noteq> 0 then
          map_option (\<lambda>j2. (j2, True)) (Update_destination (j1\<lparr>destination := Set_decimal_value (destination j1) SERVER 0\<rparr>))
        else Some (j1, changed))"

fun clear_dests :: "int list \<Rightarrow> job \<times> bool \<Rightarrow> (job \<times> bool) option" where
  "clear_dests [] s = Some s"
| "clear_dests (n # ns) s = Option.bind (clear_dest s n) (clear_dests ns)"

text \<open>What the start of a server does to a ticket; the flag says whether it has to be written.\<close>

definition clear_marks :: "job \<Rightarrow> (job \<times> bool) option" where
  "clear_marks j =
     (let (j1, m1) = (if Find_flag_value (info j) SERVER \<noteq> 0
                      then (j\<lparr>info := Set_decimal_value (info j) SERVER 0\<rparr>, True) else (j, False));
          n = Find_flag_value (info j1) DESTINATIONS
      in if n = 0 then Some (j1, m1)
         else
           (let (j2, m2) = (if Find_str_value (info j1) DESTINATION \<noteq> None
                            then (j1\<lparr>info := Set_str_value (info j1) DESTINATION None\<rparr>, True) else (j1, m1))
            in clear_dests (map int [0..<nat n]) (j2, m2)))"

subsection \<open>The destination of a job\<close>

record dest_choice =
  dc_job :: job
  new_dest :: "cstr option"
  move_dest :: "cstr option"
  dc_index :: int
  all_done :: int

fun dest_choose :: "bool \<Rightarrow> int list \<Rightarrow> dest_choice \<Rightarrow> dest_choice" where
  "dest_choose enabled [] c = c"
| "dest_choose enabled (n # ns) c =
     (let j = fst (Get_destination (dc_job c) n); d = destination j; c1 = c\<lparr>dc_job := j\<rparr> in
      if Find_flag_value d SERVER \<noteq> 0 then c1
      else if Find_flag_value d DONE_TIME \<noteq> 0 then dest_choose enabled ns (c1\<lparr>all_done := all_done c1 + 1\<rparr>)
      else if Find_flag_value d ERROR_TIME \<noteq> 0 \<or> Find_flag_value d HOLD_TIME \<noteq> 0 then dest_choose enabled ns c1
      else if Find_str_value d MOVE \<noteq> None then
        c1\<lparr>new_dest := Find_str_value d MOVE, move_dest := Find_str_value d MOVE, dc_index := n\<rparr>
      else if Find_flag_value d PRINTABLE \<noteq> 0 \<and> enabled then
        c1\<lparr>new_dest := Find_str_value d DEST, dc_index := n\<rparr>
      else dest_choose enabled ns c1)"

definition choose_dest :: "bool \<Rightarrow> line_list \<Rightarrow> job \<Rightarrow> dest_choice" where
  "choose_dest enabled sc j =
     (let n = Find_flag_value (info j) DESTINATIONS;
          c0 = \<lparr>dc_job = j, new_dest = None, move_dest = None, dc_index = -1, all_done = 0\<rparr>
      in if n = 0 then
           (let m = (case Find_str_value (info j) MOVE of Some s \<Rightarrow> Some s | None \<Rightarrow> Frwarding sc)
            in c0\<lparr>new_dest := m, move_dest := m\<rparr>)
         else dest_choose enabled (map int [0..<nat n]) c0)"

subsection \<open>The server of a job\<close>

text \<open>
  \<open>sq_chooser\<close> is the chooser program, given its environment and its input, with its exit status and
  what can be read from its output; \<open>Chooser_routine\<close> says that a chooser routine is configured, and
  none is compiled in. \<open>perm_ok\<close> is the outcome of \<open>Check_print_perms\<close> and \<open>zero_size\<close> says that the
  size of the job, a double, is 0.
\<close>

record sq_env =
  sq_chooser :: "(line_list \<Rightarrow> cstr option \<Rightarrow> int \<times> cstr) option"
  Chooser_routine :: bool
  Chooser_scan_queue :: bool
  perm_ok :: "job \<Rightarrow> bool"
  zero_size :: "job \<Rightarrow> bool"
  Discard_zero_length :: bool

definition usable :: "line_list \<Rightarrow> bool" where
  "usable sp \<longleftrightarrow> Pr_disabled sp = 0 \<and> Pr_aborted sp = 0 \<and> Sp_disabled sp = 0 \<and> Find_flag_value sp SERVER = 0"

text \<open>Without a chooser: the first usable server whose class takes the job.\<close>

fun first_server :: "line_list \<Rightarrow> int \<Rightarrow> line_list list \<Rightarrow> int option option" where
  "first_server i n [] = Some None"
| "first_server i n (sp # sps) =
     (if \<not> usable sp then first_server i (n + 1) sps
      else (case Get_hold_class i sp of
              None \<Rightarrow> None
            | Some h \<Rightarrow> if h \<noteq> 0 then first_server i (n + 1) sps else Some (Some n)))"

text \<open>With a chooser: all these servers, with the lists that the chooser gets.\<close>

definition add_choice :: "int \<Rightarrow> line_list \<Rightarrow> line_list \<times> line_list \<Rightarrow> line_list \<times> line_list" where
  "add_choice n sp ce =
     (let s = opt_str (Find_str_value sp PRINTER);
          env = Set_str_value (snd ce) s (Join_line_list_with_sep sp (Some newline));
          env' = (case Find_str_value env ''PRINTERS'' of
                    Some t \<Rightarrow> Set_str_value env ''PRINTERS'' (Some (t @ '','' @ s))
                  | None \<Rightarrow> Set_str_value env ''PRINTERS'' (Some s))
      in (Set_flag_value (fst ce) s n, env'))"

fun chooser_lists ::
  "line_list \<Rightarrow> int \<Rightarrow> line_list list \<Rightarrow> nat \<times> line_list \<times> line_list \<Rightarrow> (nat \<times> line_list \<times> line_list) option" where
  "chooser_lists i n [] r = Some r"
| "chooser_lists i n (sp # sps) (cnt, ce) =
     (if \<not> usable sp then chooser_lists i (n + 1) sps (cnt, ce)
      else (case Get_hold_class i sp of
              None \<Rightarrow> None
            | Some h \<Rightarrow> if h \<noteq> 0 then chooser_lists i (n + 1) sps (cnt, ce)
                        else chooser_lists i (n + 1) sps (cnt + 1, add_choice n sp ce)))"

datatype choice =
    No_server
  | Use int "cstr option"
  | Chooser_exit int
  | Bad_choice

definition chooser_word :: "cstr \<Rightarrow> cstr" where
  "chooser_word out = takeWhile (\<lambda>c. c \<notin> set Whitespace) (dropWhile isspace out)"

text \<open>
  The server for a job: \<open>Use n d\<close> is server number \<open>n\<close>, and a new destination if the chooser names a
  remote queue. The second component says that no server was found (\<open>chooser\_did\_not\_find\_server\<close>):
  it is set too when there is no chooser. \<open>None\<close> is a fatal error.
\<close>

definition choose_server ::
  "sq_env \<Rightarrow> line_list list \<Rightarrow> nat \<Rightarrow> bool \<Rightarrow> job \<Rightarrow> (choice \<times> bool) option" where
  "choose_server sq servers master working j =
     (case sq_chooser sq of
        None \<Rightarrow>
          if Chooser_routine sq then
            (if working \<and> master = 0 then Some (No_server, True)
             else (case chooser_lists (info j) (int master) (drop master servers) (0, [], []) of
                     None \<Rightarrow> None
                   | Some (cnt, _) \<Rightarrow>
                       if 1 < length servers \<and> cnt = 0 then Some (No_server, True) else None))
          else
            (case first_server (info j) (int master) (drop master servers) of
               None \<Rightarrow> None
             | Some None \<Rightarrow> Some (No_server, 1 < length servers)
             | Some (Some n) \<Rightarrow> Some (Use n None, 1 < length servers))
      | Some run \<Rightarrow>
          (case chooser_lists (info j) (int master) (drop master servers) (0, [], []) of
             None \<Rightarrow> None
           | Some (cnt, cl, env) \<Rightarrow>
               if working \<and> master = 0 then Some (No_server, True)
               else if 1 < length servers \<and> cnt = 0 then Some (No_server, True)
               else if Chooser_routine sq then None
               else
                 (case run env (Find_str_value env ''PRINTERS'') of
                    (st, out) \<Rightarrow>
                      if st = JABORT then None
                      else if st \<noteq> 0 then Some (Chooser_exit st, True)
                      else
                        (let w = chooser_word out in
                         if w = [] then Some (No_server, True)
                         else if Find_str_value cl w \<noteq> None then Some (Use (Find_flag_value cl w) None, False)
                         else if CHR ''@'' \<in> set w then Some (Use 0 (Some w), False)
                         else Some (Bad_choice, False)))))"

subsection \<open>The scan of the queue\<close>

text \<open>
  What happens to the jobs that are passed over, and the job to start: its index, its server, its
  destination, and where it goes.
\<close>

datatype effect = Refuse cstr | Complete | Chooser_failed int

record start =
  s_index :: nat
  s_job :: job
  s_server :: int
  s_dest :: int
  s_move :: "cstr option"
  s_new :: "cstr option"

definition processable :: "line_list \<Rightarrow> bool \<Rightarrow> pstate \<Rightarrow> bool" where
  "processable sc enabled p \<longleftrightarrow>
     ((printable p \<noteq> 0 \<and> (enabled \<or> Frwarding sc \<noteq> None)) \<or> moved p \<noteq> 0) \<and> held p = 0"

definition queue_enabled :: "line_list \<Rightarrow> bool" where
  "queue_enabled sc \<longleftrightarrow> \<not> (Pr_disabled sc \<noteq> 0 \<or> Pr_aborted sc \<noteq> 0)"

text \<open>One job: nothing, an effect, or a start; and whether a server was looked for in vain.\<close>

definition try_job ::
  "job_env \<Rightarrow> sq_env \<Rightarrow> line_list \<Rightarrow> line_list list \<Rightarrow> nat \<Rightarrow> bool \<Rightarrow> nat \<Rightarrow> cstr option
     \<Rightarrow> (effect option \<times> start option \<times> bool) option" where
  "try_job env sq sc servers master working idx content =
     (let j = Get_job_ticket_file content Init_job; enabled = queue_enabled sc in
      if info j = [] \<or> Find_flag_value (info j) SERVER \<noteq> 0 then Some (None, None, False)
      else
        (case Job_printable env j sc of
           None \<Rightarrow> None
         | Some (j1, p) \<Rightarrow>
             if \<not> processable sc enabled p then Some (None, None, False)
             else if \<not> perm_ok sq j1 then Some (Some (Refuse ''no permission to print''), None, False)
             else if zero_size sq j1 \<and> Discard_zero_length sq then
               Some (Some (Refuse ''not printing zero length job''), None, False)
             else
               (let n = Find_flag_value (info j1) DESTINATIONS;
                    c = choose_dest enabled sc j1;
                    ok = (if n \<noteq> 0 \<and> new_dest c = None then False else printable p \<noteq> 0);
                    start = (\<lambda>srv nd. \<lparr>s_index = idx, s_job = dc_job c, s_server = srv, s_dest = dc_index c,
                               s_move = move_dest c, s_new = nd\<rparr>)
                in if n \<noteq> 0 \<and> all_done c = n then Some (Some Complete, None, False)
                   else if move_dest c \<noteq> None then Some (None, Some (start 0 (new_dest c)), False)
                   else if enabled \<and> ok then
                     (case choose_server sq servers master working (dc_job c) of
                        None \<Rightarrow> None
                      | Some (ch, flag) \<Rightarrow>
                          (case ch of
                             No_server \<Rightarrow> Some (None, None, flag)
                           | Bad_choice \<Rightarrow> Some (None, None, flag)
                           | Chooser_exit st \<Rightarrow>
                               Some (if st \<noteq> JFAIL then Some (Chooser_failed st) else None, None, flag)
                           | Use srv nd \<Rightarrow>
                               Some (None, Some (start srv (case nd of Some d \<Rightarrow> Some d | None \<Rightarrow> new_dest c)), flag)))
                   else Some (None, None, False))))"

fun scan_jobs ::
  "job_env \<Rightarrow> sq_env \<Rightarrow> line_list \<Rightarrow> line_list list \<Rightarrow> nat \<Rightarrow> bool \<Rightarrow> nat \<Rightarrow> cstr option list \<Rightarrow> bool
     \<Rightarrow> ((nat \<times> effect) list \<times> start option \<times> bool) option" where
  "scan_jobs env sq sc servers master working idx [] flag = Some ([], None, flag)"
| "scan_jobs env sq sc servers master working idx (t # ts) flag =
     (if flag \<and> \<not> Chooser_scan_queue sq then Some ([], None, flag)
      else
        (case try_job env sq sc servers master working idx t of
           None \<Rightarrow> None
         | Some (eff, Some st, f) \<Rightarrow> Some ([], Some st, flag \<or> f)
         | Some (eff, None, f) \<Rightarrow>
             map_option (\<lambda>(es, st, fl). ((case eff of None \<Rightarrow> [] | Some e \<Rightarrow> [(idx, e)]) @ es, st, fl))
               (scan_jobs env sq sc servers master working (idx + 1) ts (flag \<or> f))))"

subsection \<open>What a scan starts\<close>

lemma first_server_spec:
  "first_server i n sps = Some (Some m) \<Longrightarrow>
   n \<le> m \<and> m < n + int (length sps) \<and> usable (sps ! nat (m - n)) \<and> Get_hold_class i (sps ! nat (m - n)) = Some 0"
proof (induction i n sps rule: first_server.induct)
  case (2 i n sp sps)
  show ?case
  proof (cases "usable sp \<and> Get_hold_class i sp = Some 0")
    case True
    with 2(3) show ?thesis by simp
  next
    case False
    with 2(3) have "first_server i (n + 1) sps = Some (Some m)" by (auto split: if_splits option.splits)
    with False 2 have IH: "n + 1 \<le> m \<and> m < n + 1 + int (length sps) \<and> usable (sps ! nat (m - (n + 1)))
        \<and> Get_hold_class i (sps ! nat (m - (n + 1))) = Some 0"
      by (cases "usable sp") (auto split: option.splits if_splits)
    then have "nat (m - n) = Suc (nat (m - (n + 1)))" by (subst Suc_nat_eq_nat_zadd1) auto
    with IH show ?thesis by simp
  qed
qed simp

lemma choose_server_plain:
  assumes "sq_chooser sq = None" "\<not> Chooser_routine sq"
    and "choose_server sq servers master working j = Some (Use n d, f)"
  shows "d = None \<and> int master \<le> n \<and> n < int (length servers) \<and> usable (servers ! nat n)
    \<and> Get_hold_class (info j) (servers ! nat n) = Some 0"
proof -
  from assms have d: "d = None" "first_server (info j) (int master) (drop master servers) = Some (Some n)"
    by (auto simp: choose_server_def split: option.splits)
  note s = first_server_spec [OF d(2)]
  then have m: "master \<le> length servers" by (cases "master \<le> length servers") auto
  have "nat (int master + int (nat (n - int master))) = nat n" using s by simp
  then have "drop master servers ! nat (n - int master) = servers ! nat n"
    using m s by (simp add: nth_drop add.commute nat_diff_distrib)
  with s d m show ?thesis by auto
qed

definition ready_to_start :: "job_env \<Rightarrow> sq_env \<Rightarrow> line_list \<Rightarrow> line_list list \<Rightarrow> nat \<Rightarrow> cstr option \<Rightarrow> start \<Rightarrow> bool" where
  "ready_to_start env sq sc servers master content st \<longleftrightarrow>
     (\<exists>j1 p. Job_printable env (Get_job_ticket_file content Init_job) sc = Some (j1, p)
        \<and> info (Get_job_ticket_file content Init_job) \<noteq> []
        \<and> Find_flag_value (info (Get_job_ticket_file content Init_job)) SERVER = 0
        \<and> processable sc (queue_enabled sc) p \<and> perm_ok sq j1 \<and> \<not> (zero_size sq j1 \<and> Discard_zero_length sq))
     \<and> (s_move st \<noteq> None \<or>
        (queue_enabled sc \<and> int master \<le> s_server st \<and> s_server st < int (length servers)
         \<and> usable (servers ! nat (s_server st)) \<and> Get_hold_class (info (s_job st)) (servers ! nat (s_server st)) = Some 0))"

lemma try_job_start:
  assumes "sq_chooser sq = None" "\<not> Chooser_routine sq"
    and "try_job env sq sc servers master working idx t = Some (eff, Some st, f)"
  shows "ready_to_start env sq sc servers master t st \<and> s_index st = idx"
proof -
  let ?j = "Get_job_ticket_file t Init_job"
  from assms(3) have i: "info ?j \<noteq> []" "Find_flag_value (info ?j) SERVER = 0"
    by (auto simp: try_job_def Let_def split: if_splits)
  with assms(3) obtain j1 p where p: "Job_printable env ?j sc = Some (j1, p)"
    "processable sc (queue_enabled sc) p" "perm_ok sq j1" "\<not> (zero_size sq j1 \<and> Discard_zero_length sq)"
    by (auto simp: try_job_def Let_def split: if_splits option.splits)
  define c where "c = choose_dest (queue_enabled sc) sc j1"
  show ?thesis
  proof (cases "move_dest c")
    case (Some d)
    with assms(3) i p have "s_move st \<noteq> None" "s_index st = idx"
      by (auto simp: try_job_def Let_def c_def [symmetric] split: if_splits option.splits)
    with i p show ?thesis by (auto simp: ready_to_start_def)
  next
    case None
    with assms(3) i p obtain n nd where u: "choose_server sq servers master working (dc_job c) = Some (Use n nd, f)"
      "s_server st = n" "s_job st = dc_job c" "s_index st = idx" "queue_enabled sc"
      by (auto simp: try_job_def Let_def c_def [symmetric] split: if_splits option.splits choice.splits)
    from choose_server_plain [OF assms(1,2) u(1)] u i p show ?thesis by (auto simp: ready_to_start_def)
  qed
qed

lemma scan_jobs_start:
  assumes "sq_chooser sq = None" "\<not> Chooser_routine sq"
  shows "scan_jobs env sq sc servers master working idx ts flag = Some (effs, Some st, fl) \<Longrightarrow>
    \<exists>k<length ts. s_index st = idx + k \<and> ready_to_start env sq sc servers master (ts ! k) st
      \<and> (\<forall>i<k. \<exists>e f. try_job env sq sc servers master working (idx + i) (ts ! i) = Some (e, None, f))"
proof (induction ts arbitrary: idx flag effs)
  case (Cons t ts)
  from Cons.prems obtain eff so f where tj: "try_job env sq sc servers master working idx t = Some (eff, so, f)"
    by (auto split: if_splits option.splits)
  show ?case
  proof (cases so)
    case (Some st')
    with Cons.prems tj have "st' = st" by (auto split: if_splits)
    with try_job_start [OF assms] tj Some show ?thesis by (intro exI [of _ 0]) auto
  next
    case None
    with Cons.prems tj obtain effs' where
      "scan_jobs env sq sc servers master working (idx + 1) ts (flag \<or> f) = Some (effs', Some st, fl)"
      by (auto split: if_splits option.splits)
    from Cons.IH [OF this] obtain k where k: "k < length ts" "s_index st = idx + 1 + k"
      "ready_to_start env sq sc servers master (ts ! k) st"
      "\<forall>i<k. \<exists>e f. try_job env sq sc servers master working (idx + 1 + i) (ts ! i) = Some (e, None, f)" by blast
    have "\<exists>e f. try_job env sq sc servers master working (idx + i) ((t # ts) ! i) = Some (e, None, f)"
      if "i < Suc k" for i
      using k(4) that tj None by (cases i) auto
    with k show ?thesis by (intro exI [of _ "Suc k"]) auto
  qed
qed simp

subsection \<open>A job that is ready\<close>

lemma Job_printable_ready:
  assumes "kv_inv (info j)" "Find_flag_value (info j) DESTINATIONS = 0"
    and "Get_hold_class (info j) sc = Some h" "may_print env (info j) h"
  obtains j1 p where "Job_printable env j sc = Some (j1, p)" "printable p \<noteq> 0" "held p = 0"
    "same_but ({PRSTATUS} \<union> {PRINTABLE} \<union> {HELD}) (info j) (info j1)"
proof -
  from info_state_spec [OF assms(3), of env] assms(4) obtain st where st: "info_state env (info j) sc = Some st"
    "printable st = 1" "held st = 0" by (metis zero_neq_one)
  have v: "val_ok (Some (ptext st))" using info_state_ok [OF st(1)] by simp
  let ?i1 = "Set_str_value (info j) PRSTATUS (Some (ptext st))"
  have i1: "same_but {PRSTATUS} (info j) ?i1" by (rule same_but_str(1) [OF assms(1) _ v]) simp
  have i2: "same_but {PRINTABLE} ?i1 (Set_flag_value ?i1 PRINTABLE 1)"
    by (rule same_but_flag(1) [OF same_but_inv [OF i1]]) (simp_all add: INT_MAX_def)
  have i3: "same_but {HELD} (Set_flag_value ?i1 PRINTABLE 1) (Set_flag_value (Set_flag_value ?i1 PRINTABLE 1) HELD 0)"
    by (rule same_but_flag(1) [OF same_but_inv [OF i2]]) (simp_all add: INT_MAX_def)
  from same_but_trans [OF same_but_trans [OF i1 i2] i3] st assms(2) show thesis
    by (intro that [of "j\<lparr>info := Set_flag_value (Set_flag_value ?i1 PRINTABLE 1) HELD 0\<rparr>" st])
      (simp_all add: Job_printable_def Let_def)
qed

definition demo_ticket :: "cstr option" where
  "demo_ticket = Some (''A=ann@host+1'' @ newline @ ''C=B'' @ newline @ ''hf_name=hfA001'' @ newline)"

definition demo_sq :: sq_env where
  "demo_sq = \<lparr>sq_chooser = None, Chooser_routine = False, Chooser_scan_queue = False, perm_ok = (\<lambda>_. True),
     zero_size = (\<lambda>_. False), Discard_zero_length = True\<rparr>"

lemma demo_ready:
  obtains j1 p where "Job_printable demo_job_env (Get_job_ticket_file demo_ticket Init_job) [] = Some (j1, p)"
    "printable p \<noteq> 0" "held p = 0" "Find_flag_value (info j1) DESTINATIONS = 0"
    "Find_str_value (info j1) MOVE = None" "Find_str_value (info j1) CLASS = Some ''B''"
proof -
  let ?j = "Get_job_ticket_file demo_ticket Init_job"
  have j: "info ?j = [''A=ann@host+1'', ''C=B'', ''hf_name=hfA001'']" by code_simp
  have k: "kv_inv (info ?j)" "Find_flag_value (info ?j) DESTINATIONS = 0" "Get_hold_class (info ?j) [] = Some 0"
    "may_print demo_job_env (info ?j) 0" unfolding j by code_simp+
  obtain j1 p where p: "Job_printable demo_job_env ?j [] = Some (j1, p)" "printable p \<noteq> 0" "held p = 0"
    "same_but ({PRSTATUS} \<union> {PRINTABLE} \<union> {HELD}) (info ?j) (info j1)"
    using Job_printable_ready [OF k] .
  have n: "fold_codes x \<noteq> fold_codes y" if "x \<in> {PRSTATUS} \<union> {PRINTABLE} \<union> {HELD}" "y \<in> {DESTINATIONS, MOVE, CLASS}" for x y
    using that by (auto simp: job_key_defs fold_codes_def tolower_def isupper_def ccode_def)
  have "Find_flag_value (info j1) DESTINATIONS = Find_flag_value (info ?j) DESTINATIONS"
    "Find_str_value (info j1) MOVE = Find_str_value (info ?j) MOVE"
    "Find_str_value (info j1) CLASS = Find_str_value (info ?j) CLASS"
    using same_but_get [OF p(4), of DESTINATIONS] same_but_get [OF p(4), of MOVE] same_but_get [OF p(4), of CLASS] n
    by simp_all
  moreover have "Find_flag_value (info ?j) DESTINATIONS = 0" "Find_str_value (info ?j) MOVE = None"
    "Find_str_value (info ?j) CLASS = Some ''B''" unfolding j by code_simp+
  ultimately show thesis using p by (intro that) simp_all
qed

subsection \<open>Properties\<close>

text \<open>
  C4: without a chooser the server starts the first job in the order of the queue that it can: the
  ticket at the index it returns is not being served, printable (or to be moved) and not held, permitted
  and not empty; its server is enabled, idle, and takes the class of the job unless the job is moved;
  and none of the jobs before it could be started.
\<close>

theorem scan_starts_first:
  assumes "sq_chooser sq = None" "\<not> Chooser_routine sq"
    and "scan_jobs env sq sc servers master working idx ts flag = Some (effs, Some st, fl)"
  shows "\<exists>k<length ts. s_index st = idx + k \<and> ready_to_start env sq sc servers master (ts ! k) st
    \<and> (\<forall>i<k. \<exists>e f. try_job env sq sc servers master working (idx + i) (ts ! i) = Some (e, None, f))"
  using scan_jobs_start [OF assms] .

lemma scan_starts_first_witness:
  "\<exists>st fl. scan_jobs demo_job_env demo_sq [] [[''printer=lp'']] 0 False 0 [None, demo_ticket] False = Some ([], Some st, fl)
    \<and> s_index st = 1"
proof -
  obtain j1 p where j1: "Job_printable demo_job_env (Get_job_ticket_file demo_ticket Init_job) [] = Some (j1, p)"
    "printable p \<noteq> 0" "held p = 0" "Find_flag_value (info j1) DESTINATIONS = 0"
    "Find_str_value (info j1) MOVE = None" "Find_str_value (info j1) CLASS = Some ''B''" using demo_ready .
  have j: "info (Get_job_ticket_file demo_ticket Init_job) \<noteq> []"
    "Find_flag_value (info (Get_job_ticket_file demo_ticket Init_job)) SERVER = 0"
    "info (Get_job_ticket_file None Init_job) = []" by code_simp+
  have sc: "queue_enabled []" "Frwarding [] = None" "usable [''printer=lp'']" "Clsses [''printer=lp''] = None" by code_simp+
  have q: "sq_chooser demo_sq = None" "\<not> Chooser_routine demo_sq" "perm_ok demo_sq j1" "\<not> zero_size demo_sq j1"
    by (simp_all add: demo_sq_def)
  have "\<exists>st fl. scan_jobs demo_job_env demo_sq [] [[''printer=lp'']] 0 False 0 [None, demo_ticket] False = Some ([], Some st, fl)"
    using j1 j sc q
    by (simp add: try_job_def Let_def processable_def choose_dest_def choose_server_def Get_hold_class_def)
      (rule exI [of _ False], simp)
  then obtain st fl where r: "scan_jobs demo_job_env demo_sq [] [[''printer=lp'']] 0 False 0 [None, demo_ticket] False = Some ([], Some st, fl)"
    by blast
  from scan_starts_first [OF q(1,2) r] obtain k where k: "k < 2" "s_index st = k"
    "ready_to_start demo_job_env demo_sq [] [[''printer=lp'']] 0 ([None, demo_ticket] ! k) st" by auto
  have "k \<noteq> 0"
  proof
    assume "k = 0"
    with k(3) j(3) show False by (simp add: ready_to_start_def)
  qed
  with k r show ?thesis by (metis One_nat_def less_2_cases)
qed

text \<open>
  A server pool without a chooser is blocked by a job that no free server takes: when none of the
  servers of a pool is usable for the class of the first job, no job behind it is looked at, although
  the documentation reserves this for queues with a chooser.
\<close>

theorem pool_blocked:
  assumes "sq_chooser sq = None" "\<not> Chooser_routine sq" "\<not> Chooser_scan_queue sq" "1 < length servers"
    and "Job_printable env (Get_job_ticket_file t Init_job) sc = Some (j1, p)"
    and "info (Get_job_ticket_file t Init_job) \<noteq> []" "Find_flag_value (info (Get_job_ticket_file t Init_job)) SERVER = 0"
    and "queue_enabled sc" "printable p \<noteq> 0" "held p = 0" "perm_ok sq j1" "\<not> zero_size sq j1"
    and "Find_flag_value (info j1) DESTINATIONS = 0" "Find_str_value (info j1) MOVE = None" "Frwarding sc = None"
    and "\<forall>sp\<in>set (drop master servers). usable sp \<longrightarrow> (\<exists>h. h \<noteq> 0 \<and> Get_hold_class (info j1) sp = Some h)"
  shows "scan_jobs env sq sc servers master working idx (t # ts) False = Some ([], None, True)"
proof -
  have "first_server (info j1) n sps = Some None"
    if "\<forall>sp\<in>set sps. usable sp \<longrightarrow> (\<exists>h. h \<noteq> 0 \<and> Get_hold_class (info j1) sp = Some h)" for n sps
    using that by (induction sps arbitrary: n) auto
  from this [OF assms(16)] assms(1,2,4)
  have "choose_server sq servers master working j1 = Some (No_server, True)" by (simp add: choose_server_def)
  with assms have "try_job env sq sc servers master working idx t = Some (None, None, True)"
    by (simp add: try_job_def Let_def processable_def choose_dest_def)
  with assms(3) show ?thesis by (cases ts) auto
qed

lemma pool_blocked_witness:
  "scan_jobs demo_job_env demo_sq [] [[''printer=lp''], [''C=A'', ''printer=s1'']] 1 False 0 [demo_ticket, demo_ticket] False
    = Some ([], None, True)"
proof -
  obtain j1 p where j1: "Job_printable demo_job_env (Get_job_ticket_file demo_ticket Init_job) [] = Some (j1, p)"
    "printable p \<noteq> 0" "held p = 0" "Find_flag_value (info j1) DESTINATIONS = 0"
    "Find_str_value (info j1) MOVE = None" "Find_str_value (info j1) CLASS = Some ''B''" using demo_ready .
  have j: "info (Get_job_ticket_file demo_ticket Init_job) \<noteq> []"
    "Find_flag_value (info (Get_job_ticket_file demo_ticket Init_job)) SERVER = 0" by code_simp+
  have sc: "queue_enabled []" "Frwarding [] = None" "1 < length [[''printer=lp''], [''C=A'', ''printer=s1'']]" by code_simp+
  have q: "sq_chooser demo_sq = None" "\<not> Chooser_routine demo_sq" "\<not> Chooser_scan_queue demo_sq"
    "perm_ok demo_sq j1" "\<not> zero_size demo_sq j1" by (simp_all add: demo_sq_def)
  have c: "Clsses [''C=A'', ''printer=s1''] = Some ''A''" "Split [] ''A'' File_sep False None False NUL False None = [''A'']"
    "class_loop [''A''] ''B'' = Some (-1)" by code_simp+
  have "\<forall>sp\<in>set (drop 1 [[''printer=lp''], [''C=A'', ''printer=s1'']]). usable sp \<longrightarrow> (\<exists>h. h \<noteq> 0 \<and> Get_hold_class (info j1) sp = Some h)"
    using c j1(6) by (simp add: Get_hold_class_def)
  from pool_blocked [OF q(1-3) sc(3) j1(1) j sc(1) j1(2,3) q(4,5) j1(4,5) sc(2) this] show ?thesis .
qed

end
