(* ===== verification/DoneJobs.thy ===== *)
theory DoneJobs
  imports ServerQueue
begin

section \<open>Removing finished jobs (lpd\_jobs.c)\<close>

text \<open>
  \<open>Remove_done_jobs\<close> goes through the sorted queue, removes the jobs that have been finished for too
  long, and collects the other finished jobs in a list sorted by their removal time, of which only the
  last \<open>done\_jobs\<close> are kept. The model takes the entries of the queue with the contents of their
  tickets and yields the entries of the jobs it removes. The lemmas show that the oldest jobs go.
\<close>

record done_state =
  last_remove :: int
  remove_count :: int
  candidates :: line_list
  rd_removed :: "cstr list"

definition done_init :: done_state where
  "done_init = \<lparr>last_remove = 0, remove_count = 0, candidates = [], rd_removed = []\<rparr>"

definition removal_key :: "int \<Rightarrow> int \<Rightarrow> cstr" where
  "removal_key remove cnt = plp_snprintf SMALLBUFFER ''0x%06x.%03d'' [AInt remove, AInt cnt]"

definition expired :: "sv_env \<Rightarrow> line_list \<Rightarrow> bool" where
  "expired env i \<longleftrightarrow>
     (let error = Find_flag_value i ERROR_TIME; dn = Find_flag_value i DONE_TIME; age = Done_jobs_max_age env in
      0 < age \<and> (error \<noteq> 0 \<and> age < sv_time env - error \<or> dn \<noteq> 0 \<and> age < sv_time env - dn))"

definition alive :: "job_env \<Rightarrow> int \<Rightarrow> bool" where
  "alive jenv pid \<longleftrightarrow> pid \<noteq> 0 \<and> pid_alive jenv pid"

definition done_step :: "sv_env \<Rightarrow> job_env \<Rightarrow> done_state \<Rightarrow> cstr \<times> cstr option \<Rightarrow> done_state" where
  "done_step env jenv st e =
     (case e of (entry, content) \<Rightarrow>
        let i = info (Get_job_ticket_file content Init_job);
            error = Find_flag_value i ERROR_TIME;
            pid = Find_flag_value i INCOMING_PID;
            remove = Find_flag_value i REMOVE_TIME
        in if i = [] then st
           else if Find_flag_value i INCOMING_TIME \<noteq> 0 \<and> pid \<noteq> 0 \<and> \<not> pid_alive jenv pid then
             st\<lparr>rd_removed := rd_removed st @ [entry]\<rparr>
           else if \<not> (remove \<noteq> 0 \<or> error \<noteq> 0 \<and> \<not> Save_on_error env) then st
           else
             (let cnt = (if last_remove st \<noteq> remove then 0 else remove_count st) + 1;
                  st1 = st\<lparr>last_remove := remove, remove_count := cnt\<rparr>
              in if alive jenv (Find_flag_value i SERVER) then st1
                 else if expired env i then st1\<lparr>rd_removed := rd_removed st1 @ [entry]\<rparr>
                 else if 0 < Done_jobs env then
                   st1\<lparr>candidates := Set_str_value (candidates st1) (removal_key remove cnt) (Some entry)\<rparr>
                 else st1))"

text \<open>The ticket of a candidate stands behind the first equals sign; \<open>None\<close> is the fatal error.\<close>

definition entry_of :: "cstr \<Rightarrow> cstr option" where
  "entry_of s = map_option (drop 1) (strchr s (CHR ''=''))"

fun drop_candidates :: "line_list \<Rightarrow> cstr list option" where
  "drop_candidates [] = Some []"
| "drop_candidates (s # l) =
     (case entry_of s of None \<Rightarrow> None | Some e \<Rightarrow> map_option ((#) e) (drop_candidates l))"

text \<open>
  The removed entries, and whether the second loop removed one. With a negative \<open>done_jobs\<close> this loop
  reads behind the list, \<open>None\<close>.
\<close>

definition Remove_done_jobs ::
  "sv_env \<Rightarrow> job_env \<Rightarrow> (cstr \<times> cstr option) list \<Rightarrow> (cstr list \<times> bool) option" where
  "Remove_done_jobs env jenv entries =
     (if Save_when_done env \<or> Save_on_error env \<or> \<not> (0 < Done_jobs env \<or> 0 < Done_jobs_max_age env) then Some ([], False)
      else
        (let st = foldl (done_step env jenv) done_init entries;
             n = nat (int (length (candidates st)) - Done_jobs env)
         in if length (candidates st) < n then None
            else map_option (\<lambda>es. (rd_removed st @ es, 0 < n)) (drop_candidates (take n (candidates st)))))"

subsection \<open>The order of the candidates\<close>

lemma removal_key_text:
  assumes "16 ^ 7 \<le> r" "r < 16 ^ 8" "0 < c" "c < 1000"
  shows "removal_key r c = ''0x'' @ padded 16 8 (nat r) @ ''.'' @ padded 10 3 (nat c)"
proof -
  have r: "0 \<le> r" "r mod 4294967296 = r" using assms(1,2) by (auto intro: mod_pos_pos_trivial)
  have lr: "length (nat_digits 16 (nat r)) \<le> 8" using assms(2) r(1) length_nat_digits [of 16 "nat r" 7]
    by (simp add: nat_less_iff)
  have l8: "length (padded 16 8 (nat r)) = 8"
    using length_padded [of 16 "nat r" 7] assms(2) r(1) by (simp add: nat_less_iff)
  have l3: "length (padded 10 3 (nat c)) = 3"
    using length_padded [of 10 "nat c" 2] assms(3,4) by (simp add: nat_less_iff numeral_3_eq_3)
  have six: "padded 16 6 (nat r) = padded 16 8 (nat r)"
  proof -
    have "\<not> length (nat_digits 16 (nat r)) \<le> 7"
    proof
      assume l: "length (nat_digits 16 (nat r)) \<le> 7"
      have "digits_value (int 16) (nat_digits 16 (nat r)) < int 16 ^ length (nat_digits 16 (nat r))"
        using digits_value_bound [of 16 "nat_digits 16 (nat r)"] nat_digits_set [of 16 "nat r"] by simp
      also have "\<dots> \<le> int 16 ^ 7" using l by (intro power_increasing) auto
      finally show False using digits_value_nat_digits [of 16 "nat r"] assms(1) r(1) by simp
    qed
    with lr show ?thesis by (simp add: padded_def)
  qed
  have t: "dopr_text (\<lambda>_ _. []) [] True ''0x%06x.%03d'' [AInt r, AInt c :: unit fmt_arg] =
      Some (''0x'' @ padded 16 6 (nat r) @ ''.'' @ padded 10 3 (nat c))"
    using fmtnum_padded_pos(2) [of r 6] fmtnum_padded_pos(1) [of c 3] r assms by (simp add: fmt_eval)
  show ?thesis
    unfolding removal_key_def using snprintf_text [OF t, of SMALLBUFFER] l8 l3
    by (simp add: six SMALLBUFFER_def cstr_ok_padded NUL_def)
qed

definition rkey_ok :: "int \<Rightarrow> int \<Rightarrow> bool" where
  "rkey_ok r c \<longleftrightarrow> 16 ^ 7 \<le> r \<and> r \<le> INT_MAX \<and> 0 < c \<and> c < 1000"

lemma removal_key_less:
  assumes "rkey_ok r c" "rkey_ok r' c'" "r < r' \<or> r = r' \<and> c < c'"
  shows "fold_codes (removal_key r c) < fold_codes (removal_key r' c')"
proof -
  have k: "16 ^ 7 \<le> r" "r < 16 ^ 8" "0 < c" "c < 1000" "16 ^ 7 \<le> r'" "r' < 16 ^ 8" "0 < c'" "c' < 1000"
    using assms(1,2) by (simp_all add: rkey_ok_def INT_MAX_def)
  have n: "nat r < 16 ^ Suc 7" "nat r' < 16 ^ Suc 7" "nat c < 10 ^ Suc 2" "nat c' < 10 ^ Suc 2"
    using k by (simp_all add: nat_less_iff)
  have e: "Suc 7 = 8" "Suc 2 = 3" by simp_all
  have l: "length (codes (padded 16 8 (nat r))) = length (codes (padded 16 8 (nat r')))"
    using length_padded [OF _ n(1)] length_padded [OF _ n(2)] by (simp add: codes_def e)
  have c1: "codes (padded 16 8 (nat r)) < codes (padded 16 8 (nat r')) \<longleftrightarrow> r < r'"
    using padded_compare [OF _ _ n(1,2)] k by (simp add: e)
  have c2: "codes (padded 10 3 (nat c)) < codes (padded 10 3 (nat c')) \<longleftrightarrow> c < c'"
    using padded_compare [OF _ _ n(3,4)] k by (simp add: e)
  have split: "fold_codes (''0x'' @ padded 16 8 a @ ''.'' @ padded 10 3 b) =
      fold_codes ''0x'' @ codes (padded 16 8 a) @ fold_codes ''.'' @ codes (padded 10 3 b)" for a b
    by (simp only: fold_codes_append fold_codes_padded)
  show ?thesis
    unfolding removal_key_text [OF k(1-4)] removal_key_text [OF k(5-8)] split
    using assms(3) c1 c2 by (auto simp only: less_append_same [OF refl] less_append_same [OF l])
qed

lemma key_ok_removal_key:
  assumes "rkey_ok r c"
  shows "key_ok (removal_key r c)"
proof -
  have k: "16 ^ 7 \<le> r" "r < 16 ^ 8" "0 < c" "c < 1000" using assms by (simp_all add: rkey_ok_def INT_MAX_def)
  have "set (padded b w n) \<inter> set Option_value_sep = {}" if "2 \<le> b" "b \<le> 16" for b w n
    using padded_char [OF that] digit_char_no_sep that by (fastforce dest: less_le_trans)
  then show ?thesis
    unfolding removal_key_text [OF k]
    by (auto simp: key_ok_def cstr_ok_padded NUL_def Option_value_sep_def)
qed

text \<open>A key larger than all others of the list goes to its end.\<close>

lemma Set_str_value_last:
  assumes "kv_inv l" "key_ok k" "cstr_ok w" "w \<noteq> []"
    and "\<forall>s\<in>set l. fold_codes (key_of (Some Hash_value_sep) s) < fold_codes k"
  shows "Set_str_value l k (Some w) = l @ [k @ CHR ''='' # w] \<and> kv_inv (l @ [k @ CHR ''='' # w])"
proof -
  have u: "ll_uniq fold_codes (Some Hash_value_sep) (l @ [k @ CHR ''='' # w])"
    using assms by (auto simp: kv_inv_def ll_uniq_def ll_sorted_def ll_ok_def lkeys_def sorted_append
        key_of_line(1) [OF assms(2)] key_ok_cstr_ok NUL_def less_imp_le)
  have v: "val_ok (Some w)" using assms(3) by simp
  have e: "Set_str_value l k (Some w) = l @ [k @ CHR ''='' # w]"
    using ll_uniq_snoc [OF u] assms(4) by (simp add: Set_str_value_def safestrdup3_def opt_str_def)
  with kv.put_inv [OF assms(1,2) v] show ?thesis by simp
qed

subsection \<open>The oldest jobs are removed\<close>

definition ticket_info :: "cstr option \<Rightarrow> line_list" where
  "ticket_info content = info (Get_job_ticket_file content Init_job)"

definition remove_time :: "cstr \<times> cstr option \<Rightarrow> int" where
  "remove_time e = Find_flag_value (ticket_info (snd e)) REMOVE_TIME"

definition stale :: "job_env \<Rightarrow> line_list \<Rightarrow> bool" where
  "stale jenv i \<longleftrightarrow> Find_flag_value i INCOMING_TIME \<noteq> 0 \<and> Find_flag_value i INCOMING_PID \<noteq> 0
     \<and> \<not> pid_alive jenv (Find_flag_value i INCOMING_PID)"

definition unfinished :: "job_env \<Rightarrow> cstr \<times> cstr option \<Rightarrow> bool" where
  "unfinished jenv e \<longleftrightarrow> (let i = ticket_info (snd e) in
     i = [] \<or> \<not> stale jenv i \<and> Find_flag_value i REMOVE_TIME = 0 \<and> Find_flag_value i ERROR_TIME = 0)"

definition finished :: "sv_env \<Rightarrow> job_env \<Rightarrow> cstr \<times> cstr option \<Rightarrow> bool" where
  "finished env jenv e \<longleftrightarrow> (let i = ticket_info (snd e) in
     i \<noteq> [] \<and> \<not> stale jenv i \<and> Find_flag_value i REMOVE_TIME \<noteq> 0
     \<and> \<not> alive jenv (Find_flag_value i SERVER) \<and> \<not> expired env i)"

lemma done_step_unfinished:
  "unfinished jenv e \<Longrightarrow> done_step env jenv st e = st"
  by (cases e) (auto simp: unfinished_def done_step_def stale_def ticket_info_def Let_def)

lemma done_step_finished:
  assumes "finished env jenv e" "0 < Done_jobs env"
    and "cnt = (if last_remove st \<noteq> remove_time e then 0 else remove_count st) + 1"
  shows "done_step env jenv st e = st\<lparr>last_remove := remove_time e, remove_count := cnt,
     candidates := Set_str_value (candidates st) (removal_key (remove_time e) cnt) (Some (fst e))\<rparr>"
  using assms(1,2) unfolding assms(3)
  by (cases e) (auto simp: finished_def remove_time_def done_step_def stale_def ticket_info_def Let_def)

definition done_inv :: "done_state \<Rightarrow> (cstr \<times> cstr option) list \<Rightarrow> bool" where
  "done_inv st fs \<longleftrightarrow> kv_inv (candidates st) \<and> map entry_of (candidates st) = map (Some \<circ> fst) fs \<and> rd_removed st = []
     \<and> 0 \<le> remove_count st \<and> remove_count st \<le> int (length fs)
     \<and> last_remove st = (if fs = [] then 0 else remove_time (last fs))
     \<and> (\<forall>s\<in>set (candidates st). \<exists>r c. rkey_ok r c \<and> key_of (Some Hash_value_sep) s = removal_key r c
          \<and> (r < last_remove st \<or> r = last_remove st \<and> c \<le> remove_count st))"

lemma entry_of_line:
  assumes "key_ok k"
  shows "entry_of (k @ CHR ''='' # w) = Some w"
proof -
  have "CHR ''='' \<notin> set k" using assms by (auto simp: key_ok_def Option_value_sep_def)
  then have "dropWhile (\<lambda>x. x \<noteq> CHR ''='') (k @ CHR ''='' # w) = CHR ''='' # w"
    by (induction k) auto
  then show ?thesis using strchr_dropWhile [of "CHR ''=''" "k @ CHR ''='' # w"] by (simp add: entry_of_def)
qed

lemma done_inv_step:
  assumes inv: "done_inv st fs" and fin: "finished env jenv e" and pos: "0 < Done_jobs env"
    and e: "cstr_ok (fst e)" "fst e \<noteq> []"
    and r: "16 ^ 7 \<le> remove_time e" "remove_time e \<le> INT_MAX" "length fs < 999"
    and le: "fs \<noteq> [] \<Longrightarrow> remove_time (last fs) \<le> remove_time e"
  shows "done_inv (done_step env jenv st e) (fs @ [e])"
proof -
  define cnt where "cnt = (if last_remove st \<noteq> remove_time e then 0 else remove_count st) + 1"
  let ?k = "removal_key (remove_time e) cnt"
  note i = inv [unfolded done_inv_def]
  have c: "0 < cnt" "cnt \<le> int (length fs) + 1" using i by (auto simp: cnt_def)
  have ok: "rkey_ok (remove_time e) cnt" using c r by (auto simp: rkey_ok_def)
  have k: "key_ok ?k" by (rule key_ok_removal_key [OF ok])
  have last: "last_remove st \<le> remove_time e"
    using i le r(1) by (cases "fs = []") auto
  have less: "\<exists>r c. rkey_ok r c \<and> key_of (Some Hash_value_sep) s = removal_key r c
      \<and> (r < remove_time e \<or> r = remove_time e \<and> c < cnt)" if "s \<in> set (candidates st)" for s
    using i that last unfolding cnt_def by fastforce
  have lk: "\<forall>s\<in>set (candidates st). fold_codes (key_of (Some Hash_value_sep) s) < fold_codes ?k"
    using less removal_key_less [OF _ ok] by metis
  have put: "Set_str_value (candidates st) ?k (Some (fst e)) = candidates st @ [?k @ CHR ''='' # fst e]"
    "kv_inv (candidates st @ [?k @ CHR ''='' # fst e])"
    using Set_str_value_last [OF _ k e lk] i by blast+
  have old: "\<exists>r c. rkey_ok r c \<and> key_of (Some Hash_value_sep) s = removal_key r c
      \<and> (r < remove_time e \<or> r = remove_time e \<and> c \<le> cnt)" if "s \<in> set (candidates st)" for s
    using less [OF that] less_imp_le by blast
  show ?thesis
    unfolding done_step_finished [OF fin pos cnt_def] put(1) done_inv_def
    using i c put(2) ok old by (auto simp: entry_of_line [OF k] key_of_line(1) [OF k])
qed

lemma done_inv_fold:
  assumes "0 < Done_jobs env"
    and "\<forall>e\<in>set es. unfinished jenv e \<or> finished env jenv e \<and> cstr_ok (fst e) \<and> fst e \<noteq> []
      \<and> 16 ^ 7 \<le> remove_time e \<and> remove_time e \<le> INT_MAX"
    and "sorted (map remove_time (filter (finished env jenv) es))"
    and "length (filter (finished env jenv) es) < 1000"
  shows "done_inv (foldl (done_step env jenv) done_init es) (filter (finished env jenv) es)"
  using assms(2-4)
proof (induction es rule: rev_induct)
  case Nil
  show ?case by (simp add: done_inv_def done_init_def kv_inv_def ll_uniq_def ll_sorted_def ll_ok_def lkeys_def)
next
  case (snoc e es)
  let ?fs = "filter (finished env jenv) es"
  have IH: "done_inv (foldl (done_step env jenv) done_init es) ?fs"
    using snoc by (simp add: sorted_append split: if_splits)
  show ?case
  proof (cases "finished env jenv e")
    case False
    then show ?thesis using IH snoc.prems(1) by (simp add: done_step_unfinished)
  next
    case True
    have "\<not> unfinished jenv e" using True by (auto simp: finished_def unfinished_def Let_def)
    then have e: "cstr_ok (fst e)" "fst e \<noteq> []" "16 ^ 7 \<le> remove_time e" "remove_time e \<le> INT_MAX"
      using snoc.prems(1) by auto
    have le: "?fs \<noteq> [] \<Longrightarrow> remove_time (last ?fs) \<le> remove_time e"
      using snoc.prems(2) True last_in_set [of ?fs] by (cases "last ?fs") (simp add: sorted_append)
    show ?thesis using done_inv_step [OF IH True assms(1) e _ le] snoc.prems(3) True by simp
  qed
qed

lemma drop_candidates_entries:
  "map entry_of l = map (Some \<circ> f) xs \<Longrightarrow> drop_candidates (take n l) = Some (map f (take n xs))"
proof (induction l arbitrary: xs n)
  case (Cons s l)
  then obtain x xs' where "xs = x # xs'" by (cases xs) auto
  with Cons show ?case by (cases n) auto
qed simp

text \<open>
  C35: with \<open>done\_jobs = n\<close>, a pass over a queue whose finished jobs stand in the order of their removal
  times (none incoming, expired or with a live server) removes exactly the oldest ones: all but the last
  \<open>n\<close> finished jobs, and no other job of the queue. Up to 999 finished jobs are counted, since the
  sequence number of the sort key is printed with three digits.
\<close>

theorem oldest_done_jobs_removed:
  assumes "\<not> Save_when_done env" "\<not> Save_on_error env" "0 < Done_jobs env"
    and "\<forall>e\<in>set es. unfinished jenv e \<or> finished env jenv e \<and> cstr_ok (fst e) \<and> fst e \<noteq> []
      \<and> 16 ^ 7 \<le> remove_time e \<and> remove_time e \<le> INT_MAX"
    and "sorted (map remove_time (filter (finished env jenv) es))"
    and "length (filter (finished env jenv) es) < 1000"
  shows "Remove_done_jobs env jenv es =
    (let fs = filter (finished env jenv) es; k = length fs - nat (Done_jobs env)
     in Some (map fst (take k fs), 0 < k))"
proof -
  let ?fs = "filter (finished env jenv) es" and ?st = "foldl (done_step env jenv) done_init es"
  have inv: "done_inv ?st ?fs" by (rule done_inv_fold [OF assms(3-6)])
  then have m: "map entry_of (candidates ?st) = map (Some \<circ> fst) ?fs" and r: "rd_removed ?st = []"
    by (simp_all add: done_inv_def)
  have l: "length (candidates ?st) = length ?fs" using map_eq_imp_length_eq [OF m] .
  have k: "nat (int (length ?fs) - Done_jobs env) = length ?fs - nat (Done_jobs env)" using assms(3) by simp
  show ?thesis
    unfolding Remove_done_jobs_def Let_def l k using assms(1-3)
    by (simp add: r drop_candidates_entries [OF m])
qed

definition demo_done :: "(cstr \<times> cstr option) list" where
  "demo_done = [(''hfA001'', Some (''A=ann@host+1'' @ newline @ ''remove_time=0x5f000000'' @ newline)),
     (''hfA002'', Some (''A=bob@host+2'' @ newline)),
     (''hfA003'', Some (''A=ann@host+3'' @ newline @ ''remove_time=0x5f000000'' @ newline)),
     (''hfA004'', Some (''A=ann@host+4'' @ newline @ ''remove_time=0x5f000009'' @ newline))]"

lemma oldest_done_jobs_removed_witness:
  "Remove_done_jobs (demo_sv_env\<lparr>Done_jobs := 1\<rparr>) demo_job_env demo_done = Some ([''hfA001'', ''hfA003''], True)"
proof -
  let ?env = "demo_sv_env\<lparr>Done_jobs := 1\<rparr>"
  have f: "filter (finished ?env demo_job_env) demo_done = [demo_done ! 0, demo_done ! 2, demo_done ! 3]"
    "\<forall>e\<in>set demo_done. unfinished demo_job_env e \<or> finished ?env demo_job_env e \<and> cstr_ok (fst e) \<and> fst e \<noteq> []
      \<and> 16 ^ 7 \<le> remove_time e \<and> remove_time e \<le> INT_MAX"
    "sorted (map remove_time [demo_done ! 0, demo_done ! 2, demo_done ! 3])" by code_simp+
  have e: "\<not> Save_when_done ?env" "\<not> Save_on_error ?env" "0 < Done_jobs ?env" by (simp_all add: demo_sv_env_def)
  have t: "map fst (take (3 - nat (Done_jobs ?env)) [demo_done ! 0, demo_done ! 2, demo_done ! 3]) = [''hfA001'', ''hfA003'']"
    by (simp add: demo_sv_env_def demo_done_def numeral_2_eq_2)
  show ?thesis using oldest_done_jobs_removed [OF e f(2), unfolded f(1), OF f(3)] t
    by (simp add: demo_sv_env_def)
qed

end
