(* ===== verification/UserIds.thy ===== *)
theory UserIds
  imports CString "HOL-Library.Word"
begin

section \<open>User identities (utilities.c)\<close>

text \<open>
  The programs are installed set-user-ID root. \<open>utilities.c\<close> keeps the real user ID at root and moves
  the effective user ID between root, the user and the daemon, until \<open>Full\_user\_perms\<close> and its
  relatives give the privileges up for good. This theory models the identities of the process, the
  system calls of Linux on them (with \<open>seteuid\<close>, \<open>setreuid\<close>, \<open>initgroups\<close> and \<open>setgroups\<close>, and
  without \<open>setruid\<close>), and every function of the file that uses them. The functions are the steps of a
  state machine; the properties are about its reachable states: the program can change its identity
  as long as it has not given up its privileges, and never after it has. The password and group
  databases are parameters.
\<close>

type_synonym uid = "32 word"

definition ROOTUID :: uid where "ROOTUID = 0"

record creds =
  ruid :: uid
  euid :: uid
  suid :: uid
  rgid :: uid
  egid :: uid
  sgid :: uid
  groups :: "uid list"

subsection \<open>The system calls\<close>

text \<open>
  \<open>None\<close> is the result -1, which leaves the identities alone. The identity -1 is no identity: it is
  refused, and \<open>setreuid\<close> leaves the component alone.
\<close>

definition setuid :: "uid \<Rightarrow> creds \<Rightarrow> creds option" where
  "setuid u c =
     (if u = -1 then None
      else if euid c = 0 then Some (c\<lparr>ruid := u, euid := u, suid := u\<rparr>)
      else if u = ruid c \<or> u = suid c then Some (c\<lparr>euid := u\<rparr>)
      else None)"

definition seteuid :: "uid \<Rightarrow> creds \<Rightarrow> creds option" where
  "seteuid u c =
     (if u = -1 then None
      else if euid c = 0 \<or> u = ruid c \<or> u = euid c \<or> u = suid c then Some (c\<lparr>euid := u\<rparr>)
      else None)"

definition setreuid :: "uid \<Rightarrow> uid \<Rightarrow> creds \<Rightarrow> creds option" where
  "setreuid r e c =
     (let r' = (if r = -1 then ruid c else r); e' = (if e = -1 then euid c else e) in
      if euid c = 0 \<or> (r = -1 \<or> r = ruid c \<or> r = euid c) \<and> (e = -1 \<or> e = ruid c \<or> e = euid c \<or> e = suid c)
      then Some (c\<lparr>ruid := r', euid := e', suid := (if r \<noteq> -1 \<or> e \<noteq> -1 \<and> e \<noteq> ruid c then e' else suid c)\<rparr>)
      else None)"

definition setgid :: "uid \<Rightarrow> creds \<Rightarrow> creds option" where
  "setgid g c =
     (if g = -1 then None
      else if euid c = 0 then Some (c\<lparr>rgid := g, egid := g, sgid := g\<rparr>)
      else if g = rgid c \<or> g = sgid c then Some (c\<lparr>egid := g\<rparr>)
      else None)"

definition setgroups :: "uid list \<Rightarrow> creds \<Rightarrow> creds option" where
  "setgroups gs c = (if euid c = 0 then Some (c\<lparr>groups := gs\<rparr>) else None)"

subsection \<open>The state of the functions\<close>

record uid_env =
  pw_uid_entry :: "uid \<Rightarrow> (cstr \<times> uid) option"
  pw_name_uid :: "cstr \<Rightarrow> uid option"
  gr_name_gid :: "cstr \<Rightarrow> uid option"
  member_of :: "cstr \<Rightarrow> uid list"
  Daemon_user :: "cstr option"
  Daemon_group :: "cstr option"

record uid_state =
  cr :: creds
  UID_root :: bool
  SetRootUID :: bool
  To_daemon_called :: bool
  OriginalEUID :: uid
  OriginalRUID :: uid
  OriginalEGID :: uid
  OriginalRGID :: uid
  DaemonUID :: uid
  DaemonGID :: uid

text \<open>The process dies in \<open>fatal\<close> or \<open>logerr\_die\<close>, or in \<open>abort\<close>; else the flag is a failure.\<close>

datatype uid_fault = Died | Aborted

type_synonym outcome = "uid_fault + uid_state \<times> bool"

definition sys :: "(creds \<Rightarrow> creds option) \<Rightarrow> uid_state \<Rightarrow> (uid_state \<Rightarrow> outcome) \<Rightarrow> outcome" where
  "sys call s k = (case call (cr s) of None \<Rightarrow> Inl Died | Some c \<Rightarrow> k (s\<lparr>cr := c\<rparr>))"

definition andthen :: "outcome \<Rightarrow> (uid_state \<Rightarrow> outcome) \<Rightarrow> outcome" where
  "andthen r k = (case r of Inl f \<Rightarrow> Inl f | Inr (s, _) \<Rightarrow> k s)"

subsection \<open>Setting up and switching\<close>

definition Setup_uid :: "uid_state \<Rightarrow> outcome" where
  "Setup_uid s =
     (if SetRootUID s then Inr (s, False)
      else
        (let s1 = s\<lparr>OriginalEUID := euid (cr s), OriginalRUID := ruid (cr s),
                    OriginalEGID := egid (cr s), OriginalRGID := rgid (cr s)\<rparr>
         in if OriginalEUID s1 = ROOTUID \<or> OriginalRUID s1 = ROOTUID then
              sys (setuid ROOTUID) s1 (\<lambda>s2. sys (seteuid (OriginalRUID s2)) s2
                (\<lambda>s3. if ruid (cr s3) \<noteq> ROOTUID then Inl Died
                      else Inr (s3\<lparr>UID_root := True, SetRootUID := True\<rparr>, False)))
            else Inr (s1\<lparr>SetRootUID := True\<rparr>, False)))"

definition seteuid_wrapper :: "uid \<Rightarrow> uid_state \<Rightarrow> outcome" where
  "seteuid_wrapper to s =
     (let fin = (\<lambda>s. Inr (s, to \<noteq> euid (cr s))) in
      if UID_root s then sys (setuid ROOTUID) s (\<lambda>s1. sys (seteuid to) s1 fin) else fin s)"

definition setruid_wrapper :: "uid \<Rightarrow> uid_state \<Rightarrow> outcome" where
  "setruid_wrapper to s =
     (let fin = (\<lambda>s. Inr (s, to \<noteq> ruid (cr s))) in
      if UID_root s then sys (setuid ROOTUID) s (\<lambda>s1. sys (setreuid to ROOTUID) s1 fin) else fin s)"

definition setuid_wrapper :: "uid \<Rightarrow> uid_state \<Rightarrow> outcome" where
  "setuid_wrapper to s =
     (let fin = (\<lambda>s. Inr (s, to \<noteq> ruid (cr s) \<or> to \<noteq> euid (cr s))) in
      if UID_root s then
        sys (setuid ROOTUID) s (\<lambda>s1. sys (setuid to) s1
          (\<lambda>s2. fin (if to \<noteq> 0 then s2\<lparr>UID_root := False\<rparr> else s2)))
      else fin s)"

text \<open>
  The result of the first \<open>setuid\<close> is not looked at. The groups are those of the user of the password
  entry, if there is one, and a user name of 256 characters and more is fatal.
\<close>

definition Set_full_group :: "uid_env \<Rightarrow> uid \<Rightarrow> uid \<Rightarrow> uid_state \<Rightarrow> outcome" where
  "Set_full_group env user gid s =
     (if UID_root s then
        (let s1 = (case setuid ROOTUID (cr s) of None \<Rightarrow> s | Some c \<Rightarrow> s\<lparr>cr := c\<rparr>);
             gs = (\<lambda>k. case pw_uid_entry env user of
                     None \<Rightarrow> sys (setgroups []) s1 k
                   | Some (name, pg) \<Rightarrow>
                       if 256 \<le> length name then Inl Died else sys (setgroups (pg # member_of env name)) s1 k)
         in gs (\<lambda>s2. sys (setgid gid) s2 (\<lambda>s3. Inr (s3, False))))
      else Inr (s, False))"

definition Setdaemon_group :: "uid_env \<Rightarrow> uid_state \<Rightarrow> outcome" where
  "Setdaemon_group env s = Set_full_group env (DaemonUID s) (DaemonGID s) s"

definition To_euid_root :: "uid_state \<Rightarrow> outcome" where
  "To_euid_root s = seteuid_wrapper ROOTUID s"

definition To_daemon :: "uid_env \<Rightarrow> uid_state \<Rightarrow> outcome" where
  "To_daemon env s =
     andthen (Set_full_group env (DaemonUID s) (DaemonGID s) s)
       (\<lambda>s1. seteuid_wrapper (DaemonUID s1) (s1\<lparr>To_daemon_called := True\<rparr>))"

definition To_user :: "uid_state \<Rightarrow> outcome" where
  "To_user s = (if To_daemon_called s then Inl Aborted else seteuid_wrapper (OriginalRUID s) s)"

definition To_ruid :: "uid \<Rightarrow> uid_state \<Rightarrow> outcome" where
  "To_ruid u s = setruid_wrapper u s"

definition To_euid :: "uid \<Rightarrow> uid_state \<Rightarrow> outcome" where
  "To_euid u s = seteuid_wrapper u s"

definition full_perms :: "uid_env \<Rightarrow> (uid_state \<Rightarrow> uid) \<Rightarrow> (uid_state \<Rightarrow> uid) \<Rightarrow> uid_state \<Rightarrow> outcome" where
  "full_perms env u g s =
     andthen (Setup_uid s) (\<lambda>s1. andthen (Set_full_group env (u s1) (g s1) s1) (\<lambda>s2. setuid_wrapper (u s2) s2))"

definition Full_daemon_perms :: "uid_env \<Rightarrow> uid_state \<Rightarrow> outcome" where
  "Full_daemon_perms env = full_perms env DaemonUID DaemonGID"

definition Full_root_perms :: "uid_env \<Rightarrow> uid_state \<Rightarrow> outcome" where
  "Full_root_perms env = full_perms env (\<lambda>_. ROOTUID) (\<lambda>_. ROOTUID)"

definition Full_user_perms :: "uid_env \<Rightarrow> uid_state \<Rightarrow> outcome" where
  "Full_user_perms env = full_perms env OriginalRUID OriginalRGID"

subsection \<open>The identity of the daemon\<close>

definition Getdaemon :: "uid_env \<Rightarrow> creds \<Rightarrow> uid" where
  "Getdaemon env c =
     (let str = (case Daemon_user env of None \<Rightarrow> ''daemon'' | Some s \<Rightarrow> s);
          (n, t) = strtol str 10;
          uid = (if t = str \<or> t \<noteq> [] then (case pw_name_uid env str of Some u \<Rightarrow> u | None \<Rightarrow> word_of_int n)
                 else word_of_int n)
      in if uid = ROOTUID then ruid c else uid)"

definition Getdaemon_group :: "uid_env \<Rightarrow> creds \<Rightarrow> uid" where
  "Getdaemon_group env c =
     (let str = (case Daemon_group env of None \<Rightarrow> ''daemon'' | Some s \<Rightarrow> s);
          (n, t) = strtol str 10;
          gid = (if t = str then (case gr_name_gid env str of Some g \<Rightarrow> g | None \<Rightarrow> word_of_int n)
                 else word_of_int n)
      in if gid = 0 then rgid c else gid)"

definition Reset_daemonuid :: "uid_env \<Rightarrow> uid_state \<Rightarrow> uid_state" where
  "Reset_daemonuid env s =
     (let uid = Getdaemon env (cr s); s1 = s\<lparr>DaemonGID := Getdaemon_group env (cr s)\<rparr> in
      if uid \<noteq> DaemonUID s1 then s1\<lparr>DaemonUID := (if uid = ROOTUID then OriginalRUID s1 else uid)\<rparr> else s1)"

subsection \<open>The functions as a state machine\<close>

datatype uid_op =
    Op_setup | Op_root | Op_daemon | Op_user | Op_ruid uid | Op_euid uid | Op_setuid uid
  | Op_full_daemon | Op_full_root | Op_full_user | Op_group uid uid | Op_daemon_group | Op_reset

fun perform :: "uid_env \<Rightarrow> uid_op \<Rightarrow> uid_state \<Rightarrow> outcome" where
  "perform env Op_setup s = Setup_uid s"
| "perform env Op_root s = To_euid_root s"
| "perform env Op_daemon s = To_daemon env s"
| "perform env Op_user s = To_user s"
| "perform env (Op_ruid u) s = To_ruid u s"
| "perform env (Op_euid u) s = To_euid u s"
| "perform env (Op_setuid u) s = setuid_wrapper u s"
| "perform env Op_full_daemon s = Full_daemon_perms env s"
| "perform env Op_full_root s = Full_root_perms env s"
| "perform env Op_full_user s = Full_user_perms env s"
| "perform env (Op_group u g) s = Set_full_group env u g s"
| "perform env Op_daemon_group s = Setdaemon_group env s"
| "perform env Op_reset s = Inr (Reset_daemonuid env s, False)"

inductive uid_step :: "uid_env \<Rightarrow> uid_state \<Rightarrow> uid_state \<Rightarrow> bool" for env where
  step: "perform env op s = Inr (s', f) \<Longrightarrow> uid_step env s s'"

inductive_cases uid_stepE: "uid_step env s s'"

inductive uid_reach :: "uid_env \<Rightarrow> uid_state \<Rightarrow> bool" for env where
  start: "\<not> UID_root s \<Longrightarrow> \<not> SetRootUID s \<Longrightarrow> uid_reach env s"
| more: "uid_reach env s \<Longrightarrow> uid_step env s s' \<Longrightarrow> uid_reach env s'"

text \<open>As long as \<open>UID\_root\<close> is set, one of the three user IDs is root, so that \<open>setuid(0)\<close> succeeds.\<close>

definition can_switch :: "creds \<Rightarrow> bool" where
  "can_switch c \<longleftrightarrow> ruid c = 0 \<or> euid c = 0 \<or> suid c = 0"

definition uid_inv :: "uid_state \<Rightarrow> bool" where
  "uid_inv s \<longleftrightarrow> (UID_root s \<longrightarrow> SetRootUID s \<and> can_switch (cr s))"

definition locked :: "uid_state \<Rightarrow> bool" where
  "locked s \<longleftrightarrow> SetRootUID s \<and> \<not> UID_root s"

named_theorems uid_simps "the definitions of the wrappers"

declare sys_def [uid_simps] andthen_def [uid_simps] ROOTUID_def [uid_simps] can_switch_def [uid_simps]
  uid_inv_def [uid_simps] locked_def [uid_simps] Let_def [uid_simps]

lemma setuid_root:
  "can_switch c \<Longrightarrow> \<exists>c'. setuid 0 c = Some c' \<and> euid c' = 0 \<and> can_switch c'
     \<and> rgid c' = rgid c \<and> egid c' = egid c \<and> sgid c' = sgid c \<and> groups c' = groups c"
  by (auto simp: setuid_def can_switch_def)

lemma seteuid_wrapper_ok:
  assumes "uid_inv s" "UID_root s" "u \<noteq> -1"
  shows "\<exists>c. seteuid_wrapper u s = Inr (s\<lparr>cr := c\<rparr>, False) \<and> euid c = u \<and> can_switch c
    \<and> rgid c = rgid (cr s) \<and> egid c = egid (cr s) \<and> sgid c = sgid (cr s) \<and> groups c = groups (cr s)"
proof -
  have c: "can_switch (cr s)" using assms by (simp add: uid_inv_def)
  show ?thesis using assms c
    by (cases "euid (cr s) = 0") (auto simp: seteuid_wrapper_def uid_simps setuid_def seteuid_def)
qed

lemma setruid_wrapper_ok:
  assumes "uid_inv s" "UID_root s" "u \<noteq> -1"
  shows "\<exists>c. setruid_wrapper u s = Inr (s\<lparr>cr := c\<rparr>, False) \<and> ruid c = u \<and> euid c = 0 \<and> can_switch c"
proof -
  have c: "can_switch (cr s)" using assms by (simp add: uid_inv_def)
  show ?thesis using assms c
    by (cases "euid (cr s) = 0") (auto simp: setruid_wrapper_def uid_simps setuid_def setreuid_def)
qed

lemma setuid_wrapper_ok:
  assumes "uid_inv s" "UID_root s" "u \<noteq> -1"
  shows "\<exists>s'. setuid_wrapper u s = Inr (s', False) \<and> UID_root s' = (u = 0) \<and> SetRootUID s'
    \<and> ruid (cr s') = u \<and> euid (cr s') = u \<and> suid (cr s') = u \<and> groups (cr s') = groups (cr s)
    \<and> rgid (cr s') = rgid (cr s) \<and> egid (cr s') = egid (cr s) \<and> sgid (cr s') = sgid (cr s)
    \<and> OriginalRUID s' = OriginalRUID s \<and> OriginalRGID s' = OriginalRGID s"
proof -
  have c: "can_switch (cr s)" using assms by (simp add: uid_inv_def)
  show ?thesis using assms c
    by (cases "euid (cr s) = 0") (auto simp: setuid_wrapper_def uid_simps setuid_def)
qed

lemma wrapper_inv:
  assumes "uid_inv s"
  shows "seteuid_wrapper u s = Inr (s', f) \<Longrightarrow> uid_inv s'"
    and "setruid_wrapper u s = Inr (s', f) \<Longrightarrow> uid_inv s'"
    and "setuid_wrapper u s = Inr (s', f) \<Longrightarrow> uid_inv s'"
    and "Set_full_group env u g s = Inr (s', f) \<Longrightarrow> uid_inv s'"
    and "Setup_uid s = Inr (s', f) \<Longrightarrow> uid_inv s'"
  using assms
  by (auto simp: seteuid_wrapper_def setruid_wrapper_def setuid_wrapper_def Set_full_group_def Setup_uid_def uid_simps
      setuid_def seteuid_def setreuid_def setgid_def setgroups_def split: if_splits option.splits prod.splits)

lemma uid_inv_fields:
  "uid_inv (s\<lparr>To_daemon_called := b\<rparr>) = uid_inv s" "uid_inv (Reset_daemonuid env s) = uid_inv s"
  by (auto simp: uid_inv_def Reset_daemonuid_def Let_def)

lemma andthen_Inr: "andthen r k = Inr x \<Longrightarrow> \<exists>s f. r = Inr (s, f) \<and> k s = Inr x"
  by (auto simp: andthen_def split: sum.splits prod.splits)

lemma full_perms_inv: "uid_inv s \<Longrightarrow> full_perms env u g s = Inr (s', f) \<Longrightarrow> uid_inv s'"
  unfolding full_perms_def by (auto dest!: andthen_Inr dest: wrapper_inv [rotated])

lemma To_daemon_inv: "uid_inv s \<Longrightarrow> To_daemon env s = Inr (s', f) \<Longrightarrow> uid_inv s'"
  unfolding To_daemon_def by (auto simp: uid_inv_fields dest!: andthen_Inr dest!: wrapper_inv [rotated])

lemma perform_inv: "uid_inv s \<Longrightarrow> perform env op s = Inr (s', f) \<Longrightarrow> uid_inv s'"
  by (cases op)
    (auto simp: To_euid_root_def To_user_def To_ruid_def To_euid_def Setdaemon_group_def uid_inv_fields
      Full_daemon_perms_def Full_root_perms_def Full_user_perms_def
      dest: wrapper_inv [rotated] full_perms_inv [rotated] To_daemon_inv [rotated] split: if_splits)

lemma uid_step_inv: "uid_step env s s' \<Longrightarrow> uid_inv s \<Longrightarrow> uid_inv s'"
  by (elim uid_stepE) (rule perform_inv)

lemma uid_reach_inv: "uid_reach env s \<Longrightarrow> uid_inv s"
proof (induction rule: uid_reach.induct)
  case (start s)
  then show ?case by (simp add: uid_inv_def)
next
  case (more s s')
  then show ?case by (blast intro: uid_step_inv)
qed

text \<open>Without privileges nothing changes any more.\<close>

lemma locked_wrappers:
  assumes "locked s"
  shows "seteuid_wrapper u s = Inr (s, u \<noteq> euid (cr s))" "setruid_wrapper u s = Inr (s, u \<noteq> ruid (cr s))"
    "setuid_wrapper u s = Inr (s, u \<noteq> ruid (cr s) \<or> u \<noteq> euid (cr s))"
    "Set_full_group env u g s = Inr (s, False)" "Setup_uid s = Inr (s, False)"
  using assms
  by (simp_all add: seteuid_wrapper_def setruid_wrapper_def setuid_wrapper_def Set_full_group_def Setup_uid_def uid_simps)

lemma locked_fields:
  "locked (s\<lparr>To_daemon_called := b\<rparr>) = locked s" "locked (Reset_daemonuid env s) = locked s"
  "cr (Reset_daemonuid env s) = cr s"
  by (auto simp: locked_def Reset_daemonuid_def Let_def)

lemma locked_perform:
  assumes "locked s" "perform env op s = Inr (s', f)"
  shows "locked s' \<and> cr s' = cr s"
  using assms
  by (cases op)
    (auto simp: To_euid_root_def To_daemon_def To_user_def To_ruid_def To_euid_def Setdaemon_group_def locked_wrappers
      locked_fields Full_daemon_perms_def Full_root_perms_def Full_user_perms_def full_perms_def andthen_def split: if_splits)

lemma locked_steps: "(uid_step env)\<^sup>*\<^sup>* s s' \<Longrightarrow> locked s \<Longrightarrow> locked s' \<and> cr s' = cr s"
proof (induction rule: rtranclp_induct)
  case (step t u)
  then show ?case by (metis uid_stepE locked_perform)
qed simp

subsection \<open>Giving the privileges up\<close>

definition user_groups :: "uid_env \<Rightarrow> uid \<Rightarrow> uid list" where
  "user_groups env u = (case pw_uid_entry env u of None \<Rightarrow> [] | Some (name, pg) \<Rightarrow> pg # member_of env name)"

lemma Set_full_group_result:
  assumes "uid_inv s" "UID_root s" "Set_full_group env u g s = Inr (s', f)"
  shows "uid_inv s' \<and> UID_root s' \<and> euid (cr s') = 0 \<and> rgid (cr s') = g \<and> egid (cr s') = g \<and> sgid (cr s') = g
    \<and> groups (cr s') = user_groups env u \<and> g \<noteq> -1 \<and> OriginalRUID s' = OriginalRUID s
    \<and> OriginalRGID s' = OriginalRGID s \<and> DaemonUID s' = DaemonUID s \<and> DaemonGID s' = DaemonGID s"
proof -
  have "can_switch (cr s)" "SetRootUID s" using assms by (simp_all add: uid_inv_def)
  then obtain c where c: "setuid 0 (cr s) = Some c" "euid c = 0" "can_switch c" using setuid_root by blast
  with assms(2,3) \<open>SetRootUID s\<close> show ?thesis
    by (auto simp: Set_full_group_def uid_simps user_groups_def setgid_def setgroups_def
        split: option.splits prod.splits if_splits)
qed

lemma full_perms_result:
  assumes inv: "uid_inv s" and root: "UID_root s" and r: "full_perms env u g s = Inr (s', f)"
    and stable: "\<And>a b h. Set_full_group env (u a) (g a) a = Inr (b, h) \<Longrightarrow> UID_root a \<Longrightarrow> uid_inv a \<Longrightarrow> u b = u a"
    and ids: "u s \<noteq> 0" "u s \<noteq> -1"
  shows "\<not> f \<and> locked s' \<and> ruid (cr s') = u s \<and> euid (cr s') = u s \<and> suid (cr s') = u s
    \<and> rgid (cr s') = g s \<and> egid (cr s') = g s \<and> sgid (cr s') = g s \<and> groups (cr s') = user_groups env (u s)"
proof -
  have set: "SetRootUID s" using inv root by (simp add: uid_inv_def)
  then have "Setup_uid s = Inr (s, False)" by (simp add: Setup_uid_def)
  with r obtain t h where t: "Set_full_group env (u s) (g s) s = Inr (t, h)" "setuid_wrapper (u t) t = Inr (s', f)"
    by (auto simp: full_perms_def andthen_def split: sum.splits)
  note g = Set_full_group_result [OF inv root t(1)]
  have u: "u t = u s" by (rule stable [OF t(1) root inv])
  obtain t' where "setuid_wrapper (u s) t = Inr (t', False)" "UID_root t' = (u s = 0)" "SetRootUID t'"
    "ruid (cr t') = u s" "euid (cr t') = u s" "suid (cr t') = u s" "groups (cr t') = groups (cr t)"
    "rgid (cr t') = rgid (cr t)" "egid (cr t') = egid (cr t)" "sgid (cr t') = sgid (cr t)"
    using setuid_wrapper_ok [of t "u s"] g ids(2) by blast
  with g t(2) u ids(1) show ?thesis by (simp add: locked_def)
qed

text \<open>
  C10: privileges are given up for good. When \<open>Full\_user\_perms\<close> or \<open>Full\_daemon\_perms\<close> returns in a
  process that could switch its identity, and the user is not root, then all three user IDs and all
  three group IDs are those of the user, the supplementary groups are the user's own, and no sequence
  of calls of the functions changes any of them afterwards.
\<close>

theorem privileges_given_up:
  assumes "uid_reach env s" "UID_root s"
    and "op = Op_full_user \<and> u = OriginalRUID s \<and> g = OriginalRGID s
       \<or> op = Op_full_daemon \<and> u = DaemonUID s \<and> g = DaemonGID s"
    and "perform env op s = Inr (s1, f)" "u \<noteq> 0" "u \<noteq> -1" "(uid_step env)\<^sup>*\<^sup>* s1 s2"
  shows "\<not> f \<and> cr s2 = \<lparr>ruid = u, euid = u, suid = u, rgid = g, egid = g, sgid = g, groups = user_groups env u\<rparr>"
proof -
  have inv: "uid_inv s" by (rule uid_reach_inv [OF assms(1)])
  have "\<not> f \<and> locked s1 \<and> cr s1 =
      \<lparr>ruid = u, euid = u, suid = u, rgid = g, egid = g, sgid = g, groups = user_groups env u\<rparr>"
    using assms(3)
  proof
    assume a: "op = Op_full_user \<and> u = OriginalRUID s \<and> g = OriginalRGID s"
    have r: "full_perms env OriginalRUID OriginalRGID s = Inr (s1, f)" using a assms(4) by (simp add: Full_user_perms_def)
    have st: "\<And>a b h. Set_full_group env (OriginalRUID a) (OriginalRGID a) a = Inr (b, h) \<Longrightarrow> UID_root a \<Longrightarrow> uid_inv a
        \<Longrightarrow> OriginalRUID b = OriginalRUID a" using Set_full_group_result by blast
    from full_perms_result [where u = OriginalRUID and g = OriginalRGID, OF inv assms(2) r st] a assms(5,6)
    show ?thesis by (cases "cr s1") simp
  next
    assume a: "op = Op_full_daemon \<and> u = DaemonUID s \<and> g = DaemonGID s"
    have r: "full_perms env DaemonUID DaemonGID s = Inr (s1, f)" using a assms(4) by (simp add: Full_daemon_perms_def)
    have st: "\<And>a b h. Set_full_group env (DaemonUID a) (DaemonGID a) a = Inr (b, h) \<Longrightarrow> UID_root a \<Longrightarrow> uid_inv a
        \<Longrightarrow> DaemonUID b = DaemonUID a" using Set_full_group_result by blast
    from full_perms_result [where u = DaemonUID and g = DaemonGID, OF inv assms(2) r st] a assms(5,6)
    show ?thesis by (cases "cr s1") simp
  qed
  with locked_steps [OF assms(7)] show ?thesis by auto
qed

text \<open>The programs as they are installed: set-user-ID root, started by the user 1000.\<close>

definition demo_uid_env :: uid_env where
  "demo_uid_env = \<lparr>pw_uid_entry = (\<lambda>u. if u = 1000 then Some (''ann'', 100) else None),
     pw_name_uid = (\<lambda>n. if n = ''lp'' then Some 7 else None), gr_name_gid = (\<lambda>_. None),
     member_of = (\<lambda>n. if n = ''ann'' then [20] else []), Daemon_user = Some ''lp'', Daemon_group = Some ''7''\<rparr>"

definition demo_uids :: uid_state where
  "demo_uids = \<lparr>cr = \<lparr>ruid = 1000, euid = 0, suid = 0, rgid = 100, egid = 100, sgid = 100, groups = [0, 100]\<rparr>,
     UID_root = False, SetRootUID = False, To_daemon_called = False, OriginalEUID = 0, OriginalRUID = 0,
     OriginalEGID = 0, OriginalRGID = 0, DaemonUID = 0, DaemonGID = 0\<rparr>"

definition state_of :: "outcome \<Rightarrow> uid_state" where
  "state_of r = (case r of Inr (s, f) \<Rightarrow> s | Inl _ \<Rightarrow> demo_uids)"

lemma demo_reach:
  "uid_reach demo_uid_env (state_of (Setup_uid demo_uids))" "UID_root (state_of (Setup_uid demo_uids))"
proof -
  have "perform demo_uid_env Op_setup demo_uids = Inr (state_of (Setup_uid demo_uids), False)"
    "\<not> UID_root demo_uids" "\<not> SetRootUID demo_uids" by code_simp+
  then show "uid_reach demo_uid_env (state_of (Setup_uid demo_uids))" by (metis uid_reach.intros uid_step.step)
  show "UID_root (state_of (Setup_uid demo_uids))" by code_simp
qed

lemma privileges_given_up_witness:
  "cr (state_of (To_euid_root (state_of (Full_user_perms demo_uid_env (state_of (Setup_uid demo_uids))))))
   = \<lparr>ruid = 1000, euid = 1000, suid = 1000, rgid = 100, egid = 100, sgid = 100, groups = [100, 20]\<rparr>"
proof -
  let ?s = "state_of (Setup_uid demo_uids)"
  let ?s1 = "state_of (Full_user_perms demo_uid_env ?s)"
  let ?s2 = "state_of (To_euid_root ?s1)"
  have p: "perform demo_uid_env Op_full_user ?s = Inr (?s1, False)" "perform demo_uid_env Op_root ?s1 = Inr (?s2, True)"
    by code_simp+
  have i: "1000 = OriginalRUID ?s" "100 = OriginalRGID ?s" "user_groups demo_uid_env 1000 = [100, 20]"
    "(1000::uid) \<noteq> 0" "(1000::uid) \<noteq> -1" by code_simp+
  have "(uid_step demo_uid_env)\<^sup>*\<^sup>* ?s1 ?s2" using uid_step.step [OF p(2)] by blast
  from privileges_given_up [where op = Op_full_user and u = 1000 and g = 100, OF demo_reach _ p(1) i(4,5) this] i(1-3)
  show ?thesis by simp
qed

text \<open>
  As long as the privileges are kept the identity can be changed at will: from every reachable
  state with \<open>UID\_root\<close> set, \<open>To\_euid\<close> and \<open>To\_ruid\<close> succeed for every user, the ID they set is the one
  asked for, and root can be had back.
\<close>

theorem identity_switches:
  assumes "uid_reach env s" "UID_root s" "u \<noteq> -1"
  shows "(\<exists>s1 s2. To_euid u s = Inr (s1, False) \<and> euid (cr s1) = u \<and> To_euid_root s1 = Inr (s2, False) \<and> euid (cr s2) = 0)
    \<and> (\<exists>s1 s2. To_ruid u s = Inr (s1, False) \<and> ruid (cr s1) = u \<and> To_euid_root s1 = Inr (s2, False) \<and> euid (cr s2) = 0)"
proof -
  have inv: "uid_inv s" by (rule uid_reach_inv [OF assms(1)])
  have again: "\<exists>s2. To_euid_root (s\<lparr>cr := c\<rparr>) = Inr (s2, False) \<and> euid (cr s2) = 0" if "can_switch c" for c
  proof -
    have "uid_inv (s\<lparr>cr := c\<rparr>)" "UID_root (s\<lparr>cr := c\<rparr>)" using that inv assms(2) by (simp_all add: uid_inv_def)
    from seteuid_wrapper_ok [OF this, of 0] show ?thesis by (auto simp: To_euid_root_def ROOTUID_def)
  qed
  show ?thesis
    using seteuid_wrapper_ok [OF inv assms(2,3)] setruid_wrapper_ok [OF inv assms(2,3)] again
    by (fastforce simp: To_euid_def To_ruid_def)
qed

lemma identity_switches_witness:
  "\<exists>s1 s2. To_euid 7 (state_of (Setup_uid demo_uids)) = Inr (s1, False) \<and> euid (cr s1) = 7
    \<and> To_euid_root s1 = Inr (s2, False) \<and> euid (cr s2) = 0"
  using identity_switches [OF demo_reach, of 7] by simp

text \<open>
  A daemon user that is neither a number nor in the password database has the ID 0 of a failed
  conversion, which stands for the user that started the program: a server started by root then
  runs its daemon as root.
\<close>

lemma unknown_daemon_user:
  assumes "Daemon_user env = Some name" "pw_name_uid env name = None" "strtol name 10 = (0, name)"
    and "ruid (cr s) = 0" "OriginalRUID s = 0"
  shows "DaemonUID (Reset_daemonuid env s) = 0"
  using assms by (auto simp: Reset_daemonuid_def Getdaemon_def ROOTUID_def Let_def)

end
