(* ===== verification/Printcap.thy ===== *)
theory Printcap
  imports Config HostMatch Glob JobKeys
begin

section \<open>Configuration and printcap files (linelist.c)\<close>

text \<open>
  This theory models how configuration and printcap files are read with their include lines
  (\<open>Read\_file\_list\<close>), how the printcap lines are put together to entries and names
  (\<open>Build\_pc\_names\<close>, \<open>Build\_printcap\_info\<close>), how an entry is selected and its \<open>tc\<close> references are
  followed (\<open>Select\_pc\_info\<close>, \<open>Find\_pc\_info\<close>), and the lookup of options with a common prefix
  (\<open>Find\_tags\<close>, \<open>Find\_default\_tags\<close>). Files, host addresses and the output of printcap filters are
  parameters. \<open>None\<close> is a fatal error.
\<close>

subsection \<open>Reading files\<close>

text \<open>How a file is split: the parameters \<open>linesep\<close>, \<open>sort\<close>, \<open>keysep\<close>, \<open>uniq\<close>, \<open>trim\<close> and \<open>nocomment\<close>.\<close>

record read_mode =
  rm_linesep :: cstr
  rm_sort :: bool
  rm_keysep :: "cstr option"
  rm_uniq :: bool
  rm_trim :: char
  rm_nocomment :: bool

definition Read_file_and_split :: "read_mode \<Rightarrow> line_list \<Rightarrow> cstr \<Rightarrow> line_list" where
  "Read_file_and_split r l content =
     Split l content (rm_linesep r) (rm_sort r) (rm_keysep r) (rm_uniq r) (rm_trim r) (rm_nocomment r) None"

text \<open>An include line: what follows the word.\<close>

definition include_line :: "cstr \<Rightarrow> cstr option" where
  "include_line s =
     (case strpbrk s Whitespace of
        None \<Rightarrow> None
      | Some t \<Rightarrow>
          if safestrcasecmp (Some (take (length s - length t) s)) (Some ''include'') = 0 then Some (tl t) else None)"

text \<open>
  After an include line at index \<open>start\<close> the lines from \<open>start\<close> to the old end are moved behind the lines
  that were added, and the line that is first among them is removed. The last move reads one element
  behind the list, which then lies behind its new end.
\<close>

definition move_included :: "nat \<Rightarrow> nat \<Rightarrow> line_list \<Rightarrow> line_list" where
  "move_included start fin m =
     (let cells = take start m @ drop fin m @ take (fin - start) (drop start m);
          at = length m - (fin - start)
      in take at cells @ drop (at + 1) cells)"

text \<open>
  The scan for include lines, with a bound on its rounds. \<open>None\<close> is a fatal error, a bound that was
  too small, or a list that became shorter than its old end, which the code does not expect.
\<close>

primrec include_loop ::
  "(cstr \<Rightarrow> line_list \<Rightarrow> line_list option) \<Rightarrow> nat \<Rightarrow> nat \<Rightarrow> nat \<Rightarrow> line_list \<Rightarrow> (nat \<times> line_list) option" where
  "include_loop rd 0 start fin m = None"
| "include_loop rd (Suc k) start fin m =
     (if fin \<le> start then Some (start, m)
      else (case include_line (m ! start) of
              None \<Rightarrow> include_loop rd k (start + 1) fin m
            | Some t \<Rightarrow>
                (case rd t m of
                   None \<Rightarrow> None
                 | Some m1 \<Rightarrow>
                     if length m1 < fin then None
                     else include_loop rd k (length m1 - (fin - start)) (length m1 - 1) (move_included start fin m1))))"

text \<open>
  The loop over the files of a list of paths. A file that cannot be found is fatal if it is required.
\<close>

fun read_files ::
  "(cstr \<Rightarrow> cstr option) \<Rightarrow> read_mode \<Rightarrow> nat \<Rightarrow> bool \<Rightarrow> bool \<Rightarrow> (cstr \<Rightarrow> line_list \<Rightarrow> line_list option)
     \<Rightarrow> line_list \<Rightarrow> nat \<Rightarrow> line_list \<Rightarrow> line_list option" where
  "read_files files r fuel required doinclude rd [] start m = Some m"
| "read_files files r fuel required doinclude rd (p # ps) start m =
     (case files p of
        None \<Rightarrow> if required then None else read_files files r fuel required doinclude rd ps start m
      | Some content \<Rightarrow>
          let m1 = Read_file_and_split r m content in
          if doinclude then
            (case include_loop rd fuel start (length m1) m1 of
               None \<Rightarrow> None
             | Some (start', m2) \<Rightarrow> read_files files r fuel required doinclude rd ps start' m2)
          else read_files files r fuel required doinclude rd ps start m1)"

text \<open>
  The first argument is the number of levels of inclusion that are left, \<open>maxdepth - depth + 1\<close>; an
  included file is always required. The marker lines, which no caller asks for, are not modelled.
\<close>

primrec Read_file_list ::
  "nat \<Rightarrow> (cstr \<Rightarrow> cstr option) \<Rightarrow> read_mode \<Rightarrow> nat \<Rightarrow> bool \<Rightarrow> bool \<Rightarrow> cstr \<Rightarrow> line_list \<Rightarrow> line_list option" where
  "Read_file_list 0 files r fuel required doinclude str model = None"
| "Read_file_list (Suc n) files r fuel required doinclude str model =
     read_files files r fuel required doinclude (Read_file_list n files r fuel True doinclude)
       (Split [] str File_sep False None False (CHR 0x01) False None) (length model) model"

text \<open>The ways in which the configuration and the printcap files are read, with \<open>maxdepth\<close> 4.\<close>

definition config_mode :: read_mode where
  "config_mode = \<lparr>rm_linesep = Line_ends, rm_sort = True, rm_keysep = Some Option_value_sep, rm_uniq = True,
     rm_trim = CHR '':'', rm_nocomment = True\<rparr>"

definition printcap_mode :: read_mode where
  "printcap_mode = \<lparr>rm_linesep = Line_ends, rm_sort = False, rm_keysep = None, rm_uniq = False,
     rm_trim = CHR 0x01, rm_nocomment = True\<rparr>"

text \<open>A configuration line with white space behind the key gets an equals sign in its place.\<close>

definition fix_config_line :: "cstr \<Rightarrow> cstr" where
  "fix_config_line s =
     (case strpbrk s Option_value_sep of
        None \<Rightarrow> s
      | Some t \<Rightarrow>
          if isspace (hd t) then take (length s - length t) s @ CHR ''='' # dropWhile isspace (tl t) else s)"

definition Get_config :: "(cstr \<Rightarrow> cstr option) \<Rightarrow> nat \<Rightarrow> bool \<Rightarrow> cstr \<Rightarrow> line_list \<Rightarrow> line_list option" where
  "Get_config files fuel required path config =
     map_option (map fix_config_line) (Read_file_list 5 files config_mode fuel required True path config)"

text \<open>The paths of the printcap files: files and filters.\<close>

fun pathlist_loop ::
  "(cstr \<Rightarrow> cstr option) \<Rightarrow> nat \<Rightarrow> bool \<Rightarrow> line_list \<Rightarrow> line_list \<times> line_list \<Rightarrow> (line_list \<times> line_list) option" where
  "pathlist_loop files fuel required [] rf = Some rf"
| "pathlist_loop files fuel required (p # ps) (raw, filters) =
     (if take 1 p = ''|'' then pathlist_loop files fuel required ps (raw, Add_line_list filters p None False False)
      else if take 1 p = ''/'' then
        (case Read_file_list 5 files printcap_mode fuel required True p raw of
           None \<Rightarrow> None
         | Some raw' \<Rightarrow> pathlist_loop files fuel required ps (raw', filters))
      else None)"

definition Getprintcap_pathlist ::
  "(cstr \<Rightarrow> cstr option) \<Rightarrow> nat \<Rightarrow> bool \<Rightarrow> line_list \<Rightarrow> line_list \<Rightarrow> cstr \<Rightarrow> (line_list \<times> line_list) option" where
  "Getprintcap_pathlist files fuel required raw filters path =
     pathlist_loop files fuel required (Split [] path Strict_file_sep False None False (CHR 0x01) False None)
       (raw, filters)"

subsection \<open>Names and entries\<close>

record pc_env =
  Is_server :: bool
  pc_net :: net_env
  pc_fuel :: nat
  pc_filter :: "(cstr \<Rightarrow> line_list) option"

definition pc_split :: "cstr \<Rightarrow> cstr \<times> line_list" where
  "pc_split s =
     (case strpbrk s '':'' of
        None \<Rightarrow> (s, [])
      | Some t \<Rightarrow> (take (length s - length t) s,
                  Split [] (tl t) '':'' True (Some Option_value_sep) False (CHR 0x01) False (Some '':'')))"

text \<open>The \<open>oh\<close> options list the hosts an entry is for.\<close>

fun oh_match :: "pc_env \<Rightarrow> host_information option \<Rightarrow> line_list \<Rightarrow> bool option" where
  "oh_match env host [] = Some False"
| "oh_match env host (o1 # os) =
     (case strchr o1 (CHR ''='') of
        None \<Rightarrow> oh_match env host os
      | Some t \<Rightarrow>
          (case Match_ipaddr_value (pc_net env) (pc_fuel env)
                  (Split [] (tl t) File_sep False None False (CHR 0x01) False None) host of
             None \<Rightarrow> None
           | Some no \<Rightarrow> if no then oh_match env host os else Some True))"

definition key_lines :: "line_list \<Rightarrow> cstr \<Rightarrow> cstr option \<Rightarrow> (nat \<times> nat) option" where
  "key_lines l key sep =
     (case Find_first_key l key sep of (c1, a) \<Rightarrow>
        (case Find_last_key l key sep of (c2, b) \<Rightarrow> if c1 = 0 \<and> c2 = 0 then Some (a, b) else None))"

definition pc_wanted :: "pc_env \<Rightarrow> host_information option \<Rightarrow> line_list \<Rightarrow> bool option" where
  "pc_wanted env host opts =
     (if Find_flag_value opts SERVER \<noteq> 0 \<and> \<not> Is_server env then Some False
      else if Find_flag_value opts CLIENT \<noteq> 0 \<and> Is_server env then Some False
      else (case key_lines opts ''oh'' (Some Hash_value_sep) of
              None \<Rightarrow> Some True
            | Some (a, b) \<Rightarrow> oh_match env host (take (b + 1 - a) (drop a opts))))"

text \<open>The entry is written back over its own text; an entry that grew is fatal.\<close>

definition pc_text :: "line_list \<Rightarrow> line_list \<Rightarrow> cstr" where
  "pc_text l opts = join_text (CHR ''|'') l @ concat (map (\<lambda>o1. CHR '':'' # o1) opts)"

definition add_names :: "cstr \<Rightarrow> line_list \<Rightarrow> line_list \<Rightarrow> line_list" where
  "add_names primary = foldl (\<lambda>names a. if strpbrk a Option_value_sep \<noteq> None then names
     else Set_str_value names a (Some primary))"

definition Build_pc_names ::
  "pc_env \<Rightarrow> host_information option \<Rightarrow> line_list \<Rightarrow> line_list \<Rightarrow> cstr \<Rightarrow> (line_list \<times> line_list \<times> cstr option) option" where
  "Build_pc_names env host names order str =
     (case pc_split str of (head, opts) \<Rightarrow>
        let l = Split [] head ''|'' False None False (CHR 0x01) False None in
        if l = [] then Some (names, order, None)
        else
          (case pc_wanted env host opts of
             None \<Rightarrow> None
           | Some ok \<Rightarrow>
               if \<not> ok \<or> strpbrk (hd l) Option_value_sep \<noteq> None then Some (names, order, None)
               else if length str < length (pc_text l opts) then None
               else Some (add_names (hd l) names l,
                          if Find_exists_value names (hd l) (Some Hash_value_sep) = None
                          then Add_line_list order (hd l) None False False else order,
                          Some (pc_text l opts))))"

record pc_db =
  pc_names :: line_list
  pc_order :: line_list
  pc_input :: line_list

definition pc_flush :: "pc_env \<Rightarrow> host_information option \<Rightarrow> cstr option \<Rightarrow> pc_db \<Rightarrow> pc_db option" where
  "pc_flush env host keyid db =
     (case keyid of
        None \<Rightarrow> Some db
      | Some k \<Rightarrow>
          (case Build_pc_names env host (pc_names db) (pc_order db) k of
             None \<Rightarrow> None
           | Some (names, order, res) \<Rightarrow>
               Some \<lparr>pc_names = names, pc_order = order,
                     pc_input = (case res of None \<Rightarrow> pc_input db
                                 | Some k' \<Rightarrow> Add_line_list (pc_input db) k' (Some Printcap_sep) True False)\<rparr>))"

definition cut_backslash :: "cstr \<Rightarrow> cstr \<times> bool" where
  "cut_backslash k = (if k \<noteq> [] \<and> last k = CHR 0x5C then (butlast k, True) else (k, False))"

text \<open>Comments and blank lines are passed over; a line that starts with a separator continues the entry.\<close>

fun build_lines ::
  "pc_env \<Rightarrow> host_information option \<Rightarrow> cstr option \<Rightarrow> bool \<Rightarrow> line_list \<Rightarrow> pc_db \<Rightarrow> pc_db option" where
  "build_lines env host keyid app [] db = pc_flush env host keyid db"
| "build_lines env host keyid app (t0 # raw) db =
     (let t = dropWhile isspace t0 in
      if t = [] \<or> hd t = CHR ''#'' then build_lines env host keyid app raw db
      else if keyid \<noteq> None \<and> (hd t \<in> set Printcap_sep \<or> app) then
        (case cut_backslash (opt_str keyid @ '' '' @ t) of (k, a) \<Rightarrow> build_lines env host (Some k) a raw db)
      else
        (case pc_flush env host keyid db of
           None \<Rightarrow> None
         | Some db' \<Rightarrow> (case cut_backslash t of (k, a) \<Rightarrow> build_lines env host (Some k) a raw db')))"

definition Build_printcap_info :: "pc_env \<Rightarrow> host_information option \<Rightarrow> line_list \<Rightarrow> pc_db \<Rightarrow> pc_db option" where
  "Build_printcap_info env host raw db = build_lines env host None False raw db"

subsection \<open>Selecting an entry\<close>

text \<open>
  The options collected so far, the aliases (\<open>None\<close> when the caller does not want them), and the lists
  of names and entries, which a printcap filter may extend.
\<close>

record pc_state =
  pc_info :: line_list
  pc_aliases :: "line_list option"
  pc_lists :: pc_db

type_synonym pc_select = "cstr \<Rightarrow> pc_state \<Rightarrow> (cstr option \<times> pc_state) option"

text \<open>The options of an entry without the \<open>tc\<close> lines, and the names these give, in lower case.\<close>

definition tc_parts :: "line_list \<Rightarrow> line_list \<times> line_list" where
  "tc_parts l =
     (case key_lines l ''tc'' (Some Hash_value_sep) of
        None \<Rightarrow> (l, [])
      | Some (a, b) \<Rightarrow>
          (take a l @ drop (b + 1) l,
           foldl (\<lambda>tc s. case strchr (lowercase s) (CHR ''='') of
                     None \<Rightarrow> tc
                   | Some t \<Rightarrow> Split tc (tl t) File_sep False None False (CHR 0x01) False None)
             [] (take (b + 1 - a) (drop a l))))"

text \<open>The entries named by \<open>tc\<close> are selected in turn; one that does not exist is fatal.\<close>

fun tc_select :: "pc_select \<Rightarrow> line_list \<Rightarrow> pc_state \<Rightarrow> pc_state option" where
  "tc_select sel [] st = Some st"
| "tc_select sel (s # ss) st =
     (case sel s (st\<lparr>pc_aliases := None\<rparr>) of
        None \<Rightarrow> None
      | Some (None, _) \<Rightarrow> None
      | Some (Some _, st1) \<Rightarrow> tc_select sel ss (st1\<lparr>pc_aliases := pc_aliases st\<rparr>))"

definition add_options :: "line_list \<Rightarrow> line_list \<Rightarrow> line_list" where
  "add_options i own = Merge_line_list i own (Some Option_value_sep) True True"

definition add_aliases :: "cstr \<Rightarrow> line_list option \<Rightarrow> line_list option" where
  "add_aliases head =
     map_option (\<lambda>al. Remove_duplicates_line_list (Split al head Printcap_sep False None False NUL False None))"

fun pc_entries :: "pc_select \<Rightarrow> line_list \<Rightarrow> pc_state \<Rightarrow> pc_state option" where
  "pc_entries sel [] st = Some st"
| "pc_entries sel (u # us) st =
     (case pc_split u of (head, l) \<Rightarrow>
       case tc_parts l of (own, tc) \<Rightarrow>
        (case tc_select sel tc (st\<lparr>pc_aliases := add_aliases head (pc_aliases st)\<rparr>) of
           None \<Rightarrow> None
         | Some st1 \<Rightarrow> pc_entries sel us (st1\<lparr>pc_info := add_options (pc_info st1) own\<rparr>)))"

text \<open>The lines of an entry; a name without one is fatal.\<close>

definition entry_lines :: "pc_db \<Rightarrow> cstr \<Rightarrow> line_list option" where
  "entry_lines db name =
     map_option (\<lambda>(a, b). filter (\<lambda>u. u \<noteq> []) (take (b + 1 - a) (drop a (pc_input db))))
       (key_lines (pc_input db) name (Some Printcap_sep))"

definition Find_pc_info :: "pc_select \<Rightarrow> cstr \<Rightarrow> pc_state \<Rightarrow> pc_state option" where
  "Find_pc_info sel name st = Option.bind (entry_lines (pc_lists st) name) (\<lambda>us. pc_entries sel us st)"

fun exact_name :: "cstr \<Rightarrow> line_list \<Rightarrow> cstr option" where
  "exact_name nm [] = None"
| "exact_name nm (s # ss) =
     (case strpbrk s Hash_value_sep of
        None \<Rightarrow> exact_name nm ss
      | Some t \<Rightarrow>
          if safestrcmp (Some (take (length s - length t) s)) (Some nm) = 0 then Some (tl t) else exact_name nm ss)"

text \<open>
  The first name that matches as a pattern, and otherwise the first value of the name \<open>*\<close> that is not
  empty. \<open>None\<close>: the pattern matcher runs out of its string.
\<close>

fun wild_name :: "cstr \<Rightarrow> line_list \<Rightarrow> cstr option \<Rightarrow> cstr option option" where
  "wild_name nm [] allglob = Some allglob"
| "wild_name nm (s # ss) allglob =
     (case strpbrk s Hash_value_sep of
        None \<Rightarrow> wild_name nm ss allglob
      | Some t \<Rightarrow>
          let k = take (length s - length t) s in
          if k = ''*'' then wild_name nm ss (if opt_str allglob = [] then Some (tl t) else allglob)
          else (case Globmatch (Some k) (Some nm) of
                  None \<Rightarrow> None
                | Some r \<Rightarrow> if r = 0 then Some (Some (tl t)) else wild_name nm ss allglob))"

definition filter_lookup :: "pc_env \<Rightarrow> host_information option \<Rightarrow> cstr \<Rightarrow> pc_db \<Rightarrow> pc_db option" where
  "filter_lookup env host nm db =
     (case pc_filter env of
        None \<Rightarrow> Some db
      | Some f \<Rightarrow> if Find_str_value (pc_names db) nm = None then Build_printcap_info env host (f nm) db else Some db)"

definition find_name :: "bool \<Rightarrow> cstr \<Rightarrow> pc_db \<Rightarrow> cstr option option" where
  "find_name wildcard nm db =
     (case Find_str_value (pc_names db) nm of
        Some v \<Rightarrow> Some (Some v)
      | None \<Rightarrow>
          (case exact_name nm (pc_names db) of
             Some v \<Rightarrow> Some (Some v)
           | None \<Rightarrow> if wildcard then wild_name nm (pc_names db) None else Some None))"

text \<open>
  The first argument is the number of levels that are left: \<open>depth\<close> above 5 is fatal, so a search
  starts with 6 of them.
\<close>

primrec Select_pc_info :: "nat \<Rightarrow> pc_env \<Rightarrow> host_information option \<Rightarrow> bool \<Rightarrow> pc_select" where
  "Select_pc_info 0 env host wildcard nm st = None"
| "Select_pc_info (Suc n) env host wildcard nm st =
     Option.bind (filter_lookup env host nm (pc_lists st))
       (\<lambda>db. Option.bind (find_name wildcard nm db)
         (\<lambda>found. case found of
            None \<Rightarrow> Some (None, st\<lparr>pc_lists := db\<rparr>)
          | Some name \<Rightarrow>
              map_option (\<lambda>st1. (Some name, st1))
                (Find_pc_info (Select_pc_info n env host False) name (st\<lparr>pc_lists := db\<rparr>))))"

subsection \<open>Options with a common prefix\<close>

text \<open>
  \<open>tags_search\<close> is the binary search for a line that starts with the tag, \<open>tags_first\<close> the way back to
  the first such line.
\<close>

fun tags_first :: "line_list \<Rightarrow> cstr \<Rightarrow> nat \<Rightarrow> nat" where
  "tags_first l key 0 = 0"
| "tags_first l key (Suc m) =
     (if safestrncasecmp (Some (l ! m)) (Some key) (length key) \<noteq> 0 then Suc m else tags_first l key m)"

function tags_search :: "line_list \<Rightarrow> cstr \<Rightarrow> int \<Rightarrow> int \<Rightarrow> nat option" where
  "tags_search l key lo hi =
     (if hi < lo then None
      else
        (let mid = (hi + lo) div 2;
             cmp = safestrncasecmp (Some key) (Some (l ! nat mid)) (length key)
         in if 0 < cmp then tags_search l key (mid + 1) hi
            else if cmp < 0 then tags_search l key lo (mid - 1)
            else Some (tags_first l key (nat mid))))"
  by pat_completeness auto
termination
  by (relation "measure (\<lambda>(l, key, lo, hi). nat (hi - lo + 1))") auto

declare tags_search.simps [simp del]

definition Find_tags :: "line_list \<Rightarrow> line_list \<Rightarrow> cstr \<Rightarrow> line_list" where
  "Find_tags dest l key =
     (if key = [] then dest
      else (case tags_search l key 0 (int (length l) - 1) of
              None \<Rightarrow> dest
            | Some m \<Rightarrow>
                Merge_line_list dest
                  (map (drop (length key))
                     (takeWhile (\<lambda>s. safestrncasecmp (Some key) (Some s) (length key) = 0) (drop m l)))
                  (Some Hash_value_sep) True True))"

fun Find_default_tags :: "line_list \<Rightarrow> kword list \<Rightarrow> cstr \<Rightarrow> line_list" where
  "Find_default_tags dest [] tag = dest"
| "Find_default_tags dest (k # ks) tag =
     (case default_value k of
        Some v \<Rightarrow>
          if take (length tag) (keyword k) = tag
          then Find_default_tags
                 (Set_str_value dest (drop (length tag) (keyword k)) (Some (if take 1 v = ''='' then tl v else v))) ks tag
          else Find_default_tags dest ks tag
      | None \<Rightarrow> Find_default_tags dest ks tag)"

subsection \<open>Include lines are expanded in place\<close>

fun concat_opt :: "'a list option list \<Rightarrow> 'a list option" where
  "concat_opt [] = Some []"
| "concat_opt (x # xs) = (case x of None \<Rightarrow> None | Some a \<Rightarrow> map_option ((@) a) (concat_opt xs))"

lemma map_option_append_Nil: "map_option ((@) []) x = x"
  by (cases x) simp_all

declare concat_opt.simps(2) [simp del]

lemma concat_opt_Cons [simp]:
  "concat_opt (None # xs) = None" "concat_opt (Some a # xs) = map_option ((@) a) (concat_opt xs)"
  by (simp_all add: concat_opt.simps)

definition file_lines :: "read_mode \<Rightarrow> cstr \<Rightarrow> line_list" where
  "file_lines r content = Read_file_and_split r [] content"

definition path_list :: "cstr \<Rightarrow> line_list" where
  "path_list str = Split [] str File_sep False None False (CHR 0x01) False None"

definition expand_line :: "(cstr \<Rightarrow> line_list option) \<Rightarrow> cstr \<Rightarrow> line_list option" where
  "expand_line ex s = (case include_line s of None \<Rightarrow> Some [s] | Some t \<Rightarrow> ex t)"

text \<open>What reading a list of files means: the lines of each file, with each include line replaced.\<close>

primrec expand_files :: "nat \<Rightarrow> (cstr \<Rightarrow> cstr option) \<Rightarrow> read_mode \<Rightarrow> bool \<Rightarrow> cstr \<Rightarrow> line_list option" where
  "expand_files 0 files r required str = None"
| "expand_files (Suc n) files r required str =
     concat_opt (map (\<lambda>p. case files p of
         None \<Rightarrow> if required then None else Some []
       | Some c \<Rightarrow> concat_opt (map (expand_line (expand_files n files r True)) (file_lines r c)))
       (path_list str))"

text \<open>The pieces that \<open>Split\<close> adds one after the other.\<close>

function split_pieces :: "cstr \<Rightarrow> cstr \<Rightarrow> char \<Rightarrow> bool \<Rightarrow> cstr option \<Rightarrow> line_list" where
  "split_pieces str sep trim nc esc =
     (if str = [] then []
      else
        (case split_scan sep esc None str of (tok, rest) \<Rightarrow>
           let s = (if trim \<noteq> NUL then split_trim trim tok else tok) in
           (if (trim \<noteq> NUL \<and> s = []) \<or> (nc \<and> take 1 (s @ rest) = ''#'') then [] else [s])
           @ (case rest of [] \<Rightarrow> [] | c # e \<Rightarrow> split_pieces e sep trim nc esc)))"
  by pat_completeness auto
termination
  by (relation "measure (\<lambda>(str, _). length str)") (auto dest: split_scan_rest [OF sym])

declare split_pieces.simps [simp del]

lemma Split_text_pieces:
  "Split l str sep srt keysep uniq trim nc esc = Merge_line_list l (split_pieces str sep trim nc esc) keysep srt uniq"
proof (induction str arbitrary: l rule: length_induct)
  case (1 str)
  show ?case
  proof (cases "str = []")
    case True
    then show ?thesis by (simp add: Split.simps split_pieces.simps Merge_line_list_def)
  next
    case False
    obtain tok rest where sc: "split_scan sep esc None str = (tok, rest)" by fastforce
    have IH: "rest = c # e \<Longrightarrow> Split l e sep srt keysep uniq trim nc esc =
        Merge_line_list l (split_pieces e sep trim nc esc) keysep srt uniq" for c e l
      using 1 split_scan_rest sc by blast
    show ?thesis
      unfolding Split.simps [of l str] split_pieces.simps [of str] using False sc IH
      by (cases rest) (simp_all add: Let_def Merge_line_list_def)
  qed
qed

lemma Split_unsorted:
  "Split l str sep False keysep uniq trim nc esc = l @ Split [] str sep False keysep uniq trim nc esc"
  by (simp add: Split_text_pieces Merge_line_list_append)

lemma move_included_list:
  assumes "m = p @ s # q"
  shows "move_included (length p) (length m) (m @ e) = p @ e @ q"
proof -
  have c: "take (length p) (m @ e) @ drop (length m) (m @ e) @ take (length m - length p) (drop (length p) (m @ e)) =
      (p @ e) @ s # q" by (simp add: assms)
  have a: "length (m @ e) - (length m - length p) = length (p @ e)" by (simp add: assms)
  show ?thesis unfolding move_included_def Let_def c a by simp
qed

lemma include_loop_expand:
  assumes rd: "\<And>t m. rd t m = map_option ((@) m) (ex t)"
  shows "length q < k \<Longrightarrow> include_loop rd k (length p) (length p + length q) (p @ q) =
    map_option (\<lambda>r. (length p + length r, p @ r)) (concat_opt (map (expand_line ex) q))"
proof (induction q arbitrary: k p)
  case Nil
  then show ?case by (cases k) auto
next
  case (Cons s q)
  obtain k' where k: "k = Suc k'" "length q < k'" using Cons.prems by (cases k) auto
  show ?case
  proof (cases "include_line s")
    case None
    have "include_loop rd k (length p) (length p + length (s # q)) (p @ s # q) =
        include_loop rd k' (length (p @ [s])) (length (p @ [s]) + length q) ((p @ [s]) @ q)"
      using None by (simp add: k(1))
    with Cons.IH [OF k(2), of "p @ [s]"] None show ?thesis
      by (simp add: expand_line_def option.map_comp comp_def)
  next
    case (Some t)
    show ?thesis
    proof (cases "ex t")
      case None
      with Some rd [of t] show ?thesis by (simp add: k(1) expand_line_def)
    next
      case e: (Some e)
      let ?m = "p @ s # q"
      have "include_loop rd k (length p) (length p + length (s # q)) (p @ s # q) =
          include_loop rd k' (length (?m @ e) - (length ?m - length p)) (length (?m @ e) - 1)
            (move_included (length p) (length ?m) (?m @ e))"
        using Some e rd [of t] by (simp add: k(1))
      also have "\<dots> = include_loop rd k' (length (p @ e)) (length (p @ e) + length q) ((p @ e) @ q)"
        using move_included_list [of ?m p s q e, OF refl] by (simp add: add.commute add.left_commute)
      finally show ?thesis using Cons.IH [OF k(2), of "p @ e"] Some e
        by (simp add: expand_line_def option.map_comp comp_def add.assoc)
    qed
  qed
qed

lemma read_files_expand:
  assumes rd: "\<And>t m. rd t m = map_option ((@) m) (ex t)" and r: "\<not> rm_sort r"
    and f: "\<forall>p c. files p = Some c \<longrightarrow> length (file_lines r c) < fuel"
  shows "read_files files r fuel required True rd ps (length m) m =
    map_option ((@) m) (concat_opt (map (\<lambda>p. case files p of
       None \<Rightarrow> if required then None else Some []
     | Some c \<Rightarrow> concat_opt (map (expand_line ex) (file_lines r c))) ps))"
proof (induction ps arbitrary: m)
  case (Cons p ps)
  show ?case
  proof (cases "files p")
    case None
    with Cons.IH [of m] show ?thesis by (cases required) (simp_all add: map_option_append_Nil)
  next
    case (Some c)
    have m1: "Read_file_and_split r m c = m @ file_lines r c"
      unfolding Read_file_and_split_def file_lines_def using r Split_unsorted [of m] by simp
    have l: "include_loop rd fuel (length m) (length (m @ file_lines r c)) (m @ file_lines r c) =
        map_option (\<lambda>r. (length m + length r, m @ r)) (concat_opt (map (expand_line ex) (file_lines r c)))"
      using include_loop_expand [where rd = rd and ex = ex and q = "file_lines r c" and k = fuel and p = m, OF rd] f Some by simp
    show ?thesis
    proof (cases "concat_opt (map (expand_line ex) (file_lines r c))")
      case None
      with Some l m1 show ?thesis by (simp add: Let_def)
    next
      case e: (Some e)
      with Some l m1 Cons.IH [of "m @ e"] show ?thesis
        by (simp add: Let_def option.map_comp comp_def)
    qed
  qed
qed simp

text \<open>
  C36: reading a list of files without sorting, as the printcap files are read, puts the lines of an
  included file in the place of the include line, to any depth: the result is the list followed by the
  expansion of the files, and the reading fails exactly when the expansion does, for a required file
  that is missing or for too many levels. A bound on the lines of each file bounds the rounds of the scan.
\<close>

theorem include_in_place:
  assumes "\<not> rm_sort r" "\<forall>p c. files p = Some c \<longrightarrow> length (file_lines r c) < fuel"
  shows "Read_file_list n files r fuel required True str model =
    map_option ((@) model) (expand_files n files r required str)"
proof (induction n arbitrary: required str model)
  case (Suc n)
  from read_files_expand [where rd = "Read_file_list n files r fuel True True" and ex = "expand_files n files r True",
      OF Suc.IH assms, where required = required and ps = "path_list str" and m = model]
  show ?case by (simp add: path_list_def)
qed simp

definition demo_files :: "cstr \<Rightarrow> cstr option" where
  "demo_files p =
     (if p = ''/etc/printcap'' then Some (''lp:sd=/lp'' @ [CHR 0x0A] @ ''include /etc/more'' @ [CHR 0x0A] @ ''lz:sd=/lz'')
      else if p = ''/etc/more'' then Some (''# local'' @ [CHR 0x0A] @ ''ly:sd=/ly'') else None)"

lemma include_in_place_witness:
  "Read_file_list 5 demo_files printcap_mode 4 True True ''/etc/printcap'' [''x'']
   = Some [''x'', ''lp:sd=/lp'', ''ly:sd=/ly'', ''lz:sd=/lz'']"
proof -
  have l: "file_lines printcap_mode (''lp:sd=/lp'' @ [CHR 0x0A] @ ''include /etc/more'' @ [CHR 0x0A] @ ''lz:sd=/lz'') =
      [''lp:sd=/lp'', ''include /etc/more'', ''lz:sd=/lz'']"
    "file_lines printcap_mode (''# local'' @ [CHR 0x0A] @ ''ly:sd=/ly'') = [''ly:sd=/ly'']" by code_simp+
  then have "\<forall>p c. demo_files p = Some c \<longrightarrow> length (file_lines printcap_mode c) < 4"
    by (auto simp: demo_files_def)
  moreover have "\<not> rm_sort printcap_mode"
    "expand_files 5 demo_files printcap_mode True ''/etc/printcap'' = Some [''lp:sd=/lp'', ''ly:sd=/ly'', ''lz:sd=/lz'']"
    by code_simp+
  ultimately show ?thesis using include_in_place [of printcap_mode demo_files 4 5 True "''/etc/printcap''" "[''x'']"] by simp
qed

text \<open>
  A sorted list is not extended at its end: an include line in a configuration file makes the code
  move the wrong lines and drop others. Here the file is read three times, once in place of its own
  include line, and the line \<open>z=1\<close> of the configuration is lost.
\<close>

definition demo_config :: "cstr \<Rightarrow> cstr option" where
  "demo_config p =
     (if p = ''/etc/lpd.conf'' then Some (''a=1'' @ [CHR 0x0A] @ ''include /etc/local'' @ [CHR 0x0A] @ ''z=1'')
      else if p = ''/etc/local'' then Some ''b=2'' else None)"

lemma sorted_include_loses:
  "Get_config demo_config 9 True ''/etc/lpd.conf'' [] = Some [''a=1'', ''b=2'']"
  by code_simp

subsection \<open>The text of an entry fits\<close>

definition list_room :: "line_list \<Rightarrow> nat" where
  "list_room l = sum_list (map (\<lambda>s. Suc (length s)) l)"

lemma list_room_simps [simp]:
  "list_room [] = 0" "list_room (s # l) = Suc (length s) + list_room l" "list_room (l @ m) = list_room l + list_room m"
  by (simp_all add: list_room_def)

lemma length_split_trim: "length (split_trim trim s) \<le> length s"
proof -
  have t: "length (trunc_str t) \<le> length t" for t
    using length_dropWhile_le_self [of isspace "rev t"] by (simp add: trunc_str_def)
  have d: "length (dropWhile isspace s) \<le> length s" by (rule length_dropWhile_le_self)
  have "length (tl (dropWhile isspace s)) \<le> length s" using d by simp
  with t [of "tl (dropWhile isspace s)"] t [of "dropWhile isspace s"] d show ?thesis
    unfolding split_trim_def Let_def by (auto simp del: length_tl intro: order_trans)
qed

lemma split_pieces_room:
  "list_room (split_pieces str sep trim nc esc) \<le> (if str = [] then 0 else Suc (length str))"
proof (induction str rule: length_induct)
  case (1 str)
  show ?case
  proof (cases "str = []")
    case True
    then show ?thesis by (simp add: split_pieces.simps)
  next
    case False
    obtain tok rest where sc: "split_scan sep esc None str = (tok, rest)" by fastforce
    have len: "length str = length tok + length rest" using split_scan_append [OF sc] by simp
    have tok: "length (if trim \<noteq> NUL then split_trim trim tok else tok) \<le> length tok"
      by (simp add: length_split_trim)
    have rest: "list_room (case rest of [] \<Rightarrow> [] | c # e \<Rightarrow> split_pieces e sep trim nc esc) \<le> length rest"
    proof (cases rest)
      case (Cons c e)
      then have "list_room (split_pieces e sep trim nc esc) \<le> (if e = [] then 0 else Suc (length e))"
        using 1 split_scan_rest sc by blast
      with Cons show ?thesis by (auto split: if_splits)
    qed simp
    show ?thesis
      unfolding split_pieces.simps [of str] using False sc len tok rest by (auto simp: Let_def)
  qed
qed

lemma list_room_take_drop: "list_room (take i l) + list_room (drop i l) = list_room l"
  by (metis append_take_drop_id list_room_simps(3))

lemma list_room_add: "list_room (Add_line_list l s sep srt False) = list_room l + Suc (length s)"
  using list_room_take_drop
  by (simp add: Add_line_list_def place_line_def insert_at_def split: prod.splits)

lemma list_room_Merge: "list_room (Merge_line_list l src sep srt False) = list_room l + list_room src"
  by (induction src arbitrary: l) (simp_all add: Merge_line_list_def list_room_add)

lemma list_room_Split:
  "list_room (Split [] str sep srt keysep False trim nc esc) \<le> (if str = [] then 0 else Suc (length str))"
  by (simp add: Split_text_pieces list_room_Merge split_pieces_room)

lemma length_join_text: "l \<noteq> [] \<Longrightarrow> Suc (length (join_text c l)) = list_room l"
  by (cases l) (simp_all add: join_text_def list_room_def length_concat comp_def)

text \<open>
  The entry that \<open>Build\_pc\_names\<close> writes over its argument, with \<open>strcpy\<close> and before it looks at the
  length, is never longer than the argument: the fatal error of a line that grew does not occur.
\<close>

lemma pc_text_fits:
  assumes "pc_split str = (head, opts)" "Split [] head ''|'' False None False (CHR 0x01) False None = l" "l \<noteq> []"
  shows "length (pc_text l opts) \<le> length str"
proof -
  have l: "Suc (length (join_text (CHR ''|'') l)) \<le> Suc (length head)"
    using list_room_Split [of head "''|''" False None "CHR 0x01" False None] length_join_text [OF assms(3)] assms(2,3)
    by (auto simp: Split.simps split: if_splits)
  have o: "length (concat (map (\<lambda>o1. CHR '':'' # o1) opts)) = list_room opts"
    by (simp add: length_concat list_room_def comp_def)
  show ?thesis
  proof (cases "strpbrk str '':''")
    case None
    with assms(1) l o show ?thesis by (simp add: pc_split_def pc_text_def)
  next
    case (Some t)
    then have t: "t \<noteq> []" "length t \<le> length str" using strpbrk_suffix_length strpbrk_Some_Cons by blast+
    have "list_room opts \<le> length t"
      using assms(1) Some list_room_Split [of "tl t" "'':''" True "Some Option_value_sep" "CHR 0x01" False "Some '':''"] t(1)
      by (cases t) (auto simp: pc_split_def split: if_splits)
    moreover have "length head = length str - length t" using assms(1) Some by (auto simp: pc_split_def)
    ultimately show ?thesis using l o t(2) by (simp add: pc_text_def)
  qed
qed

text \<open>
  The entry that \<open>Build\_pc\_names\<close> writes back over its own text, with \<open>strcpy\<close> and before it looks
  at the length, always fits: whatever the text of the entry, the fatal error of a line that grew does
  not occur, and no byte behind the text is written.
\<close>

theorem Build_pc_names_in_place:
  assumes "pc_wanted env host (snd (pc_split str)) = Some w"
  shows "\<exists>names' order' r. Build_pc_names env host names order str = Some (names', order', r)
    \<and> (\<forall>t. r = Some t \<longrightarrow> length t \<le> length str)"
proof -
  obtain head opts where sp: "pc_split str = (head, opts)" by fastforce
  let ?l = "Split [] head ''|'' False None False (CHR 0x01) False None"
  show ?thesis
  proof (cases "?l = []")
    case True
    then show ?thesis by (simp add: Build_pc_names_def sp)
  next
    case False
    have "\<not> length str < length (pc_text ?l opts)" using pc_text_fits [OF sp refl False] by simp
    with assms False show ?thesis by (simp add: Build_pc_names_def sp Let_def)
  qed
qed

definition demo_pc_env :: pc_env where
  "demo_pc_env = \<lparr>Is_server = True, pc_net = \<lparr>innetgr_host = (\<lambda>_ _. False), innetgr_user = (\<lambda>_ _. False),
     inet_pton = (\<lambda>_ _. None), file_image = (\<lambda>_. None)\<rparr>, pc_fuel = 3, pc_filter = None\<rparr>"

lemma Build_pc_names_in_place_witness:
  "\<exists>names' order' r. Build_pc_names demo_pc_env None [] [] ''lp | Laser:sd=/lp: server'' = Some (names', order', r)
    \<and> (\<forall>t. r = Some t \<longrightarrow> length t \<le> 26)"
proof -
  have "pc_wanted demo_pc_env None (snd (pc_split ''lp | Laser:sd=/lp: server'')) = Some True"
    "length ''lp | Laser:sd=/lp: server'' \<le> 26" by code_simp+
  with Build_pc_names_in_place [of demo_pc_env None "''lp | Laser:sd=/lp: server''"] show ?thesis
    by (meson order_trans)
qed

subsection \<open>What selecting an entry means\<close>

text \<open>
  The option lines of an entry in the order in which they count: those of the entries it names by
  \<open>tc\<close>, then its own. \<open>None\<close> is a name without entry, or too many levels.
\<close>

definition line_options :: "(cstr \<Rightarrow> line_list option) \<Rightarrow> cstr \<Rightarrow> line_list option" where
  "line_options tcs u =
     (case tc_parts (snd (pc_split u)) of (own, tc) \<Rightarrow> map_option (\<lambda>x. x @ own) (concat_opt (map tcs tc)))"

definition entry_options :: "(cstr \<Rightarrow> line_list option) \<Rightarrow> pc_db \<Rightarrow> cstr \<Rightarrow> line_list option" where
  "entry_options tcs db name =
     Option.bind (entry_lines db name) (\<lambda>us. concat_opt (map (line_options tcs) us))"

primrec tc_options :: "nat \<Rightarrow> pc_db \<Rightarrow> cstr \<Rightarrow> line_list option" where
  "tc_options 0 db s = None"
| "tc_options (Suc n) db s =
     (case find_name False s db of
        Some (Some name) \<Rightarrow> entry_options (tc_options n db) db name
      | _ \<Rightarrow> None)"

lemma add_options_append: "add_options (add_options i a) b = add_options i (a @ b)"
  by (simp add: add_options_def Merge_line_list_def)

lemma add_options_Nil [simp]: "add_options i [] = i"
  by (simp add: add_options_def Merge_line_list_def)

text \<open>What a selection of names by \<open>tc\<close> has to do for the lines \<open>tcs\<close>.\<close>

definition selects :: "pc_select \<Rightarrow> (cstr \<Rightarrow> line_list option) \<Rightarrow> pc_db \<Rightarrow> bool" where
  "selects sel tcs db \<longleftrightarrow> (\<forall>s st. pc_lists st = db \<longrightarrow> pc_aliases st = None \<longrightarrow>
     (case tcs s of
        None \<Rightarrow> sel s st = None \<or> sel s st = Some (None, st)
      | Some ls \<Rightarrow> \<exists>name. sel s st = Some (Some name, st\<lparr>pc_info := add_options (pc_info st) ls\<rparr>)))"

lemma tc_select_options:
  assumes "selects sel tcs db"
  shows "pc_lists st = db \<Longrightarrow> tc_select sel ss st =
    map_option (\<lambda>ls. st\<lparr>pc_info := add_options (pc_info st) ls\<rparr>) (concat_opt (map tcs ss))"
proof (induction ss arbitrary: st)
  case (Cons s ss)
  let ?st = "st\<lparr>pc_aliases := None\<rparr>"
  note sel = assms [unfolded selects_def, rule_format, of ?st s]
  show ?case
  proof (cases "tcs s")
    case None
    with sel Cons.prems show ?thesis by auto
  next
    case (Some ls)
    with sel Cons.prems obtain name where
      n: "sel s ?st = Some (Some name, ?st\<lparr>pc_info := add_options (pc_info st) ls\<rparr>)" by auto
    let ?st' = "st\<lparr>pc_info := add_options (pc_info st) ls\<rparr>"
    have "tc_select sel (s # ss) st = tc_select sel ss ?st'" using n by simp
    also have "\<dots> = map_option (\<lambda>ls'. ?st'\<lparr>pc_info := add_options (pc_info ?st') ls'\<rparr>) (concat_opt (map tcs ss))"
      using Cons.IH [of ?st'] Cons.prems by simp
    finally show ?thesis using Some by (simp add: option.map_comp comp_def add_options_append)
  qed
qed simp

definition entry_aliases :: "line_list option \<Rightarrow> line_list \<Rightarrow> line_list option" where
  "entry_aliases = foldl (\<lambda>al u. add_aliases (fst (pc_split u)) al)"

lemma pc_entries_options:
  assumes "selects sel tcs db"
  shows "pc_lists st = db \<Longrightarrow> pc_entries sel us st =
    map_option (\<lambda>ls. st\<lparr>pc_info := add_options (pc_info st) ls, pc_aliases := entry_aliases (pc_aliases st) us\<rparr>)
      (concat_opt (map (line_options tcs) us))"
proof (induction us arbitrary: st)
  case Nil
  show ?case by (simp add: entry_aliases_def)
next
  case (Cons u us)
  obtain head l own tc where u: "pc_split u = (head, l)" "tc_parts l = (own, tc)" by fastforce
  let ?st = "st\<lparr>pc_aliases := add_aliases head (pc_aliases st)\<rparr>"
  have t: "tc_select sel tc ?st = map_option (\<lambda>ls. ?st\<lparr>pc_info := add_options (pc_info st) ls\<rparr>) (concat_opt (map tcs tc))"
    using tc_select_options [OF assms, of ?st tc] Cons.prems by simp
  show ?case
  proof (cases "concat_opt (map tcs tc)")
    case None
    with u t show ?thesis by (simp add: line_options_def)
  next
    case (Some ls)
    let ?st' = "?st\<lparr>pc_info := add_options (pc_info st) (ls @ own)\<rparr>"
    have "pc_entries sel (u # us) st = pc_entries sel us ?st'"
      using u t Some by (simp add: add_options_append)
    with Cons.IH [of ?st'] Cons.prems u Some show ?thesis
      by (simp add: option.map_comp comp_def add_options_append line_options_def entry_aliases_def)
  qed
qed

lemma Find_pc_info_options:
  assumes "selects sel tcs (pc_lists st)"
  shows "Find_pc_info sel name st =
    map_option (\<lambda>ls. st\<lparr>pc_info := add_options (pc_info st) ls,
        pc_aliases := entry_aliases (pc_aliases st) (the (entry_lines (pc_lists st) name))\<rparr>)
      (entry_options tcs (pc_lists st) name)"
  using pc_entries_options [OF assms refl]
  by (cases "entry_lines (pc_lists st) name") (simp_all add: Find_pc_info_def entry_options_def)

lemma entry_aliases_None [simp]: "entry_aliases None us = None"
  unfolding entry_aliases_def by (induction us) (simp_all add: add_aliases_def)

lemma Select_selects: "pc_filter env = None \<Longrightarrow> selects (Select_pc_info n env host False) (tc_options n db) db"
proof (induction n)
  case 0
  show ?case by (simp add: selects_def)
next
  case (Suc n)
  show ?case unfolding selects_def
  proof (intro allI impI)
    fix s and st :: pc_state assume st: "pc_lists st = db" "pc_aliases st = None"
    note f = Find_pc_info_options [of "Select_pc_info n env host False" "tc_options n db" st] 
    show "case tc_options (Suc n) db s of
        None \<Rightarrow> Select_pc_info (Suc n) env host False s st = None \<or> Select_pc_info (Suc n) env host False s st = Some (None, st)
      | Some ls \<Rightarrow> \<exists>name. Select_pc_info (Suc n) env host False s st =
          Some (Some name, st\<lparr>pc_info := add_options (pc_info st) ls\<rparr>)"
      using Suc f st by (auto simp: filter_lookup_def split: option.splits bind_splits)
  qed
qed

text \<open>
  C14: without printcap filters, selecting a printcap entry collects exactly the options of the
  entries it names by \<open>tc\<close>, in order and to any depth, followed by its own. In the store of options
  the last one with a key counts, so that an entry overrides what it includes. If an entry is missing
  or there are too many levels, the selection is a fatal error.
\<close>

theorem Select_pc_info_options:
  assumes "pc_filter env = None" "find_name wildcard nm (pc_lists st) = Some (Some name)"
    and "ll_uniq fold_codes (Some Option_value_sep) (pc_info st)"
  shows "case entry_options (tc_options n (pc_lists st)) (pc_lists st) name of
      None \<Rightarrow> Select_pc_info (Suc n) env host wildcard nm st = None
    | Some ls \<Rightarrow> ll_ok ls \<longrightarrow> (\<exists>st'. Select_pc_info (Suc n) env host wildcard nm st = Some (Some name, st')
        \<and> pc_lists st' = pc_lists st \<and> ll_uniq fold_codes (Some Option_value_sep) (pc_info st')
        \<and> ll_map fold_codes (Some Option_value_sep) (pc_info st') =
            ll_map fold_codes (Some Option_value_sep) (pc_info st)
              ++ ll_map fold_codes (Some Option_value_sep) (rev ls))"
proof -
  let ?tcs = "tc_options n (pc_lists st)"
  have sel: "Select_pc_info (Suc n) env host wildcard nm st =
      map_option (\<lambda>st1. (Some name, st1)) (Find_pc_info (Select_pc_info n env host False) name st)"
    using assms(1,2) by (simp add: filter_lookup_def)
  note f = Find_pc_info_options [where st = st and name = name and tcs = ?tcs and sel = "Select_pc_info n env host False",
    OF Select_selects [OF assms(1)]]
  show ?thesis
  proof (cases "entry_options ?tcs (pc_lists st) name")
    case None
    with sel f show ?thesis by simp
  next
    case (Some ls)
    with sel f Merge_line_list_uniq [OF assms(3), of ls] show ?thesis by (simp add: add_options_def)
  qed
qed

definition demo_pc_db :: pc_db where
  "demo_pc_db = \<lparr>pc_names = [''base=base'', ''laser=lp'', ''lp=lp''], pc_order = [''lp'', ''base''],
     pc_input = [''base:mx=0:sd=/base'', ''lp|laser:sd=/lp:tc=Base'']\<rparr>"

definition demo_pc_state :: pc_state where
  "demo_pc_state = \<lparr>pc_info = [], pc_aliases = Some [], pc_lists = demo_pc_db\<rparr>"

lemma Select_pc_info_options_witness:
  "\<exists>st'. Select_pc_info 6 demo_pc_env None False ''laser'' demo_pc_state = Some (Some ''lp'', st')
    \<and> ll_map fold_codes (Some Option_value_sep) (pc_info st') (fold_codes ''sd'') = Some ''sd=/lp''
    \<and> ll_map fold_codes (Some Option_value_sep) (pc_info st') (fold_codes ''mx'') = Some ''mx=0''"
proof -
  have h: "pc_filter demo_pc_env = None" "find_name False ''laser'' (pc_lists demo_pc_state) = Some (Some ''lp'')"
    "ll_uniq fold_codes (Some Option_value_sep) (pc_info demo_pc_state)"
    "entry_options (tc_options 5 (pc_lists demo_pc_state)) (pc_lists demo_pc_state) ''lp'' =
       Some [''mx=0'', ''sd=/base'', ''sd=/lp'']"
    "ll_ok [''mx=0'', ''sd=/base'', ''sd=/lp'']"
    "ll_map fold_codes (Some Option_value_sep) (pc_info demo_pc_state) = (\<lambda>_. None)"
    by (code_simp, code_simp, code_simp, code_simp, code_simp) (simp add: ll_map_def demo_pc_state_def)
  have m: "ll_map fold_codes (Some Option_value_sep) (rev [''mx=0'', ''sd=/base'', ''sd=/lp'']) (fold_codes ''sd'') = Some ''sd=/lp''"
    "ll_map fold_codes (Some Option_value_sep) (rev [''mx=0'', ''sd=/base'', ''sd=/lp'']) (fold_codes ''mx'') = Some ''mx=0''"
    by code_simp+
  have "Suc 5 = 6" by simp
  with Select_pc_info_options [OF h(1-3), of 5 None, unfolded h(4)] h(5,6) m show ?thesis
    by (auto simp: map_add_def)
qed

text \<open>
  A chain of \<open>tc\<close> references that comes back to itself is a fatal error and no endless loop: when
  every name of a set is found and its entry names a member of the set again, no name of the set can
  be selected, however many levels are allowed.
\<close>

theorem tc_cycle_fatal:
  assumes "pc_filter env = None"
    and "\<And>s. s \<in> S \<Longrightarrow> \<exists>name us u t. find_name False s (pc_lists st) = Some (Some name)
      \<and> entry_lines (pc_lists st) name = Some us \<and> u \<in> set us
      \<and> t \<in> set (snd (tc_parts (snd (pc_split u)))) \<and> t \<in> S"
    and "nm \<in> S"
  shows "Select_pc_info n env host False nm st = None"
proof -
  let ?db = "pc_lists st"
  have none: "None \<in> set xs \<Longrightarrow> concat_opt xs = None" for xs :: "cstr list option list"
    by (induction xs) (auto simp: concat_opt.simps split: option.splits)
  have tc: "s \<in> S \<Longrightarrow> tc_options m ?db s = None" for m s
  proof (induction m arbitrary: s)
    case (Suc m)
    from assms(2) [OF Suc.prems] obtain name us u t where f: "find_name False s ?db = Some (Some name)"
      "entry_lines ?db name = Some us" "u \<in> set us" "t \<in> set (snd (tc_parts (snd (pc_split u))))" "t \<in> S" by blast
    from Suc.IH [OF f(5)] f(4) have "None \<in> set (map (tc_options m ?db) (snd (tc_parts (snd (pc_split u)))))"
      by force
    from none [OF this] have "line_options (tc_options m ?db) u = None"
      by (cases "tc_parts (snd (pc_split u))") (simp add: line_options_def)
    with f(3) have "None \<in> set (map (line_options (tc_options m ?db)) us)" by force
    from none [OF this] f(1,2) show ?case by (simp add: entry_options_def)
  qed simp
  show ?thesis
  proof (cases n)
    case (Suc k)
    from assms(2) [OF assms(3)] obtain name us where f: "find_name False nm ?db = Some (Some name)"
      "entry_lines ?db name = Some us" by blast
    have "entry_options (tc_options k ?db) ?db name = None" using tc [OF assms(3), of "Suc k"] f by simp
    with Find_pc_info_options [where st = st and name = name and tcs = "tc_options k ?db" and sel = "Select_pc_info k env host False",
        OF Select_selects [OF assms(1)]] assms(1) f Suc
    show ?thesis by (simp add: filter_lookup_def)
  qed simp
qed

definition demo_cycle :: pc_state where
  "demo_cycle = \<lparr>pc_info = [], pc_aliases = None, pc_lists = \<lparr>pc_names = [''a=a'', ''b=b''], pc_order = [''a'', ''b''],
     pc_input = [''a:tc=b'', ''b:sd=/b:tc=A'']\<rparr>\<rparr>"

lemma tc_cycle_fatal_witness: "Select_pc_info 6 demo_pc_env None False ''a'' demo_cycle = None"
proof -
  have a: "find_name False ''a'' (pc_lists demo_cycle) = Some (Some ''a'')"
    "entry_lines (pc_lists demo_cycle) ''a'' = Some [''a:tc=b'']"
    "''b'' \<in> set (snd (tc_parts (snd (pc_split ''a:tc=b''))))"
    "find_name False ''b'' (pc_lists demo_cycle) = Some (Some ''b'')"
    "entry_lines (pc_lists demo_cycle) ''b'' = Some [''b:sd=/b:tc=A'']"
    "''a'' \<in> set (snd (tc_parts (snd (pc_split ''b:sd=/b:tc=A''))))" by code_simp+
  have "pc_filter demo_pc_env = None" by (simp add: demo_pc_env_def)
  moreover have "\<exists>name us u t. find_name False s (pc_lists demo_cycle) = Some (Some name)
      \<and> entry_lines (pc_lists demo_cycle) name = Some us \<and> u \<in> set us
      \<and> t \<in> set (snd (tc_parts (snd (pc_split u)))) \<and> t \<in> {''a'', ''b''}" if "s \<in> {''a'', ''b''}" for s
    using that a by (metis insert_iff list.set_intros(1) singletonD)
  ultimately show ?thesis using tc_cycle_fatal [of demo_pc_env "{''a'', ''b''}" demo_cycle "''a''"] by blast
qed

text \<open>
  A tag with a dot is compared with the equals sign of a shorter key, which is larger: an option
  \<open>server@\<close> keeps the search from finding the options with the prefix \<open>server.\<close>.
\<close>

lemma tags_not_found:
  "Find_tags [] [''server@'', ''server.bk=1''] ''server.'' = []"
  "Find_tags [] [''server.bk=1''] ''server.'' = [''bk=1'']"
  by code_simp+

end
