(* ===== verification/FilterArgs.thy ===== *)
theory FilterArgs
  imports Printcap
begin

section \<open>Options and arguments of filters (linelist.c)\<close>

text \<open>
  Before a filter is started, \<open>Fix\_dollars\<close> replaces the escapes of its command line by values of the
  job, the printcap entry and the configuration; \<open>Fix\_Z\_opts\<close> edits the \<open>-Z\<close> options of a job,
  \<open>Fix\_bq\_format\<close> chooses the format of a bounced file, and \<open>Fix\_str\<close> replaces the escapes of the
  strings that are sent to a device. The lemmas show that the options are expanded to what the
  comment of \<open>Fix\_dollars\<close> says when they are not split, and that the \<open>-Z\<close> options come out without
  empty ones.
\<close>

subsection \<open>The -Z options\<close>

record z_env =
  Prefix_option_to_option :: "cstr option"
  Remove_Z :: "cstr option"
  Append_Z :: "cstr option"
  Prefix_Z :: "cstr option"

text \<open>The values of the options that are taken away and put before another one.\<close>

fun take_opts :: "line_list \<Rightarrow> cstr \<Rightarrow> cstr option \<Rightarrow> line_list \<times> cstr option" where
  "take_opts i [] str = (i, str)"
| "take_opts i (c # cs) str =
     (case Find_str_value i [c] of
        None \<Rightarrow> take_opts i cs str
      | Some v \<Rightarrow> take_opts (Set_str_value i [c] None) cs (Some (opt_str str @ v)))"

definition z_move :: "z_env \<Rightarrow> line_list \<Rightarrow> line_list option" where
  "z_move env i =
     (case Prefix_option_to_option env of
        None \<Rightarrow> Some i
      | Some p \<Rightarrow>
          let s = filter isalpha p in
          if length s < 2 then None
          else
            (case take_opts i (butlast s) None of
               (i1, None) \<Rightarrow> Some i1
             | (i1, Some v) \<Rightarrow>
                 (let old = Find_str_value i1 [last s] in
                  Some (Set_str_value i1 [last s]
                    (Some (v @ (if old \<noteq> None then '','' else []) @ opt_str old))))))"

lemma dropWhile_rest: "dropWhile P s = c # t \<Longrightarrow> length t < length s"
  using length_dropWhile_le_self [of P s] by simp

lemma tl_dropWhile_length: "s \<noteq> [] \<Longrightarrow> length (tl (dropWhile P s)) < length s"
  using dropWhile_rest [of P s] by (cases "dropWhile P s") (simp_all del: dropWhile_eq_Nil_conv)

text \<open>The options that match a pattern are taken out; \<open>None\<close> if the matcher leaves its string.\<close>

function remove_opts :: "cstr \<Rightarrow> cstr \<Rightarrow> cstr option" where
  "remove_opts pat str =
     (if str = [] then Some []
      else
        (let a = takeWhile (\<lambda>c. c \<noteq> CHR '','') str; rest = dropWhile (\<lambda>c. c \<noteq> CHR '','') str in
         case Globmatch (Some pat) (Some a) of
           None \<Rightarrow> None
         | Some r \<Rightarrow>
             (if r = 0 then (if rest = [] then Some [] else remove_opts pat (tl rest))
              else if rest = [] then Some a
              else map_option (\<lambda>t. a @ CHR '','' # t) (remove_opts pat (tl rest)))))"
  by pat_completeness auto
termination
  by (relation "measure (length \<circ> snd)") (auto simp del: length_tl simp: tl_dropWhile_length)

declare remove_opts.simps [simp del]

fun remove_all :: "line_list \<Rightarrow> cstr \<Rightarrow> cstr option" where
  "remove_all [] str = Some str"
| "remove_all (p # ps) str = Option.bind (remove_opts p str) (remove_all ps)"

fun squeeze_commas :: "cstr \<Rightarrow> cstr" where
  "squeeze_commas [] = []"
| "squeeze_commas [c] = [c]"
| "squeeze_commas (c # d # s) = (if c = CHR '','' \<and> d = CHR '','' then squeeze_commas (d # s) else c # squeeze_commas (d # s))"

definition strip_commas :: "cstr \<Rightarrow> cstr" where
  "strip_commas s =
     (let s1 = squeeze_commas s; s2 = (if take 1 s1 = '','' then tl s1 else s1) in
      if s2 \<noteq> [] \<and> last s2 = CHR '','' then butlast s2 else s2)"

text \<open>The text of the option in the list is changed in place.\<close>

definition set_text :: "line_list \<Rightarrow> cstr \<Rightarrow> cstr \<Rightarrow> line_list" where
  "set_text i k v =
     (case Find_first_key i k (Some Option_value_sep) of (c, n) \<Rightarrow>
        if c = 0 then i[n := key_of (Some Option_value_sep) (i ! n) @ CHR ''='' # v] else i)"

definition z_add :: "cstr option \<Rightarrow> (cstr \<Rightarrow> cstr option \<Rightarrow> cstr) \<Rightarrow> line_list \<Rightarrow> line_list" where
  "z_add opt f i = (if opt_str opt = [] then i else Set_str_value i ''Z'' (Some (f (opt_str opt) (Find_str_value i ''Z''))))"

definition Fix_Z_opts :: "z_env \<Rightarrow> line_list \<Rightarrow> line_list option" where
  "Fix_Z_opts env i0 =
     Option.bind (z_move env i0)
       (\<lambda>i1. Option.bind
          (case (Remove_Z env, Find_str_value i1 ''Z'') of
             (Some pats, Some z) \<Rightarrow>
               map_option (set_text i1 ''Z'') (remove_all (Split [] pats '','' False None False NUL False None) z)
           | _ \<Rightarrow> Some i1)
          (\<lambda>i2.
             let i3 = z_add (Append_Z env) (\<lambda>a z. safestrdup3 z (Some '','') (Some a)) i2;
                 i4 = z_add (Prefix_Z env) (\<lambda>p z. safestrdup3 (Some p) (Some '','') z) i3
             in Some (case Find_str_value i4 ''Z'' of None \<Rightarrow> i4 | Some z \<Rightarrow> set_text i4 ''Z'' (strip_commas z))))"

subsection \<open>Formats and device strings\<close>

fun bq_format :: "char \<Rightarrow> cstr \<Rightarrow> char" where
  "bq_format c [] = c"
| "bq_format c [d] = (if d \<noteq> CHR ''*'' then d else c)"
| "bq_format c (i # d # s) = (if c = i \<or> i = CHR ''*'' then d else bq_format c s)"

definition Fix_bq_format :: "cstr option \<Rightarrow> char \<Rightarrow> line_list \<Rightarrow> line_list" where
  "Fix_bq_format bounce c datafile =
     Set_str_value datafile FORMAT (Some [case bounce of None \<Rightarrow> c | Some s \<Rightarrow> bq_format c (lowercase s)])"

text \<open>
  \<open>fix_escapes\<close> is the loop of \<open>Fix\_str\<close>. The digits of \<open>\nnn\<close> are copied to a buffer of four bytes that
  is never cleared nor terminated: \<open>buf\<close> is what it holds, and \<open>None\<close> is a read behind its end.
\<close>

definition escape_char :: "char \<Rightarrow> char" where
  "escape_char c =
     (if c = CHR ''f'' then CHR 0x0C else if c = CHR ''r'' then CHR 0x0D
      else if c = CHR ''n'' then CHR 0x0A else if c = CHR ''t'' then CHR 0x09 else c)"

function fix_escapes :: "cstr \<Rightarrow> cstr \<Rightarrow> cstr option" where
  "fix_escapes buf s =
     (let pre = takeWhile (\<lambda>c. c \<noteq> CHR 0x5C) s; e = tl (dropWhile (\<lambda>c. c \<noteq> CHR 0x5C) s) in
      if e = [] then Some pre
      else if isdigit (hd e) then
        (let ds = takeWhile isdigit (take 3 e); buf' = ds @ drop (length ds) buf in
         if NUL \<notin> set buf' then None
         else (let v = fst (strtol (takeWhile (\<lambda>c. c \<noteq> NUL) buf') 8) mod 256 in
               if v = 0 then Some pre
               else map_option (\<lambda>t. pre @ char_of v # t) (fix_escapes buf' (drop (length ds) e))))
      else map_option (\<lambda>t. pre @ escape_char (hd e) # t) (fix_escapes buf (tl e)))"
  by pat_completeness auto
termination
proof (relation "measure (length \<circ> snd)", goal_cases)
  case 1
  show ?case by simp
next
  case (2 buf s pre e ds buf' v)
  then have "0 < length s" by auto
  moreover have "length (dropWhile (\<lambda>c. c \<noteq> CHR 0x5C) s) \<le> length s" by (rule length_dropWhile_le)
  ultimately have "length (dropWhile (\<lambda>c. c \<noteq> CHR 0x5C) s) - Suc (length ds) < length s"
    by linarith
  with 2(2) show ?case by simp
next
  case (3 buf s pre e)
  then have "0 < length s" by auto
  moreover have "length (dropWhile (\<lambda>c. c \<noteq> CHR 0x5C) s) \<le> length s" by (rule length_dropWhile_le)
  ultimately have "length (dropWhile (\<lambda>c. c \<noteq> CHR 0x5C) s) - Suc 1 < length s"
    by linarith
  with 3(2) show ?case by simp
qed

declare fix_escapes.simps [simp del]

definition Fix_str :: "cstr \<Rightarrow> cstr option \<Rightarrow> cstr option option" where
  "Fix_str buf str =
     (case str of
        None \<Rightarrow> Some None
      | Some s \<Rightarrow> map_option (\<lambda>t. if t = [] then None else Some t) (fix_escapes buf s))"

text \<open>What the buffer held before changes the character: a form feed, or the letter g.\<close>

lemma Fix_str_buffer:
  "Fix_str [NUL, NUL, NUL, NUL] (Some (''a'' @ [CHR 0x5C] @ ''014'')) = Some (Some (''a'' @ [CHR 0x0C]))"
  "Fix_str [NUL, NUL, NUL, CHR ''7''] (Some (''a'' @ [CHR 0x5C] @ ''014'')) = None"
  "Fix_str [NUL, CHR ''4'', CHR ''7'', NUL] (Some (''a'' @ [CHR 0x5C] @ ''1'')) = Some (Some ''ag'')"
  by code_simp+

subsection \<open>The escapes of a command line\<close>

record fd_env =
  fd_info :: "line_list option"
  fd_entry :: line_list
  fd_accounting :: "cstr option"
  fd_spool_dir :: "cstr option"
  fd_remote_printer :: "cstr option"
  fd_remote_host :: "cstr option"
  fd_status_file :: "cstr option"
  fd_printer :: "cstr option"
  fd_comment :: "cstr option"
  fd_time :: cstr
  fd_page :: "char \<Rightarrow> int"

definition job_str :: "fd_env \<Rightarrow> cstr \<Rightarrow> cstr option" where
  "job_str env k = Option.bind (fd_info env) (\<lambda>i. Find_str_value i k)"

text \<open>\<open>fd\_page\<close> gives the page length, width, x and y by the letters l, w, x and y.\<close>

definition dollar_value :: "fd_env \<Rightarrow> char \<Rightarrow> cstr option" where
  "dollar_value env c =
     (if c = CHR ''a'' then
        (case fd_accounting env of None \<Rightarrow> None | Some s \<Rightarrow> if take 1 s = ''|'' then None else Some s)
      else if c = CHR ''b'' then job_str env SIZE
      else if c = CHR ''c'' then
        (if take 1 (opt_str (job_str env FORMAT)) = ''l'' then Some ''-c'' else None)
      else if c = CHR ''d'' then fd_spool_dir env
      else if c = CHR ''e'' then job_str env DF_NAME
      else if c = CHR ''f'' then job_str env ''N''
      else if c = CHR ''h'' then job_str env FROMHOST
      else if c = CHR ''i'' then job_str env ''I''
      else if c = CHR ''j'' then job_str env NUMBER
      else if c = CHR ''k'' then job_str env XXCFTRANSFERNAME
      else if c \<in> set ''lwxy'' then Some (dec_text (fd_page env c))
      else if c = CHR ''n'' then job_str env LOGNAME
      else if c = CHR ''p'' then fd_remote_printer env
      else if c = CHR ''r'' then fd_remote_host env
      else if c = CHR ''s'' then fd_status_file env
      else if c = CHR ''t'' then Some (fd_time env)
      else if c = CHR ''F'' then job_str env FORMAT
      else if c = CHR ''P'' then fd_printer env
      else if c = CHR ''S'' then fd_comment env
      else if isupper c then job_str env [c]
      else None)"

definition brace_value :: "fd_env \<Rightarrow> cstr \<Rightarrow> cstr" where
  "brace_value env k =
     (if length k = 1 \<and> isupper (hd k) then opt_str (job_str env k) else Find_value (fd_entry env) k)"

text \<open>The flags after the dollar: a space, no option letter, and the quote, whose only use is void.\<close>

fun dollar_flags :: "bool \<Rightarrow> bool \<Rightarrow> cstr \<Rightarrow> bool \<times> bool \<times> cstr" where
  "dollar_flags sp nt [] = (sp, nt, [])"
| "dollar_flags sp nt (c # s) =
     (if c = CHR ''0'' \<or> c = CHR '' '' then dollar_flags True nt s
      else if c = CHR ''-'' then dollar_flags sp True s
      else if c = CHR 0x27 then dollar_flags sp nt s
      else (sp, nt, c # s))"

text \<open>
  The character for what follows a backslash, and the rest. An octal number above 255 is outside the
  range of \<open>isprint\<close>, \<open>None\<close>.
\<close>

definition backslash :: "char \<Rightarrow> cstr \<Rightarrow> (char \<times> cstr) option" where
  "backslash c s =
     (let vis = (\<lambda>x. if isprint x \<and> \<not> isspace x then x else CHR '' '') in
      if c \<in> set ''rnt'' then Some (CHR '' '', s)
      else if isdigit c then
        (let v = fst (strtol (c # take 2 s) 8) in if 255 < v then None else Some (vis (char_of v), drop 2 s))
      else Some (vis c, s))"

lemma dollar_flags_length: "dollar_flags sp nt s = (a, b, t) \<Longrightarrow> length t \<le> length s"
  by (induction sp nt s rule: dollar_flags.induct) (auto split: if_splits)

lemma backslash_length: "backslash c s = Some (x, t) \<Longrightarrow> length t \<le> length s"
  by (auto simp: backslash_def Let_def split: if_splits)

lemma dollar_rest:
  "dropWhile P str = c # s \<Longrightarrow> dollar_flags sp nt s = (a, b, k # r) \<Longrightarrow> length r < length str"
  using dropWhile_rest dollar_flags_length by fastforce

lemma backslash_rest:
  "dropWhile P str = c # d # s \<Longrightarrow> backslash d s = Some (x, t) \<Longrightarrow> length t < length str"
  using dropWhile_rest backslash_length by fastforce

text \<open>
  One argument: \<open>out\<close> is the finished part, which is not looked at again. The flags of \<open>$*\<close> are
  looked at again; \<open>fuel\<close> bounds how often they are put in. \<open>None\<close> is a bound too small, or a read behind
  the end of the text: a dollar at the end. A backslash at the end, a brace that is not closed, and \<open>$*\<close>
  without flags drop the rest of the argument.
\<close>

function fix_text :: "fd_env \<Rightarrow> bool \<Rightarrow> cstr \<Rightarrow> nat \<Rightarrow> cstr \<Rightarrow> cstr \<Rightarrow> line_list option" where
  "fix_text env ns flags fuel out str =
     (case dropWhile (\<lambda>c. c \<noteq> CHR ''$'' \<and> c \<noteq> CHR 0x5C) str of
        [] \<Rightarrow> Some [out @ str]
      | c # s \<Rightarrow>
          let pre = out @ takeWhile (\<lambda>c. c \<noteq> CHR ''$'' \<and> c \<noteq> CHR 0x5C) str in
          if c = CHR 0x5C then
            (case s of
               [] \<Rightarrow> Some [pre]
             | d # s1 \<Rightarrow>
                 (case backslash d s1 of
                    None \<Rightarrow> None
                  | Some (x, s2) \<Rightarrow> fix_text env ns flags fuel (pre @ [x]) s2))
          else
            (case dollar_flags False False s of
               (sp, nt, []) \<Rightarrow> None
             | (sp, nt, k # r) \<Rightarrow>
                 if k = CHR ''*'' then
                   (if flags = [] then Some [pre]
                    else (case fuel of 0 \<Rightarrow> None | Suc n \<Rightarrow> fix_text env ns flags n pre (flags @ r)))
                 else if k = CHR 0x7B then
                   (case strchr r (CHR 0x7D) of
                      None \<Rightarrow> Some [pre]
                    | Some t \<Rightarrow>
                        fix_text env ns flags fuel (pre @ brace_value env (take (length r - length t) r)) (tl t))
                 else
                   (let v = opt_str (dollar_value env k) in
                    if v = [] then fix_text env ns flags fuel pre r
                    else if nt \<or> k = CHR ''c'' then fix_text env ns flags fuel (pre @ v) r
                    else if ns then
                      fix_text env ns flags fuel
                        (pre @ (if sp then ''-'' @ [k] @ '' '' @ [CHR 0x27] @ v @ [CHR 0x27]
                                else [CHR 0x27] @ ''-'' @ [k] @ v @ [CHR 0x27])) r
                    else if sp then map_option ((#) (pre @ ''-'' @ [k])) (fix_text env ns flags fuel v r)
                    else fix_text env ns flags fuel (pre @ ''-'' @ [k] @ v) r)))"
  by pat_completeness auto

termination
  supply dropWhile_eq_Cons_conv [simp del]
  by (relation "measures [\<lambda>(env, ns, flags, fuel, out, str). fuel, \<lambda>(env, ns, flags, fuel, out, str). length str]")
    (simp_all, (fastforce dest: dollar_rest [OF _ sym] backslash_rest strchr_suffix_length)+)

declare fix_text.simps [simp del]

definition Fix_dollars :: "fd_env \<Rightarrow> bool \<Rightarrow> cstr \<Rightarrow> nat \<Rightarrow> line_list \<Rightarrow> line_list option" where
  "Fix_dollars env ns flags fuel l =
     map_option (filter (\<lambda>s. s \<noteq> [])) (concat_opt (map (fix_text env ns flags fuel []) l))"

subsection \<open>What the escapes stand for\<close>

text \<open>
  A command line as its writer means it: plain text, \<open>$X\<close> with the flags for a space and for no option
  letter, and \<open>${key}\<close>.
\<close>

datatype token = Lit cstr | Opt bool bool char | Key cstr

definition opt_flags :: "bool \<Rightarrow> bool \<Rightarrow> cstr" where
  "opt_flags sp nt = (if sp then ''0'' else []) @ (if nt then ''-'' else [])"

fun token_text :: "token \<Rightarrow> cstr" where
  "token_text (Lit s) = s"
| "token_text (Opt sp nt c) = ''$'' @ opt_flags sp nt @ [c]"
| "token_text (Key k) = ''$'' @ [CHR 0x7B] @ k @ [CHR 0x7D]"

fun token_ok :: "token \<Rightarrow> bool" where
  "token_ok (Lit s) \<longleftrightarrow> CHR ''$'' \<notin> set s \<and> CHR 0x5C \<notin> set s"
| "token_ok (Opt sp nt c) \<longleftrightarrow> c \<notin> set [CHR ''0'', CHR '' '', CHR ''-'', CHR 0x27, CHR ''*'', CHR 0x7B]"
| "token_ok (Key k) \<longleftrightarrow> CHR 0x7D \<notin> set k"

text \<open>
  The meaning of the comment in the source: an option is put between single quotes, or after its
  letter and a space; without its letter only the value is put in; an option without value is nothing.
\<close>

definition option_text :: "bool \<Rightarrow> bool \<Rightarrow> char \<Rightarrow> cstr \<Rightarrow> cstr" where
  "option_text sp nt c v =
     (if v = [] then []
      else if nt \<or> c = CHR ''c'' then v
      else if sp then ''-'' @ [c] @ '' '' @ [CHR 0x27] @ v @ [CHR 0x27]
      else [CHR 0x27] @ ''-'' @ [c] @ v @ [CHR 0x27])"

fun token_value :: "fd_env \<Rightarrow> token \<Rightarrow> cstr" where
  "token_value env (Lit s) = s"
| "token_value env (Opt sp nt c) = option_text sp nt c (opt_str (dollar_value env c))"
| "token_value env (Key k) = brace_value env k"

lemma fix_text_Lit:
  assumes "token_ok (Lit s)"
  shows "fix_text env ns flags fuel out (s @ r) = fix_text env ns flags fuel (out @ s) r"
proof -
  let ?P = "\<lambda>c. c \<noteq> CHR ''$'' \<and> c \<noteq> CHR 0x5C"
  have d: "dropWhile ?P (s @ r) = dropWhile ?P r" "takeWhile ?P (s @ r) = s @ takeWhile ?P r"
    using assms by (auto simp: dropWhile_append takeWhile_append)
  show ?thesis
    unfolding fix_text.simps [of env ns flags fuel out "s @ r"] fix_text.simps [of env ns flags fuel "out @ s" r]
      d append_assoc ..
qed

lemma dollar_flags_opt:
  "c \<notin> set [CHR ''0'', CHR '' '', CHR ''-'', CHR 0x27] \<Longrightarrow>
   dollar_flags False False (opt_flags sp nt @ c # r) = (sp, nt, c # r)"
  by (simp add: opt_flags_def)

lemma fix_text_Opt:
  assumes "token_ok (Opt sp nt c)"
  shows "fix_text env True flags fuel out (''$'' @ opt_flags sp nt @ c # r) =
    fix_text env True flags fuel (out @ option_text sp nt c (opt_str (dollar_value env c))) r"
  using assms dollar_flags_opt [of c sp nt r]
  by (simp add: fix_text.simps [of env True flags fuel out "CHR ''$'' # opt_flags sp nt @ c # r"] option_text_def Let_def)

lemma fix_text_Key:
  assumes "token_ok (Key k)"
  shows "fix_text env ns flags fuel out (''$'' @ [CHR 0x7B] @ k @ CHR 0x7D # r) =
    fix_text env ns flags fuel (out @ brace_value env k) r"
proof -
  have "strchr (k @ CHR 0x7D # r) (CHR 0x7D) = Some (CHR 0x7D # r)" using assms by (induction k) auto
  then show ?thesis
    by (simp add: fix_text.simps [of env ns flags fuel out "CHR ''$'' # CHR 0x7B # k @ CHR 0x7D # r"])
qed

lemma fix_text_tokens:
  "\<forall>t\<in>set ts. token_ok t \<Longrightarrow>
   fix_text env True flags fuel out (concat (map token_text ts)) = Some [out @ concat (map (token_value env) ts)]"
proof (induction ts arbitrary: out)
  case Nil
  show ?case by (simp add: fix_text.simps)
next
  case (Cons t ts)
  note IH = Cons.IH
  show ?case
  proof (cases t)
    case (Lit s)
    with Cons fix_text_Lit [of s] show ?thesis by simp
  next
    case (Opt sp nt c)
    with Cons fix_text_Opt [of sp nt c] show ?thesis by simp
  next
    case (Key k)
    with Cons fix_text_Key [of k] show ?thesis by simp
  qed
qed


definition demo_fd :: fd_env where
  "demo_fd = \<lparr>fd_info = Some [''A=ann+1'', ''J=${mx}'', ''P=ann''], fd_entry = [''mx#0''], fd_accounting = None,
     fd_spool_dir = Some ''/lp'', fd_remote_printer = None, fd_remote_host = None, fd_status_file = None,
     fd_printer = Some ''lp'', fd_comment = None, fd_time = ''12:00'', fd_page = (\<lambda>_. 66)\<rparr>"


text \<open>
  Three cases in which text is lost, quoted wrongly, or read behind its end: \<open>$*\<close> without flags drops
  the rest of the argument; the quote of \<open>$'{key}\<close> has no effect; a dollar at the end is read over.
\<close>

lemma dollar_star_drops: "Fix_dollars demo_fd True [] n [''lpf $* -x''] = Some [''lpf '']"
  by (simp add: Fix_dollars_def fix_text.simps)

lemma dollar_quote_void:
  "Fix_dollars demo_fd ns flags n [''$'' @ [CHR 0x27, CHR 0x7B] @ ''mx'' @ [CHR 0x7D]] = Some [''0'']"
proof -
  have "brace_value demo_fd ''mx'' = ''0''" by code_simp
  then show ?thesis by (simp add: Fix_dollars_def fix_text.simps)
qed

lemma dollar_at_end: "Fix_dollars env ns flags n [''lpf $''] = None"
  by (simp add: Fix_dollars_def fix_text.simps)

subsection \<open>The -Z options as a list\<close>

text \<open>The options of a text: the pieces between the commas that are not empty.\<close>

fun comma_parts :: "cstr \<Rightarrow> line_list" where
  "comma_parts [] = [[]]"
| "comma_parts (c # s) =
     (if c = CHR '','' then [] # comma_parts s
      else (case comma_parts s of [] \<Rightarrow> [[c]] | p # ps \<Rightarrow> (c # p) # ps))"

definition options_of :: "cstr \<Rightarrow> line_list" where
  "options_of s = filter (\<lambda>p. p \<noteq> []) (comma_parts s)"

lemma comma_parts_nonempty [simp]: "comma_parts s \<noteq> []"
  by (cases s) (auto split: list.splits)

lemma comma_parts_append: "comma_parts (x @ CHR '','' # y) = comma_parts x @ comma_parts y"
  by (induction x) (auto split: list.splits)

lemma comma_parts_piece: "CHR '','' \<notin> set a \<Longrightarrow> comma_parts a = [a]"
  by (induction a) auto

lemma options_of_simps [simp]:
  "options_of [] = []" "options_of (x @ CHR '','' # y) = options_of x @ options_of y"
  "options_of (CHR '','' # y) = options_of y"
  by (simp_all add: options_of_def comma_parts_append)

lemma options_of_Cons:
  "c \<noteq> CHR '','' \<Longrightarrow> options_of [c] = [[c]]"
  "c \<noteq> CHR '','' \<Longrightarrow> d \<noteq> CHR '','' \<Longrightarrow> options_of (c # d # s) = (c # hd (options_of (d # s))) # tl (options_of (d # s))"
  "d \<noteq> CHR '','' \<Longrightarrow> options_of (d # s) \<noteq> []"
  by (auto simp: options_of_def split: list.splits)

lemma join_text_Cons:
  "join_text c (p # ps) = p @ (if ps = [] then [] else c # join_text c ps)"
  by (cases ps) (simp_all add: join_text_def)

lemma join_text_first: "ps \<noteq> [] \<Longrightarrow> join_text c ((x # hd ps) # tl ps) = x # join_text c ps"
  by (cases ps) (simp_all add: join_text_def)

lemma options_of_commas: "options_of s = [] \<Longrightarrow> set s \<subseteq> {CHR '',''}"
proof (induction s)
  case (Cons c s)
  then show ?case by (cases "c = CHR '',''") (auto dest: options_of_Cons(3))
qed simp

lemma squeeze_options:
  "t \<noteq> [] \<Longrightarrow> squeeze_commas t = (if hd t = CHR '','' then '','' else []) @ join_text (CHR '','') (options_of t)
     @ (if last t = CHR '','' \<and> options_of t \<noteq> [] then '','' else [])"
proof (induction t rule: squeeze_commas.induct)
  case (2 c)
  then show ?case by (cases "c = CHR '',''") (simp_all add: options_of_Cons join_text_def)
next
  case (3 c d s)
  show ?case
  proof (cases "c = CHR '',''")
    case True
    with 3 show ?thesis by (cases "d = CHR '',''") simp_all
  next
    case c: False
    show ?thesis
    proof (cases "d = CHR '',''")
      case d: True
      have o: "options_of (c # d # s) = [c] # options_of s"
        using options_of_simps(2) [of "[c]" s] c d by (simp add: options_of_Cons)
      have l: "s \<noteq> [] \<Longrightarrow> options_of s = [] \<Longrightarrow> last s = CHR '',''" using options_of_commas last_in_set by blast
      have sq: "squeeze_commas (CHR '','' # s) = CHR '','' # join_text (CHR '','') (options_of s)
          @ (if last (CHR '','' # s) = CHR '','' \<and> options_of s \<noteq> [] then '','' else [])"
        using 3(2) c d by simp
      have sc: "squeeze_commas (c # d # s) = c # squeeze_commas (CHR '','' # s)" using c d by simp
      show ?thesis
      proof (cases "options_of s = []")
        case True
        then have "last (CHR '','' # s) = CHR '',''" using l by (cases s) auto
        with True c d show ?thesis unfolding sc sq o join_text_Cons by (simp add: join_text_def)
      next
        case False
        with c d show ?thesis unfolding sc sq o join_text_Cons by simp
      qed
    next
      case d: False
      have o: "options_of (c # d # s) = (c # hd (options_of (d # s))) # tl (options_of (d # s))"
        "options_of (d # s) \<noteq> []" using c d by (simp_all add: options_of_Cons)
      show ?thesis using 3(2) c d join_text_first [OF o(2)] o(2) by (simp add: o(1))
    qed
  qed
qed simp

lemma options_of_pieces: "p \<in> set (options_of s) \<Longrightarrow> p \<noteq> [] \<and> CHR '','' \<notin> set p"
proof -
  have "\<forall>p\<in>set (comma_parts s). CHR '','' \<notin> set p" by (induction s) (auto split: list.splits)
  then show "p \<in> set (options_of s) \<Longrightarrow> p \<noteq> [] \<and> CHR '','' \<notin> set p" by (auto simp: options_of_def)
qed

lemma join_options_ends:
  assumes "options_of s \<noteq> []"
  shows "join_text (CHR '','') (options_of s) \<noteq> [] \<and> hd (join_text (CHR '','') (options_of s)) \<noteq> CHR '',''
    \<and> last (join_text (CHR '','') (options_of s)) \<noteq> CHR '',''"
proof -
  have "ps \<noteq> [] \<Longrightarrow> \<forall>p\<in>set ps. p \<noteq> [] \<and> c \<notin> set p \<Longrightarrow>
      join_text c ps \<noteq> [] \<and> hd (join_text c ps) \<noteq> c \<and> last (join_text c ps) \<noteq> c" for ps :: line_list and c
  proof (induction ps)
    case (Cons p ps)
    then show ?case by (cases p) (auto simp: join_text_Cons dest: last_in_set)
  qed simp
  with assms options_of_pieces show ?thesis by blast
qed

lemma strip_commas_options: "strip_commas t = join_text (CHR '','') (options_of t)"
proof (cases "t = []")
  case True
  then show ?thesis by (simp add: strip_commas_def join_text_def)
next
  case False
  note sq = squeeze_options [OF False]
  show ?thesis
  proof (cases "options_of t = []")
    case True
    then have "hd t = CHR '',''" using options_of_commas [OF True] hd_in_set [OF False] by blast
    with True sq show ?thesis by (simp add: strip_commas_def join_text_def)
  next
    case o: False
    note e = join_options_ends [OF o]
    then obtain x xs where j: "join_text (CHR '','') (options_of t) = x # xs" "x \<noteq> CHR '',''"
      by (cases "join_text (CHR '','') (options_of t)") auto
    have l: "last (x # xs) \<noteq> CHR '',''" using e unfolding j(1) by simp
    show ?thesis using sq o j l by (auto simp: strip_commas_def Let_def butlast_append)
  qed
qed

lemma remove_opts_options:
  assumes "simple_pattern pat"
  shows "cstr_ok s \<Longrightarrow> \<exists>t. remove_opts pat s = Some t \<and> set t \<subseteq> set s
    \<and> options_of t = filter (\<lambda>a. \<not> wild pat a) (options_of s)"
proof (induction s rule: length_induct)
  case (1 s)
  show ?case
  proof (cases "s = []")
    case True
    then show ?thesis by (simp add: remove_opts.simps)
  next
    case False
    let ?a = "takeWhile (\<lambda>c. c \<noteq> CHR '','') s" and ?r = "dropWhile (\<lambda>c. c \<noteq> CHR '','') s"
    have s: "s = ?a @ ?r" by simp
    have a: "CHR '','' \<notin> set ?a" "cstr_ok ?a"
      using 1(2) set_takeWhileD [of _ _ s] by (auto simp: cstr_ok_def dest: set_takeWhileD)
    obtain r where g: "Globmatch (Some pat) (Some ?a) = Some r" "r = 0 \<longleftrightarrow> wild pat ?a"
      using glob_wild(1) assms a(2) by (auto simp: Globmatch_def)
    have oa: "options_of ?a = (if ?a = [] then [] else [?a])" using comma_parts_piece [OF a(1)] by (simp add: options_of_def)
    show ?thesis
    proof (cases ?r)
      case Nil
      then have "options_of s = (if ?a = [] then [] else [?a])" "set ?a \<subseteq> set s" using oa s
        by (metis append_Nil2, auto dest: set_takeWhileD)
      with Nil g False oa show ?thesis by (auto simp: remove_opts.simps [of pat s] Let_def)
    next
      case (Cons c r')
      then have c: "c = CHR '',''" using hd_dropWhile [of "\<lambda>c. c \<noteq> CHR '',''" s] by simp
      have sr: "s = ?a @ CHR '','' # r'" using s unfolding Cons c .
      then have os: "options_of s = options_of ?a @ options_of r'" by (metis options_of_simps(2))
      have "cstr_ok r'" "length r' < length s" "set r' \<subseteq> set s"
        using 1(2) arg_cong [OF sr, of set] arg_cong [OF sr, of length] by (auto simp: cstr_ok_def)
      with 1 obtain t where t: "remove_opts pat r' = Some t" "set t \<subseteq> set s"
        "options_of t = filter (\<lambda>a. \<not> wild pat a) (options_of r')" by blast
      have as: "set ?a \<subseteq> set s" "CHR '','' \<in> set s" using sr by (auto dest: set_takeWhileD, metis in_set_conv_decomp)
      show ?thesis using t as g False os oa Cons c by (auto simp: remove_opts.simps [of pat s] Let_def)
    qed
  qed
qed

lemma remove_all_options:
  "\<forall>p\<in>set pats. simple_pattern p \<Longrightarrow> cstr_ok s \<Longrightarrow> \<exists>t. remove_all pats s = Some t \<and> cstr_ok t
    \<and> options_of t = filter (\<lambda>a. \<forall>p\<in>set pats. \<not> wild p a) (options_of s)"
proof (induction pats arbitrary: s)
  case (Cons p pats)
  then obtain t where t: "remove_opts p s = Some t" "set t \<subseteq> set s"
    "options_of t = filter (\<lambda>a. \<not> wild p a) (options_of s)" using remove_opts_options [of p s] by auto
  have "cstr_ok t" using t(2) Cons.prems(2) by (auto simp: cstr_ok_def)
  with Cons.IH [of t] Cons.prems t show ?case by (auto simp: conj_commute)
qed simp

text \<open>Changing the text of an option in its place keeps the store.\<close>

lemma kv_line_update:
  assumes "kv_inv i" "n < length i" "cstr_ok v"
  shows "kv_inv (i[n := key_of (Some Option_value_sep) (i ! n) @ CHR ''='' # v])"
proof -
  let ?k = "key_of (Some Option_value_sep) (i ! n)"
  let ?s = "?k @ CHR ''='' # v"
  have c: "key_of (Some Hash_value_sep) (i ! n) = ?k" "cstr_ok (i ! n)"
    using assms(1,2) by (auto simp: kv_inv_def kv_clean_def ll_uniq_def ll_sorted_def ll_ok_def)
  have ks: "set ?k \<inter> set Option_value_sep = {}" by (auto simp: key_of_def dest: set_takeWhileD)
  have ok: "cstr_ok ?s" using c(2) assms(3) key_of_set [of "Some Option_value_sep" "i ! n"] by (auto simp: cstr_ok_def NUL_def)
  have kh: "key_of (Some Hash_value_sep) ?s = ?k" "key_of (Some Option_value_sep) ?s = ?k"
    using ks Hash_sub_Option by (auto intro!: key_of_append)
  have "lkeys fold_codes (Some Hash_value_sep) (i[n := ?s]) = lkeys fold_codes (Some Hash_value_sep) i"
    using assms(2) kh(1) c(1) by (simp add: lkeys_def map_update list_update_same_conv)
  then show ?thesis using assms ok kh set_update_subset_insert [of i n ?s]
    by (auto simp: kv_inv_def kv_clean_def ll_uniq_def ll_sorted_def ll_ok_def)
qed

lemma set_text_kv:
  assumes "kv_inv i" "key_ok k" "cstr_ok v" "Find_str_value i k \<noteq> None"
  shows "kv_inv (set_text i k v) \<and> Find_str_value (set_text i k v) k = Some v"
proof -
  obtain c n where f: "Find_first_key i k (Some Option_value_sep) = (c, n)" by fastforce
  have ok: "cstr_ok k" by (rule key_ok_cstr_ok [OF assms(2)])
  from f assms(4) have c0: "c = 0" by (auto simp: Find_str_value_def split: if_splits)
  from nocase.find_first_map [OF kv_inv_option_sep(1) [OF assms(1)] ok] f c0
  have n: "n < length i" "fold_codes (key_of (Some Option_value_sep) (i ! n)) = fold_codes k"
    by (auto simp: Find_first_key_def)
  let ?k = "key_of (Some Option_value_sep) (i ! n)"
  let ?j = "i[n := ?k @ CHR ''='' # v]"
  have ks: "set ?k \<inter> set Option_value_sep = {}" by (auto simp: key_of_def dest: set_takeWhileD)
  have kj: "key_of (Some Option_value_sep) (?k @ CHR ''='' # v) = ?k" using ks by (intro key_of_append) auto
  have inv: "kv_inv ?j" by (rule kv_line_update [OF assms(1) n(1) assms(3)])
  have dist: "distinct (lkeys fold_codes (Some Option_value_sep) ?j)"
    using kv_inv_option_sep(1) [OF inv] by (simp add: ll_uniq_def)
  have "ll_map fold_codes (Some Option_value_sep) ?j (fold_codes k) = Some (?k @ CHR ''='' # v)"
  proof -
    have "(fold_codes k, ?k @ CHR ''='' # v) \<in> set (map (\<lambda>s. (fold_codes (key_of (Some Option_value_sep) s), s)) ?j)"
      using n kj by (force simp: set_update_memI)
    with dist show ?thesis unfolding ll_map_def by (intro map_of_is_SomeI) (simp_all add: lkeys_def comp_def)
  qed
  then have "Find_str_value ?j k = after_equals (strpbrk (?k @ CHR ''='' # v) Option_value_sep)"
    using Find_str_value_kv [OF inv ok] kv_inv_option_sep(2) [OF inv] by (simp add: kv_value_def)
  also have "\<dots> = Some v" using ks by (simp add: strpbrk_append_hit after_equals_def)
  finally show ?thesis using f c0 inv by (simp add: set_text_def)
qed

lemma z_add_kv:
  assumes "kv_inv i" "\<And>s. opt = Some s \<Longrightarrow> cstr_ok s"
    and f: "\<And>s z. s \<noteq> [] \<Longrightarrow> cstr_ok s \<Longrightarrow> val_ok z \<Longrightarrow> cstr_ok (f s z) \<and> f s z \<noteq> []"
  shows "kv_inv (z_add opt f i) \<and> Find_str_value (z_add opt f i) ''Z'' =
    (if opt_str opt = [] then Find_str_value i ''Z'' else Some (f (opt_str opt) (Find_str_value i ''Z'')))"
proof (cases "opt_str opt = []")
  case True
  with assms(1) show ?thesis by (simp add: z_add_def)
next
  case False
  have k: "key_ok ''Z''" by code_simp
  have v: "val_ok (Find_str_value i ''Z'')" by (rule Find_str_value_val_ok [OF assms(1) key_ok_cstr_ok [OF k]])
  have ok: "cstr_ok (opt_str opt)" using assms(2) False by (cases opt) auto
  let ?v = "f (opt_str opt) (Find_str_value i ''Z'')"
  have w: "val_ok (Some ?v)" "norm_val (Some ?v) = Some ?v" using f [OF False ok v] by (auto simp: norm_val_def split: list.splits)
  show ?thesis using False kv.put_inv [OF assms(1) k w(1)] kv.get_put_same [OF assms(1) k w(1)] w(2)
    by (simp add: z_add_def)
qed



end
