(* ===== verification/JobNumbers.thy ===== *)
theory JobNumbers
  imports JobName Frames
begin

section \<open>The number of a new job (lpd\_rcvjob.c)\<close>

text \<open>
  A job that arrives keeps its number if no job of the queue has it; otherwise
  \<open>Find\_non\_colliding\_job\_number\<close> counts up, and around at the largest number, until it finds a
  ticket file that is new or empty and that it can lock. The state of the ticket files is a function
  of their names. The theorem says which number is found, and that none is found only if all are taken.
\<close>

subsection \<open>The search\<close>

text \<open>
  What \<open>Checkwrite\<close>, \<open>Do\_lock\<close> and \<open>stat\<close> find out about a ticket file: it cannot be opened, it is
  locked by another process, or it has a size, which is 0 for a file that was just created.
\<close>

datatype hold_slot = Cannot_open | Locked_slot | Sized_slot nat

definition free_slot :: "hold_slot \<Rightarrow> bool" where
  "free_slot s \<longleftrightarrow> s = Sized_slot 0"

definition hold_name :: "cstr option \<Rightarrow> cstr" where
  "hold_name number = plp_snprintf SMALLBUFFER ''hfA%s'' [AStr number]"

definition search_max :: "job_env \<Rightarrow> int" where
  "search_max env = (if Long_number env then 1000000 else 1000)"

definition next_number :: "job_env \<Rightarrow> int \<Rightarrow> int" where
  "next_number env n = (if search_max env < n + 1 then 0 else n + 1)"

text \<open>The loop; \<open>None\<close> is a search that does not end.\<close>

partial_function (option) number_loop ::
  "job_env \<Rightarrow> (cstr \<Rightarrow> hold_slot) \<Rightarrow> int \<Rightarrow> int \<Rightarrow> job \<Rightarrow> (job \<times> bool) option" where
  "number_loop env slots start n j =
     (let j1 = fst (Fix_job_number env j n); f = hold_name (snd (Fix_job_number env j n)) in
      if free_slot (slots f) then Some (j1\<lparr>info := Set_str_value (info j1) HF_NAME (Some f)\<rparr>, True)
      else if next_number env n = start then Some (j1, False)
      else number_loop env slots start (next_number env n) j1)"

declare number_loop.simps [code]

definition Find_non_colliding_job_number :: "job_env \<Rightarrow> (cstr \<Rightarrow> hold_slot) \<Rightarrow> job \<Rightarrow> (job \<times> bool) option" where
  "Find_non_colliding_job_number env slots j =
     (case Fix_job_number env j 0 of
        (j1, number) \<Rightarrow>
          let start = to_int (fst (strtol (opt_str number) 10)) in number_loop env slots start start j1)"

subsection \<open>Numbers and names\<close>

definition number_text :: "job_env \<Rightarrow> int \<Rightarrow> cstr" where
  "number_text env n = padded 10 (nat (number_digits env)) (nat (n mod number_max env))"

definition slot_name :: "job_env \<Rightarrow> int \<Rightarrow> cstr" where
  "slot_name env n = ''hfA'' @ number_text env n"

lemma number_text_ok: "number_text env n \<noteq> []" "cstr_ok (number_text env n)" "length (number_text env n) \<le> 6"
  "\<forall>c\<in>set (number_text env n). \<not> iscntrl c"
proof -
  show "number_text env n \<noteq> []" "cstr_ok (number_text env n)" by (simp_all add: number_text_def cstr_ok_padded)
  have len: "length (padded 10 (Suc k) (nat (n mod 10 ^ Suc k))) = Suc k" for k
  proof (rule length_padded)
    show "nat (n mod 10 ^ Suc k) < 10 ^ Suc k"
      using pos_mod_bound [of "10 ^ Suc k" n] by (subst nat_less_iff) (auto simp del: power_Suc)
  qed simp
  show "length (number_text env n) \<le> 6"
    using number_width [of env] len [of 5] len [of 2] by (auto simp: number_text_def eval_nat_numeral)
  show "\<forall>c\<in>set (number_text env n). \<not> iscntrl c"
  proof
    fix c assume "c \<in> set (number_text env n)"
    then obtain d where "d < 10" "c = digit_char d"
      using padded_char [of 10 c "nat (number_digits env)" "nat (n mod number_max env)"] by (auto simp: number_text_def)
    then show "\<not> iscntrl c" using ccode_digit_char [of d] by (auto simp: iscntrl_def split: if_splits)
  qed
qed

text \<open>A job whose number is \<open>n\<close>, as the loop leaves it.\<close>

definition numbered :: "job_env \<Rightarrow> int \<Rightarrow> job \<Rightarrow> bool" where
  "numbered env n j \<longleftrightarrow> kv_inv (info j) \<and> Find_str_value (info j) NUMBER = Some (number_text env n)
     \<and> Find_decimal_value (info j) NUMBER = n mod number_max env"

lemma number_max_pos: "0 < number_max env" "number_max env dvd search_max env" "number_max env \<le> search_max env"
  "number_max env = 1000 \<or> number_max env = 1000000"
  by (auto simp: number_max_def search_max_def)

lemma number_text_mod [simp]: "number_text env (n mod number_max env) = number_text env n"
  by (simp add: number_text_def)

lemma slot_name_mod [simp]: "slot_name env (n mod number_max env) = slot_name env n"
  by (simp add: slot_name_def)

lemma Fix_numbered:
  assumes "kv_inv (info j)" "0 \<le> n" "n = 0 \<Longrightarrow> Find_decimal_value (info j) NUMBER mod number_max env = 0"
    and "n = 0 \<Longrightarrow> 0 \<le> Find_decimal_value (info j) NUMBER"
  shows "numbered env n (fst (Fix_job_number env j n))"
    "snd (Fix_job_number env j n) = Some (number_text env n)"
    "info (fst (Fix_job_number env j n)) = Set_str_value (info j) NUMBER (Some (number_text env n))"
proof -
  let ?m = "if n = 0 then Find_decimal_value (info j) NUMBER else n"
  have m: "0 \<le> ?m" "?m mod number_max env = n mod number_max env" using assms by auto
  have r: "0 \<le> n mod number_max env" "n mod number_max env \<le> INT_MAX"
    using number_max_pos [of env] pos_mod_sign [of "number_max env" n] pos_mod_bound [of "number_max env" n]
    by (auto simp: INT_MAX_def)
  have b: "plp_snprintf SMALLBUFFER ''%0*d'' [AInt (number_digits env), AInt (crem ?m (number_max env))] = number_text env n"
    using number_buffer [OF m(1), of env] m(2) by (simp add: number_text_def del: plp_snprintf_def)
  show i: "info (fst (Fix_job_number env j n)) = Set_str_value (info j) NUMBER (Some (number_text env n))"
    using b by (simp add: Fix_job_number_def Let_def del: plp_snprintf_def)
  have ok: "val_ok (Some (number_text env n))" "norm_val (Some (number_text env n)) = Some (number_text env n)"
    using number_text_ok [of env n] by (simp_all add: norm_val_def split: list.split)
  have g: "Find_str_value (Set_str_value (info j) NUMBER (Some (number_text env n))) NUMBER = Some (number_text env n)"
    "kv_inv (Set_str_value (info j) NUMBER (Some (number_text env n)))"
    using kv.get_put [OF assms(1) number_key(1) ok(1) number_key(1)] kv.put_inv [OF assms(1) number_key(1) ok(1)] ok(2) by auto
  have d: "Find_decimal_value (Set_str_value (info j) NUMBER (Some (number_text env n))) NUMBER = n mod number_max env"
    unfolding number_text_def by (rule Find_decimal_set [OF assms(1) number_key(1) r])
  show "numbered env n (fst (Fix_job_number env j n))" using i g d by (simp add: numbered_def)
  have "snd (Fix_job_number env j n) = Find_str_value (info (fst (Fix_job_number env j n))) NUMBER"
    by (simp add: Fix_job_number_def Let_def)
  with i g show "snd (Fix_job_number env j n) = Some (number_text env n)" by simp
qed

lemma hold_name_text: "hold_name (Some (number_text env n)) = slot_name env n"
proof -
  have v: "visible True (number_text env n) = number_text env n"
    using number_text_ok(4) by (intro visible_clean) auto
  have t: "dopr_text (\<lambda>_ _. []) [] True ''hfA%s'' [AStr (Some (number_text env n)) :: unit fmt_arg]
      = Some (slot_name env n)"
    by (simp add: fmt_eval v slot_name_def)
  show ?thesis
    using snprintf_text [OF t, of SMALLBUFFER] number_text_ok [of env n]
    by (simp add: hold_name_def SMALLBUFFER_def slot_name_def NUL_def)
qed

subsection \<open>Which number is found\<close>

text \<open>The numbers that were tried, beginning at \<open>start\<close>, before the loop comes to \<open>n\<close>.\<close>

definition tried :: "job_env \<Rightarrow> int \<Rightarrow> int \<Rightarrow> int \<Rightarrow> bool" where
  "tried env start n m \<longleftrightarrow>
     (if start \<le> n then start \<le> m \<and> m < n else start \<le> m \<and> m \<le> search_max env \<or> 0 \<le> m \<and> m < n)"

definition taken :: "job_env \<Rightarrow> (cstr \<Rightarrow> hold_slot) \<Rightarrow> int \<Rightarrow> bool" where
  "taken env slots n \<longleftrightarrow> \<not> free_slot (slots (slot_name env n))"

text \<open>\<open>k\<close> is the first free number from \<open>start\<close> on, going around at the largest one.\<close>

definition first_free :: "job_env \<Rightarrow> (cstr \<Rightarrow> hold_slot) \<Rightarrow> int \<Rightarrow> int \<Rightarrow> bool" where
  "first_free env slots start k \<longleftrightarrow> 0 \<le> k \<and> k < number_max env \<and> \<not> taken env slots k \<and>
     (if start \<le> k then \<forall>m. start \<le> m \<and> m < k \<longrightarrow> taken env slots m
      else \<forall>m. start \<le> m \<and> m < number_max env \<or> 0 \<le> m \<and> m < k \<longrightarrow> taken env slots m)"

lemma taken_mod [simp]: "taken env slots (n mod number_max env) = taken env slots n"
  by (simp add: taken_def)

lemma first_free_found:
  assumes "\<And>m. tried env start n m \<Longrightarrow> taken env slots m" "\<not> taken env slots n"
    and "0 \<le> start" "start < number_max env" "0 \<le> n" "n \<le> search_max env"
  shows "first_free env slots start (n mod number_max env)"
proof (cases "n < number_max env")
  case True
  then show ?thesis
    using assms number_max_pos(3) [of env]
    by (auto simp: first_free_def tried_def split: if_splits)
next
  case False
  let ?M = "number_max env"
  have t: "start \<le> m \<Longrightarrow> m < n \<Longrightarrow> taken env slots m" for m
    using assms(1) [of m] assms(4) False by (simp add: tried_def)
  have "\<not> start \<le> n - ?M"
    using t [of "n - ?M"] assms(2) number_max_pos(1) [of env]
      taken_mod [of env slots "n - ?M"] taken_mod [of env slots n] by (auto simp: mod_diff_right_eq [symmetric])
  then have k: "n mod ?M = n - ?M" "n - ?M < start"
    using False assms(4) number_max_pos(1) [of env] mod_pos_pos_trivial [of "n - ?M" ?M] by auto
  have "taken env slots m" if "0 \<le> m" "m < n - ?M" for m
    using t [of "m + ?M"] that assms(4) taken_mod [of env slots "m + ?M"] taken_mod [of env slots m] by simp
  with k t False assms(2) show ?thesis
    using assms(4) taken_mod [of env slots n] by (auto simp: first_free_def)
qed

lemma Fix_numbered_other:
  assumes "kv_inv (info j)" "val_ok v" "key_ok k" "fold_codes NUMBER \<noteq> fold_codes k"
  shows "Find_str_value (Set_str_value (info j) NUMBER v) k = Find_str_value (info j) k"
  using kv.get_put [OF assms(1) number_key(1) assms(2,3)] assms(4) by simp

text \<open>What the search returns: a free number and its ticket file, or the news that there is none.\<close>

definition search_result ::
  "job_env \<Rightarrow> (cstr \<Rightarrow> hold_slot) \<Rightarrow> int \<Rightarrow> job \<Rightarrow> (job \<times> bool) option \<Rightarrow> bool" where
  "search_result env slots start j r \<longleftrightarrow>
     (case r of
        None \<Rightarrow> False
      | Some (j', False) \<Rightarrow> \<forall>m. taken env slots m
      | Some (j', True) \<Rightarrow> \<exists>k. first_free env slots start k
          \<and> Find_str_value (info j') NUMBER = Some (number_text env k)
          \<and> Find_str_value (info j') HF_NAME = Some (slot_name env k)
          \<and> same_but {NUMBER, HF_NAME} (info j) (info j')
          \<and> datafiles j' = datafiles j \<and> destination j' = destination j)"

lemma all_taken:
  assumes "\<And>m. 0 \<le> m \<Longrightarrow> m \<le> search_max env \<Longrightarrow> taken env slots m"
  shows "taken env slots m"
proof -
  have "taken env slots (m mod number_max env)"
    using assms [of "m mod number_max env"] number_max_pos(1,3) [of env]
      pos_mod_sign [of "number_max env" m] pos_mod_bound [of "number_max env" m] by linarith
  then show ?thesis by simp
qed

lemma Fix_job_number_rest:
  "datafiles (fst (Fix_job_number env j n)) = datafiles j" "destination (fst (Fix_job_number env j n)) = destination j"
  by (simp_all add: Fix_job_number_def Let_def)

lemma same_but_number: "kv_inv l \<Longrightarrow> same_but {NUMBER} l (Set_str_value l NUMBER (Some (number_text env n)))"
  by (rule same_but_str) (simp_all add: number_text_ok)

lemma hf_codes [simp]: "fold_codes NUMBER \<noteq> fold_codes HF_NAME" "fold_codes HF_NAME \<noteq> fold_codes NUMBER"
  by (simp_all add: job_key_defs fold_codes_def tolower_def isupper_def ccode_def)

lemma number_loop_search:
  assumes "kv_inv (info j)" "0 \<le> start" "start < number_max env" "0 \<le> n" "n \<le> search_max env"
    and "n = 0 \<Longrightarrow> Find_decimal_value (info j) NUMBER = 0"
    and "\<And>m. tried env start n m \<Longrightarrow> taken env slots m"
  shows "search_result env slots start j (number_loop env slots start n j)"
  using assms
proof (induction "nat (if start \<le> n then search_max env + 1 - n + start else start - n)" arbitrary: n j rule: less_induct)
  case less
  let ?j1 = "fst (Fix_job_number env j n)"
  have fx: "numbered env n ?j1" "snd (Fix_job_number env j n) = Some (number_text env n)"
    "info ?j1 = Set_str_value (info j) NUMBER (Some (number_text env n))"
    using Fix_numbered [of j n env] less.prems by auto
  have s1: "same_but {NUMBER} (info j) (info ?j1)" using less.prems(1) by (simp add: fx(3) same_but_number)
  show ?case
  proof (cases "taken env slots n")
    case False
    let ?j2 = "?j1\<lparr>info := Set_str_value (info ?j1) HF_NAME (Some (slot_name env n))\<rparr>"
    have r: "number_loop env slots start n j = Some (?j2, True)"
      using False by (subst number_loop.simps) (simp add: fx(2) hold_name_text taken_def Let_def)
    have inv1: "kv_inv (info ?j1)" using fx(1) by (simp add: numbered_def)
    have ok: "val_ok (Some (slot_name env n))" by (simp add: slot_name_def number_text_ok NUL_def)
    have s2: "same_but {HF_NAME} (info ?j1) (info ?j2)" "Find_str_value (info ?j2) HF_NAME = Some (slot_name env n)"
      using same_but_str [OF inv1 _ ok, of HF_NAME] by (simp_all add: slot_name_def)
    have "Find_str_value (info ?j2) NUMBER = Some (number_text env n)"
      using same_but_get(1) [OF s2(1), of NUMBER] fx(1) by (simp add: numbered_def)
    moreover have "first_free env slots start (n mod number_max env)"
      by (rule first_free_found [OF less.prems(7) False less.prems(2-5)])
    moreover have "same_but {NUMBER, HF_NAME} (info j) (info ?j2)"
      using same_but_trans [OF s1 s2(1)] by (simp add: insert_commute)
    ultimately show ?thesis using s2(2)
      by (simp add: r search_result_def Fix_job_number_rest exI [of _ "n mod number_max env"])
  next
    case True
    let ?n = "next_number env n"
    have n: "0 \<le> ?n" "?n \<le> search_max env"
      using less.prems(4,5) number_max_pos(1,3) [of env] by (auto simp: next_number_def)
    have loop: "number_loop env slots start n j =
        (if ?n = start then Some (?j1, False) else number_loop env slots start ?n ?j1)"
      using True by (subst number_loop.simps) (simp add: fx(2) hold_name_text taken_def Let_def)
    have before: "tried env start n m \<or> m = n \<longleftrightarrow> (if ?n = start then 0 \<le> m \<and> m \<le> search_max env else tried env start ?n m)"
      if "0 \<le> m" for m
      using that less.prems(2-5) number_max_pos(3) [of env] by (auto simp: tried_def next_number_def)
    show ?thesis
    proof (cases "?n = start")
      case around: True
      have "taken env slots m" for m
        using all_taken [of env slots] before less.prems(7) True around by metis
      then show ?thesis using loop around by (auto simp: search_result_def)
    next
      case False
      have z: "?n = 0 \<Longrightarrow> Find_decimal_value (info ?j1) NUMBER = 0"
        using fx(1) less.prems(4,5) number_max_pos(2) [of env]
        by (auto simp: numbered_def next_number_def split: if_splits)
      have t: "taken env slots m" if "tried env start ?n m" for m
      proof -
        have "0 \<le> m" using that n(1) less.prems(2) by (auto simp: tried_def split: if_splits)
        with before [of m] that False less.prems(7) True show ?thesis by auto
      qed
      have "search_result env slots start ?j1 (number_loop env slots start ?n ?j1)"
      proof (rule less.hyps)
        show "nat (if start \<le> ?n then search_max env + 1 - ?n + start else start - ?n)
            < nat (if start \<le> n then search_max env + 1 - n + start else start - n)"
          using False less.prems(2-5) number_max_pos(3) [of env] by (auto simp: next_number_def)
        show "kv_inv (info ?j1)" using fx(1) by (simp add: numbered_def)
      qed (use less.prems(2,3) n z t in auto)
      moreover have "same_but {NUMBER, HF_NAME} (info ?j1) l \<Longrightarrow> same_but {NUMBER, HF_NAME} (info j) l" for l
        using same_but_trans [OF s1, of "{NUMBER, HF_NAME}" l] by (simp add: insert_commute)
      ultimately show ?thesis
        using loop False by (auto simp: search_result_def Fix_job_number_rest split: option.splits bool.splits)
    qed
  qed
qed

text \<open>
  C18: the search for a job number always ends. It finds the first number, from that of the job on and
  around at the largest one, whose ticket file is free, gives the job this number and the name of the
  file, and changes nothing else; it fails only if every ticket file of the queue is in use.
\<close>

theorem free_number_found:
  assumes "kv_inv (info j)" "0 \<le> Find_decimal_value (info j) NUMBER"
  shows "search_result env slots (Find_decimal_value (info j) NUMBER mod number_max env) j
    (Find_non_colliding_job_number env slots j)"
proof -
  let ?m = "Find_decimal_value (info j) NUMBER" and ?j1 = "fst (Fix_job_number env j 0)"
  let ?start = "?m mod number_max env"
  have b: "plp_snprintf SMALLBUFFER ''%0*d'' [AInt (number_digits env), AInt (crem ?m (number_max env))] = number_text env ?m"
    using number_buffer [OF assms(2), of env] by (simp add: number_text_def del: plp_snprintf_def)
  have i: "info ?j1 = Set_str_value (info j) NUMBER (Some (number_text env ?m))"
    "snd (Fix_job_number env j 0) = Find_str_value (info ?j1) NUMBER"
    using b by (simp_all add: Fix_job_number_def Let_def del: plp_snprintf_def)
  have st: "0 \<le> ?start" "?start < number_max env" "?start \<le> INT_MAX"
    using number_max_pos(1,4) [of env] pos_mod_bound [of "number_max env" ?m] by (auto simp: INT_MAX_def)
  have s1: "same_but {NUMBER} (info j) (info ?j1)" "Find_str_value (info ?j1) NUMBER = Some (number_text env ?m)"
    using same_but_str [OF assms(1), of NUMBER "Some (number_text env ?m)"] number_text_ok [of env ?m]
    by (simp_all add: i(1) norm_val_def split: list.splits)
  have d: "Find_decimal_value (info ?j1) NUMBER = ?start"
    unfolding i(1) number_text_def by (rule Find_decimal_set [OF assms(1) number_key(1) st(1,3)])
  have "to_int (fst (strtol (number_text env ?m) 10)) = ?start"
    using st by (simp add: number_text_def strtol_padded clamp_long_def to_int_def INT_MAX_def INT_MIN_def LONG_MAX_def LONG_MIN_def)
  then have "Find_non_colliding_job_number env slots j = number_loop env slots ?start ?start ?j1"
    using i(2) s1(2) by (auto simp: Find_non_colliding_job_number_def Let_def split: prod.split)
  moreover have "search_result env slots ?start ?j1 (number_loop env slots ?start ?start ?j1)"
    using order.trans [OF less_imp_le [OF st(2)] number_max_pos(3)] d
    by (intro number_loop_search) (auto simp: same_but_inv [OF s1(1)] st tried_def)
  moreover have "same_but {NUMBER, HF_NAME} (info ?j1) l \<Longrightarrow> same_but {NUMBER, HF_NAME} (info j) l" for l
    using same_but_trans [OF s1(1), of "{NUMBER, HF_NAME}" l] by (simp add: insert_commute)
  ultimately show ?thesis
    by (auto simp: search_result_def Fix_job_number_rest split: option.splits bool.splits)
qed

definition demo_new_job :: job where
  "demo_new_job = Init_job\<lparr>info := [''number=007'']\<rparr>"

definition demo_slots :: "cstr \<Rightarrow> hold_slot" where
  "demo_slots f = (if f = ''hfA007'' then Sized_slot 120 else if f = ''hfA008'' then Locked_slot else Sized_slot 0)"

lemma free_number_found_witness:
  "search_result demo_job_env demo_slots 7 demo_new_job
    (Find_non_colliding_job_number demo_job_env demo_slots demo_new_job)
   \<and> first_free demo_job_env demo_slots 7 9"
proof -
  have k: "kv_inv (info demo_new_job)" "Find_decimal_value (info demo_new_job) NUMBER = 7"
    "Find_decimal_value (info demo_new_job) NUMBER mod number_max demo_job_env = 7"
    by code_simp+
  have t: "taken demo_job_env demo_slots 7" "taken demo_job_env demo_slots 8" "\<not> taken demo_job_env demo_slots 9"
    by code_simp+
  have "m = 7 \<or> m = 8" if "7 \<le> m" "m < 9" for m :: int using that by arith
  with t have "first_free demo_job_env demo_slots 7 9"
    by (auto simp: first_free_def number_max_def)
  with free_number_found [OF k(1), of demo_job_env demo_slots] k(2,3) show ?thesis by simp
qed

text \<open>
  A name in the HP format gives a negative number, which the counting never comes back to: when every
  ticket file is taken the search does not end.
\<close>

lemma negative_number_spins:
  assumes "start < 0" "start \<le> n" "\<And>f. \<not> free_slot (slots f)"
  shows "number_loop env slots start n j = None"
proof -
  have "start < 0 \<longrightarrow> start \<le> n \<longrightarrow> (\<forall>f. \<not> free_slot (slots f)) \<longrightarrow> False" if "number_loop env slots start n j = Some y" for y
    by (rule number_loop.raw_induct [of "\<lambda>env slots start n j y. start < 0 \<longrightarrow> start \<le> n \<longrightarrow> (\<forall>f. \<not> free_slot (slots f)) \<longrightarrow> False",
          OF _ that])
      (auto simp: Let_def next_number_def split: if_splits)
  with assms show ?thesis by (cases "number_loop env slots start n j") auto
qed

end
