(* ===== verification/PlainStore.thy ===== *)
theory PlainStore
  imports JobState Frames
begin

section \<open>Stores that survive a file\<close>

text \<open>
  A store is written to a file as lines, and read back by \<open>Split\<close>, which trims lines and skips comments. A
  plain store is one whose lines this does not change. Setting a value keeps a store plain, and what
  is written for it reads as the same store.
\<close>

definition plain_value :: "cstr \<Rightarrow> cstr \<Rightarrow> bool" where
  "plain_value k v \<longleftrightarrow> cstr_ok v \<and> plain_line Line_ends (k @ CHR ''='' # v)"

definition plain_store :: "line_list \<Rightarrow> bool" where
  "plain_store d \<longleftrightarrow> kv_inv d \<and> (\<forall>s\<in>set d. plain_line Line_ends s)"

lemma plain_store_put:
  assumes "plain_store d" "key_ok k" "v \<noteq> [] \<Longrightarrow> plain_value k v"
  shows "plain_store (Set_str_value d k (Some v))"
proof -
  have v: "val_ok (Some v)" using assms(3) by (cases v) (auto simp: plain_value_def)
  have "kv_inv d" using assms(1) by (simp add: plain_store_def)
  from kv.put_inv [OF this assms(2) v] mem_Set_str_value [OF this assms(2) v] show ?thesis
    using assms(1,3) by (cases v) (fastforce simp: plain_store_def plain_value_def)+
qed

lemma flag_as_str:
  "flag_key k \<Longrightarrow> 0 \<le> n \<Longrightarrow> n \<le> INT_MAX \<Longrightarrow>
   Set_flag_value d k n = Set_str_value d k (Some (''0x'' @ nat_digits 16 (nat n)))"
  by (simp add: Set_flag_value_def snprintf_hex_value Set_str_value_def safestrdup3_def)

lemma digits_plain: "c \<in> set (nat_digits b n) \<Longrightarrow> 2 \<le> b \<Longrightarrow> b \<le> 16 \<Longrightarrow> c \<notin> set Line_ends \<and> \<not> isspace c"
proof -
  assume a: "c \<in> set (nat_digits b n)" "2 \<le> b" "b \<le> 16"
  from nat_digits_char [OF a(2,3,1)] obtain d where "d < b" "c = digit_char d" by blast
  with a(3) have d: "d < 16" "c = digit_char d" by simp_all
  then have "\<not> isspace c" using digit_char_props [of d] by simp
  moreover have "ccode c \<noteq> 10 \<and> ccode c \<noteq> 12 \<and> ccode c \<noteq> 4 \<and> ccode c \<noteq> 20"
    using ccode_digit_char [OF d(1)] d(2) by (auto split: if_splits)
  ultimately show ?thesis by (auto simp: Line_ends_def ccode_def)
qed

lemma plain_end:
  assumes "plain_line Line_ends k" "set t \<inter> set Line_ends = {}" "t \<noteq> []" "\<not> isspace (last t)"
  shows "plain_line Line_ends (k @ CHR ''='' # t)"
  using assms by (cases k) (auto simp: plain_line_def Line_ends_def)

lemma plain_number:
  assumes "plain_line Line_ends k" "set s \<inter> set Line_ends = {}" "2 \<le> b" "b \<le> 16"
  shows "plain_line Line_ends (k @ CHR ''='' # s @ nat_digits b n)"
  using digits_plain [OF _ assms(3,4), of _ n] nat_digits_nonempty [of b n] assms(2)
  by (intro plain_end [OF assms(1)]) auto

lemma plain_store_flag:
  assumes "plain_store d" "flag_key k" "plain_line Line_ends k" "0 \<le> n" "n \<le> INT_MAX"
  shows "plain_store (Set_flag_value d k n)"
proof -
  have "plain_value k (''0x'' @ nat_digits 16 (nat n))"
    using plain_number [OF assms(3), of "''0x''" 16 "nat n"] cstr_ok_nat_digits [of 16 "nat n"]
    by (auto simp: plain_value_def NUL_def Line_ends_def)
  with plain_store_put [OF assms(1), of k "''0x'' @ nat_digits 16 (nat n)"] assms(2,4,5) show ?thesis
    by (simp add: flag_as_str flag_key_ok)
qed

lemma plain_store_None:
  assumes "plain_store d" "key_ok k"
  shows "plain_store (Set_str_value d k None)"
proof -
  have "kv_inv d" using assms(1) by (simp add: plain_store_def)
  from kv.put_inv [OF this assms(2), of None] mem_Set_str_value [OF this assms(2), of None] show ?thesis
    using assms(1) by (fastforce simp: plain_store_def)
qed

definition store_image :: "line_list \<Rightarrow> cstr" where
  "store_image l = opt_str (Join_line_list l (Some [CHR 0x0A]))"

lemma plain_store_reread:
  assumes "plain_store d"
  shows "Get_spool_control (Some (store_image d)) = d"
proof (cases "d = []")
  case True
  then show ?thesis
    by (simp add: store_image_def Join_line_list_def Get_spool_control_def Get_fd_image_and_split_ticket_def read_lines_def Split.simps)
next
  case False
  have p: "\<forall>s\<in>set d. plain_line Line_ends s" "\<forall>s\<in>set d. s \<noteq> []"
    using assms by (auto simp: plain_store_def plain_line_def)
  have u: "ll_uniq fold_codes (Some Option_value_sep) ([] @ d)"
    using assms kv_inv_option_sep by (simp add: plain_store_def)
  show ?thesis
    using Split_unlines [OF newline_end(1) p(1) u] Join_unlines [OF False p(2)]
    by (simp add: store_image_def Get_spool_control_def Get_fd_image_and_split_ticket_def read_lines_def)
qed

end
