(* ===== verification/JobFilters.thy ===== *)
theory JobFilters
  imports JobServer PlainStore
begin

section \<open>The filters a received job goes through (lpd\_rcvjob.c)\<close>

text \<open>
  A job that has arrived can be shown to two programs of the administrator, with a control file that
  \<open>Generate\_control\_file\<close> makes from its values. \<open>Do\_incoming\_control\_filter\<close> lets the first one
  change the values, and \<open>Get\_route\<close> takes from the second one the destinations of the job. The programs
  are a parameter: a function from the control file to an exit status and an output. The lemmas
  show which values an output changes, what becomes of the documented form of a line, and
  that every routing entry with a destination is stored under its number.
\<close>

subsection \<open>The control file for the filters\<close>

definition control_line :: "cstr \<Rightarrow> bool" where
  "control_line s \<longleftrightarrow> 2 \<le> length s \<and> isupper (hd s) \<and> hd s \<notin> set ''NU'' \<and> s ! 1 = CHR ''=''"

definition value_lines :: "line_list \<Rightarrow> cstr" where
  "value_lines l = concat (map (\<lambda>s. hd s # drop 2 s @ [CHR 0x0A]) (filter control_line l))"

definition open_or_transfer :: "line_list \<Rightarrow> cstr option" where
  "open_or_transfer lp =
     (case Find_str_value lp DFTRANSFERNAME of None \<Rightarrow> Find_str_value lp OPENNAME | Some t \<Rightarrow> Some t)"

definition copy_lines :: "line_list \<Rightarrow> cstr" where
  "copy_lines lp =
     (case Find_str_value lp ''N'' of None \<Rightarrow> [] | Some n \<Rightarrow> ''N'' @ n @ [CHR 0x0A]) @
     concat (replicate (nat (Find_flag_value lp COPIES))
       (opt_str (Find_str_value lp FORMAT) @ opt_str (open_or_transfer lp) @ [CHR 0x0A]))"

text \<open>The list \<open>dups\<close> of the source stays empty, so that every data file has its own \<open>U\<close> line.\<close>

definition unlink_line :: "line_list \<Rightarrow> cstr" where
  "unlink_line lp = ''U'' @ opt_str (Find_str_value lp DFTRANSFERNAME) @ [CHR 0x0A]"

definition datafile_entry :: "line_list \<Rightarrow> cstr" where
  "datafile_entry lp =
     opt_str (Find_str_value lp DFTRANSFERNAME) @
     (case Find_str_value lp OPENNAME of None \<Rightarrow> [] | Some f \<Rightarrow> ''='' @ f) @ '' ''"

definition control_text :: "job \<Rightarrow> cstr" where
  "control_text j =
     value_lines (info j) @ concat (map copy_lines (datafiles j)) @ concat (map unlink_line (datafiles j))"

definition Generate_control_file :: "job \<Rightarrow> job" where
  "Generate_control_file j =
     (let i1 = Set_str_value (info j) DATAFILES (Some (concat (map datafile_entry (datafiles j))))
      in j\<lparr>info := Set_str_value i1 CF_OUT_IMAGE (Some (control_text j))\<rparr>)"

subsection \<open>The two filters\<close>

record filter_env =
  filter_run :: "cstr \<Rightarrow> int \<times> cstr"
  filter_now :: int
  filter_name :: cstr
  Server_status :: "int \<Rightarrow> cstr"
  filter_errlen :: int
  filter_errno :: cstr

text \<open>
  What the exit status means: an error with its message, or the job, on hold for \<open>JHOLD\<close>, and the
  lines of the output. A status that removes the job has no message; no output at all is an error.
\<close>

definition run_filter :: "filter_env \<Rightarrow> cstr \<Rightarrow> cstr \<Rightarrow> job \<Rightarrow> (int \<times> cstr) + (job \<times> line_list)" where
  "run_filter env fmt split_fmt j =
     (case filter_run env (opt_str (Find_str_value (info j) CF_OUT_IMAGE)) of
        (code, out) \<Rightarrow>
          if code = JREMOVE then Inl (JREMOVE, [])
          else if code \<noteq> 0 \<and> code \<noteq> JHOLD then
            Inl (JFAIL, plp_snprintf (filter_errlen env) fmt [AStr (Some (filter_name env)), AStr (Some (Server_status env code))])
          else if out = [] then Inl (JFAIL, plp_snprintf (filter_errlen env) split_fmt [AStr (Some (filter_errno env))])
          else Inr (if code = JHOLD then j\<lparr>info := Set_flag_value (info j) HOLD_TIME (filter_now env)\<rparr> else j,
                    Split [] out Line_ends False None False NUL False None))"

text \<open>
  A line of the incoming control filter. A line that begins with a capital letter or a digit and has no
  equals sign behind it loses the character there: \<open>*value++ = 0\<close> is meant for the sign. \<open>None\<close>: for
  a single letter this reads behind the end of the string.
\<close>

definition edit_value :: "cstr option \<Rightarrow> cstr option" where
  "edit_value v = (case v of None \<Rightarrow> None | Some s \<Rightarrow> if s = [] then None else Some s)"

definition edit_line :: "line_list \<Rightarrow> cstr \<Rightarrow> line_list option" where
  "edit_line i s =
     (let c = (if s = [] then NUL else hd s); v = strchr s (CHR ''='');
          key = (case v of None \<Rightarrow> s | Some t \<Rightarrow> take (length s - length t) s) in
      if isupper c \<or> isdigit c then
        (if take 1 (tl s) = ''='' then
           Some (if c \<noteq> CHR ''U'' \<and> c \<noteq> CHR ''N'' then Set_str_value i key (edit_value (map_option tl v)) else i)
         else if tl s = [] then None
         else Some (if c \<noteq> CHR ''U'' \<and> c \<noteq> CHR ''N'' then Set_str_value i [c] (edit_value (Some (tl (tl s)))) else i))
      else Some (Set_str_value i key (edit_value (map_option tl v))))"

fun edit_lines :: "line_list \<Rightarrow> line_list \<Rightarrow> line_list option" where
  "edit_lines [] i = Some i"
| "edit_lines (s # ss) i = Option.bind (edit_line i s) (edit_lines ss)"

definition Do_incoming_control_filter :: "filter_env \<Rightarrow> job \<Rightarrow> ((int \<times> cstr) + job) option" where
  "Do_incoming_control_filter env j =
     (case run_filter env
             (''Do_incoming_control_filter: incoming control filter '' @ [CHR 0x27] @ ''%s'' @ [CHR 0x27] @ '' failed '' @
              [CHR 0x27] @ ''%s'' @ [CHR 0x27])
             ''Do_incoming_control_filter: split failed - %s'' j of
        Inl e \<Rightarrow> Some (Inl e)
      | Inr (j1, ls) \<Rightarrow> map_option (\<lambda>i. Inr (j1\<lparr>info := i\<rparr>)) (edit_lines ls (info j1)))"

text \<open>
  The routing filter. A line that is not \<open>end\<close> sets a value of the current destination.
\<close>

definition route_line :: "line_list \<Rightarrow> cstr \<Rightarrow> line_list" where
  "route_line d s =
     (if s \<noteq> [] \<and> isupper (hd s) then Set_str_value d [hd s] (Some (tl s))
      else (case (case strpbrk s Hash_value_sep of None \<Rightarrow> strpbrk s Whitespace | Some t \<Rightarrow> Some t) of
              None \<Rightarrow> Set_str_value d s (Some [])
            | Some t \<Rightarrow> Set_str_value d (take (length s - length t) s) (Some (dropWhile isspace (tl t)))))"

text \<open>
  The destination that ends is stored under its number. Its identifier is that of the job with
  \<open>.n\<close>, printed into a buffer of \<open>room\<close> bytes: 2 within the loop, 32 behind it.
\<close>

definition end_route :: "int \<Rightarrow> cstr \<Rightarrow> int \<Rightarrow> job \<Rightarrow> (job \<times> int) option" where
  "end_route room ident cnt j =
     (if Find_str_value (destination j) DEST = None then Some (j\<lparr>destination := []\<rparr>, cnt)
      else
        (let d1 = Set_flag_value (destination j) DESTINATION cnt;
             d2 = (if Find_flag_value d1 COPIES < 0 then Set_flag_value d1 COPIES 0 else d1);
             d3 = Set_str_value d2 IDENTIFIER (Some (ident @ plp_snprintf room ''.%d'' [AInt (cnt + 1)]))
         in map_option (\<lambda>j1. (j1\<lparr>destination := []\<rparr>, cnt + 1)) (Update_destination (j\<lparr>destination := d3\<rparr>))))"

fun route_lines :: "cstr \<Rightarrow> line_list \<Rightarrow> int \<Rightarrow> job \<Rightarrow> (job \<times> int) option" where
  "route_lines ident [] cnt j = end_route 32 ident cnt j"
| "route_lines ident (s # ss) cnt j =
     (if safestrcasecmp (Some END) (Some s) \<noteq> 0
      then route_lines ident ss cnt (j\<lparr>destination := route_line (destination j) s\<rparr>)
      else Option.bind (end_route 2 ident cnt j) (\<lambda>(j1, n). route_lines ident ss n j1))"

definition Get_route :: "filter_env \<Rightarrow> job \<Rightarrow> ((int \<times> cstr) + job) option" where
  "Get_route env j =
     (case run_filter env
             (''Get_route: incoming control filter '' @ [CHR 0x27] @ ''%s'' @ [CHR 0x27] @ '' failed '' @
              [CHR 0x27] @ ''%s'' @ [CHR 0x27])
             ''Get_route: split failed - %s'' j of
        Inl e \<Rightarrow> Some (Inl e)
      | Inr (j1, ls) \<Rightarrow>
          (case Find_str_value (info j1) IDENTIFIER of
             Some (c # cs) \<Rightarrow>
               map_option (\<lambda>(j2, n). Inr (j2\<lparr>info := Set_flag_value (info j2) DESTINATIONS n\<rparr>))
                 (route_lines (c # cs) ls 0 (j1\<lparr>destination := []\<rparr>))
           | _ \<Rightarrow> Some (Inl (JFAIL, plp_snprintf (filter_errlen env) ''Get_route: split failed - %s'' [AStr (Some (filter_errno env))]))))"

subsection \<open>What the lines do\<close>

text \<open>The documented form of a line is not the one that works: the first letter of a new title is lost.\<close>

lemma edit_line_drops:
  "edit_line [''J=old''] ''Jtitle'' = Some [''J=itle'']"
  "edit_line [''J=old''] ''J=title'' = Some [''J=title'']"
  "edit_line [''J=old''] ''J'' = None"
  by code_simp+

text \<open>
  The buffer of two bytes within the loop only has room for the dot: all but the last of several
  destinations get an identifier that ends in a dot, without their number.
\<close>

lemma route_suffix:
  assumes "0 \<le> n" "n \<le> INT_MAX"
  shows "plp_snprintf 2 ''.%d'' [AInt n] = ''.''" "plp_snprintf 32 ''.%d'' [AInt n] = ''.'' @ dec_text n"
proof -
  have t: "dopr_text (\<lambda>_ _. []) [] True ''.%d'' [AInt n :: unit fmt_arg] = Some (''.'' @ dec_text n)"
    using assms by (simp add: fmt_eval fmtnum_dec INT_MAX_def)
  have c: "cstr_ok (''.'' @ dec_text n)" using cstr_ok_dec_text [of n] by (simp add: NUL_def)
  have "length (dec_text n) \<le> 11" using assms by (intro length_dec_text) (auto simp: INT_MIN_def)
  then show "plp_snprintf 2 ''.%d'' [AInt n] = ''.''" "plp_snprintf 32 ''.%d'' [AInt n] = ''.'' @ dec_text n"
    using snprintf_text [OF t _ c, of 2] snprintf_text [OF t _ c, of 32] by simp_all
qed

subsection \<open>Routing entries\<close>

text \<open>The key and the value a line stands for, and the values of an entry.\<close>

definition route_pair :: "cstr \<Rightarrow> cstr \<times> cstr" where
  "route_pair s =
     (if s \<noteq> [] \<and> isupper (hd s) then ([hd s], tl s)
      else (case (case strpbrk s Hash_value_sep of None \<Rightarrow> strpbrk s Whitespace | Some t \<Rightarrow> Some t) of
              None \<Rightarrow> (s, [])
            | Some t \<Rightarrow> (take (length s - length t) s, dropWhile isspace (tl t))))"

definition route_ok :: "cstr \<Rightarrow> bool" where
  "route_ok s \<longleftrightarrow> safestrcasecmp (Some END) (Some s) \<noteq> 0
     \<and> (case route_pair s of (k, v) \<Rightarrow> key_ok k \<and> (v \<noteq> [] \<longrightarrow> plain_value k v))"

definition entry_values :: "line_list \<Rightarrow> line_list" where
  "entry_values e = foldl route_line [] e"

definition named :: "line_list \<Rightarrow> bool" where
  "named e \<longleftrightarrow> Find_str_value (entry_values e) DEST \<noteq> None"

definition stored_values :: "int \<Rightarrow> cstr \<Rightarrow> int \<Rightarrow> line_list \<Rightarrow> line_list" where
  "stored_values room ident cnt e =
     (let d1 = Set_flag_value (entry_values e) DESTINATION cnt;
          d2 = (if Find_flag_value d1 COPIES < 0 then Set_flag_value d1 COPIES 0 else d1)
      in Set_str_value d2 IDENTIFIER (Some (ident @ plp_snprintf room ''.%d'' [AInt (cnt + 1)])))"

fun route_dests :: "cstr \<Rightarrow> int \<Rightarrow> line_list list \<Rightarrow> line_list \<Rightarrow> line_list list" where
  "route_dests ident cnt [] e = (if named e then [stored_values 32 ident cnt e] else [])"
| "route_dests ident cnt (e # es) l =
     (if named e then stored_values 2 ident cnt e # route_dests ident (cnt + 1) es l else route_dests ident cnt es l)"

lemma route_line_pair: "route_line d s = Set_str_value d (fst (route_pair s)) (Some (snd (route_pair s)))"
  by (simp add: route_line_def route_pair_def split: option.split)

lemma plain_store_lines: "plain_store d \<Longrightarrow> \<forall>s\<in>set e. route_ok s \<Longrightarrow> plain_store (foldl route_line d e)"
proof (induction e arbitrary: d)
  case (Cons s e)
  have "plain_store (route_line d s)"
    using Cons.prems by (auto simp: route_line_pair route_ok_def split: prod.splits intro!: plain_store_put)
  with Cons show ?case by simp
qed simp

lemma entry_values_ok: "\<forall>s\<in>set e. route_ok s \<Longrightarrow> plain_store (entry_values e)"
  using plain_store_lines [of "[]" e] by (simp add: entry_values_def plain_store_def)

lemma route_entry:
  "\<forall>s\<in>set e. route_ok s \<Longrightarrow>
   route_lines ident (e @ rest) cnt j = route_lines ident rest cnt (j\<lparr>destination := foldl route_line (destination j) e\<rparr>)"
  by (induction e arbitrary: j) (auto simp: route_ok_def)

lemma plain_keys: "plain_line Line_ends DESTINATION" "plain_line Line_ends COPIES" "plain_line Line_ends IDENTIFIER"
  by code_simp+

definition ident_ok :: "cstr \<Rightarrow> bool" where
  "ident_ok s \<longleftrightarrow> s \<noteq> [] \<and> cstr_ok s \<and> set s \<inter> set Line_ends = {}"

lemma stored_values_ok:
  assumes "\<forall>s\<in>set e. route_ok s" "ident_ok ident" "0 \<le> cnt" "cnt < INT_MAX" "room = 2 \<or> room = 32"
  shows "plain_store (stored_values room ident cnt e)"
    "Find_flag_value (stored_values room ident cnt e) DESTINATION = cnt"
    "stored_values room ident cnt e \<noteq> []"
proof -
  let ?d1 = "Set_flag_value (entry_values e) DESTINATION cnt"
  let ?d2 = "if Find_flag_value ?d1 COPIES < 0 then Set_flag_value ?d1 COPIES 0 else ?d1"
  let ?s = "plp_snprintf room ''.%d'' [AInt (cnt + 1)]"
  have d1: "plain_store ?d1" "Find_flag_value ?d1 DESTINATION = cnt"
    using plain_store_flag [OF entry_values_ok [OF assms(1)], of DESTINATION cnt] plain_keys assms(3,4)
      same_but_flag(2) [of "entry_values e" DESTINATION cnt] entry_values_ok [OF assms(1)]
    by (simp_all add: plain_store_def)
  have i: "kv_inv ?d1" using d1(1) by (simp add: plain_store_def)
  have d2: "plain_store ?d2" "Find_flag_value ?d2 DESTINATION = cnt"
    using plain_store_flag [OF d1(1), of COPIES 0] plain_keys d1 same_but_get(2) [OF same_but_flag(1) [OF i], of COPIES 0 DESTINATION]
    by (auto simp: INT_MAX_def)
  have s: "?s = ''.'' \<or> ?s = ''.'' @ dec_text (cnt + 1)" using route_suffix [of "cnt + 1"] assms(3-5) by auto
  have dot: "\<not> isspace (CHR ''.'')" by code_simp
  have pv: "plain_value IDENTIFIER (ident @ ?s)"
    using s
  proof
    assume "?s = ''.''"
    then show ?thesis
      using plain_end [OF plain_keys(3), of "ident @ ''.''"] assms(2) dot
      by (simp add: plain_value_def ident_ok_def NUL_def Line_ends_def)
  next
    assume "?s = ''.'' @ dec_text (cnt + 1)"
    then show ?thesis
      using plain_number [OF plain_keys(3), of "ident @ ''.''" 10 "nat (cnt + 1)"] assms(2,3) cstr_ok_dec_text [of "cnt + 1"]
      by (simp add: plain_value_def ident_ok_def NUL_def Line_ends_def dec_text_def)
  qed
  have v: "val_ok (Some (ident @ ?s))" using pv by (simp add: plain_value_def)
  have j: "kv_inv ?d2" using d2(1) by (simp add: plain_store_def)
  note g = same_but_str [OF j number_key(4) v]
  show "plain_store (stored_values room ident cnt e)"
    using plain_store_put [OF d2(1) number_key(4), of "ident @ ?s"] pv by (simp add: stored_values_def Let_def)
  show "Find_flag_value (stored_values room ident cnt e) DESTINATION = cnt"
    using same_but_get(2) [OF g(1), of DESTINATION] d2(2) by (simp add: stored_values_def Let_def)
  have none: "Find_str_value [] IDENTIFIER = None" by code_simp
  have "Find_str_value (stored_values room ident cnt e) IDENTIFIER \<noteq> None"
    using g(2) s assms(2) by (cases ident) (auto simp: stored_values_def Let_def ident_ok_def)
  then show "stored_values room ident cnt e \<noteq> []" using none by auto
qed

lemma dest_key_inject:
  assumes "0 \<le> m" "m \<le> INT_MAX" "0 \<le> n" "n \<le> INT_MAX"
  shows "fold_codes (dest_key m) = fold_codes (dest_key n) \<longleftrightarrow> m = n"
proof
  have lower: "fold_codes (nat_digits 10 k) = codes (nat_digits 10 k)" for k
    unfolding fold_codes_def codes_def
  proof (rule map_cong [OF refl])
    fix c assume "c \<in> set (nat_digits 10 k)"
    from nat_digits_char [OF _ _ this] obtain d where "d < 10" "c = digit_char d" by auto
    then show "ccode (tolower c) = ccode c" using ccode_digit_char [of d] by (simp add: tolower_def isupper_def)
  qed
  assume "fold_codes (dest_key m) = fold_codes (dest_key n)"
  then have "fold_codes (nat_digits 10 (nat m)) = fold_codes (nat_digits 10 (nat n))"
    using dest_key_text [OF assms(1,2)] dest_key_text [OF assms(3,4)] by (simp add: fold_codes_def)
  then have "nat_digits 10 (nat m) = nat_digits 10 (nat n)" by (simp add: lower)
  then have "int (nat m) = int (nat n)" 
    using digits_value_nat_digits [of 10 "nat m"] digits_value_nat_digits [of 10 "nat n"] by simp
  with assms(1,3) show "m = n" by simp
qed simp

text \<open>A destination that ends is stored under its number, and only there.\<close>

lemma end_route_named:
  assumes "kv_inv (info j)" "\<forall>s\<in>set e. route_ok s" "ident_ok ident" "0 \<le> cnt" "cnt < INT_MAX" "room = 2 \<or> room = 32"
    and "named e" "destination j = entry_values e"
  shows "\<exists>i. end_route room ident cnt j = Some (j\<lparr>info := i, destination := []\<rparr>, cnt + 1) \<and> kv_inv i
    \<and> (\<exists>t. Find_str_value i (dest_key cnt) = Some t \<and> read_lines [] (Unescape t) = stored_values room ident cnt e)
    \<and> (\<forall>k. key_ok k \<longrightarrow> fold_codes k \<noteq> fold_codes (dest_key cnt) \<longrightarrow> Find_str_value i k = Find_str_value (info j) k)"
proof -
  let ?d = "stored_values room ident cnt e"
  note d = stored_values_ok [OF assms(2-6)]
  have u: "ll_uniq fold_codes (Some Option_value_sep) ?d" "\<forall>s\<in>set ?d. plain_line Line_ends s"
    using d(1) kv_inv_option_sep(1) by (auto simp: plain_store_def)
  from update_get [of "j\<lparr>destination := ?d\<rparr>", OF _ u d(3)] d(2) assms(1,4)
  obtain j' where j': "Update_destination (j\<lparr>destination := ?d\<rparr>) = Some j'" "kv_inv (info j')"
    "Get_destination j' cnt = (j', 0)"
    "\<forall>k. key_ok k \<longrightarrow> fold_codes k \<noteq> fold_codes (dest_key cnt) \<longrightarrow> Find_str_value (info j') k = Find_str_value (info j) k"
    by auto
  have e: "j' = j\<lparr>destination := ?d, info := info j'\<rparr>"
    using j'(1) by (auto simp: Update_destination_def split: option.splits)
  then have dd: "destination j' = ?d" by (metis job.ext_inject job.surjective job.update_convs(2,4) job.select_convs(4))
  have "\<exists>t. Find_str_value (info j') (dest_key cnt) = Some t \<and> read_lines [] (Unescape t) = ?d"
    using j'(3) dd by (auto simp: Get_destination_def read_destination_def split: option.splits dest: arg_cong [where f = destination])
  moreover have "j'\<lparr>destination := []\<rparr> = j\<lparr>info := info j', destination := []\<rparr>" using e by (cases j; cases j') simp
  then have "end_route room ident cnt j = Some (j\<lparr>info := info j', destination := []\<rparr>, cnt + 1)"
    using j'(1) assms(7,8) by (simp add: end_route_def named_def stored_values_def Let_def)
  ultimately show ?thesis using j'(2,4) by blast
qed

text \<open>What the loop has done when it has stored the destinations \<open>ds\<close> from number \<open>cnt\<close> on.\<close>

definition routes_done :: "job \<Rightarrow> int \<Rightarrow> line_list list \<Rightarrow> job \<Rightarrow> bool" where
  "routes_done j cnt ds j' \<longleftrightarrow> kv_inv (info j') \<and> datafiles j' = datafiles j \<and> destination j' = []
     \<and> (\<forall>i<length ds. \<exists>t. Find_str_value (info j') (dest_key (cnt + int i)) = Some t \<and> read_lines [] (Unescape t) = ds ! i)
     \<and> (\<forall>k. key_ok k \<longrightarrow> (\<forall>i<length ds. fold_codes k \<noteq> fold_codes (dest_key (cnt + int i))) \<longrightarrow>
          Find_str_value (info j') k = Find_str_value (info j) k)"

lemma routes_done_Cons:
  assumes "routes_done j cnt [d] j1" "routes_done j1 (cnt + 1) ds j'" "0 \<le> cnt" "cnt + int (length ds) < INT_MAX"
  shows "routes_done j cnt (d # ds) j'"
proof -
  have "\<exists>t. Find_str_value (info j') (dest_key (cnt + int i)) = Some t \<and> read_lines [] (Unescape t) = (d # ds) ! i"
    if "i < length (d # ds)" for i
  proof (cases i)
    case 0
    have "fold_codes (dest_key cnt) \<noteq> fold_codes (dest_key (cnt + 1 + int i))" if "i < length ds" for i
      using that assms(3,4) by (subst dest_key_inject) auto
    moreover have "key_ok (dest_key cnt)" using assms(3,4) by (intro dest_key_ok) auto
    ultimately have "Find_str_value (info j') (dest_key cnt) = Find_str_value (info j1) (dest_key cnt)"
      using assms(2) by (simp add: routes_done_def)
    with 0 assms(1) show ?thesis by (simp add: routes_done_def)
  next
    case (Suc n)
    with that assms(2) show ?thesis by (auto simp: routes_done_def add.assoc)
  qed
  moreover have "Find_str_value (info j') k = Find_str_value (info j) k"
    if k: "key_ok k" "\<forall>i<length (d # ds). fold_codes k \<noteq> fold_codes (dest_key (cnt + int i))" for k
  proof -
    have "\<forall>i<length ds. fold_codes k \<noteq> fold_codes (dest_key (cnt + 1 + int i))"
      using k(2) by (metis Suc_less_eq add.assoc length_Cons of_nat_Suc)
    with k assms(1,2) show ?thesis by (auto simp: routes_done_def)
  qed
  ultimately show ?thesis using assms(1,2) by (auto simp: routes_done_def)
qed

lemma end_route_done:
  assumes "kv_inv (info j)" "\<forall>s\<in>set e. route_ok s" "ident_ok ident" "0 \<le> cnt" "cnt < INT_MAX" "room = 2 \<or> room = 32"
    and "destination j = entry_values e"
  shows "\<exists>j'. end_route room ident cnt j = Some (j', if named e then cnt + 1 else cnt)
    \<and> routes_done j cnt (if named e then [stored_values room ident cnt e] else []) j'"
proof (cases "named e")
  case True
  from end_route_named [OF assms(1-6) True assms(7)] True show ?thesis by (fastforce simp: routes_done_def)
next
  case False
  with assms(1,7) show ?thesis by (auto simp: end_route_def named_def routes_done_def)
qed

lemma routes_done_Nil: "routes_done j cnt [] j1 \<Longrightarrow> routes_done j1 cnt ds j' \<Longrightarrow> routes_done j cnt ds j'"
  by (auto simp: routes_done_def)

lemma routes_done_start: "routes_done (j\<lparr>destination := d\<rparr>) cnt ds j' \<longleftrightarrow> routes_done j cnt ds j'"
  by (simp add: routes_done_def)

lemma route_lines_done:
  assumes "\<forall>e\<in>set (l # es). \<forall>s\<in>set e. route_ok s" "ident_ok ident"
    and "kv_inv (info j)" "destination j = []" "0 \<le> cnt" "cnt + int (length es) < INT_MAX"
  shows "\<exists>j'. route_lines ident (concat (map (\<lambda>e. e @ [END]) es) @ l) cnt j =
      Some (j', cnt + int (length (route_dests ident cnt es l)))
    \<and> routes_done j cnt (route_dests ident cnt es l) j'"
  using assms
proof (induction es arbitrary: j cnt)
  case Nil
  have l: "route_lines ident (l @ []) cnt j = end_route 32 ident cnt (j\<lparr>destination := entry_values l\<rparr>)"
    using route_entry [of l ident "[]" cnt j] Nil.prems(1,4) by (simp add: entry_values_def)
  from end_route_done [of "j\<lparr>destination := entry_values l\<rparr>" l ident cnt 32] Nil.prems l show ?case
    by (auto simp: routes_done_start)
next
  case (Cons e es)
  have len: "length (route_dests ident n es l) \<le> Suc (length es)" for n
    by (induction es arbitrary: n) (auto intro: le_SucI)
  have e: "\<forall>s\<in>set e. route_ok s" using Cons.prems(1) by simp
  have refl: "safestrcasecmp (Some END) (Some END) = 0" by code_simp
  have l: "route_lines ident (concat (map (\<lambda>e. e @ [END]) (e # es)) @ l) cnt j =
      Option.bind (end_route 2 ident cnt (j\<lparr>destination := entry_values e\<rparr>))
        (\<lambda>(j1, n). route_lines ident (concat (map (\<lambda>e. e @ [END]) es) @ l) n j1)"
    using route_entry [OF e, of ident "END # concat (map (\<lambda>e. e @ [END]) es) @ l" cnt j] Cons.prems(4) refl
    by (simp add: entry_values_def)
  from end_route_done [OF _ e Cons.prems(2,5), of "j\<lparr>destination := entry_values e\<rparr>" 2] Cons.prems
  obtain j1 where j1: "end_route 2 ident cnt (j\<lparr>destination := entry_values e\<rparr>) = Some (j1, if named e then cnt + 1 else cnt)"
    "routes_done j cnt (if named e then [stored_values 2 ident cnt e] else []) j1"
    by (auto simp: routes_done_start)
  let ?n = "if named e then cnt + 1 else cnt"
  have i: "kv_inv (info j1)" "destination j1 = []" using j1(2) by (simp_all add: routes_done_def)
  have n: "0 \<le> ?n" "?n + int (length es) < INT_MAX" using Cons.prems(5,6) by auto
  have "\<forall>e\<in>set (l # es). \<forall>s\<in>set e. route_ok s" using Cons.prems(1) by simp
  from Cons.IH [OF this Cons.prems(2) i n]
  obtain j' where j': "route_lines ident (concat (map (\<lambda>e. e @ [END]) es) @ l) ?n j1 =
      Some (j', ?n + int (length (route_dests ident ?n es l)))"
    "routes_done j1 ?n (route_dests ident ?n es l) j'" by blast
  show ?case
  proof (cases "named e")
    case True
    have "cnt + int (length (route_dests ident (cnt + 1) es l)) < INT_MAX"
      using len [of "cnt + 1"] Cons.prems(6) by simp
    from routes_done_Cons [OF _ _ Cons.prems(5) this] j1(2) j'(2) True
    have "routes_done j cnt (stored_values 2 ident cnt e # route_dests ident (cnt + 1) es l) j'" by simp
    moreover have "route_lines ident (concat (map (\<lambda>e. e @ [END]) (e # es)) @ l) cnt j =
        Some (j', cnt + int (length (route_dests ident cnt (e # es) l)))"
      unfolding l j1(1) using j'(1) True by simp
    ultimately show ?thesis using True by auto
  next
    case False
    have "route_lines ident (concat (map (\<lambda>e. e @ [END]) (e # es)) @ l) cnt j =
        Some (j', cnt + int (length (route_dests ident cnt (e # es) l)))"
      unfolding l j1(1) using j'(1) False by simp
    moreover have "routes_done j cnt (route_dests ident cnt (e # es) l) j'"
      using routes_done_Nil [of j cnt j1] j1(2) j'(2) False by simp
    ultimately show ?thesis by blast
  qed
qed

definition demo_filter :: "cstr \<Rightarrow> filter_env" where
  "demo_filter out = \<lparr>filter_run = (\<lambda>_. (0, out)), filter_now = 1000, filter_name = ''/bin/route'',
     Server_status = (\<lambda>_. ''JFAIL''), filter_errlen = SMALLBUFFER, filter_errno = ''ok''\<rparr>"

text \<open>
  C24: every routing entry with a destination becomes a destination of the job: the entries are
  numbered from 0 in the order of the output, their values can be read back under their number,
  \<open>DESTINATIONS\<close> is their count, and no other value of the job changes. An entry without \<open>dest\<close> is
  left out, and the last one need not be closed.
\<close>

theorem routes_stored:
  assumes "filter_run env (opt_str (Find_str_value (info j) CF_OUT_IMAGE)) = (0, out)" "out \<noteq> []"
    and "Split [] out Line_ends False None False NUL False None = concat (map (\<lambda>e. e @ [END]) es) @ l"
    and "\<forall>e\<in>set (l # es). \<forall>s\<in>set e. route_ok s" "int (length es) < INT_MAX"
    and "kv_inv (info j)" "Find_str_value (info j) IDENTIFIER = Some ident" "ident_ok ident"
  shows "\<exists>j'. Get_route env j = Some (Inr j') \<and> kv_inv (info j') \<and> datafiles j' = datafiles j
    \<and> Find_flag_value (info j') DESTINATIONS = int (length (route_dests ident 0 es l))
    \<and> (\<forall>i<length (route_dests ident 0 es l).
         Get_destination j' (int i) = (j'\<lparr>destination := route_dests ident 0 es l ! i\<rparr>, 0))
    \<and> (\<forall>k. key_ok k \<longrightarrow> fold_codes k \<notin> fold_codes ` insert DESTINATIONS (dest_key ` {0..<int (length (route_dests ident 0 es l))}) \<longrightarrow>
         Find_str_value (info j') k = Find_str_value (info j) k)"
proof -
  let ?ds = "route_dests ident 0 es l"
  have len: "length (route_dests ident n es l) \<le> Suc (length es)" for n
    by (induction es arbitrary: n) (auto intro: le_SucI)
  from route_lines_done [OF assms(4,8), of "j\<lparr>destination := []\<rparr>" 0] assms(5,6)
  obtain j1 where j1: "route_lines ident (concat (map (\<lambda>e. e @ [END]) es) @ l) 0 (j\<lparr>destination := []\<rparr>) = Some (j1, int (length ?ds))"
    "routes_done j 0 ?ds j1" by (auto simp: routes_done_start)
  let ?j = "j1\<lparr>info := Set_flag_value (info j1) DESTINATIONS (int (length ?ds))\<rparr>"
  have n: "int (length ?ds) \<le> INT_MAX" using len [of 0] assms(5) by linarith
  have i1: "kv_inv (info j1)" using j1(2) by (simp add: routes_done_def)
  note g = same_but_flag [OF i1, of DESTINATIONS "int (length ?ds)", simplified, OF n]
  obtain c cs where c: "ident = c # cs" using assms(8) by (cases ident) (auto simp: ident_ok_def)
  have r: "Get_route env j = Some (Inr ?j)"
    using assms(1,2,3,7) j1(1) by (simp add: Get_route_def run_filter_def JREMOVE_def JHOLD_def c)
  have "Get_destination ?j (int i) = (?j\<lparr>destination := ?ds ! i\<rparr>, 0)" if "i < length ?ds" for i
  proof -
    have b: "0 \<le> int i" "int i \<le> INT_MAX" using that n by auto
    from j1(2) that obtain t where "Find_str_value (info j1) (dest_key (int i)) = Some t" "read_lines [] (Unescape t) = ?ds ! i"
      by (auto simp: routes_done_def)
    with same_but_get(1) [OF g(1) dest_key_ok [OF b]] dest_key_neq(5) [OF b] show ?thesis
      by (simp add: Get_destination_def read_destination_def)
  qed
  moreover have "Find_str_value (info ?j) k = Find_str_value (info j) k"
    if "key_ok k" "fold_codes k \<notin> fold_codes ` insert DESTINATIONS (dest_key ` {0..<int (length ?ds)})" for k
  proof -
    have "Find_str_value (info ?j) k = Find_str_value (info j1) k"
      using same_but_get(1) [OF g(1) that(1)] that(2) by auto
    moreover have "\<forall>i<length ?ds. fold_codes k \<noteq> fold_codes (dest_key (0 + int i))" using that(2) by force
    ultimately show ?thesis using j1(2) that(1) by (simp add: routes_done_def)
  qed
  ultimately show ?thesis using r g j1(2) by (auto simp: routes_done_def same_but_inv)
qed

definition demo_routed_job :: job where
  "demo_routed_job = Init_job\<lparr>info := [''A=ann@h+7'']\<rparr>"

lemma routes_stored_witness:
  "\<exists>j'. Get_route (demo_filter (''dest t1'' @ [CHR 0x0A] @ ''end'' @ [CHR 0x0A] @ ''copies=3'' @ [CHR 0x0A] @ ''end'' @ [CHR 0x0A]
      @ ''dest t2'' @ [CHR 0x0A] @ ''CZ'')) demo_routed_job = Some (Inr j')
    \<and> Find_flag_value (info j') DESTINATIONS = 2
    \<and> Find_str_value (destination (fst (Get_destination j' 1))) ''C'' = Some ''Z''"
proof -
  let ?out = "''dest t1'' @ [CHR 0x0A] @ ''end'' @ [CHR 0x0A] @ ''copies=3'' @ [CHR 0x0A] @ ''end'' @ [CHR 0x0A]
      @ ''dest t2'' @ [CHR 0x0A] @ ''CZ''"
  let ?es = "[[''dest t1''], [''copies=3'']]" and ?l = "[''dest t2'', ''CZ'']" and ?id = "''ann@h+7''"
  have a: "filter_run (demo_filter ?out) (opt_str (Find_str_value (info demo_routed_job) CF_OUT_IMAGE)) = (0, ?out)"
    "?out \<noteq> []" by (simp_all add: demo_filter_def)
  have b: "Split [] ?out Line_ends False None False NUL False None = concat (map (\<lambda>e. e @ [END]) ?es) @ ?l"
    "\<forall>e\<in>set (?l # ?es). \<forall>s\<in>set e. route_ok s" by code_simp+
  have c: "int (length ?es) < INT_MAX" by (simp add: INT_MAX_def)
  have d: "kv_inv (info demo_routed_job)" "Find_str_value (info demo_routed_job) IDENTIFIER = Some ?id" by code_simp+
  have o: "ident_ok ?id" by (simp add: ident_ok_def Line_ends_def NUL_def)
  have nm: "named [''dest t1'']" "\<not> named [''copies=3'']" "named [''dest t2'', ''CZ'']" by code_simp+
  let ?d = "\<lambda>i. stored_values (if i = 0 then 2 else 32) ?id i (if i = 0 then [''dest t1''] else ?l)"
  have e: "route_dests ?id 0 ?es ?l = [?d 0, ?d 1]" by (simp add: nm)
  have f: "Find_str_value (?d 1) ''C'' = Some ''Z''"
    by (simp add: stored_values_def route_suffix INT_MAX_def) code_simp
  from routes_stored [OF a b c d o] obtain j' where j': "Get_route (demo_filter ?out) demo_routed_job = Some (Inr j')"
    "Find_flag_value (info j') DESTINATIONS = int (length [?d 0, ?d 1])"
    "\<forall>i<length [?d 0, ?d 1]. Get_destination j' (int i) = (j'\<lparr>destination := [?d 0, ?d 1] ! i\<rparr>, 0)"
    unfolding e by blast
  from j'(3) [rule_format, of 1] have "destination (fst (Get_destination j' 1)) = ?d 1" by simp
  with j'(1,2) f show ?thesis by auto
qed

end
