(* ===== verification/JobReceive.thy ===== *)
theory JobReceive
  imports JobNumbers JobFilters FilterArgs DataFiles Permission
begin

section \<open>Receiving a job (lpd\_rcvjob.c)\<close>

text \<open>
  A client sends a control file and data files, in any order, each announced by a line with its length
  and name. The files are stored under temporary names; when all are there
  \<open>Check\_for\_missing\_files\<close> checks the permission, fills in the values of the job, renames the
  data files and writes the job ticket. This theory models the processing of a complete job and the
  set-up of its ticket; the protocol is in \<open>JobProtocol\<close>.
  The spool directory is a map from names to contents. Lengths are integers: the code keeps them
  in doubles, which are exact up to two to the 53rd. \<open>None\<close> is a read or write outside of an object, or
  a search that does not end.
\<close>

subsection \<open>Environment and state\<close>

record rcv_env =
  r_job :: job_env
  r_server :: sv_env
  r_names :: fc_env
  r_z :: z_env
  r_args :: fd_env
  r_perm_env :: perm_env
  r_perm_fuel :: nat
  r_perms :: line_list
  r_check :: perm_check
  r_host_of :: "cstr \<Rightarrow> host_information option"
  r_remote :: host_information
  r_remote_fqdn :: cstr
  r_remote_addr :: cstr
  r_usec :: int
  r_pid :: int
  User_is_authuser :: bool
  Accounting_namefixup :: "cstr option"
  Force_IPADDR_hostname :: bool
  Force_FQDN_hostname :: bool
  Auto_hold :: bool
  Xlate_incoming_format :: "cstr option"
  Incoming_control_filter :: "filter_env option"
  Routing_filter :: "filter_env option"
  r_spool_control :: line_list
  Lpq_status_file :: "cstr option"
  r_garbled :: "cstr \<Rightarrow> cstr \<Rightarrow> cstr"
  r_locked :: "cstr \<Rightarrow> bool"
  r_may_open :: "cstr \<Rightarrow> bool"
  r_rename_ok :: "cstr \<Rightarrow> cstr \<Rightarrow> bool"
  r_errno :: cstr
  r_errlen :: int

type_synonym disk = "cstr \<Rightarrow> cstr option"

record rcv_state =
  rs_job :: job
  rs_disk :: disk
  rs_queue_name :: "cstr option"

abbreviation upd_rinfo :: "(line_list \<Rightarrow> line_list) \<Rightarrow> rcv_state \<Rightarrow> rcv_state" where
  "upd_rinfo f st \<equiv> st\<lparr>rs_job := (rs_job st)\<lparr>info := f (info (rs_job st))\<rparr>\<rparr>"

abbreviation rinfo :: "rcv_state \<Rightarrow> line_list" where "rinfo st \<equiv> info (rs_job st)"

definition unlink :: "cstr option \<Rightarrow> disk \<Rightarrow> disk" where
  "unlink f d = (case f of None \<Rightarrow> d | Some n \<Rightarrow> d(n := None))"

subsection \<open>Space and permission\<close>

definition ACK_SUCCESS :: int where "ACK_SUCCESS = 0"
definition ACK_STOP_Q :: int where "ACK_STOP_Q = 1"
definition ACK_RETRY :: int where "ACK_RETRY = 2"
definition ACK_FAIL :: int where "ACK_FAIL = 3"

text \<open>The job size is in bytes, \<open>min_space\<close> in K, and \<open>space\<close> the bytes of the file system.\<close>

definition Check_space :: "int \<Rightarrow> int \<Rightarrow> int \<Rightarrow> bool" where
  "Check_space jobsize min_space space \<longleftrightarrow> jobsize + 1023 + 1024 * min_space < space"

definition job_check :: "rcv_env \<Rightarrow> line_list \<Rightarrow> perm_check" where
  "job_check env i =
     (r_check env)\<lparr>service := CHR ''R'', printer := Printer_name (r_names env),
       user := Find_str_value i LOGNAME, remoteuser := Find_str_value i LOGNAME,
       host := Option.bind (Find_str_value i FROMHOST) (r_host_of env), remotehost := Some (r_remote env)\<rparr>"

text \<open>The verdict, and the message of a rejection.\<close>

definition Do_perm_check :: "rcv_env \<Rightarrow> line_list \<Rightarrow> (int \<times> cstr option) option" where
  "Do_perm_check env i =
     (case Perms_check (r_perm_env env) (r_perm_fuel env) (Some (r_perms env)) (Some (job_check env i)) (Some i) True of
        None \<Rightarrow> None
      | Some p \<Rightarrow>
          Some (p, if p = P_REJECT then
                     Some (plp_snprintf (r_errlen env) ''%s: no permission to print'' [AStr (Printer_name (r_names env))])
                   else None))"

subsection \<open>The ticket of a job\<close>

definition ticket_state :: "job \<Rightarrow> server_state" where
  "ticket_state j = \<lparr>ss_job = j, ss_ticket = None, ss_files = [], ss_done_count = 0, ss_done_time = 0,
     ss_control = [], ss_control_file = [], ss_mail = []\<rparr>"

text \<open>An empty image leaves an empty file.\<close>

definition write_ticket :: "rcv_env \<Rightarrow> rcv_state \<Rightarrow> rcv_state option" where
  "write_ticket env st =
     (case Set_job_ticket_file (r_server env) (ticket_state (rs_job st)) of
        None \<Rightarrow> None
      | Some s \<Rightarrow>
          Some (st\<lparr>rs_job := ss_job s,
                   rs_disk := unlink (Lpq_status_file env)
                     ((rs_disk st)(opt_str (Find_str_value (info (ss_job s)) HF_NAME) := Some (opt_str (ss_ticket s))))\<rparr>))"

definition ticket_slots :: "rcv_env \<Rightarrow> disk \<Rightarrow> cstr \<Rightarrow> hold_slot" where
  "ticket_slots env d f =
     (if \<not> r_may_open env f then Cannot_open else if r_locked env f then Locked_slot
      else Sized_slot (length (opt_str (d f))))"

definition create_ticket :: "rcv_state \<Rightarrow> job \<Rightarrow> rcv_state" where
  "create_ticket st j =
     st\<lparr>rs_job := j, rs_disk := (rs_disk st)(opt_str (Find_str_value (info j) HF_NAME) := Some [])\<rparr>"

definition cf_env :: "rcv_env \<Rightarrow> disk \<Rightarrow> job_env" where
  "cf_env env d = (r_job env)\<lparr>ticket_file := d\<rparr>"

definition mark_incoming :: "rcv_env \<Rightarrow> job \<Rightarrow> job" where
  "mark_incoming env j =
     j\<lparr>info := Set_flag_value (Set_flag_value (info j) INCOMING_TIME (now (r_job env))) INCOMING_PID (r_pid env)\<rparr>"

text \<open>The result is the state, and the message if the queue is full.\<close>

definition Setup_temporary_job_ticket_file ::
  "rcv_env \<Rightarrow> cstr option \<Rightarrow> bool \<Rightarrow> cstr option \<Rightarrow> rcv_state \<Rightarrow> (rcv_state \<times> cstr option) option" where
  "Setup_temporary_job_ticket_file env filename read_cf cf_text st =
     (let j1 = (case filename of None \<Rightarrow> rs_job st
                | Some f \<Rightarrow> fst (Check_format (r_job env) (r_garbled env) CONTROL_FILE f (rs_job st))) in
      case Find_non_colliding_job_number (r_job env) (ticket_slots env (rs_disk st)) j1 of
        None \<Rightarrow> None
      | Some (j2, False) \<Rightarrow>
          Some (st\<lparr>rs_job := j2\<rparr>,
                Some (plp_snprintf (r_errlen env) ''Maximum number of jobs in queue. Delete some and retry'' []))
      | Some (j2, True) \<Rightarrow>
          (let st1 = create_ticket st j2;
               j3 = fst (Set_job_ticket_from_cf_info (cf_env env (rs_disk st1)) j2 cf_text read_cf);
               j4 = fst (Make_identifier j3) in
           case Check_for_hold (r_job env) j4 (r_spool_control env) of
             None \<Rightarrow> None
           | Some j5 \<Rightarrow>
               map_option (\<lambda>st2. (st2, None)) (write_ticket env (st1\<lparr>rs_job := mark_incoming env j5\<rparr>))))"

subsection \<open>The values of a received job\<close>

definition stamp_job :: "rcv_env \<Rightarrow> line_list \<Rightarrow> line_list" where
  "stamp_job env i =
     (let i1 = Set_flag_value i JOB_TIME (now (r_job env));
          i2 = Set_flag_value i1 JOB_TIME_USEC (r_usec env) in
      if Find_str_value i2 REMOTEHOST = None then
        Set_flag_value
          (Set_flag_value (Set_str_value i2 REMOTEHOST (fqdn (r_remote env))) UNIXSOCKET
             (if unix_socket (r_check env) then 1 else 0))
          REMOTEPORT (port (r_check env))
      else i2)"

definition nonempty :: "cstr option \<Rightarrow> bool" where
  "nonempty s \<longleftrightarrow> s \<noteq> None \<and> s \<noteq> Some []"

definition copy_present :: "line_list \<Rightarrow> cstr \<Rightarrow> cstr \<Rightarrow> line_list \<Rightarrow> line_list" where
  "copy_present header from to i =
     (let s = Find_str_value header from in if nonempty s then Set_str_value i to s else i)"

definition auth_values :: "rcv_env \<Rightarrow> line_list option \<Rightarrow> line_list \<Rightarrow> line_list" where
  "auth_values env header_info i =
     (case header_info of
        None \<Rightarrow> i
      | Some h \<Rightarrow>
          let i1 = foldl (\<lambda>i k. copy_present h k k i) i [AUTH, AUTHCA, AUTHFROM, AUTHTYPE] in
          if User_is_authuser env then copy_present h AUTHUSER LOGNAME i1 else i1)"

definition auth_result :: "line_list option \<Rightarrow> line_list \<Rightarrow> line_list" where
  "auth_result header_info i =
     (case header_info of
        None \<Rightarrow> i
      | Some h \<Rightarrow>
          let from = Find_str_value h AUTHFROM; u = Find_str_value h AUTHUSER;
              i1 = Set_str_value i AUTHUSER (if nonempty u then u else from);
              i2 = Set_str_value i1 AUTHFROM from;
              i3 = Set_str_value i2 AUTHTYPE (Find_str_value h AUTHTYPE)
          in Set_str_value i3 AUTHCA (Find_str_value h AUTHCA))"

definition fix_fromhost :: "rcv_env \<Rightarrow> line_list \<Rightarrow> line_list" where
  "fix_fromhost env i =
     (let f = Find_str_value i FROMHOST in
      if f = None \<or> Is_clean_name f \<noteq> None then Set_str_value i FROMHOST (Some (r_remote_fqdn env)) else i)"

text \<open>
  The accounting name: the first entry of \<open>hosts=users;...\<close> whose hosts match the sender decides, and
  the first of its users that is not empty after the expansion is the name.
\<close>

fun accounting_name :: "rcv_env \<Rightarrow> line_list \<Rightarrow> line_list \<Rightarrow> cstr option option" where
  "accounting_name env i [] = Some None"
| "accounting_name env i (s # ss) =
     (let t = strpbrk s ''=''; hosts = (case t of None \<Rightarrow> s | Some r \<Rightarrow> take (length s - length r) s) in
      case Match_ipaddr_value (net (r_perm_env env)) (r_perm_fuel env)
             (Split [] hosts '','' False None False NUL False None) (Some (r_remote env)) of
        None \<Rightarrow> None
      | Some True \<Rightarrow> accounting_name env i ss
      | Some False \<Rightarrow>
          map_option (\<lambda>us. case us of [] \<Rightarrow> None | u # _ \<Rightarrow> Some u)
            (Fix_dollars ((r_args env)\<lparr>fd_info := Some i\<rparr>) False [] 0
               (case t of None \<Rightarrow> [] | Some r \<Rightarrow> Split [] (tl r) '','' False None False NUL False None)))"

definition fix_accounting :: "rcv_env \<Rightarrow> line_list \<Rightarrow> line_list option" where
  "fix_accounting env i =
     (case Accounting_namefixup env of
        None \<Rightarrow> Some i
      | Some s \<Rightarrow>
          map_option (\<lambda>a. if nonempty a then Set_str_value i ACCNTNAME a else i)
            (accounting_name env i (Split [] s '';'' False None False NUL False None)))"

definition force_hostname :: "rcv_env \<Rightarrow> line_list \<Rightarrow> line_list" where
  "force_hostname env i =
     (let i1 = (if Force_IPADDR_hostname env then Set_str_value i FROMHOST (Some (r_remote_addr env)) else i);
          f = opt_str (Find_str_value i1 FROMHOST) in
      if Force_FQDN_hostname env \<and> strchr f (CHR ''.'') = None then
        (case strchr (r_remote_fqdn env) (CHR ''.'') of
           None \<Rightarrow> i1
         | Some t \<Rightarrow> Set_str_value i1 FROMHOST (Some (safestrdup2 (Some f) (Some t))))
      else i1)"

text \<open>The name of the queue in the job, and the variable of the process that changes with it.\<close>

definition queue_name :: "rcv_env \<Rightarrow> cstr option \<Rightarrow> line_list \<Rightarrow> line_list \<times> cstr option" where
  "queue_name env q i =
     (if (Use_queuename (r_names env) \<or> Force_queuename (r_names env) \<noteq> None) \<and> Find_str_value i QUEUENAME = None then
        (let s = (case Force_queuename (r_names env) of
                    Some f \<Rightarrow> Some f
                  | None \<Rightarrow> (case q of Some n \<Rightarrow> Some n | None \<Rightarrow> Printer_name (r_names env)))
         in (Set_str_value i QUEUENAME s, s))
      else (i, q))"

definition fix_date :: "rcv_env \<Rightarrow> line_list \<Rightarrow> line_list" where
  "fix_date env i = (if Find_str_value i DATE = None then Set_str_value i DATE (Some (time_str (r_names env))) else i)"

definition hold_new :: "rcv_env \<Rightarrow> line_list \<Rightarrow> line_list" where
  "hold_new env i =
     Set_flag_value i HOLD_TIME (if Hld_all (r_spool_control env) \<noteq> 0 \<or> Auto_hold env then now (r_job env) else 0)"

definition fix_file_hostname :: "rcv_env \<Rightarrow> line_list \<Rightarrow> line_list" where
  "fix_file_hostname env i =
     (let h0 = Find_str_value i FROMHOST;
          h1 = (if nonempty h0 then opt_str h0 else if r_remote_fqdn env \<noteq> [] then r_remote_fqdn env else FQDNHost (r_names env))
      in Set_str_value i FILE_HOSTNAME
           (Some (if h1 \<noteq> [] \<and> isdigit (hd h1) then safestrdup2 (Some ''ADDR'') (Some h1) else h1)))"

subsection \<open>The data files of a received job\<close>

text \<open>\<open>Set_double_value\<close> with the format \<open>%0.0f\<close>, for a double that holds an integer.\<close>

definition Set_double_value :: "line_list \<Rightarrow> cstr \<Rightarrow> int \<Rightarrow> line_list" where
  "Set_double_value l k n = Add_line_list l (k @ CHR ''='' # dec_text n) (Some Hash_value_sep) True True"

text \<open>A control file without data files gets those that were received.\<close>

definition plain_datafile :: "cstr \<Rightarrow> line_list" where
  "plain_datafile s =
     Set_flag_value
       (Set_str_value (Set_str_value [] OTRANSFERNAME (Some (takeWhile (\<lambda>c. c \<noteq> CHR ''='') s))) FORMAT (Some ''f''))
       COPIES 1"

definition add_received :: "line_list \<Rightarrow> job \<Rightarrow> job" where
  "add_received files j = (if datafiles j = [] then j\<lparr>datafiles := map plain_datafile files\<rparr> else j)"

text \<open>
  The loop over the data files of the job: their open names and sizes, the size of the job, and the
  received files that were found. On an error the files before it keep what they were given.
\<close>

fun find_files ::
  "rcv_env \<Rightarrow> disk \<Rightarrow> line_list \<Rightarrow> line_list list \<Rightarrow> line_list \<Rightarrow> int \<Rightarrow> line_list list \<times> line_list \<times> int \<times> cstr option" where
  "find_files env d files [] found sz = ([], found, sz, None)"
| "find_files env d files (lp # lps) found sz =
     (let name = Find_str_value lp OTRANSFERNAME in
      case Option.bind name (\<lambda>n. Find_casekey_str_value files n (Some Hash_value_sep)) of
        None \<Rightarrow> (lp # lps, found, sz,
                 Some (plp_snprintf (r_errlen env) (''missing data file '' @ [CHR 0x27] @ ''%s'' @ [CHR 0x27]) [AStr name]))
      | Some opn \<Rightarrow>
          (let lp1 = Set_str_value lp OPENNAME (Some opn);
               found1 = Set_casekey_str_value found (opt_str name) (Some opn) in
           case d opn of
             None \<Rightarrow> (lp1 # lps, found1, sz,
                      Some (plp_snprintf (r_errlen env) (''stat() '' @ [CHR 0x27] @ ''%s'' @ [CHR 0x27] @ '' error - %s'')
                              [AStr (Some opn), AStr (Some (r_errno env))]))
           | Some content \<Rightarrow>
               (let c0 = Find_flag_value lp1 COPIES; n = int (length content);
                    lp2 = Set_double_value lp1 SIZE n in
                case find_files env d files lps found1 (sz + (if c0 = 0 then 1 else c0) * n) of
                  (r, f, z, e) \<Rightarrow> (lp2 # r, f, z, e))))"

text \<open>\<open>rename\<close> for each data file whose open name is still there; the first failure ends the loop.\<close>

fun rename_files :: "rcv_env \<Rightarrow> line_list list \<Rightarrow> disk \<Rightarrow> disk \<times> cstr option" where
  "rename_files env [] d = (d, None)"
| "rename_files env (lp # lps) d =
     (case Option.bind (Find_str_value lp OPENNAME) d of
        None \<Rightarrow> rename_files env lps d
      | Some content \<Rightarrow>
          (let opn = opt_str (Find_str_value lp OPENNAME) in
           case Find_str_value lp DFTRANSFERNAME of
             Some t \<Rightarrow>
               if r_rename_ok env opn t then rename_files env lps ((d(opn := None))(t := Some content))
               else (d, Some (plp_snprintf (r_errlen env)
                      (''error renaming '' @ [CHR 0x27] @ ''%s'' @ [CHR 0x27] @ '' to '' @ [CHR 0x27] @ ''%s'' @ [CHR 0x27] @ '' - %s'')
                      [AStr (Some opn), AStr (Some t), AStr (Some (r_errno env))]))
           | None \<Rightarrow> (d, Some (plp_snprintf (r_errlen env)
                      (''error renaming '' @ [CHR 0x27] @ ''%s'' @ [CHR 0x27] @ '' to '' @ [CHR 0x27] @ ''%s'' @ [CHR 0x27] @ '' - %s'')
                      [AStr (Some opn), AStr None, AStr (Some (r_errno env))]))))"

definition remove_received :: "job \<Rightarrow> disk \<Rightarrow> disk" where
  "remove_received j d =
     unlink (Find_str_value (info j) HF_NAME)
       (foldl (\<lambda>d lp. unlink (Find_str_value lp OPENNAME) (unlink (Find_str_value lp DFTRANSFERNAME) d))
          (unlink (Find_str_value (info j) OPENNAME) d) (datafiles j))"

subsection \<open>Check\_for\_missing\_files\<close>

text \<open>
  A step gives the new state and, for a failure, its message, which can be empty. \<open>then_step\<close> is the
  sequence of two steps, of which the second one is only done after the success of the first.
\<close>

type_synonym rcv_result = "(rcv_state \<times> cstr option) option"

definition then_step :: "rcv_result \<Rightarrow> (rcv_state \<Rightarrow> rcv_result) \<Rightarrow> rcv_result" where
  "then_step r f = (case r of None \<Rightarrow> None | Some (st, None) \<Rightarrow> f st | Some (st, Some e) \<Rightarrow> Some (st, Some e))"

definition identify_job :: "rcv_env \<Rightarrow> line_list option \<Rightarrow> job \<Rightarrow> job" where
  "identify_job env header_info j =
     (let j1 = fst (Make_identifier (j\<lparr>info := auth_values env header_info (stamp_job env (info j))\<rparr>))
      in j1\<lparr>info := auth_result header_info (fix_fromhost env (info j1))\<rparr>)"

definition check_job :: "rcv_env \<Rightarrow> rcv_state \<Rightarrow> rcv_result" where
  "check_job env st = map_option (\<lambda>(p, msg). (st, msg)) (Do_perm_check env (rinfo st))"

definition fix_job :: "rcv_env \<Rightarrow> rcv_state \<Rightarrow> rcv_result" where
  "fix_job env st =
     (case fix_accounting env (rinfo st) of
        None \<Rightarrow> None
      | Some i1 \<Rightarrow>
          (case queue_name env (rs_queue_name st) (fix_date env (force_hostname env i1)) of
             (i2, q) \<Rightarrow>
               map_option (\<lambda>i3. (st\<lparr>rs_job := (rs_job st)\<lparr>info := i3\<rparr>, rs_queue_name := q\<rparr>, None))
                 (Fix_Z_opts (r_z env) (fix_file_hostname env (hold_new env i2)))))"

definition check_files :: "rcv_env \<Rightarrow> line_list \<Rightarrow> rcv_state \<Rightarrow> rcv_result" where
  "check_files env files st =
     (let j0 = add_received files (rs_job st) in
      case find_files env (rs_disk st) files (datafiles j0) [] 0 of
        (lps, found, sz, Some e) \<Rightarrow> Some (st\<lparr>rs_job := j0\<lparr>datafiles := lps\<rparr>\<rparr>, Some e)
      | (lps, found, sz, None) \<Rightarrow>
          let j1 = j0\<lparr>datafiles := lps, info := Set_double_value (info j0) SIZE sz\<rparr> in
          if length files \<noteq> length found then
            Some (st\<lparr>rs_job := j1\<rparr>, Some (plp_snprintf (r_errlen env) ''too many data files'' []))
          else
            map_option (\<lambda>(j2, _). (st\<lparr>rs_job := j2\<rparr>, None))
              (Fix_datafile_infox (r_job env) j1 (Find_str_value (info j1) NUMBER) (Find_str_value (info j1) FILE_HOSTNAME)
                 (Xlate_incoming_format env) True))"

definition clear_incoming :: "line_list \<Rightarrow> line_list" where
  "clear_incoming i = Set_str_value (Set_str_value (Set_str_value i HPFORMAT None) INCOMING_TIME None) INCOMING_PID None"

definition run_on_job :: "(job \<Rightarrow> ((int \<times> cstr) + job) option) \<Rightarrow> rcv_state \<Rightarrow> rcv_result" where
  "run_on_job f st =
     (case f (Generate_control_file (rs_job st)) of
        None \<Rightarrow> None
      | Some (Inl (code, msg)) \<Rightarrow> Some (st\<lparr>rs_job := Generate_control_file (rs_job st)\<rparr>, Some msg)
      | Some (Inr j) \<Rightarrow> Some (st\<lparr>rs_job := j\<rparr>, None))"

definition filter_job :: "rcv_env \<Rightarrow> rcv_state \<Rightarrow> rcv_result" where
  "filter_job env st =
     then_step
       (case Incoming_control_filter env of
          None \<Rightarrow> Some (upd_rinfo clear_incoming st, None)
        | Some f \<Rightarrow> run_on_job (Do_incoming_control_filter f) (upd_rinfo clear_incoming st))
       (\<lambda>st1. case Routing_filter env of None \<Rightarrow> Some (st1, None) | Some f \<Rightarrow> run_on_job (Get_route f) st1)"

definition store_job :: "rcv_env \<Rightarrow> rcv_state \<Rightarrow> rcv_result" where
  "store_job env st =
     (case rename_files env (datafiles (rs_job st)) (rs_disk st) of
        (d, Some e) \<Rightarrow> Some (st\<lparr>rs_disk := d\<rparr>, Some e)
      | (d, None) \<Rightarrow> map_option (\<lambda>st1. (st1, None)) (write_ticket env (st\<lparr>rs_disk := d\<rparr>)))"

definition process_job :: "rcv_env \<Rightarrow> line_list \<Rightarrow> line_list option \<Rightarrow> rcv_state \<Rightarrow> rcv_result" where
  "process_job env files header_info st =
     then_step (check_job env (st\<lparr>rs_job := identify_job env header_info (rs_job st)\<rparr>))
       (\<lambda>st1. then_step (fix_job env st1)
         (\<lambda>st2. then_step (check_files env files st2)
           (\<lambda>st3. then_step (filter_job env st3) (store_job env))))"

definition Check_for_missing_files :: "rcv_env \<Rightarrow> line_list \<Rightarrow> line_list option \<Rightarrow> rcv_state \<Rightarrow> rcv_result" where
  "Check_for_missing_files env files header_info st =
     (case process_job env files header_info st of
        None \<Rightarrow> None
      | Some (st1, None) \<Rightarrow> Some (st1, None)
      | Some (st1, Some e) \<Rightarrow> Some (st1\<lparr>rs_disk := remove_received (rs_job st1) (rs_disk st1)\<rparr>, Some e))"

subsection \<open>All or nothing\<close>

text \<open>The names a job has in the spool directory: those that \<open>remove_received\<close> removes.\<close>

definition received_names :: "job \<Rightarrow> cstr set" where
  "received_names j =
     {n. Find_str_value (info j) HF_NAME = Some n \<or> Find_str_value (info j) OPENNAME = Some n
       \<or> (\<exists>lp\<in>set (datafiles j). Find_str_value lp OPENNAME = Some n \<or> Find_str_value lp DFTRANSFERNAME = Some n)}"

lemma unlink_apply: "unlink f d n = (if f = Some n then None else d n)"
  by (simp add: unlink_def split: option.split)

lemma unlink_files:
  "foldl (\<lambda>d lp. unlink (Find_str_value lp OPENNAME) (unlink (Find_str_value lp DFTRANSFERNAME) d)) d lps n =
   (if \<exists>lp\<in>set lps. Find_str_value lp OPENNAME = Some n \<or> Find_str_value lp DFTRANSFERNAME = Some n then None else d n)"
  by (induction lps arbitrary: d) (auto simp: unlink_apply)

lemma remove_received_apply: "remove_received j d n = (if n \<in> received_names j then None else d n)"
  by (simp add: remove_received_def unlink_apply unlink_files received_names_def)

lemma rename_files_names:
  "rename_files env lps d = (d', e) \<Longrightarrow>
   d' n = d n \<or> (\<exists>lp\<in>set lps. Find_str_value lp OPENNAME = Some n \<or> Find_str_value lp DFTRANSFERNAME = Some n)"
proof (induction lps arbitrary: d)
  case (Cons lp lps)
  show ?case
  proof (cases "Option.bind (Find_str_value lp OPENNAME) d")
    case None
    with Cons.IH [of d] Cons.prems show ?thesis by auto
  next
    case (Some content)
    let ?o = "opt_str (Find_str_value lp OPENNAME)"
    show ?thesis
    proof (cases "Find_str_value lp DFTRANSFERNAME")
      case None
      with Some Cons.prems show ?thesis by (auto simp: Let_def)
    next
      case t: (Some t)
      show ?thesis
      proof (cases "r_rename_ok env ?o t")
        case False
        with Some t Cons.prems show ?thesis by (auto simp: Let_def)
      next
        case True
        with Some t Cons.prems have "rename_files env lps ((d(?o := None))(t := Some content)) = (d', e)"
          by (simp add: Let_def)
        from Cons.IH [OF this] t Some show ?thesis by (auto split: if_splits bind_splits)
      qed
    qed
  qed
qed simp

lemma then_step_success: "then_step r f = Some (st', None) \<longleftrightarrow> (\<exists>st. r = Some (st, None) \<and> f st = Some (st', None))"
  by (auto simp: then_step_def split: option.splits)

lemma then_step_failure:
  "then_step r f = Some (st', Some e) \<longleftrightarrow>
   r = Some (st', Some e) \<or> (\<exists>st. r = Some (st, None) \<and> f st = Some (st', Some e))"
  by (auto simp: then_step_def split: option.splits)

text \<open>Only \<open>store_job\<close> changes the directory.\<close>

lemma steps_disk:
  "check_job env st = Some (st', e) \<Longrightarrow> st' = st"
  "fix_job env st = Some (st', e) \<Longrightarrow> rs_disk st' = rs_disk st"
  "check_files env files st = Some (st', e) \<Longrightarrow> rs_disk st' = rs_disk st"
  "run_on_job f st = Some (st', e) \<Longrightarrow> rs_disk st' = rs_disk st"
  by (auto simp: check_job_def fix_job_def check_files_def run_on_job_def Let_def
      split: option.splits prod.splits if_splits sum.splits)

lemma filter_job_disk:
  assumes "filter_job env st = Some (st', e)"
  shows "rs_disk st' = rs_disk st"
proof -
  have "rs_disk st1 = rs_disk st"
    if "(case Incoming_control_filter env of None \<Rightarrow> Some (upd_rinfo clear_incoming st, None)
        | Some f \<Rightarrow> run_on_job (Do_incoming_control_filter f) (upd_rinfo clear_incoming st)) = Some (st1, e1)" for st1 e1
    using that steps_disk(4) by (fastforce split: option.splits)
  moreover have "rs_disk st2 = rs_disk st1"
    if "(case Routing_filter env of None \<Rightarrow> Some (st1, None) | Some f \<Rightarrow> run_on_job (Get_route f) st1) = Some (st2, e2)" for st1 st2 e2
    using that steps_disk(4) by (fastforce split: option.splits)
  ultimately show ?thesis using assms
    by (cases e) (fastforce simp: filter_job_def then_step_success then_step_failure)+
qed

lemma store_job_failure:
  assumes "store_job env st = Some (st', Some e)"
  shows "rs_job st' = rs_job st"
    "\<forall>n. rs_disk st' n = rs_disk st n \<or> n \<in> received_names (rs_job st)"
proof -
  obtain d e' where r: "rename_files env (datafiles (rs_job st)) (rs_disk st) = (d, Some e')" "st' = st\<lparr>rs_disk := d\<rparr>"
    using assms by (auto simp: store_job_def split: prod.splits option.splits)
  then show "rs_job st' = rs_job st" by simp
  have "d n = rs_disk st n \<or> n \<in> received_names (rs_job st)" for n
    using rename_files_names [OF r(1), of n] by (auto simp: received_names_def)
  with r(2) show "\<forall>n. rs_disk st' n = rs_disk st n \<or> n \<in> received_names (rs_job st)"
    by simp
qed

lemma process_job_failure:
  assumes "process_job env files header_info st = Some (st', Some e)"
  shows "rs_disk st' n = rs_disk st n \<or> n \<in> received_names (rs_job st')"
  using assms unfolding process_job_def then_step_failure
proof (elim disjE exE conjE)
  fix st1 st2 st3 st4
  assume a: "check_job env (st\<lparr>rs_job := identify_job env header_info (rs_job st)\<rparr>) = Some (st1, None)"
    "fix_job env st1 = Some (st2, None)" "check_files env files st2 = Some (st3, None)"
    "filter_job env st3 = Some (st4, None)" "store_job env st4 = Some (st', Some e)"
  then have "rs_disk st4 = rs_disk st" using steps_disk filter_job_disk by fastforce
  with store_job_failure [OF a(5)] show ?thesis by auto
qed (use steps_disk filter_job_disk in fastforce)+

text \<open>A data file that was received: its name is in the list of received files, under a name in the directory.\<close>

definition file_received :: "disk \<Rightarrow> line_list \<Rightarrow> line_list \<Rightarrow> bool" where
  "file_received d files lp \<longleftrightarrow>
     (\<exists>n opn. Find_str_value lp OTRANSFERNAME = Some n \<and> Find_casekey_str_value files n (Some Hash_value_sep) = Some opn
        \<and> d opn \<noteq> None)"

lemma find_files_received:
  "find_files env d files lps found sz = (lps', found', sz', None) \<Longrightarrow> list_all (file_received d files) lps"
  by (induction lps arbitrary: lps' found sz)
    (auto simp: file_received_def Let_def bind_eq_Some_conv split: option.splits prod.splits)

lemma identify_datafiles: "datafiles (identify_job env h j) = datafiles j"
  by (simp add: identify_job_def Make_identifier_def Let_def split: option.split)

lemma fix_job_datafiles: "fix_job env st = Some (st', e) \<Longrightarrow> datafiles (rs_job st') = datafiles (rs_job st)"
  by (auto simp: fix_job_def split: option.splits prod.splits)

lemma check_files_received:
  assumes "check_files env files st = Some (st', None)"
  shows "list_all (file_received (rs_disk st) files) (datafiles (add_received files (rs_job st)))"
  using assms
  by (auto simp: check_files_def Let_def split: prod.splits option.splits if_splits intro: find_files_received)

lemma write_ticket_disk:
  assumes "write_ticket env st = Some st'"
  shows "\<exists>hf t. Find_str_value (rinfo st') HF_NAME = Some hf
    \<and> rs_disk st' hf = (if Lpq_status_file env = Some hf then None else Some t)"
  using assms by (auto simp: write_ticket_def Set_job_ticket_file_def unlink_apply split: option.splits prod.splits if_splits)


definition moved :: "line_list list \<Rightarrow> (cstr \<times> cstr) list \<Rightarrow> bool" where
  "moved lps ps \<longleftrightarrow> map (\<lambda>lp. (Find_str_value lp OPENNAME, Find_str_value lp DFTRANSFERNAME)) lps
     = map (\<lambda>(opn, t). (Some opn, Some t)) ps"

text \<open>
  C28: the data files of a job after the renaming: every content is under the transfer name of its file and
  nowhere else. A file that is printed twice has one open name and one transfer name.
\<close>

theorem data_files_renamed:
  assumes "moved lps ps" "\<forall>opn t. r_rename_ok env opn t"
    and "\<forall>(opn, t)\<in>set ps. \<forall>(opn', t')\<in>set ps. (opn = opn' \<longleftrightarrow> t = t') \<and> opn \<noteq> t'"
  shows "\<exists>d'. rename_files env lps d = (d', None)
    \<and> (\<forall>(opn, t)\<in>set ps. d' t = (if d opn = None then d t else d opn) \<and> d' opn = None)
    \<and> (\<forall>n. n \<notin> fst ` set ps \<longrightarrow> n \<notin> snd ` set ps \<longrightarrow> d' n = d n)"
  using assms
proof (induction lps arbitrary: ps d)
  case Nil
  then show ?case by (simp add: moved_def)
next
  case (Cons lp lps)
  obtain opn t qs where ps: "ps = (opn, t) # qs" "Find_str_value lp OPENNAME = Some opn"
    "Find_str_value lp DFTRANSFERNAME = Some t" "moved lps qs"
    using Cons.prems(1) by (cases ps) (auto simp: moved_def)
  have ne: "opn \<noteq> t" using Cons.prems(3) ps(1) by auto
  let ?d = "case d opn of None \<Rightarrow> d | Some c \<Rightarrow> (d(opn := None))(t := Some c)"
  have step: "rename_files env (lp # lps) d = rename_files env lps ?d"
    using ps Cons.prems(2) by (simp split: option.split)
  have q: "\<forall>(opn, t)\<in>set qs. \<forall>(opn', t')\<in>set qs. (opn = opn' \<longleftrightarrow> t = t') \<and> opn \<noteq> t'"
    using Cons.prems(3) ps(1) by auto
  from Cons.IH [OF ps(4) Cons.prems(2) q, of ?d] obtain d' where
    d': "rename_files env lps ?d = (d', None)"
    "\<forall>(opn, t)\<in>set qs. d' t = (if ?d opn = None then ?d t else ?d opn) \<and> d' opn = None"
    "\<forall>n. n \<notin> fst ` set qs \<longrightarrow> n \<notin> snd ` set qs \<longrightarrow> d' n = ?d n" by blast
  have other: "?d o' = d o' \<and> ?d t' = d t'" if "(o', t') \<in> set qs" "(o', t') \<noteq> (opn, t)" for o' t'
  proof -
    have "(opn = o' \<longleftrightarrow> t = t')" "o' \<noteq> t" "opn \<noteq> t'" using Cons.prems(3) ps(1) that(1) by auto
    with that(2) show ?thesis by (auto split: option.split)
  qed
  have first: "d' t = (if d opn = None then d t else d opn) \<and> d' opn = None"
  proof (cases "(opn, t) \<in> set qs")
    case True
    with d'(2) ne show ?thesis by (fastforce split: option.splits if_splits)
  next
    case False
    have "opn \<notin> fst ` set qs" "opn \<notin> snd ` set qs" "t \<notin> fst ` set qs" "t \<notin> snd ` set qs"
      using Cons.prems(3) ps(1) False by force+
    with d'(3) ne show ?thesis by (auto split: option.splits)
  qed
  have "d' t' = (if d o' = None then d t' else d o') \<and> d' o' = None" if "(o', t') \<in> set ps" for o' t'
  proof (cases "(o', t') = (opn, t)")
    case True
    with first show ?thesis by simp
  next
    case False
    with that ps(1) have q: "(o', t') \<in> set qs" by auto
    with d'(2) other [OF q False] show ?thesis by fastforce
  qed
  moreover have "d' n = d n" if "n \<notin> fst ` set ps" "n \<notin> snd ` set ps" for n
    using that d'(3) ps(1) by (auto split: option.splits)
  ultimately show ?case using step d'(1) by (intro exI [of _ d']) auto
qed

definition demo_rcv :: rcv_env where
  "demo_rcv = \<lparr>r_job = demo_job_env, r_server = demo_sv_env, r_names = demo_fc,
     r_z = \<lparr>Prefix_option_to_option = None, Remove_Z = None, Append_Z = None, Prefix_Z = None\<rparr>,
     r_args = demo_fd, r_perm_env = demo_perm_env, r_perm_fuel = 1, r_perms = [], r_check = demo_check,
     r_host_of = (\<lambda>_. None), r_remote = demo_host, r_remote_fqdn = ''h.dom'', r_remote_addr = ''10.0.0.1'',
     r_usec = 5, r_pid = 77, User_is_authuser = False, Accounting_namefixup = None, Force_IPADDR_hostname = False,
     Force_FQDN_hostname = False, Auto_hold = False, Xlate_incoming_format = None, Incoming_control_filter = None,
     Routing_filter = None, r_spool_control = [], Lpq_status_file = None, r_garbled = (\<lambda>_ _. []),
     r_locked = (\<lambda>_. False), r_may_open = (\<lambda>_. True), r_rename_ok = (\<lambda>_ _. True),
     r_errno = ''no such file'', r_errlen = SMALLBUFFER\<rparr>"

lemma data_files_renamed_witness:
  "\<exists>d'. rename_files demo_rcv
      [[''dftransfername=dfA7h'', ''openname=t1''], [''dftransfername=dfB7h'', ''openname=t2''], [''dftransfername=dfA7h'', ''openname=t1'']]
      [''t1'' \<mapsto> ''page'', ''t2'' \<mapsto> ''text''] = (d', None)
    \<and> d' ''dfA7h'' = Some ''page'' \<and> d' ''t1'' = None"
proof -
  let ?lps = "[[''dftransfername=dfA7h'', ''openname=t1''], [''dftransfername=dfB7h'', ''openname=t2''], [''dftransfername=dfA7h'', ''openname=t1'']]"
  let ?ps = "[(''t1'', ''dfA7h''), (''t2'', ''dfB7h''), (''t1'', ''dfA7h'')]"
  have m: "moved ?lps ?ps" by code_simp
  have o: "\<forall>opn t. r_rename_ok demo_rcv opn t" by (simp add: demo_rcv_def)
  have q: "\<forall>(opn, t)\<in>set ?ps. \<forall>(opn', t')\<in>set ?ps. (opn = opn' \<longleftrightarrow> t = t') \<and> opn \<noteq> t'" by simp
  from data_files_renamed [OF m o q, of "[''t1'' \<mapsto> ''page'', ''t2'' \<mapsto> ''text'']"] obtain d' where
    d': "rename_files demo_rcv ?lps [''t1'' \<mapsto> ''page'', ''t2'' \<mapsto> ''text''] = (d', None)"
    "\<forall>(opn, t)\<in>set ?ps. d' t = (if [''t1'' \<mapsto> ''page'', ''t2'' \<mapsto> ''text''] opn = None
        then [''t1'' \<mapsto> ''page'', ''t2'' \<mapsto> ''text''] t else [''t1'' \<mapsto> ''page'', ''t2'' \<mapsto> ''text''] opn) \<and> d' opn = None"
    by blast
  from d'(2) have "d' ''dfA7h'' = Some ''page'' \<and> d' ''t1'' = None" by simp
  with d'(1) show ?thesis by blast
qed

end
