(* ===== verification/JobProtocol.thy ===== *)
theory JobProtocol
  imports JobReceive
begin

section \<open>The protocol for sending a job (lpd\_rcvjob.c)\<close>

text \<open>
  The server's side of the protocol: \<open>Receive\_job\<close> reads a line for each file, acknowledges it, reads the
  file, and processes a job when its control file and data files are there, whichever comes first. A
  connection is the list of what the client sends. \<open>Scan\_block\_file\<close> takes the same lines from a file that
  was received as a whole. The lemmas are about the limit on the size of a job and about the
  files that are left in the spool directory.
\<close>

subsection \<open>The state of a connection\<close>

text \<open>
  \<open>p\_strtod\<close> reads the length at the beginning of a text and gives what follows it; \<open>p\_space\<close> are the
  bytes of the file system; \<open>p\_too\_large\<close> and \<open>p\_bad\_line\<close> are the
  messages with a number printed as a double.
\<close>

record proto_env =
  p_rcv :: rcv_env
  Max_job_size :: int
  Discard_large_jobs :: bool
  Minfree :: int
  p_space :: int
  p_strtod :: "cstr \<Rightarrow> int \<times> cstr"
  p_too_large :: "int \<Rightarrow> cstr"
  p_bad_line :: "cstr \<Rightarrow> int \<Rightarrow> cstr \<Rightarrow> cstr"
  p_setup :: "cstr \<Rightarrow> cstr option"
  p_spooling_disabled :: bool
  p_first_ack_ok :: bool

record proto_state =
  ps_rcv :: rcv_state
  ps_files :: line_list
  ps_size :: int
  ps_in_progress :: bool
  ps_discarding :: bool
  ps_temps :: "cstr list"
  ps_acks :: nat

abbreviation ps_job :: "proto_state \<Rightarrow> job" where "ps_job st \<equiv> rs_job (ps_rcv st)"

abbreviation upd_job :: "(job \<Rightarrow> job) \<Rightarrow> proto_state \<Rightarrow> proto_state" where
  "upd_job f st \<equiv> st\<lparr>ps_rcv := (ps_rcv st)\<lparr>rs_job := f (ps_job st)\<rparr>\<rparr>"

abbreviation upd_disk :: "(disk \<Rightarrow> disk) \<Rightarrow> proto_state \<Rightarrow> proto_state" where
  "upd_disk f st \<equiv> st\<lparr>ps_rcv := (ps_rcv st)\<lparr>rs_disk := f (rs_disk (ps_rcv st))\<rparr>\<rparr>"

text \<open>
  One file that the client sends: the line, the temporary name the system gives, the data, and whether
  the transfer and the sending of the two acknowledgements work.
\<close>

record transfer =
  x_line :: cstr
  x_temp :: cstr
  x_data :: cstr
  x_read_ok :: bool
  x_ack_ok :: bool
  x_end_ack_ok :: bool

text \<open>
  What a round of the loop leads to: the next one, the end of the job, or the error exit with an
  acknowledgement (0 if none was chosen) and a message.
\<close>

datatype proto_step = Next proto_state | Stop proto_state | Fail int cstr proto_state

subsection \<open>A control file\<close>

text \<open>
  A job that is too large and to be discarded keeps its ticket, with the error, and the time of the error
  if \<open>mark\<close> is set.
\<close>

definition discard_job :: "bool \<Rightarrow> proto_env \<Rightarrow> proto_state \<Rightarrow> proto_state option" where
  "discard_job mark env st =
     (let i1 = Set_str_value (info (ps_job st)) ERROR (Some (p_too_large env (ps_size st)));
          i2 = (if mark then Set_nz_flag_value i1 ERROR_TIME (now (r_job (p_rcv env))) else i1);
          i3 = Set_str_value (Set_str_value i2 INCOMING_TIME None) INCOMING_PID None
      in map_option (\<lambda>r. st\<lparr>ps_rcv := r\<rparr>)
           (write_ticket (p_rcv env) ((ps_rcv st)\<lparr>rs_job := (ps_job st)\<lparr>info := i3\<rparr>\<rparr>)))"

text \<open>The end of a job: it is discarded, or processed with the files that were received.\<close>

definition end_job :: "bool \<Rightarrow> proto_env \<Rightarrow> line_list option \<Rightarrow> proto_state \<Rightarrow> (proto_state \<times> cstr option) option" where
  "end_job mark env header_info st =
     (if ps_discarding st then map_option (\<lambda>s. (s, None)) (discard_job mark env st)
      else map_option (\<lambda>(r, e). (st\<lparr>ps_rcv := r\<rparr>, e))
             (Check_for_missing_files (p_rcv env) (ps_files st) header_info (ps_rcv st)))"

definition fresh_job :: "proto_state \<Rightarrow> proto_state" where
  "fresh_job st = st\<lparr>ps_files := [], ps_discarding := False, ps_size := 0, ps_in_progress := False\<rparr>"

definition job_done :: "(proto_state \<times> cstr option) option \<Rightarrow> (proto_state \<Rightarrow> proto_step option) \<Rightarrow> proto_step option" where
  "job_done r f =
     (case r of None \<Rightarrow> None | Some (st, Some e) \<Rightarrow> Some (Fail 0 e st) | Some (st, None) \<Rightarrow> f (fresh_job st))"

text \<open>
  A control file ends the job in progress. It begins a new one, or, if data files have come before it,
  completes it.
\<close>

definition new_ticket :: "proto_env \<Rightarrow> cstr \<Rightarrow> cstr option \<Rightarrow> proto_state \<Rightarrow> proto_step option" where
  "new_ticket env name temp st =
     (let st1 = upd_job (\<lambda>j. (Free_job j)\<lparr>info := Set_str_value [] OPENNAME temp\<rparr>) st in
      case Setup_temporary_job_ticket_file (p_rcv env) (Some name) True None (ps_rcv st1) of
        None \<Rightarrow> None
      | Some (r, Some e) \<Rightarrow> Some (Fail 0 e (st1\<lparr>ps_rcv := r\<rparr>))
      | Some (r, None) \<Rightarrow>
          (let st2 = st1\<lparr>ps_rcv := r\<rparr> in
           if ps_files st2 \<noteq> [] then job_done (end_job True env None st2) (\<lambda>st3. Some (Next (upd_job Free_job st3)))
           else Some (Next (st2\<lparr>ps_in_progress := True\<rparr>))))"

definition control_file :: "proto_env \<Rightarrow> cstr \<Rightarrow> cstr option \<Rightarrow> proto_state \<Rightarrow> proto_step option" where
  "control_file env name temp st =
     (if ps_in_progress st then job_done (end_job True env None st) (new_ticket env name temp)
      else new_ticket env name temp st)"

subsection \<open>One file\<close>

definition announced :: "proto_env \<Rightarrow> cstr \<Rightarrow> (int \<times> cstr) option" where
  "announced env text_line =
     (case p_strtod env text_line of
        (n, rest) \<Rightarrow>
          if rest = text_line then None
          else Some (n, underscores (Clean_meta (Safe_chars (r_job (p_rcv env))) (dropWhile isspace rest))))"

definition too_large :: "proto_env \<Rightarrow> int \<Rightarrow> bool" where
  "too_large env n \<longleftrightarrow> 0 < Max_job_size env \<and> 1024 * Max_job_size env < n"

text \<open>The limits, with the state in which the file is read.\<close>

definition admit :: "proto_env \<Rightarrow> int \<Rightarrow> proto_state \<Rightarrow> proto_step" where
  "admit env len st0 =
     (let st = st0\<lparr>ps_size := ps_size st0 + len\<rparr>; n = (if len = 0 then Max_job_size env * 1024 else len) in
      if too_large env (ps_size st) then
        (if Discard_large_jobs env then Next (st\<lparr>ps_discarding := True\<rparr>)
         else Fail ACK_RETRY (p_too_large env (ps_size st)) st)
      else if Check_space n (Minfree env) (p_space env) then Next st
      else Fail ACK_RETRY
             (plp_snprintf (r_errlen (p_rcv env)) ''%s: insufficient file space'' [AStr (Printer_name (r_names (p_rcv env)))]) st)"

definition store_data :: "transfer \<Rightarrow> proto_state \<Rightarrow> proto_state" where
  "store_data x st =
     (if ps_discarding st then st
      else upd_disk (\<lambda>d. d(x_temp x := Some (x_data x))) (st\<lparr>ps_temps := ps_temps st @ [x_temp x]\<rparr>))"

definition finish_file :: "transfer \<Rightarrow> proto_step option \<Rightarrow> proto_step option" where
  "finish_file x r =
     (case r of
        Some (Next st) \<Rightarrow>
          Some (if x_end_ack_ok x then Next (st\<lparr>ps_acks := ps_acks st + 1\<rparr>) else Stop st)
      | _ \<Rightarrow> r)"

definition read_file :: "proto_env \<Rightarrow> int \<Rightarrow> int \<Rightarrow> cstr \<Rightarrow> transfer \<Rightarrow> proto_state \<Rightarrow> proto_step option" where
  "read_file env kind len name x st =
     (let msg = (\<lambda>fmt. plp_snprintf (r_errlen (p_rcv env)) fmt
                   [AStr (Printer_name (r_names (p_rcv env))), AStr (Some name), AStr (Some (r_remote_fqdn (p_rcv env)))]) in
      if \<not> x_ack_ok x then Some (Fail ACK_RETRY (msg (''%s: sending ACK 0 for '' @ [CHR 0x27] @ ''%s'' @ [CHR 0x27] @ '' failed'')) st)
      else
        (let st1 = store_data x (st\<lparr>ps_acks := ps_acks st + 1\<rparr>); n = int (length (x_data x));
             temp = (if ps_discarding st then None else Some (x_temp x)) in
         if \<not> x_read_ok x \<or> len = 0 \<and> n = 0 \<or> len \<noteq> 0 \<and> len \<noteq> n then
           Some (Fail ACK_RETRY (msg (''%s: transfer of '' @ [CHR 0x27] @ ''%s'' @ [CHR 0x27] @ '' from '' @ [CHR 0x27] @ ''%s'' @ [CHR 0x27] @ '' failed'')) st1)
         else if kind = CONTROL_FILE then finish_file x (control_file env name temp st1)
         else finish_file x (Some (Next (st1\<lparr>ps_files := Set_casekey_str_value (ps_files st1) name temp\<rparr>)))))"

definition receive_file :: "proto_env \<Rightarrow> transfer \<Rightarrow> proto_state \<Rightarrow> proto_step option" where
  "receive_file env x st =
     (case x_line x of
        [] \<Rightarrow> Some (Stop st)
      | c # s \<Rightarrow>
          if ccode c \<noteq> DATA_FILE \<and> ccode c \<noteq> CONTROL_FILE then Some (Stop st)
          else
            (case announced env (Clean_meta (Safe_chars (r_job (p_rcv env))) s) of
               None \<Rightarrow> Some (Next st)
             | Some (len, name) \<Rightarrow>
                 if len < 0 \<or> name = [] \<or> len = 0 \<and> ccode c \<noteq> DATA_FILE then
                   Some (Fail ACK_STOP_Q
                     (p_bad_line env s len name) st)
                 else
                   (case admit env len st of
                      Next st1 \<Rightarrow> read_file env (ccode c) len name x st1
                    | r \<Rightarrow> Some r)))"

subsection \<open>Receive\_job\<close>

fun receive_loop :: "proto_env \<Rightarrow> transfer list \<Rightarrow> proto_state \<Rightarrow> proto_step option" where
  "receive_loop env [] st = Some (Stop st)"
| "receive_loop env (x # xs) st =
     (case receive_file env x st of Some (Next st1) \<Rightarrow> receive_loop env xs st1 | r \<Rightarrow> r)"

text \<open>A control file without data files is left as it is, and not reported.\<close>

definition end_of_transfer :: "proto_env \<Rightarrow> proto_state \<Rightarrow> (proto_state \<times> cstr option) option" where
  "end_of_transfer env st =
     (if ps_discarding st then
        (if nonempty (Find_str_value (info (ps_job st)) HF_NAME)
         then map_option (\<lambda>s. (s\<lparr>ps_discarding := False\<rparr>, None)) (discard_job True env st) else Some (st, None))
      else if ps_files st = [] then Some (st, None)
      else end_job True env None st)"

text \<open>
  The exit: the temporary files are removed; with a message the ticket of the job is removed too, and the
  client gets the acknowledgement and the message. Without a message the queue server is told.
\<close>

definition receive_exit :: "proto_env \<Rightarrow> int \<Rightarrow> cstr \<Rightarrow> proto_state \<Rightarrow> disk \<times> (int \<times> cstr) option" where
  "receive_exit env ack msg st =
     (let d = foldl (\<lambda>d f. unlink (Some f) d) (rs_disk (ps_rcv st)) (ps_temps st) in
      if msg \<noteq> [] then
        (let hf = Find_str_value (info (ps_job st)) HF_NAME in
         (if nonempty hf then unlink hf d else d, Some (if ack = 0 then ACK_FAIL else ack, msg)))
      else (unlink (Lpq_status_file (p_rcv env)) d, None))"

definition receive_files :: "proto_env \<Rightarrow> transfer list \<Rightarrow> proto_state \<Rightarrow> (disk \<times> (int \<times> cstr) option) option" where
  "receive_files env xs st =
     (case receive_loop env xs st of
        None \<Rightarrow> None
      | Some (Fail ack msg st1) \<Rightarrow> Some (receive_exit env ack msg st1)
      | Some (Next st1) \<Rightarrow> None
      | Some (Stop st1) \<Rightarrow>
          map_option (\<lambda>(st2, e). receive_exit env 0 (opt_str e) st2) (end_of_transfer env st1))"

definition proto_start :: "disk \<Rightarrow> proto_state" where
  "proto_start d = \<lparr>ps_rcv = \<lparr>rs_job = Init_job, rs_disk = d, rs_queue_name = None\<rparr>, ps_files = [], ps_size = 0,
     ps_in_progress = False, ps_discarding = False, ps_temps = [], ps_acks = 0\<rparr>"

definition bad_command :: "proto_env \<Rightarrow> cstr \<Rightarrow> (int \<times> cstr) option" where
  "bad_command env input =
     (let errlen = r_errlen (p_rcv env); pr = AStr (Printer_name (r_names (p_rcv env)));
          l = Split [] (Clean_meta (Safe_chars (r_job (p_rcv env))) (tl input)) Whitespace False None False NUL False None in
      if length l \<noteq> 1 then Some (0, plp_snprintf errlen ''bad command line'' [])
      else if Is_clean_name (Some (hd l)) \<noteq> None then Some (0, plp_snprintf errlen ''bad printer name'' [])
      else (case p_setup env (hd l) of
              Some msg \<Rightarrow> Some (0, if msg \<noteq> [] then msg else plp_snprintf errlen ''%s: cannot set up print queue'' [pr])
            | None \<Rightarrow>
                if p_spooling_disabled env then Some (ACK_RETRY, plp_snprintf errlen ''%s: spooling disabled'' [pr])
                else if \<not> p_first_ack_ok env then Some (0, plp_snprintf errlen ''%s: Receive_job: sending ACK 0 failed'' [pr])
                else None))"

definition Receive_job :: "proto_env \<Rightarrow> cstr \<Rightarrow> transfer list \<Rightarrow> disk \<Rightarrow> (disk \<times> (int \<times> cstr) option) option" where
  "Receive_job env input xs d =
     (case bad_command env input of
        Some (ack, msg) \<Rightarrow> Some (receive_exit env ack msg (proto_start d))
      | None \<Rightarrow> receive_files env xs ((proto_start d)\<lparr>ps_acks := 1\<rparr>))"

subsection \<open>A job in one block\<close>

text \<open>
  A line of the block, of at most \<open>LINEBUFFER - 1\<close> characters, and what follows it; \<open>None\<close> is the end of the
  file, also behind a line that is not complete.
\<close>

fun read_line :: "nat \<Rightarrow> cstr \<Rightarrow> cstr \<Rightarrow> (cstr \<times> cstr) option" where
  "read_line 0 acc s = Some (rev acc, s)"
| "read_line (Suc n) acc [] = None"
| "read_line (Suc n) acc (c # s) = (if c = CHR 0x0A then Some (rev acc, s) else read_line n (c # acc) s)"

definition Read_one_line :: "cstr \<Rightarrow> (cstr \<times> cstr) option" where
  "Read_one_line s = read_line (LINEBUFFER - 1) [] s"

text \<open>
  The status, which is 1 within the loop and 0 behind it, the message, and whether the scan has ended.
\<close>

datatype block_step = More proto_state cstr | Ended int proto_state cstr

definition block_control ::
  "proto_env \<Rightarrow> line_list option \<Rightarrow> cstr \<Rightarrow> cstr option \<Rightarrow> proto_state \<Rightarrow> cstr \<Rightarrow> block_step option" where
  "block_control env header_info name temp st msg =
     (let ticket = (\<lambda>s m.
        let s1 = upd_job (\<lambda>j. (Free_job j)\<lparr>info := Set_str_value [] OPENNAME temp\<rparr>) s in
        case Setup_temporary_job_ticket_file (p_rcv env) (Some name) True None (ps_rcv s1) of
          None \<Rightarrow> None
        | Some (r, Some e) \<Rightarrow> Some (Ended 1 (s1\<lparr>ps_rcv := r\<rparr>) e)
        | Some (r, None) \<Rightarrow>
            (let s2 = s1\<lparr>ps_rcv := r\<rparr> in
             if ps_files s2 = [] then Some (More s2 m)
             else (case end_job True env header_info s2 of
                     None \<Rightarrow> None
                   | Some (s3, Some e) \<Rightarrow> Some (Ended 1 s3 e)
                   | Some (s3, None) \<Rightarrow>
                       Some (More (upd_job Free_job (s3\<lparr>ps_files := [], ps_size := 0\<rparr>)) (if ps_discarding s2 then [] else m)))))
      in if info (ps_job st) = [] then ticket st msg
         else (case end_job False env header_info st of
                 None \<Rightarrow> None
               | Some (s, Some e) \<Rightarrow> Some (Ended 1 s e)
               | Some (s, None) \<Rightarrow> ticket (s\<lparr>ps_files := [], ps_size := 0\<rparr>) (if ps_discarding st then [] else msg)))"

text \<open>One section of the block; \<open>temps\<close> are the temporary names the system gives.\<close>

definition block_section ::
  "proto_env \<Rightarrow> line_list option \<Rightarrow> cstr \<Rightarrow> cstr \<Rightarrow> cstr \<Rightarrow> proto_state \<Rightarrow> cstr \<Rightarrow> (cstr \<times> block_step) option" where
  "block_section env header_info temp line rest st msg =
     (if line = [] \<or> ccode (hd line) \<noteq> CONTROL_FILE \<and> ccode (hd line) \<noteq> DATA_FILE then Some (rest, More st msg)
      else
        (let s = Clean_meta (Safe_chars (r_job (p_rcv env))) (tl line);
             l = Split [] s Whitespace False None False NUL False None in
         if length l \<noteq> 2 then
           Some (rest, Ended 1 st (plp_snprintf (r_errlen (p_rcv env)) (''bad length information '' @ [CHR 0x27] @ ''%s'' @ [CHR 0x27]) [AStr (Some s)]))
         else
           (let n = to_int (fst (strtol (l ! 0) 10)); name = l ! 1;
                st1 = st\<lparr>ps_size := ps_size st + n\<rparr>;
                large = too_large env (ps_size st1) \<and> Discard_large_jobs env;
                st2 = (if large then st1\<lparr>ps_discarding := True\<rparr> else st1);
                msg2 = (if large then p_too_large env (ps_size st1) else msg);
                content = take (nat n) rest;
                st3 = (if ps_discarding st2 then st2
                       else upd_disk (\<lambda>d. d(temp := Some content)) (st2\<lparr>ps_temps := ps_temps st2 @ [temp]\<rparr>));
                t = (if ps_discarding st2 then None else Some temp) in
            if length content < nat n then
              Some ([], Ended 1 st3 (plp_snprintf (r_errlen (p_rcv env)) ''Scan_block_file: read unexecpted EOF'' []))
            else map_option (\<lambda>b. (drop (nat n) rest, b))
                   (if ccode (hd line) = CONTROL_FILE then block_control env header_info name t st3 msg2
                    else Some (More (st3\<lparr>ps_files := Set_str_value (ps_files st3) name t\<rparr>) msg2)))))"

lemma read_line_length: "read_line (Suc n) acc s = Some (line, rest) \<Longrightarrow> length rest < length s"
proof (induction n arbitrary: acc s)
  case 0
  then show ?case by (cases s) (auto split: if_splits)
next
  case (Suc n)
  then show ?case by (cases s) (fastforce split: if_splits)+
qed

lemma Read_one_line_length: "Read_one_line s = Some (line, rest) \<Longrightarrow> length rest < length s"
  using read_line_length [of 178 "[]" s line rest] by (simp add: Read_one_line_def LINEBUFFER_def)

lemma block_section_length:
  "block_section env h temp line rest st msg = Some (rest1, b) \<Longrightarrow> length rest1 \<le> length rest"
  by (auto simp: block_section_def Let_def split: if_splits)

function scan_loop ::
  "proto_env \<Rightarrow> line_list option \<Rightarrow> (nat \<Rightarrow> cstr) \<Rightarrow> nat \<Rightarrow> cstr \<Rightarrow> proto_state \<Rightarrow> cstr \<Rightarrow> block_step option" where
  "scan_loop env header_info temps k s st msg =
     (case Read_one_line s of
        None \<Rightarrow> Some (More st msg)
      | Some (line, rest) \<Rightarrow>
          (case block_section env header_info (temps k) line rest st msg of
             None \<Rightarrow> None
           | Some (rest1, More st1 msg1) \<Rightarrow> scan_loop env header_info temps (k + 1) rest1 st1 msg1
           | Some (rest1, Ended status st1 msg1) \<Rightarrow> Some (Ended status st1 msg1)))"
  by pat_completeness auto
termination
  by (relation "measure (\<lambda>(env, h, temps, k, s, st, msg). length s)")
    (auto dest!: Read_one_line_length block_section_length)

declare scan_loop.simps [simp del]

text \<open>
  The job that is open at the end of the block is completed, but the status stays 0. With a message the
  files of the job are removed.
\<close>

definition Scan_block_file ::
  "proto_env \<Rightarrow> line_list option \<Rightarrow> (nat \<Rightarrow> cstr) \<Rightarrow> cstr \<Rightarrow> proto_state \<Rightarrow> (proto_state \<times> int \<times> cstr) option" where
  "Scan_block_file env header_info temps s st =
     map_option
       (\<lambda>(st1, status, msg).
          (if msg \<noteq> [] then
             upd_disk (\<lambda>d. remove_received (ps_job st1) (foldl (\<lambda>d f. unlink (Some f) d) d (ps_temps st1))) st1
           else st1, status, msg))
       (case scan_loop env header_info temps 0 s st [] of
          None \<Rightarrow> None
        | Some (Ended status st1 msg) \<Rightarrow> Some (st1, status, msg)
        | Some (More st1 msg) \<Rightarrow>
            if ps_files st1 = [] then Some (st1, 0, msg)
            else map_option (\<lambda>(st2, e). (st2, 0, case e of Some m \<Rightarrow> m | None \<Rightarrow> if ps_discarding st1 then [] else msg))
                   (end_job True env header_info st1))"

subsection \<open>Receive\_block\_job\<close>

text \<open>
  The whole block is read before it is scanned. The test of the acknowledgement at the exit is the wrong
  way round: without one the byte 0 begins the answer, which is then sent as an empty string, and
  every other acknowledgement becomes \<open>ACK\_FAIL\<close>. The result is the directory and the answer: \<open>None\<close> for
  success, and the acknowledgement and the message otherwise.
\<close>

definition block_exit :: "int \<Rightarrow> cstr \<Rightarrow> proto_state \<Rightarrow> disk \<times> (int \<times> cstr) option" where
  "block_exit ack msg st =
     (if msg \<noteq> [] then (rs_disk (ps_rcv st), Some (if ack \<noteq> 0 then (ACK_FAIL, msg) else (0, [])))
      else (foldl (\<lambda>d f. unlink (Some f) d) (rs_disk (ps_rcv st)) (ps_temps st), None))"

definition block_too_large :: "proto_env \<Rightarrow> int \<Rightarrow> bool" where
  "block_too_large env n \<longleftrightarrow> 0 < Max_job_size env \<and> 1024 * Max_job_size env < n + 1023"

text \<open>The block with its temporary name and what became of its transfer and of the answers.\<close>

definition Receive_block_job ::
  "proto_env \<Rightarrow> (nat \<Rightarrow> cstr) \<Rightarrow> cstr \<Rightarrow> transfer \<Rightarrow> disk \<Rightarrow> (disk \<times> (int \<times> cstr) option) option" where
  "Receive_block_job env temps input x d =
     (let st = proto_start d; errlen = r_errlen (p_rcv env) - 4; pr = AStr (Printer_name (r_names (p_rcv env)));
          l = Split [] (Clean_meta (Safe_chars (r_job (p_rcv env))) (tl input)) Whitespace False None False NUL False None in
      if length l \<noteq> 2 then Some (block_exit 0 (plp_snprintf errlen ''bad command line'' []) st)
      else if Is_clean_name (Some (hd l)) \<noteq> None then Some (block_exit 0 (plp_snprintf errlen ''bad printer name'' []) st)
      else
        (case p_setup env (hd l) of
           Some msg \<Rightarrow> Some (block_exit 0 (if msg \<noteq> [] then msg else plp_snprintf errlen ''%s: cannot set up printer'' [pr]) st)
         | None \<Rightarrow>
             let n = fst (p_strtod env (l ! 1)); large = block_too_large env n in
             if p_spooling_disabled env then Some (block_exit ACK_RETRY (plp_snprintf errlen ''%s: spooling disabled'' [pr]) st)
             else if large \<and> \<not> Discard_large_jobs env then Some (block_exit ACK_RETRY (p_too_large env n) st)
             else if \<not> large \<and> \<not> Check_space n (Minfree env) (p_space env) then
               Some (block_exit ACK_RETRY (plp_snprintf errlen ''%s: insufficient file space'' [pr]) st)
             else if \<not> x_ack_ok x then
               Some (block_exit 0 (plp_snprintf errlen ''%s: Receive_block_job: sending ACK 0 failed'' [pr]) st)
             else
               (let st1 = upd_disk (\<lambda>d. d(x_temp x := Some (x_data x))) (st\<lparr>ps_temps := [x_temp x], ps_acks := 1\<rparr>) in
                if \<not> x_read_ok x then
                  Some (block_exit ACK_FAIL (plp_snprintf errlen
                    (''%s: transfer of '' @ [CHR 0x27] @ ''%s'' @ [CHR 0x27] @ '' from '' @ [CHR 0x27] @ ''%s'' @ [CHR 0x27] @ '' failed'')
                    [pr, AStr (Some (x_temp x)), AStr (Some (r_remote_fqdn (p_rcv env)))]) st1)
                else
                  map_option
                    (\<lambda>(st2, status, msg).
                       if status \<noteq> 0 then block_exit ACK_FAIL msg st2
                       else if \<not> x_end_ack_ok x then
                         block_exit ACK_RETRY (plp_snprintf errlen
                           (''%s: sending ACK 0 for '' @ [CHR 0x27] @ ''%s'' @ [CHR 0x27] @ '' failed'') [pr, AStr (Some (x_temp x))]) st2
                       else block_exit 0 [] (st2\<lparr>ps_acks := ps_acks st2 + 1\<rparr>))
                    (Scan_block_file env None temps (x_data x) st1))))"

subsection \<open>A failure that is reported as success\<close>

text \<open>
  The job at the end of a block, which is the only one in practice, is processed behind the loop, where the
  status is 0 already.
\<close>

lemma block_end_status:
  assumes "scan_loop env h temps 0 s st [] = Some (More st1 msg)" "ps_files st1 \<noteq> []"
    and "end_job True env h st1 = Some (st2, Some e)"
  shows "\<exists>st'. Scan_block_file env h temps s st = Some (st', 0, e)
    \<and> (e \<noteq> [] \<longrightarrow> (\<forall>n. rs_disk (ps_rcv st') n = None \<or> n \<notin> received_names (ps_job st2) \<and> rs_disk (ps_rcv st') n = rs_disk (ps_rcv st2) n))"
proof -
  have "foldl (\<lambda>d f. unlink (Some f) d) d fs n = None \<or> foldl (\<lambda>d f. unlink (Some f) d) d fs n = d n" for d :: disk and fs n
    by (induction fs arbitrary: d) (auto simp: unlink_apply, metis unlink_apply)
  with assms show ?thesis by (fastforce simp: Scan_block_file_def remove_received_apply)
qed

definition block_accepted :: "proto_env \<Rightarrow> cstr \<Rightarrow> transfer \<Rightarrow> bool" where
  "block_accepted env input x \<longleftrightarrow>
     (let l = Split [] (Clean_meta (Safe_chars (r_job (p_rcv env))) (tl input)) Whitespace False None False NUL False None;
          n = fst (p_strtod env (l ! 1)) in
      length l = 2 \<and> Is_clean_name (Some (hd l)) = None \<and> p_setup env (hd l) = None \<and> \<not> p_spooling_disabled env
      \<and> \<not> block_too_large env n \<and> Check_space n (Minfree env) (p_space env)
      \<and> x_ack_ok x \<and> x_read_ok x \<and> x_end_ack_ok x)"

definition block_start :: "transfer \<Rightarrow> disk \<Rightarrow> proto_state" where
  "block_start x d = upd_disk (\<lambda>d. d(x_temp x := Some (x_data x))) ((proto_start d)\<lparr>ps_temps := [x_temp x], ps_acks := 1\<rparr>)"

text \<open>
  C31: when the job at the end of a block is refused, for want of permission, a missing data file or any other
  reason, the client is nevertheless told that it was received, and the job is gone: none of its files
  is left.
\<close>

theorem block_failure_acknowledged:
  assumes "block_accepted env input x"
    and "scan_loop env None temps 0 (x_data x) (block_start x d) [] = Some (More st1 msg)" "ps_files st1 \<noteq> []"
    and "end_job True env None st1 = Some (st2, Some e)" "e \<noteq> []"
  shows "\<exists>d'. Receive_block_job env temps input x d = Some (d', None) \<and> (\<forall>n\<in>received_names (ps_job st2). d' n = None)"
proof -
  from block_end_status [OF assms(2-4)] obtain st' where
    st': "Scan_block_file env None temps (x_data x) (block_start x d) = Some (st', 0, e)"
    "\<forall>n. rs_disk (ps_rcv st') n = None \<or> n \<notin> received_names (ps_job st2) \<and> rs_disk (ps_rcv st') n = rs_disk (ps_rcv st2) n"
    using assms(5) by auto
  have u: "d n = None \<Longrightarrow> foldl (\<lambda>d f. unlink (Some f) d) d fs n = None" for d :: disk and fs n
    by (induction fs arbitrary: d) (auto simp: unlink_apply)
  have "Receive_block_job env temps input x d = Some (block_exit 0 [] (st'\<lparr>ps_acks := ps_acks st' + 1\<rparr>))"
    using assms(1) st'(1) by (simp add: Receive_block_job_def block_accepted_def block_start_def Let_def)
  then show ?thesis using st'(2) by (fastforce simp: block_exit_def intro: u)
qed

definition demo_proto :: proto_env where
  "demo_proto = \<lparr>p_rcv = demo_rcv\<lparr>r_perm_env := demo_perm_env\<lparr>Default_permission := Some ''REJECT''\<rparr>\<rparr>,
     Max_job_size = 0, Discard_large_jobs = False, Minfree = 0, p_space = 1000000, p_strtod = (\<lambda>s. strtol s 10),
     p_too_large = (\<lambda>_. ''too large''), p_bad_line = (\<lambda>_ _ _. ''bad line''), p_setup = (\<lambda>_. None),
     p_spooling_disabled = False, p_first_ack_ok = True\<rparr>"

definition demo_block :: transfer where
  "demo_block = \<lparr>x_line = [], x_temp = ''b1'', x_data = CHR 0x03 # ''5 dfA1h'' @ [CHR 0x0A] @ ''hello'',
     x_read_ok = True, x_ack_ok = True, x_end_ack_ok = True\<rparr>"

lemma demo_scan:
  "map_option (\<lambda>b. case b of More st msg \<Rightarrow> (ps_files st, ps_discarding st, ps_job st = Init_job) | Ended _ _ _ \<Rightarrow> ([], True, False))
     (scan_loop demo_proto None (\<lambda>_. ''t1'') 0 (x_data demo_block) (block_start demo_block (\<lambda>_. None)) [])
   = Some ([''dfA1h=t1''], False, True)"
  by code_simp


lemma demo_refused:
  "\<exists>e. Do_perm_check (p_rcv demo_proto) i = Some (P_REJECT, Some e) \<and> e \<noteq> []"
proof -
  have "plp_snprintf SMALLBUFFER ''%s: no permission to print'' [AStr (Printer_name demo_fc)] \<noteq> []"
    and "perm_val (Some ''REJECT'') = P_REJECT"
    by code_simp+
  then show ?thesis
    by (simp add: Do_perm_check_def Perms_check_def demo_proto_def demo_rcv_def)
qed

lemma block_failure_acknowledged_witness:
  "\<exists>d'. Receive_block_job demo_proto (\<lambda>_. ''t1'') (CHR 0x07 # ''lp 13'') demo_block (\<lambda>_. None) = Some (d', None)"
proof -
  have a: "block_accepted demo_proto (CHR 0x07 # ''lp 13'') demo_block" by code_simp
  obtain st1 msg where
    s: "scan_loop demo_proto None (\<lambda>_. ''t1'') 0 (x_data demo_block) (block_start demo_block (\<lambda>_. None)) [] = Some (More st1 msg)"
    "ps_files st1 \<noteq> []" "\<not> ps_discarding st1"
  proof (cases "scan_loop demo_proto None (\<lambda>_. ''t1'') 0 (x_data demo_block) (block_start demo_block (\<lambda>_. None)) []")
    case None
    with demo_scan show ?thesis by simp
  next
    case (Some b)
    with demo_scan that show ?thesis by (cases b) auto
  qed
  from demo_refused [of "info (identify_job (p_rcv demo_proto) None (ps_job st1))"] obtain e where
    e: "Do_perm_check (p_rcv demo_proto) (info (identify_job (p_rcv demo_proto) None (ps_job st1))) = Some (P_REJECT, Some e)" "e \<noteq> []"
    by blast
  then obtain st2 where "end_job True demo_proto None st1 = Some (st2, Some e)"
    using s(3) by (simp add: end_job_def Check_for_missing_files_def process_job_def check_job_def then_step_def)
  from block_failure_acknowledged [OF a s(1,2) this e(2)] show ?thesis by blast
qed

end
