(* ===== verification/QueueControl.thy ===== *)
theory QueueControl
  imports ServerQueue Permission PlainStore
begin

section \<open>Requests to control jobs and queues (lpd\_control.c)\<close>

text \<open>
  The handlers of \<open>lpc\<close>. \<open>Do_job_ticket_file\<close> holds, releases, moves, repeats and reorders the jobs that
  the words of a request select; \<open>Do_queue_control\<close> changes the switches of a queue, tells its server and
  has it started; \<open>Job_control\<close> checks a request and passes it on for one queue or for all. What goes to
  the client is a list of texts. The lemmas show which jobs are changed and for whom, what a hold and
  a release do, and that the switches follow their documentation.
\<close>

subsection \<open>Environment and state\<close>

text \<open>
  What is configured for a queue and what the system knows of it: the names in its spool directory, the
  contents of its lock files, and its printcap entry. \<open>c_kill\<close> says whether a signal can be sent.
\<close>

datatype signal = SIGUSR1 | SIGUSR2 | SIGINT | SIGHUP | SIGQUIT | SIGCONT

record queue_conf =
  q_printer :: cstr
  q_names :: "cstr list option"
  q_spool_dir :: cstr
  q_Lpq_status_file :: "cstr option"
  q_status_files :: "cstr list"
  q_Server_queue_name :: "cstr option"
  q_Server_names :: "cstr option"
  q_Report_server_as :: "cstr option"
  q_Auto_hold :: bool
  q_Ppd_file :: "cstr option"
  q_aliases :: line_list
  q_entry :: line_list
  q_lock :: "char list option"
  q_server_lock :: "char list option"
  q_unspooler_lock :: "char list option"

record ctl_env =
  c_job :: job_env
  c_server :: sv_env
  c_perm_env :: perm_env
  c_perm_fuel :: nat
  c_perms :: line_list
  c_check :: perm_check
  c_host_of :: "cstr \<Rightarrow> host_information option"
  c_short_host :: cstr
  c_fqdn :: cstr
  c_errno :: cstr
  c_queue :: "cstr \<Rightarrow> queue_conf option"
  c_chdir :: "cstr \<Rightarrow> bool"
  c_all :: "cstr list"
  c_file :: "cstr \<Rightarrow> cstr option"
  c_kill :: "int \<Rightarrow> signal \<Rightarrow> bool"
  c_sigstr :: "signal \<Rightarrow> cstr"
  c_server_pid :: int
  c_default_queue :: cstr
  c_translate :: "cstr \<Rightarrow> cstr"

text \<open>
  The variables \<open>Printer\<close> and \<open>Spool_control\<close> of the process, the tickets and the control file of each
  queue, and what the handler has done: texts to the client, files unlinked and truncated, signals
  (to a process or to its group), and requests to \<open>lpd\<close>.
\<close>

record ctl_state =
  ct_printer :: cstr
  ct_control :: line_list
  ct_tickets :: "cstr \<Rightarrow> cstr \<Rightarrow> cstr option"
  ct_control_file :: "cstr \<Rightarrow> cstr option"
  ct_out :: "cstr list"
  ct_unlinked :: "cstr list"
  ct_truncated :: "cstr list"
  ct_signals :: "(bool \<times> int \<times> signal) list"
  ct_requests :: "cstr list"

definition say :: "cstr \<Rightarrow> ctl_state \<Rightarrow> ctl_state" where
  "say s st = st\<lparr>ct_out := ct_out st @ [s]\<rparr>"

text \<open>
  \<open>safestrncat\<close> adds the end of the line in a buffer of \<open>n\<close> bytes. \<open>None\<close>: there is no room for it, and the
  text loses its NUL.
\<close>

definition say_line :: "nat \<Rightarrow> cstr \<Rightarrow> ctl_state \<Rightarrow> ctl_state option" where
  "say_line n s st = (if length s + 1 < n then Some (say (s @ [CHR 0x0A]) st) else None)"

subsection \<open>One job\<close>

text \<open>
  What an action does to the values of the job, and to those of a destination if that was selected.
\<close>

definition clear_flags :: "cstr list \<Rightarrow> line_list \<Rightarrow> line_list" where
  "clear_flags ks l = foldl (\<lambda>l k. Set_flag_value l k 0) l ks"

definition job_action :: "int \<Rightarrow> int \<Rightarrow> cstr option \<Rightarrow> line_list \<Rightarrow> line_list" where
  "job_action action t opt i =
     (if action = OP_HOLD then Set_flag_value i HOLD_TIME t
      else if action = OP_TOPQ then Set_flag_value (Set_flag_value i HOLD_TIME 0) PRIORITY_TIME t
      else if action = OP_MOVE then
        Set_str_value (clear_flags [HOLD_TIME, PRIORITY_TIME, DONE_TIME, REMOVE_TIME, ERROR_TIME] (Set_str_value i MOVE opt))
          ERROR None
      else if action = OP_RELEASE then clear_flags [HOLD_TIME, ATTEMPT] i
      else if action = OP_REDO then clear_flags [HOLD_TIME, ATTEMPT, DONE_TIME, REMOVE_TIME] i
      else i)"

definition dest_action :: "int \<Rightarrow> int \<Rightarrow> line_list \<Rightarrow> line_list" where
  "dest_action action t d =
     (if action = OP_HOLD then Set_flag_value d HOLD_TIME t
      else if action = OP_TOPQ then Set_flag_value d HOLD_TIME 0
      else if action = OP_RELEASE then clear_flags [HOLD_TIME, ATTEMPT] d
      else if action = OP_REDO then clear_flags [HOLD_TIME, ATTEMPT, DONE_TIME, COPY_DONE] d
      else d)"

text \<open>
  The search for a destination that the words of the request select, from destination \<open>n\<close> on. The
  result is the job with the destination it has read last, and the number behind the selected one.
  The words are those from the fourth on, the name of the queue.
\<close>

fun match_dests :: "line_list \<Rightarrow> nat list \<Rightarrow> job \<Rightarrow> (job \<times> nat option) option" where
  "match_dests tokens [] j = Some (j, None)"
| "match_dests tokens (n # ns) j =
     (let j1 = fst (Get_destination j (int n)) in
      case Patselect tokens (destination j1) 3 of
        None \<Rightarrow> None
      | Some m \<Rightarrow> if m = 0 then Some (j1, Some (n + 1)) else match_dests tokens ns j1)"

definition select_job :: "line_list \<Rightarrow> nat \<Rightarrow> nat \<Rightarrow> job \<Rightarrow> (job \<times> nat option) option" where
  "select_job tokens dests n j =
     (if length tokens \<le> 4 then Some (j, Some n)
      else
        (case Patselect tokens (info j) 4 of
           None \<Rightarrow> None
         | Some m \<Rightarrow> if m = 0 then Some (j, Some n) else match_dests tokens [n..<dests] j))"

definition act_on :: "ctl_env \<Rightarrow> int \<Rightarrow> cstr option \<Rightarrow> nat \<Rightarrow> job \<Rightarrow> job option" where
  "act_on env action opt n j =
     (let t = now (c_job env); j1 = j\<lparr>info := job_action action t opt (info j)\<rparr>;
          r = (if n = 0 then Some j1
               else Update_destination (j1\<lparr>destination := dest_action action t (destination j1)\<rparr>))
      in map_option (\<lambda>j2. j2\<lparr>info := Set_flag_value (Set_str_value (info j2) ERROR None) ERROR_TIME 0\<rparr>) r)"

definition ctl_server :: "job \<Rightarrow> server_state" where
  "ctl_server j = \<lparr>ss_job = j, ss_ticket = None, ss_files = [], ss_done_count = 0, ss_done_time = 0,
     ss_control = [], ss_control_file = [], ss_mail = []\<rparr>"

text \<open>
  A selected job: its values are changed, the client is told, and the ticket is written. After a
  destination the search goes on behind it. \<open>None\<close> is a job without a ticket name or a search that
  does not end.
\<close>

definition store_ticket :: "cstr \<Rightarrow> cstr option \<Rightarrow> ctl_state \<Rightarrow> ctl_state" where
  "store_ticket f img st = st\<lparr>ct_tickets := (ct_tickets st)(ct_printer st := (ct_tickets st (ct_printer st))(f := img))\<rparr>"

definition selected_text :: "cstr \<Rightarrow> cstr \<Rightarrow> cstr" where
  "selected_text pr ident =
     plp_snprintf SMALLBUFFER (''%s: selected '' @ [CHR 0x27] @ ''%s'' @ [CHR 0x27, CHR 0x0A]) [AStr (Some pr), AStr (Some ident)]"

partial_function (option) job_rounds ::
  "ctl_env \<Rightarrow> int \<Rightarrow> line_list \<Rightarrow> cstr option \<Rightarrow> cstr \<Rightarrow> cstr \<Rightarrow> nat \<Rightarrow> nat \<Rightarrow> job \<Rightarrow> ctl_state \<Rightarrow> ctl_state option" where
  "job_rounds env action tokens opt f ident dests n j st =
     (case select_job tokens dests n j of
        None \<Rightarrow> None
      | Some (j1, None) \<Rightarrow> Some st
      | Some (j1, Some k) \<Rightarrow>
          (case act_on env action opt k j1 of
             None \<Rightarrow> None
           | Some j2 \<Rightarrow>
               (case Set_job_ticket_file (c_server env) (ctl_server j2) of
                  None \<Rightarrow> None
                | Some s \<Rightarrow>
                    (let st1 = store_ticket f (ss_ticket s) (say (selected_text (ct_printer st) ident) st) in
                     if k = 0 then Some st1
                     else job_rounds env action tokens opt f ident dests k (ss_job s) st1))))"

declare job_rounds.simps [code]

subsection \<open>Do\_job\_ticket\_file\<close>

text \<open>The check for a job is made without the job: its values can only be seen through the user and the host.\<close>

definition job_perm_check :: "ctl_env \<Rightarrow> perm_check \<Rightarrow> line_list \<Rightarrow> perm_check" where
  "job_perm_check env chk i =
     chk\<lparr>user := Find_str_value i LOGNAME, host := Option.bind (Find_str_value i FROMHOST) (c_host_of env)\<rparr>"

definition job_permission :: "ctl_env \<Rightarrow> perm_check \<Rightarrow> line_list \<Rightarrow> int option" where
  "job_permission env chk i =
     Perms_check (c_perm_env env) (c_perm_fuel env) (Some (c_perms env)) (Some (job_perm_check env chk i)) None True"

definition order_file :: "cstr \<Rightarrow> cstr" where
  "order_file s = (case strchr s (CHR ''='') of None \<Rightarrow> s | Some t \<Rightarrow> tl t)"

definition job_name :: "line_list \<Rightarrow> cstr option" where
  "job_name i = (case Find_str_value i IDENTIFIER of None \<Rightarrow> Find_str_value i XXCFTRANSFERNAME | Some s \<Rightarrow> Some s)"

text \<open>One job of the queue: the new state, and whether the search goes on. Without words that select jobs it ends with the first.\<close>

definition ticket_step ::
  "ctl_env \<Rightarrow> perm_check \<Rightarrow> int \<Rightarrow> line_list \<Rightarrow> cstr option \<Rightarrow> cstr \<Rightarrow> ctl_state \<Rightarrow> (ctl_state \<times> bool) option" where
  "ticket_step env chk action tokens opt f st =
     (let j = Get_job_ticket_file (ct_tickets st (ct_printer st) f) Init_job; i = info j in
      if Find_flag_value i INCOMING_TIME \<noteq> 0 then Some (st, True)
      else
        (case job_name i of
           None \<Rightarrow> Some (st, True)
         | Some ident \<Rightarrow>
             (case job_permission env chk i of
                None \<Rightarrow> None
              | Some p \<Rightarrow>
                  if p = P_REJECT then
                    Some (say (plp_snprintf SMALLBUFFER (''%s: no permission '' @ [CHR 0x27] @ ''%s'' @ [CHR 0x27, CHR 0x0A])
                                [AStr (Some (ct_printer st)), AStr (Some ident)]) st, True)
                  else
                    map_option (\<lambda>st1. (st1, 4 < length tokens))
                      (job_rounds env action tokens opt f ident (nat (Find_flag_value i DESTINATIONS)) 0 j st))))"

fun ticket_loop ::
  "ctl_env \<Rightarrow> perm_check \<Rightarrow> int \<Rightarrow> line_list \<Rightarrow> cstr option \<Rightarrow> cstr list \<Rightarrow> ctl_state \<Rightarrow> ctl_state option" where
  "ticket_loop env chk action tokens opt [] st = Some st"
| "ticket_loop env chk action tokens opt (f # fs) st =
     (case ticket_step env chk action tokens opt f st of
        None \<Rightarrow> None
      | Some (st1, go_on) \<Rightarrow> if go_on then ticket_loop env chk action tokens opt fs st1 else Some st1)"

text \<open>The spool directory, and the jobs in the order of the queue.\<close>

definition spool_files :: "queue_conf \<Rightarrow> ctl_state \<Rightarrow> (cstr \<times> cstr option) list option" where
  "spool_files q st = map_option (map (\<lambda>n. (n, ct_tickets st (ct_printer st) n))) (q_names q)"

definition Do_job_ticket_file ::
  "ctl_env \<Rightarrow> queue_conf \<Rightarrow> perm_check \<Rightarrow> int \<Rightarrow> line_list \<Rightarrow> cstr option \<Rightarrow> ctl_state \<Rightarrow> (ctl_state \<times> cstr option) option" where
  "Do_job_ticket_file env q chk action tokens opt st =
     (case Scan_queue (c_job env) (ct_control st) False None None (spool_files q st) of
        None \<Rightarrow> None
      | Some (scan, err) \<Rightarrow>
          if err \<noteq> 0 then
            Some (st, Some (plp_snprintf (int LINEBUFFER) (''Do_job_ticket_file: cannot read '' @ [CHR 0x27] @ ''%s'' @ [CHR 0x27] @
                      '' - '' @ [CHR 0x27] @ ''%s'' @ [CHR 0x27]) [AStr (Some (q_spool_dir q)), AStr (Some (c_errno env))]))
          else
            map_option (\<lambda>st1. (st1, None))
              (ticket_loop env chk action tokens opt (map order_file (order_list scan)) st))"

subsection \<open>Values of the queue control\<close>

text \<open>
  The end of an action: the handler goes on, is done, or has failed with a message, which can be empty.
\<close>

datatype ctl_exit = Go_on | Quit | Failed cstr

definition set_flags :: "(cstr \<times> int) list \<Rightarrow> line_list \<Rightarrow> line_list" where
  "set_flags ks l = foldl (\<lambda>l (k, v). Set_flag_value l k v) l ks"

text \<open>The switches of the queue an action sets.\<close>

definition action_flags :: "int \<Rightarrow> (cstr \<times> int) list option" where
  "action_flags action =
     (if action = OP_STOP then Some [(PRINTING_DISABLED, 1)]
      else if action = OP_START then Some [(PRINTING_DISABLED, 0), (PRINTING_ABORTED, 0)]
      else if action = OP_DISABLE then Some [(SPOOLING_DISABLED, 1)]
      else if action = OP_ENABLE then Some [(SPOOLING_DISABLED, 0)]
      else if action = OP_ABORT then Some [(PRINTING_ABORTED, 1)]
      else if action = OP_KILL then Some []
      else if action = OP_UP then Some [(PRINTING_ABORTED, 0), (PRINTING_DISABLED, 0), (SPOOLING_DISABLED, 0)]
      else if action = OP_DOWN then Some [(PRINTING_DISABLED, 1), (SPOOLING_DISABLED, 1)]
      else if action = OP_HOLDALL then Some [(HOLD_ALL, 1)]
      else if action = OP_NOHOLDALL then Some [(HOLD_ALL, 0)]
      else None)"

definition upd_control :: "(line_list \<Rightarrow> line_list) \<Rightarrow> ctl_state \<Rightarrow> ctl_state" where
  "upd_control f st = st\<lparr>ct_control := f (ct_control st)\<rparr>"

text \<open>
  A value that is shown, set, or cleared by the word \<open>off\<close>. To show it ends the handler without a
  message.
\<close>

definition show_or_set ::
  "cstr \<Rightarrow> (cstr option \<Rightarrow> ctl_state \<Rightarrow> ctl_state option) \<Rightarrow> line_list \<Rightarrow> ctl_state \<Rightarrow> (ctl_state \<times> ctl_exit) option" where
  "show_or_set key tell tokens st =
     (let n = length tokens; done_with = (\<lambda>e st1. map_option (\<lambda>s. (s, e)) (tell (Find_str_value (ct_control st1) key) st1)) in
      if n = 3 \<or> n = 4 then done_with (Failed []) st
      else if n = 5 then
        done_with Go_on
          (upd_control (\<lambda>c. Set_str_value c key
             (if safestrcasecmp (Some (tokens ! 4)) (Some ''off'') = 0 then None else Some (tokens ! 4))) st)
      else Some (st, Failed (plp_snprintf (int LINEBUFFER) ''wrong number arguments, %d'' [AInt (int n)])))"

definition Do_control_redirect :: "line_list \<Rightarrow> ctl_state \<Rightarrow> (ctl_state \<times> ctl_exit) option" where
  "Do_control_redirect =
     show_or_set FORWARDING
       (\<lambda>v st. Some (say (case v of
            Some s \<Rightarrow> plp_snprintf (int LINEBUFFER) (''forwarding to '' @ [CHR 0x27] @ ''%s'' @ [CHR 0x27, CHR 0x0A]) [AStr (Some s)]
          | None \<Rightarrow> plp_snprintf (int LINEBUFFER) (''forwarding off'' @ [CHR 0x0A]) []) st))"

definition Do_control_class :: "line_list \<Rightarrow> ctl_state \<Rightarrow> (ctl_state \<times> ctl_exit) option" where
  "Do_control_class =
     show_or_set CLASS
       (\<lambda>v st. Some (say (case v of
            Some s \<Rightarrow> plp_snprintf (int LINEBUFFER) (''classes printed '' @ [CHR 0x27] @ ''%s'' @ [CHR 0x27, CHR 0x0A]) [AStr (Some s)]
          | None \<Rightarrow> plp_snprintf (int LINEBUFFER) (''all classes printed'' @ [CHR 0x0A]) []) st))"

definition Do_control_debug :: "line_list \<Rightarrow> ctl_state \<Rightarrow> (ctl_state \<times> ctl_exit) option" where
  "Do_control_debug =
     show_or_set DEBUG
       (\<lambda>v. say_line LINEBUFFER (case v of
            Some s \<Rightarrow> plp_snprintf (int LINEBUFFER) (''debugging override set to '' @ [CHR 0x27] @ ''%s'' @ [CHR 0x27]) [AStr (Some s)]
          | None \<Rightarrow> plp_snprintf (int LINEBUFFER) ''debugging override off'' []))"

subsection \<open>Texts about a queue\<close>

text \<open>The comments of the status, in parentheses: the first blank becomes the opening one.\<close>

definition status_comment :: "ctl_env \<Rightarrow> queue_conf \<Rightarrow> line_list \<Rightarrow> cstr" where
  "status_comment env q sc =
     (let c1 = (if Hld_all sc \<noteq> 0 then '' holdall'' else []);
          c2 = (case Clsses sc of None \<Rightarrow> c1 | Some s \<Rightarrow> c1 @ plp_snprintf (int LINEBUFFER - int (length c1)) '' class=%s'' [AStr (Some s)]);
          c3 = (if q_Auto_hold q then c2 @ plp_snprintf (int LINEBUFFER - int (length c2)) '' autohold'' [] else c2)
      in if c3 = [] then [] else CHR ''('' # tl c3 @ plp_snprintf (int LINEBUFFER - int (length c3)) '')'' [])"

definition status_header :: cstr where
  "status_header = ''%-18s %8s %8s %4s %7s %7s %8s %s%s''"

definition Do_control_status :: "ctl_env \<Rightarrow> queue_conf \<Rightarrow> ctl_state \<Rightarrow> (ctl_state \<times> ctl_exit) option" where
  "Do_control_status env q st0 =
     (let st = st0\<lparr>ct_control := Get_spool_control (ct_control_file st0 (ct_printer st0))\<rparr>; sc = ct_control st in
      case Scan_queue (c_job env) sc True None None (spool_files q st) of
        None \<Rightarrow> None
      | Some (scan, err) \<Rightarrow>
          if err \<noteq> 0 then
            Some (st, Failed (plp_snprintf (int LINEBUFFER) (''Do_control_status: cannot read '' @ [CHR 0x27] @ ''%s'' @ [CHR 0x27] @
                      '' - '' @ [CHR 0x27] @ ''%s'' @ [CHR 0x27]) [AStr (Some (q_spool_dir q)), AStr (Some (c_errno env))]))
          else
            (let num = (\<lambda>n. plp_snprintf 32 ''%d'' [AInt n]);
                 spid = Server_active (c_job env) (q_server_lock q); upid = Server_active (c_job env) (q_unspooler_lock q);
                 pr = plp_snprintf (int LINEBUFFER) ''%s@%s'' [AStr (Some (ct_printer st)),
                        AStr (Some (case q_Report_server_as q of Some r \<Rightarrow> r | None \<Rightarrow> c_short_host env))];
                 server = (if spid \<noteq> 0 then num spid else ''none'');
                 spooler = (case q_Server_names q of
                              Some s \<Rightarrow> plp_snprintf 32 ''%s'' [AStr (Some s)]
                            | None \<Rightarrow> if upid \<noteq> 0 then num upid else ''none'');
                 forward = (case Frwarding sc of None \<Rightarrow> [] | Some s \<Rightarrow> plp_snprintf (int LINEBUFFER) ''%s'' [AStr (Some s)]);
                 debugstr = (case Cntrol_debug sc of None \<Rightarrow> [] | Some s \<Rightarrow> plp_snprintf (int LINEBUFFER) ''(%s)'' [AStr (Some s)]);
                 line = plp_snprintf SMALLBUFFER status_header
                   (map (\<lambda>s. AStr (Some s))
                      [pr, if Pr_disabled sc \<noteq> 0 then ''disabled'' else if Pr_aborted sc \<noteq> 0 then ''aborted'' else ''enabled'',
                       if Sp_disabled sc \<noteq> 0 then ''disabled'' else ''enabled'',
                       num (n_printable scan), server, spooler, forward, status_comment env q sc, debugstr])
             in map_option (\<lambda>s. (s, Quit)) (say_line 512 (trunc_str line) st)))"

definition before_last :: "char \<Rightarrow> cstr \<Rightarrow> cstr" where
  "before_last c s = (case strrchr s c of None \<Rightarrow> s | Some t \<Rightarrow> take (length s - length t) s)"

definition Do_control_printcap :: "queue_conf \<Rightarrow> ctl_state \<Rightarrow> ctl_state" where
  "Do_control_printcap q st =
     (case (Join_line_list (q_aliases q) (Some ''|''), Join_line_list (q_entry q) (Some (CHR 0x0A # '' :''))) of
        (Some t, Some s) \<Rightarrow> say (before_last (CHR '' '') (before_last (CHR ''|'') t @ CHR 0x0A # '' :'' @ s)) st
      | _ \<Rightarrow> say [CHR 0x0A] st)"

definition Do_control_ppd :: "ctl_env \<Rightarrow> queue_conf \<Rightarrow> ctl_state \<Rightarrow> ctl_state" where
  "Do_control_ppd env q st =
     (case q_Ppd_file q of
        None \<Rightarrow> st
      | Some f \<Rightarrow>
          if f = [] then st
          else (case c_file env f of
                  None \<Rightarrow> say (plp_snprintf (int LARGEBUFFER) (''%s: cannot open '' @ [CHR 0x27] @ ''%s'' @ [CHR 0x27] @ '' - '' @
                              [CHR 0x27] @ ''%s'' @ [CHR 0x27, CHR 0x0A])
                            [AStr (Some (ct_printer st)), AStr (Some f), AStr (Some (c_errno env))]) st
                | Some content \<Rightarrow> if content = [] then st else say content st))"

definition Do_control_defaultq :: "ctl_env \<Rightarrow> ctl_state \<Rightarrow> ctl_state" where
  "Do_control_defaultq env st =
     say (plp_snprintf (int LINEBUFFER) (''%s'' @ [CHR 0x0A]) [AStr (Some (c_default_queue env))])
       (st\<lparr>ct_printer := c_default_queue env\<rparr>)"

subsection \<open>Do\_queue\_control\<close>

text \<open>
  \<open>Setup_printer\<close> makes a queue the current one and reads its control file. The result is the state, the
  configuration of the queue and the message of a failure, for which the caller has \<open>room\<close>. The printer
  gets the name of its printcap entry.
\<close>

definition Setup_printer :: "ctl_env \<Rightarrow> int \<Rightarrow> cstr \<Rightarrow> ctl_state \<Rightarrow> ctl_state \<times> (cstr + queue_conf)" where
  "Setup_printer env room prname st =
     (let name0 = take 511 prname in
      case Is_clean_name (Some name0) of
        Some s \<Rightarrow> (st, Inl (plp_snprintf room (''printer '' @ [CHR 0x27] @ ''%s'' @ [CHR 0x27] @
                     '' has illegal char at '' @ [CHR 0x27] @ ''%s'' @ [CHR 0x27] @ '' in name'') [AStr (Some name0), AStr (Some s)]))
      | None \<Rightarrow>
          (let name = lowercase name0; st1 = st\<lparr>ct_printer := name\<rparr> in
           case c_queue env name of
             None \<Rightarrow> (st1, Inl (plp_snprintf room
                (''spool queue for '' @ [CHR 0x27] @ ''%s'' @ [CHR 0x27] @ '' does not exist on server %s'' @ [CHR 0x0A] @
                 ''check for correct printer name or you may need to run'' @ [CHR 0x0A] @
                 [CHR 0x27] @ ''checkpc -f'' @ [CHR 0x27] @ '' to create queue'') [AStr (Some name), AStr (Some (c_fqdn env))]))
           | Some q \<Rightarrow>
               if c_chdir env (q_spool_dir q) then
                 (st1\<lparr>ct_printer := q_printer q, ct_control := Get_spool_control (ct_control_file st1 (q_printer q))\<rparr>, Inr q)
               else (st1\<lparr>ct_printer := q_printer q\<rparr>, Inl (plp_snprintf room (''printer '' @ [CHR 0x27] @ ''%s'' @ [CHR 0x27] @ '', chdir to '' @
                       [CHR 0x27] @ ''%s'' @ [CHR 0x27] @ '' failed '' @ [CHR 0x27] @ ''%s'' @ [CHR 0x27])
                       [AStr (Some name), AStr (Some (q_spool_dir q)), AStr (Some (c_errno env))]))))"

text \<open>
  The action on the queue. \<open>Do_control_lpq\<close>, for \<open>lpq\<close> and \<open>lprm\<close>, makes up a request and drops it.
\<close>

definition queue_action ::
  "ctl_env \<Rightarrow> queue_conf \<Rightarrow> perm_check \<Rightarrow> int \<Rightarrow> line_list \<Rightarrow> ctl_state \<Rightarrow> (ctl_state \<times> ctl_exit) option" where
  "queue_action env q chk action tokens st =
     (let tickets = (\<lambda>tokens opt st. map_option (\<lambda>(s, e). (s, case e of None \<Rightarrow> Go_on | Some m \<Rightarrow> Failed m))
                       (Do_job_ticket_file env q chk action tokens opt st)) in
      case action_flags action of
        Some ks \<Rightarrow> Some (upd_control (set_flags ks) st, Go_on)
      | None \<Rightarrow>
          if action = OP_LPQ then Some (st, Quit)
          else if action = OP_PRINTCAP then Some (Do_control_printcap q st, Quit)
          else if action = OP_PPD then Some (Do_control_ppd env q st, Quit)
          else if action = OP_STATUS then Do_control_status env q st
          else if action = OP_RELEASE \<or> action = OP_REDO \<or> action = OP_TOPQ then
            tickets tokens None (upd_control (set_flags [(PRINTING_ABORTED, 0), (PRINTING_DISABLED, 0)]) st)
          else if action = OP_HOLD then tickets tokens None st
          else if action = OP_MSG then
            Some (upd_control (\<lambda>c. Set_str_value c MSG (map_option butlast (Join_line_list (drop 4 tokens) (Some '' ''))))
                    (st\<lparr>ct_unlinked := ct_unlinked st @ (case q_Lpq_status_file q of None \<Rightarrow> [] | Some f \<Rightarrow> [f])\<rparr>), Go_on)
          else if action = OP_MOVE then
            (if tokens = [] then None else tickets (butlast tokens) (Some (last tokens)) st)
          else if action = OP_LPRM then Some (st, Go_on)
          else if action = OP_REDIRECT then Do_control_redirect tokens st
          else if action = OP_CLASS then Do_control_class tokens st
          else if action = OP_DEBUG then Do_control_debug tokens st
          else if action = OP_FLUSH then
            Some (st\<lparr>ct_unlinked := ct_unlinked st @ (case q_Lpq_status_file q of None \<Rightarrow> [] | Some f \<Rightarrow> [f]),
                     ct_truncated := ct_truncated st @ q_status_files q\<rparr>, Go_on)
          else Some (st, Failed (plp_snprintf (int LINEBUFFER) ''not implemented yet'' [])))"

definition Set_spool_control :: "queue_conf \<Rightarrow> ctl_state \<Rightarrow> ctl_state" where
  "Set_spool_control q st =
     st\<lparr>ct_control_file := (ct_control_file st)(ct_printer st := Some (store_image (ct_control st))),
        ct_unlinked := ct_unlinked st @ (case q_Lpq_status_file q of None \<Rightarrow> [] | Some f \<Rightarrow> [f])\<rparr>"

definition action_signal :: "int \<Rightarrow> signal option" where
  "action_signal action =
     (if action = OP_ABORT \<or> action = OP_KILL then Some SIGINT else if action = OP_FLUSH then None else Some SIGUSR1)"

text \<open>The server of the queue is signalled. The result has its process id, which is 0 if no signal is meant for it.\<close>

definition signal_server :: "ctl_env \<Rightarrow> queue_conf \<Rightarrow> int \<Rightarrow> ctl_state \<Rightarrow> ctl_state \<times> int" where
  "signal_server env q action st =
     (case action_signal action of
        None \<Rightarrow> (st, 0)
      | Some sig \<Rightarrow>
          (let pid = Read_pid_from_file (q_lock q) in
           if pid \<le> 0 then (st, pid)
           else
             (let kills = (if sig = SIGUSR1 then []
                           else [(True, pid, sig), (True, pid, SIGHUP), (True, pid, SIGQUIT),
                                 (False, pid, sig), (False, pid, SIGHUP), (False, pid, SIGQUIT)]) @ [(False, pid, sig)];
                  msg = (if c_kill env pid sig then
                           plp_snprintf (int LINEBUFFER) (''kill server process PID %ld with %s'' @ [CHR 0x0A]) [AInt pid, AStr (Some (c_sigstr env sig))]
                         else plp_snprintf (int LINEBUFFER) (''server process PID %ld exited'' @ [CHR 0x0A]) [AInt pid])
              in (say msg (st\<lparr>ct_signals := ct_signals st @ kills\<rparr>), pid))))"

definition action_text :: "int \<Rightarrow> cstr" where
  "action_text action =
     (if action = OP_UP then ''enabled and started'' else if action = OP_DOWN then ''disabled and stopped''
      else if action = OP_STOP then ''stopped''
      else if action \<in> {OP_RELEASE, OP_REDO, OP_TOPQ, OP_START} then ''started''
      else if action = OP_DISABLE then ''disabled'' else if action = OP_ENABLE then ''enabled''
      else if action = OP_REDIRECT then ''redirected'' else if action = OP_HOLDALL then ''holdall on''
      else if action = OP_NOHOLDALL then ''holdall off'' else if action = OP_MOVE then ''move done''
      else if action = OP_CLASS then ''class updated'' else if action = OP_KILL then ''killed job''
      else if action = OP_ABORT then ''aborted job'' else if action = OP_FLUSH then ''flushed status''
      else ''updated'')"

text \<open>
  The main server of a group of queues, which is set up as the current queue. The warning that it may
  have exited is sent when it has been signalled.
\<close>

definition signal_main :: "ctl_env \<Rightarrow> int \<Rightarrow> cstr \<Rightarrow> ctl_state \<Rightarrow> ctl_state \<times> (cstr + int)" where
  "signal_main env action main st =
     (case Setup_printer env (int LINEBUFFER) main st of
        (st1, Inl e) \<Rightarrow> (st1, Inl e)
      | (st1, Inr q) \<Rightarrow>
          (case action_signal action of
             None \<Rightarrow> (st1, Inr 0)
           | Some sig \<Rightarrow>
               (let pid = Read_pid_from_file (q_lock q) in
                if pid \<le> 0 then (st1, Inr 0)
                else
                  (let st2 = st1\<lparr>ct_signals := ct_signals st1 @ [(False, pid, sig)]\<rparr> in
                   if \<not> c_kill env pid sig then (st2, Inr 0)
                   else (say (plp_snprintf (int LINEBUFFER)
                           (''WARNING: the main load balance server may have exited before'' @ [CHR 0x0A] @
                            ''it could be informed that there were new jobs.'' @ [CHR 0x0A] @
                            ''Please use '' @ [CHR 0x27] @ ''lpc start %s'' @ [CHR 0x27] @ '' to start the server'' @ [CHR 0x0A])
                           [AStr (Some main)]) st2, Inr pid)))))"

text \<open>Whether \<open>lpd\<close> is asked to start the server, with the process id of a server that is running.\<close>

definition starts_server :: "int \<Rightarrow> int \<Rightarrow> bool" where
  "starts_server action pid \<longleftrightarrow>
     action \<in> {OP_KILL, OP_TOPQ, OP_RELEASE, OP_REDO, OP_UP, OP_START, OP_REDIRECT, OP_MOVE, OP_CLASS}
     \<and> (action = OP_KILL \<or> action = OP_START \<or> pid \<le> 0)"

definition request_start :: "int \<Rightarrow> int \<Rightarrow> ctl_state \<Rightarrow> ctl_state" where
  "request_start action pid st =
     (if starts_server action pid then
        st\<lparr>ct_requests := ct_requests st @ [plp_snprintf (int LINEBUFFER) (''%s'' @ [CHR 0x0A]) [AStr (Some (ct_printer st))]]\<rparr>
      else st)"

text \<open>\<open>sizeof(error)\<close> in \<open>Do_queue_control\<close> is the size of a pointer, so that the refusal is cut off.\<close>

definition pointer_size :: int where "pointer_size = 8"

definition say_failure :: "ctl_env \<Rightarrow> cstr \<Rightarrow> ctl_state \<Rightarrow> ctl_state" where
  "say_failure env e st =
     (if e = [] then st
      else say (plp_snprintf (int LINEBUFFER) (''%s@%s: %s'' @ [CHR 0x0A])
                  [AStr (Some (ct_printer st)), AStr (Some (c_short_host env)), AStr (Some e)]) st)"

definition after_action :: "ctl_env \<Rightarrow> queue_conf \<Rightarrow> int \<Rightarrow> ctl_state \<Rightarrow> ctl_state" where
  "after_action env q action st =
     (let st1 = Set_spool_control q
                  (if q_Server_queue_name q = None then st else upd_control (\<lambda>c. Set_flag_value c CHANGE 1) st) in
      case signal_server env q action st1 of
        (st2, pid) \<Rightarrow>
          (let st3 = say (plp_snprintf (int LINEBUFFER) (''%s@%s: %s'' @ [CHR 0x0A])
                            [AStr (Some (ct_printer st2)), AStr (Some (c_fqdn env)), AStr (Some (action_text action))]) st2 in
           case q_Server_queue_name q of
             None \<Rightarrow> request_start action pid st3
           | Some main \<Rightarrow>
               (case signal_main env action main st3 of
                  (st4, Inl e) \<Rightarrow> say_failure env e st4
                | (st4, Inr pid2) \<Rightarrow> request_start action pid2 st4)))"

definition queue_check :: "ctl_env \<Rightarrow> cstr \<Rightarrow> cstr \<Rightarrow> perm_check" where
  "queue_check env pr usr =
     (c_check env)\<lparr>printer := Some pr, remoteuser := Some usr, service := CHR ''C'', user := None, host := None\<rparr>"

definition Do_queue_control :: "ctl_env \<Rightarrow> cstr \<Rightarrow> cstr \<Rightarrow> int \<Rightarrow> line_list \<Rightarrow> ctl_state \<Rightarrow> ctl_state option" where
  "Do_queue_control env usr lpc_word action tokens st =
     (let st1 = (if action = OP_STATUS then st
                 else say (plp_snprintf (int LINEBUFFER) (''Printer: %s@%s'' @ [CHR 0x0A])
                             [AStr (Some (ct_printer st)), AStr (Some (c_short_host env))]) st) in
      case Setup_printer env (int LINEBUFFER) (ct_printer st1) st1 of
        (st2, Inl e) \<Rightarrow> Some (say_failure env e st2)
      | (st2, Inr q) \<Rightarrow>
          (let chk = (queue_check env (ct_printer st2) usr)\<lparr>lpc := Some lpc_word\<rparr> in
           case Perms_check (c_perm_env env) (c_perm_fuel env) (Some (c_perms env)) (Some chk) None False of
             None \<Rightarrow> None
           | Some p \<Rightarrow>
               if p = P_REJECT then Some (say_failure env (plp_snprintf pointer_size ''no permission'' []) st2)
               else
                 (case queue_action env q chk action tokens st2 of
                    None \<Rightarrow> None
                  | Some (st3, Go_on) \<Rightarrow> Some (after_action env q action st3)
                  | Some (st3, Quit) \<Rightarrow> Some st3
                  | Some (st3, Failed e) \<Rightarrow> Some (say_failure env e st3))))"

subsection \<open>Job\_control\<close>

fun for_printers :: "(ctl_state \<Rightarrow> ctl_state option) \<Rightarrow> cstr list \<Rightarrow> ctl_state \<Rightarrow> ctl_state option" where
  "for_printers f [] st = Some st"
| "for_printers f (pr # prs) st = Option.bind (f (st\<lparr>ct_printer := pr\<rparr>)) (for_printers f prs)"

definition Do_printer_work :: "ctl_env \<Rightarrow> cstr \<Rightarrow> cstr \<Rightarrow> int \<Rightarrow> line_list \<Rightarrow> ctl_state \<Rightarrow> ctl_state option" where
  "Do_printer_work env usr lpc_word action tokens st =
     (if safestrcasecmp (Some (ct_printer st)) (Some ALL_word) \<noteq> 0 then Do_queue_control env usr lpc_word action tokens st
      else for_printers (Do_queue_control env usr lpc_word action tokens) (c_all env) st)"

text \<open>The actions that take a list of queues.\<close>

definition list_actions :: "int set" where
  "list_actions = {OP_STATUS, OP_STOP, OP_START, OP_DISABLE, OP_ENABLE, OP_ABORT, OP_UP, OP_DOWN, OP_HOLDALL, OP_NOHOLDALL}"

definition status_title :: cstr where
  "status_title = plp_snprintf (int LINEBUFFER) status_header
     (map (\<lambda>s. AStr (Some s)) ['' Printer'', ''Printing'', ''Spooling'', ''Jobs'', ''Server'', ''Subserver'', ''Redirect'', ''Status/(Debug)'', [] ])"

definition control_work :: "ctl_env \<Rightarrow> cstr \<Rightarrow> cstr \<Rightarrow> int \<Rightarrow> line_list \<Rightarrow> ctl_state \<Rightarrow> ctl_state option" where
  "control_work env usr lpc_word action tokens st =
     (if action \<in> list_actions \<and> 4 < length tokens then
        for_printers (Do_printer_work env usr lpc_word action []) (drop 3 tokens) st
      else if action = OP_MOVE \<and> length tokens < 5 then
        say_line LINEBUFFER (plp_snprintf (int LINEBUFFER) ''Use: move printer (user|jobid)* target'' []) st
      else Do_printer_work env usr lpc_word action tokens st)"

definition server_text :: "ctl_env \<Rightarrow> cstr \<Rightarrow> cstr" where
  "server_text env tail =
     plp_snprintf (int LINEBUFFER) (''lpd server pid %d on %s'' @ tail @ [CHR 0x0A]) [AInt (c_server_pid env), AStr (Some (c_fqdn env))]"

definition control_tokens :: "cstr \<Rightarrow> line_list" where
  "control_tokens input = Split [] (takeWhile (\<lambda>c. c \<noteq> CHR 0x0A) (tl input)) Whitespace False None False NUL False None"

definition Job_control :: "ctl_env \<Rightarrow> cstr \<Rightarrow> ctl_state \<Rightarrow> ctl_state option" where
  "Job_control env input st =
     (let tokens = control_tokens input; fail = (\<lambda>fmt args st. say_line LINEBUFFER (plp_snprintf (int LINEBUFFER) fmt args) st) in
      if length tokens < 3 then
        fail (''bad control command '' @ [CHR 0x27] @ ''%s'' @ [CHR 0x27]) [AStr (Some (takeWhile (\<lambda>c. c \<noteq> CHR 0x0A) (tl input)))] st
      else
        (let name = (if 3 < length tokens then tokens ! 3 else tokens ! 0); usr = tokens ! 1; word = tokens ! 2 in
         case Is_clean_name (Some name) of
           Some s \<Rightarrow> fail (''printer '' @ [CHR 0x27] @ ''%s'' @ [CHR 0x27] @ '' has illegal char at '' @ [CHR 0x27] @ ''%s'' @
                      [CHR 0x27] @ '' in name'') [AStr (Some name), AStr (Some s)] st
         | None \<Rightarrow>
             (let st1 = st\<lparr>ct_printer := name\<rparr>; action = Get_controlword (c_translate env) word in
              if action = 0 then
                fail (''%s: unknown control request '' @ [CHR 0x27] @ ''%s'' @ [CHR 0x27]) [AStr (Some name), AStr (Some word)] st1
              else
                (case Perms_check (c_perm_env env) (c_perm_fuel env) (Some (c_perms env))
                        (Some ((c_check env)\<lparr>printer := Some name, remoteuser := Some usr, service := CHR ''C'', lpc := Some word\<rparr>))
                        None False of
                   None \<Rightarrow> None
                 | Some p \<Rightarrow>
                     if action \<in> {OP_REREAD, OP_LPD, OP_DEFAULTQ, OP_STATUS} \<and> p = P_REJECT then
                       fail ''no permission to control server'' [] st1
                     else if action = OP_REREAD then
                       Some (say (server_text env '', sending SIGHUP'')
                               (st1\<lparr>ct_signals := ct_signals st1 @ [(False, c_server_pid env, SIGHUP)]\<rparr>))
                     else if action = OP_LPD then Some (say (server_text env []) st1)
                     else if action = OP_DEFAULTQ then Some (Do_control_defaultq env st1)
                     else if action = OP_STATUS then
                       Option.bind (say_line LINEBUFFER status_title st1) (control_work env usr word action tokens)
                     else control_work env usr word action tokens st1))))"

subsection \<open>Which jobs are changed\<close>

lemma say_simps [simp]:
  "ct_tickets (say s st) = ct_tickets st" "ct_printer (say s st) = ct_printer st" "ct_control (say s st) = ct_control st"
  "ct_control_file (say s st) = ct_control_file st" "ct_requests (say s st) = ct_requests st"
  "ct_signals (say s st) = ct_signals st"
  by (simp_all add: say_def)

lemma store_ticket_simps [simp]:
  "ct_printer (store_ticket f img st) = ct_printer st" "ct_control (store_ticket f img st) = ct_control st"
  "ct_control_file (store_ticket f img st) = ct_control_file st"
  by (simp_all add: store_ticket_def)

definition same_tickets :: "cstr \<Rightarrow> ctl_state \<Rightarrow> ctl_state \<Rightarrow> bool" where
  "same_tickets f st st' \<longleftrightarrow> ct_printer st' = ct_printer st
     \<and> (\<forall>pr f'. (pr, f') \<noteq> (ct_printer st, f) \<longrightarrow> ct_tickets st' pr f' = ct_tickets st pr f')"

lemma same_tickets_refl [simp]: "same_tickets f st st"
  by (simp add: same_tickets_def)

lemma same_tickets_store: "same_tickets f st (store_ticket f img (say s st))"
  by (simp add: same_tickets_def store_ticket_def)

lemma same_tickets_trans: "same_tickets f a b \<Longrightarrow> same_tickets f b c \<Longrightarrow> same_tickets f a c"
  by (simp add: same_tickets_def)

lemma job_rounds_same:
  assumes "job_rounds env action tokens opt f ident dests n j st = Some st'"
  shows "same_tickets f st st'"
  using assms
proof (induction rule: job_rounds.raw_induct [rotated, consumes 1])
  case (1 rec env action tokens opt f ident dests n j st st')
  show ?case
  proof (cases "select_job tokens dests n j")
    case None
    with 1(2) show ?thesis by simp
  next
    case (Some r)
    obtain j1 k' where r: "r = (j1, k')" by fastforce
    show ?thesis
    proof (cases k')
      case None
      with 1(2) Some r show ?thesis by simp
    next
      case k: (Some k)
      with 1(2) Some r obtain j2 s where
        s: "act_on env action opt k j1 = Some j2" "Set_job_ticket_file (c_server env) (ctl_server j2) = Some s"
        "(let st1 = store_ticket f (ss_ticket s) (say (selected_text (ct_printer st) ident) st) in
          if k = 0 then Some st1 else rec env action tokens opt f ident dests k (ss_job s) st1) = Some st'"
        by (auto split: option.splits)
      show ?thesis
      proof (cases "k = 0")
        case True
        with s(3) show ?thesis by (auto simp: Let_def intro: same_tickets_store)
      next
        case False
        with s(3) have "rec env action tokens opt f ident dests k (ss_job s)
            (store_ticket f (ss_ticket s) (say (selected_text (ct_printer st) ident) st)) = Some st'"
          by (simp add: Let_def)
        from same_tickets_trans [OF same_tickets_store 1(1) [OF this]] show ?thesis .
      qed
    qed
  qed
qed

text \<open>What a request must be for a ticket to be changed: the job is complete and named, it may be controlled, and a word selects it.\<close>

definition selected :: "line_list \<Rightarrow> job \<Rightarrow> bool" where
  "selected tokens j \<longleftrightarrow>
     length tokens \<le> 4 \<or> Patselect tokens (info j) 4 = Some 0
     \<or> (\<exists>n < nat (Find_flag_value (info j) DESTINATIONS). Patselect tokens (destination (fst (Get_destination j (int n)))) 3 = Some 0)"

definition may_change :: "ctl_env \<Rightarrow> perm_check \<Rightarrow> line_list \<Rightarrow> job \<Rightarrow> bool" where
  "may_change env chk tokens j \<longleftrightarrow>
     Find_flag_value (info j) INCOMING_TIME = 0 \<and> job_name (info j) \<noteq> None
     \<and> (\<exists>p. job_permission env chk (info j) = Some p \<and> p \<noteq> P_REJECT) \<and> selected tokens j"

lemma Get_destination_info: "info (fst (Get_destination j n)) = info j" "datafiles (fst (Get_destination j n)) = datafiles j"
  by (simp_all add: Get_destination_def read_destination_def split: option.split)

lemma match_dests_found:
  "match_dests tokens ns j = Some (j1, Some k) \<Longrightarrow> \<exists>n\<in>set ns. Patselect tokens (destination (fst (Get_destination j (int n)))) 3 = Some 0"
proof (induction ns arbitrary: j)
  case (Cons n ns)
  have e: "Get_destination (fst (Get_destination j (int n))) m = Get_destination j m" for m
    by (auto simp: Get_destination_def read_destination_def split: option.split)
  from Cons show ?case by (fastforce simp: Let_def e split: option.splits if_splits)
qed simp

lemma job_rounds_changes:
  assumes "job_rounds env action tokens opt f ident (nat (Find_flag_value (info j) DESTINATIONS)) 0 j st = Some st'"
    and "st' \<noteq> st"
  shows "selected tokens j"
proof -
  from assms obtain j1 k where "select_job tokens (nat (Find_flag_value (info j) DESTINATIONS)) 0 j = Some (j1, Some k)"
    by (subst (asm) job_rounds.simps) (auto split: option.splits)
  then show ?thesis
    by (fastforce simp: select_job_def selected_def split: if_splits option.splits dest: match_dests_found)
qed

lemma ticket_step_spec:
  assumes "ticket_step env chk action tokens opt f st = Some (st', go)"
  shows "same_tickets f st st'"
    and "ct_tickets st' (ct_printer st) f \<noteq> ct_tickets st (ct_printer st) f
         \<Longrightarrow> may_change env chk tokens (Get_job_ticket_file (ct_tickets st (ct_printer st) f) Init_job) \<and> go = (4 < length tokens)"
proof -
  let ?j = "Get_job_ticket_file (ct_tickets st (ct_printer st) f) Init_job"
  show "same_tickets f st st'"
    using assms job_rounds_same
    by (auto simp: ticket_step_def Let_def same_tickets_def split: if_splits option.splits)
  show "may_change env chk tokens ?j \<and> go = (4 < length tokens)"
    if c: "ct_tickets st' (ct_printer st) f \<noteq> ct_tickets st (ct_printer st) f"
    using assms c job_rounds_changes
    by (fastforce simp: ticket_step_def Let_def may_change_def split: if_splits option.splits)
qed

definition changed :: "cstr \<Rightarrow> ctl_state \<Rightarrow> ctl_state \<Rightarrow> cstr set" where
  "changed pr st st' = {f. ct_tickets st' pr f \<noteq> ct_tickets st pr f}"

lemma same_tickets_changed: "same_tickets f st st' \<Longrightarrow> changed (ct_printer st) st st' \<subseteq> {f}"
  by (auto simp: same_tickets_def changed_def)

lemma changed_trans: "changed pr a c \<subseteq> changed pr a b \<union> changed pr b c"
  by (auto simp: changed_def)

lemma ticket_loop_spec:
  assumes "ticket_loop env chk action tokens opt fs st = Some st'"
  shows "(\<forall>f\<in>changed (ct_printer st) st st'. f \<in> set fs
            \<and> may_change env chk tokens (Get_job_ticket_file (ct_tickets st (ct_printer st) f) Init_job))
    \<and> (length tokens \<le> 4 \<longrightarrow> (\<exists>f. changed (ct_printer st) st st' \<subseteq> {f}))
    \<and> (\<forall>pr. pr \<noteq> ct_printer st \<longrightarrow> ct_tickets st' pr = ct_tickets st pr)"
  using assms
proof (induction fs arbitrary: st)
  case Nil
  then show ?case by (simp add: changed_def)
next
  case (Cons f fs)
  then obtain st1 go where s: "ticket_step env chk action tokens opt f st = Some (st1, go)"
    "if go then ticket_loop env chk action tokens opt fs st1 = Some st' else st1 = st'"
    by (auto split: option.splits if_splits)
  note spec = ticket_step_spec [OF s(1)]
  note sub = same_tickets_changed [OF spec(1)]
  have pr: "ct_printer st1 = ct_printer st" "\<forall>pr. pr \<noteq> ct_printer st \<longrightarrow> ct_tickets st1 pr = ct_tickets st pr"
    using spec(1) by (auto simp: same_tickets_def)
  show ?case
  proof (cases go)
    case False
    with s(2) spec(2) sub pr show ?thesis by (auto simp: changed_def)
  next
    case True
    with s(2) have l: "ticket_loop env chk action tokens opt fs st1 = Some st'" by simp
    note IH = Cons.IH [OF l]
    have one: "changed (ct_printer st) st st1 = {}" if "length tokens \<le> 4"
      using spec(2) sub True that by (auto simp: changed_def)
    have "f' \<in> set (f # fs) \<and> may_change env chk tokens (Get_job_ticket_file (ct_tickets st (ct_printer st) f') Init_job)"
      if "f' \<in> changed (ct_printer st) st st'" for f'
    proof (cases "f' \<in> changed (ct_printer st) st st1")
      case True
      with sub spec(2) show ?thesis by (auto simp: changed_def)
    next
      case False
      then have e: "ct_tickets st1 (ct_printer st) f' = ct_tickets st (ct_printer st) f'" by (simp add: changed_def)
      with that have "f' \<in> changed (ct_printer st1) st1 st'" using pr(1) by (simp add: changed_def)
      from bspec [OF conjunct1 [OF IH] this] show ?thesis using pr(1) e by simp
    qed
    moreover have "\<exists>f'. changed (ct_printer st) st st' \<subseteq> {f'}" if "length tokens \<le> 4"
      using IH pr(1) one [OF that] that changed_trans [of "ct_printer st" st st' st1] by simp (meson subset_trans)
    ultimately show ?thesis using IH pr by simp
  qed
qed

text \<open>
  C6: a request to hold, release, move, repeat or reorder jobs changes the ticket of a job only if the job is
  complete, the permissions do not reject the request for its user and host, and the words select the
  job or one of its destinations. Without words it changes one job at most. Other queues are left
  alone.
\<close>

theorem tickets_guarded:
  assumes "Do_job_ticket_file env q chk action tokens opt st = Some (st', e)"
  shows "(\<forall>f\<in>changed (ct_printer st) st st'.
            may_change env chk tokens (Get_job_ticket_file (ct_tickets st (ct_printer st) f) Init_job))
    \<and> (length tokens \<le> 4 \<longrightarrow> (\<exists>f. changed (ct_printer st) st st' \<subseteq> {f}))
    \<and> (\<forall>pr. pr \<noteq> ct_printer st \<longrightarrow> ct_tickets st' pr = ct_tickets st pr)"
proof -
  have "st' = st \<or> (\<exists>fs. ticket_loop env chk action tokens opt fs st = Some st')"
    using assms by (fastforce simp: Do_job_ticket_file_def split: option.splits prod.splits if_splits)
  then show ?thesis
  proof (elim disjE exE)
    assume "st' = st"
    then show ?thesis by (simp add: changed_def)
  next
    fix fs assume "ticket_loop env chk action tokens opt fs st = Some st'"
    from ticket_loop_spec [OF this] show ?thesis by blast
  qed
qed

subsection \<open>The switches of a queue\<close>

record switches =
  printing :: bool
  aborted :: bool
  spooling :: bool
  holding :: bool

definition switches_of :: "line_list \<Rightarrow> switches" where
  "switches_of sc = \<lparr>printing = (Pr_disabled sc = 0), aborted = (Pr_aborted sc \<noteq> 0), spooling = (Sp_disabled sc = 0),
     holding = (Hld_all sc \<noteq> 0)\<rparr>"

text \<open>What the manual of \<open>lpc\<close> says of the commands.\<close>

definition switch_step :: "int \<Rightarrow> switches \<Rightarrow> switches" where
  "switch_step action w =
     (if action = OP_STOP then w\<lparr>printing := False\<rparr>
      else if action = OP_START then w\<lparr>printing := True, aborted := False\<rparr>
      else if action = OP_DISABLE then w\<lparr>spooling := False\<rparr>
      else if action = OP_ENABLE then w\<lparr>spooling := True\<rparr>
      else if action = OP_ABORT then w\<lparr>aborted := True\<rparr>
      else if action = OP_UP then w\<lparr>printing := True, aborted := False, spooling := True\<rparr>
      else if action = OP_DOWN then w\<lparr>printing := False, spooling := False\<rparr>
      else if action = OP_HOLDALL then w\<lparr>holding := True\<rparr>
      else if action = OP_NOHOLDALL then w\<lparr>holding := False\<rparr>
      else w)"

lemma control_keys [simp]:
  "flag_key PRINTING_DISABLED" "flag_key PRINTING_ABORTED" "flag_key SPOOLING_DISABLED" "flag_key HOLD_ALL" "flag_key CHANGE"
  by code_simp+

lemma control_keys_plain [simp]:
  "plain_line Line_ends PRINTING_DISABLED" "plain_line Line_ends PRINTING_ABORTED" "plain_line Line_ends SPOOLING_DISABLED"
  "plain_line Line_ends HOLD_ALL" "plain_line Line_ends CHANGE"
  by code_simp+

lemma control_codes [simp]:
  "fold_codes PRINTING_DISABLED \<noteq> fold_codes PRINTING_ABORTED" "fold_codes PRINTING_ABORTED \<noteq> fold_codes PRINTING_DISABLED"
  "fold_codes PRINTING_DISABLED \<noteq> fold_codes SPOOLING_DISABLED" "fold_codes SPOOLING_DISABLED \<noteq> fold_codes PRINTING_DISABLED"
  "fold_codes PRINTING_DISABLED \<noteq> fold_codes HOLD_ALL" "fold_codes HOLD_ALL \<noteq> fold_codes PRINTING_DISABLED"
  "fold_codes PRINTING_ABORTED \<noteq> fold_codes SPOOLING_DISABLED" "fold_codes SPOOLING_DISABLED \<noteq> fold_codes PRINTING_ABORTED"
  "fold_codes PRINTING_ABORTED \<noteq> fold_codes HOLD_ALL" "fold_codes HOLD_ALL \<noteq> fold_codes PRINTING_ABORTED"
  "fold_codes SPOOLING_DISABLED \<noteq> fold_codes HOLD_ALL" "fold_codes HOLD_ALL \<noteq> fold_codes SPOOLING_DISABLED"
  "fold_codes CHANGE \<noteq> fold_codes PRINTING_DISABLED" "fold_codes CHANGE \<noteq> fold_codes PRINTING_ABORTED"
  "fold_codes CHANGE \<noteq> fold_codes SPOOLING_DISABLED" "fold_codes CHANGE \<noteq> fold_codes HOLD_ALL"
  by code_simp+

lemma plain_store_bit:
  "plain_store d \<Longrightarrow> flag_key k \<Longrightarrow> plain_line Line_ends k \<Longrightarrow> v = 0 \<or> v = 1 \<Longrightarrow> plain_store (Set_flag_value d k v)"
  by (auto intro!: plain_store_flag simp: INT_MAX_def)

lemma read_flag_set:
  assumes "plain_store d" "flag_key k" "flag_key k'" "v = 0 \<or> v = 1"
  shows "Find_flag_value (Set_flag_value d k v) k' = (if fold_codes k' = fold_codes k then v else Find_flag_value d k')"
proof -
  have "kv_inv d" using assms(1) by (simp add: plain_store_def)
  with assms(2-4) show ?thesis
    using Set_flag_value_get [of d k k' v] by (auto simp: INT_MAX_def flag_key_ok)
qed

lemmas switch_defs = switches_of_def switch_step_def Pr_disabled_def Pr_aborted_def Sp_disabled_def Hld_all_def set_flags_def

lemma switches_set:
  assumes "plain_store sc" "action_flags action = Some ks"
  shows "switches_of (set_flags ks sc) = switch_step action (switches_of sc)" "plain_store (set_flags ks sc)"
proof -
  have op: "OP_START = 1" "OP_STOP = 2" "OP_ENABLE = 3" "OP_DISABLE = 4" "OP_ABORT = 6" "OP_KILL = 7" "OP_UP = 17" "OP_DOWN = 18"
    "OP_HOLDALL = 22" "OP_NOHOLDALL = 23" by code_simp+
  show "switches_of (set_flags ks sc) = switch_step action (switches_of sc)"
    using assms(2)
    by (auto simp: action_flags_def op switch_defs read_flag_set plain_store_bit assms(1) split: if_splits)
  show "plain_store (set_flags ks sc)"
    using assms(2)
    by (auto simp: action_flags_def op set_flags_def intro!: plain_store_bit assms(1) split: if_splits)
qed

lemma Setup_printer_files:
  "Setup_printer env room pr st = (st1, r) \<Longrightarrow> ct_control_file st1 = ct_control_file st \<and> ct_tickets st1 = ct_tickets st"
  "Setup_printer env room pr st = (st1, Inr q) \<Longrightarrow> ct_control st1 = Get_spool_control (ct_control_file st (ct_printer st1))"
  by (auto simp: Setup_printer_def Let_def split: option.splits if_splits)

lemma Setup_printer_say:
  "Setup_printer env room pr (say s st) = (case Setup_printer env room pr st of (st1, r) \<Rightarrow> (say s st1, r))"
  by (simp add: Setup_printer_def Let_def say_def split: option.split)

lemma signal_files:
  "signal_server env q action st = (st1, pid) \<Longrightarrow>
     ct_control_file st1 = ct_control_file st \<and> ct_printer st1 = ct_printer st"
  by (auto simp: signal_server_def Let_def split: option.splits if_splits)

lemma signal_main_files:
  "signal_main env action main st = (st1, r) \<Longrightarrow> ct_control_file st1 = ct_control_file st"
  using Setup_printer_files(1)
  by (fastforce simp: signal_main_def Let_def split: prod.splits sum.splits option.splits if_splits)

lemma say_failure_files [simp]: "ct_control_file (say_failure env e st) = ct_control_file st"
  by (simp add: say_failure_def)

lemma request_start_files [simp]: "ct_control_file (request_start action pid st) = ct_control_file st"
  by (simp add: request_start_def)

lemma after_action_file:
  "ct_control_file (after_action env q action st) =
   (ct_control_file st)(ct_printer st := Some (store_image
      (if q_Server_queue_name q = None then ct_control st else Set_flag_value (ct_control st) CHANGE 1)))"
proof -
  let ?st1 = "Set_spool_control q (if q_Server_queue_name q = None then st else upd_control (\<lambda>c. Set_flag_value c CHANGE 1) st)"
  obtain st2 pid where s: "signal_server env q action ?st1 = (st2, pid)" by fastforce
  have "ct_control_file (after_action env q action st) = ct_control_file st2"
    using signal_main_files
    by (auto simp: after_action_def Let_def s split: option.split prod.split sum.split)
  also have "\<dots> = ct_control_file ?st1" using signal_files [OF s] by simp
  finally show ?thesis by (simp add: Set_spool_control_def upd_control_def)
qed

lemma switches_CHANGE: "plain_store sc \<Longrightarrow> switches_of (Set_flag_value sc CHANGE 1) = switches_of sc"
  by (simp add: switch_defs read_flag_set not_sym [of "fold_codes CHANGE"])


subsection \<open>A hold and its release\<close>

lemma act_on_simps:
  "act_on env action opt 0 j =
   Some (j\<lparr>info := Set_flag_value (Set_str_value (job_action action (now (c_job env)) opt (info j)) ERROR None) ERROR_TIME 0\<rparr>)"
  by (simp add: act_on_def Let_def)

lemma dest_loop_held:
  "dest_loop env sc ns (j, st) = Some (j', st') \<Longrightarrow> held st \<le> held st'"
proof (induction ns arbitrary: j st)
  case (Cons n ns)
  obtain j1 st1 where s: "dest_step env sc n (j, st) = Some (j1, st1)" "dest_loop env sc ns (j1, st1) = Some (j', st')"
    using Cons.prems by (auto split: option.splits)
  have "held st \<le> held st1"
    using s(1) by (auto simp: dest_step_def dest_state_def Let_def split: option.splits if_splits prod.splits)
  with Cons.IH [OF s(2)] show ?case by simp
qed simp

lemma hold_codes [simp]:
  "fold_codes HOLD_TIME \<noteq> fold_codes ERROR" "fold_codes ERROR \<noteq> fold_codes HOLD_TIME"
  "fold_codes HOLD_TIME \<noteq> fold_codes ERROR_TIME" "fold_codes ERROR_TIME \<noteq> fold_codes HOLD_TIME"
  "fold_codes ATTEMPT \<noteq> fold_codes ERROR" "fold_codes ATTEMPT \<noteq> fold_codes ERROR_TIME" "fold_codes ATTEMPT \<noteq> fold_codes HOLD_TIME"
  "fold_codes HOLD_TIME \<noteq> fold_codes ATTEMPT" "fold_codes ERROR_TIME \<noteq> fold_codes ERROR" "fold_codes ERROR \<noteq> fold_codes ERROR_TIME"
  "fold_codes ERROR \<noteq> fold_codes ATTEMPT" "fold_codes ERROR_TIME \<noteq> fold_codes ATTEMPT"
  "fold_codes HOLD_TIME \<noteq> fold_codes INCOMING_TIME" "fold_codes ERROR \<noteq> fold_codes INCOMING_TIME"
  "fold_codes ERROR_TIME \<noteq> fold_codes INCOMING_TIME" "key_ok INCOMING_TIME"
  by code_simp+

lemma clear_error_frame:
  assumes "kv_inv i"
  shows "same_but {ERROR, ERROR_TIME} i (Set_flag_value (Set_str_value i ERROR None) ERROR_TIME 0)"
    "Find_str_value (Set_flag_value (Set_str_value i ERROR None) ERROR_TIME 0) ERROR = None"
    "Find_flag_value (Set_flag_value (Set_str_value i ERROR None) ERROR_TIME 0) ERROR_TIME = 0"
proof -
  have e: "key_ok ERROR" by (rule flag_key_ok) simp
  note s = same_but_str [OF assms e, of None, simplified]
  note t = same_but_flag [OF same_but_inv [OF s(1)], of ERROR_TIME 0]
  show "same_but {ERROR, ERROR_TIME} i (Set_flag_value (Set_str_value i ERROR None) ERROR_TIME 0)"
    using same_but_trans [OF s(1) t(1)] by (simp add: INT_MAX_def insert_commute)
  show "Find_flag_value (Set_flag_value (Set_str_value i ERROR None) ERROR_TIME 0) ERROR_TIME = 0"
    using t(2) by (simp add: INT_MAX_def)
  show "Find_str_value (Set_flag_value (Set_str_value i ERROR None) ERROR_TIME 0) ERROR = None"
    using same_but_get(1) [OF t(1) e] s(2) by (simp add: INT_MAX_def)
qed

lemma hold_values:
  fixes opt :: "cstr option"
  assumes "kv_inv i" "0 < t" "t \<le> INT_MAX"
  defines "h \<equiv> Set_flag_value (Set_str_value (job_action OP_HOLD t opt i) ERROR None) ERROR_TIME 0"
  shows "same_but {HOLD_TIME, ERROR, ERROR_TIME} i h" "Find_flag_value h HOLD_TIME = t" "Find_flag_value h ERROR_TIME = 0" "h \<noteq> []"
proof -
  have a: "job_action OP_HOLD t opt i = Set_flag_value i HOLD_TIME t" by (simp add: job_action_def)
  note f = same_but_flag [OF assms(1), of HOLD_TIME t]
  have f: "same_but {HOLD_TIME} i (job_action OP_HOLD t opt i)" "Find_flag_value (job_action OP_HOLD t opt i) HOLD_TIME = t"
    using f assms(2,3) by (simp_all add: a)
  note c = clear_error_frame [OF same_but_inv [OF f(1)], folded h_def]
  show "same_but {HOLD_TIME, ERROR, ERROR_TIME} i h" by (rule same_but_mono [OF same_but_trans [OF f(1) c(1)]]) auto
  show "Find_flag_value h ERROR_TIME = 0" using c(3) .
  show t: "Find_flag_value h HOLD_TIME = t"
    using same_but_get(2) [OF c(1), of HOLD_TIME] f(2) by (simp add: flag_key_ok)
  have "Find_flag_value [] HOLD_TIME = 0" by code_simp
  with t assms(2) show "h \<noteq> []" by auto
qed

lemma release_values:
  fixes opt :: "cstr option" and t :: int
  assumes "kv_inv i"
  defines "r \<equiv> Set_flag_value (Set_str_value (job_action OP_RELEASE t opt i) ERROR None) ERROR_TIME 0"
  shows "same_but {HOLD_TIME, ATTEMPT, ERROR, ERROR_TIME} i r" "Find_flag_value r HOLD_TIME = 0" "Find_flag_value r ATTEMPT = 0"
    "Find_flag_value r ERROR_TIME = 0" "Find_str_value r ERROR = None"
proof -
  have a: "job_action OP_RELEASE t opt i = Set_flag_value (Set_flag_value i HOLD_TIME 0) ATTEMPT 0"
    by (simp add: job_action_def clear_flags_def OP_RELEASE_def OP_HOLD_def OP_TOPQ_def OP_MOVE_def)
  have z: "0 \<le> INT_MAX" by (simp add: INT_MAX_def)
  note f = same_but_flag [OF assms(1) _ order.refl z, of HOLD_TIME, simplified]
  note g = same_but_flag [OF same_but_inv [OF f(1)] _ order.refl z, of ATTEMPT, simplified, folded a]
  note c = clear_error_frame [OF same_but_inv [OF g(1)], folded r_def]
  show "same_but {HOLD_TIME, ATTEMPT, ERROR, ERROR_TIME} i r"
    by (rule same_but_mono [OF same_but_trans [OF same_but_trans [OF f(1) g(1)] c(1)]]) auto
  show "Find_flag_value r ERROR_TIME = 0" "Find_str_value r ERROR = None" using c(2,3) by simp_all
  show "Find_flag_value r ATTEMPT = 0" using same_but_get(2) [OF c(1), of ATTEMPT] g(2) by (simp add: flag_key_ok)
  show "Find_flag_value r HOLD_TIME = 0"
    using same_but_get(2) [OF c(1), of HOLD_TIME] same_but_get(2) [OF g(1), of HOLD_TIME] f(2) by (simp add: flag_key_ok)
qed

text \<open>
  C33: a job that is held by \<open>lpc\<close> is not started by the server of its queue, whatever else is in its ticket and
  however the queue is configured. A release then gives the job back as it was, with its errors
  cleared and its attempts counted from 0.
\<close>

theorem hold_and_release:
  assumes "kv_inv (info j)" "Find_flag_value (info j) INCOMING_TIME = 0"
    and "0 < now (c_job env)" "now (c_job env) \<le> INT_MAX"
    and "act_on env OP_HOLD opt 0 j = Some jh" "Job_printable jenv jh sc = Some (j', p)"
  shows "\<not> processable sc enabled p
    \<and> (case act_on env' OP_RELEASE opt' 0 jh of
          None \<Rightarrow> False
        | Some jr \<Rightarrow>
            same_but {HOLD_TIME, ATTEMPT, ERROR, ERROR_TIME} (info j) (info jr) \<and> Find_flag_value (info jr) HOLD_TIME = 0
            \<and> Find_flag_value (info jr) ATTEMPT = 0 \<and> Find_flag_value (info jr) ERROR_TIME = 0
            \<and> Find_str_value (info jr) ERROR = None)"
proof
  note h = hold_values [OF assms(1,3,4), of opt]
  have jh: "jh = j\<lparr>info := info jh\<rparr>" "info jh = Set_flag_value (Set_str_value (job_action OP_HOLD (now (c_job env)) opt (info j)) ERROR None) ERROR_TIME 0"
    using assms(5) by (auto simp: act_on_simps)
  note h = h [folded jh(2)]
  have "Find_flag_value (info jh) INCOMING_TIME = 0"
    using same_but_get(2) [OF h(1), of INCOMING_TIME] assms(2) by simp
  with h assms(3) have i: "info_state jenv (info jh) sc = Some (no_state\<lparr>ptext := ''hold'', held := 1\<rparr>)"
    by (simp add: info_state_def)
  have "1 \<le> held p"
    using assms(6) i dest_loop_held by (fastforce simp: Job_printable_def Let_def split: option.splits if_splits)
  then show "\<not> processable sc enabled p" by (simp add: processable_def)
  note r = release_values [OF same_but_inv [OF h(1)]]
  have "same_but {HOLD_TIME, ATTEMPT, ERROR, ERROR_TIME} (info j)
      (Set_flag_value (Set_str_value (job_action OP_RELEASE (now (c_job env')) opt' (info jh)) ERROR None) ERROR_TIME 0)"
    by (rule same_but_mono [OF same_but_trans [OF h(1) r(1)]]) auto
  with r show "case act_on env' OP_RELEASE opt' 0 jh of None \<Rightarrow> False
      | Some jr \<Rightarrow> same_but {HOLD_TIME, ATTEMPT, ERROR, ERROR_TIME} (info j) (info jr) \<and> Find_flag_value (info jr) HOLD_TIME = 0
          \<and> Find_flag_value (info jr) ATTEMPT = 0 \<and> Find_flag_value (info jr) ERROR_TIME = 0
          \<and> Find_str_value (info jr) ERROR = None"
    by (simp add: act_on_simps)
qed

subsection \<open>An example, and what goes wrong\<close>

definition demo_queue :: queue_conf where
  "demo_queue = \<lparr>q_printer = ''lp'', q_names = Some [''hfA001''], q_spool_dir = ''/spool/lp'', q_Lpq_status_file = None, q_status_files = [],
     q_Server_queue_name = None, q_Server_names = None, q_Report_server_as = None, q_Auto_hold = False, q_Ppd_file = None,
     q_aliases = [''lp''], q_entry = [], q_lock = Some ''99'', q_server_lock = None, q_unspooler_lock = None\<rparr>"

definition demo_ctl :: ctl_env where
  "demo_ctl = \<lparr>c_job = demo_job_env, c_server = demo_sv_env, c_perm_env = demo_perm_env, c_perm_fuel = 1,
     c_perms = [''ACCEPT''], c_check = demo_check, c_host_of = (\<lambda>_. None), c_short_host = ''h'', c_fqdn = ''h.dom'',
     c_errno = [], c_queue = (\<lambda>n. if n = ''lp'' then Some demo_queue else None), c_chdir = (\<lambda>_. True), c_all = [''lp''],
     c_file = (\<lambda>_. None), c_kill = (\<lambda>_ _. False), c_sigstr = (\<lambda>_. ''SIGUSR1''), c_server_pid = 1,
     c_default_queue = ''lp'', c_translate = id\<rparr>"

definition demo_image :: cstr where
  "demo_image = store_image [''A=ann@h+1'', ''hf_name=hfA001'', ''P=ann'']"

definition demo_ctl_state :: ctl_state where
  "demo_ctl_state = \<lparr>ct_printer = ''lp'', ct_control = [], ct_tickets = (\<lambda>_ f. if f = ''hfA001'' then Some demo_image else None),
     ct_control_file = (\<lambda>_. None), ct_out = [], ct_unlinked = [], ct_truncated = [], ct_signals = [], ct_requests = []\<rparr>"

abbreviation demo_words :: line_list where "demo_words \<equiv> [''lp'', ''root'', ''hold'', ''lp'', ''ann'']"

lemma scan_one:
  assumes "\<not> Order_routine env" "info (Get_job_ticket_file content Init_job) \<noteq> []"
    and "Job_printable env (Get_job_ticket_file content Init_job) sc \<noteq> None"
    and "scan_name None None name = Some Ticket" "cstr_ok name" "name \<noteq> []"
  shows "\<exists>scan. Scan_queue env sc False None None (Some [(name, content)]) = Some (scan, 0) \<and> map order_file (order_list scan) = [name]"
proof -
  obtain j1 p where j: "Job_printable env (Get_job_ticket_file content Init_job) sc = Some (j1, p)" using assms(3) by auto
  let ?k = "key_text (sort_fields env) (sort_values env (info j1))"
  have k: "key_ok ?k" by (rule key_ok_sort_key)
  have "set ?k \<inter> {CHR ''=''} = {}" using k by (auto simp: key_ok_def Option_value_sep_def)
  then have d: "dropWhile (\<lambda>x. x \<noteq> CHR ''='') (?k @ CHR ''='' # name) = CHR ''='' # name"
    by (subst dropWhile_append2) auto
  have o: "order_file (?k @ CHR ''='' # name) = name"
    using strchr_dropWhile [of "CHR ''=''" "?k @ CHR ''='' # name"] d by (simp add: order_file_def)
  have s: "Set_str_value [] ?k (Some name) = [?k @ CHR ''='' # name]"
    using assms(6) by (simp add: Set_str_value_def Add_line_list_def Find_last_key_def place_line_def safestrdup3_def
        find_last_def insert_at_def search_loop.simps)
  show ?thesis
    using assms(1,2,4) j Make_sort_key_text [OF assms(1), of j1] o s
    by (simp add: Scan_queue_def scan_ticket_def Let_def scan_init_def count_state_def)
qed

lemma demo_step:
  "(case ticket_step demo_ctl demo_check OP_HOLD demo_words None ''hfA001'' demo_ctl_state of
      None \<Rightarrow> False | Some (st, go) \<Rightarrow> Find_flag_value (info (Get_job_ticket_file (ct_tickets st ''lp'' ''hfA001'') Init_job)) HOLD_TIME = 1000)"
  by code_simp

lemma demo_printable: "Job_printable demo_job_env (Get_job_ticket_file (Some demo_image) Init_job) [] \<noteq> None"
    "info (Get_job_ticket_file (Some demo_image) Init_job) \<noteq> []" "scan_name None None ''hfA001'' = Some Ticket"
  by code_simp+

lemma demo_request:
  "\<exists>st. Do_job_ticket_file demo_ctl demo_queue demo_check OP_HOLD demo_words None demo_ctl_state = Some (st, None)
     \<and> Find_flag_value (info (Get_job_ticket_file (ct_tickets st ''lp'' ''hfA001'') Init_job)) HOLD_TIME = 1000"
proof -
  have e: "ct_control demo_ctl_state = []" "spool_files demo_queue demo_ctl_state = Some [(''hfA001'', Some demo_image)]"
    "c_job demo_ctl = demo_job_env" "\<not> Order_routine demo_job_env"
    by (simp_all add: demo_ctl_state_def demo_queue_def spool_files_def demo_ctl_def demo_job_env_def)
  have "cstr_ok ''hfA001''" "''hfA001'' \<noteq> []" by code_simp+
  from scan_one [OF e(4) demo_printable(2,1,3) this] obtain scan where
    s: "Scan_queue demo_job_env [] False None None (Some [(''hfA001'', Some demo_image)]) = Some (scan, 0)"
      "map order_file (order_list scan) = [''hfA001'']" by (elim exE conjE)
  from demo_step obtain st go where
    t: "ticket_step demo_ctl demo_check OP_HOLD demo_words None ''hfA001'' demo_ctl_state = Some (st, go)"
      "Find_flag_value (info (Get_job_ticket_file (ct_tickets st ''lp'' ''hfA001'') Init_job)) HOLD_TIME = 1000"
    by (cases "ticket_step demo_ctl demo_check OP_HOLD demo_words None ''hfA001'' demo_ctl_state") (simp, force simp only: option.case prod.case split: prod.split_asm)
  then have "ticket_loop demo_ctl demo_check OP_HOLD demo_words None [''hfA001''] demo_ctl_state = Some st"
    by (cases go) simp_all
  with s t(2) show ?thesis by (auto simp: Do_job_ticket_file_def e)
qed

lemma tickets_guarded_witness:
  "\<exists>st. Do_job_ticket_file demo_ctl demo_queue demo_check OP_HOLD demo_words None demo_ctl_state = Some (st, None)
     \<and> ct_tickets st ''lp'' ''hfA001'' \<noteq> ct_tickets demo_ctl_state ''lp'' ''hfA001''
     \<and> may_change demo_ctl demo_check demo_words (Get_job_ticket_file (Some demo_image) Init_job)"
proof -
  from demo_request obtain st where
    s: "Do_job_ticket_file demo_ctl demo_queue demo_check OP_HOLD demo_words None demo_ctl_state = Some (st, None)"
      "Find_flag_value (info (Get_job_ticket_file (ct_tickets st ''lp'' ''hfA001'') Init_job)) HOLD_TIME = 1000" by blast
  have "Find_flag_value (info (Get_job_ticket_file (ct_tickets demo_ctl_state ''lp'' ''hfA001'') Init_job)) HOLD_TIME = 0"
    by code_simp
  with s(2) have c: "ct_tickets st ''lp'' ''hfA001'' \<noteq> ct_tickets demo_ctl_state ''lp'' ''hfA001''" by auto
  have p: "ct_printer demo_ctl_state = ''lp''" "ct_tickets demo_ctl_state ''lp'' ''hfA001'' = Some demo_image"
    by (simp_all add: demo_ctl_state_def)
  have "''hfA001'' \<in> changed (ct_printer demo_ctl_state) demo_ctl_state st" using c p(1) by (simp add: changed_def)
  from bspec [OF conjunct1 [OF tickets_guarded [OF s(1)]] this]
  have "may_change demo_ctl demo_check demo_words (Get_job_ticket_file (Some demo_image) Init_job)"
    unfolding p .
  with s(1) c show ?thesis by blast
qed


lemma hold_and_release_witness:
  "\<exists>jh p j'. act_on demo_ctl OP_HOLD None 0 (Get_job_ticket_file (Some demo_image) Init_job) = Some jh
     \<and> Job_printable demo_job_env jh [] = Some (j', p) \<and> \<not> processable [] True p"
proof -
  let ?j = "Get_job_ticket_file (Some demo_image) Init_job"
  have i: "info ?j = [''A=ann@h+1'', ''hf_name=hfA001'', ''P=ann'']" by code_simp
  have k: "kv_inv (info ?j)" "Find_flag_value (info ?j) INCOMING_TIME = 0" unfolding i by code_simp+
  have n: "0 < now (c_job demo_ctl)" "now (c_job demo_ctl) \<le> INT_MAX" by (simp_all add: demo_ctl_def demo_job_env_def INT_MAX_def)
  obtain jh where a: "act_on demo_ctl OP_HOLD None 0 ?j = Some jh" by (simp add: act_on_simps)
  have "case act_on demo_ctl OP_HOLD None 0 ?j of None \<Rightarrow> False | Some jh \<Rightarrow> Job_printable demo_job_env jh [] \<noteq> None" by code_simp
  with a obtain j' p where "Job_printable demo_job_env jh [] = Some (j', p)" by auto
  from hold_and_release [OF k n a this] a this show ?thesis by blast
qed

text \<open>
  The permission lines that look into the job read through a null pointer when \<open>lpc\<close> works on jobs; the
  refusal of a queue is cut off; and after \<open>lpc up\<close> with the process id of a server that is gone, \<open>lpd\<close>
  is not asked to start one.
\<close>

lemma job_lines_fatal:
  "Perms_check demo_perm_env 1 (Some [''ACCEPT SERVICE=C AUTHJOB'']) (Some (queue_check demo_ctl ''lp'' ''root'')) None False = None"
  by code_simp

lemma refusal_cut: "plp_snprintf pointer_size ''no permission'' [] = ''no perm''"
  by code_simp

lemma stale_server:
  assumes "q_Server_queue_name q = None" "0 < Read_pid_from_file (q_lock q)" "action \<noteq> OP_FLUSH" "action \<noteq> OP_KILL" "action \<noteq> OP_START"
  shows "ct_requests (after_action env q action st) = ct_requests st"
proof -
  obtain st2 pid where s: "signal_server env q action (Set_spool_control q st) = (st2, pid)" by fastforce
  then have "0 < pid \<and> ct_requests st2 = ct_requests st"
    using assms(2,3) by (auto simp: signal_server_def action_signal_def Set_spool_control_def Let_def split: if_splits option.splits)
  with s assms show ?thesis
    by (simp add: after_action_def Let_def request_start_def starts_server_def)
qed

end
