(* ===== verification/ConfigVars.thy ===== *)
theory ConfigVars
  imports Config "HOL-Library.Multiset"
begin

section \<open>The table of configuration variables (vars.c)\<close>

text \<open>
  The options of printcap and configuration files with the variables they set, their types and their
  defaults, as \<open>vars.c\<close> lists them, and what a reset of the configuration makes of them. The strings
  that the build passes to the compiler are the fields of \<open>build_conf\<close>; \<open>IPP_STUBS\<close> and the
  directory of plug-ins, which \<open>WITHPLUGINS\<close> brings in, say which conditional entries there are.
\<close>

subsection \<open>The tables\<close>

record build_conf =
  GETENV :: cstr
  TARGETARCHITECTURE :: cstr
  LPD_CONF_PATH :: cstr
  LPD_PERMS_PATH :: cstr
  PRINTCAP_PATH :: cstr
  LPD_PRINTCAP_PATH :: cstr
  FORCE_LOCALHOST :: cstr
  REQUIRE_CONFIGFILES :: cstr
  FILTER_PATH :: cstr
  FILTER_LD_PATH :: cstr
  LOCKFILE :: cstr
  USERID :: cstr
  GROUPID :: cstr
  DONE_JOBS :: cstr
  DONE_JOBS_MAX_AGE :: cstr
  UNIXSOCKETPATH :: cstr
  PRUTIL :: cstr
  SD_DEFAULT :: cstr
  LPD_LISTEN_PORT :: cstr
  SSL_CA_FILE :: cstr
  SSL_CRL_FILE :: cstr
  SSL_SERVER_CERT :: cstr
  SSL_SERVER_PASSWORD_FILE :: cstr
  PLUGINDIR :: "cstr option"
  IPP_STUBS :: bool

primrec type_code :: "key_type \<Rightarrow> int" where
  "type_code FLAG_K = 0"
| "type_code INTEGER_K = 1"
| "type_code STRING_K = 2"

lemma type_of_code [simp]: "key_type_of (type_code t) = Some t"
  by (cases t) (simp_all add: key_type_of_def)

definition var_entry :: "cstr \<Rightarrow> key_type \<Rightarrow> cstr \<Rightarrow> int \<Rightarrow> cstr option \<Rightarrow> kword" where
  "var_entry s t v m d =
     \<lparr>keyword = s, translation = None, ktype = type_code t, variable = Some v, maxval = m, flag = 0, default_value = d\<rparr>"

text \<open>The table is cut in four parts, by the first letter of the option.\<close>

definition Pc_vars_to_d :: "build_conf \<Rightarrow> kword list" where
  "Pc_vars_to_d b =
     [var_entry ''ab'' FLAG_K ''Always_banner_DYN'' 0 None,
      var_entry ''accounting_namefixup'' STRING_K ''Accounting_namefixup_DYN'' 0 None,
      var_entry ''achk'' FLAG_K ''Accounting_check_DYN'' 0 None,
      var_entry ''ae'' STRING_K ''Accounting_end_DYN'' 0 (Some ''=jobend $H $n $P $k $b $t $'C $'J $'M''),
      var_entry ''af'' STRING_K ''Accounting_file_DYN'' 0 (Some ''=acct''),
      var_entry ''ah'' FLAG_K ''Auto_hold_DYN'' 0 None,
      var_entry ''allow_getenv'' FLAG_K ''Allow_getenv_DYN'' 1 (Some (GETENV b)),
      var_entry ''allow_user_logging'' FLAG_K ''Allow_user_logging_DYN'' 0 None,
      var_entry ''allow_user_setting'' STRING_K ''Allow_user_setting_DYN'' 0 None,
      var_entry ''append_z'' STRING_K ''Append_Z_DYN'' 0 None,
      var_entry ''ar'' FLAG_K ''Accounting_remote_DYN'' 0 (Some ''1''),
      var_entry ''architecture'' STRING_K ''Architecture_DYN'' 1 (Some (TARGETARCHITECTURE b)),
      var_entry ''as'' STRING_K ''Accounting_start_DYN'' 0 (Some ''=jobstart $H $n $P $k $b $t $'C $'J $'M''),
      var_entry ''auth'' STRING_K ''Auth_DYN'' 0 None,
      var_entry ''auth_forward'' STRING_K ''Auth_forward_DYN'' 0 None,
      var_entry ''be'' STRING_K ''Banner_end_DYN'' 0 None,
      var_entry ''bk'' FLAG_K ''Backwards_compatible_DYN'' 0 None,
      var_entry ''bk_filter_options'' STRING_K ''BK_filter_options_DYN'' 0
        (Some ''=$P $w $l $x $y $F $c $L $i $J $C $0n $0h $-a''),
      var_entry ''bk_of_filter_options'' STRING_K ''BK_of_filter_options_DYN'' 0 (Some ''=$w $l $x $y''),
      var_entry ''bkf'' FLAG_K ''Backwards_compatible_filter_DYN'' 0 None,
      var_entry ''bl'' STRING_K ''Banner_line_DYN'' 0 (Some ''=$-C:$-n Job: $-J Date: $-t''),
      var_entry ''bp'' STRING_K ''Banner_printer_DYN'' 0 None,
      var_entry ''bq_format'' STRING_K ''Bounce_queue_format_DYN'' 0 (Some ''=f''),
      var_entry ''br'' INTEGER_K ''Baud_rate_DYN'' 0 None,
      var_entry ''break_classname_priority_link'' FLAG_K ''Break_classname_priority_link_DYN'' 0 None,
      var_entry ''bs'' STRING_K ''Banner_start_DYN'' 0 None,
      var_entry ''check_for_nonprintable'' FLAG_K ''Check_for_nonprintable_DYN'' 0 None,
      var_entry ''check_for_protocol_violations'' FLAG_K ''Check_for_protocol_violations_DYN'' 0 None,
      var_entry ''chooser'' STRING_K ''Chooser_DYN'' 0 None,
      var_entry ''chooser_interval'' INTEGER_K ''Chooser_interval_DYN'' 0 (Some ''=10''),
      var_entry ''chooser_routine'' FLAG_K ''Chooser_routine_DYN'' 0 None,
      var_entry ''chooser_scan_queue'' FLAG_K ''Chooser_scan_queue_DYN'' 0 None,
      var_entry ''class_in_status'' FLAG_K ''Class_in_status_DYN'' 0 None,
      var_entry ''cm'' STRING_K ''Comment_tag_DYN'' 0 None,
      var_entry ''config_file'' STRING_K ''Config_file_DYN'' 1 (Some (''='' @ LPD_CONF_PATH b)),
      var_entry ''connect_grace'' INTEGER_K ''Connect_grace_DYN'' 0 (Some ''=0''),
      var_entry ''connect_interval'' INTEGER_K ''Connect_interval_DYN'' 0 (Some ''=10''),
      var_entry ''connect_timeout'' INTEGER_K ''Connect_timeout_DYN'' 0 (Some ''=10''),
      var_entry ''control_file_line_order'' STRING_K ''Control_file_line_order_DYN'' 0 None,
      var_entry ''control_filter'' STRING_K ''Control_filter_DYN'' 0 None,
      var_entry ''create_files'' FLAG_K ''Create_files_DYN'' 0 None,
      var_entry ''db'' STRING_K ''New_debug_DYN'' 0 None,
      var_entry ''default_format'' STRING_K ''Default_format_DYN'' 0 (Some ''=f''),
      var_entry ''default_permission'' STRING_K ''Default_permission_DYN'' 0 (Some ''=ACCEPT''),
      var_entry ''default_printer'' STRING_K ''Default_printer_DYN'' 0 (Some ''=missingprinter''),
      var_entry ''default_priority'' STRING_K ''Default_priority_DYN'' 0 (Some ''=A''),
      var_entry ''default_remote_host'' STRING_K ''Default_remote_host_DYN'' 0 (Some ''=localhost''),
      var_entry ''default_tmp_dir'' STRING_K ''Default_tmp_dir_DYN'' 0 (Some ''=/tmp''),
      var_entry ''destinations'' STRING_K ''Destinations_DYN'' 0 None,
      var_entry ''direct'' FLAG_K ''Direct_DYN'' 0 None,
      var_entry ''discard_large_jobs'' FLAG_K ''Discard_large_jobs_DYN'' 0 (Some ''=1''),
      var_entry ''discard_zero_length_jobs'' FLAG_K ''Discard_zero_length_jobs_DYN'' 0 (Some ''=0''),
      var_entry ''done_jobs'' INTEGER_K ''Done_jobs_DYN'' 0 (Some (''='' @ DONE_JOBS b)),
      var_entry ''done_jobs_max_age'' INTEGER_K ''Done_jobs_max_age_DYN'' 0 (Some (''='' @ DONE_JOBS_MAX_AGE b)),
      var_entry ''drop_root'' FLAG_K ''Drop_root_DYN'' 0 None]"

definition Pc_vars_to_l :: "build_conf \<Rightarrow> kword list" where
  "Pc_vars_to_l b =
     [var_entry ''exit_linger_timeout'' INTEGER_K ''Exit_linger_timeout_DYN'' 0 (Some ''=600''),
      var_entry ''fakelargefile'' INTEGER_K ''Fake_large_file_DYN'' 0 None,
      var_entry ''ff'' STRING_K ''Form_feed_DYN'' 0 (Some (''='' @ [CHR 0x5C] @ ''f'')),
      var_entry ''ff_separator'' FLAG_K ''FF_separator_DYN'' 0 None,
      var_entry ''fifo'' FLAG_K ''Fifo_DYN'' 0 (Some ''=1''),
      var_entry ''fifo_lock_file'' STRING_K ''Fifo_lock_file_DYN'' 0 (Some ''=fifo.lock''),
      var_entry ''filter'' STRING_K ''Filter_DYN'' 0 None,
      var_entry ''filter_ld_path'' STRING_K ''Filter_ld_path_DYN'' 0 (Some (''='' @ FILTER_LD_PATH b)),
      var_entry ''filter_options'' STRING_K ''Filter_options_DYN'' 0
        (Some ''=$A $B $C $D $E $F $G $H $I $J $K $L $M $N $O $P $Q $R $S $T $U $V $W $X $Y $Z $a $b $c $d $e $f $g $h $i $j $k $l $m $n $o $p $q $r $s $t $u $v $w $x $y $z $-a''),
      var_entry ''filter_path'' STRING_K ''Filter_path_DYN'' 0 (Some (''='' @ FILTER_PATH b)),
      var_entry ''filter_poll_interval'' INTEGER_K ''Filter_poll_interval_DYN'' 0 (Some ''=30''),
      var_entry ''filter_stderr_to_status_file'' FLAG_K ''Filter_stderr_to_status_file_DYN'' 0 None,
      var_entry ''fo'' FLAG_K ''FF_on_open_DYN'' 0 None,
      var_entry ''force_fqdn_hostname'' FLAG_K ''Force_FQDN_hostname_DYN'' 0 None,
      var_entry ''force_ipaddr_hostname'' FLAG_K ''Force_IPADDR_hostname_DYN'' 0 None,
      var_entry ''force_localhost'' FLAG_K ''Force_localhost_DYN'' 0 (Some (FORCE_LOCALHOST b)),
      var_entry ''force_lpq_status'' STRING_K ''Force_lpq_status_DYN'' 0 None,
      var_entry ''force_queuename'' STRING_K ''Force_queuename_DYN'' 0 None,
      var_entry ''fq'' FLAG_K ''FF_on_close_DYN'' 0 None,
      var_entry ''full_time'' FLAG_K ''Full_time_DYN'' 0 None,
      var_entry ''fx'' STRING_K ''Formats_allowed_DYN'' 0 None,
      var_entry ''generate_banner'' FLAG_K ''Generate_banner_DYN'' 0 None,
      var_entry ''group'' STRING_K ''Daemon_group_DYN'' 1 (Some (''='' @ GROUPID b)),
      var_entry ''half_close'' FLAG_K ''Half_close_DYN'' 0 (Some ''=1''),
      var_entry ''hl'' FLAG_K ''Banner_last_DYN'' 0 None,
      var_entry ''if'' STRING_K ''IF_Filter_DYN'' 0 None,
      var_entry ''ignore_requested_user_priority'' FLAG_K ''Ignore_requested_user_priority_DYN'' 0 None,
      var_entry ''incoming_control_filter'' STRING_K ''Incoming_control_filter_DYN'' 0 None] @
     (if IPP_STUBS b then [var_entry ''ipp_listen_port'' STRING_K ''Ipp_listen_port_DYN'' 0 (Some ''=off''),
      var_entry ''ipp_port'' STRING_K ''Ipp_port_DYN'' 0 (Some ''=631'')] else []) @
     [var_entry ''ipv6'' FLAG_K ''IPV6Protocol_DYN'' 0 None,
      var_entry ''keepalive'' FLAG_K ''Keepalive_DYN'' 0 (Some ''1''),
      var_entry ''kerberos_forward_principal'' STRING_K ''Kerberos_forward_principal_DYN'' 0 None,
      var_entry ''kerberos_keytab'' STRING_K ''Kerberos_keytab_DYN'' 0 (Some ''=/etc/lpd/lpd.keytab''),
      var_entry ''kerberos_life'' STRING_K ''Kerberos_life_DYN'' 0 None,
      var_entry ''kerberos_renew'' STRING_K ''Kerberos_renew_DYN'' 0 None,
      var_entry ''kerberos_server_principal'' STRING_K ''Kerberos_server_principal_DYN'' 0 None,
      var_entry ''kerberos_service'' STRING_K ''Kerberos_service_DYN'' 0 (Some ''=lpr''),
      var_entry ''la'' FLAG_K ''Local_accounting_DYN'' 0 (Some ''1''),
      var_entry ''ld'' STRING_K ''Leader_on_open_DYN'' 0 None,
      var_entry ''lf'' STRING_K ''Log_file_DYN'' 0 (Some ''=log''),
      var_entry ''lk'' FLAG_K ''Lock_it_DYN'' 0 None,
      var_entry ''lockfile'' STRING_K ''Lockfile_DYN'' 1 (Some (''='' @ LOCKFILE b)),
      var_entry ''logger_destination'' STRING_K ''Logger_destination_DYN'' 0 None,
      var_entry ''logger_max_size'' INTEGER_K ''Logger_max_size_DYN'' 0 None,
      var_entry ''logger_path'' STRING_K ''Logger_path_DYN'' 0 None,
      var_entry ''logger_timeout'' INTEGER_K ''Logger_timeout_DYN'' 0 None,
      var_entry ''longnumber'' FLAG_K ''Long_number_DYN'' 0 None,
      var_entry ''lp'' STRING_K ''Lp_device_DYN'' 0 None,
      var_entry ''lpd_bounce'' FLAG_K ''Lpd_bounce_DYN'' 0 None,
      var_entry ''lpd_force_poll'' FLAG_K ''Force_poll_DYN'' 0 None,
      var_entry ''lpd_listen_port'' STRING_K ''Lpd_listen_port_DYN'' 0 (Some (LPD_LISTEN_PORT b)),
      var_entry ''lpd_path'' STRING_K ''Lpd_path_DYN'' 0 None,
      var_entry ''lpd_poll_servers_started'' INTEGER_K ''Poll_servers_started_DYN'' 1 (Some ''=3''),
      var_entry ''lpd_poll_start_interval'' INTEGER_K ''Poll_start_interval_DYN'' 0 (Some ''=1''),
      var_entry ''lpd_poll_time'' INTEGER_K ''Poll_time_DYN'' 0 (Some ''=600''),
      var_entry ''lpd_port'' STRING_K ''Lpd_port_DYN'' 0 (Some ''=515''),
      var_entry ''lpd_printcap_path'' STRING_K ''Lpd_printcap_path_DYN'' 1 (Some (''='' @ LPD_PRINTCAP_PATH b)),
      var_entry ''lpq_status_cached'' INTEGER_K ''Lpq_status_cached_DYN'' 0 (Some ''=10''),
      var_entry ''lpq_status_file'' STRING_K ''Lpq_status_file_DYN'' 0 (Some ''=lpq''),
      var_entry ''lpq_status_interval'' INTEGER_K ''Lpq_status_interval_DYN'' 0 (Some ''=2''),
      var_entry ''lpq_status_stale'' INTEGER_K ''Lpq_status_stale_DYN'' 0 (Some ''=3600''),
      var_entry ''lpr'' STRING_K ''Lpr_opts_DYN'' 0 None,
      var_entry ''lpr_bounce'' FLAG_K ''Lpr_bounce_DYN'' 0 None,
      var_entry ''lpr_bsd'' FLAG_K ''LPR_bsd_DYN'' 0 None,
      var_entry ''lpr_send_try'' INTEGER_K ''Lpr_send_try_DYN'' 0 (Some ''=3'')]"

definition Pc_vars_to_q :: "build_conf \<Rightarrow> kword list" where
  "Pc_vars_to_q b =
     [var_entry ''mail_from'' STRING_K ''Mail_from_DYN'' 0 None,
      var_entry ''mail_operator_on_error'' STRING_K ''Mail_operator_on_error_DYN'' 0 None,
      var_entry ''max_accounting_file_size'' INTEGER_K ''Max_accounting_file_size_DYN'' 0 (Some ''=0''),
      var_entry ''max_connect_interval'' INTEGER_K ''Max_connect_interval_DYN'' 0 (Some ''=60''),
      var_entry ''max_datafiles'' INTEGER_K ''Max_datafiles_DYN'' 0 (Some ''=52''),
      var_entry ''max_log_file_size'' INTEGER_K ''Max_log_file_size_DYN'' 0 (Some ''=1000''),
      var_entry ''max_move_count'' INTEGER_K ''Max_move_count_DYN'' 0 (Some ''=10''),
      var_entry ''max_servers_active'' INTEGER_K ''Max_servers_active_DYN'' 1 (Some ''=1024''),
      var_entry ''max_status_line'' INTEGER_K ''Max_status_line_DYN'' 0 (Some ''=79''),
      var_entry ''max_status_size'' INTEGER_K ''Max_status_size_DYN'' 0 (Some ''=10''),
      var_entry ''mc'' INTEGER_K ''Max_copies_DYN'' 0 (Some ''=1''),
      var_entry ''min_accounting_file_size'' INTEGER_K ''Min_accounting_file_size_DYN'' 0 None,
      var_entry ''min_log_file_size'' INTEGER_K ''Min_log_file_size_DYN'' 0 None,
      var_entry ''min_status_size'' INTEGER_K ''Min_status_size_DYN'' 0 None,
      var_entry ''minfree'' INTEGER_K ''Minfree_DYN'' 0 None,
      var_entry ''ml'' INTEGER_K ''Min_printable_count_DYN'' 0 None,
      var_entry ''ms_time_resolution'' FLAG_K ''Ms_time_resolution_DYN'' 0 (Some ''=1''),
      var_entry ''mx'' INTEGER_K ''Max_job_size_DYN'' 0 None,
      var_entry ''nb'' FLAG_K ''Nonblocking_open_DYN'' 0 None,
      var_entry ''network_connect_grace'' INTEGER_K ''Network_connect_grace_DYN'' 0 None,
      var_entry ''nline_after_file'' FLAG_K ''Nline_after_file_DYN'' 0 None,
      var_entry ''of'' STRING_K ''OF_Filter_DYN'' 0 None,
      var_entry ''of_filter_options'' STRING_K ''OF_filter_options_DYN'' 0 None,
      var_entry ''order_routine'' FLAG_K ''Order_routine_DYN'' 0 None,
      var_entry ''originate_port'' STRING_K ''Originate_port_DYN'' 0 (Some ''=512 1023''),
      var_entry ''pass_env'' STRING_K ''Pass_env_DYN'' 0
        (Some ''=LANG,LC_CTYPE,LC_NUMERIC,LC_TIME,LC_COLLATE,LC_MONETARY,LC_MESSAGES,LC_PAPER,LC_NAME,LC_ADDRESS,LC_TELEPHONE,LC_MEASUREMENT,LC_IDENTIFICATION,LC_ALL''),
      var_entry ''pc_entries_required'' STRING_K ''Pc_entries_required_DYN'' 0 (Some ''=ppd''),
      var_entry ''perms_path'' STRING_K ''Printer_perms_path_DYN'' 1 (Some (''='' @ LPD_PERMS_PATH b)),
      var_entry ''pl'' INTEGER_K ''Page_length_DYN'' 0 (Some ''=66'')] @
     (case PLUGINDIR b of None \<Rightarrow> []
      | Some dir \<Rightarrow> [var_entry ''pluginpath'' STRING_K ''Plugin_path_DYN'' 0 (Some (''='' @ dir))]) @
     [var_entry ''ppd'' STRING_K ''Ppd_file_DYN'' 0 None,
      var_entry ''pr'' STRING_K ''Pr_program_DYN'' 0 (Some (PRUTIL b)),
      var_entry ''prefix_option_to_option'' STRING_K ''Prefix_option_to_option_DYN'' 0 None,
      var_entry ''prefix_z'' STRING_K ''Prefix_Z_DYN'' 0 None,
      var_entry ''printcap_path'' STRING_K ''Printcap_path_DYN'' 1 (Some (''='' @ PRINTCAP_PATH b)),
      var_entry ''ps'' STRING_K ''Status_file_DYN'' 0 (Some ''=status''),
      var_entry ''pw'' INTEGER_K ''Page_width_DYN'' 0 (Some ''=80''),
      var_entry ''px'' INTEGER_K ''Page_x_DYN'' 0 None,
      var_entry ''py'' INTEGER_K ''Page_y_DYN'' 0 None,
      var_entry ''qq'' FLAG_K ''Use_queuename_DYN'' 0 (Some ''=1''),
      var_entry ''queue_control_file'' STRING_K ''Queue_control_file_DYN'' 0 (Some ''=control.pr''),
      var_entry ''queue_lock_file'' STRING_K ''Queue_lock_file_DYN'' 0 (Some ''=lock.pr''),
      var_entry ''queue_status_file'' STRING_K ''Queue_status_file_DYN'' 0 (Some ''=status.pr''),
      var_entry ''queue_unspooler_file'' STRING_K ''Queue_unspooler_file_DYN'' 0 (Some ''=unspooler.pr'')]"

definition Pc_vars_to_z :: "build_conf \<Rightarrow> kword list" where
  "Pc_vars_to_z b =
     [var_entry ''remote_support'' STRING_K ''Remote_support_DYN'' 0 (Some ''=RMQVC''),
      var_entry ''remove_z'' STRING_K ''Remove_Z_DYN'' 0 None,
      var_entry ''report_server_as'' STRING_K ''Report_server_as_DYN'' 0 None,
      var_entry ''require_configfiles'' FLAG_K ''Require_configfiles_DYN'' 0 (Some (''='' @ REQUIRE_CONFIGFILES b)),
      var_entry ''require_explicit_q'' FLAG_K ''Require_explicit_Q_DYN'' 0 (Some ''0''),
      var_entry ''retry_econnrefused'' FLAG_K ''Retry_ECONNREFUSED_DYN'' 0 (Some ''1''),
      var_entry ''retry_nolink'' FLAG_K ''Retry_NOLINK_DYN'' 0 (Some ''1''),
      var_entry ''return_short_status'' STRING_K ''Return_short_status_DYN'' 0 None,
      var_entry ''reuse_addr'' FLAG_K ''Reuse_addr_DYN'' 0 None,
      var_entry ''reverse_lpq_status'' STRING_K ''Reverse_lpq_status_DYN'' 0 None,
      var_entry ''reverse_priority_order'' FLAG_K ''Reverse_priority_order_DYN'' 0 None,
      var_entry ''rg'' STRING_K ''RestrictToGroupMembers_DYN'' 0 None,
      var_entry ''rm'' STRING_K ''RemoteHost_DYN'' 0 None,
      var_entry ''router'' STRING_K ''Routing_filter_DYN'' 0 None,
      var_entry ''rp'' STRING_K ''RemotePrinter_DYN'' 0 None,
      var_entry ''rw'' FLAG_K ''Read_write_DYN'' 0 None,
      var_entry ''safe_chars'' STRING_K ''Safe_chars_DYN'' 0 None,
      var_entry ''save_on_error'' FLAG_K ''Save_on_error_DYN'' 0 None,
      var_entry ''save_when_done'' FLAG_K ''Save_when_done_DYN'' 0 None,
      var_entry ''sb'' FLAG_K ''Short_banner_DYN'' 0 None,
      var_entry ''sd'' STRING_K ''Spool_dir_DYN'' 0 (Some (SD_DEFAULT b @ ''/%P'')),
      var_entry ''send_block_format'' FLAG_K ''Send_block_format_DYN'' 0 None,
      var_entry ''send_data_first'' FLAG_K ''Send_data_first_DYN'' 0 None,
      var_entry ''send_failure_action'' STRING_K ''Send_failure_action_DYN'' 0 (Some ''=remove''),
      var_entry ''send_job_rw_timeout'' INTEGER_K ''Send_job_rw_timeout_DYN'' 0 (Some ''=0''),
      var_entry ''send_query_rw_timeout'' INTEGER_K ''Send_query_rw_timeout_DYN'' 0 (Some ''=30''),
      var_entry ''send_try'' INTEGER_K ''Send_try_DYN'' 0 (Some ''=3''),
      var_entry ''sendmail'' STRING_K ''Sendmail_DYN'' 0 (Some ''=/usr/sbin/sendmail -oi -t''),
      var_entry ''sendmail_to_user'' FLAG_K ''Sendmail_to_user_DYN'' 0 (Some ''=1''),
      var_entry ''server_tmp_dir'' STRING_K ''Server_tmp_dir_DYN'' 0 (Some ''=/tmp''),
      var_entry ''sf'' FLAG_K ''No_FF_separator_DYN'' 0 (Some ''=1''),
      var_entry ''sh'' FLAG_K ''Suppress_header_DYN'' 0 None,
      var_entry ''shell'' STRING_K ''Shell_DYN'' 0 (Some ''=/bin/sh''),
      var_entry ''short_status_length'' INTEGER_K ''Short_status_length_DYN'' 0 (Some ''=3''),
      var_entry ''socket_linger'' INTEGER_K ''Socket_linger_DYN'' 0 (Some ''=10''),
      var_entry ''spool_dir_perms'' INTEGER_K ''Spool_dir_perms_DYN'' 0 (Some ''=000700''),
      var_entry ''spool_file_perms'' INTEGER_K ''Spool_file_perms_DYN'' 0 (Some ''=000600''),
      var_entry ''ss'' STRING_K ''Server_queue_name_DYN'' 0 None,
      var_entry ''ssl_ca_file'' STRING_K ''Ssl_ca_file_DYN'' 0 (Some (''='' @ SSL_CA_FILE b)),
      var_entry ''ssl_ca_path'' STRING_K ''Ssl_ca_path_DYN'' 0 None,
      var_entry ''ssl_crl_file'' STRING_K ''Ssl_crl_file_DYN'' 0 (Some (''='' @ SSL_CRL_FILE b)),
      var_entry ''ssl_crl_path'' STRING_K ''Ssl_crl_path_DYN'' 0 None,
      var_entry ''ssl_server_cert'' STRING_K ''Ssl_server_cert_DYN'' 0 (Some (''='' @ SSL_SERVER_CERT b)),
      var_entry ''ssl_server_password_file'' STRING_K ''Ssl_server_password_file_DYN'' 0
        (Some (''='' @ SSL_SERVER_PASSWORD_FILE b)),
      var_entry ''stalled_time'' INTEGER_K ''Stalled_time_DYN'' 0 (Some ''=120''),
      var_entry ''stop_on_abort'' FLAG_K ''Stop_on_abort_DYN'' 0 None,
      var_entry ''stty'' STRING_K ''Stty_command_DYN'' 0 None,
      var_entry ''suspend_of_filter'' FLAG_K ''Suspend_OF_filter_DYN'' 0 (Some ''=1''),
      var_entry ''sv'' STRING_K ''Server_names_DYN'' 0 None,
      var_entry ''syslog_device'' STRING_K ''Syslog_device_DYN'' 0 (Some ''=/dev/console''),
      var_entry ''tr'' STRING_K ''Trailer_on_close_DYN'' 0 None,
      var_entry ''translate_format'' STRING_K ''Xlate_format_DYN'' 0 None,
      var_entry ''translate_incoming_format'' STRING_K ''Xlate_incoming_format_DYN'' 0 None,
      var_entry ''unix_socket_path'' STRING_K ''Unix_socket_path_DYN'' 0 (Some (''='' @ UNIXSOCKETPATH b)),
      var_entry ''use_info_cache'' FLAG_K ''Use_info_cache_DYN'' 0 (Some ''1''),
      var_entry ''use_shorthost'' FLAG_K ''Use_shorthost_DYN'' 0 None,
      var_entry ''user'' STRING_K ''Daemon_user_DYN'' 1 (Some (''='' @ USERID b)),
      var_entry ''user_is_authuser'' FLAG_K ''User_is_authuser_DYN'' 0 None,
      var_entry ''user_printcap'' STRING_K ''User_printcap_DYN'' 1 (Some ''.printcap'')]"

definition Pc_var_list :: "build_conf \<Rightarrow> kword list" where
  "Pc_var_list b = Pc_vars_to_d b @ Pc_vars_to_l b @ Pc_vars_to_q b @ Pc_vars_to_z b"

definition DYN_var_list :: "kword list" where
  "DYN_var_list =
     map (\<lambda>v. var_entry v STRING_K v 0 None)
       [''Logname_DYN'', ''ShortHost_FQDN'', ''FQDNHost_FQDN'', ''Printer_DYN'', ''Queue_name_DYN'', ''Lp_device_DYN'',
        ''RemotePrinter_DYN'', ''RemoteHost_DYN'', ''FQDNRemote_FQDN'', ''ShortRemote_FQDN'', ''Current_date_DYN'']"

lemmas Pc_vars_defs = Pc_vars_to_d_def Pc_vars_to_l_def Pc_vars_to_q_def Pc_vars_to_z_def

subsection \<open>Names in the table\<close>

lemma var_entry_sel [simp]:
  "keyword (var_entry s t v m d) = s" "ktype (var_entry s t v m d) = type_code t"
  "variable (var_entry s t v m d) = Some v" "default_value (var_entry s t v m d) = d"
  by (simp_all add: var_entry_def)

text \<open>The order in which the comment at the table wants the options: that of \<open>strcmp\<close>.\<close>

fun rising :: "cstr list \<Rightarrow> bool" where
  "rising (s # t # l) \<longleftrightarrow> safestrcmp (Some s) (Some t) < 0 \<and> rising (t # l)"
| "rising _ \<longleftrightarrow> True"

definition all_options :: build_conf where
  "all_options = \<lparr>GETENV = ''0'', TARGETARCHITECTURE = ''unknown'', LPD_CONF_PATH = ''/etc/lpd.conf'',
     LPD_PERMS_PATH = ''/etc/lpd.perms'', PRINTCAP_PATH = ''/etc/printcap'', LPD_PRINTCAP_PATH = ''/etc/lpd_printcap'',
     FORCE_LOCALHOST = ''0'', REQUIRE_CONFIGFILES = ''1'', FILTER_PATH = ''/bin:/usr/bin'', FILTER_LD_PATH = [],
     LOCKFILE = ''/var/run/lpd'', USERID = ''daemon'', GROUPID = ''daemon'', DONE_JOBS = ''1'', DONE_JOBS_MAX_AGE = ''0'',
     UNIXSOCKETPATH = ''/var/run/lprng'', PRUTIL = ''/usr/bin/pr'', SD_DEFAULT = ''/var/spool/lpd'',
     LPD_LISTEN_PORT = ''=515'', SSL_CA_FILE = ''/etc/ca.crt'', SSL_CRL_FILE = ''/etc/ca.crl'', SSL_SERVER_CERT = ''/etc/server.crt'',
     SSL_SERVER_PASSWORD_FILE = ''/etc/server.pwd'', PLUGINDIR = Some ''/usr/lib/lprng'', IPP_STUBS = True\<rparr>"


definition names_of :: "kword list \<Rightarrow> (cstr \<times> int \<times> cstr option) list" where
  "names_of = map (\<lambda>k. (keyword k, ktype k, variable k))"

lemma names_of_simps [simp]:
  "names_of [] = []" "names_of (k # ks) = (keyword k, ktype k, variable k) # names_of ks"
  "names_of (ks @ ks') = names_of ks @ names_of ks'"
  by (simp_all add: names_of_def)

lemma names_of_parts:
  "names_of (Pc_vars_to_d b) = names_of (Pc_vars_to_d all_options)"
  "subseq (names_of (Pc_vars_to_l b)) (names_of (Pc_vars_to_l all_options))"
  "subseq (names_of (Pc_vars_to_q b)) (names_of (Pc_vars_to_q all_options))"
  "names_of (Pc_vars_to_z b) = names_of (Pc_vars_to_z all_options)"
proof -
  show "names_of (Pc_vars_to_d b) = names_of (Pc_vars_to_d all_options)"
    by (simp only: Pc_vars_to_d_def names_of_simps var_entry_sel)
  show "names_of (Pc_vars_to_z b) = names_of (Pc_vars_to_z all_options)"
    by (simp only: Pc_vars_to_z_def names_of_simps var_entry_sel)
  show "subseq (names_of (Pc_vars_to_l b)) (names_of (Pc_vars_to_l all_options))"
    unfolding Pc_vars_to_l_def names_of_simps
    by (intro list_emb_append_mono) (simp_all only: names_of_simps var_entry_sel, simp_all add: all_options_def)
  show "subseq (names_of (Pc_vars_to_q b)) (names_of (Pc_vars_to_q all_options))"
    unfolding Pc_vars_to_q_def names_of_simps
    by (intro list_emb_append_mono) (simp_all only: names_of_simps var_entry_sel, simp_all add: all_options_def split: option.split)
qed

lemma names_of_subseq: "subseq (names_of (Pc_var_list b)) (names_of (Pc_var_list all_options))"
  unfolding Pc_var_list_def names_of_simps
  by (intro list_emb_append_mono names_of_parts) (simp_all only: names_of_parts(1,4) [of b] list_emb_refl)

subsection \<open>What a reset makes of the variables\<close>

text \<open>
  The text from which a variable takes its value after the configuration is reset: that of its option
  in the configuration lines, and otherwise its default. \<open>converts\<close>: the conversion of a text does not
  run over its end. \<open>holds_value\<close>: the variable has the value of the text, which is a number or a text
  as the type of the entry says.
\<close>

definition value_source :: "line_list \<Rightarrow> kword \<Rightarrow> cstr option" where
  "value_source l k =
     (case Find_exists_value l (keyword k) (Some Option_value_sep) of None \<Rightarrow> default_value k | v \<Rightarrow> v)"

fun converts :: "kword \<Rightarrow> cstr option \<Rightarrow> bool" where
  "converts k None \<longleftrightarrow> True"
| "converts k (Some v) \<longleftrightarrow> key_type_of (ktype k) \<noteq> Some STRING_K \<longrightarrow> int_value (dropWhile isspace v) \<noteq> None"

definition holds_value :: "config_vars \<Rightarrow> kword \<Rightarrow> cstr option \<Rightarrow> bool" where
  "holds_value st k v \<longleftrightarrow>
     (case (variable k, key_type_of (ktype k)) of
        (Some p, Some STRING_K) \<Rightarrow>
          str_vars st p = Option.bind v (\<lambda>t. str_value (dropWhile isspace t))
      | (Some p, Some _) \<Rightarrow>
          Some (int_vars st p) = (case v of None \<Rightarrow> Some 0 | Some t \<Rightarrow> int_value (dropWhile isspace t))
      | _ \<Rightarrow> False)"

definition same_var :: "config_vars \<Rightarrow> config_vars \<Rightarrow> cstr \<Rightarrow> bool" where
  "same_var a b p \<longleftrightarrow> int_vars a p = int_vars b p \<and> str_vars a p = str_vars b p"

definition well_typed :: "kword \<Rightarrow> bool" where
  "well_typed k \<longleftrightarrow> variable k \<noteq> None \<and> key_type_of (ktype k) \<noteq> None"

lemma holds_value_same: "variable k = Some p \<Longrightarrow> same_var a b p \<Longrightarrow> holds_value a k v \<longleftrightarrow> holds_value b k v"
  by (auto simp: holds_value_def same_var_def split: option.splits key_type.splits)

lemma same_var_trans: "same_var a b p \<Longrightarrow> same_var b c p \<Longrightarrow> same_var a c p"
  by (simp add: same_var_def)

lemma same_var_refl [simp]: "same_var a a p"
  by (simp add: same_var_def)

lemma conversion_holds:
  assumes "variable k = Some p" "key_type_of (ktype k) \<noteq> None" "converts k (Some v)"
  shows "\<exists>b. Config_value_conversion a k (Some v) = Some b \<and> holds_value b k (Some v)
    \<and> (\<forall>q. q \<noteq> p \<longrightarrow> same_var b a q)"
  using assms
  by (auto simp: Config_value_conversion_def holds_value_def same_var_def Let_def
      split: option.splits key_type.splits)

lemma clear_holds:
  assumes "variable k = Some p" "key_type_of (ktype k) \<noteq> None"
  shows "holds_value (clear_var a k) k None" "q \<noteq> p \<Longrightarrow> same_var (clear_var a k) a q"
  using assms
  by (auto simp: clear_var_def holds_value_def same_var_def split: option.splits key_type.splits)

lemma Clear_var_list_defaults:
  "list_all well_typed ks \<Longrightarrow> distinct (map variable ks) \<Longrightarrow> list_all (\<lambda>k. converts k (default_value k)) ks \<Longrightarrow>
   \<exists>b. Clear_var_list a ks True = Some b \<and> list_all (\<lambda>k. holds_value b k (default_value k)) ks
     \<and> (\<forall>p. Some p \<notin> variable ` set ks \<longrightarrow> same_var b a p)"
proof (induction ks arbitrary: a)
  case (Cons k ks)
  then obtain p where k: "variable k = Some p" "key_type_of (ktype k) \<noteq> None"
    by (auto simp: well_typed_def)
  let ?one = "if default_value k \<noteq> None then Config_value_conversion (clear_var a k) k (default_value k)
      else Some (clear_var a k)"
  have "\<exists>c. ?one = Some c \<and> holds_value c k (default_value k) \<and> (\<forall>q. q \<noteq> p \<longrightarrow> same_var c a q)"
  proof (cases "default_value k")
    case None
    then show ?thesis using clear_holds [OF k] by simp
  next
    case (Some v)
    with Cons.prems(3) have "converts k (Some v)" by simp
    from conversion_holds [OF k this, of "clear_var a k"] Some show ?thesis
      using clear_holds(2) [OF k] by (metis option.distinct(1) same_var_trans)
  qed
  then obtain c where c: "?one = Some c" "holds_value c k (default_value k)" "\<And>q. q \<noteq> p \<Longrightarrow> same_var c a q"
    by blast
  from Cons.IH [of c] Cons.prems obtain b where b: "Clear_var_list c ks True = Some b"
    "list_all (\<lambda>k. holds_value b k (default_value k)) ks"
    "\<And>p. Some p \<notin> variable ` set ks \<Longrightarrow> same_var b c p" by auto
  from Cons.prems(2) k have "Some p \<notin> variable ` set ks" by auto
  from holds_value_same [OF k(1) b(3) [OF this]] c(2) have "holds_value b k (default_value k)" by simp
  moreover have "Clear_var_list a (k # ks) True = Some b" using k(1) c(1) b(1) by simp
  moreover have "same_var b a q" if "Some q \<notin> variable ` set (k # ks)" for q
    using that k(1) b(3) c(3) by (auto intro: same_var_trans)
  ultimately show ?case using b(2) by auto
qed (simp add: same_var_def)

lemma Set_var_list_values:
  assumes "\<And>k. k \<in> set ks \<Longrightarrow> converts k (value_source l k)"
  shows "list_all well_typed ks \<Longrightarrow> distinct (map variable ks) \<Longrightarrow>
   \<exists>b. Set_var_list a ks l = Some b
     \<and> list_all (\<lambda>k. holds_value a k (default_value k) \<longrightarrow> holds_value b k (value_source l k)) ks
     \<and> (\<forall>p. Some p \<notin> variable ` set ks \<longrightarrow> same_var b a p)"
  using assms
proof (induction ks arbitrary: a)
  case (Cons k ks)
  then obtain p where k: "variable k = Some p" "key_type_of (ktype k) \<noteq> None"
    by (auto simp: well_typed_def)
  let ?one = "case Find_exists_value l (keyword k) (Some Option_value_sep) of None \<Rightarrow> Some a
      | Some s \<Rightarrow> Config_value_conversion a k (Some s)"
  have "\<exists>c. ?one = Some c \<and> (holds_value a k (default_value k) \<longrightarrow> holds_value c k (value_source l k))
      \<and> (\<forall>q. q \<noteq> p \<longrightarrow> same_var c a q)"
  proof (cases "Find_exists_value l (keyword k) (Some Option_value_sep)")
    case None
    then show ?thesis by (simp add: value_source_def)
  next
    case (Some v)
    with Cons.prems(3) [of k] have "converts k (Some v)" by (simp add: value_source_def)
    from conversion_holds [OF k this, of a] Some show ?thesis by (auto simp: value_source_def)
  qed
  then obtain c where c: "?one = Some c" "holds_value a k (default_value k) \<Longrightarrow> holds_value c k (value_source l k)"
    "\<And>q. q \<noteq> p \<Longrightarrow> same_var c a q" by blast
  from Cons.IH [of c] Cons.prems obtain b where b: "Set_var_list c ks l = Some b"
    "list_all (\<lambda>k. holds_value c k (default_value k) \<longrightarrow> holds_value b k (value_source l k)) ks"
    "\<And>p. Some p \<notin> variable ` set ks \<Longrightarrow> same_var b c p" by auto
  from Cons.prems(2) k have p: "Some p \<notin> variable ` set ks" by auto
  from holds_value_same [OF k(1) b(3) [OF this]] c(2)
  have "holds_value a k (default_value k) \<longrightarrow> holds_value b k (value_source l k)" by simp
  moreover have "holds_value a k' v \<longleftrightarrow> holds_value c k' v" if "k' \<in> set ks" for k' v
  proof -
    from that Cons.prems(1) obtain q where q: "variable k' = Some q" by (auto simp: well_typed_def list_all_iff)
    with that p have "q \<noteq> p" by force
    from holds_value_same [OF q c(3) [OF this]] show ?thesis by simp
  qed
  moreover have "Set_var_list a (k # ks) l = Some b"
    using c(1) b(1) by (cases "Find_exists_value l (keyword k) (Some Option_value_sep)") auto
  moreover have "same_var b a q" if "Some q \<notin> variable ` set (k # ks)" for q
    using that k(1) b(3) c(3) by (auto intro: same_var_trans)
  ultimately show ?case using b(2) by (auto simp: list_all_iff)
qed (simp add: same_var_def)

text \<open>Variables that are not in a table stay, and expanding texts makes no variable null or not null.\<close>

lemma conversion_same: "Config_value_conversion a k v = Some b \<Longrightarrow> variable k \<noteq> Some p \<Longrightarrow> same_var b a p"
  by (auto simp: Config_value_conversion_def same_var_def Let_def split: option.splits key_type.splits)

lemma clear_same: "variable k \<noteq> Some p \<Longrightarrow> same_var (clear_var a k) a p"
  by (auto simp: clear_var_def same_var_def split: option.splits key_type.splits)

lemma Clear_var_list_same:
  "Clear_var_list a ks setv = Some b \<Longrightarrow> Some p \<notin> variable ` set ks \<Longrightarrow> same_var b a p"
proof (induction ks arbitrary: a)
  case (Cons k ks)
  from Cons.prems obtain c where "variable k = None \<and> c = a \<or> c = clear_var a k
      \<or> Config_value_conversion (clear_var a k) k (default_value k) = Some c" "Clear_var_list c ks setv = Some b"
    by (auto split: if_splits option.splits)
  with Cons.IH [of c] Cons.prems(2) clear_same [of k p a] conversion_same [of "clear_var a k" k "default_value k" c p]
  show ?case by (metis same_var_trans imageI insertCI image_insert list.simps(15) option.distinct(1))
qed simp

lemma Set_var_list_same:
  "Set_var_list a ks l = Some b \<Longrightarrow> Some p \<notin> variable ` set ks \<Longrightarrow> same_var b a p"
proof (induction ks arbitrary: a)
  case (Cons k ks)
  from Cons.prems obtain c where "c = a \<or> (\<exists>v. Config_value_conversion a k v = Some c)" "Set_var_list c ks l = Some b"
    by (auto split: option.splits)
  with Cons.IH [of c] Cons.prems(2) conversion_same [of a k _ c p] show ?case
    by (metis same_var_trans insertCI image_insert list.simps(15))
qed simp

lemma set_current_date_same: "p \<noteq> ''Current_date_DYN'' \<Longrightarrow> same_var (set_current_date now a) a p"
  by (auto simp: set_current_date_def Set_DYN_def same_var_def)

lemma Expand_percent_same:
  "Expand_percent now a v = (b, w) \<Longrightarrow> p \<noteq> ''Current_date_DYN'' \<Longrightarrow> same_var b a p \<and> (w = None \<longleftrightarrow> v = None)"
  by (auto simp: Expand_percent_def Let_def set_current_date_same split: option.splits if_splits)

definition expand_var :: "cstr \<Rightarrow> config_vars \<Rightarrow> kword \<Rightarrow> config_vars" where
  "expand_var now st k =
     (case variable k of
        Some p \<Rightarrow>
          if key_type_of (ktype k) = Some STRING_K
          then (case Expand_percent now st (str_vars st p) of
                  (st', v) \<Rightarrow> st'\<lparr>str_vars := (str_vars st')(p := v)\<rparr>)
          else st
      | None \<Rightarrow> st)"

lemma Expand_vars_fold: "Expand_vars now st ks = foldl (expand_var now) st ks"
  by (induction ks arbitrary: st) (simp_all add: expand_var_def cong: option.case_cong)

lemma expand_var_null:
  "p \<noteq> ''Current_date_DYN'' \<Longrightarrow> str_vars (expand_var now st k) p = None \<longleftrightarrow> str_vars st p = None"
  using Expand_percent_same [of now st _ _ _ p]
  by (auto simp: expand_var_def same_var_def split: option.split prod.split)

lemma Expand_vars_null:
  "p \<noteq> ''Current_date_DYN'' \<Longrightarrow> str_vars (Expand_vars now st ks) p = None \<longleftrightarrow> str_vars st p = None"
  unfolding Expand_vars_fold by (induction ks arbitrary: st) (simp_all add: expand_var_null)

lemma expand_var_same:
  "p \<noteq> ''Current_date_DYN'' \<Longrightarrow> variable k \<noteq> Some p \<Longrightarrow> same_var (expand_var now st k) st p"
  using Expand_percent_same [of now st _ _ _ p]
  by (auto simp: expand_var_def same_var_def split: option.split prod.split)

lemma Expand_vars_same:
  "p \<noteq> ''Current_date_DYN'' \<Longrightarrow> Some p \<notin> variable ` set ks \<Longrightarrow> same_var (Expand_vars now st ks) st p"
  unfolding Expand_vars_fold
proof (induction ks arbitrary: st)
  case (Cons k ks)
  then have "same_var (foldl (expand_var now) (expand_var now st k) ks) (expand_var now st k) p" by simp
  moreover have "same_var (expand_var now st k) st p" using Cons.prems by (intro expand_var_same) auto
  ultimately show ?case by (auto intro: same_var_trans)
qed simp

lemma expand_var_plain:
  assumes "str_vars st p = Some s" "CHR ''%'' \<notin> set s"
  shows "str_vars (expand_var now st k) p = Some s"
  using assms
  by (auto simp: expand_var_def Expand_percent_def set_current_date_def Set_DYN_def Let_def split: option.split)

lemma Expand_vars_plain:
  "str_vars st p = Some s \<Longrightarrow> CHR ''%'' \<notin> set s \<Longrightarrow> str_vars (Expand_vars now st ks) p = Some s"
  unfolding Expand_vars_fold by (induction ks arbitrary: st) (simp_all add: expand_var_plain)

lemma Reset_config_same:
  assumes "Reset_config now st ks l = Some b" "Some p \<notin> variable ` set ks" "p \<noteq> ''Current_date_DYN''"
  shows "same_var b st p"
proof -
  from assms(1) obtain c d where "Clear_var_list st ks True = Some c" "Set_var_list c ks l = Some d"
    "b = Expand_vars now d ks" by (auto simp: Reset_config_def split: option.splits)
  with assms(2,3) show ?thesis
    by (auto dest!: Clear_var_list_same Set_var_list_same intro: same_var_trans Expand_vars_same)
qed

subsection \<open>The table is well formed\<close>

lemma options_rising: "rising (map keyword (Pc_var_list all_options))"
  by code_simp

fun merge_names :: "cstr list \<Rightarrow> cstr list \<Rightarrow> cstr list" where
  "merge_names [] ys = ys"
| "merge_names xs [] = xs"
| "merge_names (x # xs) (y # ys) =
     (if strcmp x y < 0 then x # merge_names xs (y # ys) else y # merge_names (x # xs) ys)"

fun merge_pairs :: "cstr list list \<Rightarrow> cstr list list" where
  "merge_pairs (a # b # l) = merge_names a b # merge_pairs l"
| "merge_pairs l = l"

definition sort_names :: "cstr list \<Rightarrow> cstr list" where
  "sort_names l = concat ((merge_pairs ^^ 8) (map (\<lambda>s. [s]) l))"

text \<open>The variables that the printcap table does not set.\<close>

definition other_vars :: "cstr list" where
  "other_vars = [''Logname_DYN'', ''ShortHost_FQDN'', ''FQDNHost_FQDN'', ''Printer_DYN'', ''Queue_name_DYN'',
     ''FQDNRemote_FQDN'', ''ShortRemote_FQDN'', ''Current_date_DYN'']"

lemma variables_rising: "rising (sort_names (map (the \<circ> variable) (Pc_var_list all_options) @ other_vars))"
  by code_simp

lemma mset_merge_names: "mset (merge_names xs ys) = mset xs + mset ys"
  by (induction xs ys rule: merge_names.induct) auto

lemma mset_merge_pairs: "mset (concat (merge_pairs l)) = mset (concat l)"
  by (induction l rule: merge_pairs.induct) (auto simp: mset_merge_names)

lemma mset_sort_names: "mset (sort_names l) = mset l"
proof -
  have "mset (concat ((merge_pairs ^^ n) m)) = mset (concat m)" for n m
    by (induction n) (simp_all add: mset_merge_pairs)
  moreover have "concat (map (\<lambda>s. [s]) l) = l" by (induction l) auto
  ultimately show ?thesis by (simp add: sort_names_def)
qed

lemma rising_codes: "rising l \<Longrightarrow> list_all cstr_ok l \<Longrightarrow> sorted_wrt (<) (map codes l)"
proof (induction l rule: rising.induct)
  case (1 s t l)
  then show ?case by (auto simp: sorted_wrt2 safestrcmp_def strcmp_sgn)
qed simp_all

lemma rising_distinct: "rising l \<Longrightarrow> list_all cstr_ok l \<Longrightarrow> distinct l"
  using rising_codes strict_sorted_iff distinct_map by blast

lemma names_ok:
  "list_all (\<lambda>k. cstr_ok (the (variable k)) \<and> cstr_ok (keyword k) \<and> well_typed k) (Pc_var_list all_options)"
  by code_simp

lemma other_vars_ok: "list_all cstr_ok other_vars"
  by code_simp

lemma variable_names_distinct: "distinct (map (the \<circ> variable) (Pc_var_list all_options) @ other_vars)"
proof -
  let ?l = "map (the \<circ> variable) (Pc_var_list all_options) @ other_vars"
  have "mset (sort_names ?l) = mset ?l" by (rule mset_sort_names)
  moreover have "list_all cstr_ok (sort_names ?l)"
    using names_ok other_vars_ok mset_eq_setD [OF mset_sort_names [of ?l]] by (auto simp: list_all_iff)
  with variables_rising have "distinct (sort_names ?l)" by (rule rising_distinct)
  ultimately show ?thesis using mset_eq_imp_distinct_iff by blast
qed

lemma names_well_typed: "list_all well_typed (Pc_var_list b)"
proof -
  have "well_typed k" if "k \<in> set (Pc_var_list b)" for k
  proof -
    from that have "(keyword k, ktype k, variable k) \<in> set (names_of (Pc_var_list b))"
      unfolding names_of_def by force
    from list_emb_set [OF names_of_subseq this]
    have "(keyword k, ktype k, variable k) \<in> set (names_of (Pc_var_list all_options))" by blast
    then obtain k' where "k' \<in> set (Pc_var_list all_options)" "ktype k' = ktype k" "variable k' = variable k"
      unfolding names_of_def by auto
    with names_ok show ?thesis by (metis list_all_iff well_typed_def)
  qed
  then show ?thesis unfolding list_all_iff by blast
qed

lemma variables_distinct: "distinct (map variable (Pc_var_list b))"
proof -
  have "map variable l = map (snd \<circ> snd) (names_of l)" for l by (simp add: names_of_def)
  moreover have "distinct (map variable (Pc_var_list all_options))"
    using variable_names_distinct unfolding map_map [symmetric] distinct_append by (simp only: distinct_map)
  moreover from subseq_map [OF names_of_subseq [of b]] obtain N
    where "map (snd \<circ> snd) (names_of (Pc_var_list b)) = nths (map (snd \<circ> snd) (names_of (Pc_var_list all_options))) N"
    unfolding subseq_conv_nths by blast
  ultimately show ?thesis by (metis distinct_nthsI)
qed

text \<open>The numbers that the build gives are numbers.\<close>

definition build_ok :: "build_conf \<Rightarrow> bool" where
  "build_ok b \<longleftrightarrow> list_all (\<lambda>v. int_value (dropWhile isspace v) \<noteq> None)
     [GETENV b, FORCE_LOCALHOST b, ''='' @ REQUIRE_CONFIGFILES b, ''='' @ DONE_JOBS b, ''='' @ DONE_JOBS_MAX_AGE b]"

definition number_ok :: "cstr option \<Rightarrow> bool" where
  "number_ok v \<longleftrightarrow> (case v of None \<Rightarrow> True | Some t \<Rightarrow> int_value (dropWhile isspace t) \<noteq> None)"

lemma converts_number: "converts (var_entry s t v m d) d' \<longleftrightarrow> t = STRING_K \<or> number_ok d'"
  by (cases d'; cases t) (simp_all add: number_ok_def key_type_of_def)

lemma number_ok_iff:
  "number_ok v \<longleftrightarrow> (case v of None \<Rightarrow> True | Some t \<Rightarrow>
     (let u = dropWhile isspace t in u = [] \<or> hd u = CHR ''@'' \<or> \<not> set u \<subseteq> set Option_value_sep))"
proof (cases v)
  case (Some t)
  have "int_value (dropWhile isspace t) = None \<longleftrightarrow>
      (let u = dropWhile isspace t in u \<noteq> [] \<and> hd u \<noteq> CHR ''@'' \<and> set u \<subseteq> set Option_value_sep)"
    by (simp only: int_value_overrun Let_def)
  with Some show ?thesis by (simp add: number_ok_def Let_def del: not_None_eq)
qed (simp add: number_ok_def)

lemma number_ok_simps:
  "number_ok None"
  "number_ok (Some ''0'')" "number_ok (Some ''1'')" "number_ok (Some ''=0'')" "number_ok (Some ''=000600'')"
  "number_ok (Some ''=000700'')" "number_ok (Some ''=1'')" "number_ok (Some ''=10'')" "number_ok (Some ''=1000'')"
  "number_ok (Some ''=1024'')" "number_ok (Some ''=120'')" "number_ok (Some ''=2'')" "number_ok (Some ''=3'')"
  "number_ok (Some ''=30'')" "number_ok (Some ''=3600'')" "number_ok (Some ''=52'')" "number_ok (Some ''=60'')"
  "number_ok (Some ''=600'')" "number_ok (Some ''=66'')" "number_ok (Some ''=79'')" "number_ok (Some ''=80'')"
  by (simp_all add: number_ok_iff isspace_def Option_value_sep_def)

lemma build_ok_numbers:
  assumes "build_ok b"
  shows "number_ok (Some (GETENV b))" "number_ok (Some (FORCE_LOCALHOST b))"
    "number_ok (Some (''='' @ REQUIRE_CONFIGFILES b))" "number_ok (Some (''='' @ DONE_JOBS b))"
    "number_ok (Some (''='' @ DONE_JOBS_MAX_AGE b))"
  using assms by (simp_all add: build_ok_def number_ok_def)

lemma defaults_convert:
  assumes "build_ok b"
  shows "list_all (\<lambda>k. converts k (default_value k)) (Pc_var_list b)"
proof -
  note s = list.pred_inject list_all_append converts_number var_entry_sel key_type.distinct number_ok_simps
    build_ok_numbers [OF assms] simp_thms
  have "list_all (\<lambda>k. converts k (default_value k)) (Pc_vars_to_d b)" by (simp only: Pc_vars_to_d_def s)
  moreover have "list_all (\<lambda>k. converts k (default_value k)) (Pc_vars_to_l b)"
    by (cases "IPP_STUBS b") (simp_all only: Pc_vars_to_l_def s if_True if_False)
  moreover have "list_all (\<lambda>k. converts k (default_value k)) (Pc_vars_to_q b)"
    by (cases "PLUGINDIR b") (simp_all only: Pc_vars_to_q_def s option.case)
  moreover have "list_all (\<lambda>k. converts k (default_value k)) (Pc_vars_to_z b)" by (simp only: Pc_vars_to_z_def s)
  ultimately show ?thesis by (simp add: Pc_var_list_def)
qed

lemma other_vars_unset: "p \<in> set other_vars \<Longrightarrow> Some p \<notin> variable ` set (Pc_var_list b)"
proof
  assume p: "p \<in> set other_vars" and "Some p \<in> variable ` set (Pc_var_list b)"
  then obtain k where "k \<in> set (Pc_var_list b)" "variable k = Some p" by auto
  then have "(keyword k, ktype k, Some p) \<in> set (names_of (Pc_var_list b))" unfolding names_of_def by force
  from list_emb_set [OF names_of_subseq this]
  have "(keyword k, ktype k, Some p) \<in> set (names_of (Pc_var_list all_options))" by blast
  then obtain k' where "k' \<in> set (Pc_var_list all_options)" "variable k' = Some p" unfolding names_of_def by auto
  then have "p \<in> set (map (the \<circ> variable) (Pc_var_list all_options))" by force
  with variable_names_distinct p show False unfolding distinct_append by blast
qed

lemma reset_values:
  assumes "build_ok b" "list_all (\<lambda>k. converts k (value_source l k)) (Pc_var_list b)"
  shows "\<exists>c d. Clear_var_list st (Pc_var_list b) True = Some c \<and> Set_var_list c (Pc_var_list b) l = Some d
    \<and> list_all (\<lambda>k. holds_value d k (value_source l k)) (Pc_var_list b) \<and> list_all (same_var d st) other_vars"
proof -
  let ?t = "Pc_var_list b"
  from Clear_var_list_defaults [OF names_well_typed variables_distinct defaults_convert [OF assms(1)], where a = st]
  obtain c where c: "Clear_var_list st ?t True = Some c" "list_all (\<lambda>k. holds_value c k (default_value k)) ?t"
    "\<forall>p. Some p \<notin> variable ` set ?t \<longrightarrow> same_var c st p" by blast
  have "\<And>k. k \<in> set ?t \<Longrightarrow> converts k (value_source l k)" using assms(2) by (simp add: list_all_iff)
  from Set_var_list_values [OF this names_well_typed variables_distinct, where a = c]
  obtain d where d: "Set_var_list c ?t l = Some d"
    "list_all (\<lambda>k. holds_value c k (default_value k) \<longrightarrow> holds_value d k (value_source l k)) ?t"
    "\<forall>p. Some p \<notin> variable ` set ?t \<longrightarrow> same_var d c p" by blast
  have "same_var d st p" if "p \<in> set other_vars" for p
    using other_vars_unset [OF that, of b] c(3) d(3) same_var_trans by blast
  with c d show ?thesis by (auto simp: list_all_iff)
qed


definition demo_vars :: config_vars where
  "demo_vars = \<lparr>int_vars = (\<lambda>_. 7), str_vars = (\<lambda>_. Some ''old'')\<rparr>"

lemma one_line_value: "Find_exists_value [s] key (Some seps) \<in> {None, Some (Fix_val (strpbrk s seps))}"
  by (auto simp: Find_exists_value_def Find_first_key_def find_first_def
      search_loop.simps [of _ _ _ _ _ 0 0] search_loop.simps [of _ _ _ _ _ 1 0] search_loop.simps [of _ _ _ _ _ 0 "-1"] Let_def
      split: if_splits)


end
