(* ===== verification/RemotePrinter.thy ===== *)
theory RemotePrinter
  imports Printcap ConfigVars
begin

section \<open>The printer and where its jobs go (getprinter.c)\<close>

text \<open>
  This theory models how the name of the printer is found (\<open>Get\_printer\<close>), how its printcap entry and
  the configuration decide whether jobs go to a local device or to which remote host
  (\<open>Fix\_Rm\_Rp\_info\<close>), and how the printcap is listed. The variables are named as in the theory
  \<open>ConfigVars\<close>. \<open>None\<close> is a fatal error, or a read through a null pointer.
\<close>

subsection \<open>State\<close>

record gp_env =
  gp_pc :: pc_env
  gp_host :: "host_information option"
  gp_config :: line_list
  gp_table :: "kword list"
  gp_now :: cstr

record gp_state =
  gp_vars :: config_vars
  gp_entry :: line_list
  gp_aliases :: line_list
  gp_db :: pc_db
  gp_all :: line_list


definition get_var :: "gp_state \<Rightarrow> cstr \<Rightarrow> cstr option" where
  "get_var st v = str_vars (gp_vars st) v"

definition get_int :: "gp_state \<Rightarrow> cstr \<Rightarrow> int" where
  "get_int st v = int_vars (gp_vars st) v"

text \<open>\<open>dyn\<close> is a call of \<open>Set\_DYN\<close>, \<open>put\<close> an assignment or a text that is cut in place.\<close>

definition dyn :: "cstr \<Rightarrow> cstr option \<Rightarrow> gp_state \<Rightarrow> gp_state" where
  "dyn v s st = st\<lparr>gp_vars := Set_DYN (gp_vars st) v s\<rparr>"

definition put :: "cstr \<Rightarrow> cstr option \<Rightarrow> gp_state \<Rightarrow> gp_state" where
  "put v s st = st\<lparr>gp_vars := (gp_vars st)\<lparr>str_vars := (str_vars (gp_vars st))(v := s)\<rparr>\<rparr>"

definition ISNULL :: "cstr option \<Rightarrow> bool" where
  "ISNULL s \<longleftrightarrow> s = None \<or> s = Some []"

definition has_at :: "cstr option \<Rightarrow> bool" where
  "has_at s \<longleftrightarrow> CHR ''@'' \<in> set (opt_str s)"

definition before_at :: "cstr \<Rightarrow> cstr" where
  "before_at s = takeWhile (\<lambda>c. c \<noteq> CHR ''@'') s"

definition after_at :: "cstr \<Rightarrow> cstr" where
  "after_at s = tl (dropWhile (\<lambda>c. c \<noteq> CHR ''@'') s)"

text \<open>
  The destination \<open>printer@host\<close> is cut at the first \<open>@\<close>. A host with a port, \<open>host%port\<close>, switches the
  connection over the UNIX socket off.
\<close>

definition no_socket :: "cstr option \<Rightarrow> gp_state \<Rightarrow> gp_state" where
  "no_socket h st = (if CHR ''%'' \<in> set (opt_str h) then dyn ''Unix_socket_path_DYN'' None st else st)"

definition set_remote :: "cstr \<Rightarrow> gp_state \<Rightarrow> gp_state" where
  "set_remote s st =
     (let st1 = dyn ''RemoteHost_DYN'' (Some (after_at s)) (put ''RemotePrinter_DYN'' (Some (before_at s)) st)
      in no_socket (get_var st1 ''RemoteHost_DYN'') st1)"

subsection \<open>The options of the printcap entry\<close>

text \<open>
  \<open>Find\_tags\<close> with one list as source and destination: the list changes while the search goes over
  it. \<open>None\<close> stands for a search that does not end.
\<close>

partial_function (option) own_tags :: "cstr \<Rightarrow> line_list \<Rightarrow> nat \<Rightarrow> line_list option" where
  "own_tags key l mid =
     (let l1 = Add_line_list l (drop (length key) (l ! mid)) (Some Hash_value_sep) True True in
      if Suc mid < length l1 \<and> safestrncasecmp (Some key) (Some (l1 ! Suc mid)) (length key) = 0
      then own_tags key l1 (Suc mid) else Some l1)"

definition Find_own_tags :: "line_list \<Rightarrow> cstr \<Rightarrow> line_list option" where
  "Find_own_tags l key =
     (if key = [] then Some l
      else (case tags_search l key 0 (int (length l) - 1) of None \<Rightarrow> Some l | Some m \<Rightarrow> own_tags key l m))"

text \<open>The entry of the printer, or that of \<open>*\<close>; the name of the entry becomes that of the printer.\<close>

definition select_entry :: "gp_env \<Rightarrow> bool \<Rightarrow> cstr \<Rightarrow> gp_state \<Rightarrow> (cstr option \<times> gp_state) option" where
  "select_entry env wildcard nm st =
     map_option (\<lambda>(found, ps). (found, st\<lparr>gp_entry := pc_info ps, gp_aliases := the (pc_aliases ps), gp_db := pc_lists ps\<rparr>))
       (Select_pc_info 6 (gp_pc env) (gp_host env) wildcard nm
         \<lparr>pc_info = gp_entry st, pc_aliases = Some (gp_aliases st), pc_lists = gp_db st\<rparr>)"

definition find_entry :: "gp_env \<Rightarrow> gp_state \<Rightarrow> gp_state option" where
  "find_entry env st =
     (let named = (\<lambda>s st. dyn ''Printer_DYN'' (if s = ''*'' then get_var st ''Queue_name_DYN'' else Some s) st) in
      Option.bind (select_entry env True (opt_str (get_var st ''Printer_DYN'')) st)
        (\<lambda>(found, st1). case found of
           Some s \<Rightarrow> Some (named s st1)
         | None \<Rightarrow>
             map_option (\<lambda>(found, st2). case found of Some s \<Rightarrow> named s st2 | None \<Rightarrow> st2)
               (select_entry env False ''*'' st1)))"

text \<open>
  The options that start with \<open>client.\<close> or \<open>server.\<close> count without it, from the defaults, from the
  configuration and from the entry itself, and the variables take their values from the entry.
\<close>

definition entry_vars :: "gp_env \<Rightarrow> cstr \<Rightarrow> gp_state \<Rightarrow> gp_state option" where
  "entry_vars env tag st =
     Option.bind
       (Find_own_tags (Find_tags (Find_default_tags (gp_entry st) (gp_table env) tag) (gp_config env) tag) tag)
       (\<lambda>entry. map_option (\<lambda>vars. st\<lparr>gp_entry := entry, gp_vars := vars\<rparr>)
          (Set_var_list (gp_vars st) (gp_table env) entry))"

text \<open>The message about an entry with a device and a remote host, when the caller has room for one.\<close>

definition conflict :: "int option \<Rightarrow> gp_state \<Rightarrow> cstr option" where
  "conflict room st =
     (case (room, get_var st ''RemoteHost_DYN'', get_var st ''Lp_device_DYN'') of
        (Some n, Some rm, Some lp) \<Rightarrow>
          Some (plp_snprintf n ''conflicting printcap entries :lp=%s:rm=%s'' [AStr (Some lp), AStr (Some rm)])
      | _ \<Rightarrow> None)"

subsection \<open>Where the jobs go\<close>

definition default_remote :: "gp_state \<Rightarrow> gp_state" where
  "default_remote st =
     (let st1 = (if ISNULL (get_var st ''RemoteHost_DYN'')
                 then dyn ''RemoteHost_DYN'' (get_var st ''Default_remote_host_DYN'') st else st);
          st2 = (if ISNULL (get_var st1 ''RemoteHost_DYN'')
                 then dyn ''RemoteHost_DYN'' (get_var st1 ''FQDNHost_FQDN'') st1 else st1)
      in if ISNULL (get_var st2 ''RemotePrinter_DYN'')
         then dyn ''RemotePrinter_DYN'' (get_var st2 ''Printer_DYN'') st2 else st2)"

text \<open>A client that prints without a server: \<open>None\<close> when the entry does not say so.\<close>

definition client_direct :: "gp_state \<Rightarrow> gp_state option" where
  "client_direct st =
     (let lp = opt_str (get_var st ''Lp_device_DYN'') in
      if lp = [] \<or> hd lp = CHR ''/'' \<or> hd lp = CHR ''|'' then
        Some (dyn ''RemoteHost_DYN'' None (dyn ''RemotePrinter_DYN'' None st))
      else if has_at (Some lp) then
        Some (set_remote lp (dyn ''Queue_name_DYN'' (get_var st ''Printer_DYN'') (put ''Lp_device_DYN'' (Some (before_at lp)) st)))
      else None)"

definition client_lp :: "gp_state \<Rightarrow> gp_state option" where
  "client_lp st =
     (let lp = opt_str (get_var st ''Lp_device_DYN'');
          st1 = dyn ''RemoteHost_DYN'' (Some (after_at lp)) (put ''RemotePrinter_DYN'' (Some (before_at lp)) st) in
      if has_at (Some lp)
      then map_option (\<lambda>h. no_socket (Some (tl h)) st1) (get_var st1 ''RemoteHost_DYN'')
      else Some st)"

definition expand_device :: "gp_env \<Rightarrow> gp_state \<Rightarrow> gp_state" where
  "expand_device env st =
     (case Expand_percent (gp_now env) (gp_vars st) (get_var st ''Lp_device_DYN'') of
        (vars, lp) \<Rightarrow> put ''Lp_device_DYN'' lp (st\<lparr>gp_vars := vars\<rparr>))"

definition client_remote :: "gp_env \<Rightarrow> gp_state \<Rightarrow> gp_state option" where
  "client_remote env st0 =
     (let st = expand_device env st0 in
      if get_int st ''Direct_DYN'' \<noteq> 0 \<and> get_var st ''Lp_device_DYN'' = None then None
      else
        (case (if get_int st ''Direct_DYN'' \<noteq> 0 then client_direct st else None) of
           Some st1 \<Rightarrow> Some st1
         | None \<Rightarrow>
             if get_int st ''Force_localhost_DYN'' \<noteq> 0 then
               Some (dyn ''Lp_device_DYN'' None (dyn ''RemotePrinter_DYN'' (get_var st ''Printer_DYN'')
                      (dyn ''RemoteHost_DYN'' (Some LOCALHOST) st)))
             else map_option default_remote (client_lp st)))"

definition server_remote :: "int option \<Rightarrow> cstr option \<Rightarrow> gp_state \<Rightarrow> cstr option \<times> gp_state" where
  "server_remote room msg st =
     (let lp = get_var st ''Lp_device_DYN'';
          (msg1, st1) =
            (if has_at lp then (msg, dyn ''Lp_device_DYN'' None (set_remote (opt_str lp) st))
             else if lp \<noteq> None then (msg, dyn ''RemotePrinter_DYN'' None (dyn ''RemoteHost_DYN'' None st))
             else if get_var st ''RemoteHost_DYN'' \<noteq> None then (msg, st)
             else if get_var st ''Server_names_DYN'' = None
             then (case room of None \<Rightarrow> msg | Some n \<Rightarrow> Some (plp_snprintf n ''no :rm, :lp, or :sv entry'' []), st)
             else (msg, st))
      in (msg1, if get_var st1 ''Lp_device_DYN'' = None then default_remote st1 else st1))"

text \<open>
  The options in \<open>pc\_entries\_required\<close> are put into the entry: those that are missing are taken from
  the configuration lines, with the separator before the value, or from the variable of the table.
\<close>

definition table_entry :: "kword list \<Rightarrow> cstr \<Rightarrow> config_vars \<Rightarrow> line_list \<Rightarrow> line_list" where
  "table_entry table s vars l =
     (case find (\<lambda>k. keyword k = s) table of
        None \<Rightarrow> l
      | Some k \<Rightarrow>
          (case (variable k, key_type_of (ktype k)) of
             (Some p, Some FLAG_K) \<Rightarrow> Set_flag_value l (keyword k) (int_vars vars p)
           | (Some p, Some INTEGER_K) \<Rightarrow> Set_decimal_value l (keyword k) (int_vars vars p)
           | (Some p, Some STRING_K) \<Rightarrow>
               (case str_vars vars p of None \<Rightarrow> l | Some t \<Rightarrow> Set_str_value l (keyword k) (Some t))
           | _ \<Rightarrow> l))"

definition require_entry :: "gp_env \<Rightarrow> config_vars \<Rightarrow> line_list \<Rightarrow> cstr \<Rightarrow> line_list" where
  "require_entry env vars l s =
     (if s = [] \<or> fst (Find_first_key l s (Some Hash_value_sep)) = 0 then l
      else
        (case Find_first_key (gp_config env) s (Some Hash_value_sep) of (cmp, mid) \<Rightarrow>
           if cmp = 0 then Set_str_value l s (strpbrk (gp_config env ! mid) Hash_value_sep)
           else table_entry (gp_table env) s vars l))"

definition required_entries :: "gp_env \<Rightarrow> gp_state \<Rightarrow> gp_state" where
  "required_entries env st =
     (case get_var st ''Pc_entries_required_DYN'' of
        None \<Rightarrow> st
      | Some r \<Rightarrow>
          st\<lparr>gp_entry := foldl (require_entry env (gp_vars st)) (gp_entry st)
                           (Split [] r File_sep False None False NUL False None)\<rparr>)"

definition finish_info :: "gp_env \<Rightarrow> gp_state \<Rightarrow> gp_state" where
  "finish_info env st =
     required_entries env (st\<lparr>gp_vars := Expand_vars (gp_now env) (gp_vars st) (gp_table env)\<rparr>)"

text \<open>The configuration as it is without a printer.\<close>

definition reset_info :: "gp_env \<Rightarrow> gp_state \<Rightarrow> gp_state option" where
  "reset_info env st =
     map_option
       (\<lambda>vars. dyn ''RemoteHost_DYN'' None (dyn ''RemotePrinter_DYN'' None (dyn ''Lp_device_DYN'' None
          (put ''Printer_DYN'' (get_var st ''Printer_DYN'') (st\<lparr>gp_vars := vars, gp_entry := [], gp_aliases := []\<rparr>)))))
       (Reset_config (gp_now env) (gp_vars (put ''Printer_DYN'' None st)) (gp_table env) (gp_config env))"

definition Fix_Rm_Rp_info :: "gp_env \<Rightarrow> int option \<Rightarrow> gp_state \<Rightarrow> (cstr option \<times> gp_state) option" where
  "Fix_Rm_Rp_info env room st0 =
     Option.bind (reset_info env st0)
       (\<lambda>st.
         let printer = opt_str (get_var st ''Printer_DYN'');
             queued = dyn ''Queue_name_DYN'' (get_var st ''Printer_DYN'') st in
         if \<not> Is_server (gp_pc env) \<and> has_at (Some printer) then
           Some (None, finish_info env (set_remote printer
             (dyn ''Queue_name_DYN'' (Some (before_at printer)) (put ''Printer_DYN'' (Some (before_at printer)) st))))
         else if \<not> Is_server (gp_pc env) then
           Option.bind (Option.bind (find_entry env queued) (entry_vars env ''client.''))
             (\<lambda>st1. map_option (\<lambda>st2. (conflict room st1, finish_info env st2)) (client_remote env st1))
         else
           map_option
             (\<lambda>st1. case server_remote room (conflict room st1) st1 of (msg, st2) \<Rightarrow> (msg, finish_info env st2))
             (Option.bind (find_entry env queued) (entry_vars env ''server.'')))"

subsection \<open>All printers, and the default printer\<close>

definition ispunct :: "char \<Rightarrow> bool" where
  "ispunct c \<longleftrightarrow> 33 \<le> ccode c \<and> ccode c \<le> 126 \<and> \<not> isalnum c"

definition Get_all_printcap_entries :: "gp_env \<Rightarrow> gp_state \<Rightarrow> gp_state option" where
  "Get_all_printcap_entries env st =
     map_option
       (\<lambda>(found, st1).
          st1\<lparr>gp_all :=
            (case found of
               Some _ \<Rightarrow>
                 Split [] (case Find_str_value (gp_entry st1) ALL_word of None \<Rightarrow> ''all'' | Some t \<Rightarrow> t)
                   File_sep False None False (CHR 0x01) False None
             | None \<Rightarrow>
                 filter (\<lambda>s. s \<noteq> [] \<and> s \<noteq> ALL_word \<and> s \<noteq> ''*'' \<and> \<not> ispunct (hd s)) (pc_order (gp_db st1)))\<rparr>)
       (select_entry env False ALL_word (st\<lparr>gp_all := []\<rparr>))"

text \<open>The first environment variable that is set counts, even if it is empty.\<close>

definition env_printer :: "(cstr \<Rightarrow> cstr option) \<Rightarrow> cstr option" where
  "env_printer getenv =
     (case dropWhile (\<lambda>v. getenv v = None) [''PRINTER'', ''LPDEST'', ''NPRINTER'', ''NGPRINTER''] of
        [] \<Rightarrow> None | v # _ \<Rightarrow> getenv v)"

definition Get_printer :: "gp_env \<Rightarrow> (cstr \<Rightarrow> cstr option) \<Rightarrow> gp_state \<Rightarrow> gp_state option" where
  "Get_printer env getenv st0 =
     Option.bind
       (case get_var st0 ''Printer_DYN'' of
          Some s \<Rightarrow> Some (Some s, st0)
        | None \<Rightarrow>
            (case env_printer getenv of
               Some s \<Rightarrow> Some (Some s, st0)
             | None \<Rightarrow>
                 if get_int st0 ''Require_explicit_Q_DYN'' \<noteq> 0 then Some (None, st0)
                 else
                   map_option
                     (\<lambda>st. (case gp_all st of s # _ \<Rightarrow> Some s | [] \<Rightarrow> get_var st ''Default_printer_DYN'', st))
                     (Get_all_printcap_entries env st0)))
       (\<lambda>(s, st). case s of
          None \<Rightarrow> None
        | Some _ \<Rightarrow>
            (let st1 = dyn ''Printer_DYN'' s st
             in Some (st1\<lparr>gp_vars := Expand_vars (gp_now env) (gp_vars st1) (gp_table env)\<rparr>)))"

subsection \<open>Listing the printcap\<close>

text \<open>The text for the standard output, and the warning that goes to the error output before it.\<close>

definition Show_formatted_info :: "gp_env \<Rightarrow> gp_state \<Rightarrow> (cstr option \<times> cstr \<times> gp_state) option" where
  "Show_formatted_info env st =
     map_option
       (\<lambda>(msg, st1).
          case Expand_percent (gp_now env) (gp_vars st1)
                 (Join_line_list_with_sep (gp_entry st1) (Some ([CHR 0x0A] @ '' :''))) of
            (vars, s) \<Rightarrow>
              (if ISNULL msg then None
               else Some (opt_str (get_var st1 ''Printer_DYN'') @ '': '' @ [CHR 0x27] @ opt_str msg @ [CHR 0x27]),
               opt_str (Join_line_list_with_sep (gp_aliases st1) (Some ''|'')) @
                 (case s of None \<Rightarrow> [] | Some t \<Rightarrow> [CHR 0x0A] @ '' :'' @ t) @ [CHR 0x0A],
               st1\<lparr>gp_vars := vars\<rparr>))
       (Fix_Rm_Rp_info env (Some SMALLBUFFER) st)"

definition show_list :: "cstr \<Rightarrow> line_list \<Rightarrow> cstr" where
  "show_list title l =
     [CHR 0x0A] @ title @ [CHR 0x0A] @
       (case Join_line_list_with_sep l (Some ([CHR 0x0A] @ '' :'')) of
          None \<Rightarrow> [] | Some s \<Rightarrow> if s = [] then [] else '' :'' @ s @ [CHR 0x0A])"

fun show_each :: "gp_env \<Rightarrow> line_list \<Rightarrow> gp_state \<Rightarrow> (cstr list \<times> cstr \<times> gp_state) option" where
  "show_each env [] st = Some ([], [], st)"
| "show_each env (s # l) st =
     Option.bind (Show_formatted_info env (dyn ''Printer_DYN'' (Some s) st))
       (\<lambda>(w, out, st1). map_option (\<lambda>(ws, out', st2). (case_option [] (\<lambda>x. [x]) w @ ws, out @ out', st2))
          (show_each env l st1))"

definition Show_all_printcap_entries :: "gp_env \<Rightarrow> gp_state \<Rightarrow> (cstr list \<times> cstr \<times> gp_state) option" where
  "Show_all_printcap_entries env st =
     Option.bind (Get_all_printcap_entries env st)
       (\<lambda>st1. map_option
          (\<lambda>(ws, out, st2).
             (ws, show_list ''.names'' (pc_names (gp_db st1)) @ show_list ''.all'' (gp_all st1) @
                    [CHR 0x0A] @ ''#Printcap Information'' @ [CHR 0x0A] @ out, st2))
          (show_each env (gp_all st1) st1))"

subsection \<open>A queue is local or remote\<close>

lemmas gp_defs = get_var_def get_int_def dyn_def put_def Set_DYN_def

lemma get_var_simps [simp]:
  "get_var (put v s st) w = (if w = v then s else get_var st w)"
  "get_var (dyn v s st) w = (if w = v then (if ISNULL s then None else s) else get_var st w)"
  "get_var (st\<lparr>gp_entry := e\<rparr>) w = get_var st w"
  by (auto simp: gp_defs ISNULL_def)

lemma get_var_required [simp]: "get_var (required_entries env st) v = get_var st v"
  by (simp add: required_entries_def get_var_def split: option.split)

lemma get_var_finish_null:
  "v \<noteq> ''Current_date_DYN'' \<Longrightarrow> get_var (finish_info env st) v = None \<longleftrightarrow> get_var st v = None"
  by (simp add: finish_info_def) (simp add: get_var_def Expand_vars_null)

lemma get_var_finish_plain:
  "get_var st v = Some s \<Longrightarrow> CHR ''%'' \<notin> set s \<Longrightarrow> get_var (finish_info env st) v = Some s"
  by (simp add: finish_info_def) (simp add: get_var_def Expand_vars_plain)

lemma get_var_finish_same:
  "v \<noteq> ''Current_date_DYN'' \<Longrightarrow> Some v \<notin> variable ` set (gp_table env) \<Longrightarrow> get_var (finish_info env st) v = get_var st v"
  using Expand_vars_same [of v "gp_table env" "gp_now env" "gp_vars st"]
  by (simp add: finish_info_def) (simp add: get_var_def same_var_def)

lemma select_entry_var: "select_entry env w nm st = Some (f, st') \<Longrightarrow> get_var st' v = get_var st v"
  by (auto simp: select_entry_def get_var_def)

lemma find_entry_var:
  "find_entry env st = Some st' \<Longrightarrow> v \<noteq> ''Printer_DYN'' \<Longrightarrow> get_var st' v = get_var st v"
  by (auto simp: find_entry_def Let_def select_entry_var split: option.splits bind_splits)

lemma entry_vars_var:
  assumes "entry_vars env tag st = Some st'" "Some v \<notin> variable ` set (gp_table env)"
  shows "get_var st' v = get_var st v"
  using assms Set_var_list_same
  by (fastforce simp: entry_vars_def get_var_def same_var_def split: bind_splits)

lemma reset_info_var:
  assumes "reset_info env st = Some st'" "Some v \<notin> variable ` set (gp_table env)" "v \<noteq> ''Current_date_DYN''"
    "v \<notin> {''RemoteHost_DYN'', ''RemotePrinter_DYN'', ''Lp_device_DYN''}"
  shows "get_var st' v = get_var st v"
proof -
  from assms(1) obtain vars where
    r: "Reset_config (gp_now env) (gp_vars (put ''Printer_DYN'' None st)) (gp_table env) (gp_config env) = Some vars"
    and st': "st' = dyn ''RemoteHost_DYN'' None (dyn ''RemotePrinter_DYN'' None (dyn ''Lp_device_DYN'' None
          (put ''Printer_DYN'' (get_var st ''Printer_DYN'') (st\<lparr>gp_vars := vars, gp_entry := [], gp_aliases := []\<rparr>))))"
    by (auto simp: reset_info_def)
  from Reset_config_same [OF r assms(2,3)] have "str_vars vars v = str_vars (gp_vars (put ''Printer_DYN'' None st)) v"
    by (simp add: same_var_def)
  then show ?thesis using assms(4) unfolding st' by (auto simp: put_def get_var_def dyn_def Set_DYN_def)
qed

lemma default_remote_set:
  assumes "get_var st ''FQDNHost_FQDN'' = Some h" "h \<noteq> []"
  shows "get_var (default_remote st) ''RemoteHost_DYN'' \<noteq> None"
    "ISNULL (get_var st ''Printer_DYN'') \<or> get_var (default_remote st) ''RemotePrinter_DYN'' \<noteq> None"
    "get_var (default_remote st) ''Lp_device_DYN'' = get_var st ''Lp_device_DYN''"
    "get_var (default_remote st) ''Printer_DYN'' = get_var st ''Printer_DYN''"
  using assms by (auto simp: default_remote_def Let_def ISNULL_def)

lemma no_socket_var: "v \<noteq> ''Unix_socket_path_DYN'' \<Longrightarrow> get_var (no_socket h st) v = get_var st v"
  by (simp add: no_socket_def)

lemma set_remote_var:
  "v \<notin> {''Unix_socket_path_DYN'', ''RemoteHost_DYN'', ''RemotePrinter_DYN''} \<Longrightarrow> get_var (set_remote s st) v = get_var st v"
  "get_var (set_remote s st) ''RemotePrinter_DYN'' = Some (before_at s)"
  "get_var (set_remote s st) ''RemoteHost_DYN'' = (if after_at s = [] then None else Some (after_at s))"
  by (simp_all add: set_remote_def Let_def no_socket_var ISNULL_def)

definition local_or_remote :: "gp_state \<Rightarrow> bool" where
  "local_or_remote st \<longleftrightarrow>
     (if get_var st ''Lp_device_DYN'' \<noteq> None
      then get_var st ''RemoteHost_DYN'' = None \<and> get_var st ''RemotePrinter_DYN'' = None
      else get_var st ''RemoteHost_DYN'' \<noteq> None
        \<and> (ISNULL (get_var st ''Printer_DYN'') \<or> get_var st ''RemotePrinter_DYN'' \<noteq> None))"

lemma server_remote_ok:
  assumes "get_var st ''FQDNHost_FQDN'' = Some h" "h \<noteq> []" "server_remote room msg st = (m, st')"
  shows "local_or_remote st'"
proof -
  let ?lp = "get_var st ''Lp_device_DYN''"
  have d: "local_or_remote (default_remote s)"
    if "get_var s ''FQDNHost_FQDN'' = Some h" "get_var s ''Lp_device_DYN'' = None" for s
    using default_remote_set [OF that(1) assms(2)] that(2) by (auto simp: local_or_remote_def)
  show ?thesis
  proof (cases "has_at ?lp")
    case True
    with assms(1,3) d [of "dyn ''Lp_device_DYN'' None (set_remote (opt_str ?lp) st)"] show ?thesis
      by (auto simp: server_remote_def Let_def set_remote_var ISNULL_def)
  next
    case no_at: False
    show ?thesis
    proof (cases ?lp)
      case None
      with no_at assms(1,3) d [of st] show ?thesis
        by (auto simp: server_remote_def Let_def split: if_splits)
    next
      case (Some lp)
      with no_at assms(3) show ?thesis
        by (auto simp: server_remote_def Let_def local_or_remote_def ISNULL_def)
    qed
  qed
qed

text \<open>
  C20: whatever the printcap and the configuration say, after the server has looked a queue up it is
  either local, with a device and no remote host or printer, or remote, with a remote host and, for a
  queue with a name, a remote printer. It is never both and never neither, even if the entry is missing
  or contradictory.
\<close>

theorem server_local_or_remote:
  assumes "Is_server (gp_pc env)" "gp_table env = Pc_var_list b"
    and "get_var st ''FQDNHost_FQDN'' = Some h" "h \<noteq> []"
    and "Fix_Rm_Rp_info env room st = Some (msg, st')"
  shows "if get_var st' ''Lp_device_DYN'' \<noteq> None
    then get_var st' ''RemoteHost_DYN'' = None \<and> get_var st' ''RemotePrinter_DYN'' = None
    else get_var st' ''RemoteHost_DYN'' \<noteq> None
      \<and> (ISNULL (get_var st' ''Printer_DYN'') \<or> get_var st' ''RemotePrinter_DYN'' \<noteq> None)"
proof -
  have out: "Some v \<notin> variable ` set (gp_table env)" if "v \<in> {''FQDNHost_FQDN'', ''Printer_DYN''}" for v
    using that other_vars_unset [of v b] by (auto simp: assms(2) other_vars_def)
  from assms(1,5) obtain s0 s1 s2 where s: "reset_info env st = Some s0"
    "find_entry env (dyn ''Queue_name_DYN'' (get_var s0 ''Printer_DYN'') s0) = Some s1"
    "entry_vars env ''server.'' s1 = Some s2"
    "\<exists>m. server_remote room (conflict room s2) s2 = (msg, m) \<and> st' = finish_info env m"
    by (auto simp: Fix_Rm_Rp_info_def Let_def split_beta split: bind_splits) (metis prod.collapse)
  have "get_var s2 ''FQDNHost_FQDN'' = Some h"
    using entry_vars_var [OF s(3), of "''FQDNHost_FQDN''"] find_entry_var [OF s(2), of "''FQDNHost_FQDN''"]
      reset_info_var [OF s(1), of "''FQDNHost_FQDN''"] out assms(3) by simp
  from server_remote_ok [OF this assms(4)] s(4) obtain m where m: "local_or_remote m" "st' = finish_info env m" by blast
  have "get_var st' ''Printer_DYN'' = get_var m ''Printer_DYN''"
    using get_var_finish_same [of "''Printer_DYN''" env m] out m(2) by simp
  with m show ?thesis by (auto simp: local_or_remote_def get_var_finish_null split: if_splits)
qed

subsection \<open>The name on the command line\<close>

lemma reset_info_some:
  assumes "build_ok b" "gp_table env = Pc_var_list b"
    and "list_all (\<lambda>k. converts k (value_source (gp_config env) k)) (Pc_var_list b)"
  shows "\<exists>st'. reset_info env st = Some st' \<and> get_var st' ''Printer_DYN'' = get_var st ''Printer_DYN''
    \<and> get_var st' ''FQDNHost_FQDN'' = get_var st ''FQDNHost_FQDN'' \<and> gp_db st' = gp_db st \<and> gp_entry st' = [] \<and> gp_aliases st' = []"
proof -
  from reset_values [OF assms(1,3), where st = "gp_vars (put ''Printer_DYN'' None st)"] assms(2)
  obtain v where "Reset_config (gp_now env) (gp_vars (put ''Printer_DYN'' None st)) (gp_table env) (gp_config env) = Some v"
    by (auto simp: Reset_config_def)
  then obtain st' where r: "reset_info env st = Some st'"
    "gp_db st' = gp_db st" "gp_entry st' = []" "gp_aliases st' = []" "get_var st' ''Printer_DYN'' = get_var st ''Printer_DYN''"
    by (auto simp: reset_info_def) (simp_all add: dyn_def put_def get_var_def Set_DYN_def)
  moreover have "get_var st' ''FQDNHost_FQDN'' = get_var st ''FQDNHost_FQDN''"
    using reset_info_var [OF r(1), of "''FQDNHost_FQDN''"] other_vars_unset [of "''FQDNHost_FQDN''" b] assms(2)
    by (simp add: other_vars_def)
  ultimately show ?thesis by blast
qed

lemma at_cut: "CHR ''@'' \<notin> set s \<Longrightarrow> before_at (s @ CHR ''@'' # t) = s \<and> after_at (s @ CHR ''@'' # t) = t"
  by (induction s) (auto simp: before_at_def after_at_def)

lemma reset_info_db: "reset_info env (st\<lparr>gp_db := db, gp_entry := e, gp_aliases := a\<rparr>) =
    map_option (\<lambda>s. s\<lparr>gp_db := db\<rparr>) (reset_info env st)"
  by (cases "Reset_config (gp_now env) (gp_vars (put ''Printer_DYN'' None st)) (gp_table env) (gp_config env)")
    (simp_all add: reset_info_def dyn_def put_def get_var_def)

lemma gp_db_simps [simp]:
  "put v s (st\<lparr>gp_db := db\<rparr>) = put v s st\<lparr>gp_db := db\<rparr>" "dyn v s (st\<lparr>gp_db := db\<rparr>) = dyn v s st\<lparr>gp_db := db\<rparr>"
  "get_var (st\<lparr>gp_db := db\<rparr>) v = get_var st v" "set_remote t (st\<lparr>gp_db := db\<rparr>) = set_remote t st\<lparr>gp_db := db\<rparr>"
  "finish_info env (st\<lparr>gp_db := db\<rparr>) = finish_info env st\<lparr>gp_db := db\<rparr>"
  by (simp_all add: gp_defs set_remote_def no_socket_def finish_info_def required_entries_def Let_def split: option.split)

text \<open>
  C32: a client that is given \<open>printer@host\<close> goes to that printer on that host, and nothing that the
  printcap says counts.
\<close>

theorem named_host_overrides:
  assumes "\<not> Is_server (gp_pc env)" "build_ok b" "gp_table env = Pc_var_list b"
    and "list_all (\<lambda>k. converts k (value_source (gp_config env) k)) (Pc_var_list b)"
    and "get_var st ''Printer_DYN'' = Some (pr @ ''@'' @ hst)" "CHR ''@'' \<notin> set pr" "hst \<noteq> []"
    and "CHR ''%'' \<notin> set pr \<union> set hst"
  shows "\<exists>st'. Fix_Rm_Rp_info env room (st\<lparr>gp_db := db, gp_entry := e, gp_aliases := a\<rparr>) = Some (None, st'\<lparr>gp_db := db\<rparr>)
    \<and> Fix_Rm_Rp_info env room st = Some (None, st')
    \<and> get_var st' ''RemotePrinter_DYN'' = Some pr \<and> get_var st' ''RemoteHost_DYN'' = Some hst
    \<and> get_var st' ''Printer_DYN'' = Some pr \<and> get_var st' ''Lp_device_DYN'' = None"
proof -
  from reset_info_some [OF assms(2,3,4), of st] obtain r where r: "reset_info env st = Some r"
    "get_var r ''Printer_DYN'' = Some (pr @ ''@'' @ hst)" using assms(5) by auto
  have lp: "get_var r ''Lp_device_DYN'' = None" using r(1) by (auto simp: reset_info_def ISNULL_def)
  have cut: "before_at (pr @ CHR ''@'' # hst) = pr" "after_at (pr @ CHR ''@'' # hst) = hst"
    using assms(6) by (simp_all add: at_cut)
  let ?f = "\<lambda>r. finish_info env (set_remote (pr @ CHR ''@'' # hst)
      (dyn ''Queue_name_DYN'' (Some pr) (put ''Printer_DYN'' (Some pr) r)))"
  have fix1: "Fix_Rm_Rp_info env room s = map_option (\<lambda>r. (None, ?f r)) (reset_info env s)"
    if "\<And>r. reset_info env s = Some r \<Longrightarrow> get_var r ''Printer_DYN'' = Some (pr @ CHR ''@'' # hst)" for s
    using that assms(1) by (cases "reset_info env s") (simp_all add: Fix_Rm_Rp_info_def has_at_def cut)
  have "Fix_Rm_Rp_info env room st = Some (None, ?f r)" using fix1 [of st] r by simp
  moreover have "Fix_Rm_Rp_info env room (st\<lparr>gp_db := db, gp_entry := e, gp_aliases := a\<rparr>) = Some (None, (?f r)\<lparr>gp_db := db\<rparr>)"
    using fix1 [of "st\<lparr>gp_db := db, gp_entry := e, gp_aliases := a\<rparr>"] r by (simp add: reset_info_db)
  moreover have "get_var (?f r) ''RemotePrinter_DYN'' = Some pr" "get_var (?f r) ''RemoteHost_DYN'' = Some hst"
    "get_var (?f r) ''Printer_DYN'' = Some pr"
    using assms(7,8) cut by (auto intro!: get_var_finish_plain simp: set_remote_var)
  moreover have "get_var (?f r) ''Lp_device_DYN'' = None" using lp by (simp add: get_var_finish_null set_remote_var)
  ultimately show ?thesis by blast
qed

text \<open>
  An option that \<open>pc\_entries\_required\<close> takes from the configuration gets a second equals sign, an
  environment variable that is empty leaves a client without a printer, and a device \<open>printer@\<close> makes a
  client read through a null pointer.
\<close>

lemma required_twice_equal:
  "require_entry \<lparr>gp_pc = demo_pc_env, gp_host = None, gp_config = [''ppd=/a.ppd''], gp_table = [], gp_now = []\<rparr>
     \<lparr>int_vars = (\<lambda>_. 0), str_vars = (\<lambda>_. None)\<rparr> [] ''ppd'' = [''ppd==/a.ppd'']"
  by code_simp

lemma empty_printer_variable:
  "getenv ''PRINTER'' = Some [] \<Longrightarrow> get_var st ''Printer_DYN'' = None \<Longrightarrow> gp_table env = [] \<Longrightarrow>
   \<exists>st'. Get_printer env getenv st = Some st' \<and> get_var st' ''Printer_DYN'' = None"
  by (simp add: Get_printer_def env_printer_def Let_def) (simp add: gp_defs ISNULL_def)

lemma device_without_host: "get_var st ''Lp_device_DYN'' = Some ''pr@'' \<Longrightarrow> client_lp st = None"
  by (simp add: client_lp_def has_at_def after_at_def ISNULL_def)

text \<open>
  The witnesses have an empty configuration and an empty printcap: the server sends the jobs of a
  printer that it does not know to the default host, and the client those for \<open>lp@far\<close> to \<open>far\<close>.
\<close>

definition demo_gp_env :: "bool \<Rightarrow> gp_env" where
  "demo_gp_env server = \<lparr>gp_pc = demo_pc_env\<lparr>Is_server := server\<rparr>, gp_host = None, gp_config = [],
     gp_table = Pc_var_list all_options, gp_now = ''2003-01-01-10:20:30''\<rparr>"

definition demo_gp :: "cstr \<Rightarrow> gp_state" where
  "demo_gp printer =
     \<lparr>gp_vars = \<lparr>int_vars = (\<lambda>_. 0),
        str_vars = [''Printer_DYN'' \<mapsto> printer, ''FQDNHost_FQDN'' \<mapsto> ''here.org'', ''Lp_device_DYN'' \<mapsto> ''/dev/old'']\<rparr>,
      gp_entry = [''sd=/old''], gp_aliases = [''old''], gp_db = \<lparr>pc_names = [], pc_order = [], pc_input = []\<rparr>, gp_all = []\<rparr>"

lemma demo_converts: "list_all (\<lambda>k. converts k (value_source (gp_config (demo_gp_env server)) k)) (Pc_var_list all_options)"
proof -
  have "value_source [] k = default_value k" for k
    by (simp add: value_source_def Find_exists_value_def Find_first_key_def find_first_def search_loop.simps)
  moreover have "build_ok all_options" by code_simp
  from defaults_convert [OF this] have "list_all (\<lambda>k. converts k (default_value k)) (Pc_var_list all_options)" .
  ultimately show ?thesis by (simp only: demo_gp_env_def gp_env.simps)
qed

lemma named_host_overrides_witness:
  "\<exists>st'. Fix_Rm_Rp_info (demo_gp_env False) None (demo_gp ''lp@far'') = Some (None, st')
    \<and> get_var st' ''RemotePrinter_DYN'' = Some ''lp'' \<and> get_var st' ''RemoteHost_DYN'' = Some ''far''"
proof -
  have "\<not> Is_server (gp_pc (demo_gp_env False))" "gp_table (demo_gp_env False) = Pc_var_list all_options"
    "get_var (demo_gp ''lp@far'') ''Printer_DYN'' = Some (''lp'' @ ''@'' @ ''far'')"
    by (simp_all add: demo_gp_env_def demo_gp_def get_var_def)
  moreover have "build_ok all_options" by code_simp
  ultimately show ?thesis
    using named_host_overrides [where env = "demo_gp_env False" and b = all_options and st = "demo_gp ''lp@far''"
        and pr = "''lp''" and hst = "''far''" and room = None] demo_converts
    by fastforce
qed

lemma no_server_tags: "list_all (\<lambda>k. take (length ''server.'') (keyword k) \<noteq> ''server.'') (Pc_var_list all_options)"
  by code_simp

lemma select_entry_empty:
  assumes "pc_filter (gp_pc env) = None" "pc_names (gp_db st) = []"
  shows "select_entry env w nm st = Some (None, st)"
proof -
  have "Find_str_value [] nm = None"
    by (simp add: Find_str_value_def Find_first_key_def find_first_def search_loop.simps)
  then show ?thesis using assms
    by (cases st) (simp add: select_entry_def eval_nat_numeral filter_lookup_def find_name_def)
qed

lemma Find_default_tags_none:
  "list_all (\<lambda>k. take (length tag) (keyword k) \<noteq> tag) ks \<Longrightarrow> Find_default_tags l ks tag = l"
  by (induction ks) (auto split: option.split)

lemma Set_var_list_empty: "Set_var_list st ks [] = Some st"
  by (induction ks) (simp_all add: Find_exists_value_def Find_first_key_def find_first_def search_loop.simps)

lemma entry_vars_empty:
  assumes "gp_entry st = []" "gp_config env = []" "list_all (\<lambda>k. take (length tag) (keyword k) \<noteq> tag) (gp_table env)"
  shows "entry_vars env tag st = Some st"
  using assms
  by (cases st) (simp add: entry_vars_def Find_default_tags_none Find_tags_def Find_own_tags_def
      Set_var_list_empty tags_search.simps)

lemma server_local_or_remote_witness:
  "\<exists>msg st'. Fix_Rm_Rp_info (demo_gp_env True) None (demo_gp ''lp'') = Some (msg, st')
    \<and> (if get_var st' ''Lp_device_DYN'' \<noteq> None then get_var st' ''RemoteHost_DYN'' = None else get_var st' ''RemoteHost_DYN'' \<noteq> None)"
proof -
  let ?e = "demo_gp_env True" and ?s = "demo_gp ''lp''"
  have e: "Is_server (gp_pc ?e)" "gp_table ?e = Pc_var_list all_options" "get_var ?s ''FQDNHost_FQDN'' = Some ''here.org''" "''here.org'' \<noteq> []"
    by (simp_all add: demo_gp_env_def demo_gp_def get_var_def)
  have "build_ok all_options" by code_simp
  from reset_info_some [OF this e(2) demo_converts, of ?s] obtain r where r: "reset_info ?e ?s = Some r"
    "get_var r ''Printer_DYN'' = Some ''lp''" "gp_db r = gp_db ?s" "gp_entry r = []" "gp_aliases r = []"
    by (auto simp: demo_gp_def get_var_def)
  let ?q = "dyn ''Queue_name_DYN'' (get_var r ''Printer_DYN'') r"
  have q: "gp_entry ?q = []" "gp_db ?q = gp_db ?s" "pc_names (gp_db ?s) = []"
    using r by (simp_all add: dyn_def demo_gp_def)
  then have "select_entry ?e w nm ?q = Some (None, ?q)" for w nm
    by (intro select_entry_empty) (simp_all add: demo_gp_env_def demo_pc_env_def)
  then have f: "find_entry ?e ?q = Some ?q" by (simp add: find_entry_def)
  have "entry_vars ?e ''server.'' ?q = Some ?q"
    using no_server_tags q(1) by (intro entry_vars_empty) (simp_all add: demo_gp_env_def)
  with r f have "Fix_Rm_Rp_info ?e None ?s \<noteq> None" using e(1) by (simp add: Fix_Rm_Rp_info_def Let_def)
  then obtain msg st' where "Fix_Rm_Rp_info ?e None ?s = Some (msg, st')" by auto
  with server_local_or_remote [OF e this] show ?thesis by (auto split: if_splits)
qed

end
