(* ===== verification/Visits.thy ===== *)
theory Visits
  imports Main
begin

section \<open>Traversals that visit every key once\<close>

text \<open>
  A handler that calls itself for other objects, and keeps in its state which keys it has seen. \<open>step\<close> is
  the body of the handler, with the recursive call as its argument. The contract: a handler that only adds
  keys is made into one that only adds keys, and the body calls the handler only after it has seen a key
  that is new. Then the depth of the recursion is bounded by the number of keys: any depth beyond it
  gives the same result.
\<close>

definition grows :: "('s \<Rightarrow> bool) \<Rightarrow> ('s \<Rightarrow> 'k set) \<Rightarrow> ('s \<Rightarrow> 's option) \<Rightarrow> bool" where
  "grows ok seen f \<longleftrightarrow> (\<forall>s s'. ok s \<longrightarrow> f s = Some s' \<longrightarrow> ok s' \<and> seen s \<subseteq> seen s')"

definition agree_past :: "('s \<Rightarrow> bool) \<Rightarrow> ('s \<Rightarrow> 'k set) \<Rightarrow> 'k set \<Rightarrow> ('s \<Rightarrow> 's option) \<Rightarrow> ('s \<Rightarrow> 's option) \<Rightarrow> bool" where
  "agree_past ok seen V f g \<longleftrightarrow> (\<forall>s. ok s \<longrightarrow> V \<subseteq> seen s \<longrightarrow> f s = g s)"

lemma growsD: "grows ok seen f \<Longrightarrow> f s = Some s' \<Longrightarrow> ok s \<Longrightarrow> ok s' \<and> seen s \<subseteq> seen s'"
  by (simp add: grows_def)

lemma agree_pastD: "agree_past ok seen V f g \<Longrightarrow> ok s \<Longrightarrow> V \<subseteq> seen s \<Longrightarrow> f s = g s"
  by (simp add: agree_past_def)

text \<open>The handler at depth \<open>n\<close>, which fails when the depth is used up.\<close>

definition at_depth :: "(('s \<Rightarrow> 's option) \<Rightarrow> 's \<Rightarrow> 's option) \<Rightarrow> nat \<Rightarrow> 's \<Rightarrow> 's option" where
  "at_depth step n = (step ^^ n) (\<lambda>_. None)"

lemma at_depth_simps [simp]: "at_depth step 0 s = None" "at_depth step (Suc n) = step (at_depth step n)"
  by (simp_all add: at_depth_def)

locale visits =
  fixes step :: "('s \<Rightarrow> 's option) \<Rightarrow> 's \<Rightarrow> 's option"
    and ok :: "'s \<Rightarrow> bool" and seen :: "'s \<Rightarrow> 'k set" and K :: "'k set"
  assumes finite_keys: "finite K"
    and step_grows: "grows ok seen f \<Longrightarrow> grows ok seen (step f)"
    and step_new: "grows ok seen f \<Longrightarrow> ok s \<Longrightarrow>
      (\<And>k. k \<in> K \<Longrightarrow> k \<notin> seen s \<Longrightarrow> agree_past ok seen (insert k (seen s)) f g) \<Longrightarrow> step f s = step g s"
begin

lemma depth_grows: "grows ok seen (at_depth step n)"
  by (induction n) (simp_all add: step_grows, simp add: grows_def)

lemma depth_agrees:
  "card (K - V) < n \<Longrightarrow> card (K - V) < m \<Longrightarrow> agree_past ok seen V (at_depth step n) (at_depth step m)"
proof (induction n arbitrary: m V)
  case (Suc n)
  then obtain m' where m: "m = Suc m'" by (cases m) auto
  show ?case unfolding agree_past_def
  proof (intro allI impI)
    fix s assume s: "ok s" "V \<subseteq> seen s"
    have "agree_past ok seen (insert k (seen s)) (at_depth step n) (at_depth step m')" if "k \<in> K" "k \<notin> seen s" for k
    proof -
      have "K - insert k (seen s) \<subset> K - V" using that s(2) by auto
      from psubset_card_mono [OF _ this] finite_keys have "card (K - insert k (seen s)) < card (K - V)" by simp
      with Suc m show ?thesis by simp
    qed
    from step_new [OF depth_grows s(1) this] show "at_depth step (Suc n) s = at_depth step m s" by (simp add: m)
  qed
qed simp

lemma depth_enough: "card K < n \<Longrightarrow> agree_past ok seen {} (at_depth step n) (at_depth step (Suc (card K)))"
  by (rule depth_agrees) simp_all

end

subsection \<open>Handlers built from others\<close>

fun in_turn :: "('a \<Rightarrow> 's \<Rightarrow> 's option) \<Rightarrow> 'a list \<Rightarrow> 's \<Rightarrow> 's option" where
  "in_turn f [] s = Some s"
| "in_turn f (x # xs) s = Option.bind (f x s) (in_turn f xs)"

lemma in_turn_grows:
  assumes "\<And>x. grows ok seen (f x)" shows "grows ok seen (in_turn f xs)"
proof (induction xs)
  case (Cons x xs)
  show ?case unfolding grows_def
  proof (intro allI impI)
    fix s s' assume "ok s" "in_turn f (x # xs) s = Some s'"
    then obtain t where "f x s = Some t" "in_turn f xs t = Some s'" by (auto split: bind_splits)
    with growsD [OF assms, of x s t] growsD [OF Cons, of t s'] \<open>ok s\<close> show "ok s' \<and> seen s \<subseteq> seen s'" by blast
  qed
qed (simp add: grows_def)

lemma in_turn_agrees:
  assumes "\<And>x. agree_past ok seen V (f x) (g x)" "\<And>x. grows ok seen (f x)"
  shows "agree_past ok seen V (in_turn f xs) (in_turn g xs)"
proof (induction xs)
  case (Cons x xs)
  show ?case unfolding agree_past_def
  proof (intro allI impI)
    fix s assume s: "ok s" "V \<subseteq> seen s"
    have fg: "f x s = g x s" using agree_pastD [OF assms(1)] s by blast
    show "in_turn f (x # xs) s = in_turn g (x # xs) s"
    proof (cases "f x s")
      case (Some t)
      from growsD [OF assms(2) Some s(1)] s(2) have "ok t" "V \<subseteq> seen t" by auto
      from agree_pastD [OF Cons this] show ?thesis using Some by (simp flip: fg)
    qed (use fg in simp)
  qed
qed (simp add: agree_past_def)

end
