(* ===== verification/RemoveRequest.thy ===== *)
theory RemoveRequest
  imports QueueControl Visits
begin

section \<open>Requests to remove jobs (lpd\_remove.c)\<close>

text \<open>
  The handler of \<open>lprm\<close>. \<open>Job_remove\<close> checks the request, \<open>Get_queue_remove\<close> removes the jobs of one queue
  that the words select and the user may remove, stops the processes that print them, and passes the
  request on to the servers and destinations of the queue, on this host or over the network. The lemmas
  show which files go and for whom, and that a request visits no queue twice.
\<close>

subsection \<open>Environment and state\<close>

text \<open>
  Where the jobs of a printer go, as \<open>Fix_Rm_Rp_info\<close> (theory \<open>RemotePrinter\<close>) finds it. \<open>rm_send\<close> is the
  answer to the request that is sent on to a remote host, if the host can be reached; \<open>rm_alive\<close> says
  whether a process can be signalled.
\<close>

record remote_conf =
  rc_Printer :: cstr
  rc_Destinations :: "cstr option"
  rc_RemoteHost :: "cstr option"
  rc_RemotePrinter :: "cstr option"

record rm_env =
  rm_ctl :: ctl_env
  rm_remote :: "cstr \<Rightarrow> remote_conf"
  rm_alive :: "int \<Rightarrow> bool"
  rm_send :: "cstr option \<Rightarrow> cstr option \<Rightarrow> line_list \<Rightarrow> cstr option"

text \<open>The spool directory of each queue, if it can be read, and the queues that have been visited.\<close>

record rm_state =
  rs_ctl :: ctl_state
  rs_done :: line_list
  rs_dirs :: "cstr \<Rightarrow> (cstr \<times> cstr option) list option"

definition rs_printer :: "rm_state \<Rightarrow> cstr" where
  "rs_printer st = ct_printer (rs_ctl st)"

definition upd_ctl :: "(ctl_state \<Rightarrow> ctl_state) \<Rightarrow> rm_state \<Rightarrow> rm_state" where
  "upd_ctl f st = st\<lparr>rs_ctl := f (rs_ctl st)\<rparr>"

definition tell :: "cstr \<Rightarrow> rm_state \<Rightarrow> rm_state" where
  "tell s = upd_ctl (say s)"

definition set_printer :: "cstr \<Rightarrow> rm_state \<Rightarrow> rm_state" where
  "set_printer p = upd_ctl (\<lambda>c. c\<lparr>ct_printer := p\<rparr>)"

definition send_signals :: "(bool \<times> int \<times> signal) list \<Rightarrow> rm_state \<Rightarrow> rm_state" where
  "send_signals ss = upd_ctl (\<lambda>c. c\<lparr>ct_signals := ct_signals c @ ss\<rparr>)"

subsection \<open>One job\<close>

definition control_permission :: "ctl_env \<Rightarrow> perm_check \<Rightarrow> cstr \<Rightarrow> int option" where
  "control_permission env chk pr =
     Perms_check (c_perm_env env) (c_perm_fuel env) (Some (c_perms env))
       (Some (chk\<lparr>service := CHR ''C'', printer := Some pr, host := None, user := None\<rparr>)) None False"

definition remove_permission :: "ctl_env \<Rightarrow> perm_check \<Rightarrow> cstr \<Rightarrow> line_list \<Rightarrow> int option" where
  "remove_permission env chk pr i =
     Perms_check (c_perm_env env) (c_perm_fuel env) (Some (c_perms env))
       (Some (chk\<lparr>user := Find_str_value i LOGNAME, host := Option.bind (Find_str_value i FROMHOST) (c_host_of env),
          service := CHR ''M'', printer := Some pr\<rparr>)) (Some i) True"

text \<open>\<open>None\<close> is a check that fails, \<open>Some False\<close> a job that the user may not remove.\<close>

definition may_remove :: "ctl_env \<Rightarrow> perm_check \<Rightarrow> bool \<Rightarrow> cstr \<Rightarrow> line_list \<Rightarrow> bool option" where
  "may_remove env chk control pr i =
     (if control then Some True else map_option (\<lambda>p. p \<noteq> P_REJECT) (remove_permission env chk pr i))"

definition lprm_selects :: "line_list \<Rightarrow> line_list \<Rightarrow> bool option" where
  "lprm_selects tokens i = (if tokens = [] then Some True else map_option (\<lambda>m. m = 0) (Patselect tokens i 0))"

definition job_text :: "cstr \<Rightarrow> line_list \<Rightarrow> cstr" where
  "job_text fmt i = plp_snprintf SMALLBUFFER (fmt @ [CHR 0x27] @ ''%s'' @ [CHR 0x27, CHR 0x0A]) [AStr (job_name i)]"

definition spool_job :: "cstr \<Rightarrow> cstr \<Rightarrow> rm_state \<Rightarrow> job" where
  "spool_job pr f st = Get_job_ticket_file (Option.bind (rs_dirs st pr) (\<lambda>d. Option.bind (map_of d f) id)) Init_job"

text \<open>The files that are left when a job has been removed, and whether one could not be removed.\<close>

definition remove_files :: "rm_env \<Rightarrow> queue_conf \<Rightarrow> cstr \<Rightarrow> job \<Rightarrow> rm_state \<Rightarrow> rm_state \<times> bool" where
  "remove_files env q pr j st =
     (case rs_dirs st pr of
        None \<Rightarrow> (st, False)
      | Some d \<Rightarrow>
          (case Remove_job (c_server (rm_ctl env)) j (map fst d) of
             (names, fail) \<Rightarrow>
               (st\<lparr>rs_dirs := (rs_dirs st)(pr := Some (filter (\<lambda>e. fst e \<in> set names \<and> Some (fst e) \<noteq> q_Lpq_status_file q) d))\<rparr>, fail)))"

text \<open>A job that is still arriving: its receiver is told to stop.\<close>

definition stop_incoming :: "rm_env \<Rightarrow> line_list \<Rightarrow> rm_state \<Rightarrow> rm_state" where
  "stop_incoming env i st =
     (let pid = Find_flag_value i INCOMING_PID in
      if Find_flag_value i INCOMING_TIME \<noteq> 0 \<and> pid \<noteq> 0 then
        (let st1 = send_signals [(False, pid, SIGINT)] st in
         if c_kill (rm_ctl env) pid SIGINT then tell (job_text ''  removing incoming job '' i) st1
         else tell (job_text ''  dequeued '' i) st1)
      else tell (job_text ''  dequeued '' i) st)"

subsection \<open>The jobs of a queue\<close>

text \<open>
  The processes of the servers of the removed jobs, and how many jobs were removed. The search ends with
  the first job that cannot be removed, with a message, and without words with the first that can.
\<close>

record rm_found =
  rf_pids :: "int list"
  rf_removed :: nat

fun remove_loop ::
  "rm_env \<Rightarrow> queue_conf \<Rightarrow> perm_check \<Rightarrow> bool \<Rightarrow> line_list \<Rightarrow> cstr \<Rightarrow> cstr list \<Rightarrow> rm_found \<Rightarrow> rm_state
     \<Rightarrow> (rm_state \<times> (cstr + rm_found)) option" where
  "remove_loop env q chk control tokens pr [] r st = Some (st, Inr r)"
| "remove_loop env q chk control tokens pr (f # fs) r st =
     (let j = spool_job pr f st; i = info j in
      case lprm_selects tokens i of
        None \<Rightarrow> None
      | Some False \<Rightarrow> remove_loop env q chk control tokens pr fs r st
      | Some True \<Rightarrow>
          (let st1 = tell (job_text ''  checking perms '' i) st in
           case may_remove (rm_ctl env) chk control pr i of
             None \<Rightarrow> None
           | Some False \<Rightarrow> remove_loop env q chk control tokens pr fs r (tell (job_text ''  no permissions '' i) st1)
           | Some True \<Rightarrow>
               (case remove_files env q pr j (stop_incoming env i st1) of
                  (st2, fail) \<Rightarrow>
                    if fail then
                      (let msg = plp_snprintf SMALLBUFFER (''error: could not remove '' @ [CHR 0x27] @ ''%s'' @ [CHR 0x27]) [AStr (job_name i)]
                       in Some (tell msg st2, Inl msg))
                    else
                      (let pid = Find_flag_value i SERVER;
                           r1 = r\<lparr>rf_pids := rf_pids r @ (if pid \<noteq> 0 \<and> rm_alive env pid then [pid] else []),
                                  rf_removed := rf_removed r + 1\<rparr>
                       in if tokens = [] then Some (st2, Inr r1)
                          else remove_loop env q chk control tokens pr fs r1 st2))))"

definition kill_signals :: "int \<Rightarrow> (bool \<times> int \<times> signal) list" where
  "kill_signals pid = concat (map (\<lambda>s. [(True, pid, s), (False, pid, s)]) [SIGHUP, SIGINT, SIGQUIT, SIGCONT])"

definition stop_servers :: "queue_conf \<Rightarrow> rm_found \<Rightarrow> rm_state \<Rightarrow> rm_state" where
  "stop_servers q r st =
     (if rf_removed r = 0 then st
      else (let pid = Read_pid_from_file (q_lock q) in
            send_signals (concat (map kill_signals (rf_pids r)) @ (if 0 < pid then [(False, pid, SIGUSR2)] else [])) st))"

subsection \<open>Other queues\<close>

definition host_here :: "rm_env \<Rightarrow> cstr option \<Rightarrow> bool" where
  "host_here env h =
     (case Option.bind h (c_host_of (rm_ctl env)) of
        None \<Rightarrow> False
      | Some hi \<Rightarrow> \<not> Same_host (Some hi) (Some (Host_IP (c_perm_env (rm_ctl env))))
               \<or> \<not> Same_host (Some hi) (Some (Localhost_IP (c_perm_env (rm_ctl env)))))"

definition send_on :: "rm_env \<Rightarrow> remote_conf \<Rightarrow> cstr \<Rightarrow> line_list \<Rightarrow> rm_state \<Rightarrow> rm_state" where
  "send_on env rc who tokens st =
     (case rm_send env (rc_RemoteHost rc) (rc_RemotePrinter rc) (who # tokens) of
        None \<Rightarrow> st | Some answer \<Rightarrow> if answer = [] then st else tell answer st)"

text \<open>\<open>again\<close> is \<open>Get_queue_remove\<close> for the printer that has been set.\<close>

definition Get_local_or_remote_remove ::
  "(rm_state \<Rightarrow> rm_state option) \<Rightarrow> rm_env \<Rightarrow> cstr \<Rightarrow> line_list \<Rightarrow> rm_state \<Rightarrow> rm_state option" where
  "Get_local_or_remote_remove again env who tokens st =
     (if CHR ''@'' \<notin> set (rs_printer st) then again st
      else
        (let rc = rm_remote env (rs_printer st); st1 = set_printer (rc_Printer rc) st in
         if host_here env (rc_RemoteHost rc) then again st1 else Some (send_on env rc who tokens st1)))"

definition each_queue :: "(rm_state \<Rightarrow> rm_state option) \<Rightarrow> line_list \<Rightarrow> rm_state \<Rightarrow> rm_state option" where
  "each_queue f = in_turn (\<lambda>p st. f (set_printer p st))"

definition loop_text :: "rm_env \<Rightarrow> remote_conf \<Rightarrow> cstr \<Rightarrow> cstr" where
  "loop_text env rc pr =
     plp_snprintf SMALLBUFFER (''Error: loop in printcap- %s@%s -> %s@%s'' @ [CHR 0x0A])
       [AStr (Some pr), AStr (Some (c_fqdn (rm_ctl env))), AStr (rc_RemotePrinter rc), AStr (rc_RemoteHost rc)]"

definition other_queues ::
  "(rm_state \<Rightarrow> rm_state option) \<Rightarrow> rm_env \<Rightarrow> queue_conf \<Rightarrow> cstr \<Rightarrow> line_list \<Rightarrow> rm_state \<Rightarrow> rm_state option" where
  "other_queues again env q who tokens st =
     (let rc = rm_remote env (rs_printer st);
          names = (\<lambda>s. Split [] s File_sep False None False NUL False None);
          each = each_queue (Get_local_or_remote_remove again env who tokens) in
      case q_Server_names q of
        Some s \<Rightarrow> each (names s) st
      | None \<Rightarrow>
          (case rc_Destinations rc of
             Some s \<Rightarrow> each (names s) st
           | None \<Rightarrow>
               if rc_RemoteHost rc = None then Some st
               else if host_here env (rc_RemoteHost rc) then
                 (if rc_RemotePrinter rc \<noteq> Some (rs_printer st)
                  then again (set_printer (opt_str (rc_RemotePrinter rc)) st)
                  else Some (tell (loop_text env rc (rs_printer st)) st))
               else Some (send_on env rc who tokens st)))"

subsection \<open>The request\<close>

definition remove_error :: "cstr \<Rightarrow> rm_state \<Rightarrow> rm_state option" where
  "remove_error msg st = map_option (\<lambda>c. st\<lparr>rs_ctl := c\<rparr>) (say_line (nat SMALLBUFFER) ('' ERROR: '' @ msg) (rs_ctl st))"

text \<open>The jobs of the queue that has been set up.\<close>

definition remove_here ::
  "rm_env \<Rightarrow> perm_check \<Rightarrow> line_list \<Rightarrow> queue_conf \<Rightarrow> rm_state \<Rightarrow> (rm_state \<times> (cstr + rm_found)) option" where
  "remove_here env chk tokens q st =
     (let pr = rs_printer st in
      case control_permission (rm_ctl env) chk pr of
        None \<Rightarrow> None
      | Some p \<Rightarrow>
          (let st1 = tell (plp_snprintf SMALLBUFFER (''Printer %s@%s:'' @ [CHR 0x0A])
                             [AStr (Some pr), AStr (Some (c_short_host (rm_ctl env)))]) st in
           case Scan_queue (c_job (rm_ctl env)) (ct_control (rs_ctl st)) False None None (rs_dirs st pr) of
             None \<Rightarrow> None
           | Some (scan, err) \<Rightarrow>
               remove_loop env q chk (p = P_ACCEPT) tokens pr (map order_file (order_list scan))
                 \<lparr>rf_pids = [], rf_removed = 0\<rparr> st1))"

definition Get_queue_remove_body ::
  "(rm_state \<Rightarrow> rm_state option) \<Rightarrow> rm_env \<Rightarrow> perm_check \<Rightarrow> cstr \<Rightarrow> line_list \<Rightarrow> rm_state \<Rightarrow> rm_state option" where
  "Get_queue_remove_body again env chk who tokens st0 =
     (case Setup_printer (rm_ctl env) SMALLBUFFER (rs_printer st0) (rs_ctl st0) of
        (c, Inl msg) \<Rightarrow> remove_error msg (st0\<lparr>rs_ctl := c\<rparr>)
      | (c, Inr q) \<Rightarrow>
          (let st = st0\<lparr>rs_ctl := c\<rparr>; pr = rs_printer st in
           if Find_exists_value (rs_done st) pr (Some Hash_value_sep) \<noteq> None then Some st
           else
             (case remove_here env chk tokens q
                     (st\<lparr>rs_done := Add_line_list (rs_done st) pr (Some Hash_value_sep) True True\<rparr>) of
                None \<Rightarrow> None
              | Some (st3, Inl msg) \<Rightarrow> remove_error msg st3
              | Some (st3, Inr r) \<Rightarrow> other_queues again env q who tokens (stop_servers q r st3))))"

text \<open>The first argument bounds the depth of the queues that name each other.\<close>

primrec Get_queue_remove :: "nat \<Rightarrow> rm_env \<Rightarrow> perm_check \<Rightarrow> cstr \<Rightarrow> line_list \<Rightarrow> rm_state \<Rightarrow> rm_state option" where
  "Get_queue_remove 0 env chk who tokens st = None"
| "Get_queue_remove (Suc n) env chk who tokens st =
     Get_queue_remove_body (Get_queue_remove n env chk who tokens) env chk who tokens st"

definition Job_remove :: "nat \<Rightarrow> rm_env \<Rightarrow> cstr \<Rightarrow> rm_state \<Rightarrow> rm_state option" where
  "Job_remove n env input st0 =
     (let tokens = Split [] (tl input) Whitespace False None False NUL False None;
          st = st0\<lparr>rs_done := []\<rparr>;
          refuse = (\<lambda>msg. map_option (\<lambda>c. st\<lparr>rs_ctl := c\<rparr>) (say_line LINEBUFFER msg (rs_ctl st))) in
      case tokens of
        name # who # words \<Rightarrow>
          (case Is_clean_name (Some name) of
             Some s \<Rightarrow> refuse (plp_snprintf (int LINEBUFFER) (''printer '' @ [CHR 0x27] @ ''%s'' @ [CHR 0x27] @
                         '' has illegal character at '' @ [CHR 0x27] @ ''%s'' @ [CHR 0x27] @ '' in name'') [AStr (Some name), AStr (Some s)])
           | None \<Rightarrow>
               (let again = Get_queue_remove n env ((c_check (rm_ctl env))\<lparr>remoteuser := Some who\<rparr>) who words in
                if name = ''all'' then each_queue again (c_all (rm_ctl env)) (set_printer name st)
                else again (set_printer name st)))
      | _ \<Rightarrow> refuse (plp_snprintf (int LINEBUFFER) ''missing user or printer name'' []))"

subsection \<open>What the steps leave alone\<close>

lemma rs_done_simps [simp]:
  "rs_done (upd_ctl f st) = rs_done st" "rs_done (tell s st) = rs_done st" "rs_done (set_printer p st) = rs_done st"
  "rs_done (send_signals ss st) = rs_done st" "rs_done (send_on env rc who tokens st) = rs_done st"
  "rs_done (stop_incoming env i st) = rs_done st" "rs_done (stop_servers q r st) = rs_done st"
  by (simp_all add: upd_ctl_def tell_def set_printer_def send_signals_def send_on_def stop_incoming_def stop_servers_def
      Let_def split: option.split)

lemma rs_dirs_simps [simp]:
  "rs_dirs (upd_ctl f st) = rs_dirs st" "rs_dirs (tell s st) = rs_dirs st" "rs_dirs (set_printer p st) = rs_dirs st"
  "rs_dirs (send_signals ss st) = rs_dirs st" "rs_dirs (send_on env rc who tokens st) = rs_dirs st"
  "rs_dirs (stop_incoming env i st) = rs_dirs st" "rs_dirs (stop_servers q r st) = rs_dirs st"
  by (simp_all add: upd_ctl_def tell_def set_printer_def send_signals_def send_on_def stop_incoming_def stop_servers_def
      Let_def split: option.split)

lemma rs_printer_simps [simp]:
  "rs_printer (tell s st) = rs_printer st" "rs_printer (set_printer p st) = p" "rs_printer (send_signals ss st) = rs_printer st"
  "rs_printer (st\<lparr>rs_done := l\<rparr>) = rs_printer st" "rs_printer (st\<lparr>rs_dirs := d\<rparr>) = rs_printer st"
  by (simp_all add: rs_printer_def upd_ctl_def tell_def set_printer_def send_signals_def say_def)

lemma remove_files_done: "remove_files env q pr j st = (st', fail) \<Longrightarrow> rs_done st' = rs_done st"
  by (auto simp: remove_files_def split: option.splits prod.splits)

lemma remove_loop_done:
  "remove_loop env q chk control tokens pr fs r st = Some (st', e) \<Longrightarrow> rs_done st' = rs_done st"
proof (induction fs arbitrary: r st)
  case (Cons f fs)
  then show ?case
    by (auto simp: Let_def split: option.splits bool.splits prod.splits if_splits dest: remove_files_done)
qed simp

lemma remove_error_done: "remove_error msg st = Some st' \<Longrightarrow> rs_done st' = rs_done st"
  by (auto simp: remove_error_def)

subsection \<open>No queue is visited twice\<close>

definition visited :: "line_list \<Rightarrow> int list set" where
  "visited l = set (lkeys fold_codes (Some Hash_value_sep) l)"

definition done_ok :: "line_list \<Rightarrow> bool" where
  "done_ok l \<longleftrightarrow> ll_uniq fold_codes (Some Hash_value_sep) l"

definition plain_name :: "cstr \<Rightarrow> bool" where
  "plain_name p \<longleftrightarrow> cstr_ok p \<and> key_of (Some Hash_value_sep) p = p"

lemma visited_iff:
  "done_ok l \<Longrightarrow> plain_name p \<Longrightarrow> Find_exists_value l p (Some Hash_value_sep) \<noteq> None \<longleftrightarrow> fold_codes p \<in> visited l"
  using nocase.find_first_spec [of "Some Hash_value_sep" l p]
  by (auto simp: Find_exists_value_def Find_first_key_def done_ok_def ll_uniq_def plain_name_def visited_def split: prod.splits)

lemma visited_add:
  assumes "done_ok l" "plain_name p"
  shows "done_ok (Add_line_list l p (Some Hash_value_sep) True True)"
    "visited (Add_line_list l p (Some Hash_value_sep) True True) = insert (fold_codes p) (visited l)"
proof -
  have a: "ll_uniq fold_codes (Some Hash_value_sep) (Add_line_list l p (Some Hash_value_sep) True True)
      \<and> ll_map fold_codes (Some Hash_value_sep) (Add_line_list l p (Some Hash_value_sep) True True)
        = (ll_map fold_codes (Some Hash_value_sep) l)(fold_codes (key_of (Some Hash_value_sep) p) \<mapsto> p)"
    using nocase.place_uniq [of "Some Hash_value_sep" l p] assms
    by (simp add: Add_line_list_def Find_last_key_def done_ok_def plain_name_def)
  then show "done_ok (Add_line_list l p (Some Hash_value_sep) True True)" by (simp add: done_ok_def)
  from a show "visited (Add_line_list l p (Some Hash_value_sep) True True) = insert (fold_codes p) (visited l)"
    using assms(2) unfolding visited_def dom_ll_map [symmetric] plain_name_def by simp
qed

lemma remove_here_done: "remove_here env chk tokens q st = Some (st', e) \<Longrightarrow> rs_done st' = rs_done st"
  by (auto simp: remove_here_def Let_def split: option.splits prod.splits dest: remove_loop_done)

lemma Setup_printer_name:
  "Setup_printer env room pr st = (st1, Inr q) \<Longrightarrow> ct_printer st1 = q_printer q \<and> (\<exists>nm. c_queue env nm = Some q)"
  by (auto simp: Setup_printer_def Let_def split: option.splits if_splits)

text \<open>
  The names of the queues of the server: finitely many, without the separators of a line list. \<open>rm_ok\<close> is
  the invariant of the traversal, \<open>rm_seen\<close> the queues it has visited.
\<close>

definition queue_names :: "rm_env \<Rightarrow> cstr set \<Rightarrow> bool" where
  "queue_names env Q \<longleftrightarrow> finite Q \<and> (\<forall>nm q. c_queue (rm_ctl env) nm = Some q \<longrightarrow> q_printer q \<in> Q) \<and> (\<forall>p\<in>Q. plain_name p)"

definition rm_ok :: "rm_env \<Rightarrow> cstr set \<Rightarrow> rm_state \<Rightarrow> bool" where
  "rm_ok env Q st \<longleftrightarrow> queue_names env Q \<and> done_ok (rs_done st)"

definition rm_seen :: "rm_state \<Rightarrow> int list set" where
  "rm_seen st = visited (rs_done st)"

lemma rm_same: "rs_done st' = rs_done st \<Longrightarrow> rm_ok env Q st' = rm_ok env Q st \<and> rm_seen st' = rm_seen st"
  by (simp add: rm_ok_def rm_seen_def)

lemma rm_simps [simp]:
  "rm_ok env Q (upd_ctl h st) = rm_ok env Q st" "rm_seen (upd_ctl h st) = rm_seen st"
  "rm_ok env Q (tell t st) = rm_ok env Q st" "rm_seen (tell t st) = rm_seen st"
  "rm_ok env Q (set_printer p st) = rm_ok env Q st" "rm_seen (set_printer p st) = rm_seen st"
  "rm_ok env Q (send_on e' rc who tokens st) = rm_ok env Q st" "rm_seen (send_on e' rc who tokens st) = rm_seen st"
  "rm_ok env Q (stop_servers q r st) = rm_ok env Q st" "rm_seen (stop_servers q r st) = rm_seen st"
  "rm_ok env Q (st\<lparr>rs_ctl := c\<rparr>) = rm_ok env Q st" "rm_seen (st\<lparr>rs_ctl := c\<rparr>) = rm_seen st"
  by (simp_all add: rm_ok_def rm_seen_def)

lemma local_or_remote_grows:
  assumes "grows (rm_ok env Q) rm_seen f"
  shows "grows (rm_ok env Q) rm_seen (Get_local_or_remote_remove f e' who tokens)"
  unfolding grows_def
proof (intro allI impI)
  fix s s' assume "rm_ok env Q s" "Get_local_or_remote_remove f e' who tokens s = Some s'"
  then show "rm_ok env Q s' \<and> rm_seen s \<subseteq> rm_seen s'"
    using growsD [OF assms, of s s'] growsD [OF assms, of "set_printer (rc_Printer (rm_remote e' (rs_printer s))) s" s']
    by (auto simp: Get_local_or_remote_remove_def Let_def split: if_splits)
qed

lemma local_or_remote_agrees:
  assumes "agree_past (rm_ok env Q) rm_seen V f g"
  shows "agree_past (rm_ok env Q) rm_seen V (Get_local_or_remote_remove f e' who tokens) (Get_local_or_remote_remove g e' who tokens)"
  unfolding agree_past_def by (simp add: Get_local_or_remote_remove_def Let_def agree_pastD [OF assms])

lemma grows_set_printer:
  assumes "grows (rm_ok env Q) rm_seen f" shows "grows (rm_ok env Q) rm_seen (\<lambda>st. f (set_printer p st))"
  unfolding grows_def
proof (intro allI impI)
  fix s s' assume "rm_ok env Q s" "f (set_printer p s) = Some s'"
  with growsD [OF assms, of "set_printer p s" s'] show "rm_ok env Q s' \<and> rm_seen s \<subseteq> rm_seen s'" by simp
qed

lemma each_queue_grows:
  "grows (rm_ok env Q) rm_seen f \<Longrightarrow> grows (rm_ok env Q) rm_seen (each_queue f ps)"
  unfolding each_queue_def by (intro in_turn_grows grows_set_printer)

lemma each_queue_agrees:
  assumes "agree_past (rm_ok env Q) rm_seen V f g" "grows (rm_ok env Q) rm_seen f"
  shows "agree_past (rm_ok env Q) rm_seen V (each_queue f ps) (each_queue g ps)"
  unfolding each_queue_def
  by (intro in_turn_agrees grows_set_printer assms(2)) (use assms(1) in \<open>simp add: agree_past_def\<close>)

lemma other_queues_grows:
  assumes "grows (rm_ok env Q) rm_seen f"
  shows "grows (rm_ok env Q) rm_seen (other_queues f e' q who tokens)"
  using growsD [OF assms] growsD [OF each_queue_grows [OF local_or_remote_grows [OF assms]]]
  unfolding grows_def other_queues_def Let_def
  by (simp split: option.split) fastforce

lemma other_queues_agrees:
  assumes "agree_past (rm_ok env Q) rm_seen V f g" "grows (rm_ok env Q) rm_seen f"
  shows "agree_past (rm_ok env Q) rm_seen V (other_queues f e' q who tokens) (other_queues g e' q who tokens)"
  unfolding agree_past_def
proof (intro allI impI)
  fix st assume a: "rm_ok env Q st" "V \<subseteq> rm_seen st"
  have e: "each_queue (Get_local_or_remote_remove f e' who tokens) ps st = each_queue (Get_local_or_remote_remove g e' who tokens) ps st" for ps
    using a by (intro agree_pastD [OF each_queue_agrees [OF local_or_remote_agrees local_or_remote_grows, OF assms]])
  have "f (set_printer p st) = g (set_printer p st)" for p using agree_pastD [OF assms(1)] a by simp
  with e show "other_queues f e' q who tokens st = other_queues g e' q who tokens st"
    by (auto simp: other_queues_def Let_def split: option.split)
qed

text \<open>What a visit does before it comes to other queues.\<close>

datatype visit = Ended "rm_state option" | Onward queue_conf cstr rm_state

definition visit_queue :: "rm_env \<Rightarrow> perm_check \<Rightarrow> line_list \<Rightarrow> rm_state \<Rightarrow> visit" where
  "visit_queue env chk tokens st0 =
     (case Setup_printer (rm_ctl env) SMALLBUFFER (rs_printer st0) (rs_ctl st0) of
        (c, Inl msg) \<Rightarrow> Ended (remove_error msg (st0\<lparr>rs_ctl := c\<rparr>))
      | (c, Inr q) \<Rightarrow>
          (let st = st0\<lparr>rs_ctl := c\<rparr>; pr = rs_printer st in
           if Find_exists_value (rs_done st) pr (Some Hash_value_sep) \<noteq> None then Ended (Some st)
           else
             (case remove_here env chk tokens q
                     (st\<lparr>rs_done := Add_line_list (rs_done st) pr (Some Hash_value_sep) True True\<rparr>) of
                None \<Rightarrow> Ended None
              | Some (st3, Inl msg) \<Rightarrow> Ended (remove_error msg st3)
              | Some (st3, Inr r) \<Rightarrow> Onward q pr (stop_servers q r st3))))"

lemma body_visit:
  "Get_queue_remove_body again env chk who tokens st =
     (case visit_queue env chk tokens st of Ended r \<Rightarrow> r | Onward q pr st' \<Rightarrow> other_queues again env q who tokens st')"
  by (simp add: Get_queue_remove_body_def visit_queue_def Let_def split: prod.split sum.split option.split)

lemma remove_error_same: "remove_error msg st = Some st' \<Longrightarrow> rs_done st' = rs_done st"
  by (rule remove_error_done)

lemma visit_queue_onward:
  assumes "rm_ok env Q st" "visit_queue env chk tokens st = Onward q pr st'"
  shows "pr \<in> Q" "fold_codes pr \<notin> rm_seen st" "rm_ok env Q st'" "rm_seen st' = insert (fold_codes pr) (rm_seen st)"
proof -
  obtain c e where s: "Setup_printer (rm_ctl env) SMALLBUFFER (rs_printer st) (rs_ctl st) = (c, e)" by fastforce
  from assms(2) s obtain q' where e: "e = Inr q'" by (cases e) (simp_all add: visit_queue_def)
  let ?l = "Add_line_list (rs_done st) (rs_printer (st\<lparr>rs_ctl := c\<rparr>)) (Some Hash_value_sep) True True"
  from assms(2) s e obtain st3 r where v: "Find_exists_value (rs_done st) (rs_printer (st\<lparr>rs_ctl := c\<rparr>)) (Some Hash_value_sep) = None"
    "remove_here env chk tokens q' (st\<lparr>rs_ctl := c, rs_done := ?l\<rparr>) = Some (st3, Inr r)"
    "st' = stop_servers q' r st3" "pr = rs_printer (st\<lparr>rs_ctl := c\<rparr>)"
    by (auto simp: visit_queue_def Let_def split: if_splits option.splits prod.splits sum.splits)
  from Setup_printer_name [OF s [unfolded e]] assms(1) v(4) have p: "pr \<in> Q" "plain_name pr"
    by (auto simp: rm_ok_def queue_names_def rs_printer_def)
  have ok: "done_ok (rs_done st)" using assms(1) by (simp add: rm_ok_def)
  show "pr \<in> Q" by (rule p(1))
  show "fold_codes pr \<notin> rm_seen st" using visited_iff [OF ok p(2)] v(1,4) by (simp add: rm_seen_def)
  have "rs_done st' = Add_line_list (rs_done st) pr (Some Hash_value_sep) True True"
    using remove_here_done [OF v(2)] v(3,4) by simp
  with visited_add [OF ok p(2)] assms(1) show "rm_ok env Q st'" "rm_seen st' = insert (fold_codes pr) (rm_seen st)"
    by (simp_all add: rm_ok_def rm_seen_def)
qed

lemma visit_queue_ended:
  assumes "rm_ok env Q st" "visit_queue env chk tokens st = Ended (Some st')"
  shows "rm_ok env Q st' \<and> rm_seen st \<subseteq> rm_seen st'"
proof -
  obtain c e where s: "Setup_printer (rm_ctl env) SMALLBUFFER (rs_printer st) (rs_ctl st) = (c, e)" by fastforce
  show ?thesis
  proof (cases e)
    case (Inl msg)
    with s assms show ?thesis by (auto simp: visit_queue_def rm_ok_def rm_seen_def dest!: remove_error_done)
  next
    case (Inr q)
    let ?pr = "rs_printer (st\<lparr>rs_ctl := c\<rparr>)"
    let ?st1 = "st\<lparr>rs_ctl := c, rs_done := Add_line_list (rs_done st) ?pr (Some Hash_value_sep) True True\<rparr>"
    from Setup_printer_name [OF s [unfolded Inr]] assms(1) have p: "plain_name ?pr"
      by (auto simp: rm_ok_def queue_names_def rs_printer_def)
    have ok: "done_ok (rs_done st)" using assms(1) by (simp add: rm_ok_def)
    have "st' = st\<lparr>rs_ctl := c\<rparr> \<or> (\<exists>st3 msg. remove_here env chk tokens q ?st1 = Some (st3, Inl msg) \<and> remove_error msg st3 = Some st')"
      using assms(2) s Inr by (auto simp: visit_queue_def Let_def split: if_splits option.splits prod.splits sum.splits)
    then have "rs_done st' = rs_done st \<or> rs_done st' = Add_line_list (rs_done st) ?pr (Some Hash_value_sep) True True"
      using remove_here_done remove_error_done by fastforce
    with visited_add [OF ok p] assms(1) show ?thesis by (auto simp: rm_ok_def rm_seen_def)
  qed
qed

text \<open>The body of the handler meets the contract of a traversal.\<close>

interpretation lprm: visits "\<lambda>again. Get_queue_remove_body again env chk who tokens" "rm_ok env Q" rm_seen
  "if queue_names env Q then fold_codes ` Q else {}"
  for env chk who tokens Q
proof
  show "finite (if queue_names env Q then fold_codes ` Q else {})" by (simp add: queue_names_def)
next
  fix f assume f: "grows (rm_ok env Q) rm_seen f"
  show "grows (rm_ok env Q) rm_seen (Get_queue_remove_body f env chk who tokens)" unfolding grows_def
  proof (intro allI impI)
    fix s s' assume s: "rm_ok env Q s" "Get_queue_remove_body f env chk who tokens s = Some s'"
    show "rm_ok env Q s' \<and> rm_seen s \<subseteq> rm_seen s'"
    proof (cases "visit_queue env chk tokens s")
      case (Ended r)
      with s visit_queue_ended [OF s(1)] show ?thesis by (simp add: body_visit)
    next
      case (Onward q pr t)
      with s(2) have "other_queues f env q who tokens t = Some s'" by (simp add: body_visit)
      from growsD [OF other_queues_grows [OF f] this] visit_queue_onward [OF s(1) Onward] show ?thesis by auto
    qed
  qed
next
  fix f g s assume f: "grows (rm_ok env Q) rm_seen f" and s: "rm_ok env Q s"
    and fg: "\<And>k. k \<in> (if queue_names env Q then fold_codes ` Q else {}) \<Longrightarrow> k \<notin> rm_seen s \<Longrightarrow>
      agree_past (rm_ok env Q) rm_seen (insert k (rm_seen s)) f g"
  show "Get_queue_remove_body f env chk who tokens s = Get_queue_remove_body g env chk who tokens s"
  proof (cases "visit_queue env chk tokens s")
    case (Ended r)
    then show ?thesis by (simp add: body_visit)
  next
    case (Onward q pr t)
    note o = visit_queue_onward [OF s Onward]
    have "fold_codes pr \<in> (if queue_names env Q then fold_codes ` Q else {})" using s o(1) by (simp add: rm_ok_def)
    from agree_pastD [OF other_queues_agrees [OF fg [OF this o(2)] f] o(3)] o(4) Onward
    show ?thesis by (simp add: body_visit)
  qed
qed

lemma Get_queue_remove_at_depth:
  "Get_queue_remove n env chk who tokens = at_depth (\<lambda>again. Get_queue_remove_body again env chk who tokens) n"
proof (induction n)
  case (Suc n)
  show ?case by (rule ext) (simp add: Suc)
qed (simp add: fun_eq_iff)


subsection \<open>Only selected and permitted jobs go\<close>

lemma Remove_job_names:
  "Remove_job env j fs = (fs', b) \<Longrightarrow> set fs' \<subseteq> set fs \<and> (\<forall>n\<in>set fs - set fs'. Some n \<in> set (job_names j))"
proof -
  have "set (fst (foldl (remove_step env) r ns)) \<subseteq> set (fst r)
      \<and> (\<forall>n\<in>set (fst r) - set (fst (foldl (remove_step env) r ns)). Some n \<in> set ns)" for r ns
  proof (induction ns arbitrary: r)
    case (Cons n ns)
    have "set (fst (remove_step env r n)) \<subseteq> set (fst r)
        \<and> (\<forall>m\<in>set (fst r) - set (fst (remove_step env r n)). Some m = n)"
      by (auto simp: remove_step_def Remove_file_def split: option.splits if_splits)
    with Cons.IH [of "remove_step env r n"] show ?case by (simp add: subset_iff) blast
  qed simp
  from this [of "(fs, False)" "job_names j"] show "Remove_job env j fs = (fs', b) \<Longrightarrow> ?thesis"
    by (simp add: Remove_job_def)
qed

lemma map_of_filter_fst: "map_of (filter (\<lambda>e. fst e \<in> A) d) f = (if f \<in> A then map_of d f else None)"
  by (induction d) auto

definition dir_job :: "(cstr \<times> cstr option) list \<Rightarrow> cstr \<Rightarrow> job" where
  "dir_job d f = Get_job_ticket_file (Option.bind (map_of d f) id) Init_job"

lemma empty_job_names: "job_names (Get_job_ticket_file None Init_job) = [None, None]"
  by code_simp

text \<open>The files of \<open>F\<close> are the tickets of jobs that may go, and only their files and the cached status are gone.\<close>

definition guarded :: "rm_env \<Rightarrow> queue_conf \<Rightarrow> perm_check \<Rightarrow> bool \<Rightarrow> line_list \<Rightarrow> cstr \<Rightarrow> (cstr \<times> cstr option) list
    \<Rightarrow> cstr list \<Rightarrow> cstr set \<Rightarrow> cstr set \<Rightarrow> bool" where
  "guarded env q chk control tokens pr d F A B \<longleftrightarrow>
     (if tokens = [] then length F \<le> 1 else True) \<and> B \<subseteq> A
     \<and> list_all (\<lambda>f. lprm_selects tokens (info (dir_job d f)) = Some True
                    \<and> may_remove (rm_ctl env) chk control pr (info (dir_job d f)) = Some True) F
     \<and> (\<forall>n\<in>A - B. Some n = q_Lpq_status_file q \<or> (\<exists>f\<in>set F. Some n \<in> set (job_names (dir_job d f))))"

lemma guarded_trans:
  assumes "guarded env q chk control tokens pr d F A B" "guarded env q chk control tokens pr d F' B C" "tokens \<noteq> []"
  shows "guarded env q chk control tokens pr d (F @ F') A C"
  unfolding guarded_def
proof (intro conjI ballI)
  fix n assume "n \<in> A - C"
  then show "Some n = q_Lpq_status_file q \<or> (\<exists>f\<in>set (F @ F'). Some n \<in> set (job_names (dir_job d f)))"
    using assms(1,2) by (cases "n \<in> B") (auto simp: guarded_def)
qed (use assms in \<open>auto simp: guarded_def\<close>)

lemma remove_files_dirs:
  assumes "rs_dirs st pr = Some (filter (\<lambda>e. fst e \<in> A) d)" "remove_files env q pr j st = (st', fail)" "A \<subseteq> fst ` set d"
  obtains B where "B \<subseteq> A" "rs_dirs st' = (rs_dirs st)(pr := Some (filter (\<lambda>e. fst e \<in> B) d))"
    "\<forall>n\<in>A - B. Some n = q_Lpq_status_file q \<or> Some n \<in> set (job_names j)"
proof -
  let ?d = "filter (\<lambda>e. fst e \<in> A) d"
  obtain names b where r: "Remove_job (c_server (rm_ctl env)) j (map fst ?d) = (names, b)" by fastforce
  let ?B = "{n \<in> A. n \<in> set names \<and> Some n \<noteq> q_Lpq_status_file q}"
  have A: "set (map fst ?d) = A" using assms(3) by force
  have "rs_dirs st' = (rs_dirs st)(pr := Some (filter (\<lambda>e. fst e \<in> ?B) d))"
    using assms(1,2) r by (auto simp: remove_files_def conj_ac)
  moreover have "\<forall>n\<in>A - ?B. Some n = q_Lpq_status_file q \<or> Some n \<in> set (job_names j)"
    using Remove_job_names [OF r] unfolding A by auto
  ultimately show ?thesis by (intro that [of ?B]) auto
qed

lemma remove_loop_guarded:
  assumes "remove_loop env q chk control tokens pr fs r st = Some (st', e)"
    and "rs_dirs st pr = Some (filter (\<lambda>e. fst e \<in> A) d)" "A \<subseteq> fst ` set d"
  shows "\<exists>F B. guarded env q chk control tokens pr d F A B \<and> rs_dirs st' = (rs_dirs st)(pr := Some (filter (\<lambda>e. fst e \<in> B) d))"
  using assms
proof (induction fs arbitrary: r st A)
  case Nil
  then have "rs_dirs st' = (rs_dirs st)(pr := Some (filter (\<lambda>e. fst e \<in> A) d))" by auto
  then show ?case by (intro exI [of _ "[]"] exI [of _ A]) (simp add: guarded_def)
next
  case (Cons f fs)
  let ?j = "spool_job pr f st"
  have j: "?j = (if f \<in> A then dir_job d f else Get_job_ticket_file None Init_job)"
    using Cons.prems(2) by (simp add: spool_job_def dir_job_def map_of_filter_fst)
  from Cons.prems(1) obtain sel where sel: "lprm_selects tokens (info ?j) = Some sel" by (auto simp: Let_def split: option.splits)
  show ?case
  proof (cases sel)
    case False
    with Cons.IH [OF _ Cons.prems(2,3)] Cons.prems(1) sel show ?thesis by (simp add: Let_def)
  next
    case True
    let ?st1 = "tell (job_text ''  checking perms '' (info ?j)) st"
    from Cons.prems(1) sel True obtain may where may: "may_remove (rm_ctl env) chk control pr (info ?j) = Some may"
      by (auto simp: Let_def split: option.splits)
    show ?thesis
    proof (cases may)
      case False
      let ?st2 = "tell (job_text ''  no permissions '' (info ?j)) ?st1"
      have "remove_loop env q chk control tokens pr fs r ?st2 = Some (st', e)"
        using Cons.prems(1) sel may \<open>sel\<close> False by (simp add: Let_def)
      from Cons.IH [OF this _ Cons.prems(3)] Cons.prems(2) show ?thesis by simp
    next
      case may': True
      obtain st2 fail where rf: "remove_files env q pr ?j (stop_incoming env (info ?j) ?st1) = (st2, fail)" by fastforce
      from remove_files_dirs [OF _ rf Cons.prems(3)] Cons.prems(2) obtain B where B: "B \<subseteq> A"
        "rs_dirs st2 = (rs_dirs st)(pr := Some (filter (\<lambda>e. fst e \<in> B) d))"
        "\<forall>n\<in>A - B. Some n = q_Lpq_status_file q \<or> Some n \<in> set (job_names ?j)" by auto
      let ?F = "if f \<in> A then [f] else []"
      have F: "guarded env q chk control tokens pr d ?F A B"
        using B(1,3) sel may \<open>sel\<close> may' j by (auto simp: guarded_def empty_job_names)
      show ?thesis
      proof (cases "fail \<or> tokens = []")
        case True
        with Cons.prems(1) sel may \<open>sel\<close> may' rf have "rs_dirs st' = rs_dirs st2"
          by (auto simp: Let_def split: if_splits)
        with F B(2) show ?thesis by metis
      next
        case False
        with Cons.prems(1) sel may \<open>sel\<close> may' rf obtain r1 where
          "remove_loop env q chk control tokens pr fs r1 st2 = Some (st', e)" by (auto simp: Let_def)
        moreover have "rs_dirs st2 pr = Some (filter (\<lambda>e. fst e \<in> B) d)" "B \<subseteq> fst ` set d" using B(1,2) Cons.prems(3) by auto
        ultimately obtain F' C where
          "guarded env q chk control tokens pr d F' B C" "rs_dirs st' = (rs_dirs st2)(pr := Some (filter (\<lambda>e. fst e \<in> C) d))"
          using Cons.IH by blast
        with guarded_trans [OF F] B(2) False have "guarded env q chk control tokens pr d (?F @ F') A C"
          "rs_dirs st' = (rs_dirs st)(pr := Some (filter (\<lambda>e. fst e \<in> C) d))" by auto
        then show ?thesis by blast
      qed
    qed
  qed
qed


text \<open>
  With control permission and no words the first job of the queue goes, whoever owns it.
\<close>

lemma first_job_of_anybody: "lprm_selects [] i = Some True \<and> may_remove env chk True pr i = Some True"
  by (simp add: lprm_selects_def may_remove_def)

text \<open>The witnesses: a queue with one job, and two queues that name each other as their servers.\<close>

definition demo_rm :: rm_env where
  "demo_rm = \<lparr>rm_ctl = demo_ctl, rm_remote = (\<lambda>p. \<lparr>rc_Printer = p, rc_Destinations = None, rc_RemoteHost = None, rc_RemotePrinter = None\<rparr>),
     rm_alive = (\<lambda>_. False), rm_send = (\<lambda>_ _ _. None)\<rparr>"

definition demo_rm_state :: rm_state where
  "demo_rm_state = \<lparr>rs_ctl = demo_ctl_state, rs_done = [], rs_dirs = (\<lambda>p. if p = ''lp'' then Some [(''hfA001'', Some demo_image)] else None)\<rparr>"


definition demo_circle :: rm_env where
  "demo_circle = demo_rm\<lparr>rm_ctl := demo_ctl\<lparr>c_queue := (\<lambda>n.
     if n = ''a'' then Some (demo_queue\<lparr>q_printer := ''a'', q_Server_names := Some ''b''\<rparr>)
     else if n = ''b'' then Some (demo_queue\<lparr>q_printer := ''b'', q_Server_names := Some ''a''\<rparr>) else None)\<rparr>\<rparr>"

definition demo_lprm :: cstr where "demo_lprm = CHR 0x05 # ''a ann''"


end
