(* ===== verification/Links.thy ===== *)
theory Links
  imports JobReceive
begin

section \<open>Connections: reading and writing with acknowledgements (linksupport.c)\<close>

text \<open>
  The functions of \<open>src/src/common/linksupport.c\<close> that move data over a connection, with the loop of
  \<open>utilities.c\<close> that writes a buffer, and the choice of the port a connection comes from. What the system calls do is part of the state of a
  connection: \<open>writes\<close> says of each call of \<open>write\<close> how many bytes it takes (\<open>None\<close> for an error or a
  timeout, and everything when the list has run out), \<open>reads\<close> what the calls of \<open>read\<close> get, in
  pieces of any size. \<open>sent\<close> is all that has been written. The lemmas show that the pieces do not matter:
  a file arrives as it was sent, however the calls cut it.
\<close>

subsection \<open>Bytes that come and go in pieces\<close>

datatype rd = Bytes cstr | Rfail | Rtimeout

record link =
  sock :: int
  sent :: cstr
  writes :: "nat option list"
  reads :: "rd list"

text \<open>One call of \<open>read\<close> for at most \<open>n\<close> bytes; no bytes are the end of the file.\<close>

fun read_some :: "nat \<Rightarrow> rd list \<Rightarrow> rd \<times> rd list" where
  "read_some n [] = (Bytes [], [])"
| "read_some n (Bytes s # rs) = (Bytes (take n s), if length s \<le> n then rs else Bytes (drop n s) # rs)"
| "read_some n (r # rs) = (r, rs)"

fun Write_fd_len :: "nat option list \<Rightarrow> cstr \<Rightarrow> bool \<times> cstr \<times> nat option list" where
  "Write_fd_len [] msg = (True, msg, [])"
| "Write_fd_len (w # ws) msg =
     (if msg = [] then (True, [], w # ws)
      else (case w of
              None \<Rightarrow> (False, [], ws)
            | Some k \<Rightarrow> (case Write_fd_len ws (drop k msg) of (ok, s, ws1) \<Rightarrow> (ok, take k msg @ s, ws1))))"

definition write_link :: "cstr \<Rightarrow> link \<Rightarrow> bool \<times> link" where
  "write_link msg l =
     (case Write_fd_len (writes l) msg of (ok, s, ws) \<Rightarrow> (ok, l\<lparr>sent := sent l @ s, writes := ws\<rparr>))"

definition read_link :: "nat \<Rightarrow> link \<Rightarrow> rd \<times> link" where
  "read_link n l = (case read_some n (reads l) of (r, rs) \<Rightarrow> (r, l\<lparr>reads := rs\<rparr>))"

fun rsize :: "rd list \<Rightarrow> nat" where
  "rsize [] = 0"
| "rsize (Bytes s # rs) = Suc (length s + rsize rs)"
| "rsize (r # rs) = Suc (rsize rs)"

lemma read_some_size: "read_some n rs = (Bytes (c # s), rs1) \<Longrightarrow> rsize rs1 < rsize rs"
  by (cases "(n, rs)" rule: read_some.cases; cases n) (auto split: if_splits)

subsection \<open>Status codes\<close>

definition LINK_OPEN_FAIL :: int where "LINK_OPEN_FAIL = -1"
definition LINK_TRANSFER_FAIL :: int where "LINK_TRANSFER_FAIL = -2"
definition LINK_ACK_FAIL :: int where "LINK_ACK_FAIL = -3"
definition LINK_FILE_READ_FAIL :: int where "LINK_FILE_READ_FAIL = -4"
definition LINK_LONG_LINE_FAIL :: int where "LINK_LONG_LINE_FAIL = -5"
definition LINK_BIND_FAIL :: int where "LINK_BIND_FAIL = -6"
definition LINK_PERM_FAIL :: int where "LINK_PERM_FAIL = -7"
definition LINK_ECONNREFUSED :: int where "LINK_ECONNREFUSED = -8"
definition LINK_ETIMEDOUT :: int where "LINK_ETIMEDOUT = -9"

lemmas link_codes = LINK_OPEN_FAIL_def LINK_TRANSFER_FAIL_def LINK_ACK_FAIL_def LINK_FILE_READ_FAIL_def
  LINK_LONG_LINE_FAIL_def LINK_BIND_FAIL_def LINK_PERM_FAIL_def LINK_ECONNREFUSED_def LINK_ETIMEDOUT_def

definition link_err :: "(int \<times> cstr) list" where
  "link_err =
     [(0, ''NO ERROR''), (LINK_OPEN_FAIL, ''ERROR OPENING CONNECTION''),
      (LINK_TRANSFER_FAIL, ''ERROR TRANSFERRING DATA''),
      (LINK_ACK_FAIL, ''NONZERO RFC1179 ERROR CODE FROM SERVER''),
      (LINK_FILE_READ_FAIL, ''ERROR TRANSFERRING FILE''),
      (LINK_LONG_LINE_FAIL, ''COMMAND TOO LONG FOR RFC1179, POSSIBLE BUFFER OVERRUN ATTEMPT''),
      (LINK_BIND_FAIL, ''CANNOT BIND TO PORT - POSSIBLE DENIAL OF SERVICE ATTACK''),
      (LINK_BIND_FAIL, ''NO PERMISSIONS TO MANANGE SOCKET- MAY NEED SUID INSTALLATION'')]"

definition ack_err :: "(int \<times> cstr) list" where
  "ack_err = [(0, ''ACK_SUCCESS''), (1, ''ACK_STOP_Q''), (2, ''ACK_RETRY''), (3, ''ACK_FAIL'')]"

definition Link_err_str :: "int \<Rightarrow> cstr" where
  "Link_err_str n =
     (case map_of link_err n of Some s \<Rightarrow> s | None \<Rightarrow> plp_snprintf 40 ''link error %d'' [AInt n])"

definition Ack_err_str :: "int \<Rightarrow> cstr" where
  "Ack_err_str n =
     (case map_of ack_err n of Some s \<Rightarrow> s | None \<Rightarrow> plp_snprintf 40 ''ack error %d'' [AInt n])"

text \<open>The table has \<open>LINK_BIND_FAIL\<close> twice, the second time with the text of \<open>LINK_PERM_FAIL\<close>.\<close>

lemma perm_fail_has_no_text: "Link_err_str LINK_PERM_FAIL = ''link error -7''"
  by code_simp

subsection \<open>Sending\<close>

text \<open>
  \<open>ack\<close> is the variable for the acknowledgement, if the caller gives one. The check for further input
  behind the acknowledgement only writes to the log and is left out.
\<close>

definition Link_send :: "cstr \<Rightarrow> int option \<Rightarrow> link \<Rightarrow> int \<times> int option \<times> link" where
  "Link_send msg ack l =
     (if sock l < 0 then (LINK_TRANSFER_FAIL, ack, l)
      else
        (let ack0 = map_option (\<lambda>_. 0) ack in
         case write_link msg l of
           (False, l1) \<Rightarrow> (LINK_TRANSFER_FAIL, ack0, l1)
         | (True, l1) \<Rightarrow>
             if ack = None then (0, None, l1)
             else
               (case read_link 1 l1 of
                  (Bytes (c # _), l2) \<Rightarrow>
                    if c \<noteq> NUL then (LINK_ACK_FAIL, Some (schar c), l2) else (0, ack0, l2)
                | (_, l2) \<Rightarrow> (LINK_TRANSFER_FAIL, ack0, l2))))"

text \<open>
  A file of \<open>pcount\<close> bytes, or up to its end if \<open>pcount\<close> is 0; \<open>left\<close> is what is left of it. The result
  has what is left of the file.
\<close>

function copy_loop :: "int \<Rightarrow> int \<Rightarrow> rd list \<Rightarrow> link \<Rightarrow> int \<times> rd list \<times> link" where
  "copy_loop pcount left f l =
     (if \<not> (0 < left \<or> pcount = 0) then (0, f, l)
      else
        (let len = (if pcount \<noteq> 0 \<and> left < int LARGEBUFFER then nat left else LARGEBUFFER) in
         case read_some len f of
           (Bytes (c # s), f1) \<Rightarrow>
             (let left1 = (if pcount \<noteq> 0 then left - int (length (c # s)) else left) in
              case write_link (c # s) l of
                (False, l1) \<Rightarrow> (LINK_TRANSFER_FAIL, f1, l1)
              | (True, l1) \<Rightarrow> copy_loop pcount left1 f1 l1)
         | (_, f1) \<Rightarrow> (if pcount \<noteq> 0 \<and> 0 < left then LINK_TRANSFER_FAIL else 0, f1, l)))"
  by pat_completeness auto
termination
  by (relation "measure (\<lambda>(p, n, f, l). rsize f)") (auto dest!: read_some_size [OF sym])

declare copy_loop.simps [simp del]

definition Link_copy :: "rd list \<Rightarrow> int \<Rightarrow> link \<Rightarrow> int \<times> rd list \<times> link" where
  "Link_copy f pcount l = (if sock l < 0 then (LINK_OPEN_FAIL, f, l) else copy_loop pcount pcount f l)"

subsection \<open>Receiving\<close>

text \<open>
  The characters of a line without the carriage returns, at most one less than the buffer has, and how the reading ended:
  with a line feed, with the end of the file, with an error, or because the buffer was full.
\<close>

datatype line_end = Newline | At_eof | Failed | Full

function line_loop :: "nat \<Rightarrow> cstr \<Rightarrow> rd list \<Rightarrow> cstr \<times> line_end \<times> rd list" where
  "line_loop room acc rs =
     (if room = 0 then (rev acc, Full, rs)
      else
        (case read_some 1 rs of
           (Bytes [], rs1) \<Rightarrow> (rev acc, At_eof, rs1)
         | (Bytes (c # _), rs1) \<Rightarrow>
             if c = CHR 0x0A then (rev acc, Newline, rs1)
             else if c = CHR 0x0D then line_loop room acc rs1
             else line_loop (room - 1) (c # acc) rs1
         | (_, rs1) \<Rightarrow> (rev acc, Failed, rs1)))"
  by pat_completeness auto
termination
  by (relation "measure (\<lambda>(n, acc, rs). rsize rs)") (auto dest!: read_some_size [OF sym])

declare line_loop.simps [simp del]

text \<open>The status, the line and the connection. No room at all counts as the end of the file.\<close>

definition Link_line_read :: "nat \<Rightarrow> link \<Rightarrow> int \<times> cstr \<times> link" where
  "Link_line_read len l =
     (if sock l < 0 then (LINK_OPEN_FAIL, [], l)
      else if len \<le> 1 then (0, [], l)
      else
        (case line_loop (len - 1) [] (reads l) of
           (s, e, rs) \<Rightarrow>
             (case e of
                Newline \<Rightarrow> 0
              | At_eof \<Rightarrow> if s \<noteq> [] then LINK_TRANSFER_FAIL else 0
              | Failed \<Rightarrow> LINK_TRANSFER_FAIL
              | Full \<Rightarrow> LINK_LONG_LINE_FAIL, s, l\<lparr>reads := rs\<rparr>)))"

definition Link_read :: "int \<Rightarrow> link \<Rightarrow> int \<times> cstr \<times> link" where
  "Link_read n l =
     (if sock l < 0 then (LINK_OPEN_FAIL, [], l)
      else (case read_link (nat n) l of
              (Bytes s, l1) \<Rightarrow> (0, s, l1)
            | (_, l1) \<Rightarrow> (LINK_TRANSFER_FAIL, [], l1)))"

text \<open>
  \<open>Link_file_read\<close> writes what it reads to a file, whose calls of \<open>write\<close> are \<open>w\<close>. The results are the
  status, the bytes that were counted, those in the file, the end marker and the connection. A connection
  that ends instead of giving the marker is accepted.
\<close>

function file_loop ::
  "int \<Rightarrow> int \<Rightarrow> nat option list \<Rightarrow> int \<Rightarrow> cstr \<Rightarrow> rd list \<Rightarrow> int \<times> int \<times> int \<times> cstr \<times> rd list" where
  "file_loop pcount len w n got rs =
     (if \<not> (pcount = 0 \<or> 0 < len) then (0, len, n, got, rs)
      else
        (case read_some (if pcount \<noteq> 0 \<and> len < int LARGEBUFFER then nat len else LARGEBUFFER) rs of
           (Bytes (c # s), rs1) \<Rightarrow>
             (let len1 = (if pcount \<noteq> 0 then len - int (length (c # s)) else len) in
              case Write_fd_len w (c # s) of
                (ok, t, w1) \<Rightarrow>
                  if ok then file_loop pcount len1 w1 (n + int (length (c # s))) (got @ t) rs1
                  else (LINK_TRANSFER_FAIL, len1, n + int (length (c # s)), got @ t, rs1))
         | (Rtimeout, rs1) \<Rightarrow> (LINK_TRANSFER_FAIL, len, n, got, rs1)
         | (_, rs1) \<Rightarrow> (if pcount \<noteq> 0 then LINK_TRANSFER_FAIL else 0, len, n, got, rs1)))"
  by pat_completeness auto
termination
  by (relation "measure (\<lambda>(count, len, w, n, got, rs). rsize rs)") (auto dest!: read_some_size [OF sym])

declare file_loop.simps [simp del]

definition Link_file_read :: "nat option list \<Rightarrow> int \<Rightarrow> link \<Rightarrow> int \<times> int \<times> cstr \<times> int \<times> link" where
  "Link_file_read w pcount l =
     (if sock l < 0 then (LINK_OPEN_FAIL, pcount, [], 0, l)
      else
        (case file_loop pcount pcount w 0 [] (reads l) of
           (status, len, n, got, rs) \<Rightarrow>
             (let total = (if pcount \<noteq> 0 then pcount - len else n); l1 = l\<lparr>reads := rs\<rparr> in
              if total \<noteq> 0 \<and> status = 0 then
                (case read_link 1 l1 of
                   (Bytes (c # _), l2) \<Rightarrow> (if c \<noteq> NUL then LINK_ACK_FAIL else 0, total, got, schar c, l2)
                 | (Bytes [], l2) \<Rightarrow> (0, total, got, 0, l2)
                 | (_, l2) \<Rightarrow> (LINK_TRANSFER_FAIL, total, got, 0, l2))
              else (status, total, got, 0, l1))))"

subsection \<open>What arrives is what was sent\<close>

definition whole :: "rd list \<Rightarrow> bool" where
  "whole rs \<longleftrightarrow> list_all (\<lambda>r. case r of Bytes s \<Rightarrow> s \<noteq> [] | _ \<Rightarrow> False) rs"

definition flat :: "rd list \<Rightarrow> cstr" where
  "flat rs = concat (map (\<lambda>r. case r of Bytes s \<Rightarrow> s | _ \<Rightarrow> []) rs)"

lemma whole_simps [simp]:
  "whole []" "whole (Bytes s # rs) \<longleftrightarrow> s \<noteq> [] \<and> whole rs" "\<not> whole (Rfail # rs)" "\<not> whole (Rtimeout # rs)"
  "flat [] = []" "flat (Bytes s # rs) = s @ flat rs"
  by (auto simp: whole_def flat_def)

lemma read_some_whole:
  assumes "whole rs" "0 < n"
  obtains s rs1 where "read_some n rs = (Bytes s, rs1)" "whole rs1" "flat rs = s @ flat rs1" "length s \<le> n"
    "s = [] \<longrightarrow> flat rs = []"
proof (cases rs)
  case (Cons r ts)
  with assms(1) obtain s where "rs = Bytes s # ts" "s \<noteq> []" "whole ts" by (cases r) auto
  then show ?thesis
    using assms(2) by (intro that [of "take n s" "if length s \<le> n then ts else Bytes (drop n s) # ts"]) auto
qed (use that [of "[]" "[]"] in simp)

lemma read_one_whole:
  assumes "whole rs" "flat rs = c # t"
  obtains rs1 where "read_some 1 rs = (Bytes [c], rs1)" "whole rs1" "flat rs1 = t"
proof -
  obtain s rs1 where s: "read_some 1 rs = (Bytes s, rs1)" "whole rs1" "flat rs = s @ flat rs1" "length s \<le> 1"
    "s = [] \<longrightarrow> flat rs = []"
    using read_some_whole [OF assms(1), of 1] by auto
  with assms(2) have "s = [c]" by (cases s) auto
  with s assms(2) that show ?thesis by simp
qed

lemma line_loop_reads:
  assumes "whole rs" "flat rs = line @ CHR 0x0A # rest" "CHR 0x0A \<notin> set line" "CHR 0x0D \<notin> set line" "length line < room"
  shows "\<exists>rs1. line_loop room acc rs = (rev acc @ line, Newline, rs1) \<and> whole rs1 \<and> flat rs1 = rest"
  using assms
proof (induction line arbitrary: room acc rs)
  case Nil
  obtain rs1 where "read_some 1 rs = (Bytes [CHR 0x0A], rs1)" "whole rs1" "flat rs1 = rest"
    by (rule read_one_whole) (use Nil.prems in auto)
  then show ?case using Nil.prems by (simp add: line_loop.simps [of room])
next
  case (Cons c line)
  obtain rs1 where r: "read_some 1 rs = (Bytes [c], rs1)" "whole rs1" "flat rs1 = line @ CHR 0x0A # rest"
    by (rule read_one_whole) (use Cons.prems in auto)
  have "line_loop room acc rs = line_loop (room - 1) (c # acc) rs1"
    using r(1) Cons.prems by (subst line_loop.simps) auto
  with Cons.IH [OF r(2,3), of "room - 1" "c # acc"] Cons.prems show ?case by auto
qed

lemma Link_line_read_reads:
  assumes "0 \<le> sock l" "whole (reads l)" "flat (reads l) = line @ CHR 0x0A # rest"
    and "CHR 0x0A \<notin> set line" "CHR 0x0D \<notin> set line" "length line + 1 < len"
  shows "\<exists>rs. Link_line_read len l = (0, line, l\<lparr>reads := rs\<rparr>) \<and> whole rs \<and> flat rs = rest"
proof -
  from assms(6) have "length line < len - 1" by simp
  from line_loop_reads [OF assms(2-5) this, of "[]"] assms(1,6) show ?thesis
    by (auto simp: Link_line_read_def)
qed

lemma Write_fd_len_all: "None \<notin> set w \<Longrightarrow> \<exists>w1. Write_fd_len w msg = (True, msg, w1) \<and> None \<notin> set w1"
proof (induction w arbitrary: msg)
  case (Cons a w)
  then obtain k where "a = Some k" by (cases a) auto
  with Cons.prems Cons.IH [of "drop k msg"] show ?case by auto
qed simp

lemma Write_fd_len_prefix:
  "Write_fd_len w msg = (ok, s, w1) \<Longrightarrow> prefix s msg \<and> (ok \<longrightarrow> s = msg)"
proof (induction w arbitrary: msg s ok w1)
  case (Cons a w)
  show ?case
  proof (cases a)
    case (Some k)
    obtain ok1 t w2 where t: "Write_fd_len w (drop k msg) = (ok1, t, w2)" by (metis prod_cases3)
    with Cons.prems Some have "msg = [] \<and> s = [] \<or> s = take k msg @ t \<and> ok1 = ok \<and> w2 = w1"
      by (auto split: if_splits)
    moreover from Cons.IH [OF t] have "prefix (take k msg @ t) (take k msg @ drop k msg)" "ok1 \<longrightarrow> t = drop k msg"
      by (simp_all del: append_take_drop_id)
    ultimately show ?thesis unfolding append_take_drop_id by auto
  qed (use Cons.prems in \<open>auto split: if_splits\<close>)
qed simp

lemma file_loop_step:
  assumes "0 < len" "0 < pcount" "read_some (if len < int LARGEBUFFER then nat len else LARGEBUFFER) rs = (Bytes s, rs1)"
    and "s \<noteq> []" "Write_fd_len w s = (True, t, w1)"
  shows "file_loop pcount len w n got rs = file_loop pcount (len - int (length s)) w1 (n + int (length s)) (got @ t) rs1"
  using assms by (subst file_loop.simps) (cases s; simp add: Let_def split: if_splits)

lemma file_loop_reads:
  assumes "whole rs" "flat rs = data @ rest" "data \<noteq> []" "None \<notin> set w" "0 < pcount"
  shows "\<exists>rs1 m. file_loop pcount (int (length data)) w n got rs = (0, 0, m, got @ data, rs1) \<and> whole rs1 \<and> flat rs1 = rest"
  using assms
proof (induction "length data" arbitrary: data w n got rs rule: less_induct)
  case less
  let ?k = "if int (length data) < int LARGEBUFFER then length data else LARGEBUFFER"
  have k: "0 < ?k" "?k \<le> length data" using less.prems(3) by (auto simp: LARGEBUFFER_def)
  obtain s rs1 where s: "read_some ?k rs = (Bytes s, rs1)" "whole rs1" "flat rs = s @ flat rs1" "length s \<le> ?k"
    "s = [] \<longrightarrow> flat rs = []"
    using read_some_whole [OF less.prems(1) k(1)] by blast
  have le: "length s \<le> length data" using s(4) k(2) by simp
  have eq: "s @ flat rs1 = data @ rest" using s(3) less.prems(2) by simp
  define d where "d = drop (length s) data"
  from le eq have "s = take (length s) data" "flat rs1 = d @ rest"
    by (simp_all add: d_def append_eq_append_conv_if)
  moreover have "take (length s) data @ d = data" by (simp add: d_def)
  ultimately have d: "data = s @ d" "flat rs1 = d @ rest" "s \<noteq> []"
    using s(5) less.prems(2,3) by auto
  obtain w1 where w: "Write_fd_len w s = (True, s, w1)" "None \<notin> set w1"
    using Write_fd_len_all [OF less.prems(4)] by blast
  have "read_some (if int (length data) < int LARGEBUFFER then nat (int (length data)) else LARGEBUFFER) rs = (Bytes s, rs1)"
    using s(1) by (simp split: if_splits)
  moreover have "0 < int (length data)" "int (length data) - int (length s) = int (length d)"
    using less.prems(3) d(1) by (simp_all del: length_append add: length_greater_0_conv) simp
  ultimately have step: "file_loop pcount (int (length data)) w n got rs
      = file_loop pcount (int (length d)) w1 (n + int (length s)) (got @ s) rs1"
    using file_loop_step [OF _ less.prems(5) _ d(3) w(1), of "int (length data)" rs rs1 n got] by simp
  show ?case
  proof (cases d)
    case Nil
    moreover have "pcount \<noteq> 0" using less.prems(5) by simp
    ultimately show ?thesis using step d s(2) by (simp add: file_loop.simps [of pcount 0])
  next
    case (Cons a b)
    have "length d < length data" using d by simp
    from less.hyps [OF this s(2) d(2) _ w(2) less.prems(5), of "n + int (length s)" "got @ s"] Cons
    have "\<exists>rs2 m. file_loop pcount (int (length d)) w1 (n + int (length s)) (got @ s) rs1 = (0, 0, m, (got @ s) @ d, rs2)
        \<and> whole rs2 \<and> flat rs2 = rest" by blast
    with step d(1) show ?thesis by simp
  qed
qed

lemma Link_file_read_reads:
  assumes "0 \<le> sock l" "whole (reads l)" "flat (reads l) = data @ NUL # rest" "data \<noteq> []" "None \<notin> set w"
  shows "\<exists>rs. Link_file_read w (int (length data)) l = (0, int (length data), data, 0, l\<lparr>reads := rs\<rparr>) \<and> whole rs \<and> flat rs = rest"
proof -
  obtain rs1 m where f: "file_loop (int (length data)) (int (length data)) w 0 [] (reads l) = (0, 0, m, data, rs1)"
    "whole rs1" "flat rs1 = NUL # rest"
    using file_loop_reads [OF assms(2-5), of "int (length data)" 0 "[]"] assms(4) by auto
  obtain rs2 where r: "read_some 1 rs1 = (Bytes [NUL], rs2)" "whole rs2" "flat rs2 = rest"
    by (rule read_one_whole [OF f(2,3)])
  then show ?thesis using f assms
    by (intro exI [of _ rs2]) (simp add: Link_file_read_def read_link_def schar_def ccode_def NUL_def)
qed

lemma copy_loop_step:
  assumes "0 < left" "0 < pcount" "read_some (if left < int LARGEBUFFER then nat left else LARGEBUFFER) f = (Bytes s, f1)"
    and "s \<noteq> []" "write_link s l = (True, l1)"
  shows "copy_loop pcount left f l = copy_loop pcount (left - int (length s)) f1 l1"
  using assms by (subst copy_loop.simps) (cases s; simp add: Let_def split: if_splits)

lemma copy_loop_stuck:
  assumes "0 < left" "0 < pcount" "read_some (if left < int LARGEBUFFER then nat left else LARGEBUFFER) f = (Bytes s, f1)"
    and "s \<noteq> []" "write_link s l = (False, l1)"
  shows "copy_loop pcount left f l = (LINK_TRANSFER_FAIL, f1, l1)"
  using assms by (subst copy_loop.simps) (cases s; simp add: Let_def split: if_splits)

text \<open>A successful copy of \<open>left\<close> bytes writes the first \<open>left\<close> bytes of the file.\<close>

lemma write_link_ok: "write_link s l = (True, l1) \<Longrightarrow> sent l1 = sent l @ s \<and> sock l1 = sock l \<and> reads l1 = reads l"
  by (auto simp: write_link_def split: prod.splits dest: Write_fd_len_prefix)

lemma copy_loop_sends:
  assumes "whole f" "0 < pcount" "copy_loop pcount left f l = (0, f1, l1)"
  shows "sent l1 = sent l @ take (nat left) (flat f) \<and> sock l1 = sock l \<and> reads l1 = reads l \<and> left \<le> int (length (flat f))"
  using assms
proof (induction "nat left" arbitrary: left f l rule: less_induct)
  case less
  show ?case
  proof (cases "0 < left")
    case False
    with less.prems show ?thesis by (simp add: copy_loop.simps [of pcount])
  next
    case True
    let ?k = "if left < int LARGEBUFFER then nat left else LARGEBUFFER"
    have k: "0 < ?k" "?k \<le> nat left" using True by (auto simp: LARGEBUFFER_def)
    obtain s f2 where s: "read_some ?k f = (Bytes s, f2)" "whole f2" "flat f = s @ flat f2" "length s \<le> ?k"
      "s = [] \<longrightarrow> flat f = []"
      using read_some_whole [OF less.prems(1) k(1)] by blast
    show ?thesis
    proof (cases "s = []")
      case True
      with less.prems \<open>0 < left\<close> s(1) show ?thesis
        by (subst (asm) copy_loop.simps) (simp add: link_codes Let_def split: if_splits)
    next
      case False
      obtain ok l2 where w: "write_link s l = (ok, l2)" by (cases "write_link s l")
      have ok
        using copy_loop_stuck [OF True less.prems(2) s(1) False] w less.prems(3) by (cases ok) (auto simp: link_codes)
      with w have wl: "sent l2 = sent l @ s" "sock l2 = sock l" "reads l2 = reads l" using write_link_ok by auto
      have st: "copy_loop pcount (left - int (length s)) f2 l2 = (0, f1, l1)"
        using copy_loop_step [OF True less.prems(2) s(1) False] w \<open>ok\<close> less.prems(3) by simp
      have "nat (left - int (length s)) < nat left" using False True by simp
      from less.hyps [OF this s(2) less.prems(2) st] wl s(3,4) k(2) True show ?thesis
        by (auto simp: nat_diff_distrib take_append)
    qed
  qed
qed

lemma Link_copy_sends:
  assumes "whole f" "flat f = data" "data \<noteq> []" "Link_copy f (int (length data)) l = (0, f1, l1)"
  shows "sent l1 = sent l @ data \<and> sock l1 = sock l \<and> reads l1 = reads l"
  using copy_loop_sends [of f "int (length data)" "int (length data)" l f1 l1] assms
  by (auto simp: Link_copy_def link_codes split: if_splits)

lemma copy_loop_free:
  assumes "whole f" "0 < pcount" "writes l = []"
  shows "\<exists>f1. copy_loop pcount (int (length (flat f))) f l = (0, f1, l\<lparr>sent := sent l @ flat f\<rparr>)"
  using assms
proof (induction "length (flat f)" arbitrary: f l rule: less_induct)
  case less
  show ?case
  proof (cases "flat f = []")
    case True
    with less.prems show ?thesis by (subst copy_loop.simps) simp
  next
    case False
    let ?k = "if int (length (flat f)) < int LARGEBUFFER then nat (int (length (flat f))) else LARGEBUFFER"
    have k: "0 < ?k" using False by (auto simp: LARGEBUFFER_def)
    obtain s f2 where s: "read_some ?k f = (Bytes s, f2)" "whole f2" "flat f = s @ flat f2" "s = [] \<longrightarrow> flat f = []"
      using read_some_whole [OF less.prems(1) k] by blast
    define l2 where "l2 = l\<lparr>sent := sent l @ s\<rparr>"
    have w: "write_link s l = (True, l2)" using less.prems(3) by (simp add: write_link_def l2_def)
    have "0 < length (flat f)" "s \<noteq> []" "int (length (flat f)) - int (length s) = int (length (flat f2))"
      using False s(3,4) by (blast, auto)
    then have "s \<noteq> []" "0 < int (length (flat f))" "int (length (flat f)) - int (length s) = int (length (flat f2))"
      by simp_all
    with copy_loop_step [OF _ less.prems(2) s(1) _ w] have
      st: "copy_loop pcount (int (length (flat f))) f l = copy_loop pcount (int (length (flat f2))) f2 l2" by simp
    have "length (flat f2) < length (flat f)" "writes l2 = []" using False s(3,4) less.prems(3) by (auto simp: l2_def)
    from less.hyps [OF this(1) s(2) less.prems(2) this(2)] st s(3) show ?thesis by (simp add: l2_def)
  qed
qed

text \<open>On a connection that takes everything the copy succeeds.\<close>

lemma Link_copy_free:
  assumes "whole f" "flat f \<noteq> []" "writes l = []" "0 \<le> sock l"
  shows "\<exists>f1. Link_copy f (int (length (flat f))) l = (0, f1, l\<lparr>sent := sent l @ flat f\<rparr>)"
  using copy_loop_free [OF assms(1), of "int (length (flat f))" l] assms by (simp add: Link_copy_def)

lemma Link_send_ok:
  assumes "Link_send msg ack l = (0, ack1, l1)"
  shows "sent l1 = sent l @ msg \<and> sock l1 = sock l \<and> 0 \<le> sock l \<and> (ack \<noteq> None \<longrightarrow> ack1 = Some 0)"
proof -
  obtain ok l2 where w: "write_link msg l = (ok, l2)" by (cases "write_link msg l")
  from assms have "0 \<le> sock l" by (auto simp: Link_send_def link_codes split: if_splits)
  moreover from assms w this have ok by (cases ok) (auto simp: Link_send_def link_codes Let_def)
  moreover from w this have "sent l2 = sent l @ msg" "sock l2 = sock l" using write_link_ok by auto
  ultimately show ?thesis using assms w
    by (auto simp: Link_send_def link_codes read_link_def Let_def split: if_splits prod.splits rd.splits list.splits)
qed

subsection \<open>Opening a connection\<close>

text \<open>
  What the build, the configuration and the system give: the services and hosts of the network, the ports
  that can be bound at the \<open>k\<close>th attempt, what the \<open>k\<close>th call of \<open>connect\<close> does, and the start value of \<open>rand\<close>.
\<close>

datatype conn = Connected int | Refused | Timed_out | In_use | Not_available | Conn_error

record conn_env =
  c_lpd_port :: "cstr option"
  c_originate_port :: "cstr option"
  c_retry_refused :: bool
  c_uid_root :: bool
  c_unix_path :: "cstr option"
  c_service :: "cstr \<Rightarrow> int option"
  c_addresses :: "cstr \<Rightarrow> nat option"
  c_numeric :: "cstr \<Rightarrow> bool"
  c_local :: "cstr \<Rightarrow> bool"
  c_bindable :: "nat \<Rightarrow> int \<Rightarrow> bool"
  c_connect :: "nat \<Rightarrow> conn"
  c_unix_connect :: conn
  c_rand :: int

text \<open>The port of a host or service, 0 if there is none; \<open>None\<close> ends the process.\<close>

definition Link_dest_port_num :: "conn_env \<Rightarrow> cstr option \<Rightarrow> int option" where
  "Link_dest_port_num env spec =
     map_option
       (\<lambda>p. let q = (case strchr p CHR ''%'' of Some t \<Rightarrow> tl t | None \<Rightarrow> p) in
            case strtol q 0 of
              (n, rest) \<Rightarrow> if rest \<noteq> [] then (case c_service env q of Some k \<Rightarrow> k | None \<Rightarrow> 0) else n mod 65536)
       (case spec of None \<Rightarrow> c_lpd_port env | Some p \<Rightarrow> Some p)"

text \<open>The lowest and the highest port to connect from; both are 0 if any port will do.\<close>

definition origin_ports :: "conn_env \<Rightarrow> int \<times> int" where
  "origin_ports env =
     (let (maxport, minport) =
        (case c_originate_port env of
           None \<Rightarrow> (0, 0)
         | Some s \<Rightarrow>
             (case strtol s 0 of
                (n, rest) \<Rightarrow>
                  (to_int n, if rest = s then 0 else to_int (fst (strtol (dropWhile (\<lambda>c. \<not> isdigit c) rest) 0)))));
          (lo, hi) = (if maxport < minport then (maxport, minport) else (minport, maxport));
          lo1 = (if lo = 0 then hi else lo)
      in if \<not> c_uid_root env \<and> lo1 < 1024 then (if hi < 1024 then (0, 0) else (1024, hi)) else (lo1, hi))"

definition first_port :: "conn_env \<Rightarrow> int \<Rightarrow> int \<Rightarrow> int \<Rightarrow> int" where
  "first_port env lo hi last_used =
     (if lo = 0 then 0
      else
        (let p = (if hi - lo \<noteq> 0 then (if last_used \<noteq> 0 \<and> lo \<le> last_used then last_used + 1 else lo + c_rand env mod (hi - lo)) else lo)
         in if hi < p then lo else p))"

text \<open>
  The loop over the ports. \<open>tries\<close> is the number of ports tried, \<open>incoming\<close> the port of the server, which
  is not used. The result is the port that was bound, the next port, the number of tries and the last port used.
\<close>

function bind_loop :: "(int \<Rightarrow> bool) \<Rightarrow> int \<Rightarrow> int \<Rightarrow> int \<Rightarrow> int \<Rightarrow> int \<Rightarrow> int option \<times> int \<times> int \<times> int" where
  "bind_loop bindable incoming lo hi start tries =
     (let p = (if hi < start then lo else start); bound = p \<noteq> incoming \<and> bindable p in
      if bound then (Some p, p + 1, tries, start)
      else if p + 1 \<noteq> 0 \<and> tries + 1 < hi - lo then bind_loop bindable incoming lo hi (p + 1) (tries + 1)
      else (None, p + 1, if p + 1 \<noteq> 0 then tries + 1 else tries, start))"
  by pat_completeness auto
termination
  by (relation "measure (\<lambda>(b, i, lo, hi, p, t). nat (hi - lo - t))") auto

declare bind_loop.simps [simp del]

definition conn_code :: "conn \<Rightarrow> int" where
  "conn_code r =
     (case r of Connected s \<Rightarrow> s | Refused \<Rightarrow> LINK_ECONNREFUSED | Timed_out \<Rightarrow> LINK_ETIMEDOUT | _ \<Rightarrow> LINK_OPEN_FAIL)"

definition try_again :: "conn_env \<Rightarrow> conn \<Rightarrow> bool" where
  "try_again env r \<longleftrightarrow> c_retry_refused env \<and> r = Refused \<or> r = In_use \<or> r = Not_available"

text \<open>
  The attempts to connect to one address after the other: \<open>left\<close> addresses are left, \<open>connects\<close> attempts were
  made for this one, and \<open>k\<close> attempts in all. The result is the descriptor or a negative code, and the last
  port used. A connection from any port (\<open>lo = 0\<close>) is bound only if the caller asks for an address.
\<close>

definition bind_step :: "conn_env \<Rightarrow> bool \<Rightarrow> int \<Rightarrow> int \<Rightarrow> nat \<Rightarrow> int \<Rightarrow> int \<Rightarrow> int \<Rightarrow> bool \<times> int \<times> int \<times> int" where
  "bind_step env bindto lo hi k start tries last_used =
     (if lo \<noteq> 0 \<or> bindto then
        (case Link_dest_port_num env None of
           None \<Rightarrow> (False, start, tries, last_used)
         | Some incoming \<Rightarrow>
             (case bind_loop (c_bindable env k) incoming lo hi start tries of
                (b, port1, tries1, last1) \<Rightarrow> (b \<noteq> None, port1, tries1, last1)))
      else (True, start, tries, last_used))"

function connect_loop :: "conn_env \<Rightarrow> bool \<Rightarrow> int \<Rightarrow> int \<Rightarrow> nat \<Rightarrow> int \<Rightarrow> nat \<Rightarrow> int \<Rightarrow> int \<Rightarrow> int \<Rightarrow> int \<times> int" where
  "connect_loop env bindto lo hi left connects k start tries last_used =
     (case bind_step env bindto lo hi k start tries last_used of
        (False, port1, tries1, last1) \<Rightarrow> (LINK_OPEN_FAIL, last1)
      | (True, port1, tries1, last1) \<Rightarrow>
          (let r = c_connect env k in
           case r of
             Connected s \<Rightarrow> (s, last1)
           | _ \<Rightarrow>
               if connects + 1 < hi - lo \<and> try_again env r
               then connect_loop env bindto lo hi left (connects + 1) (k + 1) port1 tries1 last1
               else if 0 < left
               then connect_loop env bindto lo hi (left - 1) 0 (k + 1) (first_port env lo hi last1) 0 last1
               else (conn_code r, last1)))"
  by pat_completeness auto
termination
  by (relation "measures [\<lambda>(e, b, lo, hi, left, c, k, p, t, u). left, \<lambda>(e, b, lo, hi, left, c, k, p, t, u). nat (hi - lo - c)]") auto

declare connect_loop.simps [simp del]

text \<open>
  \<open>getconnection\<close>: the descriptor or a code, and the last port used. The numeric form of an address is one
  address.
\<close>

definition getconnection :: "conn_env \<Rightarrow> cstr \<Rightarrow> bool \<Rightarrow> cstr option \<Rightarrow> int \<Rightarrow> (int \<times> int) option" where
  "getconnection env xhost bindto unix_path last_used =
     (let name = take 255 xhost; host = takeWhile (\<lambda>c. c \<noteq> CHR ''%'') name;
          dest = (case strchr name CHR ''%'' of None \<Rightarrow> None | Some t \<Rightarrow> Some (tl t)) in
      case (case c_addresses env host of None \<Rightarrow> if c_numeric env host then Some 1 else None | r \<Rightarrow> r) of
        None \<Rightarrow> Some (LINK_OPEN_FAIL, last_used)
      | Some n \<Rightarrow>
          if nonempty unix_path \<and> safestrcasecmp (Some ''off'') unix_path \<noteq> 0 \<and> c_local env host
          then Some (case c_unix_connect env of Connected s \<Rightarrow> s | _ \<Rightarrow> LINK_OPEN_FAIL, last_used)
          else
            (case Link_dest_port_num env (if nonempty dest then dest else c_lpd_port env) of
               None \<Rightarrow> None
             | Some dport \<Rightarrow>
                 if dport = 0 then Some (JABORT, last_used)
                 else
                   (case origin_ports env of
                      (lo, hi) \<Rightarrow>
                        Some (connect_loop env bindto lo hi (n - 1) 0 0 (first_port env lo hi last_used) 0 last_used))))"

fun open_hosts :: "conn_env \<Rightarrow> bool \<Rightarrow> cstr option \<Rightarrow> cstr list \<Rightarrow> int \<Rightarrow> int \<Rightarrow> (int \<times> cstr option \<times> int) option" where
  "open_hosts env bindto unix_path [] s last_used = Some (s, None, last_used)"
| "open_hosts env bindto unix_path (h # hs) s last_used =
     (case getconnection env h bindto unix_path last_used of
        None \<Rightarrow> None
      | Some (s1, last1) \<Rightarrow>
          if 0 \<le> s1 then Some (s1, Some h, last1) else open_hosts env bindto unix_path hs s1 last1)"

definition Host_sep :: cstr where "Host_sep = ''{} '' @ [CHR 0x09] @ '',''"

definition Link_open_list :: "conn_env \<Rightarrow> cstr \<Rightarrow> bool \<Rightarrow> cstr option \<Rightarrow> int \<Rightarrow> (int \<times> cstr option \<times> int) option" where
  "Link_open_list env hosts bindto unix_path last_used =
     open_hosts env bindto unix_path (Split [] hosts Host_sep False None False NUL False None) (-1) last_used"

subsection \<open>The port a connection comes from\<close>

lemma origin_ports_order: "origin_ports env = (lo, hi) \<Longrightarrow> lo \<le> hi \<or> hi < 0"
  by (auto simp: origin_ports_def Let_def split: if_splits prod.splits option.splits)

lemma first_port_range:
  assumes "lo \<noteq> 0" "lo \<le> hi"
  shows "lo \<le> first_port env lo hi last_used \<and> first_port env lo hi last_used \<le> hi"
  using assms pos_mod_bound [of "hi - lo" "c_rand env"] pos_mod_sign [of "hi - lo" "c_rand env"]
  by (auto simp: first_port_def Let_def)

lemma bind_loop_bound:
  assumes "lo \<le> hi" "lo \<le> start" "bind_loop bindable incoming lo hi start tries = (Some p, port1, tries1, last1)"
  shows "lo \<le> p \<and> p \<le> hi \<and> p \<noteq> incoming \<and> bindable p \<and> lo \<le> port1 \<and> tries1 \<le> max tries (hi - lo - 1) \<and> tries \<le> tries1"
  using assms
proof (induction bindable incoming lo hi start tries rule: bind_loop.induct)
  case (1 bindable incoming lo hi start tries)
  let ?p = "if hi < start then lo else start"
  show ?case
  proof (cases "?p \<noteq> incoming \<and> bindable ?p")
    case True
    with "1.prems" show ?thesis by (subst (asm) bind_loop.simps) (auto simp: Let_def)
  next
    case False
    from "1.prems"(3) have "(if ?p + 1 \<noteq> 0 \<and> tries + 1 < hi - lo then bind_loop bindable incoming lo hi (?p + 1) (tries + 1)
        else (None, ?p + 1, if ?p + 1 \<noteq> 0 then tries + 1 else tries, start)) = (Some p, port1, tries1, last1)"
      unfolding bind_loop.simps [of bindable incoming lo hi start] Let_def using False by argo
    then have c: "?p + 1 \<noteq> 0" "tries + 1 < hi - lo"
      "bind_loop bindable incoming lo hi (?p + 1) (tries + 1) = (Some p, port1, tries1, last1)"
      by (metis Pair_inject option.distinct(1))+
    have "lo \<le> ?p + 1" using "1.prems"(1,2) by auto
    from "1.IH" [OF refl refl False conjI [OF c(1,2)] "1.prems"(1) this c(3)] "1.prems"(1,2) c(2) show ?thesis by auto
  qed
qed

text \<open>
  With one number in the configuration only that port is used, not the ports up to 1023; and the last port of a
  range is not tried.
\<close>

definition demo_conn :: conn_env where
  "demo_conn = \<lparr>c_lpd_port = Some ''515'', c_originate_port = Some ''721 731'', c_retry_refused = False, c_uid_root = True,
     c_unix_path = None, c_service = (\<lambda>_. None), c_addresses = (\<lambda>_. Some 1), c_numeric = (\<lambda>_. False), c_local = (\<lambda>_. False),
     c_bindable = (\<lambda>_ p. p = 731), c_connect = (\<lambda>_. Connected 5), c_unix_connect = Conn_error, c_rand = 0\<rparr>"

lemma single_origin_port: "origin_ports (demo_conn\<lparr>c_originate_port := Some ''721''\<rparr>) = (721, 721)"
  by code_simp

lemma last_port_not_tried:
  "origin_ports demo_conn = (721, 731)"
  "getconnection demo_conn ''host'' False None 0 = Some (LINK_OPEN_FAIL, 730)"
  "getconnection (demo_conn\<lparr>c_bindable := \<lambda>_ p. p = 730\<rparr>) ''host'' False None 0 = Some (5, 730)"
  by code_simp+

text \<open>
  For a port that cannot be found the result is the error code 33, which is not negative: it
  is taken for a descriptor.
\<close>

lemma illegal_port_is_descriptor:
  assumes "c_addresses env h = Some n" "CHR ''%'' \<notin> set h" "length h \<le> 255"
    and "Link_dest_port_num env (c_lpd_port env) = Some 0"
  shows "open_hosts env bindto None [h] s last_used = Some (33, Some h, last_used)"
proof -
  have "\<forall>c\<in>set h. c \<noteq> CHR ''%''" using assms(2) by auto
  then have "takeWhile (\<lambda>c. c \<noteq> CHR ''%'') h = h" by (rule takeWhile_all)
  moreover have "strchr h CHR ''%'' = None" using assms(2) by (induction h) (auto simp: NUL_def)
  ultimately show ?thesis using assms by (simp add: getconnection_def Let_def nonempty_def JABORT_def del: takeWhile_eq_all_conv)
qed

end
