(* ===== verification/SendJob.thy ===== *)
theory SendJob
  imports Links JobProtocol
begin

section \<open>Sending a job (sendjob.c)\<close>

text \<open>
  The client's side of the protocol of \<open>JobProtocol\<close>: \<open>Send\_normal\<close> sends the request, the control file
  and the data files over a connection, each with an acknowledgement, or writes the two kinds of files to a temporary file,
  which \<open>Send\_block\<close> then sends as one block; \<open>Send\_job\<close> opens the connection, again and again if it is told
  to. The lemmas put the two sides together: what a successful sender has written is what
  the receiver of \<open>JobProtocol\<close> reads.
\<close>

subsection \<open>The surroundings\<close>

text \<open>
  The names of the remote printer, the options, and the file system: \<open>sd_open\<close> gives the content of a file, in the pieces
  in which it will be read, and the size the system reports for it. \<open>sd_filter\<close> is what the user's filter writes to
  the connection, with its status.
\<close>

record send_env =
  sd_printer :: "cstr option"
  sd_host :: "cstr option"
  Send_data_first :: bool
  sd_now :: int
  sd_errno :: cstr
  sd_open :: "cstr \<Rightarrow> (rd list \<times> int) option"
  sd_stdin :: "rd list"
  sd_filter :: "(rd list \<Rightarrow> int \<times> cstr) option"
  sd_temp_writes :: "nat option list"

definition REQ_RECV :: int where "REQ_RECV = 2"
definition REQ_BLOCK :: int where "REQ_BLOCK = 7"

abbreviation LF :: char where "LF \<equiv> CHR 0x0A"

definition put_error :: "send_env \<Rightarrow> cstr \<Rightarrow> line_list \<Rightarrow> line_list" where
  "put_error env msg i = Set_nz_flag_value (Set_str_value i ERROR (Some msg)) ERROR_TIME (sd_now env)"

text \<open>The name of a whole number of bytes, which the code has in a \<open>double\<close>, as \<open>%0.0f\<close> prints it.\<close>

definition line_text :: "cstr \<Rightarrow> int fmt_arg list \<Rightarrow> cstr" where
  "line_text fmt args =
     (case plp_vsnprintf (\<lambda>_. dec_text) [] SMALLBUFFER fmt args of None \<Rightarrow> [] | Some (b, n) \<Rightarrow> buf_str b)"

text \<open>The message for a failed transfer of \<open>name\<close>; \<open>what\<close> says what was sent.\<close>

definition send_failed :: "send_env \<Rightarrow> int \<Rightarrow> int \<Rightarrow> cstr \<Rightarrow> cstr option \<Rightarrow> cstr" where
  "send_failed env status ack what name =
     (let qs = [CHR 0x27] @ ''%s'' @ [CHR 0x27]; rest = LF # ''  sending '' @ what @ '' '' @ qs @ '' to %s@%s'';
          dest = [AStr name, AStr (sd_printer env), AStr (sd_host env)] in
      if ack \<noteq> 0
      then plp_snprintf SMALLBUFFER (''error '' @ qs @ '' with ack '' @ qs @ rest)
             (AStr (Some (Link_err_str status)) # AStr (Some (Ack_err_str ack)) # dest)
      else plp_snprintf SMALLBUFFER (''error '' @ qs @ rest) (AStr (Some (Link_err_str status)) # dest))"

definition chop_line :: "cstr \<Rightarrow> cstr" where
  "chop_line s = takeWhile (\<lambda>c. c \<noteq> LF) s"

definition write_failed :: "send_env \<Rightarrow> cstr option \<Rightarrow> cstr" where
  "write_failed env name =
     (let qs = [CHR 0x27] @ ''%s'' @ [CHR 0x27] in
      plp_snprintf SMALLBUFFER (''job '' @ qs @ '' write to temporary file failed '' @ qs) [AStr name, AStr (Some (sd_errno env))])"

text \<open>
  One exchange: a text is sent, and its acknowledgement read. The result is the status, the acknowledgement
  and the connection.
\<close>

definition exchange :: "cstr \<Rightarrow> link \<Rightarrow> int \<times> int \<times> link" where
  "exchange msg l = (case Link_send msg (Some 0) l of (status, ack, l1) \<Rightarrow> (status, the ack, l1))"

subsection \<open>The control file\<close>

text \<open>\<open>None\<close> ends the process, since there is no control file. \<open>blk\<close> says that a temporary file is written.\<close>

type_synonym sent_result = "int \<times> line_list \<times> link"

definition control_header :: "cstr \<Rightarrow> cstr option \<Rightarrow> cstr" where
  "control_header cf name =
     plp_snprintf SMALLBUFFER (''%c%d %s'' @ [LF]) [AInt CONTROL_FILE, AInt (int (length cf)), AStr name]"

definition Send_control :: "send_env \<Rightarrow> bool \<Rightarrow> line_list \<Rightarrow> link \<Rightarrow> sent_result option" where
  "Send_control env blk i l =
     (case Find_str_value i CF_OUT_IMAGE of
        None \<Rightarrow> None
      | Some cf \<Rightarrow>
          (let name = Find_str_value i XXCFTRANSFERNAME; msg = control_header cf name in
           if blk then
             (case write_link msg l of
                (False, l1) \<Rightarrow> Some (JFAIL, put_error env (write_failed env name) i, l1)
              | (True, l1) \<Rightarrow>
                  (case write_link cf l1 of
                     (False, l2) \<Rightarrow> Some (JFAIL, put_error env (write_failed env name) i, l2)
                   | (True, l2) \<Rightarrow> Some (0, i, l2)))
           else
             (case exchange msg l of
                (status, ack, l1) \<Rightarrow>
                  if status \<noteq> 0
                  then Some (JFAIL, put_error env (send_failed env status ack ''str'' (Some (chop_line msg))) i, l1)
                  else
                    (case exchange (cf @ [NUL]) l1 of
                       (status2, ack2, l2) \<Rightarrow>
                         if status2 \<noteq> 0
                         then Some (JFAIL, put_error env (send_failed env status2 ack2 ''control file'' name) i, l2)
                         else Some (0, i, l2)))))"

subsection \<open>The data files\<close>

definition data_header :: "int \<Rightarrow> cstr option \<Rightarrow> cstr" where
  "data_header n name = line_text (''%c%0.0f %s'' @ [LF]) [AInt DATA_FILE, ADouble n, AStr name]"

text \<open>
  A file is copied to the temporary file in buffers of 512 bytes, each with one call of \<open>write\<close>, whose result is
  compared with 0 only. The result is the number of bytes read, or \<open>None\<close> if a write failed.
\<close>

definition raw_write :: "cstr \<Rightarrow> link \<Rightarrow> bool \<times> link" where
  "raw_write msg l =
     (case writes l of
        [] \<Rightarrow> (True, l\<lparr>sent := sent l @ msg\<rparr>)
      | None # ws \<Rightarrow> (False, l\<lparr>writes := ws\<rparr>)
      | Some k # ws \<Rightarrow> (True, l\<lparr>sent := sent l @ take k msg, writes := ws\<rparr>))"

function block_copy :: "int \<Rightarrow> int \<Rightarrow> rd list \<Rightarrow> link \<Rightarrow> int option \<times> link" where
  "block_copy got n f l =
     (if \<not> got < n then (Some got, l)
      else
        (case read_some (nat SMALLBUFFER) f of
           (Bytes (c # s), f1) \<Rightarrow>
             (case raw_write (c # s) l of
                (False, l1) \<Rightarrow> (None, l1)
              | (True, l1) \<Rightarrow> block_copy (got + int (length (c # s))) n f1 l1)
         | _ \<Rightarrow> (Some got, l)))"
  by pat_completeness auto
termination
  by (relation "measure (\<lambda>(t, n, f, l). rsize f)") (auto dest!: read_some_size [OF sym])

declare block_copy.simps [simp del]

text \<open>
  A data file with its size. For the standard input, and for the last file if the user has a filter, the size is 0
  and the connection is closed behind it (the descriptor is 0 then), so that no acknowledgement is read. The
  temporary file gets nothing of the standard input.
\<close>

definition send_data :: "send_env \<Rightarrow> bool \<Rightarrow> cstr option \<Rightarrow> cstr option \<Rightarrow> bool \<Rightarrow> int \<Rightarrow> bool \<Rightarrow> rd list \<Rightarrow> line_list \<Rightarrow> link \<Rightarrow> sent_result" where
  "send_data env blk ident name last_one n is_stdin f i l =
     (let n1 = (if last_one \<and> sd_filter env \<noteq> None then 0 else n); msg = data_header n1 name in
      if \<not> blk then
        (case exchange msg l of
           (status, ack, l1) \<Rightarrow>
             if status \<noteq> 0
             then (status, put_error env (send_failed env status ack ''str'' (Some (chop_line msg))) i, l1)
             else
               (case
                  (case sd_filter env of
                     Some g \<Rightarrow>
                       if last_one then (case g f of (st, s) \<Rightarrow> (st, True, l1\<lparr>sent := sent l1 @ s\<rparr>))
                       else (case Link_copy f n1 l1 of (st, f1, l2) \<Rightarrow> (st, is_stdin, l2))
                   | None \<Rightarrow> (case Link_copy f n1 l1 of (st, f1, l2) \<Rightarrow> (st, is_stdin, l2)))
                of (st, fd0, l2) \<Rightarrow>
                  (let l3 = (if fd0 then l2\<lparr>sock := -1\<rparr> else l2) in
                   if st \<noteq> 0 then (st, put_error env (send_failed env st 0 ''data file'' name) i, l3)
                   else if fd0 then (0, i, l3)
                   else
                     (case exchange [NUL] l3 of
                        (st2, ack2, l4) \<Rightarrow>
                          if st2 \<noteq> 0
                          then (st2, put_error env (send_failed env st2 ack2 ''data file'' name) i, l4)
                          else (0, i, l4)))))
      else
        (case write_link msg l of
           (False, l1) \<Rightarrow> (JFAIL, put_error env (write_failed env ident) i, l1)
         | (True, l1) \<Rightarrow>
             (case block_copy 0 n1 f l1 of
                (None, l2) \<Rightarrow> (JFAIL, put_error env (write_failed env ident) i, l2)
              | (Some got, l2) \<Rightarrow>
                  if got \<noteq> n1
                  then (JFAIL, put_error env
                     (let qs = [CHR 0x27] @ ''%s'' @ [CHR 0x27] in
                      plp_snprintf SMALLBUFFER (''job '' @ qs @ '' did not copy all of '' @ qs) [AStr ident, AStr name]) i, l2)
                  else (0, i, l2))))"

definition data_file_name :: "line_list \<Rightarrow> cstr option" where
  "data_file_name d = (case Find_str_value d OPENNAME of None \<Rightarrow> Find_str_value d DFTRANSFERNAME | r \<Rightarrow> r)"

text \<open>\<open>None\<close> is a file without a name, which is dereferenced as a null pointer.\<close>

fun Send_data_files :: "send_env \<Rightarrow> bool \<Rightarrow> line_list list \<Rightarrow> line_list \<Rightarrow> link \<Rightarrow> sent_result option" where
  "Send_data_files env blk [] i l = Some (0, i, l)"
| "Send_data_files env blk (d # ds) i l =
     (let ident = (case Find_str_value i IDENTIFIER of None \<Rightarrow> Find_str_value i XXCFTRANSFERNAME | r \<Rightarrow> r);
          name = Find_str_value d DFTRANSFERNAME; qs = [CHR 0x27] @ ''%s'' @ [CHR 0x27] in
      case data_file_name d of
        None \<Rightarrow> None
      | Some file \<Rightarrow>
          (let next = (\<lambda>r. case r of (status, i1, l1) \<Rightarrow>
             if status \<noteq> 0 then Some (status, i1, l1) else Send_data_files env blk ds i1 l1) in
           if file = ''-'' then next (send_data env blk ident name (ds = []) 0 True (sd_stdin env) i l)
           else
             (case sd_open env file of
                None \<Rightarrow>
                  Some (JFAILNORETRY, put_error env (plp_snprintf SMALLBUFFER (''cannot open '' @ qs @ '' - '' @ qs)
                    [AStr (Some file), AStr (Some (sd_errno env))]) i, l)
              | Some (f, n) \<Rightarrow>
                  if n = 0 then
                    Some (JABORT, put_error env (plp_snprintf SMALLBUFFER (''zero length file '' @ qs) [AStr name]) i, l)
                  else next (send_data env blk ident name (ds = []) n False f i l))))"

subsection \<open>The whole job\<close>

definition Send_normal :: "send_env \<Rightarrow> bool \<Rightarrow> line_list list \<Rightarrow> line_list \<Rightarrow> link \<Rightarrow> sent_result option" where
  "Send_normal env blk files i l =
     (let line = plp_snprintf SMALLBUFFER (''%c%s'' @ [LF]) [AInt REQ_RECV, AStr (sd_printer env)];
          andthen = (\<lambda>r f. case r of
             None \<Rightarrow> None
           | Some (status, i1, l1) \<Rightarrow> if status \<noteq> 0 then Some (status, i1, l1) else f i1 l1)
      in case (if blk then (0, 0, l) else exchange line l) of
           (status, ack, l1) \<Rightarrow>
             if status \<noteq> 0
             then Some (status, put_error env (send_failed env status ack ''str'' (Some (chop_line line))) i, l1)
             else if \<not> blk \<and> Send_data_first env
             then andthen (Send_data_files env blk files i l1) (Send_control env blk)
             else andthen (Send_control env blk i l1) (Send_data_files env blk files))"

definition block_line :: "send_env \<Rightarrow> int \<Rightarrow> cstr" where
  "block_line env n = line_text (''%c%s %0.0f'' @ [LF]) [AInt REQ_BLOCK, AStr (sd_printer env), ADouble n]"

definition temp_link :: "send_env \<Rightarrow> link" where
  "temp_link env = \<lparr>sock = 1, sent = [], writes = sd_temp_writes env, reads = []\<rparr>"

text \<open>The temporary file is read back in one piece.\<close>

definition file_pieces :: "cstr \<Rightarrow> rd list" where
  "file_pieces s = (if s = [] then [] else [Bytes s])"

definition Send_block :: "send_env \<Rightarrow> line_list list \<Rightarrow> line_list \<Rightarrow> link \<Rightarrow> sent_result option" where
  "Send_block env files i l =
     (let ident = (case Find_str_value i IDENTIFIER of None \<Rightarrow> Find_str_value i XXCFTRANSFERNAME | r \<Rightarrow> r) in
      case Send_normal (env\<lparr>sd_filter := None\<rparr>) True files i (temp_link env) of
        None \<Rightarrow> None
      | Some (status, i1, t) \<Rightarrow>
          if status \<noteq> 0 then Some (status, i1, l)
          else
            (let image = sent t; n = int (length image); msg = block_line env n in
             case exchange msg l of
               (st, ack, l1) \<Rightarrow>
                 if st \<noteq> 0 then Some (st, put_error env (send_failed env st ack ''str'' (Some (chop_line msg))) i1, l1)
                 else
                   (case Link_copy (file_pieces image) n l1 of
                      (st1, _, l2) \<Rightarrow>
                        (case (if st1 \<noteq> 0 then (st1, 0, l2) else exchange [NUL] l2) of
                           (st2, ack2, l3) \<Rightarrow>
                             if st2 \<noteq> 0 then Some (st2, put_error env (send_failed env st2 ack2 ''block file'' ident) i1, l3)
                             else Some (0, i1, l3)))))"

subsection \<open>Opening the connection again and again\<close>

text \<open>
  The pause after the \<open>k\<close>th attempt. It doubles with each attempt; \<open>None\<close> is a shift or product that leaves the
  \<open>int\<close> and is not defined.
\<close>

definition retry_delay :: "int \<Rightarrow> int \<Rightarrow> nat \<Rightarrow> int option" where
  "retry_delay interval maximum k =
     (if 0 < interval then
        (if 32 \<le> k \<or> INT_MAX < interval * 2 ^ (k - 1) then None
         else Some (let n = interval * 2 ^ (k - 1) in if maximum \<noteq> 0 \<and> maximum < n then maximum else n))
      else Some 0)"

text \<open>
  What an attempt to connect gives, and how the job is sent then: \<open>sj_auth\<close> is the transfer of an
  authentication plug-in, if there is one, and \<open>sj_bad_auth\<close> the message for one that cannot be had.
\<close>

record send_conf =
  sj_env :: send_env
  sj_interval :: int
  sj_max_interval :: int
  sj_is_server :: bool
  sj_retry :: bool
  sj_block_format :: bool
  sj_bad_auth :: "cstr option"
  sj_auth :: "(line_list \<Rightarrow> link \<Rightarrow> sent_result) option"

datatype 'a outcome = Done 'a | Trying | Undefined

text \<open>
  The connections the attempts give. The result has the pauses between them; \<open>Trying\<close> means that the list of
  attempts has run out.
\<close>

fun open_link :: "send_conf \<Rightarrow> nat \<Rightarrow> link option list \<Rightarrow> int list \<Rightarrow> (link option \<times> int list) outcome" where
  "open_link c k [] ds = Trying"
| "open_link c k (Some l # ls) ds = Done (Some l, ds)"
| "open_link c k (None # ls) ds =
     (if sj_is_server c \<and> sj_retry c then
        (case retry_delay (sj_interval c) (sj_max_interval c) (k + 1) of
           None \<Rightarrow> Undefined
         | Some d \<Rightarrow> open_link c (k + 1) ls (if 0 < d then ds @ [d] else ds))
      else Done (None, ds))"

definition clear_error :: "line_list \<Rightarrow> line_list" where
  "clear_error i = Set_flag_value (Set_str_value i ERROR None) ERROR_TIME 0"

definition end_send :: "send_conf \<Rightarrow> int \<Rightarrow> line_list \<Rightarrow> int \<times> line_list" where
  "end_send c status i =
     (status, if status \<noteq> 0 \<and> Find_str_value i ERROR \<noteq> None then Set_nz_flag_value i ERROR_TIME (sd_now (sj_env c)) else i)"

definition Send_job :: "send_conf \<Rightarrow> line_list list \<Rightarrow> line_list \<Rightarrow> link option list \<Rightarrow> (int \<times> line_list) option outcome" where
  "Send_job c files i0 ls =
     (let i = clear_error i0; env = sj_env c in
      case sj_bad_auth c of
        Some msg \<Rightarrow> Done (Some (end_send c JFAIL (put_error env msg i)))
      | None \<Rightarrow>
          if sd_filter env \<noteq> None \<and> (sj_auth c \<noteq> None \<or> sj_block_format c) then
            Done (Some (end_send c JABORT (put_error env ''Cannot have user filter with secure or block format transfer'' i)))
          else
            (case open_link c 0 ls [] of
               Trying \<Rightarrow> Trying
             | Undefined \<Rightarrow> Undefined
             | Done (None, ds) \<Rightarrow> Done (Some (end_send c LINK_OPEN_FAIL (clear_error i)))
             | Done (Some l, ds) \<Rightarrow>
                 Done (map_option (\<lambda>(status, i1, l1). end_send c status i1)
                   (case sj_auth c of
                      Some f \<Rightarrow> Some (f (clear_error i) l)
                    | None \<Rightarrow>
                        if sj_block_format c then Send_block env files (clear_error i) l
                        else Send_normal env False files (clear_error i) l))))"

subsection \<open>The lines of the protocol\<close>

definition header :: "int \<Rightarrow> nat \<Rightarrow> cstr \<Rightarrow> cstr" where
  "header kind n name = char_of kind # dec_text (int n) @ CHR '' '' # name"

definition wire_name :: "cstr \<Rightarrow> bool" where
  "wire_name s \<longleftrightarrow> s \<noteq> [] \<and> list_all safe_name_char s \<and> length s \<le> 140"

definition plain_char :: "char \<Rightarrow> bool" where
  "plain_char c \<longleftrightarrow> \<not> iscntrl c \<and> \<not> isspace c \<and> c \<noteq> NUL \<and> c \<noteq> CHR '' '' \<and> c \<noteq> CHR 0x09 \<and> c \<noteq> LF \<and> c \<noteq> CHR 0x0D
    \<and> c \<noteq> CHR 0x5C \<and> c \<notin> set Whitespace \<and> (isalnum c \<or> c \<in> set LESS_SAFE)"

lemma kind_chars [simp]: "char_of (2::int) = CHR 0x02" "char_of (3::int) = CHR 0x03" "char_of (7::int) = CHR 0x07"
  by code_simp+

lemma char_of_ccode: "char_of (ccode c) = c"
  by (simp add: ccode_def)

lemma safe_codes: "safe_name_char c \<Longrightarrow> c \<in> set (map char_of ([48..57] @ [65..90] @ [97..122] @ [45, 46, 95 :: int]))"
proof -
  assume "safe_name_char c"
  then have "ccode c \<in> {48..57} \<union> ({65..90} \<union> ({97..122} \<union> {45, 46, 95}))"
    by (auto simp: safe_name_char_def SAFE_def isalnum_def isalpha_def isupper_def islower_def isdigit_def ccode_def)
  then have "ccode c \<in> set ([48..57] @ [65..90] @ [97..122] @ [45, 46, 95 :: int])"
    unfolding set_append set_upto by (simp only: list.set)
  then have "char_of (ccode c) \<in> set (map char_of ([48..57] @ [65..90] @ [97..122] @ [45, 46, 95 :: int]))"
    unfolding set_map by (rule imageI)
  then show ?thesis unfolding char_of_ccode .
qed

lemma safe_plain: "safe_name_char c \<Longrightarrow> plain_char c"
proof -
  have "list_all plain_char (map char_of ([48..57] @ [65..90] @ [97..122] @ [45, 46, 95 :: int]))" by code_simp
  with safe_codes show "safe_name_char c \<Longrightarrow> plain_char c" unfolding list_all_iff by blast
qed

lemma plain_meta: "plain_char c \<Longrightarrow> \<not> Is_meta safe c"
  by (auto simp: plain_char_def Is_meta_def)

lemma wire_name_plain: "wire_name s \<Longrightarrow> c \<in> set s \<Longrightarrow> plain_char c"
  using safe_plain by (auto simp: wire_name_def list_all_iff)

lemma dec_text_plain: "c \<in> set (dec_text (int n)) \<Longrightarrow> plain_char c"
proof -
  assume "c \<in> set (dec_text (int n))"
  then obtain d where "d < 10" "c = digit_char d"
    using nat_digits_set [of 10 n] by (auto simp: dec_text_def)
  then have "safe_name_char c" using digit_alnum [of d] by (simp add: safe_name_char_def)
  then show ?thesis by (rule safe_plain)
qed

lemma visible_plain: "\<forall>c\<in>set s. plain_char c \<Longrightarrow> visible vis s = s"
  by (intro visible_clean) (simp add: plain_char_def)

lemma length_dec_size: "n < 10 ^ 18 \<Longrightarrow> length (dec_text (int n)) \<le> 18"
  using length_nat_digits [of 10 n 17] by (simp add: dec_text_def)

lemma cstr_ok_header: "kind = 2 \<or> kind = 3 \<Longrightarrow> wire_name nm \<Longrightarrow> cstr_ok (header kind n nm)"
  using wire_name_plain [of nm NUL] cstr_ok_dec_text [of "int n"]
  by (auto simp: header_def cstr_ok_def NUL_def plain_char_def)

lemma line_text_take:
  assumes "dopr_text (\<lambda>_. dec_text) [] True fmt args = Some t" "cstr_ok t" "length t < 512"
  shows "line_text fmt args = t"
  using assms vsnprintf_truncates [OF assms(1), of SMALLBUFFER]
  by (simp add: line_text_def SMALLBUFFER_def buf_str_hit)

lemma control_header_text:
  assumes "wire_name nm" "int (length cf) \<le> INT_MAX"
  shows "control_header cf (Some nm) = header CONTROL_FILE (length cf) nm @ [LF]"
proof -
  have l: "length cf < 10 ^ 18" using assms(2) by (simp add: INT_MAX_def)
  have d: "dopr_text (\<lambda>_ _. []) [] True (''%c%d %s'' @ [LF]) [AInt CONTROL_FILE, AInt (int (length cf)), AStr (Some nm)]
      = Some (header CONTROL_FILE (length cf) nm @ [LF])"
    using assms(2) visible_plain [of nm] wire_name_plain [OF assms(1)]
    by (simp add: fmt_eval fmtnum_dec char_string_def header_def CONTROL_FILE_def NUL_def INT_MAX_def is_visible_ctl_def)
  have "cstr_ok (header CONTROL_FILE (length cf) nm @ [LF])"
    using cstr_ok_header [OF _ assms(1), of CONTROL_FILE] by (simp add: CONTROL_FILE_def cstr_ok_def NUL_def)
  moreover have "length (header CONTROL_FILE (length cf) nm @ [LF]) < 511"
    using length_dec_size [OF l] assms(1) by (simp add: header_def wire_name_def)
  ultimately show ?thesis using snprintf_text [OF d, of SMALLBUFFER]
    by (simp add: control_header_def SMALLBUFFER_def)
qed

lemma data_header_text:
  assumes "wire_name nm" "n < 10 ^ 18"
  shows "data_header (int n) (Some nm) = header DATA_FILE n nm @ [LF]"
proof -
  have d: "dopr_text (\<lambda>_. dec_text) [] True (''%c%0.0f %s'' @ [LF]) [AInt DATA_FILE, ADouble (int n), AStr (Some nm)]
      = Some (header DATA_FILE n nm @ [LF])"
    using visible_plain [of nm] wire_name_plain [OF assms(1)]
    by (simp add: fmt_eval fmtdouble_text_def char_string_def header_def DATA_FILE_def NUL_def is_visible_ctl_def)
  have "cstr_ok (header DATA_FILE n nm @ [LF])"
    using cstr_ok_header [OF _ assms(1), of DATA_FILE] by (simp add: DATA_FILE_def cstr_ok_def NUL_def)
  moreover have "length (header DATA_FILE n nm @ [LF]) < 512"
    using length_dec_size [OF assms(2)] assms(1) by (simp add: header_def wire_name_def)
  ultimately show ?thesis unfolding data_header_def by (rule line_text_take [OF d])
qed

subsection \<open>What is written to the connection\<close>

type_synonym wire_file = "int \<times> cstr \<times> cstr"

definition wire_section :: "wire_file \<Rightarrow> cstr" where
  "wire_section x = (case x of (k, nm, d) \<Rightarrow> header k (length d) nm @ LF # d @ [NUL])"

definition block_text :: "wire_file \<Rightarrow> cstr" where
  "block_text x = (case x of (k, nm, d) \<Rightarrow> header k (length d) nm @ LF # d)"

text \<open>
  A data file that can be sent: with a name that is not changed on the way, not the standard input, and whose
  size is what the system says. The files of a job, as the receiver should get them.
\<close>

definition sendable :: "send_env \<Rightarrow> line_list \<Rightarrow> bool" where
  "sendable env d \<longleftrightarrow>
     (case (Find_str_value d DFTRANSFERNAME, data_file_name d) of
        (Some nm, Some file) \<Rightarrow> wire_name nm \<and> file \<noteq> ''-'' \<and>
          (case sd_open env file of
             Some (f, n) \<Rightarrow> whole f \<and> n = int (length (flat f)) \<and> length (flat f) < 10 ^ 18
           | None \<Rightarrow> True)
      | _ \<Rightarrow> False)"

definition data_file_of :: "send_env \<Rightarrow> line_list \<Rightarrow> wire_file" where
  "data_file_of env d =
     (DATA_FILE, the (Find_str_value d DFTRANSFERNAME), flat (fst (the (sd_open env (the (data_file_name d))))))"

definition control_file_of :: "line_list \<Rightarrow> wire_file" where
  "control_file_of i = (CONTROL_FILE, the (Find_str_value i XXCFTRANSFERNAME), the (Find_str_value i CF_OUT_IMAGE))"

definition has_control_file :: "line_list \<Rightarrow> bool" where
  "has_control_file i \<longleftrightarrow>
     (case (Find_str_value i XXCFTRANSFERNAME, Find_str_value i CF_OUT_IMAGE) of
        (Some nm, Some cf) \<Rightarrow> wire_name nm \<and> cf \<noteq> [] \<and> int (length cf) \<le> INT_MAX
      | _ \<Rightarrow> False)"

lemma exchange_ok: "exchange msg l = (0, ack, l1) \<Longrightarrow> sent l1 = sent l @ msg \<and> sock l1 = sock l \<and> 0 \<le> sock l"
  using Link_send_ok by (fastforce simp: exchange_def split: prod.splits)

lemma Send_control_sends:
  assumes "has_control_file i" "Send_control env False i l = Some (0, i1, l1)"
  shows "i1 = i \<and> sent l1 = sent l @ wire_section (control_file_of i) \<and> sock l1 = sock l"
proof -
  from assms(1) obtain nm cf where n: "Find_str_value i XXCFTRANSFERNAME = Some nm" "Find_str_value i CF_OUT_IMAGE = Some cf"
    "wire_name nm" "int (length cf) \<le> INT_MAX"
    by (auto simp: has_control_file_def split: option.splits)
  obtain st ack l2 where e: "exchange (control_header cf (Some nm)) l = (st, ack, l2)" by (metis prod_cases3)
  obtain st2 ack2 l3 where e2: "exchange (cf @ [NUL]) l2 = (st2, ack2, l3)" by (metis prod_cases3)
  from assms(2) n(1,2) e e2 have "st = 0" "st2 = 0" "i1 = i" "l1 = l3"
    by (auto simp: Send_control_def JFAIL_def Let_def split: if_splits)
  with exchange_ok e e2 show ?thesis
    by (simp add: control_header_text [OF n(3,4)] wire_section_def control_file_of_def n(1,2))
qed

definition proper_file :: "wire_file \<Rightarrow> bool" where
  "proper_file x \<longleftrightarrow> (case x of (kind, nm, d) \<Rightarrow> (kind = CONTROL_FILE \<or> kind = DATA_FILE) \<and> wire_name nm \<and> d \<noteq> [] \<and> length d < 10 ^ 18)"

lemma send_data_sends:
  assumes "sendable env d" "sd_open env file = Some (f, n)" "data_file_name d = Some file" "sd_filter env = None" "n \<noteq> 0"
    and "send_data env False ident (Find_str_value d DFTRANSFERNAME) last_one n False f i l = (0, i1, l1)"
  shows "i1 = i \<and> sent l1 = sent l @ wire_section (data_file_of env d) \<and> sock l1 = sock l \<and> proper_file (data_file_of env d)"
proof -
  from assms(1-3) obtain nm where nm: "Find_str_value d DFTRANSFERNAME = Some nm" "wire_name nm"
    and f: "whole f" "n = int (length (flat f))" "length (flat f) < 10 ^ 18"
    by (auto simp: sendable_def split: option.splits)
  obtain st ack l2 where e: "exchange (data_header n (Some nm)) l = (st, ack, l2)" by (metis prod_cases3)
  obtain st1 f1 l3 where c: "Link_copy f n l2 = (st1, f1, l3)" by (metis prod_cases3)
  obtain st2 ack2 l4 where e2: "exchange [NUL] l3 = (st2, ack2, l4)" by (metis prod_cases3)
  from assms(4,6) nm(1) e c e2 have z: "st = 0" "st1 = 0" "st2 = 0" "i1 = i" "l1 = l4"
    by (auto simp: send_data_def Let_def split: if_splits)
  have "flat f \<noteq> []" using assms(5) f(2) by auto
  with Link_copy_sends [OF f(1) refl _ c [unfolded f(2) z(2)]] exchange_ok e e2 z f(3)
  show ?thesis
    by (simp add: data_header_text [OF nm(2) f(3)] f(2) wire_section_def data_file_of_def nm assms(2,3) proper_file_def)
qed

lemma Send_data_files_sends:
  assumes "list_all (sendable env) ds" "sd_filter env = None" "Send_data_files env False ds i l = Some (0, i1, l1)"
  shows "i1 = i \<and> sent l1 = sent l @ concat (map (\<lambda>d. wire_section (data_file_of env d)) ds) \<and> sock l1 = sock l
    \<and> list_all proper_file (map (data_file_of env) ds)"
  using assms
proof (induction ds arbitrary: l)
  case (Cons d ds)
  from Cons.prems(1) obtain nm fname where nm: "Find_str_value d DFTRANSFERNAME = Some nm" "data_file_name d = Some fname" "fname \<noteq> ''-''"
    by (auto simp: sendable_def split: option.splits)
  with Cons.prems(3) obtain f n where f: "sd_open env fname = Some (f, n)" "n \<noteq> 0"
    by (auto simp: JFAILNORETRY_def JABORT_def Let_def split: option.splits if_splits)
  define ident where "ident = (case Find_str_value i IDENTIFIER of None \<Rightarrow> Find_str_value i XXCFTRANSFERNAME | r \<Rightarrow> r)"
  obtain st i2 l2 where s: "send_data env False ident (Some nm) (ds = []) n False f i l = (st, i2, l2)" by (metis prod_cases3)
  have "Send_data_files env False (d # ds) i l = (if st \<noteq> 0 then Some (st, i2, l2) else Send_data_files env False ds i2 l2)"
    using nm f s by (simp add: Let_def flip: ident_def)
  with Cons.prems(3) have z: "st = 0" "Send_data_files env False ds i2 l2 = Some (0, i1, l1)"
    by (auto split: if_splits)
  have d: "i2 = i \<and> sent l2 = sent l @ wire_section (data_file_of env d) \<and> sock l2 = sock l \<and> proper_file (data_file_of env d)"
    by (rule send_data_sends [OF _ f(1) nm(2) Cons.prems(2) f(2)]) (use Cons.prems(1) nm(1) s z(1) in auto)
  with Cons.IH [of l2] Cons.prems(1,2) z(2) show ?case by simp
qed simp

definition request_line :: "send_env \<Rightarrow> cstr" where
  "request_line env = char_of REQ_RECV # the (sd_printer env)"

definition job_files :: "send_env \<Rightarrow> line_list list \<Rightarrow> line_list \<Rightarrow> wire_file list" where
  "job_files env files i =
     (if Send_data_first env then map (data_file_of env) files @ [control_file_of i]
      else control_file_of i # map (data_file_of env) files)"

lemma request_text:
  assumes "sd_printer env = Some p" "wire_name p"
  shows "plp_snprintf SMALLBUFFER (''%c%s'' @ [LF]) [AInt REQ_RECV, AStr (sd_printer env)] = request_line env @ [LF]"
proof -
  have d: "dopr_text (\<lambda>_ _. []) [] True (''%c%s'' @ [LF]) [AInt REQ_RECV, AStr (sd_printer env)] = Some (request_line env @ [LF])"
    using assms visible_plain [of p] wire_name_plain [OF assms(2)]
    by (simp add: fmt_eval char_string_def request_line_def REQ_RECV_def NUL_def is_visible_ctl_def)
  have "cstr_ok (request_line env @ [LF])"
    using assms wire_name_plain [OF assms(2), of NUL] by (auto simp: request_line_def REQ_RECV_def cstr_ok_def NUL_def plain_char_def)
  moreover have "length (request_line env @ [LF]) \<le> 511" using assms by (simp add: request_line_def wire_name_def)
  ultimately show ?thesis using snprintf_text [OF d, of SMALLBUFFER] by (simp add: SMALLBUFFER_def)
qed

text \<open>A job that \<open>Send_normal\<close> can send as it is.\<close>

definition job_sendable :: "send_env \<Rightarrow> line_list list \<Rightarrow> line_list \<Rightarrow> bool" where
  "job_sendable env files i \<longleftrightarrow>
     list_all (sendable env) files \<and> has_control_file i \<and> sd_filter env = None \<and>
     (case sd_printer env of Some p \<Rightarrow> wire_name p | None \<Rightarrow> False)"

lemma Send_normal_sends:
  assumes "job_sendable env files i" "Send_normal env False files i l = Some (0, i1, l1)"
  shows "i1 = i \<and> sent l1 = sent l @ request_line env @ LF # concat (map wire_section (job_files env files i)) \<and> sock l1 = sock l
    \<and> list_all proper_file (job_files env files i)"
proof -
  from assms(1) obtain p where a: "list_all (sendable env) files" "has_control_file i" "sd_filter env = None"
    "sd_printer env = Some p" "wire_name p"
    by (auto simp: job_sendable_def split: option.splits)
  obtain st ack l2 where e: "exchange (request_line env @ [LF]) l = (st, ack, l2)" by (metis prod_cases3)
  have cf: "proper_file (control_file_of i)" using a(2)
    by (auto simp: has_control_file_def proper_file_def control_file_of_def INT_MAX_def split: option.splits)
  have m: "map (\<lambda>d. wire_section (data_file_of env d)) files = map wire_section (map (data_file_of env) files)" by simp
  note sn = assms(2) [unfolded Send_normal_def request_text [OF a(4,5)]]
  from sn e have st: "st = 0" by (auto simp: Let_def split: if_splits)
  show ?thesis
  proof (cases "Send_data_first env")
    case True
    with sn e st obtain i2 l3 where
      "Send_data_files env False files i l2 = Some (0, i2, l3)" "Send_control env False i2 l3 = Some (0, i1, l1)"
      by (auto simp: Let_def split: option.splits if_splits)
    with Send_data_files_sends [OF a(1,3)] Send_control_sends a(2) exchange_ok [OF e [unfolded st]] True show ?thesis
      by (fastforce simp: job_files_def m cf simp del: map_map)
  next
    case False
    with sn e st obtain i2 l3 where
      "Send_control env False i l2 = Some (0, i2, l3)" "Send_data_files env False files i2 l3 = Some (0, i1, l1)"
      by (auto simp: Let_def split: option.splits if_splits)
    with Send_data_files_sends [OF a(1,3)] Send_control_sends [OF a(2)] exchange_ok [OF e [unfolded st]] False show ?thesis
      by (fastforce simp: job_files_def m cf simp del: map_map)
  qed
qed

subsection \<open>What the receiver reads\<close>

text \<open>
  The reading of \<open>Receive_job\<close> from a connection: for each line its file. The results are
  the transfers that \<open>Receive_job\<close> of \<open>JobProtocol\<close> works on; \<open>temps\<close> are the names of the temporary
  files and \<open>k\<close> is the number of lines that are read at most.
\<close>

fun received :: "proto_env \<Rightarrow> (nat \<Rightarrow> cstr) \<Rightarrow> nat \<Rightarrow> link \<Rightarrow> transfer list" where
  "received p temps 0 l = []"
| "received p temps (Suc k) l =
     (case Link_line_read (nat (SMALLBUFFER - 1)) l of
        (status, line, l1) \<Rightarrow>
          (if status \<noteq> 0 \<or> line = [] then []
           else
             (let x = \<lparr>x_line = line, x_temp = temps k, x_data = [], x_read_ok = True, x_ack_ok = True, x_end_ack_ok = True\<rparr> in
              case announced p (Clean_meta (Safe_chars (r_job (p_rcv p))) (tl line)) of
                None \<Rightarrow> x # received p temps k l1
              | Some (n, name) \<Rightarrow>
                  (case Link_file_read [] n l1 of
                     (st, got, data, ack, l2) \<Rightarrow> x\<lparr>x_data := data, x_read_ok := (st = 0)\<rparr> # received p temps k l2))))"

definition transfer_of :: "cstr \<Rightarrow> wire_file \<Rightarrow> transfer" where
  "transfer_of temp x = (case x of (kind, nm, d) \<Rightarrow>
     \<lparr>x_line = header kind (length d) nm, x_temp = temp, x_data = d, x_read_ok = True, x_ack_ok = True, x_end_ack_ok = True\<rparr>)"

text \<open>What is expected of \<open>strtod\<close>: it reads a decimal number up to the blank behind it.\<close>

definition reads_sizes :: "proto_env \<Rightarrow> bool" where
  "reads_sizes p \<longleftrightarrow> (\<forall>n<10 ^ 18. \<forall>s. p_strtod p (dec_text (int n) @ CHR '' '' # s) = (int n, CHR '' '' # s))"

lemma Clean_meta_plain:
  assumes "\<forall>c\<in>set s. plain_char c \<or> c = CHR '' ''"
  shows "Clean_meta safe s = s"
proof -
  have b: "\<not> Is_meta safe (CHR '' '')" by (simp add: Is_meta_def isspace_def ccode_def)
  have "map (\<lambda>c. if c = CHR 0x5C then CHR ''/'' else c) s = s"
    by (rule map_idI) (use assms in \<open>auto simp: plain_char_def\<close>)
  moreover have "map (\<lambda>c. if Is_meta safe c then CHR ''_'' else c) s = s"
    by (rule map_idI) (use assms b plain_meta in auto)
  ultimately show ?thesis by (simp only: Clean_meta_def)
qed

lemma announced_header:
  assumes "reads_sizes p" "wire_name nm" "n < 10 ^ 18"
  shows "announced p (dec_text (int n) @ CHR '' '' # nm) = Some (int n, nm)"
proof -
  have plain: "\<forall>c\<in>set nm. plain_char c" using wire_name_plain [OF assms(2)] by blast
  have "dropWhile isspace nm = nm" using plain assms(2) by (cases nm) (auto simp: wire_name_def plain_char_def)
  moreover have "isspace (CHR '' '')" by (simp add: isspace_def ccode_def)
  ultimately have d: "dropWhile isspace (CHR '' '' # nm) = nm" by simp
  have "underscores nm = nm"
    unfolding underscores_def by (rule map_idI) (use plain in \<open>auto simp: plain_char_def\<close>)
  moreover have "Clean_meta safe nm = nm" for safe using plain by (intro Clean_meta_plain) blast
  moreover have "CHR '' '' # nm \<noteq> dec_text (int n) @ CHR '' '' # nm" by (simp add: dec_text_def nat_digits_nonempty)
  moreover have "p_strtod p (dec_text (int n) @ CHR '' '' # nm) = (int n, CHR '' '' # nm)"
    using assms(1,3) by (simp add: reads_sizes_def)
  ultimately show ?thesis using d by (simp only: announced_def prod.case if_False)
qed

lemma header_chars:
  assumes "kind = CONTROL_FILE \<or> kind = DATA_FILE" "wire_name nm" "n < 10 ^ 18"
  shows "LF \<notin> set (header kind n nm)" "CHR 0x0D \<notin> set (header kind n nm)" "length (header kind n nm) + 1 < nat (SMALLBUFFER - 1)"
    "header kind n nm \<noteq> []" "tl (header kind n nm) = dec_text (int n) @ CHR '' '' # nm"
    "Clean_meta safe (dec_text (int n) @ CHR '' '' # nm) = dec_text (int n) @ CHR '' '' # nm"
proof -
  have k: "char_of kind \<noteq> LF" "char_of kind \<noteq> CHR 0x0D" using assms(1) by (auto simp: CONTROL_FILE_def DATA_FILE_def)
  have p: "\<forall>c\<in>set (dec_text (int n) @ CHR '' '' # nm). plain_char c \<or> c = CHR '' ''"
    using dec_text_plain wire_name_plain [OF assms(2)] by auto
  then have "LF \<notin> set (dec_text (int n) @ CHR '' '' # nm)" "CHR 0x0D \<notin> set (dec_text (int n) @ CHR '' '' # nm)"
    by (auto simp: plain_char_def)
  with k show "LF \<notin> set (header kind n nm)" "CHR 0x0D \<notin> set (header kind n nm)" by (auto simp: header_def)
  show "length (header kind n nm) + 1 < nat (SMALLBUFFER - 1)"
    using length_dec_size [OF assms(3)] assms(2) by (simp add: header_def wire_name_def SMALLBUFFER_def)
  show "header kind n nm \<noteq> []" "tl (header kind n nm) = dec_text (int n) @ CHR '' '' # nm" by (simp_all add: header_def)
  show "Clean_meta safe (dec_text (int n) @ CHR '' '' # nm) = dec_text (int n) @ CHR '' '' # nm" by (rule Clean_meta_plain [OF p])
qed

lemma received_files:
  assumes "reads_sizes p" "list_all proper_file xs" "0 \<le> sock r" "whole (reads r)" "flat (reads r) = concat (map wire_section xs)"
  shows "received p temps (length xs) r = map2 (\<lambda>k x. transfer_of (temps k) x) (rev [0..<length xs]) xs"
  using assms(2-5)
proof (induction xs arbitrary: r)
  case (Cons x xs)
  obtain kind nm d where x: "x = (kind, nm, d)" by (cases x)
  with Cons.prems(1) have ok: "kind = CONTROL_FILE \<or> kind = DATA_FILE" "wire_name nm" "d \<noteq> []" "length d < 10 ^ 18"
    by (simp_all add: proper_file_def)
  note h = header_chars [OF ok(1,2,4)]
  have "flat (reads r) = header kind (length d) nm @ LF # d @ NUL # concat (map wire_section xs)"
    using Cons.prems(4) wire_section_def [of x] by (simp add: x)
  from Link_line_read_reads [OF Cons.prems(2,3) this h(1-3)] obtain rs where
    l: "Link_line_read (nat (SMALLBUFFER - 1)) r = (0, header kind (length d) nm, r\<lparr>reads := rs\<rparr>)"
    "whole rs" "flat rs = d @ NUL # concat (map wire_section xs)" by blast
  from Link_file_read_reads [of "r\<lparr>reads := rs\<rparr>" d "concat (map wire_section xs)" "[]"] Cons.prems(2) l(2,3) ok(3)
  obtain rs1 where f: "Link_file_read [] (int (length d)) (r\<lparr>reads := rs\<rparr>) = (0, int (length d), d, 0, r\<lparr>reads := rs1\<rparr>)"
    "whole rs1" "flat rs1 = concat (map wire_section xs)" by auto
  have "received p temps (length xs) (r\<lparr>reads := rs1\<rparr>) = map2 (\<lambda>k x. transfer_of (temps k) x) (rev [0..<length xs]) xs"
    by (rule Cons.IH) (use Cons.prems(1,2) f(2,3) in auto)
  then show ?case
    by (simp add: l(1) h(4-6) announced_header [OF assms(1) ok(2,4)] f(1) x transfer_of_def Let_def)
qed simp

lemma request_line_chars:
  assumes "sd_printer env = Some pr" "wire_name pr"
  shows "LF \<notin> set (request_line env)" "CHR 0x0D \<notin> set (request_line env)" "length (request_line env) + 1 < LINEBUFFER - 1"
  using assms wire_name_plain [OF assms(2), of LF] wire_name_plain [OF assms(2), of "CHR 0x0D"]
  by (auto simp: request_line_def REQ_RECV_def plain_char_def wire_name_def LINEBUFFER_def)

subsection \<open>Properties\<close>

text \<open>
  C8: a job that is sent is received: when \<open>Send_normal\<close> reports success, a server that reads what was written to the
  connection, in pieces of any size, finds the request for the printer and then, in the order they were
  sent, the control file and each data file with its name and exactly its bytes.
\<close>

theorem job_arrives:
  assumes "job_sendable env files i" "Send_normal env False files i l = Some (0, i1, l1)"
    and "0 \<le> sock r" "whole (reads r)" "sent l @ flat (reads r) = sent l1" "reads_sizes p"
  shows "\<exists>rs. Link_line_read (LINEBUFFER - 1) r = (0, request_line env, r\<lparr>reads := rs\<rparr>)
    \<and> received p temps (length files + 1) (r\<lparr>reads := rs\<rparr>)
        = map2 (\<lambda>k x. transfer_of (temps k) x) (rev [0..<length files + 1]) (job_files env files i)"
proof -
  from assms(1) obtain pr where pr: "sd_printer env = Some pr" "wire_name pr"
    by (auto simp: job_sendable_def split: option.splits)
  note s = Send_normal_sends [OF assms(1,2)]
  with assms(5) have "flat (reads r) = request_line env @ LF # concat (map wire_section (job_files env files i))" by simp
  from Link_line_read_reads [OF assms(3,4) this request_line_chars [OF pr]] obtain rs where
    l: "Link_line_read (LINEBUFFER - 1) r = (0, request_line env, r\<lparr>reads := rs\<rparr>)" "whole rs"
    "flat rs = concat (map wire_section (job_files env files i))" by blast
  have n: "length (job_files env files i) = length files + 1" by (simp add: job_files_def)
  have "received p temps (length (job_files env files i)) (r\<lparr>reads := rs\<rparr>)
      = map2 (\<lambda>k x. transfer_of (temps k) x) (rev [0..<length (job_files env files i)]) (job_files env files i)"
    by (rule received_files [OF assms(6)]) (use s l assms(3) in auto)
  with l(1) n show ?thesis by auto
qed

definition demo_send :: send_env where
  "demo_send = \<lparr>sd_printer = Some ''lp'', sd_host = Some ''h'', Send_data_first = False, sd_now = 1, sd_errno = [],
     sd_open = (\<lambda>f. if f = ''/f'' then Some ([Bytes ''he'', Bytes ''llo''], 5) else None), sd_stdin = [], sd_filter = None,
     sd_temp_writes = []\<rparr>"

definition demo_send_info :: line_list where
  "demo_send_info = [''cf_out_image=Hh'', ''cftransfername=cfA001h'']"

definition demo_send_files :: "line_list list" where
  "demo_send_files = [[''dftransfername=dfA001h'', ''openname=/f'']]"

definition demo_link :: link where
  "demo_link = \<lparr>sock = 3, sent = [], writes = [], reads = [Bytes [NUL, NUL], Bytes [NUL, NUL, NUL]]\<rparr>"

lemma demo_send_fields [simp]:
  "sd_filter demo_send = None" "Send_data_first demo_send = False" "sd_printer demo_send = Some ''lp''"
  "sd_open demo_send ''/f'' = Some ([Bytes ''he'', Bytes ''llo''], 5)"
  by (simp_all add: demo_send_def)

lemma demo_names [simp]: "wire_name ''lp''" "wire_name ''cfA001h''" "wire_name ''dfA001h''"
  by code_simp+

definition demo_wire :: cstr where
  "demo_wire = CHR 0x02 # ''lp'' @ LF # CHR 0x02 # ''2 cfA001h'' @ LF # ''Hh'' @ NUL # CHR 0x03 # ''5 dfA001h'' @ LF # ''hello'' @ [NUL]"

lemma write_link_free [simp]: "write_link msg (l\<lparr>writes := []\<rparr>) = (True, l\<lparr>sent := sent l @ msg, writes := []\<rparr>)"
  by (simp add: write_link_def)

lemma demo_headers:
  "plp_snprintf SMALLBUFFER (''%c%s'' @ [LF]) [AInt REQ_RECV, AStr (Some ''lp'')] = CHR 0x02 # ''lp'' @ [LF]"
  "control_header ''Hh'' (Some ''cfA001h'') = CHR 0x02 # ''2 cfA001h'' @ [LF]"
  "data_header 5 (Some ''dfA001h'') = CHR 0x03 # ''5 dfA001h'' @ [LF]"
  "Find_str_value demo_send_info CF_OUT_IMAGE = Some ''Hh''" "Find_str_value demo_send_info XXCFTRANSFERNAME = Some ''cfA001h''"
  "Find_str_value [''dftransfername=dfA001h'', ''openname=/f''] DFTRANSFERNAME = Some ''dfA001h''"
  "data_file_name [''dftransfername=dfA001h'', ''openname=/f''] = Some ''/f''"
proof -
  have d: "dec_text 2 = ''2''" "dec_text 5 = ''5''" by code_simp+
  show "plp_snprintf SMALLBUFFER (''%c%s'' @ [LF]) [AInt REQ_RECV, AStr (Some ''lp'')] = CHR 0x02 # ''lp'' @ [LF]"
    using request_text [of demo_send, OF _ demo_names(1)] by (simp add: request_line_def REQ_RECV_def)
  show "control_header ''Hh'' (Some ''cfA001h'') = CHR 0x02 # ''2 cfA001h'' @ [LF]"
    using control_header_text [OF demo_names(2), of "''Hh''"] by (simp add: header_def CONTROL_FILE_def INT_MAX_def d)
  show "data_header 5 (Some ''dfA001h'') = CHR 0x03 # ''5 dfA001h'' @ [LF]"
    using data_header_text [OF demo_names(3), of 5] by (simp add: header_def DATA_FILE_def d)
qed code_simp+

lemma demo_sendable: "job_sendable demo_send demo_send_files demo_send_info"
  by (simp add: job_sendable_def demo_send_files_def sendable_def has_control_file_def demo_headers(4-7) INT_MAX_def)

lemma demo_copy:
  "\<exists>f1. Link_copy [Bytes ''he'', Bytes ''llo''] 5 \<lparr>sock = 3, sent = t, writes = [], reads = r\<rparr>
     = (0, f1, \<lparr>sock = 3, sent = t @ ''hello'', writes = [], reads = r\<rparr>)"
  using Link_copy_free [of "[Bytes ''he'', Bytes ''llo'']" "\<lparr>sock = 3, sent = t, writes = [], reads = r\<rparr>"] by simp

lemma demo_sent:
  "map_option (\<lambda>(st, i, l). (st, i, sent l)) (Send_normal demo_send False demo_send_files demo_send_info demo_link)
     = Some (0, demo_send_info, demo_wire)"
proof -
  let ?l = "\<lparr>sock = 3, sent = CHR 0x02 # ''lp'' @ LF # CHR 0x02 # ''2 cfA001h'' @ LF # ''Hh'' @ NUL # CHR 0x03 # ''5 dfA001h'' @ [LF],
    writes = [], reads = [Bytes [NUL]]\<rparr>"
  from demo_copy [of "sent ?l" "[Bytes [NUL]]"] obtain f1 where
    "Link_copy [Bytes ''he'', Bytes ''llo''] 5 ?l = (0, f1, ?l\<lparr>sent := sent ?l @ ''hello''\<rparr>)" by auto
  then show ?thesis
    unfolding Send_normal_def demo_send_fields demo_headers(1) demo_send_files_def
    by (simp add: demo_headers exchange_def Link_send_def demo_link_def write_link_def read_link_def Send_control_def Let_def
        demo_wire_def send_data_def)
qed

lemma strtol_dec_blank:
  assumes "n < 10 ^ 18"
  shows "strtol (dec_text (int n) @ CHR '' '' # s) 10 = (int n, CHR '' '' # s)"
proof -
  let ?ds = "nat_digits 10 n"
  obtain c ds where cs: "?ds = c # ds" using nat_digits_nonempty [of 10 n] by (cases ?ds) auto
  then obtain d where d: "d < 10" "c = digit_char d" using nat_digits_char [of 10 c n] by auto
  have all: "\<forall>c\<in>set ?ds. digit_val c < 10"
    using nat_digits_char [of 10 _ n] by (fastforce simp: digit_val_char)
  have b: "\<not> digit_val (CHR '' '') < 10" by (simp add: digit_val_def isdigit_def islower_def isupper_def ccode_def)
  have "takeWhile (\<lambda>c. digit_val c < 10) (?ds @ CHR '' '' # s) = ?ds"
    "dropWhile (\<lambda>c. digit_val c < 10) (?ds @ CHR '' '' # s) = CHR '' '' # s"
    using all b by (simp_all add: takeWhile_append_hit dropWhile_append_hit)
  moreover have "digits_value 10 ?ds = int n" using digits_value_nat_digits [of 10 n] by simp
  moreover have "clamp_long (int n) = int n" using assms by (simp add: clamp_long_def LONG_MAX_def LONG_MIN_def)
  ultimately show ?thesis using digit_char_props [of d] d cs
    by (simp add: strtol_def dec_text_def strtol_base_def Let_def)
qed

lemma demo_reads_sizes: "reads_sizes demo_proto"
  by (simp add: reads_sizes_def demo_proto_def strtol_dec_blank)

lemma job_arrives_witness:
  "\<exists>rs. received demo_proto (\<lambda>_. ''t'') 2 (demo_link\<lparr>reads := rs\<rparr>)
     = [transfer_of ''t'' (2, ''cfA001h'', ''Hh''), transfer_of ''t'' (3, ''dfA001h'', ''hello'')]"
proof -
  obtain l1 where l1: "Send_normal demo_send False demo_send_files demo_send_info demo_link = Some (0, demo_send_info, l1)"
    "sent l1 = demo_wire"
    using demo_sent by auto
  let ?r = "demo_link\<lparr>reads := [Bytes (take 3 demo_wire), Bytes (drop 3 demo_wire)]\<rparr>"
  have "0 \<le> sock ?r" "whole (reads ?r)" "sent demo_link @ flat (reads ?r) = sent l1"
    by (simp_all add: l1(2) demo_link_def demo_wire_def)
  from job_arrives [OF demo_sendable l1(1) this demo_reads_sizes, of "\<lambda>_. ''t''"]
  have "\<exists>rs. received demo_proto (\<lambda>_. ''t'') (length demo_send_files + 1) (demo_link\<lparr>reads := rs\<rparr>)
      = map2 (\<lambda>k x. transfer_of ''t'' x) (rev [0..<length demo_send_files + 1]) (job_files demo_send demo_send_files demo_send_info)"
    by auto
  moreover have "length demo_send_files + 1 = 2" by (simp add: demo_send_files_def)
  moreover have "job_files demo_send demo_send_files demo_send_info = [(2, ''cfA001h'', ''Hh''), (3, ''dfA001h'', ''hello'')]"
    by code_simp
  ultimately show ?thesis by (simp add: numeral_2_eq_2 del: received.simps)
qed

subsection \<open>A connection that is closed too early\<close>

text \<open>Behind a file that ends with the connection nothing more can be sent.\<close>

lemma exchange_closed: "sock l < 0 \<Longrightarrow> exchange msg l = (LINK_TRANSFER_FAIL, 0, l)"
  by (simp add: exchange_def Link_send_def)

lemma Send_control_closed: "sock l < 0 \<Longrightarrow> Send_control env False i l = Some (st, i1, l1) \<Longrightarrow> st \<noteq> 0"
  by (auto simp: Send_control_def exchange_closed link_codes JFAIL_def Let_def split: option.splits if_splits)

lemma send_data_closes:
  assumes "sd_filter env \<noteq> None \<and> last_one \<or> is_stdin" "send_data env False ident name last_one n is_stdin f i l = (0, i1, l1)"
  shows "sock l1 < 0"
proof -
  obtain st ack l2 where e: "exchange (data_header (if last_one \<and> sd_filter env \<noteq> None then 0 else n) name) l = (st, ack, l2)"
    by (metis prod_cases3)
  with assms show ?thesis
    by (auto simp: send_data_def Let_def split: if_splits option.splits prod.splits)
qed

lemma send_data_info:
  assumes "send_data env False ident name last_one n is_stdin f i l = (0, i1, l1)"
  shows "i1 = i"
proof -
  obtain st ack l2 where "exchange (data_header (if last_one \<and> sd_filter env \<noteq> None then 0 else n) name) l = (st, ack, l2)"
    by (metis prod_cases3)
  with assms show ?thesis
    by (auto simp: send_data_def Let_def split: if_splits option.splits prod.splits)
qed

definition ends_connection :: "send_env \<Rightarrow> line_list list \<Rightarrow> bool" where
  "ends_connection env files \<longleftrightarrow> files \<noteq> [] \<and> (sd_filter env \<noteq> None \<or> data_file_name (last files) = Some ''-'')"

lemma Send_data_files_closes:
  assumes "ends_connection env ds" "Send_data_files env False ds i l = Some (0, i1, l1)"
  shows "sock l1 < 0"
  using assms
proof (induction ds arbitrary: i l)
  case (Cons d ds)
  define ident where "ident = (case Find_str_value i IDENTIFIER of None \<Rightarrow> Find_str_value i XXCFTRANSFERNAME | r \<Rightarrow> r)"
  obtain fname where fn: "data_file_name d = Some fname" using Cons.prems(2) by (cases "data_file_name d") auto
  define n where "n = (if fname = ''-'' then 0 else snd (the (sd_open env fname)))"
  define f where "f = (if fname = ''-'' then sd_stdin env else fst (the (sd_open env fname)))"
  obtain st i2 l2 where s: "send_data env False ident (Find_str_value d DFTRANSFERNAME) (ds = []) n (fname = ''-'') f i l = (st, i2, l2)"
    by (metis prod_cases3)
  have z: "st = 0" "Send_data_files env False ds i2 l2 = Some (0, i1, l1)"
    using Cons.prems(2) fn s
    by (auto simp: Let_def n_def f_def JFAILNORETRY_def JABORT_def simp flip: ident_def split: if_splits option.splits)
  show ?case
  proof (cases "ds = []")
    case True
    with Cons.prems(1) fn send_data_closes [OF _ s [unfolded z(1)]] z(2) show ?thesis
      by (auto simp: ends_connection_def)
  next
    case False
    with Cons.prems(1) have "ends_connection env ds" by (simp add: ends_connection_def)
    from Cons.IH [OF this z(2)] show ?thesis .
  qed
qed (simp add: ends_connection_def)


definition demo_filter :: send_env where
  "demo_filter = demo_send\<lparr>Send_data_first := True, sd_filter := Some (\<lambda>_. (0, ''x''))\<rparr>"


subsection \<open>The block\<close>

definition put_link :: "cstr \<Rightarrow> link \<Rightarrow> link" where
  "put_link msg l = l\<lparr>sent := sent l @ msg\<rparr>"

lemma put_link_simps [simp]:
  "writes (put_link m l) = writes l" "sent (put_link m l) = sent l @ m" "put_link n (put_link m l) = put_link (m @ n) l"
  "put_link [] l = l"
  by (simp_all add: put_link_def)

lemma free_writes:
  "writes l = [] \<Longrightarrow> write_link m l = (True, put_link m l)" "writes l = [] \<Longrightarrow> raw_write m l = (True, put_link m l)"
  by (simp_all add: write_link_def raw_write_def put_link_def)

lemma block_copy_free:
  assumes "whole f" "writes l = []" "n = got + int (length (flat f))"
  shows "block_copy got n f l = (Some n, put_link (flat f) l)"
  using assms
proof (induction "length (flat f)" arbitrary: f l got rule: less_induct)
  case less
  show ?case
  proof (cases "flat f = []")
    case True
    with less.prems show ?thesis by (subst block_copy.simps) simp
  next
    case False
    obtain s f2 where s: "read_some (nat SMALLBUFFER) f = (Bytes s, f2)" "whole f2" "flat f = s @ flat f2" "s = [] \<longrightarrow> flat f = []"
      by (rule read_some_whole [OF less.prems(1), of "nat SMALLBUFFER"]) (auto simp: SMALLBUFFER_def)
    then obtain c t where ct: "s = c # t" using False by (cases s) auto
    have "length (flat f2) < length (flat f)" using s(3) ct by simp
    from less.hyps [OF this s(2), of "put_link s l" "got + int (length s)"] less.prems s(1,3) ct
    show ?thesis by (subst block_copy.simps) (simp add: free_writes)
  qed
qed

lemma Send_control_block:
  assumes "has_control_file i" "writes l = []"
  shows "Send_control env True i l = Some (0, i, put_link (block_text (control_file_of i)) l)"
proof -
  from assms(1) obtain nm cf where n: "Find_str_value i XXCFTRANSFERNAME = Some nm" "Find_str_value i CF_OUT_IMAGE = Some cf"
    "wire_name nm" "int (length cf) \<le> INT_MAX"
    by (auto simp: has_control_file_def split: option.splits)
  then show ?thesis using assms(2)
    by (simp add: Send_control_def Let_def control_header_text [OF n(3,4)] free_writes block_text_def control_file_of_def)
qed

lemma Send_data_files_block:
  assumes "list_all (sendable env) ds" "sd_filter env = None" "writes l = []" "Send_data_files env True ds i l = Some (0, i1, l1)"
  shows "i1 = i \<and> l1 = put_link (concat (map (\<lambda>d. block_text (data_file_of env d)) ds)) l \<and> list_all proper_file (map (data_file_of env) ds)"
  using assms
proof (induction ds arbitrary: l)
  case (Cons d ds)
  from Cons.prems(1) obtain nm fname where nm: "Find_str_value d DFTRANSFERNAME = Some nm" "data_file_name d = Some fname" "fname \<noteq> ''-''"
    "wire_name nm"
    by (auto simp: sendable_def split: option.splits)
  with Cons.prems(4) obtain f n where f: "sd_open env fname = Some (f, n)" "n \<noteq> 0"
    by (auto simp: JFAILNORETRY_def JABORT_def Let_def split: option.splits if_splits)
  with Cons.prems(1) nm have w: "whole f" "n = int (length (flat f))" "length (flat f) < 10 ^ 18"
    by (auto simp: sendable_def)
  have b: "block_copy 0 n f (put_link (header DATA_FILE (length (flat f)) nm @ [LF]) l)
      = (Some n, put_link (flat f) (put_link (header DATA_FILE (length (flat f)) nm @ [LF]) l))"
    by (rule block_copy_free) (use w Cons.prems(3) in auto)
  have s: "send_data env True ident (Some nm) last_one n False f i l = (0, i, put_link (block_text (data_file_of env d)) l)" for ident last_one
    using b w(2) Cons.prems(2,3) data_header_text [OF nm(4) w(3)]
    by (simp add: send_data_def free_writes block_text_def data_file_of_def nm f Let_def)
  have "proper_file (data_file_of env d)"
    using w(2,3) f nm by (auto simp: proper_file_def data_file_of_def)
  moreover have "Send_data_files env True ds i (put_link (block_text (data_file_of env d)) l) = Some (0, i1, l1)"
    using Cons.prems(4) nm f s by (simp add: Let_def)
  ultimately show ?case using Cons.IH [of "put_link (block_text (data_file_of env d)) l"] Cons.prems(1-3) by simp
qed simp

lemma Send_normal_block:
  assumes "job_sendable env files i" "writes l = []" "Send_normal env True files i l = Some (0, i1, l1)"
  shows "i1 = i \<and> l1 = put_link (concat (map block_text (control_file_of i # map (data_file_of env) files))) l
    \<and> list_all proper_file (control_file_of i # map (data_file_of env) files)"
proof -
  from assms(1) have a: "list_all (sendable env) files" "has_control_file i" "sd_filter env = None"
    by (auto simp: job_sendable_def)
  have cf: "proper_file (control_file_of i)" using a(2)
    by (auto simp: has_control_file_def proper_file_def control_file_of_def INT_MAX_def split: option.splits)
  have "Send_data_files env True files i (put_link (block_text (control_file_of i)) l) = Some (0, i1, l1)"
    using assms(3) Send_control_block [OF a(2) assms(2)] by (simp add: Send_normal_def Let_def)
  from Send_data_files_block [OF a(1,3) _ this] assms(2) cf show ?thesis by (simp add: comp_def)
qed

subsection \<open>The block is read as it was written\<close>

lemma read_line_hit:
  "LF \<notin> set line \<Longrightarrow> length line < n \<Longrightarrow> read_line n acc (line @ LF # rest) = Some (rev acc @ line, rest)"
proof (induction line arbitrary: n acc)
  case Nil
  then show ?case by (cases n) auto
next
  case (Cons c line)
  then show ?case by (cases n) auto
qed

lemma Split_two:
  assumes "\<forall>c\<in>set a. c \<notin> set Whitespace" "\<forall>c\<in>set b. c \<notin> set Whitespace" "a \<noteq> []" "b \<noteq> []"
  shows "Split [] (a @ CHR '' '' # b) Whitespace False None False NUL False None = [a, b]"
proof -
  have h: "split_scan Whitespace None prev (s @ CHR '' '' # r) = (s, CHR '' '' # r)" if "\<forall>c\<in>set s. c \<notin> set Whitespace" for prev s r
    using that by (induction s arbitrary: prev) (auto simp: opt_str_def)
  have e: "split_scan Whitespace None prev s = (s, [])" if "\<forall>c\<in>set s. c \<notin> set Whitespace" for prev s
    using that by (induction s arbitrary: prev) (auto simp: opt_str_def)
  show ?thesis using h [OF assms(1)] e [OF assms(2)] assms(3,4)
    by (simp add: Split.simps [of _ "a @ CHR '' '' # b"] Split.simps [of _ b] Add_line_list_def)
qed

definition store_file :: "cstr \<Rightarrow> wire_file \<Rightarrow> proto_state \<Rightarrow> proto_state" where
  "store_file temp x st =
     (case x of (kind, nm, d) \<Rightarrow>
        (let s = upd_disk (\<lambda>e. e(temp := Some d)) (st\<lparr>ps_size := ps_size st + int (length d), ps_temps := ps_temps st @ [temp]\<rparr>)
         in s\<lparr>ps_files := Set_str_value (ps_files s) nm (Some temp)\<rparr>))"

fun store_files :: "(nat \<Rightarrow> cstr) \<Rightarrow> nat \<Rightarrow> wire_file list \<Rightarrow> proto_state \<Rightarrow> proto_state" where
  "store_files temps k [] st = st"
| "store_files temps k (x # xs) st = store_files temps (k + 1) xs (store_file (temps k) x st)"

definition small_file :: "wire_file \<Rightarrow> bool" where
  "small_file x \<longleftrightarrow> proper_file x \<and> (case x of (kind, nm, d) \<Rightarrow> int (length d) \<le> INT_MAX)"

lemma block_header:
  assumes "small_file (kind, nm, d)"
  shows "Read_one_line (block_text (kind, nm, d) @ rest) = Some (header kind (length d) nm, d @ rest)"
    "Split [] (Clean_meta safe (tl (header kind (length d) nm))) Whitespace False None False NUL False None = [dec_text (int (length d)), nm]"
    "to_int (fst (strtol (dec_text (int (length d))) 10)) = int (length d)"
    "header kind (length d) nm \<noteq> []" "ccode (hd (header kind (length d) nm)) = kind"
proof -
  have a: "kind = CONTROL_FILE \<or> kind = DATA_FILE" "wire_name nm" "length d < 10 ^ 18" "int (length d) \<le> INT_MAX"
    using assms by (auto simp: small_file_def proper_file_def)
  note h = header_chars [OF a(1-3)]
  have "length (header kind (length d) nm) < LINEBUFFER - 1"
    using length_dec_size [OF a(3)] a(2) by (simp add: header_def wire_name_def LINEBUFFER_def)
  from read_line_hit [OF h(1) this] show "Read_one_line (block_text (kind, nm, d) @ rest) = Some (header kind (length d) nm, d @ rest)"
    by (simp add: Read_one_line_def block_text_def)
  have "dec_text (int (length d)) \<noteq> []" by (simp add: dec_text_def nat_digits_nonempty)
  moreover have "\<forall>c\<in>set (dec_text (int (length d))). c \<notin> set Whitespace" using dec_text_plain by (auto simp: plain_char_def)
  moreover have "\<forall>c\<in>set nm. c \<notin> set Whitespace" using wire_name_plain [OF a(2)] by (auto simp: plain_char_def)
  ultimately show "Split [] (Clean_meta safe (tl (header kind (length d) nm))) Whitespace False None False NUL False None = [dec_text (int (length d)), nm]"
    using Split_two a(2) by (simp add: h(5,6) wire_name_def)
  show "to_int (fst (strtol (dec_text (int (length d))) 10)) = int (length d)"
    using a(4) by (simp add: strtol_dec_text clamp_long_def LONG_MAX_def LONG_MIN_def INT_MAX_def to_int_id INT_MIN_def)
  show "header kind (length d) nm \<noteq> []" by (rule h(4))
  show "ccode (hd (header kind (length d) nm)) = kind"
    using a(1) by (auto simp: header_def CONTROL_FILE_def DATA_FILE_def ccode_def)
qed

lemma scan_data:
  assumes "small_file (DATA_FILE, nm, d)" "Max_job_size p \<le> 0" "\<not> ps_discarding st"
  shows "scan_loop p h temps k (block_text (DATA_FILE, nm, d) @ rest) st msg
    = scan_loop p h temps (k + 1) rest (store_file (temps k) (DATA_FILE, nm, d) st) msg"
  using assms(2,3) block_header [OF assms(1)]
  by (subst scan_loop.simps)
    (simp add: block_section_def too_large_def Let_def store_file_def DATA_FILE_def CONTROL_FILE_def)

lemma scan_data_files:
  assumes "list_all (\<lambda>x. small_file x \<and> fst x = DATA_FILE) xs" "Max_job_size p \<le> 0" "\<not> ps_discarding st"
  shows "scan_loop p h temps k (concat (map block_text xs)) st msg = Some (More (store_files temps k xs st) msg)"
  using assms(1,3)
proof (induction xs arbitrary: k st)
  case Nil
  then show ?case by (subst scan_loop.simps) (simp add: Read_one_line_def LINEBUFFER_def eval_nat_numeral)
next
  case (Cons x xs)
  obtain kind nm d where x: "x = (kind, nm, d)" by (cases x)
  have "ps_discarding (store_file (temps k) x st) = ps_discarding st" by (simp add: store_file_def x Let_def)
  with Cons.prems have "\<not> ps_discarding (store_file (temps k) x st)" "small_file (DATA_FILE, nm, d)" "x = (DATA_FILE, nm, d)"
    "list_all (\<lambda>x. small_file x \<and> fst x = DATA_FILE) xs"
    by (auto simp: x)
  from Cons.IH [OF this(4,1), of "k + 1"] scan_data [OF this(2) assms(2) Cons.prems(2), of h temps k "concat (map block_text xs)" msg] this(3)
  show ?case by simp
qed

text \<open>The state in which the ticket of the job is made, when its control file has been read.\<close>

definition ticket_start :: "cstr \<Rightarrow> cstr \<Rightarrow> proto_state \<Rightarrow> proto_state" where
  "ticket_start temp cf st =
     upd_job (\<lambda>j. (Free_job j)\<lparr>info := Set_str_value [] OPENNAME (Some temp)\<rparr>)
       (upd_disk (\<lambda>e. e(temp := Some cf)) (st\<lparr>ps_size := ps_size st + int (length cf), ps_temps := ps_temps st @ [temp]\<rparr>))"

text \<open>The ticket is made, or the block ends with the error.\<close>

definition with_ticket :: "proto_env \<Rightarrow> cstr \<Rightarrow> proto_state \<Rightarrow> (proto_state \<Rightarrow> block_step option) \<Rightarrow> block_step option" where
  "with_ticket p nm st f =
     (case Setup_temporary_job_ticket_file (p_rcv p) (Some nm) True None (ps_rcv st) of
        None \<Rightarrow> None
      | Some (r, Some e) \<Rightarrow> Some (Ended 1 (st\<lparr>ps_rcv := r\<rparr>) e)
      | Some (r, None) \<Rightarrow> f (st\<lparr>ps_rcv := r\<rparr>))"

lemma scan_control:
  assumes "small_file (CONTROL_FILE, nm, cf)" "Max_job_size p \<le> 0" "\<not> ps_discarding st" "info (ps_job st) = []" "ps_files st = []"
  shows "scan_loop p h temps k (block_text (CONTROL_FILE, nm, cf) @ rest) st msg
    = with_ticket p nm (ticket_start (temps k) cf st) (\<lambda>st1. scan_loop p h temps (k + 1) rest st1 msg)"
  using assms(2-5) block_header [OF assms(1)]
  by (subst scan_loop.simps)
    (simp add: block_section_def block_control_def too_large_def Let_def ticket_start_def with_ticket_def
      DATA_FILE_def CONTROL_FILE_def split: option.split)

text \<open>
  C17: what \<open>Send_block\<close> sends is what \<open>Scan_block_file\<close> takes apart: a successful sender has written the
  announcement with the size of the block, the block and the end marker, and a receiver whose ticket can be made
  finds the control file and then each data file, with its name and its bytes.
\<close>

theorem block_arrives:
  assumes "job_sendable env files i" "sd_temp_writes env = []"
    and "list_all small_file (control_file_of i # map (data_file_of env) files)"
    and "Send_block env files i l = Some (0, i1, l1)"
    and "Max_job_size p \<le> 0" "\<not> ps_discarding st" "info (ps_job st) = []" "ps_files st = []"
    and "control_file_of i = (CONTROL_FILE, nm, cf)"
  shows "\<exists>image. sent l1 = sent l @ block_line env (int (length image)) @ image @ [NUL]
    \<and> scan_loop p h temps 0 image st []
      = with_ticket p nm (ticket_start (temps 0) cf st) (\<lambda>st1. Some (More (store_files temps 1 (map (data_file_of env) files) st1) []))"
proof -
  define xs where "xs = map (data_file_of env) files"
  let ?image = "concat (map block_text (control_file_of i # xs))"
  have env: "env\<lparr>sd_filter := None\<rparr> = env" using assms(1) by (cases env) (simp add: job_sendable_def)
  obtain st0 i0 t where n: "Send_normal env True files i (temp_link env) = Some (st0, i0, t)" "st0 = 0"
    using assms(4) by (auto simp: Send_block_def env Let_def split: option.splits if_splits)
  with Send_normal_block [OF assms(1), of "temp_link env" i0 t, folded xs_def] assms(2) have i0: "i0 = i" "sent t = ?image"
    by (simp_all add: temp_link_def put_link_def)
  obtain s1 a1 l2 where e1: "exchange (block_line env (int (length ?image))) l = (s1, a1, l2)" by (metis prod_cases3)
  obtain s2 f2 l3 where c: "Link_copy (file_pieces ?image) (int (length ?image)) l2 = (s2, f2, l3)" by (metis prod_cases3)
  obtain s3 a3 l4 where e2: "exchange [NUL] l3 = (s3, a3, l4)" by (metis prod_cases3)
  have z: "s1 = 0" "s2 = 0" "s3 = 0" "l1 = l4"
    using assms(4) n i0 e1 c e2 by (auto simp: Send_block_def env Let_def split: if_splits)
  have ne: "?image \<noteq> []" by (simp add: assms(9) block_text_def)
  then have "whole (file_pieces ?image)" "flat (file_pieces ?image) = ?image" by (simp_all add: file_pieces_def)
  from Link_copy_sends [OF this ne c [unfolded z]] exchange_ok e1 e2 z
  have "sent l1 = sent l @ block_line env (int (length ?image)) @ ?image @ [NUL]" by simp
  moreover have "scan_loop p h temps 0 ?image st []
      = with_ticket p nm (ticket_start (temps 0) cf st) (\<lambda>st1. Some (More (store_files temps 1 xs st1) []))"
  proof -
    have l: "list_all (\<lambda>x. small_file x \<and> fst x = DATA_FILE) xs" using assms(3) by (auto simp: list_all_iff data_file_of_def xs_def)
    have d: "\<not> ps_discarding ((ticket_start (temps 0) cf st)\<lparr>ps_rcv := r\<rparr>)" for r using assms(6) by (simp add: ticket_start_def)
    have "scan_loop p h temps 0 (block_text (CONTROL_FILE, nm, cf) @ concat (map block_text xs)) st []
        = with_ticket p nm (ticket_start (temps 0) cf st) (\<lambda>st1. scan_loop p h temps (0 + 1) (concat (map block_text xs)) st1 [])"
      by (rule scan_control [where temps = temps and k = 0]) (use assms in auto)
    with scan_data_files [OF l assms(5) d, where temps = temps and k = 1] show ?thesis
      by (simp add: assms(9) with_ticket_def split: option.split)
  qed
  ultimately show ?thesis unfolding xs_def by blast
qed

lemma demo_filter_none: "demo_send\<lparr>sd_filter := None\<rparr> = demo_send"
  by (simp add: demo_send_def)

lemma demo_image:
  "\<exists>t. Send_normal demo_send True demo_send_files demo_send_info (temp_link demo_send) = Some (0, demo_send_info, t)"
proof -
  have w: "writes (temp_link demo_send) = []" by (simp add: temp_link_def demo_send_def)
  have c: "has_control_file demo_send_info" using demo_sendable by (simp add: job_sendable_def)
  have b: "block_copy 0 5 [Bytes ''he'', Bytes ''llo''] l = (Some 5, put_link ''hello'' l)" if "writes l = []" for l
    using block_copy_free [of "[Bytes ''he'', Bytes ''llo'']" l 5 0] that by simp
  show ?thesis
    using w by (simp add: Send_normal_def Send_control_block [OF c w] demo_send_files_def demo_headers send_data_def Let_def free_writes b)
qed

lemma demo_blocked: "\<exists>l. Send_block demo_send demo_send_files demo_send_info demo_link = Some (0, demo_send_info, l)"
proof -
  obtain t where t: "Send_normal demo_send True demo_send_files demo_send_info (temp_link demo_send) = Some (0, demo_send_info, t)"
    using demo_image by blast
  have w: "writes (temp_link demo_send) = []" by (simp add: temp_link_def demo_send_def)
  from Send_normal_block [OF demo_sendable w t] have ne: "sent t \<noteq> []"
    by (simp add: control_file_of_def block_text_def header_def)
  define l where "l = \<lparr>sock = 3, sent = block_line demo_send (int (length (sent t))), writes = [], reads = [Bytes [NUL], Bytes [NUL, NUL, NUL]]\<rparr>"
  have e: "exchange (block_line demo_send (int (length (sent t)))) demo_link = (0, 0, l)"
    by (simp add: exchange_def Link_send_def demo_link_def write_link_def read_link_def Let_def l_def)
  from Link_copy_free [of "file_pieces (sent t)" l] ne obtain f1 where
    c: "Link_copy (file_pieces (sent t)) (int (length (sent t))) l = (0, f1, l\<lparr>sent := sent l @ sent t\<rparr>)"
    by (auto simp: file_pieces_def l_def)
  show ?thesis
    by (simp add: Send_block_def demo_filter_none t e c) (simp add: exchange_def Link_send_def write_link_def read_link_def Let_def l_def)
qed

lemma block_arrives_witness:
  "\<exists>l1 image. Send_block demo_send demo_send_files demo_send_info demo_link = Some (0, demo_send_info, l1)
    \<and> sent l1 = block_line demo_send (int (length image)) @ image @ [NUL]
    \<and> scan_loop demo_proto None (\<lambda>_. ''t'') 0 image (proto_start (\<lambda>_. None)) []
      = with_ticket demo_proto ''cfA001h'' (ticket_start ''t'' ''Hh'' (proto_start (\<lambda>_. None)))
          (\<lambda>st1. Some (More (store_file ''t'' (3, ''dfA001h'', ''hello'') st1) []))"
proof -
  obtain l1 where l1: "Send_block demo_send demo_send_files demo_send_info demo_link = Some (0, demo_send_info, l1)"
    using demo_blocked by blast
  have f: "control_file_of demo_send_info = (CONTROL_FILE, ''cfA001h'', ''Hh'')"
    "map (data_file_of demo_send) demo_send_files = [(3, ''dfA001h'', ''hello'')]"
    by code_simp+
  have "list_all small_file (control_file_of demo_send_info # map (data_file_of demo_send) demo_send_files)"
    by (simp add: f small_file_def proper_file_def INT_MAX_def DATA_FILE_def)
  moreover have "sd_temp_writes demo_send = []" "Max_job_size demo_proto \<le> 0" "sent demo_link = []"
    "\<not> ps_discarding (proto_start (\<lambda>_. None))" "ps_files (proto_start (\<lambda>_. None)) = []"
    "info (ps_job (proto_start (\<lambda>_. None))) = []"
    by (simp_all add: demo_send_def demo_proto_def demo_link_def proto_start_def Init_job_def)
  ultimately show ?thesis
    using block_arrives [OF demo_sendable _ _ l1, of demo_proto "proto_start (\<lambda>_. None)" "''cfA001h''" "''Hh''" None "\<lambda>_. ''t''"] l1 f
    by auto
qed

text \<open>In the block the standard input is a file without bytes.\<close>

lemma block_drops_stdin:
  assumes "Find_str_value d DFTRANSFERNAME = Some nm" "data_file_name d = Some ''-''" "wire_name nm" "writes l = []"
  shows "Send_data_files env True [d] i l = Some (0, i, l\<lparr>sent := sent l @ header DATA_FILE 0 nm @ [LF]\<rparr>)"
  using assms data_header_text [of nm 0]
  by (simp add: send_data_def write_link_def block_copy.simps Let_def)

text \<open>A call of \<open>write\<close> that takes only a part of the buffer is not noticed.\<close>

lemma short_write_unnoticed:
  "block_copy 0 5 [Bytes ''hello''] \<lparr>sock = 1, sent = [], writes = [Some 1], reads = []\<rparr>
     = (Some 5, \<lparr>sock = 1, sent = ''h'', writes = [], reads = []\<rparr>)"
  by (simp add: block_copy.simps SMALLBUFFER_def raw_write_def)

subsection \<open>Retries\<close>

text \<open>
  With the pauses of the default configuration, 10 seconds at first and 60 at most, the 29th failure in a row
  leads to a product that is not an \<open>int\<close>; before it, no pause is longer than the limit.
\<close>

lemma retry_delay_bounded:
  "retry_delay interval maximum k = Some d \<Longrightarrow> 0 < maximum \<Longrightarrow> 0 \<le> d \<and> d \<le> maximum"
  by (auto simp: retry_delay_def Let_def split: if_splits)

lemma retries_overflow:
  "retry_delay 10 60 28 = Some 60" "retry_delay 10 60 29 = None"
  by (simp_all add: retry_delay_def INT_MAX_def)

end
