(* ===== verification/MD5.thy ===== *)
theory MD5
  imports Prelude "HOL-Library.Word"
begin

section \<open>The message digest MD5 (md5.c)\<close>

text \<open>
  The digest of \<open>src/src/common/md5.c\<close>, over bytes and 32-bit words: \<open>MD5Init\<close>, \<open>MD5Update\<close>, which takes the
  message in pieces of any size, and \<open>MD5Final\<close>. The context has the chaining values, the number of bits in two
  words, and a block of 64 bytes that is not full yet. The last theorem says that the pieces do not matter and that the
  digest is that of RFC 1321, which is stated as a loop over the 64 steps of a block.
\<close>

unbundle bit_operations_syntax

type_synonym w32 = "32 word"
type_synonym byte = "8 word"
type_synonym md5_state = "w32 \<times> w32 \<times> w32 \<times> w32"

record md5_context =
  m_buf :: md5_state
  m_bits :: "w32 \<times> w32"
  m_in :: "byte list"

subsection \<open>One block\<close>

definition F1 :: "w32 \<Rightarrow> w32 \<Rightarrow> w32 \<Rightarrow> w32" where "F1 x y z = (z XOR (x AND (y XOR z)))"
definition F2 :: "w32 \<Rightarrow> w32 \<Rightarrow> w32 \<Rightarrow> w32" where "F2 x y z = F1 z x y"
definition F3 :: "w32 \<Rightarrow> w32 \<Rightarrow> w32 \<Rightarrow> w32" where "F3 x y z = (x XOR y XOR z)"
definition F4 :: "w32 \<Rightarrow> w32 \<Rightarrow> w32 \<Rightarrow> w32" where "F4 x y z = (y XOR (x OR NOT z))"

definition MD5STEP :: "(w32 \<Rightarrow> w32 \<Rightarrow> w32 \<Rightarrow> w32) \<Rightarrow> w32 \<Rightarrow> w32 \<Rightarrow> w32 \<Rightarrow> w32 \<Rightarrow> w32 \<Rightarrow> nat \<Rightarrow> w32" where
  "MD5STEP f w x y z data s =
     (let w1 = w + (f x y z + data); w2 = push_bit s w1 OR drop_bit (32 - s) w1 in w2 + x)"

text \<open>The sixteen steps of each of the four rounds.\<close>

definition MD5_roundA :: "w32 list \<Rightarrow> md5_state \<Rightarrow> md5_state" where
  "MD5_roundA inp st =
     (case st of (a, b, c, d) \<Rightarrow>
        let a = MD5STEP F1 a b c d (inp ! 0 + 0xd76aa478) 7;
            d = MD5STEP F1 d a b c (inp ! 1 + 0xe8c7b756) 12;
            c = MD5STEP F1 c d a b (inp ! 2 + 0x242070db) 17;
            b = MD5STEP F1 b c d a (inp ! 3 + 0xc1bdceee) 22;
            a = MD5STEP F1 a b c d (inp ! 4 + 0xf57c0faf) 7;
            d = MD5STEP F1 d a b c (inp ! 5 + 0x4787c62a) 12;
            c = MD5STEP F1 c d a b (inp ! 6 + 0xa8304613) 17;
            b = MD5STEP F1 b c d a (inp ! 7 + 0xfd469501) 22;
            a = MD5STEP F1 a b c d (inp ! 8 + 0x698098d8) 7;
            d = MD5STEP F1 d a b c (inp ! 9 + 0x8b44f7af) 12;
            c = MD5STEP F1 c d a b (inp ! 10 + 0xffff5bb1) 17;
            b = MD5STEP F1 b c d a (inp ! 11 + 0x895cd7be) 22;
            a = MD5STEP F1 a b c d (inp ! 12 + 0x6b901122) 7;
            d = MD5STEP F1 d a b c (inp ! 13 + 0xfd987193) 12;
            c = MD5STEP F1 c d a b (inp ! 14 + 0xa679438e) 17;
            b = MD5STEP F1 b c d a (inp ! 15 + 0x49b40821) 22
        in (a, b, c, d))"

definition MD5_roundB :: "w32 list \<Rightarrow> md5_state \<Rightarrow> md5_state" where
  "MD5_roundB inp st =
     (case st of (a, b, c, d) \<Rightarrow>
        let a = MD5STEP F2 a b c d (inp ! 1 + 0xf61e2562) 5;
            d = MD5STEP F2 d a b c (inp ! 6 + 0xc040b340) 9;
            c = MD5STEP F2 c d a b (inp ! 11 + 0x265e5a51) 14;
            b = MD5STEP F2 b c d a (inp ! 0 + 0xe9b6c7aa) 20;
            a = MD5STEP F2 a b c d (inp ! 5 + 0xd62f105d) 5;
            d = MD5STEP F2 d a b c (inp ! 10 + 0x02441453) 9;
            c = MD5STEP F2 c d a b (inp ! 15 + 0xd8a1e681) 14;
            b = MD5STEP F2 b c d a (inp ! 4 + 0xe7d3fbc8) 20;
            a = MD5STEP F2 a b c d (inp ! 9 + 0x21e1cde6) 5;
            d = MD5STEP F2 d a b c (inp ! 14 + 0xc33707d6) 9;
            c = MD5STEP F2 c d a b (inp ! 3 + 0xf4d50d87) 14;
            b = MD5STEP F2 b c d a (inp ! 8 + 0x455a14ed) 20;
            a = MD5STEP F2 a b c d (inp ! 13 + 0xa9e3e905) 5;
            d = MD5STEP F2 d a b c (inp ! 2 + 0xfcefa3f8) 9;
            c = MD5STEP F2 c d a b (inp ! 7 + 0x676f02d9) 14;
            b = MD5STEP F2 b c d a (inp ! 12 + 0x8d2a4c8a) 20
        in (a, b, c, d))"

definition MD5_roundC :: "w32 list \<Rightarrow> md5_state \<Rightarrow> md5_state" where
  "MD5_roundC inp st =
     (case st of (a, b, c, d) \<Rightarrow>
        let a = MD5STEP F3 a b c d (inp ! 5 + 0xfffa3942) 4;
            d = MD5STEP F3 d a b c (inp ! 8 + 0x8771f681) 11;
            c = MD5STEP F3 c d a b (inp ! 11 + 0x6d9d6122) 16;
            b = MD5STEP F3 b c d a (inp ! 14 + 0xfde5380c) 23;
            a = MD5STEP F3 a b c d (inp ! 1 + 0xa4beea44) 4;
            d = MD5STEP F3 d a b c (inp ! 4 + 0x4bdecfa9) 11;
            c = MD5STEP F3 c d a b (inp ! 7 + 0xf6bb4b60) 16;
            b = MD5STEP F3 b c d a (inp ! 10 + 0xbebfbc70) 23;
            a = MD5STEP F3 a b c d (inp ! 13 + 0x289b7ec6) 4;
            d = MD5STEP F3 d a b c (inp ! 0 + 0xeaa127fa) 11;
            c = MD5STEP F3 c d a b (inp ! 3 + 0xd4ef3085) 16;
            b = MD5STEP F3 b c d a (inp ! 6 + 0x04881d05) 23;
            a = MD5STEP F3 a b c d (inp ! 9 + 0xd9d4d039) 4;
            d = MD5STEP F3 d a b c (inp ! 12 + 0xe6db99e5) 11;
            c = MD5STEP F3 c d a b (inp ! 15 + 0x1fa27cf8) 16;
            b = MD5STEP F3 b c d a (inp ! 2 + 0xc4ac5665) 23
        in (a, b, c, d))"

definition MD5_roundD :: "w32 list \<Rightarrow> md5_state \<Rightarrow> md5_state" where
  "MD5_roundD inp st =
     (case st of (a, b, c, d) \<Rightarrow>
        let a = MD5STEP F4 a b c d (inp ! 0 + 0xf4292244) 6;
            d = MD5STEP F4 d a b c (inp ! 7 + 0x432aff97) 10;
            c = MD5STEP F4 c d a b (inp ! 14 + 0xab9423a7) 15;
            b = MD5STEP F4 b c d a (inp ! 5 + 0xfc93a039) 21;
            a = MD5STEP F4 a b c d (inp ! 12 + 0x655b59c3) 6;
            d = MD5STEP F4 d a b c (inp ! 3 + 0x8f0ccc92) 10;
            c = MD5STEP F4 c d a b (inp ! 10 + 0xffeff47d) 15;
            b = MD5STEP F4 b c d a (inp ! 1 + 0x85845dd1) 21;
            a = MD5STEP F4 a b c d (inp ! 8 + 0x6fa87e4f) 6;
            d = MD5STEP F4 d a b c (inp ! 15 + 0xfe2ce6e0) 10;
            c = MD5STEP F4 c d a b (inp ! 6 + 0xa3014314) 15;
            b = MD5STEP F4 b c d a (inp ! 13 + 0x4e0811a1) 21;
            a = MD5STEP F4 a b c d (inp ! 4 + 0xf7537e82) 6;
            d = MD5STEP F4 d a b c (inp ! 11 + 0xbd3af235) 10;
            c = MD5STEP F4 c d a b (inp ! 2 + 0x2ad7d2bb) 15;
            b = MD5STEP F4 b c d a (inp ! 9 + 0xeb86d391) 21
        in (a, b, c, d))"


definition MD5Transform :: "md5_state \<Rightarrow> w32 list \<Rightarrow> md5_state" where
  "MD5Transform buf inp =
     (case (buf, MD5_roundD inp (MD5_roundC inp (MD5_roundB inp (MD5_roundA inp buf)))) of
        ((a0, b0, c0, d0), (a, b, c, d)) \<Rightarrow> (a0 + a, b0 + b, c0 + c, d0 + d))"

text \<open>The bytes of a block as words, with the lowest byte first; on a big endian machine this is \<open>byteReverse\<close>.\<close>

fun byteReverse :: "byte list \<Rightarrow> w32 list" where
  "byteReverse (b0 # b1 # b2 # b3 # bs) =
     ((push_bit 16 (push_bit 8 (ucast b3) OR ucast b2)) OR (push_bit 8 (ucast b1) OR ucast b0)) # byteReverse bs"
| "byteReverse _ = []"

subsection \<open>The whole message\<close>

definition MD5Init :: md5_context where
  "MD5Init = \<lparr>m_buf = (0x67452301, 0xefcdab89, 0x98badcfe, 0x10325476), m_bits = (0, 0), m_in = replicate 64 0\<rparr>"

definition memcpy_at :: "nat \<Rightarrow> byte list \<Rightarrow> byte list \<Rightarrow> byte list" where
  "memcpy_at t buf dst = take t dst @ buf @ drop (t + length buf) dst"

definition transform_in :: "md5_context \<Rightarrow> md5_context" where
  "transform_in ctx = ctx\<lparr>m_buf := MD5Transform (m_buf ctx) (byteReverse (m_in ctx))\<rparr>"

definition add_bits :: "w32 \<times> w32 \<Rightarrow> w32 \<Rightarrow> w32 \<times> w32" where
  "add_bits bits len =
     (case bits of (t, hi) \<Rightarrow>
        let lo = t + push_bit 3 len in (lo, (if lo < t then hi + 1 else hi) + drop_bit 29 len))"

definition bytes_in :: "w32 \<times> w32 \<Rightarrow> nat" where
  "bytes_in bits = unat (drop_bit 3 (fst bits) AND 0x3f)"

function update_blocks :: "md5_context \<Rightarrow> byte list \<Rightarrow> md5_context" where
  "update_blocks ctx buf =
     (if 64 \<le> length buf then update_blocks (transform_in (ctx\<lparr>m_in := take 64 buf\<rparr>)) (drop 64 buf)
      else ctx\<lparr>m_in := memcpy_at 0 buf (m_in ctx)\<rparr>)"
  by pat_completeness auto
termination
  by (relation "measure (\<lambda>(c, b). length b)") auto

declare update_blocks.simps [simp del]

definition MD5Update :: "md5_context \<Rightarrow> byte list \<Rightarrow> md5_context" where
  "MD5Update ctx0 buf =
     (let t = bytes_in (m_bits ctx0); ctx = ctx0\<lparr>m_bits := add_bits (m_bits ctx0) (word_of_nat (length buf))\<rparr> in
      if t \<noteq> 0 then
        (if length buf < 64 - t then ctx\<lparr>m_in := memcpy_at t buf (m_in ctx)\<rparr>
         else update_blocks (transform_in (ctx\<lparr>m_in := memcpy_at t (take (64 - t) buf) (m_in ctx)\<rparr>)) (drop (64 - t) buf))
      else update_blocks ctx buf)"

definition word_bytes :: "w32 \<Rightarrow> byte list" where
  "word_bytes w = [ucast w, ucast (drop_bit 8 w), ucast (drop_bit 16 w), ucast (drop_bit 24 w)]"

definition digest_bytes :: "md5_state \<Rightarrow> byte list" where
  "digest_bytes st = (case st of (a, b, c, d) \<Rightarrow> word_bytes a @ word_bytes b @ word_bytes c @ word_bytes d)"

definition MD5Final :: "md5_context \<Rightarrow> byte list \<times> md5_context" where
  "MD5Final ctx =
     (let n = bytes_in (m_bits ctx); ctx1 = ctx\<lparr>m_in := memcpy_at n [0x80] (m_in ctx)\<rparr>; count = 64 - 1 - n;
          ctx2 =
            (if count < 8
             then (let c = transform_in (ctx1\<lparr>m_in := memcpy_at (n + 1) (replicate count 0) (m_in ctx1)\<rparr>)
                   in c\<lparr>m_in := memcpy_at 0 (replicate 56 0) (m_in c)\<rparr>)
             else ctx1\<lparr>m_in := memcpy_at (n + 1) (replicate (count - 8) 0) (m_in ctx1)\<rparr>)
      in (digest_bytes (MD5Transform (m_buf ctx2) (byteReverse (take 56 (m_in ctx2)) @ [fst (m_bits ctx2), snd (m_bits ctx2)])),
          \<lparr>m_buf = (0, 0, 0, 0), m_bits = (0, 0), m_in = replicate 64 0\<rparr>))"

subsection \<open>The digest of RFC 1321\<close>

definition md5_k :: "w32 list" where
  "md5_k =
     [0xd76aa478, 0xe8c7b756, 0x242070db, 0xc1bdceee, 0xf57c0faf, 0x4787c62a,
      0xa8304613, 0xfd469501, 0x698098d8, 0x8b44f7af, 0xffff5bb1, 0x895cd7be,
      0x6b901122, 0xfd987193, 0xa679438e, 0x49b40821, 0xf61e2562, 0xc040b340,
      0x265e5a51, 0xe9b6c7aa, 0xd62f105d, 0x02441453, 0xd8a1e681, 0xe7d3fbc8,
      0x21e1cde6, 0xc33707d6, 0xf4d50d87, 0x455a14ed, 0xa9e3e905, 0xfcefa3f8,
      0x676f02d9, 0x8d2a4c8a, 0xfffa3942, 0x8771f681, 0x6d9d6122, 0xfde5380c,
      0xa4beea44, 0x4bdecfa9, 0xf6bb4b60, 0xbebfbc70, 0x289b7ec6, 0xeaa127fa,
      0xd4ef3085, 0x04881d05, 0xd9d4d039, 0xe6db99e5, 0x1fa27cf8, 0xc4ac5665,
      0xf4292244, 0x432aff97, 0xab9423a7, 0xfc93a039, 0x655b59c3, 0x8f0ccc92,
      0xffeff47d, 0x85845dd1, 0x6fa87e4f, 0xfe2ce6e0, 0xa3014314, 0x4e0811a1,
      0xf7537e82, 0xbd3af235, 0x2ad7d2bb, 0xeb86d391]"

definition md5_s :: "nat \<Rightarrow> nat" where
  "md5_s i = [[7, 12, 17, 22], [5, 9, 14, 20], [4, 11, 16, 23], [6, 10, 15, 21]] ! (i div 16) ! (i mod 4)"

definition md5_f :: "nat \<Rightarrow> w32 \<Rightarrow> w32 \<Rightarrow> w32 \<Rightarrow> w32" where
  "md5_f i x y z =
     (if i < 16 then (x AND y) OR (NOT x AND z)
      else if i < 32 then (x AND z) OR (y AND NOT z)
      else if i < 48 then x XOR y XOR z
      else y XOR (x OR NOT z))"

definition md5_g :: "nat \<Rightarrow> nat" where
  "md5_g i = (if i < 16 then i else if i < 32 then (5 * i + 1) mod 16 else if i < 48 then (3 * i + 5) mod 16 else (7 * i) mod 16)"

definition md5_step :: "w32 list \<Rightarrow> nat \<Rightarrow> md5_state \<Rightarrow> md5_state" where
  "md5_step inp i st =
     (case st of (a, b, c, d) \<Rightarrow> (d, b + word_rotl (md5_s i) (a + md5_f i b c d + inp ! md5_g i + md5_k ! i), b, c))"

definition md5_compress :: "md5_state \<Rightarrow> w32 list \<Rightarrow> md5_state" where
  "md5_compress st inp =
     (case (st, fold (md5_step inp) [0..<64] st) of
        ((a0, b0, c0, d0), (a, b, c, d)) \<Rightarrow> (a0 + a, b0 + b, c0 + c, d0 + d))"

function md5_blocks :: "w32 list \<Rightarrow> md5_state \<Rightarrow> md5_state" where
  "md5_blocks ws st = (if length ws < 16 then st else md5_blocks (drop 16 ws) (md5_compress st (take 16 ws)))"
  by pat_completeness auto
termination
  by (relation "measure (\<lambda>(ws, st). length ws)") auto

declare md5_blocks.simps [simp del]

text \<open>The message is filled with a bit 1, bits 0 up to 8 bytes before the end of a block, and the number of its bits.\<close>

definition md5_padding :: "nat \<Rightarrow> byte list" where
  "md5_padding n = 0x80 # replicate ((119 - n mod 64) mod 64) 0"

definition md5 :: "byte list \<Rightarrow> byte list" where
  "md5 m =
     digest_bytes (md5_blocks
       (byteReverse (m @ md5_padding (length m)) @ [word_of_nat (8 * length m), word_of_nat (8 * length m div 4294967296)])
       (0x67452301, 0xefcdab89, 0x98badcfe, 0x10325476))"

subsection \<open>The steps are those of the standard\<close>

lemma rotl_bit: "n < 32 \<Longrightarrow> s < 32 \<Longrightarrow> 32 - s = k \<Longrightarrow> bit (word_rotl s w) n = bit w ((n + k) mod 32)" for w :: w32
  by (simp add: bit_word_rotl_iff)

lemma rotl_shift: "0 < s \<Longrightarrow> s < 32 \<Longrightarrow> push_bit s w OR drop_bit (32 - s) w = word_rotl s w" for w :: w32
proof -
  assume s: "0 < s" "s < 32"
  define k where "k = 32 - s"
  have k: "k \<le> 32" "s = 32 - k" "32 - s = k" using s by (auto simp: k_def)
  have "bit (push_bit s w OR drop_bit k w) n = bit (word_rotl s w) n" if n: "n < 32" for n
  proof (cases "n < s")
    case True
    then have "(n + k) mod 32 = n + k" using k by simp
    with n True rotl_bit [OF n s(2) k(3), of w] show ?thesis by (simp add: bit_or_iff bit_push_bit_iff bit_drop_bit_eq add.commute)
  next
    case False
    then obtain j where j: "n = s + j" by (metis le_add_diff_inverse linorder_not_less)
    then have "(n + k) mod 32 = j" "32 \<le> k + n" using n k by auto
    moreover from this(2) have "\<not> bit w (k + n)" using bit_imp_le_length [of w "k + n"] by auto
    ultimately show ?thesis using n j rotl_bit [OF n s(2) k(3), of w] by (simp add: bit_or_iff bit_push_bit_iff bit_drop_bit_eq)
  qed
  then show "push_bit s w OR drop_bit (32 - s) w = word_rotl s w" unfolding k(3) by (intro bit_word_eqI) simp
qed

lemma md5_functions:
  "F1 x y z = (x AND y) OR (NOT x AND z)" "F2 x y z = (x AND z) OR (y AND NOT z)"
  by (rule bit_word_eqI, auto simp: F1_def F2_def bit_simps)+

text \<open>One step of the standard, with the names of the registers as the code turns them.\<close>

definition md5_op :: "nat \<Rightarrow> w32 list \<Rightarrow> w32 \<Rightarrow> w32 \<Rightarrow> w32 \<Rightarrow> w32 \<Rightarrow> w32" where
  "md5_op i inp a b c d = b + word_rotl (md5_s i) (a + md5_f i b c d + inp ! md5_g i + md5_k ! i)"

definition md5_quad :: "w32 list \<Rightarrow> nat \<Rightarrow> md5_state \<Rightarrow> md5_state" where
  "md5_quad inp i st =
     (case st of (a, b, c, d) \<Rightarrow>
        let a = md5_op i inp a b c d;
            d = md5_op (i + 1) inp d a b c;
            c = md5_op (i + 2) inp c d a b;
            b = md5_op (i + 3) inp b c d a
        in (a, b, c, d))"

lemma md5_step_op: "md5_step inp i (a, b, c, d) = (d, md5_op i inp a b c d, b, c)"
  by (simp add: md5_step_def md5_op_def)

lemma md5_quad_steps: "md5_quad inp i st = fold (md5_step inp) [i, i + 1, i + 2, i + 3] st"
  by (cases st) (simp add: md5_quad_def md5_step_op Let_def)

lemma md5_quads:
  "fold (md5_step inp) [i..<i + 16] st = md5_quad inp (i + 12) (md5_quad inp (i + 8) (md5_quad inp (i + 4) (md5_quad inp i st)))"
proof -
  have "[i..<i + 16] = [i, i + 1, i + 2, i + 3] @ [i + 4, i + 5, i + 6, i + 7] @ [i + 8, i + 9, i + 10, i + 11] @ [i + 12, i + 13, i + 14, i + 15]"
    by (simp add: upt_rec)
  then show ?thesis by (simp add: md5_quad_steps ac_simps)
qed

lemma md5_s_range: "0 < md5_s i \<and> md5_s i < 32" if "i < 64"
proof -
  have "i mod 4 = 0 \<or> i mod 4 = 1 \<or> i mod 4 = 2 \<or> i mod 4 = 3" by linarith
  moreover have "i div 16 = 0 \<or> i div 16 = 1 \<or> i div 16 = 2 \<or> i div 16 = 3" using that by linarith
  ultimately show ?thesis by (elim disjE) (simp_all add: md5_s_def)
qed

lemma md5_op_MD5STEP:
  "i < 64 \<Longrightarrow> (\<And>x y z. md5_f i x y z = f x y z) \<Longrightarrow> md5_op i inp a b c d = MD5STEP f a b c d (inp ! md5_g i + md5_k ! i) (md5_s i)"
  using md5_s_range [of i] by (simp add: MD5STEP_def md5_op_def rotl_shift Let_def ac_simps)

lemma md5_op_rounds:
  "i < 16 \<Longrightarrow> md5_op i inp a b c d = MD5STEP F1 a b c d (inp ! md5_g i + md5_k ! i) (md5_s i)"
  "\<not> i < 16 \<Longrightarrow> i < 32 \<Longrightarrow> md5_op i inp a b c d = MD5STEP F2 a b c d (inp ! md5_g i + md5_k ! i) (md5_s i)"
  "\<not> i < 32 \<Longrightarrow> i < 48 \<Longrightarrow> md5_op i inp a b c d = MD5STEP F3 a b c d (inp ! md5_g i + md5_k ! i) (md5_s i)"
  "\<not> i < 48 \<Longrightarrow> i < 64 \<Longrightarrow> md5_op i inp a b c d = MD5STEP F4 a b c d (inp ! md5_g i + md5_k ! i) (md5_s i)"
  by (rule md5_op_MD5STEP; simp add: md5_f_def md5_functions F3_def F4_def)+

lemma case_let: "(case (let x = v in g x) of (a, b, c, d) \<Rightarrow> h a b c d) = (let x = v in case g x of (a, b, c, d) \<Rightarrow> h a b c d)"
  by (simp add: Let_def)

lemma md5_op_A:
  "md5_op 0 inp a b c d = MD5STEP F1 a b c d (inp ! 0 + 0xd76aa478) 7"
  "md5_op 1 inp a b c d = MD5STEP F1 a b c d (inp ! 1 + 0xe8c7b756) 12"
  "md5_op 2 inp a b c d = MD5STEP F1 a b c d (inp ! 2 + 0x242070db) 17"
  "md5_op 3 inp a b c d = MD5STEP F1 a b c d (inp ! 3 + 0xc1bdceee) 22"
  "md5_op 4 inp a b c d = MD5STEP F1 a b c d (inp ! 4 + 0xf57c0faf) 7"
  "md5_op 5 inp a b c d = MD5STEP F1 a b c d (inp ! 5 + 0x4787c62a) 12"
  "md5_op 6 inp a b c d = MD5STEP F1 a b c d (inp ! 6 + 0xa8304613) 17"
  "md5_op 7 inp a b c d = MD5STEP F1 a b c d (inp ! 7 + 0xfd469501) 22"
  "md5_op 8 inp a b c d = MD5STEP F1 a b c d (inp ! 8 + 0x698098d8) 7"
  "md5_op 9 inp a b c d = MD5STEP F1 a b c d (inp ! 9 + 0x8b44f7af) 12"
  "md5_op 10 inp a b c d = MD5STEP F1 a b c d (inp ! 10 + 0xffff5bb1) 17"
  "md5_op 11 inp a b c d = MD5STEP F1 a b c d (inp ! 11 + 0x895cd7be) 22"
  "md5_op 12 inp a b c d = MD5STEP F1 a b c d (inp ! 12 + 0x6b901122) 7"
  "md5_op 13 inp a b c d = MD5STEP F1 a b c d (inp ! 13 + 0xfd987193) 12"
  "md5_op 14 inp a b c d = MD5STEP F1 a b c d (inp ! 14 + 0xa679438e) 17"
  "md5_op 15 inp a b c d = MD5STEP F1 a b c d (inp ! 15 + 0x49b40821) 22"
  by (simp_all add: md5_op_rounds md5_s_def md5_g_def md5_k_def)

lemma md5_op_B:
  "md5_op 16 inp a b c d = MD5STEP F2 a b c d (inp ! 1 + 0xf61e2562) 5"
  "md5_op 17 inp a b c d = MD5STEP F2 a b c d (inp ! 6 + 0xc040b340) 9"
  "md5_op 18 inp a b c d = MD5STEP F2 a b c d (inp ! 11 + 0x265e5a51) 14"
  "md5_op 19 inp a b c d = MD5STEP F2 a b c d (inp ! 0 + 0xe9b6c7aa) 20"
  "md5_op 20 inp a b c d = MD5STEP F2 a b c d (inp ! 5 + 0xd62f105d) 5"
  "md5_op 21 inp a b c d = MD5STEP F2 a b c d (inp ! 10 + 0x02441453) 9"
  "md5_op 22 inp a b c d = MD5STEP F2 a b c d (inp ! 15 + 0xd8a1e681) 14"
  "md5_op 23 inp a b c d = MD5STEP F2 a b c d (inp ! 4 + 0xe7d3fbc8) 20"
  "md5_op 24 inp a b c d = MD5STEP F2 a b c d (inp ! 9 + 0x21e1cde6) 5"
  "md5_op 25 inp a b c d = MD5STEP F2 a b c d (inp ! 14 + 0xc33707d6) 9"
  "md5_op 26 inp a b c d = MD5STEP F2 a b c d (inp ! 3 + 0xf4d50d87) 14"
  "md5_op 27 inp a b c d = MD5STEP F2 a b c d (inp ! 8 + 0x455a14ed) 20"
  "md5_op 28 inp a b c d = MD5STEP F2 a b c d (inp ! 13 + 0xa9e3e905) 5"
  "md5_op 29 inp a b c d = MD5STEP F2 a b c d (inp ! 2 + 0xfcefa3f8) 9"
  "md5_op 30 inp a b c d = MD5STEP F2 a b c d (inp ! 7 + 0x676f02d9) 14"
  "md5_op 31 inp a b c d = MD5STEP F2 a b c d (inp ! 12 + 0x8d2a4c8a) 20"
  by (simp_all add: md5_op_rounds md5_s_def md5_g_def md5_k_def)

lemma md5_op_C:
  "md5_op 32 inp a b c d = MD5STEP F3 a b c d (inp ! 5 + 0xfffa3942) 4"
  "md5_op 33 inp a b c d = MD5STEP F3 a b c d (inp ! 8 + 0x8771f681) 11"
  "md5_op 34 inp a b c d = MD5STEP F3 a b c d (inp ! 11 + 0x6d9d6122) 16"
  "md5_op 35 inp a b c d = MD5STEP F3 a b c d (inp ! 14 + 0xfde5380c) 23"
  "md5_op 36 inp a b c d = MD5STEP F3 a b c d (inp ! 1 + 0xa4beea44) 4"
  "md5_op 37 inp a b c d = MD5STEP F3 a b c d (inp ! 4 + 0x4bdecfa9) 11"
  "md5_op 38 inp a b c d = MD5STEP F3 a b c d (inp ! 7 + 0xf6bb4b60) 16"
  "md5_op 39 inp a b c d = MD5STEP F3 a b c d (inp ! 10 + 0xbebfbc70) 23"
  "md5_op 40 inp a b c d = MD5STEP F3 a b c d (inp ! 13 + 0x289b7ec6) 4"
  "md5_op 41 inp a b c d = MD5STEP F3 a b c d (inp ! 0 + 0xeaa127fa) 11"
  "md5_op 42 inp a b c d = MD5STEP F3 a b c d (inp ! 3 + 0xd4ef3085) 16"
  "md5_op 43 inp a b c d = MD5STEP F3 a b c d (inp ! 6 + 0x04881d05) 23"
  "md5_op 44 inp a b c d = MD5STEP F3 a b c d (inp ! 9 + 0xd9d4d039) 4"
  "md5_op 45 inp a b c d = MD5STEP F3 a b c d (inp ! 12 + 0xe6db99e5) 11"
  "md5_op 46 inp a b c d = MD5STEP F3 a b c d (inp ! 15 + 0x1fa27cf8) 16"
  "md5_op 47 inp a b c d = MD5STEP F3 a b c d (inp ! 2 + 0xc4ac5665) 23"
  by (simp_all add: md5_op_rounds md5_s_def md5_g_def md5_k_def)

lemma md5_op_D:
  "md5_op 48 inp a b c d = MD5STEP F4 a b c d (inp ! 0 + 0xf4292244) 6"
  "md5_op 49 inp a b c d = MD5STEP F4 a b c d (inp ! 7 + 0x432aff97) 10"
  "md5_op 50 inp a b c d = MD5STEP F4 a b c d (inp ! 14 + 0xab9423a7) 15"
  "md5_op 51 inp a b c d = MD5STEP F4 a b c d (inp ! 5 + 0xfc93a039) 21"
  "md5_op 52 inp a b c d = MD5STEP F4 a b c d (inp ! 12 + 0x655b59c3) 6"
  "md5_op 53 inp a b c d = MD5STEP F4 a b c d (inp ! 3 + 0x8f0ccc92) 10"
  "md5_op 54 inp a b c d = MD5STEP F4 a b c d (inp ! 10 + 0xffeff47d) 15"
  "md5_op 55 inp a b c d = MD5STEP F4 a b c d (inp ! 1 + 0x85845dd1) 21"
  "md5_op 56 inp a b c d = MD5STEP F4 a b c d (inp ! 8 + 0x6fa87e4f) 6"
  "md5_op 57 inp a b c d = MD5STEP F4 a b c d (inp ! 15 + 0xfe2ce6e0) 10"
  "md5_op 58 inp a b c d = MD5STEP F4 a b c d (inp ! 6 + 0xa3014314) 15"
  "md5_op 59 inp a b c d = MD5STEP F4 a b c d (inp ! 13 + 0x4e0811a1) 21"
  "md5_op 60 inp a b c d = MD5STEP F4 a b c d (inp ! 4 + 0xf7537e82) 6"
  "md5_op 61 inp a b c d = MD5STEP F4 a b c d (inp ! 11 + 0xbd3af235) 10"
  "md5_op 62 inp a b c d = MD5STEP F4 a b c d (inp ! 2 + 0x2ad7d2bb) 15"
  "md5_op 63 inp a b c d = MD5STEP F4 a b c d (inp ! 9 + 0xeb86d391) 21"
  by (simp_all add: md5_op_rounds md5_s_def md5_g_def md5_k_def)

lemmas quad_lets = md5_quad_def case_let prod.case arith_simps numeral_plus_one one_plus_numeral add_0

lemma MD5_round_quads:
  "MD5_roundA inp st = md5_quad inp (0 + 12) (md5_quad inp (0 + 8) (md5_quad inp (0 + 4) (md5_quad inp 0 st)))"
  "MD5_roundB inp st = md5_quad inp (16 + 12) (md5_quad inp (16 + 8) (md5_quad inp (16 + 4) (md5_quad inp 16 st)))"
  "MD5_roundC inp st = md5_quad inp (32 + 12) (md5_quad inp (32 + 8) (md5_quad inp (32 + 4) (md5_quad inp 32 st)))"
  "MD5_roundD inp st = md5_quad inp (48 + 12) (md5_quad inp (48 + 8) (md5_quad inp (48 + 4) (md5_quad inp 48 st)))"
  by (cases st; simp only: MD5_roundA_def MD5_roundB_def MD5_roundC_def MD5_roundD_def quad_lets md5_op_A md5_op_B md5_op_C md5_op_D)+

lemma upto_64: "[0..<64] = [0..<0 + 16] @ [16..<16 + 16] @ [32..<32 + 16] @ [48..<48 + 16]"
  by (simp add: upt_rec)

lemma MD5Transform_compress: "MD5Transform st inp = md5_compress st inp"
  by (simp only: MD5Transform_def md5_compress_def upto_64 fold_append o_apply md5_quads MD5_round_quads)

subsection \<open>The pieces of the message\<close>

lemma byteReverse_append: "length xs mod 4 = 0 \<Longrightarrow> byteReverse (xs @ ys) = byteReverse xs @ byteReverse ys"
  by (induction xs rule: byteReverse.induct) auto

lemma length_byteReverse: "length (byteReverse xs) = length xs div 4"
  by (induction xs rule: byteReverse.induct) auto

lemma md5_blocks_append: "length xs mod 16 = 0 \<Longrightarrow> md5_blocks (xs @ ys) st = md5_blocks ys (md5_blocks xs st)"
proof (induction xs st rule: md5_blocks.induct)
  case (1 ws st)
  show ?case
  proof (cases "length ws < 16")
    case True
    with 1(2) show ?thesis by (simp add: md5_blocks.simps [of "[]"])
  next
    case False
    then have "length (drop 16 ws) mod 16 = 0" using 1(2) by (simp add: le_mod_geq)
    with 1(1) [OF False] False show ?thesis by (simp add: md5_blocks.simps [of ws] md5_blocks.simps [of "ws @ ys"])
  qed
qed

definition md5_words :: "byte list \<Rightarrow> md5_state \<Rightarrow> md5_state" where
  "md5_words bs = md5_blocks (byteReverse bs)"

lemma md5_words_append: "length xs mod 64 = 0 \<Longrightarrow> md5_words (xs @ ys) st = md5_words ys (md5_words xs st)"
proof -
  assume "length xs mod 64 = 0"
  then have "length xs mod 4 = 0" "length xs div 4 mod 16 = 0" by presburger+
  then show ?thesis by (simp add: md5_words_def byteReverse_append md5_blocks_append length_byteReverse)
qed

lemma md5_words_block: "length xs = 64 \<Longrightarrow> md5_words xs st = MD5Transform st (byteReverse xs)"
  by (simp add: md5_words_def md5_blocks.simps [of "byteReverse xs"] md5_blocks.simps [of "[]"] length_byteReverse MD5Transform_compress)

text \<open>
  After the bytes \<open>m\<close> the context has the state after the whole blocks of \<open>m\<close>, the rest of \<open>m\<close> in its block, and the
  length of \<open>m\<close>.
\<close>

definition md5_init :: md5_state where
  "md5_init = (0x67452301, 0xefcdab89, 0x98badcfe, 0x10325476)"

definition filled :: "byte list \<Rightarrow> nat" where
  "filled m = length m - length m mod 64"

definition block_inv :: "md5_state \<Rightarrow> byte list \<Rightarrow> md5_context \<Rightarrow> bool" where
  "block_inv st m ctx =
     (m_buf ctx = md5_words (take (filled m) m) st \<and> length (m_in ctx) = 64 \<and> take (length m mod 64) (m_in ctx) = drop (filled m) m)"

definition bits_of :: "nat \<Rightarrow> w32 \<times> w32" where
  "bits_of n = (word_of_nat (8 * n), word_of_nat (8 * n div 4294967296))"

lemma filled_less: "length m < 64 \<Longrightarrow> filled m = 0"
  by (simp add: filled_def)

lemma filled_mod: "filled m mod 64 = 0" "filled m \<le> length m"
  by (simp_all add: filled_def minus_mod_eq_mult_div)

lemma filled_append: "length xs mod 64 = 0 \<Longrightarrow> filled (xs @ ys) = length xs + filled ys"
  using filled_mod [of ys] by (simp add: filled_def mod_add_eq [of "length xs", symmetric])

lemma md5_words_Nil: "md5_words [] st = st"
  by (simp add: md5_words_def md5_blocks.simps [of "[]"])

lemma block_inv_append:
  "length xs mod 64 = 0 \<Longrightarrow> block_inv (md5_words xs st) ys ctx \<Longrightarrow> block_inv st (xs @ ys) ctx"
  by (simp add: block_inv_def filled_append md5_words_append mod_add_eq [of "length xs", symmetric])

lemma memcpy_at: "t + length buf \<le> length dst \<Longrightarrow> length (memcpy_at t buf dst) = length dst \<and> take (t + length buf) (memcpy_at t buf dst) = take t dst @ buf"
  by (simp add: memcpy_at_def)

lemma update_blocks_inv:
  assumes "length (m_in ctx) = 64"
  shows "block_inv (m_buf ctx) buf (update_blocks ctx buf) \<and> m_bits (update_blocks ctx buf) = m_bits ctx"
  using assms
proof (induction ctx buf rule: update_blocks.induct)
  case (1 ctx buf)
  show ?case
  proof (cases "64 \<le> length buf")
    case True
    let ?c = "transform_in (ctx\<lparr>m_in := take 64 buf\<rparr>)"
    have m: "m_buf ?c = md5_words (take 64 buf) (m_buf ctx)" "length (m_in ?c) = 64" "m_bits ?c = m_bits ctx"
      using True by (simp_all add: transform_in_def md5_words_block)
    have "block_inv (m_buf ctx) (take 64 buf @ drop 64 buf) (update_blocks ?c (drop 64 buf))"
      using 1(1) [OF True m(2)] True by (intro block_inv_append) (simp_all add: m)
    then show ?thesis using 1(1) [OF True m(2)] True by (simp add: update_blocks.simps [of ctx] m)
  next
    case False
    then show ?thesis using 1(2) memcpy_at [of 0 buf "m_in ctx"]
      by (simp add: update_blocks.simps [of ctx] block_inv_def filled_less md5_words_Nil)
  qed
qed

lemma unat_bits: "unat (word_of_nat n :: w32) = n mod 4294967296"
  by (simp add: unat_of_nat)

lemma bytes_in_bits: "bytes_in (bits_of n) = n mod 64"
proof -
  have "bytes_in (bits_of n) = unat (take_bit 6 (drop_bit 3 (word_of_nat (8 * n) :: w32)))"
    by (simp only: bytes_in_def bits_of_def fst_conv take_bit_eq_mask) (simp add: mask_eq_exp_minus_1)
  also have "\<dots> = (8 * n) mod 4294967296 div 8 mod 64"
    by (simp only: unsigned_take_bit_eq unsigned_drop_bit_eq unat_bits) (simp add: drop_bit_eq_div take_bit_eq_mod)
  also have "8 * n mod 4294967296 = 8 * (n mod 536870912)" using mult_mod_right [of 8 n 536870912] by simp
  also have "8 * (n mod 536870912) div 8 mod 64 = n mod 64" by (simp add: mod_mod_cancel)
  finally show ?thesis .
qed

lemma add_carry:
  fixes x y m :: nat
  assumes "0 < m"
  shows "(x + y) mod m < x mod m \<longleftrightarrow> m \<le> x mod m + y mod m"
    and "(x + y) div m = x div m + (if m \<le> x mod m + y mod m then 1 else 0) + y div m"
proof -
  have r: "x mod m < m" "y mod m < m" using assms by simp_all
  have s: "(x + y) mod m = (if m \<le> x mod m + y mod m then x mod m + y mod m - m else x mod m + y mod m)"
  proof -
    have "(a + b) mod m = (if m \<le> a + b then a + b - m else a + b)" if "a < m" "b < m" for a b
      using that by (auto simp: le_mod_geq)
    from this [OF r] show ?thesis by (simp only: mod_add_eq)
  qed
  show "(x + y) mod m < x mod m \<longleftrightarrow> m \<le> x mod m + y mod m" using r by (auto simp: s)
  have "(x mod m + y mod m) div m = (if m \<le> x mod m + y mod m then 1 else 0)"
  proof -
    have "(a + b) div m = (if m \<le> a + b then 1 else 0)" if "a < m" "b < m" for a b
      using that by (auto simp: le_div_geq)
    from this [OF r] show ?thesis .
  qed
  then show "(x + y) div m = x div m + (if m \<le> x mod m + y mod m then 1 else 0) + y div m"
    by (simp add: div_add1_eq [of x])
qed

lemma add_bits_bits:
  assumes "k < 4294967296"
  shows "add_bits (bits_of n) (word_of_nat k) = bits_of (n + k)"
proof -
  let ?M = "4294967296 :: nat"
  have lo: "word_of_nat (8 * n) + push_bit 3 (word_of_nat k) = (word_of_nat (8 * (n + k)) :: w32)"
    by (simp add: push_bit_eq_mult algebra_simps)
  have "(word_of_nat (8 * (n + k)) :: w32) < word_of_nat (8 * n) \<longleftrightarrow> (8 * n + 8 * k) mod ?M < (8 * n) mod ?M"
    by (simp only: word_less_nat_alt unat_bits distrib_left)
  also have "\<dots> \<longleftrightarrow> ?M \<le> (8 * n) mod ?M + (8 * k) mod ?M" by (rule add_carry) simp
  finally have less: "(word_of_nat (8 * (n + k)) :: w32) < word_of_nat (8 * n) \<longleftrightarrow> ?M \<le> (8 * n) mod ?M + (8 * k) mod ?M" .
  have "drop_bit 29 (word_of_nat k) = (word_of_nat (k div 536870912) :: w32)"
    using assms by (simp add: drop_bit_eq_div word_of_nat_eq_iff unat_of_nat word_unat_eq_iff unat_div_distrib take_bit_eq_mod)
  moreover have "(8 * (n + k)) div ?M = 8 * n div ?M + (if ?M \<le> (8 * n) mod ?M + (8 * k) mod ?M then 1 else 0) + k div 536870912"
    using add_carry(2) [of ?M "8 * n" "8 * k"] div_mult_mult1 [of 8 k 536870912] by (simp only: distrib_left)
  ultimately show ?thesis
    by (cases "?M \<le> (8 * n) mod ?M + (8 * k) mod ?M")
      (simp_all only: add_bits_def bits_of_def prod.case Let_def lo less of_nat_add of_nat_0 of_nat_1 add_0_right if_True if_False simp_thms)
qed

lemma bits_of_0: "bits_of 0 = (0, 0)"
  by (simp add: bits_of_def)

definition md5_inv :: "byte list \<Rightarrow> md5_context \<Rightarrow> bool" where
  "md5_inv m ctx = (block_inv md5_init m ctx \<and> m_bits ctx = bits_of (length m))"

lemma MD5Init_inv: "md5_inv [] MD5Init"
  by (simp add: md5_inv_def MD5Init_def block_inv_def bits_of_0 md5_init_def md5_words_Nil)

lemma split_filled: "m = take (filled m) m @ drop (filled m) m" "length (drop (filled m) m) = length m mod 64"
  by (simp_all add: filled_def)

lemma MD5Update_inv:
  assumes inv: "md5_inv m ctx" and len: "length buf < 4294967296"
  shows "md5_inv (m @ buf) (MD5Update ctx buf)"
proof -
  let ?w = "take (filled m) m" and ?r = "drop (filled m) m" and ?t = "length m mod 64"
  define c where "c = ctx\<lparr>m_bits := bits_of (length m + length buf)\<rparr>"
  have c: "m_buf c = md5_words ?w md5_init" "length (m_in c) = 64" "take ?t (m_in c) = ?r" "m_bits c = bits_of (length m + length buf)"
    using inv by (simp_all add: c_def md5_inv_def block_inv_def)
  have w: "length ?w mod 64 = 0" using filled_mod by simp
  have up: "MD5Update ctx buf =
      (if ?t \<noteq> 0 then
        (if length buf < 64 - ?t then c\<lparr>m_in := memcpy_at ?t buf (m_in c)\<rparr>
         else update_blocks (transform_in (c\<lparr>m_in := memcpy_at ?t (take (64 - ?t) buf) (m_in c)\<rparr>)) (drop (64 - ?t) buf))
      else update_blocks c buf)"
    using inv len by (simp add: MD5Update_def c_def md5_inv_def bytes_in_bits add_bits_bits Let_def)
  have "block_inv (m_buf c) (?r @ buf) (MD5Update ctx buf) \<and> m_bits (MD5Update ctx buf) = bits_of (length m + length buf)"
  proof (cases "?t = 0")
    case True
    then show ?thesis using update_blocks_inv [OF c(2), of buf] split_filled(2) [of m] by (simp add: up c(4))
  next
    case False
    show ?thesis
    proof (cases "length buf < 64 - ?t")
      case True
      then have "length (?r @ buf) < 64" using split_filled(2) [of m] by (simp only: length_append)
      then show ?thesis using True \<open>?t \<noteq> 0\<close> memcpy_at [of ?t buf "m_in c"] c split_filled(2) [of m]
        by (simp add: up block_inv_def filled_less md5_words_Nil)
    next
      case False
      let ?b = "memcpy_at ?t (take (64 - ?t) buf) (m_in c)"
      have b: "?b = ?r @ take (64 - ?t) buf" "length ?b = 64"
        using False c(2,3) split_filled(2) [of m] by (simp_all add: memcpy_at_def min_def split: if_splits)
      let ?d = "transform_in (c\<lparr>m_in := ?b\<rparr>)"
      have "block_inv (m_buf ?d) (drop (64 - ?t) buf) (update_blocks ?d (drop (64 - ?t) buf))"
        using update_blocks_inv [of ?d] b(2) by (simp add: transform_in_def)
      moreover have "m_buf ?d = md5_words ?b (m_buf c)" using b(2) by (simp add: transform_in_def md5_words_block)
      ultimately have "block_inv (m_buf c) (?b @ drop (64 - ?t) buf) (update_blocks ?d (drop (64 - ?t) buf))"
        using b(2) by (intro block_inv_append) simp_all
      then show ?thesis using False \<open>?t \<noteq> 0\<close> update_blocks_inv [of ?d] b c(4) by (simp add: up transform_in_def)
    qed
  qed
  then have "block_inv md5_init (?w @ ?r @ buf) (MD5Update ctx buf)" "m_bits (MD5Update ctx buf) = bits_of (length (m @ buf))"
    using block_inv_append [OF w] c(1) by auto
  then show ?thesis by (simp only: md5_inv_def append_assoc [symmetric] split_filled(1) [symmetric])
qed

subsection \<open>The end of the message\<close>

lemma md5_last_block:
  assumes "length xs mod 64 = 0" "length ys = 56" "length ws = 2"
  shows "md5_blocks (byteReverse (xs @ ys) @ ws) st = MD5Transform (md5_words xs st) (byteReverse ys @ ws)"
proof -
  have "length xs mod 4 = 0" "length xs div 4 mod 16 = 0" using assms(1) by presburger+
  moreover have "md5_blocks (byteReverse ys @ ws) st = MD5Transform st (byteReverse ys @ ws)" for st
    using assms by (simp add: md5_blocks.simps [of "byteReverse ys @ ws"] md5_blocks.simps [of "[]"] length_byteReverse MD5Transform_compress)
  ultimately show ?thesis by (simp add: byteReverse_append md5_blocks_append length_byteReverse md5_words_def)
qed

lemma memcpy_two:
  "Suc (t + k) \<le> length b \<Longrightarrow> take (Suc (t + k)) (memcpy_at (Suc t) (replicate k 0) (memcpy_at t [x] b)) = take t b @ x # replicate k 0"
  using memcpy_at [of t "[x]" b] memcpy_at [of "Suc t" "replicate k 0" "memcpy_at t [x] b"] by simp

lemma MD5Final_digest:
  assumes "md5_inv m ctx"
  shows "fst (MD5Final ctx) = md5 m"
proof -
  let ?w = "take (filled m) m" and ?r = "drop (filled m) m" and ?t = "length m mod 64"
  let ?len = "[fst (bits_of (length m)), snd (bits_of (length m))]"
  have c: "m_buf ctx = md5_words ?w md5_init" "length (m_in ctx) = 64" "take ?t (m_in ctx) = ?r" "m_bits ctx = bits_of (length m)"
    using assms by (simp_all add: md5_inv_def block_inv_def)
  have t: "?t < 64" "length ?r = ?t" "length ?w mod 64 = 0" using split_filled(2) [of m] filled_mod [of m] by simp_all
  have len: "md5 m = digest_bytes (md5_blocks (byteReverse (?w @ ?r @ md5_padding (length m)) @ ?len) md5_init)"
    by (simp add: md5_def bits_of_def md5_init_def flip: append_assoc)
  show ?thesis
  proof (cases "63 - ?t < 8")
    case True
    let ?b = "?r @ 0x80 # replicate (63 - ?t) 0"
    have b: "memcpy_at (Suc ?t) (replicate (63 - ?t) 0) (memcpy_at ?t [0x80] (m_in ctx)) = ?b"
      using t(1,2) c(2,3) by (simp add: memcpy_at_def min_def)
    have "(119 - ?t) mod 64 = (63 - ?t) + 56" using True t(1) by simp
    then have p: "?w @ ?r @ md5_padding (length m) = (?w @ ?b) @ replicate 56 0"
      by (simp only: md5_padding_def replicate_add append_assoc append_Cons)
    have lb: "length ?b = 64" using t by simp
    have "md5_blocks (byteReverse ((?w @ ?b) @ replicate 56 0) @ ?len) md5_init =
        MD5Transform (MD5Transform (m_buf ctx) (byteReverse ?b)) (byteReverse (replicate 56 0) @ ?len)"
      using t(3) lb c(1) by (subst md5_last_block) (simp_all add: md5_words_append md5_words_block)
    then show ?thesis using True lb
      by (simp add: MD5Final_def Let_def c(4) bytes_in_bits len p b transform_in_def memcpy_at_def [of 0] del: replicate_0 replicate_Suc)
  next
    case False
    let ?b = "?r @ 0x80 # replicate (55 - ?t) 0"
    have b: "take 56 (memcpy_at (Suc ?t) (replicate (55 - ?t) 0) (memcpy_at ?t [0x80] (m_in ctx))) = ?b"
    proof -
      have e: "Suc (?t + (55 - ?t)) = 56" using False by linarith
      show ?thesis by (rule memcpy_two [of ?t "55 - ?t" "m_in ctx" "0x80", unfolded e c(2,3)]) simp
    qed
    have "119 - ?t = 55 - ?t + 64" using False by linarith
    then have "(119 - ?t) mod 64 = 55 - ?t" by (simp only: mod_add_self2) simp
    then have p: "?w @ ?r @ md5_padding (length m) = ?w @ ?b" by (simp add: md5_padding_def)
    have "length ?b = 56" using t False by simp
    then have "md5_blocks (byteReverse (?w @ ?b) @ ?len) md5_init = MD5Transform (m_buf ctx) (byteReverse ?b @ ?len)"
      using t(3) c(1) by (subst md5_last_block) simp_all
    then show ?thesis using False b by (simp add: MD5Final_def Let_def c(4) bytes_in_bits len p)
  qed
qed

lemma MD5_pieces_inv: "\<forall>d\<in>set pieces. length d < 4294967296 \<Longrightarrow> md5_inv m ctx \<Longrightarrow> md5_inv (m @ concat pieces) (fold (\<lambda>d c. MD5Update c d) pieces ctx)"
proof (induction pieces arbitrary: m ctx)
  case (Cons d pieces)
  then show ?case using Cons.IH [of "m @ d" "MD5Update ctx d"] MD5Update_inv [of m ctx d] by simp
qed simp

text \<open>
  C13: However a message is cut into pieces, each of a length that an unsigned int has, the digest that \<open>MD5Init\<close>,
  \<open>MD5Update\<close> for each piece and \<open>MD5Final\<close> give is that of RFC 1321 for the whole message: the pieces that do not
  fill a block, the carry between the two words of the bit count, the padding with one more block where there is no
  place for the length and the code's forms of the functions and of the 64 steps make no difference.
\<close>

theorem digest_of_pieces:
  assumes "\<forall>d\<in>set pieces. length d < 4294967296"
  shows "fst (MD5Final (fold (\<lambda>d c. MD5Update c d) pieces MD5Init)) = md5 (concat pieces)"
  using MD5Final_digest [OF MD5_pieces_inv [OF assms MD5Init_inv]] by simp

theorem digest_of_pieces_witness:
  "fst (MD5Final (MD5Update (MD5Update MD5Init [0x61]) [0x62, 0x63])) = md5 [0x61, 0x62, 0x63]"
  using digest_of_pieces [of "[[0x61], [0x62, 0x63]]"] by simp

end
