(* ===== verification/MD5Auth.thy ===== *)
theory MD5Auth
  imports SendJob MD5 Printcap
begin

section \<open>Authentication with a shared key (auth/md5_auth.c)\<close>

text \<open>
  The plug-in of \<open>src/src/auth/md5_auth.c\<close>. The client (\<open>md5_send\<close>) and the server (\<open>md5_receive\<close>) have a key in
  common. The server sends a challenge; the client answers with its name and a hash of the challenge, the key, the
  hash of the file and its name, and sends the file; the server computes the same and does the work that the file
  asks for if the hashes are equal. The theorems are about the two sides together, and about what the server
  requires.

  Files are lists of the pieces in which they are read, connections those of \<open>Links\<close>, and \<open>None\<close> is a
  division by zero or a read outside of an object. A \<open>seek\<close> in a file and the first byte of the final answer do not fail.
\<close>

subsection \<open>Keys\<close>

text \<open>
  \<open>me_keyfile\<close> is the value of \<open>MD5KEYFILE\<close> in the environment, \<open>me_files\<close> the file system, \<open>me_errlen\<close> the size of the
  buffer for the message, \<open>me_tempfile\<close> the name of the temporary file, and \<open>me_junk\<close> what is behind a key in memory when it fills its buffer, up to the next NUL.
\<close>

record md5_env =
  me_is_server :: bool
  me_keyfile :: "cstr option"
  me_files :: "cstr \<Rightarrow> cstr option"
  me_errlen :: int
  me_errno :: cstr
  me_tempfile :: cstr
  me_junk :: cstr
  me_printer :: "cstr option"
  me_host :: "cstr option"

definition KEY_LENGTH :: nat where "KEY_LENGTH = 16"

definition quoted :: cstr where "quoted = [CHR 0x27] @ ''%s'' @ [CHR 0x27]"

definition message :: "md5_env \<Rightarrow> cstr \<Rightarrow> unit fmt_arg list \<Rightarrow> cstr" where
  "message env fmt args = plp_snprintf (me_errlen env) fmt args"

definition file_failed :: "md5_env \<Rightarrow> cstr \<Rightarrow> cstr" where
  "file_failed env fmt = message env fmt [AStr (Some (me_tempfile env)), AStr (Some (me_errno env))]"

definition key_mode :: read_mode where
  "key_mode = \<lparr>rm_linesep = Line_ends, rm_sort = True, rm_keysep = Some Option_value_sep, rm_uniq = True,
     rm_trim = CHR 0x01, rm_nocomment = True\<rparr>"

text \<open>The characters of the key, or the error. A key file that cannot be read is one without keys.\<close>

definition md5key :: "md5_env \<Rightarrow> cstr \<Rightarrow> cstr \<Rightarrow> nat \<Rightarrow> cstr + cstr" where
  "md5key env keyfile name keysize =
     (let keys = (case Read_file_list 5 (me_files env) key_mode 0 False False keyfile [] of None \<Rightarrow> [] | Some ks \<Rightarrow> ks) in
      case Find_exists_value keys name (Some Hash_value_sep) of
        None \<Rightarrow> Inl (message env (''md5key: no key for '' @ quoted @ '' in '' @ quoted) [AStr (Some name), AStr (Some keyfile)])
      | Some v \<Rightarrow> Inr (take keysize v))"

text \<open>The string in the buffer: a key that fills it has no NUL behind it.\<close>

definition key_string :: "md5_env \<Rightarrow> nat \<Rightarrow> cstr \<Rightarrow> cstr" where
  "key_string env keysize key = (if length key < keysize then key else key @ me_junk env)"

text \<open>The first word, and what follows it, if there is white space.\<close>

definition cut_word :: "cstr \<Rightarrow> (cstr \<times> cstr) option" where
  "cut_word s = map_option (\<lambda>t. (take (length s - length t) s, dropWhile isspace (tl t))) (strpbrk s Whitespace)"

definition key_bytes :: "cstr \<Rightarrow> byte list" where
  "key_bytes s = map of_char (take KEY_LENGTH s)"

text \<open>The name that the client sends, and the key for it.\<close>

definition send_key :: "md5_env \<Rightarrow> line_list \<Rightarrow> cstr + (cstr \<times> byte list)" where
  "send_key env i =
     (let missing = (\<lambda>k. message env (''md5_send: no '' @ quoted @ '' value in info'') [AStr (Some k)]) in
      case (if me_is_server env then Find_exists_value i ''server_keyfile'' (Some Hash_value_sep) else me_keyfile env) of
        None \<Rightarrow> Inl (message env
          (if me_is_server env then ''md5_send: no md5_server_keyfile entry'' else ''md5_send: no MD5KEYFILE environment variable'') [])
      | Some keyfile \<Rightarrow>
          (case Find_str_value i DESTINATION of
             None \<Rightarrow> Inl (missing DESTINATION)
           | Some dest \<Rightarrow>
               (case md5key env keyfile dest (nat SMALLBUFFER) of
                  Inl e \<Rightarrow> Inl e
                | Inr key \<Rightarrow>
                    if key = [] then Inl []
                    else
                      (let s = key_string env (nat SMALLBUFFER) key in
                       case cut_word s of
                         Some (w, k) \<Rightarrow>
                           if k = [] then Inl (message env (''md5_send: no '' @ quoted @ '' value in keyfile'') [AStr (Some dest)])
                           else Inr (w, key_bytes k)
                       | None \<Rightarrow>
                           (case Find_str_value i FROM of
                              None \<Rightarrow> Inl (missing FROM)
                            | Some d \<Rightarrow> Inr (d, key_bytes s))))))"

text \<open>The key the server has for a name.\<close>

definition receive_key :: "md5_env \<Rightarrow> cstr \<Rightarrow> cstr \<Rightarrow> cstr + byte list" where
  "receive_key env keyfile dest =
     (case md5key env keyfile dest KEY_LENGTH of
        Inl e \<Rightarrow> Inl e
      | Inr key \<Rightarrow>
          if key = [] then Inl []
          else
            (let s = key_string env KEY_LENGTH key in
             Inr (key_bytes (case cut_word s of Some (w, k) \<Rightarrow> k | None \<Rightarrow> s))))"

subsection \<open>Hashes\<close>

definition MDString :: "byte list \<Rightarrow> byte list" where
  "MDString inString = fst (MD5Final (MD5Update MD5Init inString))"

function MDFile_loop :: "md5_context \<Rightarrow> rd list \<Rightarrow> md5_context" where
  "MDFile_loop ctx f =
     (case read_some LARGEBUFFER f of
        (Bytes (c # s), f1) \<Rightarrow> MDFile_loop (MD5Update ctx (map of_char (c # s))) f1
      | _ \<Rightarrow> ctx)"
  by pat_completeness auto
termination
  by (relation "measure (\<lambda>(ctx, f). rsize f)") (auto dest!: read_some_size [OF sym])

declare MDFile_loop.simps [simp del]

definition MDFile :: "rd list \<Rightarrow> byte list" where
  "MDFile f = fst (MD5Final (MDFile_loop MD5Init f))"

fun hexstr :: "byte list \<Rightarrow> nat \<Rightarrow> cstr" where
  "hexstr [] outlen = []"
| "hexstr (b # bs) outlen =
     (if 2 < outlen then plp_snprintf 4 ''%02x'' [AInt (uint b)] @ hexstr bs (outlen - 2) else [])"

text \<open>The client reads pairs of digits, and fills the challenge with zeros.\<close>

fun hex_pairs :: "cstr \<Rightarrow> byte list" where
  "hex_pairs (a # b # s) = word_of_int (fst (strtol [a, b] 16)) # hex_pairs s"
| "hex_pairs _ = []"

definition decode_challenge :: "cstr \<Rightarrow> byte list" where
  "decode_challenge s = take KEY_LENGTH (hex_pairs s @ replicate KEY_LENGTH 0)"

text \<open>
  The key goes around over the challenge; the name goes around over the result. A key of length 0 is a division
  by zero.
\<close>

definition xor_key :: "byte list \<Rightarrow> byte list \<Rightarrow> byte list option" where
  "xor_key key challenge =
     (if key = [] then None
      else Some (map (\<lambda>i. challenge ! i XOR key ! (i mod length key)) [0..<KEY_LENGTH]))"

fun xor_name :: "nat \<Rightarrow> cstr \<Rightarrow> byte list \<Rightarrow> byte list" where
  "xor_name n [] challenge = challenge"
| "xor_name n (c # s) challenge = xor_name ((n + 1) mod KEY_LENGTH) s (challenge[n := challenge ! n XOR of_char c])"

definition md5_response :: "byte list \<Rightarrow> byte list \<Rightarrow> byte list \<Rightarrow> cstr \<Rightarrow> cstr option" where
  "md5_response challenge key filehash name =
     (case xor_key key challenge of
        None \<Rightarrow> None
      | Some c1 \<Rightarrow>
          (case xor_key filehash c1 of
             None \<Rightarrow> None
           | Some c2 \<Rightarrow> Some (hexstr (MDString (xor_name 0 name c2)) LARGEBUFFER)))"


subsection \<open>The client\<close>

text \<open>One call of \<open>write\<close>, which must take everything; the files written are links too.\<close>

definition write_once :: "cstr \<Rightarrow> link \<Rightarrow> bool \<times> link" where
  "write_once msg l =
     (case writes l of
        [] \<Rightarrow> (True, l\<lparr>sent := sent l @ msg\<rparr>)
      | None # ws \<Rightarrow> (False, l\<lparr>writes := ws\<rparr>)
      | Some k # ws \<Rightarrow> (length msg \<le> k, l\<lparr>sent := sent l @ take k msg, writes := ws\<rparr>))"

datatype copied = All | Read_failed | Write_failed

text \<open>What can be read of \<open>f\<close> is written to \<open>l\<close>; the loops of both sides.\<close>

function copy_pieces :: "rd list \<Rightarrow> link \<Rightarrow> copied \<times> rd list \<times> link" where
  "copy_pieces f l =
     (case read_some (LARGEBUFFER - 1) f of
        (Bytes (c # s), f1) \<Rightarrow>
          (case write_once (c # s) l of
             (False, l1) \<Rightarrow> (Write_failed, f1, l1)
           | (True, l1) \<Rightarrow> copy_pieces f1 l1)
      | (Bytes [], f1) \<Rightarrow> (All, f1, l)
      | (_, f1) \<Rightarrow> (Read_failed, f1, l))"
  by pat_completeness auto
termination
  by (relation "measure (\<lambda>(f, l). rsize f)") (auto dest!: read_some_size [OF sym])

declare copy_pieces.simps [simp del]

text \<open>
  The line that is sent; a name that leaves no room for the line feed makes \<open>safestrncat\<close> write the last byte of the
  buffer, which then has no NUL.
\<close>

definition response_line :: "cstr \<Rightarrow> cstr \<Rightarrow> cstr option" where
  "response_line name hash =
     (if length name + 1 < nat SMALLBUFFER
      then Some (name @ plp_snprintf (SMALLBUFFER - int (length name) - 1) '' %s'' [AStr (Some hash)] @ [LF])
      else None)"

record send_files =
  sf_hashed :: "rd list option"
  sf_sent :: "rd list"
  sf_out :: "link option"

text \<open>The answer of the server: the first byte is the status. Only a printable one goes to the file.\<close>

definition read_answer :: "md5_env \<Rightarrow> link \<Rightarrow> link \<Rightarrow> int \<times> cstr \<times> link \<times> cstr" where
  "read_answer env l out =
     (let failed = file_failed env (''md5_send: write to '' @ quoted @ '' failed - %s'');
          rest = (\<lambda>status l1 o1.
            case copy_pieces (reads l1) o1 of
              (Write_failed, rs, o2) \<Rightarrow> (JABORT, failed, l1\<lparr>reads := rs\<rparr>, sent o2)
            | (_, rs, o2) \<Rightarrow> (status, [], l1\<lparr>reads := rs\<rparr>, sent o2))
      in case read_link 1 l of
        (Bytes (c # _), l1) \<Rightarrow>
          if isprint c
          then (case write_once [c] out of
                  (False, o1) \<Rightarrow> (JABORT, failed, l1, sent o1)
                | (True, o1) \<Rightarrow> rest (ccode c) l1 o1)
          else rest (ccode c) l1 out
      | (_, l1) \<Rightarrow> rest 0 l1 out)"

text \<open>
  The files are the temporary file as it is read for the hash, as it is read to be sent, and as it is opened for the
  answer. The results are the status, the message, the connection, and the new content of the file if it has one.
\<close>

definition md5_send ::
  "md5_env \<Rightarrow> line_list \<Rightarrow> send_files \<Rightarrow> link \<Rightarrow> (int \<times> cstr \<times> link \<times> cstr option) option" where
  "md5_send env i fs l =
     (case send_key env i of
        Inl e \<Rightarrow> Some (0, e, l, None)
      | Inr (dest, key) \<Rightarrow>
          (case Link_line_read LARGEBUFFER l of
             (n, line, l1) \<Rightarrow>
               let s = buf_str line in
               if n \<noteq> 0 then
                 Some (0, message env (''md5_send: error reading challenge - '' @ quoted) [AStr (Some (Link_err_str n))], l1, None)
               else if line = [] then Some (0, message env ''md5_send: zero length challenge'' [], l1, None)
               else if s = [] \<or> odd (length s) \<or> KEY_LENGTH < length s div 2 then
                 Some (0, message env (''md5_send: bad challenge length '' @ [CHR 0x27] @ ''%d'' @ [CHR 0x27]) [AInt (int (length s))], l1, None)
               else
                 (case sf_hashed fs of
                    None \<Rightarrow> Some (JABORT, file_failed env (''md5_send: open '' @ quoted @ '' for read failed - %s''), l1, None)
                  | Some f \<Rightarrow>
                      (let name = plp_snprintf SMALLBUFFER ''%s'' [AStr (Some dest)] in
                       case md5_response (decode_challenge s) key (MDFile f) name of
                         None \<Rightarrow> None
                       | Some hash \<Rightarrow>
                           (case response_line name hash of
                              None \<Rightarrow> None
                            | Some msg \<Rightarrow>
                                (case exchange msg l1 of
                                   (n, ack, l2) \<Rightarrow>
                                     if n \<noteq> 0 \<or> ack \<noteq> 0 then
                                       Some (0, message env (''error '' @ quoted @ [LF] @ '' sending str '' @ quoted @ '' to %s@%s'')
                                         [AStr (Some (Link_err_str n)), AStr (Some (chop_line msg)), AStr (me_printer env), AStr (me_host env)],
                                         l2, None)
                                     else
                                       (case copy_pieces (sf_sent fs) l2 of
                                          (Write_failed, _, l3) \<Rightarrow>
                                            Some (JABORT, message env ''md5_send: write to socket failed - %s'' [AStr (Some (me_errno env))], l3, None)
                                        | (Read_failed, _, l3) \<Rightarrow>
                                            Some (JABORT, file_failed env (''md5_send: read dest '' @ quoted @ '' failed - %s''), l3, None)
                                        | (All, _, l3) \<Rightarrow>
                                            (case sf_out fs of
                                               None \<Rightarrow> Some (JABORT, file_failed env (''md5_send: open '' @ quoted @ '' for write failed - %s''), l3, None)
                                             | Some out \<Rightarrow>
                                                 (case read_answer env l3 out of
                                                    (status, e, l4, content) \<Rightarrow> Some (status, e, l4, Some content))))))))))"

subsection \<open>The server\<close>

text \<open>The answer of the client: its name and the hash.\<close>

definition split_response :: "md5_env \<Rightarrow> cstr \<Rightarrow> cstr + (cstr \<times> cstr)" where
  "split_response env s =
     (case strchr s (CHR '' '') of
        None \<Rightarrow> Inl (message env (''md5_receive: no '' @ [CHR 0x27] @ ''hash'' @ [CHR 0x27] @ '' in response'') [])
      | Some t \<Rightarrow>
          (let hash = tl t in
           if strpbrk hash Whitespace \<noteq> None then Inl (message env ''md5_receive: malformed response'' [])
           else if hash = [] \<or> odd (length hash) then
             Inl (message env (''md5_receive: bad response hash length '' @ [CHR 0x27] @ ''%d'' @ [CHR 0x27]) [AInt (int (length hash))])
           else Inr (take (length s - length t) s, hash)))"

text \<open>
  The temporary file: \<open>rf_out\<close> is what it is when it is opened to be written, \<open>rf_in\<close> how it is read back, and \<open>rf_answer\<close>
  how the answer in it is read. \<open>rf_work\<close> is \<open>Do_secure_work\<close>: the header and the file give a status and the
  new content of the file.
\<close>

record server_files =
  rf_out :: "link option"
  rf_in :: "cstr \<Rightarrow> rd list option"
  rf_work :: "line_list \<Rightarrow> cstr \<Rightarrow> int \<times> cstr"
  rf_answer :: "cstr \<Rightarrow> rd list option"

text \<open>The file from the client. Without an open file the first bytes cannot be written.\<close>

definition take_file :: "link \<Rightarrow> link option \<Rightarrow> copied \<times> link \<times> cstr" where
  "take_file l out =
     (case copy_pieces (reads l) (case out of Some o1 \<Rightarrow> o1 | None \<Rightarrow> \<lparr>sock = -1, sent = [], writes = [None], reads = []\<rparr>) of
        (r, rs, o2) \<Rightarrow> (r, l\<lparr>reads := rs\<rparr>, sent o2))"

definition send_answer :: "md5_env \<Rightarrow> server_files \<Rightarrow> int \<Rightarrow> cstr \<Rightarrow> link \<Rightarrow> int \<times> cstr \<times> link" where
  "send_answer env fs status content l =
     (case rf_answer fs content of
        None \<Rightarrow> (JFAIL, file_failed env (''md5_receive: reopen of '' @ quoted @ '' for read failed - %s''), l)
      | Some f \<Rightarrow>
          if content \<noteq> [] \<or> status \<noteq> 0 then
            (case copy_pieces f (snd (write_once [char_of ACK_FAIL] l)) of
               (Write_failed, _, l1) \<Rightarrow>
                 (JFAIL, message env (''md5_receive: bad write to socket - '' @ quoted) [AStr (Some (me_errno env))], l1)
             | (Read_failed, _, l1) \<Rightarrow> (JFAIL, file_failed env (''md5_receive: read '' @ quoted @ '' failed - %s''), l1)
             | (All, _, l1) \<Rightarrow> (0, [], l1))
          else (0, [], snd (write_once [NUL] l)))"

text \<open>
  The results are the status, the message, the connection and, if the work was done, the header and the file it was done
  with.
\<close>

type_synonym receive_result = "int \<times> cstr \<times> link \<times> (line_list \<times> cstr) option"

definition check_file ::
  "md5_env \<Rightarrow> server_files \<Rightarrow> line_list \<Rightarrow> byte list \<Rightarrow> byte list \<Rightarrow> cstr \<Rightarrow> cstr \<Rightarrow> link \<Rightarrow> receive_result option" where
  "check_file env fs hdr challenge key dest hash l =
     (case take_file l (rf_out fs) of
        (Write_failed, l1, _) \<Rightarrow> Some (JFAIL, file_failed env (''md5_receive: bad write to '' @ quoted @ '' - '' @ quoted), l1, None)
      | (Read_failed, l1, _) \<Rightarrow>
          Some (JFAIL, message env (''md5_receive: bad read '' @ [CHR 0x27] @ ''%d'' @ [CHR 0x27] @ '' reading file '') [AInt (-1)], l1, None)
      | (All, l1, file_text) \<Rightarrow>
          (case rf_in fs file_text of
             None \<Rightarrow> Some (JFAIL, file_failed env (''md5_receive: open '' @ quoted @ '' for read failed - %s''), l1, None)
           | Some f \<Rightarrow>
               (case md5_response challenge key (MDFile f) dest of
                  None \<Rightarrow> None
                | Some h \<Rightarrow>
                    if h \<noteq> hash then Some (JFAIL, message env ''md5_receive: bad response value'' [], l1, None)
                    else
                      (let hdr1 = Set_str_value hdr FROM (Some dest) in
                       case rf_work fs hdr1 file_text of
                         (status, content) \<Rightarrow>
                           (case send_answer env fs status content l1 of
                              (st, e, l2) \<Rightarrow> Some (st, e, l2, Some (hdr1, file_text)))))))"

definition md5_receive ::
  "md5_env \<Rightarrow> line_list \<Rightarrow> line_list \<Rightarrow> server_files \<Rightarrow> byte list \<Rightarrow> link \<Rightarrow> receive_result option" where
  "md5_receive env i hdr fs challenge l =
     (if \<not> me_is_server env then Some (JFAIL, message env ''md5_receive: not server'' [], l, None)
      else
        (case Find_exists_value i ''server_keyfile'' (Some Hash_value_sep) of
           None \<Rightarrow> Some (JFAIL, message env ''md5_receive: no md5_server_keyfile entry'' [], l, None)
         | Some keyfile \<Rightarrow>
             (let sending = (\<lambda>n. [AStr (Some (Link_err_str n)), AStr (me_printer env), AStr (me_host env)]);
                  chal = hexstr challenge LARGEBUFFER in
              case Link_send [NUL] None l of
                (n1, _, l1) \<Rightarrow>
                  if n1 \<noteq> 0 then Some (JFAIL, message env (''error '' @ quoted @ '' ACK to %s@%s'') (sending n1), l1, None)
                  else
                    (case Link_send (chal @ [LF]) None l1 of
                       (n2, _, l2) \<Rightarrow>
                         if n2 \<noteq> 0 then
                           Some (JFAIL, message env (''error '' @ quoted @ '' sending str '' @ quoted @ '' to %s@%s'')
                             [AStr (Some (Link_err_str n2)), AStr (Some chal), AStr (me_printer env), AStr (me_host env)], l2, None)
                         else
                           (case Link_line_read (nat SMALLBUFFER - 1) l2 of
                              (n3, line, l3) \<Rightarrow>
                                if n3 \<noteq> 0 then
                                  Some (JFAIL, message env (''md5_receive: error reading challenge - '' @ quoted) [AStr (Some (Link_err_str n3))], l3, None)
                                else if line = [] then Some (JFAIL, message env ''md5_receive: zero length response'' [], l3, None)
                                else if nat SMALLBUFFER - 2 \<le> length line then Some (JFAIL, message env ''md5_receive: response too long'' [], l3, None)
                                else
                                  (case split_response env (buf_str line) of
                                     Inl e \<Rightarrow> Some (JFAIL, e, l3, None)
                                   | Inr (dest, hash) \<Rightarrow>
                                       (case receive_key env keyfile dest of
                                          Inl e \<Rightarrow> Some (JFAIL, e, l3, None)
                                        | Inr key \<Rightarrow>
                                            (case Link_send [NUL] None l3 of
                                               (n4, _, l4) \<Rightarrow>
                                                 if n4 \<noteq> 0 then Some (JFAIL, message env (''error '' @ quoted @ '' sending ACK to %s@%s'') (sending n4), l4, None)
                                                 else check_file env fs hdr challenge key dest hash l4))))))))"

subsection \<open>What is written and read\<close>

lemma whole_empty: "whole rs \<Longrightarrow> flat rs = [] \<Longrightarrow> rs = []"
  by (cases rs; cases "hd rs") auto

lemma copy_pieces_free: "whole f \<Longrightarrow> writes l = [] \<Longrightarrow> copy_pieces f l = (All, [], put_link (flat f) l)"
proof (induction "rsize f" arbitrary: f l rule: less_induct)
  case less
  have "0 < LARGEBUFFER - 1" by (simp add: LARGEBUFFER_def)
  from read_some_whole [OF less.prems(1) this] obtain s f1
    where s: "read_some (LARGEBUFFER - 1) f = (Bytes s, f1)" "whole f1" "flat f = s @ flat f1" "s = [] \<longrightarrow> flat f = []"
    by metis
  show ?case
  proof (cases s)
    case Nil
    with s less.prems whole_empty [of f] whole_empty [of f1] show ?thesis by (subst copy_pieces.simps) (simp add: put_link_def)
  next
    case (Cons c t)
    have "rsize f1 < rsize f" using read_some_size s(1) Cons by blast
    from less.hyps [OF this s(2), of "put_link s l"] less.prems s Cons show ?thesis
      by (subst copy_pieces.simps) (simp add: write_once_def put_link_def)
  qed
qed

lemma MDFile_loop_inv: "whole f \<Longrightarrow> md5_inv m ctx \<Longrightarrow> md5_inv (m @ map of_char (flat f)) (MDFile_loop ctx f)"
proof (induction "rsize f" arbitrary: f m ctx rule: less_induct)
  case less
  have "0 < LARGEBUFFER" by (simp add: LARGEBUFFER_def)
  from read_some_whole [OF less.prems(1) this] obtain s f1
    where s: "read_some LARGEBUFFER f = (Bytes s, f1)" "whole f1" "flat f = s @ flat f1" "length s \<le> LARGEBUFFER" "s = [] \<longrightarrow> flat f = []"
    by metis
  show ?case
  proof (cases s)
    case Nil
    with s less.prems(2) show ?thesis by (subst MDFile_loop.simps) simp
  next
    case (Cons c t)
    have lt: "rsize f1 < rsize f" using read_some_size s(1) Cons by blast
    have "md5_inv (m @ map of_char s) (MD5Update ctx (map of_char s))"
      using MD5Update_inv [OF less.prems(2), of "map of_char s"] s(4) by (simp add: LARGEBUFFER_def)
    from less.hyps [OF lt s(2) this] show ?thesis using s(1,3) Cons by (subst MDFile_loop.simps) simp
  qed
qed

lemma MDFile_md5: "whole f \<Longrightarrow> MDFile f = md5 (map of_char (flat f))"
  using MD5Final_digest [OF MDFile_loop_inv [OF _ MD5Init_inv]] by (simp add: MDFile_def)

subsection \<open>Texts of hashes\<close>

lemma byte_char: "(of_char (char_of (uint b)) :: byte) = b"
proof -
  have "of_char (char_of (uint b)) = (word_of_int (of_char (char_of (uint b))) :: byte)" by (rule of_int_of_char [symmetric])
  also have "(of_char (char_of (uint b)) :: int) = uint b"
    using uint_lt2p [of b] by (simp add: of_char_mod_256 mod_pos_pos_trivial)
  finally show ?thesis by simp
qed

lemma snprintf_02x: "plp_snprintf 4 ''%02x'' [AInt (uint b)] = hex2 (char_of (uint b))" for b :: byte
proof -
  let ?c = "char_of (uint b) :: char"
  have c: "ccode ?c = uint b" using uint_lt2p [of b] by (simp add: ccode_def of_char_mod_256 mod_pos_pos_trivial)
  have "dopr_text (\<lambda>_ (_::unit). []) [] True ''%02x'' [AInt (ccode ?c)] = Some (fmtnum_text (ccode ?c) 16 False False 2 True)"
    using ccode_range [of ?c]
    by (simp add: conv_text_def num_conv_def empty_spec_def add_digit_def isdigit_def Let_def) (simp add: ccode_def)
  also have "fmtnum_text (ccode ?c) 16 False False 2 True = hex2 ?c"
    using hex2_digits [of "nat (ccode ?c)"] nat_ccode [of ?c] by (simp add: hex2_def)
  finally have "plp_snprintf 4 ''%02x'' [AInt (ccode ?c)] = take 3 (hex2 ?c)"
    by (subst snprintf_text) (auto simp: hex2_ok)
  then show ?thesis by (simp add: hex2_def c)
qed

definition hex_text :: "byte list \<Rightarrow> cstr" where
  "hex_text bs = concat (map (\<lambda>b. hex2 (char_of (uint b))) bs)"

lemma hexstr_text: "2 * length bs < n \<Longrightarrow> hexstr bs n = hex_text bs"
  by (induction bs arbitrary: n) (auto simp: hex_text_def snprintf_02x)

lemma hex_text_pairs: "hex_pairs (hex_text bs) = bs"
proof (induction bs)
  case (Cons b bs)
  have "word_of_int (fst (strtol (hex2 (char_of (uint b))) 16)) = b"
    using uint_lt2p [of b] by (simp add: strtol_hex2 ccode_def of_char_mod_256 mod_pos_pos_trivial)
  with Cons show ?case by (simp add: hex_text_def hex2_def)
qed (simp add: hex_text_def)

lemma hex_text_alnum: "c \<in> set (hex_text bs) \<Longrightarrow> isalnum c"
  using hex2_alnum by (auto simp: hex_text_def)

lemma length_hex_text: "length (hex_text bs) = 2 * length bs"
  by (induction bs) (auto simp: hex_text_def hex2_def)

subsection \<open>The two sides\<close>

text \<open>What the client proves: the hash of the challenge, the key, the file and its name.\<close>

definition proof_of :: "byte list \<Rightarrow> byte list \<Rightarrow> cstr \<Rightarrow> cstr \<Rightarrow> byte list option" where
  "proof_of challenge key file_text name =
     (case xor_key key challenge of
        None \<Rightarrow> None
      | Some c1 \<Rightarrow> map_option (\<lambda>c2. md5 (xor_name 0 name c2)) (xor_key (md5 (map of_char file_text)) c1))"

lemma length_digest: "length (digest_bytes st) = 16"
  by (cases st) (simp add: digest_bytes_def word_bytes_def)

lemma length_md5: "length (md5 m) = 16"
  by (simp add: md5_def length_digest)

lemma length_xor_key: "xor_key key c = Some d \<Longrightarrow> length d = KEY_LENGTH"
  by (auto simp: xor_key_def split: if_splits)

lemma length_xor_name: "length (xor_name n s c) = length c"
  by (induction n s c rule: xor_name.induct) simp_all

lemma md5_response_proof:
  assumes "whole f"
  shows "md5_response challenge key (MDFile f) name = map_option hex_text (proof_of challenge key (flat f) name)"
proof -
  have s: "MDString m = md5 m" if "length m = KEY_LENGTH" for m
    using MD5Final_digest [OF MD5Update_inv [OF MD5Init_inv], of m] that by (simp add: MDString_def KEY_LENGTH_def)
  have h: "hexstr (md5 m) LARGEBUFFER = hex_text (md5 m)" for m
    by (rule hexstr_text) (simp add: length_md5 LARGEBUFFER_def)
  show ?thesis
    by (auto simp: md5_response_def proof_of_def MDFile_md5 [OF assms] s h length_xor_name dest!: length_xor_key split: option.splits)
qed

lemma proof_of_key: "key \<noteq> [] \<Longrightarrow> \<exists>d. proof_of challenge key t name = Some d \<and> length d = 16"
proof -
  have "md5 (map of_char t) \<noteq> []" using length_md5 [of "map of_char t"] by (metis list.size(3) zero_neq_numeral)
  then show "key \<noteq> [] \<Longrightarrow> \<exists>d. proof_of challenge key t name = Some d \<and> length d = 16"
    by (simp add: proof_of_def xor_key_def length_md5)
qed

lemma wire_name_facts:
  assumes "wire_name s"
  shows "CHR '' '' \<notin> set s" "LF \<notin> set s" "CHR 0x0D \<notin> set s" "NUL \<notin> set s" "length s \<le> 140" "s \<noteq> []"
  using assms wire_name_plain [OF assms] by (auto simp: plain_char_def wire_name_def)

lemma hex_text_facts:
  "CHR '' '' \<notin> set (hex_text bs)" "LF \<notin> set (hex_text bs)" "CHR 0x0D \<notin> set (hex_text bs)" "NUL \<notin> set (hex_text bs)"
  "set (hex_text bs) \<inter> set Whitespace = {}"
proof -
  have "list_all (\<lambda>c. \<not> isalnum c) (CHR 0x0D # NUL # Whitespace)" by code_simp
  then have "c \<notin> set (hex_text bs)" if "c \<in> set (CHR 0x0D # NUL # Whitespace)" for c
    using that hex_text_alnum [of c bs] by (auto simp: list_all_iff)
  then show "CHR '' '' \<notin> set (hex_text bs)" "LF \<notin> set (hex_text bs)" "CHR 0x0D \<notin> set (hex_text bs)" "NUL \<notin> set (hex_text bs)"
    "set (hex_text bs) \<inter> set Whitespace = {}"
    by (auto simp: Whitespace_def)
qed

lemma alnum_visible: "\<forall>c\<in>set s. isalnum c \<Longrightarrow> visible vis s = s"
  by (intro visible_clean) (auto simp: ctype_defs)

lemma name_text: "wire_name s \<Longrightarrow> plp_snprintf SMALLBUFFER ''%s'' [AStr (Some s)] = s"
proof -
  assume w: "wire_name s"
  have "dopr_text (\<lambda>_ (_::unit). []) [] True ''%s'' [AStr (Some s)] = Some s"
    using visible_plain [of s] wire_name_plain [OF w] by (simp add: fmt_eval)
  then show ?thesis using snprintf_text [of "''%s''" "[AStr (Some s)]" s SMALLBUFFER] wire_name_facts [OF w]
    by (simp add: cstr_ok_def SMALLBUFFER_def)
qed

lemma response_text:
  assumes "wire_name s" "length d = 16"
  shows "response_line s (hex_text d) = Some (s @ CHR '' '' # hex_text d @ [LF])"
proof -
  have "dopr_text (\<lambda>_ (_::unit). []) [] True '' %s'' [AStr (Some (hex_text d))] = Some (CHR '' '' # hex_text d)"
    using alnum_visible [of "hex_text d"] hex_text_alnum by (simp add: fmt_eval)
  then show ?thesis
    using snprintf_text [of "'' %s''" "[AStr (Some (hex_text d))]" "CHR '' '' # hex_text d" "SMALLBUFFER - int (length s) - 1"]
      wire_name_facts [OF assms(1)] hex_text_facts [of d] assms(2)
    by (simp add: cstr_ok_def SMALLBUFFER_def response_line_def length_hex_text NUL_def)
qed

lemma split_response_text:
  assumes "wire_name s" "length d = 16"
  shows "split_response env (s @ CHR '' '' # hex_text d) = Inr (s, hex_text d)"
proof -
  have "strchr (s @ CHR '' '' # hex_text d) (CHR '' '') = Some (CHR '' '' # hex_text d)"
    using wire_name_facts(1) [OF assms(1)] by (induction s) auto
  moreover have "strpbrk (hex_text d) Whitespace = None" using hex_text_facts(5) by (simp add: strpbrk_None_iff)
  moreover have "hex_text d \<noteq> []" using length_hex_text [of d] assms(2) by auto
  ultimately show ?thesis by (simp add: split_response_def length_hex_text assms(2))
qed

lemma decode_challenge_text: "length c = KEY_LENGTH \<Longrightarrow> decode_challenge (hex_text c) = c"
  by (simp add: decode_challenge_def hex_text_pairs)

text \<open>
  What the server sends to the client behind its first acknowledgement: the challenge, the acknowledgement of the client's
  line, and the answer, with its status.
\<close>

definition answer_status :: "int \<Rightarrow> cstr \<Rightarrow> int" where
  "answer_status status content = (if content = [] \<and> status = 0 then 0 else ACK_FAIL)"

definition md5_server_text :: "byte list \<Rightarrow> int \<Rightarrow> cstr \<Rightarrow> cstr" where
  "md5_server_text challenge status content = hex_text challenge @ LF # NUL # char_of (answer_status status content) # content"

definition client_text :: "cstr \<Rightarrow> byte list \<Rightarrow> cstr \<Rightarrow> cstr" where
  "client_text name d file_text = name @ CHR '' '' # hex_text d @ LF # file_text"

lemma answer_char:
  "ccode (char_of (answer_status st c)) = answer_status st c" "\<not> isprint (char_of (answer_status st c))"
  "char_of (answer_status st c) = NUL \<longleftrightarrow> answer_status st c = 0"
  by (auto simp: answer_status_def ACK_FAIL_def isprint_def ccode_def NUL_def char_of_def bit_simps)

lemma md5_send_proves:
  assumes key: "send_key env i = Inr (dest, key)" "key \<noteq> []" "wire_name dest"
    and f: "sf_hashed fs = Some f" "whole f" "whole (sf_sent fs)" "flat (sf_sent fs) = flat f"
    and out: "sf_out fs = Some out" "writes out = []" "sent out = []"
    and l: "0 \<le> sock l" "writes l = []" "whole (reads l)" "flat (reads l) = md5_server_text c st content" "length c = KEY_LENGTH"
    and d: "proof_of c key (flat f) dest = Some d"
  shows "md5_send env i fs l = Some (answer_status st content, [],
      l\<lparr>sent := sent l @ client_text dest d (flat f), reads := []\<rparr>, Some content)"
proof -
  have ld: "length d = 16" using proof_of_key [OF key(2), of c "flat f" dest] d by simp
  obtain r1 where r1: "Link_line_read LARGEBUFFER l = (0, hex_text c, l\<lparr>reads := r1\<rparr>)" "whole r1"
    "flat r1 = NUL # char_of (answer_status st content) # content"
    using Link_line_read_reads [OF l(1,3) l(4) [unfolded md5_server_text_def] hex_text_facts(2,3), of LARGEBUFFER] l(5)
    by (auto simp: length_hex_text LARGEBUFFER_def KEY_LENGTH_def)
  obtain r2 where r2: "read_some 1 r1 = (Bytes [NUL], r2)" "whole r2" "flat r2 = char_of (answer_status st content) # content"
    by (rule read_one_whole [OF r1(2,3)])
  obtain r3 where r3: "read_some 1 r2 = (Bytes [char_of (answer_status st content)], r3)" "whole r3" "flat r3 = content"
    by (rule read_one_whole [OF r2(2,3)])
  let ?msg = "dest @ CHR '' '' # hex_text d @ [LF]"
  have e: "exchange ?msg (l\<lparr>reads := r1\<rparr>) = (0, 0, put_link ?msg (l\<lparr>reads := r2\<rparr>))"
    using l(1,2) r2(1) by (simp add: exchange_def Link_send_def write_link_def read_link_def put_link_def)
  have b: "buf_str (hex_text c) = hex_text c"
    using hex_text_facts(4) [of c] by (simp add: buf_str_def takeWhile_eq_all_conv) metis
  have "hex_text c \<noteq> []" using length_hex_text [of c] l(5) by (auto simp: KEY_LENGTH_def)
  then show ?thesis
    using r1(1) b l(2,5) e f out copy_pieces_free [OF r3(2), of out] r3(1,3)
    by (simp add: md5_send_def key name_text length_hex_text KEY_LENGTH_def decode_challenge_text md5_response_proof d
        response_text [OF key(3) ld] copy_pieces_free read_answer_def read_link_def answer_char put_link_def client_text_def)
qed

lemma md5_receive_checks:
  assumes env: "me_is_server env" "Find_exists_value i ''server_keyfile'' (Some Hash_value_sep) = Some keyfile"
    and key: "receive_key env keyfile dest = Inr key" "wire_name dest" "length d = 16"
    and c: "length c = KEY_LENGTH" "proof_of c key file_text dest = Some d"
    and f: "rf_out fs = Some out" "writes out = []" "sent out = []" "rf_in fs file_text = Some f" "whole f" "flat f = file_text"
    and work: "rf_work fs (Set_str_value hdr FROM (Some dest)) file_text = (st, content)"
    and ans: "rf_answer fs content = Some g" "whole g" "flat g = content"
    and l: "0 \<le> sock l" "writes l = []" "whole (reads l)" "flat (reads l) = client_text dest d file_text"
  shows "md5_receive env i hdr fs c l = Some (0, [],
      l\<lparr>sent := sent l @ NUL # md5_server_text c st content, reads := []\<rparr>, Some (Set_str_value hdr FROM (Some dest), file_text))"
proof -
  let ?line = "dest @ CHR '' '' # hex_text d"
  have name: "LF \<notin> set ?line" "CHR 0x0D \<notin> set ?line" "NUL \<notin> set ?line" "length ?line < 180"
    using wire_name_facts [OF key(2)] hex_text_facts [of d] key(3) by (auto simp: length_hex_text NUL_def)
  define k where "k = put_link (hex_text c @ [LF]) (put_link [NUL] l)"
  have k: "0 \<le> sock k" "writes k = []" "reads k = reads l" "sent k = sent l @ NUL # hex_text c @ [LF]" using l by (simp_all add: k_def put_link_def)
  have fl: "flat (reads k) = ?line @ LF # file_text" using l(4) k(3) by (simp add: client_text_def)
  obtain r1 where r1: "Link_line_read (nat SMALLBUFFER - 1) k = (0, ?line, k\<lparr>reads := r1\<rparr>)" "whole r1" "flat r1 = file_text"
    using Link_line_read_reads [OF k(1) _ fl name(1,2), of "nat SMALLBUFFER - 1"] l(3) k(3) name(4) by (auto simp: SMALLBUFFER_def)
  have b: "buf_str ?line = ?line"
    using name(3) by (simp only: buf_str_def takeWhile_eq_all_conv) metis
  have s: "Link_send [NUL] None l = (0, None, put_link [NUL] l)"
    "Link_send (hex_text c @ [LF]) None (put_link [NUL] l) = (0, None, k)"
    "Link_send [NUL] None (k\<lparr>reads := r1\<rparr>) = (0, None, put_link [NUL] (k\<lparr>reads := r1\<rparr>))"
    using l(1,2) k(1,2) by (simp_all add: Link_send_def write_link_def put_link_def k_def)
  have h: "hexstr c LARGEBUFFER = hex_text c" using c(1) by (intro hexstr_text) (simp add: KEY_LENGTH_def LARGEBUFFER_def)
  have z: "char_of (0 :: int) = CHR 0x00" by code_simp
  have check: "check_file env fs hdr c key dest (hex_text d) (put_link [NUL] (k\<lparr>reads := r1\<rparr>)) = Some (0, [],
      l\<lparr>sent := sent l @ NUL # md5_server_text c st content, reads := []\<rparr>, Some (Set_str_value hdr FROM (Some dest), file_text))"
    using f ans k(2,4) r1(3) copy_pieces_free [OF r1(2) f(2)] copy_pieces_free [OF ans(2)]
    by (simp add: check_file_def take_file_def put_link_def md5_response_proof c(2) work send_answer_def write_once_def
        md5_server_text_def answer_status_def NUL_def k_def z)
  have "length ?line < nat SMALLBUFFER - 2" using name(4) by (simp add: SMALLBUFFER_def)
  then show ?thesis
    using check r1(1) by (simp add: md5_receive_def env key(1) h s b split_response_text [OF key(2,3)])
qed

definition reads_as :: "rd list \<Rightarrow> cstr \<Rightarrow> bool" where
  "reads_as f s \<longleftrightarrow> whole f \<and> flat f = s"

definition empty_file :: "link \<Rightarrow> bool" where
  "empty_file l \<longleftrightarrow> writes l = [] \<and> sent l = []"

text \<open>A connection that takes what is written, and over which \<open>s\<close> arrives.\<close>

definition connected :: "link \<Rightarrow> cstr \<Rightarrow> bool" where
  "connected l s \<longleftrightarrow> 0 \<le> sock l \<and> writes l = [] \<and> reads_as (reads l) s"

text \<open>
  C15: A client and a server with the same key for the client's name succeed, whatever the challenge and in whatever
  pieces the two connections and the files are read: the server does the work for the whole file of the client and
  for its name, and the client gets the status of the work and its output.
\<close>

theorem md5_exchange:
  assumes "send_key cenv ci = Inr (dest, key)" "key \<noteq> []" "wire_name dest"
    and "me_is_server senv" "Find_exists_value si ''server_keyfile'' (Some Hash_value_sep) = Some keyfile"
    and "receive_key senv keyfile dest = Inr key" "length c = KEY_LENGTH"
    and "sf_hashed cfs = Some f" "reads_as f t" "reads_as (sf_sent cfs) t" "sf_out cfs = Some out" "empty_file out"
    and "rf_out sfs = Some sout" "empty_file sout" "rf_in sfs t = Some f2" "reads_as f2 t"
    and "rf_work sfs (Set_str_value hdr FROM (Some dest)) t = (st, content)"
    and "rf_answer sfs content = Some g" "reads_as g content"
    and "connected cl (md5_server_text c st content)"
  shows "\<exists>d. proof_of c key t dest = Some d
    \<and> md5_send cenv ci cfs cl
        = Some (answer_status st content, [], cl\<lparr>sent := sent cl @ client_text dest d t, reads := []\<rparr>, Some content)
    \<and> (\<forall>sl. connected sl (client_text dest d t) \<longrightarrow> md5_receive senv si hdr sfs c sl
        = Some (0, [], sl\<lparr>sent := sent sl @ NUL # md5_server_text c st content, reads := []\<rparr>, Some (Set_str_value hdr FROM (Some dest), t)))"
proof -
  obtain d where d: "proof_of c key t dest = Some d" "length d = 16" using proof_of_key [OF assms(2)] by blast
  note defs = reads_as_def empty_file_def connected_def
  have "md5_send cenv ci cfs cl
      = Some (answer_status st content, [], cl\<lparr>sent := sent cl @ client_text dest d (flat f), reads := []\<rparr>, Some content)"
    by (rule md5_send_proves [where out = out]) (use assms d in \<open>auto simp: defs\<close>)
  moreover have "md5_receive senv si hdr sfs c sl
      = Some (0, [], sl\<lparr>sent := sent sl @ NUL # md5_server_text c st content, reads := []\<rparr>, Some (Set_str_value hdr FROM (Some dest), t))"
    if "connected sl (client_text dest d t)" for sl
    by (rule md5_receive_checks [where d = d and out = sout and f = f2]) (use assms d that in \<open>auto simp: defs\<close>)
  ultimately show ?thesis using d(1) assms(9) by (auto simp: reads_as_def)
qed

lemma check_file_ran:
  assumes "check_file env fs hdr c key dest hash l = Some (st, e, l1, Some (h, t))"
  shows "h = Set_str_value hdr FROM (Some dest) \<and> (\<exists>f. rf_in fs t = Some f \<and> md5_response c key (MDFile f) dest = Some hash)"
  using assms by (auto simp: check_file_def Let_def split: prod.splits copied.splits option.splits if_splits)


subsection \<open>Errors that are taken for success\<close>

text \<open>A client without a key sends nothing and has the status of success; so has one whose server goes away without an answer.\<close>

lemma missing_key_is_success: "send_key env i = Inl e \<Longrightarrow> md5_send env i fs l = Some (0, e, l, None)"
  by (simp add: md5_send_def)

lemma no_answer_is_success: "reads l = [] \<Longrightarrow> read_answer env l out = (0, [], l, sent out)"
  by (simp add: read_answer_def read_link_def copy_pieces.simps)

text \<open>The server's buffer for a key has no NUL behind a key of 16 characters, so that white space behind it in memory replaces the key.\<close>

lemma long_key_reads_on:
  "key_string env KEY_LENGTH ''0123456789abcdef'' = ''0123456789abcdef'' @ me_junk env"
  "cut_word (''0123456789abcdef'' @ '' x'') = Some (''0123456789abcdef'', ''x'')"
  by (simp_all add: key_string_def KEY_LENGTH_def) code_simp

subsection \<open>An example\<close>

definition demo_md5_env :: "bool \<Rightarrow> md5_env" where
  "demo_md5_env srv = \<lparr>me_is_server = srv, me_keyfile = Some ''/c'',
     me_files = (\<lambda>p. if p = ''/c'' then Some (''srv=ann sesame'' @ [LF]) else if p = ''/s'' then Some (''ann=sesame'' @ [LF]) else None),
     me_errlen = 80, me_errno = [], me_tempfile = ''/tmp/x'', me_junk = [], me_printer = None, me_host = None\<rparr>"

definition demo_file :: link where
  "demo_file = \<lparr>sock = 4, sent = [], writes = [], reads = []\<rparr>"

definition demo_md5_files :: send_files where
  "demo_md5_files = \<lparr>sf_hashed = Some [Bytes ''h'', Bytes ''i''], sf_sent = [Bytes ''hi''], sf_out = Some demo_file\<rparr>"

definition demo_server_files :: server_files where
  "demo_server_files = \<lparr>rf_out = Some demo_file, rf_in = (\<lambda>t. Some (if t = [] then [] else [Bytes t])),
     rf_work = (\<lambda>h t. (0, ''ok'')), rf_answer = (\<lambda>t. Some (if t = [] then [] else [Bytes t]))\<rparr>"

definition demo_challenge :: "byte list" where
  "demo_challenge = replicate 16 7"

definition demo_key :: "byte list" where
  "demo_key = map of_char ''sesame''"

lemma demo_send_key: "Find_str_value i DESTINATION = Some ''srv'' \<Longrightarrow> send_key (demo_md5_env False) i = Inr (''ann'', demo_key)"
proof -
  assume "Find_str_value i DESTINATION = Some ''srv''"
  moreover have "Read_file_list 5 (me_files (demo_md5_env False)) key_mode 0 False False ''/c'' [] = Some [''srv=ann sesame'']" by code_simp
  moreover have "Find_exists_value [''srv=ann sesame''] ''srv'' (Some Hash_value_sep) = Some ''ann sesame''" by code_simp
  moreover have "cut_word ''ann sesame'' = Some (''ann'', ''sesame'')" by code_simp
  ultimately show ?thesis
    by (simp add: send_key_def md5key_def key_string_def key_bytes_def KEY_LENGTH_def SMALLBUFFER_def demo_md5_env_def demo_key_def)
qed

lemma demo_receive_key: "receive_key (demo_md5_env True) ''/s'' ''ann'' = Inr demo_key"
proof -
  have "Read_file_list 5 (me_files (demo_md5_env True)) key_mode 0 False False ''/s'' [] = Some [''ann=sesame'']" by code_simp
  moreover have "Find_exists_value [''ann=sesame''] ''ann'' (Some Hash_value_sep) = Some ''sesame''" by code_simp
  moreover have "cut_word ''sesame'' = None" by code_simp
  ultimately show ?thesis by (simp add: receive_key_def md5key_def key_string_def key_bytes_def KEY_LENGTH_def demo_key_def)
qed

lemma demo_server_keyfile: "Find_exists_value [''server_keyfile=/s''] ''server_keyfile'' (Some Hash_value_sep) = Some ''/s''"
  by code_simp

definition demo_auth_link :: "cstr \<Rightarrow> link" where
  "demo_auth_link s = demo_file\<lparr>reads := [Bytes s]\<rparr>"

lemma demo_connected: "s \<noteq> [] \<Longrightarrow> connected (demo_auth_link s) s"
  by (simp add: connected_def demo_auth_link_def demo_file_def reads_as_def)

lemma demo_md5_facts:
  "wire_name ''ann''" "me_is_server (demo_md5_env True)" "length demo_challenge = KEY_LENGTH"
  "sf_hashed demo_md5_files = Some [Bytes ''h'', Bytes ''i'']" "sf_sent demo_md5_files = [Bytes ''hi'']" "sf_out demo_md5_files = Some demo_file"
  "rf_out demo_server_files = Some demo_file" "rf_in demo_server_files ''hi'' = Some [Bytes ''hi'']"
  "rf_work demo_server_files h t = (0, ''ok'')" "rf_answer demo_server_files ''ok'' = Some [Bytes ''ok'']"
  "reads_as [Bytes ''h'', Bytes ''i''] ''hi''" "reads_as [Bytes ''hi''] ''hi''" "reads_as [Bytes ''ok''] ''ok''" "empty_file demo_file"
  by (simp_all add: demo_md5_env_def demo_challenge_def KEY_LENGTH_def demo_md5_files_def demo_server_files_def reads_as_def
      empty_file_def demo_file_def) code_simp

theorem md5_exchange_witness:
  "\<exists>d. proof_of demo_challenge demo_key ''hi'' ''ann'' = Some d
    \<and> md5_send (demo_md5_env False) [''destination=srv''] demo_md5_files (demo_auth_link (md5_server_text demo_challenge 0 ''ok''))
        = Some (ACK_FAIL, [], demo_file\<lparr>sent := client_text ''ann'' d ''hi''\<rparr>, Some ''ok'')
    \<and> md5_receive (demo_md5_env True) [''server_keyfile=/s''] [] demo_server_files demo_challenge (demo_auth_link (client_text ''ann'' d ''hi''))
        = Some (0, [], demo_file\<lparr>sent := NUL # md5_server_text demo_challenge 0 ''ok''\<rparr>, Some (Set_str_value [] FROM (Some ''ann''), ''hi''))"
proof -
  have n: "md5_server_text demo_challenge 0 ''ok'' \<noteq> []" "demo_key \<noteq> []" by (simp_all add: md5_server_text_def demo_key_def)
  have dest: "Find_str_value [''destination=srv''] DESTINATION = Some ''srv''" by code_simp
  have "reads_as (sf_sent demo_md5_files) ''hi''" unfolding demo_md5_facts by (rule demo_md5_facts)
  from md5_exchange [where hdr = "[]", OF demo_send_key [OF dest] n(2) demo_md5_facts(1,2) demo_server_keyfile demo_receive_key demo_md5_facts(3,4,11)
      this demo_md5_facts(6,14,7,14,8,12,9,10,13) demo_connected [OF n(1)]]
  obtain d where d: "proof_of demo_challenge demo_key ''hi'' ''ann'' = Some d"
      "md5_send (demo_md5_env False) [''destination=srv''] demo_md5_files (demo_auth_link (md5_server_text demo_challenge 0 ''ok''))
        = Some (ACK_FAIL, [], demo_file\<lparr>sent := client_text ''ann'' d ''hi''\<rparr>, Some ''ok'')"
      "\<And>sl. connected sl (client_text ''ann'' d ''hi'') \<Longrightarrow> md5_receive (demo_md5_env True) [''server_keyfile=/s''] [] demo_server_files demo_challenge sl
        = Some (0, [], sl\<lparr>sent := sent sl @ NUL # md5_server_text demo_challenge 0 ''ok'', reads := []\<rparr>, Some (Set_str_value [] FROM (Some ''ann''), ''hi''))"
    by (auto simp: answer_status_def demo_auth_link_def demo_file_def)
  have "connected (demo_auth_link (client_text ''ann'' d ''hi'')) (client_text ''ann'' d ''hi'')"
    by (rule demo_connected) (simp add: client_text_def)
  from d(1,2) d(3) [OF this] show ?thesis by (intro exI [of _ d]) (simp add: demo_auth_link_def demo_file_def)
qed


end
