(* ===== verification/AuthPlugins.thy ===== *)
theory AuthPlugins
  imports MD5Auth Glob
begin

section \<open>The table of authentication plug-ins (user_auth.c, auth/test_auth.c)\<close>

text \<open>
  An authentication is a record of functions, \<open>struct security\<close>: one that sends a file for the client, and one that
  receives it for the server and does the work. The locale \<open>auth_plugin\<close> is what the transfers of \<open>SecureTransfer\<close>
  rely on; the two plug-ins that need no other library, \<open>md5\<close> and \<open>test\<close>, meet it.
\<close>

type_synonym send_result = "int \<times> cstr \<times> link \<times> cstr option"
type_synonym secure_work = "line_list \<Rightarrow> cstr \<Rightarrow> int \<times> cstr"

record security =
  sec_name :: cstr
  sec_server_tag :: "cstr option"
  sec_config_tag :: "cstr option"
  sec_flags :: int
  sec_send :: "(line_list \<Rightarrow> cstr \<Rightarrow> link \<Rightarrow> send_result option) option"
  sec_receive :: "(line_list \<Rightarrow> line_list \<Rightarrow> secure_work \<Rightarrow> link \<Rightarrow> receive_result option) option"

text \<open>The name of a plug-in is the pattern; \<open>None\<close> is a read behind the end of the pattern.\<close>

fun FindSecurity :: "security list \<Rightarrow> cstr \<Rightarrow> security option option" where
  "FindSecurity [] name = Some None"
| "FindSecurity (s # ss) name =
     (case Globmatch (Some (sec_name s)) (Some name) of
        None \<Rightarrow> None
      | Some r \<Rightarrow> if r = 0 then Some (Some s) else FindSecurity ss name)"

fun show_names :: "int \<Rightarrow> cstr \<Rightarrow> security list \<Rightarrow> cstr" where
  "show_names maxlen str [] = str"
| "show_names maxlen str (s # ss) =
     show_names maxlen
       (str @ plp_snprintf (maxlen - int (length str)) ''%s%s''
         [AStr (Some (if str \<noteq> [] then '','' else [])), AStr (Some (sec_name s))]) ss"

definition ShowSecuritySupported :: "int \<Rightarrow> security list \<Rightarrow> cstr" where
  "ShowSecuritySupported maxlen ss = show_names maxlen [] ss"

subsection \<open>The plug-in for tests\<close>

definition Test_send :: "md5_env \<Rightarrow> send_files \<Rightarrow> link \<Rightarrow> send_result option" where
  "Test_send env fs l =
     (case sf_hashed fs of
        None \<Rightarrow> Some (JABORT, file_failed env (''Test_send: open '' @ quoted @ '' for read failed - %s''), l, None)
      | Some f \<Rightarrow>
          (case copy_pieces f l of
             (Write_failed, _, l1) \<Rightarrow>
               Some (JABORT, message env ''Test_send: write to socket failed - %s'' [AStr (Some (me_errno env))], l1, None)
           | (Read_failed, _, l1) \<Rightarrow> Some (JABORT, file_failed env (''Test_send: read from '' @ quoted @ '' failed - %s''), l1, None)
           | (All, _, l1) \<Rightarrow>
               (case sf_out fs of
                  None \<Rightarrow> Some (JABORT, file_failed env (''Test_send: open '' @ quoted @ '' for write failed - %s''), l1, None)
                | Some out \<Rightarrow>
                    (case copy_pieces (reads l1) out of
                       (Write_failed, rs, o1) \<Rightarrow>
                         Some (JABORT, file_failed env (''Test_send: write to '' @ quoted @ '' failed - %s''), l1\<lparr>reads := rs\<rparr>, Some (sent o1))
                     | (_, rs, o1) \<Rightarrow> Some (0, [], l1\<lparr>reads := rs\<rparr>, Some (sent o1))))))"

text \<open>\<open>None\<close> is a temporary file that cannot be opened, which ends the process.\<close>

definition Test_receive :: "md5_env \<Rightarrow> line_list \<Rightarrow> server_files \<Rightarrow> link \<Rightarrow> receive_result option" where
  "Test_receive env hdr fs l =
     (case write_link [NUL] l of
        (False, l1) \<Rightarrow> Some (JABORT, message env ''Test_receive: ACK 0 write error - %s'' [AStr (Some (me_errno env))], l1, None)
      | (True, l1) \<Rightarrow>
          (case rf_out fs of
             None \<Rightarrow> None
           | Some out \<Rightarrow>
               (case copy_pieces (reads l1) out of
                  (All, rs, o1) \<Rightarrow>
                    (case rf_work fs hdr (sent o1) of
                       (status, content) \<Rightarrow>
                         (case rf_answer fs content of
                            None \<Rightarrow> None
                          | Some f \<Rightarrow>
                              (case copy_pieces f (l1\<lparr>reads := rs\<rparr>) of
                                 (r, _, l2) \<Rightarrow> Some (if r = All then status else JFAIL, [], l2, Some (hdr, sent o1)))))
                | (_, rs, o1) \<Rightarrow> Some (JFAIL, [], l1\<lparr>reads := rs\<rparr>, None))))"

subsection \<open>What a plug-in promises\<close>

text \<open>
  In a session \<open>s\<close> that is \<open>ok\<close>, what the client sends for a file, \<open>wire s t\<close>, makes the server do the work for the same
  file and for the header with the sender that the plug-in has verified, and what the server answers gives the output of
  the work to the client.
\<close>

locale auth_plugin =
  fixes ok :: "'s \<Rightarrow> bool"
    and send :: "'s \<Rightarrow> cstr \<Rightarrow> link \<Rightarrow> send_result option"
    and receive :: "'s \<Rightarrow> line_list \<Rightarrow> secure_work \<Rightarrow> link \<Rightarrow> receive_result option"
    and wire :: "'s \<Rightarrow> cstr \<Rightarrow> cstr"
    and reply :: "'s \<Rightarrow> int \<Rightarrow> cstr \<Rightarrow> cstr"
    and sender :: "'s \<Rightarrow> line_list \<Rightarrow> line_list"
  assumes send_wire: "ok s \<Longrightarrow> connected l (reply s st content) \<Longrightarrow>
      \<exists>status. send s t l = Some (status, [], l\<lparr>sent := sent l @ wire s t, reads := []\<rparr>, Some content)"
    and receive_work: "ok s \<Longrightarrow> connected l (wire s t) \<Longrightarrow> work (sender s hdr) t = (st, content) \<Longrightarrow>
      \<exists>status. receive s hdr work l = Some (status, [], l\<lparr>sent := sent l @ NUL # reply s st content, reads := []\<rparr>, Some (sender s hdr, t))"
begin

text \<open>Both sides of a session together: the work is done once, for the client's file, and its output comes back.\<close>

lemma session:
  assumes "ok s" "work (sender s hdr) t = (st, content)"
    and "connected cl (reply s st content)" "connected sl (wire s t)"
  shows "\<exists>status1 status2 cl1 sl1. send s t cl = Some (status1, [], cl1, Some content)
    \<and> receive s hdr work sl = Some (status2, [], sl1, Some (sender s hdr, t))
    \<and> sent cl1 = sent cl @ wire s t \<and> sent sl1 = sent sl @ NUL # reply s st content"
proof -
  from send_wire [OF assms(1,3), of t] obtain a
    where "send s t cl = Some (a, [], cl\<lparr>sent := sent cl @ wire s t, reads := []\<rparr>, Some content)" ..
  moreover from receive_work [where work = work, OF assms(1,4,2)] obtain b
    where "receive s hdr work sl = Some (b, [], sl\<lparr>sent := sent sl @ NUL # reply s st content, reads := []\<rparr>, Some (sender s hdr, t))" ..
  ultimately show ?thesis by simp
qed

end

text \<open>A session has the two environments, what the client knows of the printer, the server's configuration, and the challenge.\<close>

record auth_session =
  as_client :: md5_env
  as_info :: line_list
  as_server :: md5_env
  as_config :: line_list
  as_challenge :: "byte list"
  as_pieces :: "cstr \<Rightarrow> rd list"
  as_file :: link

definition session_files :: "auth_session \<Rightarrow> cstr \<Rightarrow> send_files" where
  "session_files s t = \<lparr>sf_hashed = Some (as_pieces s t), sf_sent = as_pieces s t, sf_out = Some (as_file s)\<rparr>"

definition session_work :: "auth_session \<Rightarrow> secure_work \<Rightarrow> server_files" where
  "session_work s work = \<lparr>rf_out = Some (as_file s), rf_in = (\<lambda>t. Some (as_pieces s t)), rf_work = work, rf_answer = (\<lambda>t. Some (as_pieces s t))\<rparr>"

definition test_ok :: "auth_session \<Rightarrow> bool" where
  "test_ok s \<longleftrightarrow> empty_file (as_file s) \<and> (\<forall>t. reads_as (as_pieces s t) t)"

interpretation test: auth_plugin test_ok "\<lambda>s t. Test_send (as_client s) (session_files s t)"
  "\<lambda>s hdr work. Test_receive (as_server s) hdr (session_work s work)" "\<lambda>s t. t" "\<lambda>s st content. content" "\<lambda>s hdr. hdr"
proof
  fix s l and st :: int and content t
  assume a: "test_ok s" "connected l content"
  then have "copy_pieces (as_pieces s t) l = (All, [], put_link t l)" "copy_pieces (reads l) (as_file s) = (All, [], put_link content (as_file s))"
    using copy_pieces_free [of "as_pieces s t" l] copy_pieces_free [of "reads l" "as_file s"]
    by (auto simp: test_ok_def connected_def reads_as_def empty_file_def)
  with a show "\<exists>status. Test_send (as_client s) (session_files s t) l = Some (status, [], l\<lparr>sent := sent l @ t, reads := []\<rparr>, Some content)"
    by (simp add: Test_send_def session_files_def put_link_def test_ok_def empty_file_def)
next
  fix s l t hdr st content and work :: secure_work
  assume a: "test_ok s" "connected l t" "work hdr t = (st, content)"
  let ?l = "put_link [NUL] l"
  have "copy_pieces (reads l) (as_file s) = (All, [], put_link t (as_file s))"
    "copy_pieces (as_pieces s content) (?l\<lparr>reads := []\<rparr>) = (All, [], put_link content (?l\<lparr>reads := []\<rparr>))"
    using a copy_pieces_free [of "reads l" "as_file s"] copy_pieces_free [of "as_pieces s content" "?l\<lparr>reads := []\<rparr>"]
    by (auto simp: test_ok_def connected_def reads_as_def empty_file_def put_link_def)
  with a show "\<exists>status. Test_receive (as_server s) hdr (session_work s work) l
      = Some (status, [], l\<lparr>sent := sent l @ NUL # content, reads := []\<rparr>, Some (hdr, t))"
    by (simp add: Test_receive_def session_work_def free_writes put_link_def test_ok_def empty_file_def connected_def)
qed

text \<open>For \<open>md5\<close> the two sides have the same key for the client's name.\<close>

definition md5_name :: "auth_session \<Rightarrow> cstr" where
  "md5_name s = (case send_key (as_client s) (as_info s) of Inr (dest, key) \<Rightarrow> dest | _ \<Rightarrow> [])"

definition md5_shared_key :: "auth_session \<Rightarrow> byte list" where
  "md5_shared_key s = (case send_key (as_client s) (as_info s) of Inr (dest, key) \<Rightarrow> key | _ \<Rightarrow> [])"

definition md5_ok :: "auth_session \<Rightarrow> bool" where
  "md5_ok s \<longleftrightarrow> send_key (as_client s) (as_info s) = Inr (md5_name s, md5_shared_key s) \<and> md5_shared_key s \<noteq> [] \<and> wire_name (md5_name s)
     \<and> me_is_server (as_server s)
     \<and> (case Find_exists_value (as_config s) ''server_keyfile'' (Some Hash_value_sep) of
          None \<Rightarrow> False | Some keyfile \<Rightarrow> receive_key (as_server s) keyfile (md5_name s) = Inr (md5_shared_key s))
     \<and> length (as_challenge s) = KEY_LENGTH \<and> test_ok s"

definition md5_wire :: "auth_session \<Rightarrow> cstr \<Rightarrow> cstr" where
  "md5_wire s t = client_text (md5_name s) (the (proof_of (as_challenge s) (md5_shared_key s) t (md5_name s))) t"

interpretation md5: auth_plugin md5_ok "\<lambda>s t. md5_send (as_client s) (as_info s) (session_files s t)"
  "\<lambda>s hdr work. md5_receive (as_server s) (as_config s) hdr (session_work s work) (as_challenge s)"
  md5_wire "\<lambda>s. md5_server_text (as_challenge s)" "\<lambda>s hdr. Set_str_value hdr FROM (Some (md5_name s))"
proof
  fix s l st content t
  assume a: "md5_ok s" "connected l (md5_server_text (as_challenge s) st content)"
  note defs = md5_ok_def test_ok_def empty_file_def reads_as_def connected_def session_files_def session_work_def
  have ok: "md5_shared_key s \<noteq> []" "whole (as_pieces s t)" "flat (as_pieces s t) = t" using a(1) by (auto simp: defs)
  obtain d where d: "proof_of (as_challenge s) (md5_shared_key s) t (md5_name s) = Some d" using proof_of_key [OF ok(1)] by blast
  have "md5_send (as_client s) (as_info s) (session_files s t) l = Some (answer_status st content, [],
      l\<lparr>sent := sent l @ client_text (md5_name s) d (flat (as_pieces s t)), reads := []\<rparr>, Some content)"
    by (rule md5_send_proves [where out = "as_file s"]) (use a ok d in \<open>auto simp: defs\<close>)
  then show "\<exists>status. md5_send (as_client s) (as_info s) (session_files s t) l
      = Some (status, [], l\<lparr>sent := sent l @ md5_wire s t, reads := []\<rparr>, Some content)"
    by (simp add: md5_wire_def d ok)
next
  fix s l t hdr st content and work :: secure_work
  assume a: "md5_ok s" "connected l (md5_wire s t)" "work (Set_str_value hdr FROM (Some (md5_name s))) t = (st, content)"
  note defs = md5_ok_def test_ok_def empty_file_def reads_as_def connected_def session_files_def session_work_def
  have ok: "md5_shared_key s \<noteq> []" using a(1) by (simp add: defs)
  obtain d where d: "proof_of (as_challenge s) (md5_shared_key s) t (md5_name s) = Some d" "length d = 16"
    using proof_of_key [OF ok] by blast
  obtain keyfile where k: "Find_exists_value (as_config s) ''server_keyfile'' (Some Hash_value_sep) = Some keyfile"
    "receive_key (as_server s) keyfile (md5_name s) = Inr (md5_shared_key s)"
    using a(1) by (auto simp: defs split: option.splits)
  have "md5_receive (as_server s) (as_config s) hdr (session_work s work) (as_challenge s) l = Some (0, [],
      l\<lparr>sent := sent l @ NUL # md5_server_text (as_challenge s) st content, reads := []\<rparr>, Some (Set_str_value hdr FROM (Some (md5_name s)), t))"
    by (rule md5_receive_checks [where d = d and out = "as_file s" and f = "as_pieces s t" and g = "as_pieces s content"])
      (use a d k in \<open>auto simp: defs md5_wire_def\<close>)
  then show "\<exists>status. md5_receive (as_server s) (as_config s) hdr (session_work s work) (as_challenge s) l = Some (status, [],
      l\<lparr>sent := sent l @ NUL # md5_server_text (as_challenge s) st content, reads := []\<rparr>, Some (Set_str_value hdr FROM (Some (md5_name s)), t))"
    by blast
qed

subsection \<open>The table\<close>

definition test_auth :: "auth_session \<Rightarrow> security" where
  "test_auth s = \<lparr>sec_name = ''test'', sec_server_tag = Some ''test'', sec_config_tag = Some ''test'', sec_flags = 0,
     sec_send = Some (\<lambda>i t. Test_send (as_client s) (session_files s t)),
     sec_receive = Some (\<lambda>i hdr work. Test_receive (as_server s) hdr (session_work s work))\<rparr>"

definition md5_auth :: "auth_session \<Rightarrow> security" where
  "md5_auth s = \<lparr>sec_name = ''md5'', sec_server_tag = Some ''md5'', sec_config_tag = Some ''md5'', sec_flags = 0,
     sec_send = Some (\<lambda>i t. md5_send (as_client s) i (session_files s t)),
     sec_receive = Some (\<lambda>i hdr work. md5_receive (as_server s) i hdr (session_work s work) (as_challenge s))\<rparr>"

text \<open>The table of a build without Kerberos, SSL and loadable modules.\<close>

definition SecuritySupported :: "auth_session \<Rightarrow> security list" where
  "SecuritySupported s = [test_auth s, md5_auth s]"

text \<open>
  The plug-in for tests is in every such table, and it verifies nothing: the work is done for any client that names it.
\<close>

lemma test_always_accepts:
  "FindSecurity (SecuritySupported s) ''test'' = Some (Some (test_auth s))"
  "test_ok s \<Longrightarrow> connected l t \<Longrightarrow> \<exists>r status. sec_receive (test_auth s) = Some r
    \<and> (\<exists>e l1. r i hdr work l = Some (status, e, l1, Some (hdr, t)))"
proof -
  have "Globmatch (Some ''test'') (Some ''test'') = Some 0" by code_simp
  then show "FindSecurity (SecuritySupported s) ''test'' = Some (Some (test_auth s))"
    by (simp add: SecuritySupported_def test_auth_def)
  assume a: "test_ok s" "connected l t"
  obtain st content where "work hdr t = (st, content)" by fastforce
  from test.receive_work [where work = work, OF a this] show "\<exists>r status. sec_receive (test_auth s) = Some r
    \<and> (\<exists>e l1. r i hdr work l = Some (status, e, l1, Some (hdr, t)))"
    by (auto simp: test_auth_def)
qed

end
