(* ===== verification/SecureTransfer.thy ===== *)
theory SecureTransfer
  imports AuthPlugins
begin

section \<open>Authenticated transfers (sendauth.c, lpd_secure.c, sendreq.c)\<close>

text \<open>
  A request or a job that is sent with authentication is put into a file, behind lines that say who it is from; the
  plug-in transfers the file, and the server reads the lines back, decides who the user is, and does what the file asks for.
\<close>

subsection \<open>The choice of the plug-in\<close>

text \<open>
  The options of a plug-in are those of the configuration and the printcap entry with its name as a prefix.
\<close>

record auth_env =
  ae_is_server :: bool
  Auth_forward :: "cstr option"
  Auth :: "cstr option"
  ae_table :: "security list"
  ae_defaults :: "kword list"
  ae_config :: line_list
  ae_entry :: line_list
  ae_today :: cstr
  ae_vars :: config_vars
  ae_printer :: "cstr option"
  ae_logname :: "cstr option"
  ae_authuser :: "cstr option"
  ae_errlen :: int

definition REQ_SECURE :: int where "REQ_SECURE = 8"

definition config_tag :: "security \<Rightarrow> cstr" where
  "config_tag s = (case sec_config_tag s of Some t \<Rightarrow> t | None \<Rightarrow> sec_name s)"

definition auth_options :: "auth_env \<Rightarrow> security \<Rightarrow> line_list" where
  "auth_options env s =
     (let tag = config_tag s @ ''_'' in
      snd (Expand_hash_values (ae_today env) (ae_vars env)
        (Find_tags (Find_tags (Find_default_tags [] (ae_defaults env) tag) (ae_config env) tag) (ae_entry env) tag)))"

text \<open>The first of the values that is there.\<close>

definition either_value :: "line_list \<Rightarrow> cstr \<Rightarrow> cstr \<Rightarrow> cstr option" where
  "either_value i k k2 = (case Find_str_value i k of None \<Rightarrow> Find_str_value i k2 | r \<Rightarrow> r)"

definition missing :: "auth_env \<Rightarrow> security \<Rightarrow> cstr \<Rightarrow> nat \<Rightarrow> cstr" where
  "missing env s fmt n = plp_snprintf (ae_errlen env) fmt (replicate n (AStr (Some (config_tag s))))"

text \<open>The options with the names of the two sides, or the error. \<open>job\<close> is the user of a job that was authenticated.\<close>

definition server_names :: "auth_env \<Rightarrow> security \<Rightarrow> line_list option \<Rightarrow> line_list \<Rightarrow> cstr + line_list" where
  "server_names env s job i =
     (let tag = config_tag s; from = either_value i ID ''server_principal'' in
      if from = None \<and> tag \<noteq> ''kerberos'' \<and> tag \<noteq> ''none'' then
        Inl (missing env s (''Fix_send_auth: '' @ quoted @ '' security missing '' @ [CHR 0x27] @ ''%s_id'' @ [CHR 0x27] @ '' info'') 2)
      else
        (let i1 = Set_str_value i FROM from;
             (i2, client1) = (case job of
                Some ji \<Rightarrow> (let c = Find_str_value ji AUTHUSER in (Set_str_value i1 CLIENT c, c))
              | None \<Rightarrow> (i1, ae_authuser env));
             client = (case client1 of None \<Rightarrow> Find_str_value i2 ''default_client_name'' | r \<Rightarrow> r) in
         if client = None \<and> tag \<noteq> ''none'' then
           Inl (missing env s (''Fix_send_auth: security '' @ quoted @ '' missing authenticated client'') 1)
         else
           (let i3 = Set_str_value i2 CLIENT client; dest = either_value i3 FORWARD_ID ''forward_principal'' in
            if dest = None \<and> tag \<noteq> ''kerberos'' \<and> tag \<noteq> ''none'' then
              Inl (missing env s (''Fix_send_auth: '' @ quoted @ '' security missing '' @ [CHR 0x27] @ ''%s_forward_id'' @ [CHR 0x27] @ '' info'') 2)
            else Inr (Set_str_value i3 DESTINATION dest))))"

definition client_names :: "auth_env \<Rightarrow> security \<Rightarrow> line_list \<Rightarrow> cstr + line_list" where
  "client_names env s i =
     (let tag = config_tag s; i1 = Set_str_value (Set_str_value i FROM (ae_logname env)) CLIENT (ae_logname env);
          dest = either_value i1 ID ''server_principal'' in
      if dest = None \<and> tag \<noteq> ''kerberos'' \<and> tag \<noteq> ''none'' then
        Inl (missing env s (''Fix_send_auth: '' @ quoted @ '' security missing destination '' @ [CHR 0x27] @ ''%s_id'' @ [CHR 0x27] @ '' info'') 2)
      else Inr (Set_str_value i1 DESTINATION dest))"

text \<open>
  The plug-in with its options, which have the line that announces the transfer; nothing, or an error.
\<close>

definition Fix_send_auth :: "auth_env \<Rightarrow> cstr option \<Rightarrow> line_list option \<Rightarrow> (cstr + (security \<times> line_list) option) option" where
  "Fix_send_auth env name0 job =
     (case (case name0 of None \<Rightarrow> if ae_is_server env then Auth_forward env else Auth env | r \<Rightarrow> r) of
        None \<Rightarrow> Some (Inr None)
      | Some name \<Rightarrow>
          (case FindSecurity (ae_table env) name of
             None \<Rightarrow> None
           | Some None \<Rightarrow> Some (Inl (plp_snprintf (ae_errlen env) (''Fix_send_auth: '' @ quoted @ '' security not supported'') [AStr (Some name)]))
           | Some (Some s) \<Rightarrow>
               (case (if ae_is_server env then server_names env s job (auth_options env s) else client_names env s (auth_options env s)) of
                  Inl e \<Rightarrow> Some (Inl e)
                | Inr i \<Rightarrow>
                    (let from = (if ae_is_server env then either_value i ID ''server_principal'' else ae_logname env);
                         server_tag = (case sec_server_tag s of Some t \<Rightarrow> t | None \<Rightarrow> config_tag s);
                         cmd = plp_snprintf SMALLBUFFER ''%c%s %s %s %s''
                           [AInt REQ_SECURE, AStr (ae_printer env), AStr (Some (if ae_is_server env then ''F'' else ''C'')), AStr from, AStr (Some server_tag)]
                     in Some (Inr (Some (s, Set_str_value i CMD (Some cmd))))))))"

subsection \<open>Sending\<close>

text \<open>\<open>None\<close> stands for an escaped text that does not fit its buffer.\<close>

definition Put_in_auth :: "cstr \<Rightarrow> cstr option \<Rightarrow> cstr option" where
  "Put_in_auth key value = map_option (\<lambda>v. key @ ''='' @ opt_str v @ [LF]) (Escape value 1)"

fun join_opt :: "cstr option list \<Rightarrow> cstr option" where
  "join_opt [] = Some []"
| "join_opt (x # xs) = (case (x, join_opt xs) of (Some a, Some b) \<Rightarrow> Some (a @ b) | _ \<Rightarrow> None)"

definition opt_line :: "cstr option \<Rightarrow> cstr" where
  "opt_line v = opt_str v @ [LF]"

text \<open>The lines before the request or the job. An empty line comes behind them.\<close>

definition auth_header :: "security \<Rightarrow> bool \<Rightarrow> line_list \<Rightarrow> cstr option \<Rightarrow> cstr option" where
  "auth_header s is_server i cmd =
     (let client = Find_str_value i CLIENT in
        (if sec_config_tag s \<noteq> Some ''kerberos'' then
           join_opt ([Put_in_auth DESTINATION (Find_str_value i DESTINATION)]
             @ (if is_server then [Put_in_auth SERVER (Find_str_value i FROM)] else [])
             @ [Put_in_auth CLIENT client] @ (if cmd \<noteq> None then [Put_in_auth INPUT cmd] else []))
         else Some ((if cmd \<noteq> None then opt_line cmd else []) @ (if is_server then opt_line client else []))))"

text \<open>They are written to the temporary file; a line that \<open>Put_in_auth\<close> cannot write ends the process.\<close>

definition write_header :: "security \<Rightarrow> cstr \<Rightarrow> link \<Rightarrow> (bool \<times> link) option" where
  "write_header s hdr t =
     (case write_link hdr t of
        (False, t1) \<Rightarrow> if sec_config_tag s \<noteq> Some ''kerberos'' then None else Some (False, t1)
      | (True, t1) \<Rightarrow> Some (write_link [LF] t1))"

text \<open>
  The error that the other side has sent, which is copied line by line, with a line feed behind the last one; \<open>buf\<close> is
  the part of a line that has been read. A line that fills the buffer ends the loop.
\<close>

fun lines_of :: "cstr \<Rightarrow> cstr \<Rightarrow> cstr \<times> cstr" where
  "lines_of acc [] = ([], acc)"
| "lines_of acc (c # s) =
     (if c = LF then (case lines_of [] s of (out, rest) \<Rightarrow> (acc @ [LF] @ out, rest)) else lines_of (acc @ [c]) s)"

function error_loop :: "cstr \<Rightarrow> rd list \<Rightarrow> cstr \<times> cstr" where
  "error_loop buf rs =
     (if nat SMALLBUFFER - 1 \<le> length buf then ([], buf)
      else
        (case read_some (nat SMALLBUFFER - 1 - length buf) rs of
           (Bytes (c # s), rs1) \<Rightarrow>
             (case lines_of [] (buf_str (buf @ c # s)) of (out, rest) \<Rightarrow>
               (case error_loop rest rs1 of (out1, rest1) \<Rightarrow> (out @ out1, rest1)))
         | _ \<Rightarrow> ([], buf)))"
  by pat_completeness auto
termination
  by (relation "measure (\<lambda>(b, rs). rsize rs)") (auto dest!: read_some_size [OF sym])

declare error_loop.simps [simp del]

text \<open>
  When nothing is read the buffer still has what it had before, \<open>stale\<close>: the length of the job, or what was in memory.
\<close>

definition error_text :: "cstr \<Rightarrow> rd list \<Rightarrow> cstr" where
  "error_text stale rs =
     (case read_some (nat SMALLBUFFER - 1) rs of
        (Bytes (c # s), _) \<Rightarrow> (case error_loop [] rs of (out, rest) \<Rightarrow> out @ (if rest \<noteq> [] then rest @ [LF] else []))
      | _ \<Rightarrow> (if stale \<noteq> [] then stale @ [LF] else []))"

text \<open>
  The end of a transfer: an error goes to the job and into the temporary file, and the caller reads the file in place of
  the connection.
\<close>

definition end_transfer :: "send_env \<Rightarrow> int \<Rightarrow> cstr \<Rightarrow> cstr \<Rightarrow> line_list option \<Rightarrow> link \<Rightarrow> int \<times> line_list option \<times> link" where
  "end_transfer env status err content ji l =
     (status, if err \<noteq> [] then map_option (put_error env (''Send_auth_transfer: '' @ err)) ji else ji,
      if 0 \<le> sock l then l\<lparr>reads := file_pieces (if err \<noteq> [] then err else content)\<rparr> else l)"

text \<open>
  \<open>job\<close> has the data files and the job; without it \<open>cmd\<close> is a request. \<open>None\<close> is the end of the process, or a
  job without a control file; the temporary file \<open>tempfile\<close> is that of \<open>SendJob\<close>, and \<open>junk\<close> what a buffer has before it is used.
\<close>

definition size_text :: "cstr \<Rightarrow> cstr" where
  "size_text t = line_text '' %0.0f'' [ADouble (int (length t))]"

definition Send_auth_transfer ::
  "send_env \<Rightarrow> bool \<Rightarrow> cstr \<Rightarrow> cstr \<Rightarrow> security \<Rightarrow> line_list \<Rightarrow> (line_list list \<times> line_list) option \<Rightarrow> cstr option \<Rightarrow> link
     \<Rightarrow> (int \<times> line_list option \<times> link) option" where
  "Send_auth_transfer env is_server tempfile junk s i job cmd0 l =
     (let cmd = map_option (\<lambda>c. case strrchr c LF of None \<Rightarrow> c | Some t \<Rightarrow> take (length c - length t) c) cmd0 in
      case (auth_header s is_server i cmd, sec_send s) of
        (Some hdr, Some client_send) \<Rightarrow>
          (case write_header s hdr (temp_link env) of
             None \<Rightarrow> None
           | Some (False, t1) \<Rightarrow>
               Some (end_transfer env JFAIL (plp_snprintf SMALLBUFFER (''Send_auth_transfer: '' @ quoted @ '' write failed - %s'') [AStr (Some tempfile), AStr (Some (sd_errno env))])
                      (sent t1) (map_option snd job) l)
           | Some (True, t1) \<Rightarrow>
               (case (case job of None \<Rightarrow> Some (0, None, t1)
                      | Some (files, ji) \<Rightarrow> map_option (\<lambda>(st, ji1, t2). (st, Some ji1, t2)) (Send_normal (env\<lparr>sd_filter := None\<rparr>) True files ji t1)) of
                  None \<Rightarrow> None
                | Some (st, ji, t2) \<Rightarrow>
                    if st \<noteq> 0 then Some (st, ji, l)
                    else
                      (let len = (if job = None then [] else size_text (sent t2)); line = opt_str (Find_str_value i CMD) @ len @ [LF] in
                       case exchange line l of
                         (n, ack, l1) \<Rightarrow>
                           if n \<noteq> 0 then
                             (let e = plp_snprintf SMALLBUFFER (''error '' @ quoted @ '' sending '' @ quoted @ '' to %s@%s'' @ [LF])
                                    [AStr (Some (Link_err_str n)), AStr (Some (chop_line line)), AStr (sd_printer env), AStr (sd_host env)]
                              in Some (end_transfer env n [] (e @ error_text (if job = None then junk else len) (reads l1)) ji (l1\<lparr>reads := []\<rparr>)))
                           else
                             (case client_send i (sent t2) l1 of
                                None \<Rightarrow> None
                              | Some (st1, e, l2, content) \<Rightarrow>
                                  Some (end_transfer env st1 e (case content of None \<Rightarrow> sent t2 | Some c \<Rightarrow> c) ji l2)))))
      | _ \<Rightarrow> None)"

subsection \<open>Sending a request\<close>

text \<open>
  \<open>class\<close> is the letter of the operation, \<open>format\<close> that of the request, and \<open>conn\<close> the connection, or the reason why there is none.
  The results are the text for the user, and the connection that is read for the answer.
\<close>

record request_env =
  rq_send :: send_env
  rq_auth :: auth_env
  rq_support :: "cstr option"
  rq_unprivileged :: bool
  rq_tempfile :: cstr
  rq_junk :: cstr

definition operation_name :: "char \<Rightarrow> cstr" where
  "operation_name c =
     (if c = CHR ''R'' then ''lpr'' else if c = CHR ''M'' then ''lprm'' else if c = CHR ''Q'' then ''lpq''
      else if c = CHR ''V'' then ''lpq -v'' else if c = CHR ''C'' then ''lpc'' else ''unknown'')"

definition upper_char :: "char \<Rightarrow> char" where
  "upper_char c = (if islower c then char_of (ccode c - 32) else c)"

definition network_help :: cstr where
  "network_help = [LF] @ ''Make sure the remote host supports the LPD protocol''"

definition port_help :: cstr where
  "port_help = [LF] @ ''and accepts connections from this host and from non-privileged (>1023) ports''"

definition query_line :: "send_env \<Rightarrow> char \<Rightarrow> cstr list \<Rightarrow> cstr" where
  "query_line env format options = format # opt_str (sd_printer env) @ concat (map (\<lambda>w. CHR '' '' # w) options) @ [LF]"

definition request_error :: "send_env \<Rightarrow> cstr \<Rightarrow> cstr" where
  "request_error env e =
     plp_snprintf SMALLBUFFER (''Printer '' @ [CHR 0x27] @ ''%s@%s'' @ [CHR 0x27] @ '' - '') [AStr (sd_printer env), AStr (sd_host env)] @ e @ [LF]"

definition Send_request ::
  "request_env \<Rightarrow> char \<Rightarrow> char \<Rightarrow> cstr list \<Rightarrow> cstr + link \<Rightarrow> (cstr \<times> link option) option" where
  "Send_request env class0 format options conn =
     (let class = upper_char class0; sv = ae_is_server (rq_auth env); fail = (\<lambda>e l. Some (request_error (rq_send env) e, l)) in
      case Fix_send_auth (rq_auth env) None None of
        None \<Rightarrow> None
      | Some (Inl e) \<Rightarrow> fail e None
      | Some (Inr auth) \<Rightarrow>
          if (case rq_support env of None \<Rightarrow> True | Some t \<Rightarrow> strchr (map upper_char t) class = None) then
            (if sv then Some ([], None)
             else fail (plp_snprintf (int LARGEBUFFER) (''no network support for '' @ quoted @ '' operation'') [AStr (Some (operation_name class))]) None)
          else
            (case conn of
               Inl e \<Rightarrow>
                 fail (''cannot open connection - '' @ e @ (if sv then [] else network_help @ (if rq_unprivileged env then port_help else []))) None
             | Inr l \<Rightarrow>
                 (let cmd = query_line (rq_send env) format options in
                  case auth of
                    Some (s, i) \<Rightarrow>
                      if sec_send s \<noteq> None then
                        (case Send_auth_transfer (rq_send env) sv (rq_tempfile env) (rq_junk env) s i None (Some cmd) l of
                           None \<Rightarrow> None
                         | Some (status, _, l1) \<Rightarrow> (if status \<noteq> 0 then fail [] (Some l1) else Some ([], Some l1)))
                      else
                        (case Link_send cmd None l of
                           (n, _, l1) \<Rightarrow> (if n \<noteq> 0 then fail (Link_err_str n) None else Some ([], Some l1)))
                  | None \<Rightarrow>
                      (case Link_send cmd None l of
                         (n, _, l1) \<Rightarrow> (if n \<noteq> 0 then fail (Link_err_str n) None else Some ([], Some l1))))))"

subsection \<open>What the server reads in the file\<close>

text \<open>
  The lines up to an empty one: \<open>key=value\<close>, or, in the format of Kerberos, lines that are known by their number. A job
  has no line for the request.
\<close>

definition header_line :: "bool \<Rightarrow> bool \<Rightarrow> nat \<Rightarrow> cstr \<Rightarrow> line_list \<Rightarrow> bool \<times> line_list" where
  "header_line is_job from_server n line hdr =
     (case strchr line (CHR ''='') of
        Some t \<Rightarrow> (False, Set_str_value hdr (take (length line - length t) line) (Some (Unescape (tl t))))
      | None \<Rightarrow>
          if n = 0 then
            (if is_job then (True, if from_server then Set_str_value hdr CLIENT (Some line) else hdr)
             else (False, Set_str_value hdr INPUT (Some line)))
          else if n = 1 then (True, Set_str_value hdr CLIENT (Some line))
          else (False, hdr))"

text \<open>The complete lines of the buffer, with the rest of it.\<close>

fun header_lines :: "bool \<Rightarrow> bool \<Rightarrow> cstr \<Rightarrow> nat \<Rightarrow> cstr \<Rightarrow> line_list \<Rightarrow> bool \<times> nat \<times> cstr \<times> line_list" where
  "header_lines is_job from_server acc n [] hdr = (False, n, acc, hdr)"
| "header_lines is_job from_server acc n (c # s) hdr =
     (if c \<noteq> LF then header_lines is_job from_server (acc @ [c]) n s hdr
      else if acc = [] then (True, n, s, hdr)
      else (case header_line is_job from_server n acc hdr of
              (True, hdr1) \<Rightarrow> (True, n + 1, s, hdr1)
            | (False, hdr1) \<Rightarrow> header_lines is_job from_server [] (n + 1) s hdr1))"

text \<open>
  \<open>start\<close> is what the buffer has in front of the next read. Its length is only set when a line has been taken out of the
  buffer, so that a line that is not complete is overwritten by the next read.
\<close>

function header_loop :: "bool \<Rightarrow> bool \<Rightarrow> cstr \<Rightarrow> nat \<Rightarrow> rd list \<Rightarrow> line_list \<Rightarrow> line_list" where
  "header_loop is_job from_server start n rs hdr =
     (if nat SMALLBUFFER - 1 \<le> length start then hdr
      else
        (case read_some (nat SMALLBUFFER - 1 - length start) rs of
           (Bytes (c # s), rs1) \<Rightarrow>
             (let t = buf_str (start @ c # s) in
              case header_lines is_job from_server [] n t hdr of
                (True, n1, rest, hdr1) \<Rightarrow> hdr1
              | (False, n1, rest, hdr1) \<Rightarrow> header_loop is_job from_server (if LF \<in> set t then rest else start) n1 rs1 hdr1)
         | _ \<Rightarrow> hdr))"
  by pat_completeness auto
termination
  by (relation "measure (\<lambda>(j, f, b, n, rs, h). rsize rs)") (auto dest!: read_some_size [OF sym])

declare header_loop.simps [simp del]

subsection \<open>Who the user is\<close>

text \<open>The header with the names that permission checks use, and the user, or the error.\<close>

record secure_env =
  se_printer :: cstr
  se_report :: cstr
  se_authtype :: "cstr option"
  se_scan :: "line_list \<Rightarrow> cstr \<Rightarrow> int \<times> cstr"
  se_dispatch :: "line_list \<Rightarrow> cstr \<Rightarrow> cstr"
  se_pieces :: "cstr \<Rightarrow> rd list option"
  se_tempfile :: cstr
  se_errno :: cstr

definition Check_secure_perms :: "secure_env \<Rightarrow> bool \<Rightarrow> line_list \<Rightarrow> int \<times> cstr \<times> line_list" where
  "Check_secure_perms env from_server options =
     (let authfrom = either_value options AUTHFROM FROM;
          user1 = Find_str_value options AUTHUSER;
          user2 = (if \<not> from_server \<and> user1 = None then authfrom else user1);
          authuser = (case user2 of None \<Rightarrow> Find_str_value options CLIENT | r \<Rightarrow> r);
          o1 = Set_str_value (Set_str_value (Set_str_value options AUTHTYPE (se_authtype env)) AUTHFROM authfrom) AUTHUSER authuser
      in if Find_str_value o1 AUTHUSER = None then
           (JABORT, plp_snprintf SMALLBUFFER ''Printer %s@%s: missing authentication client id'' [AStr (Some (se_printer env)), AStr (Some (se_report env))], o1)
         else (0, [], o1))"

text \<open>
  The work that a plug-in calls for, on the file it has received: \<open>se_scan\<close> is \<open>Scan_block_file\<close>, which gives a
  status and an error, \<open>se_dispatch\<close> the output of a request. The result is the status and the new content of the file.
  Only the first opening of the file can fail; the lines of the header and the work itself use later ones.
\<close>

definition Do_secure_work :: "secure_env \<Rightarrow> bool \<Rightarrow> bool \<Rightarrow> secure_work" where
  "Do_secure_work env is_job from_server hdr content =
     (case se_pieces env content of
        None \<Rightarrow> (JFAIL, plp_snprintf SMALLBUFFER (''Do_secure_work: reopen of '' @ quoted @ '' failed - %s'')
          [AStr (Some (se_tempfile env)), AStr (Some (se_errno env))])
      | Some rs \<Rightarrow>
          (case Check_secure_perms env from_server (header_loop is_job from_server [] 0 rs hdr) of
             (status, error, hdr1) \<Rightarrow>
               if status \<noteq> 0 then (status, error)
               else if is_job then se_scan env hdr1 content
               else (0, case Find_str_value hdr1 INPUT of None \<Rightarrow> [] | Some request \<Rightarrow> se_dispatch env hdr1 request)))"

subsection \<open>The request for a secure transfer\<close>

text \<open>
  \<open>rx_setup\<close> is \<open>Setup_printer\<close>, \<open>rx_number\<close> the C library's \<open>strtod\<close>. The result has the status, what is sent to the client when it is not
  0, and for what header and file the work was done, and whether a queue server is started.
\<close>

record receive_env =
  rx_auth :: auth_env
  rx_setup :: "cstr \<Rightarrow> cstr option"
  rx_spool_control :: line_list
  rx_max_size :: int
  rx_minfree :: int
  rx_space :: int
  rx_number :: "cstr \<Rightarrow> int"
  rx_work :: "bool \<Rightarrow> bool \<Rightarrow> cstr \<Rightarrow> secure_work"

record receive_end =
  re_status :: int
  re_link :: link
  re_ran :: "(line_list \<times> cstr) option"
  re_started :: bool

definition refuse_transfer :: "int \<Rightarrow> cstr \<Rightarrow> link \<Rightarrow> receive_end" where
  "refuse_transfer ack msg l =
     (case Link_send (char_of (if ack = 0 then ACK_FAIL else ack) # msg) None l of
        (_, _, l1) \<Rightarrow> \<lparr>re_status = JFAIL, re_link = l1, re_ran = None, re_started = False\<rparr>)"

text \<open>The words of the request are the printer, who sends it, the user, the authentication, and for a job its size, which is a
  \<open>double\<close>, so that the limit is compared without rounding.\<close>

definition job_refused :: "receive_env \<Rightarrow> cstr \<Rightarrow> (int \<times> cstr) option" where
  "job_refused env jobsize =
     (let n = rx_number env jobsize; errlen = SMALLBUFFER - 1; pr = ae_printer (rx_auth env) in
      if Sp_disabled (rx_spool_control env) \<noteq> 0 then Some (ACK_RETRY, plp_snprintf errlen ''%s: spooling disabled'' [AStr pr])
      else if 0 < rx_max_size env \<and> rx_max_size env * 1024 < n + 1023 then
        Some (ACK_RETRY, plp_snprintf errlen ''%s: job size %s is larger than %d K'' [AStr pr, AStr (Some (dec_text n)), AInt (rx_max_size env)])
      else if \<not> Check_space n (rx_minfree env) (rx_space env) then
        Some (ACK_RETRY, plp_snprintf errlen ''%s: insufficient file space'' [AStr pr])
      else None)"

definition Receive_secure :: "receive_env \<Rightarrow> cstr \<Rightarrow> link \<Rightarrow> receive_end option" where
  "Receive_secure env input l =
     (let args = Split [] (tl input) Whitespace False None False NUL False None; errlen = SMALLBUFFER - 1;
          bad = (\<lambda>fmt arg. Some (refuse_transfer ACK_FAIL (plp_snprintf errlen fmt [AStr (Some arg)]) l)) in
      if length args \<noteq> 5 \<and> length args \<noteq> 4 then bad (''bad command line '' @ quoted) input
      else
        (let printer = args ! 0; authtype = Unescape (args ! 3); is_job = (length args = 5);
             from_server = (take 1 (args ! 1) = ''F'') in
         if Is_clean_name (Some printer) \<noteq> None then bad (''bad printer name '' @ quoted) input
         else if rx_setup env printer \<noteq> None \<and> is_job then bad (''bad printer '' @ quoted) printer
         else
           (case FindSecurity (ae_table (rx_auth env)) authtype of
              None \<Rightarrow> None
            | Some None \<Rightarrow> bad (''unsupported authentication '' @ quoted) authtype
            | Some (Some s) \<Rightarrow>
                (case sec_receive s of
                   None \<Rightarrow> bad (''no receive method supported for '' @ quoted) authtype
                 | Some server_receive \<Rightarrow>
                     (case (if is_job then job_refused env (args ! 4) else None) of
                        Some (ack, msg) \<Rightarrow> Some (refuse_transfer ack msg l)
                      | None \<Rightarrow>
                          (case server_receive (auth_options (rx_auth env) s) [] (rx_work env is_job from_server authtype) l of
                             None \<Rightarrow> None
                           | Some (status, error, l1, work) \<Rightarrow>
                               if status \<noteq> 0 then Some ((refuse_transfer ACK_FAIL error l1)\<lparr>re_status := status, re_ran := work\<rparr>)
                               else Some \<lparr>re_status = 0, re_link = l1, re_ran = work, re_started = is_job\<rparr>))))))"

subsection \<open>The lines of the header are read back\<close>

definition escaped :: "cstr option \<Rightarrow> cstr" where
  "escaped v = (case v of None \<Rightarrow> [] | Some s \<Rightarrow> concat (map (TextCodec.escape_char 1) s))"

lemma Escape_1: "Escape v 1 = Some (if escaped v = [] then None else Some (escaped v))"
proof (cases v)
  case (Some s)
  have e: "TextCodec.escape_char 1 c \<noteq> []" for c using escape_char_stage [of 1 c] by (auto simp: stage_def)
  show ?thesis
  proof (cases s)
    case (Cons c t)
    then have "escaped v \<noteq> []" using Some e [of c] by (simp add: escaped_def)
    then show ?thesis using Some Cons Escape_fits [of 1 s] by (simp add: Escape_def escaped_def Let_def)
  qed (use Some in \<open>simp add: Escape_def escaped_def\<close>)
qed (simp add: Escape_def escaped_def)

lemma Put_in_auth_text: "Put_in_auth key v = Some (key @ ''='' @ escaped v @ [LF])"
  by (simp add: Put_in_auth_def Escape_1)

lemma escaped_facts: "LF \<notin> set (escaped v)" "NUL \<notin> set (escaped v)"
proof -
  have e: "c \<in> set (TextCodec.escape_char 1 x) \<Longrightarrow> c = CHR ''?'' \<or> c = CHR ''%'' \<or> isalnum c" for c x
    using escape_char_stage [of 1 x] hex2_alnum [of c x] by (auto simp: stage_def split: if_splits)
  have "\<not> isalnum LF" "\<not> isalnum NUL" by code_simp+
  then show "LF \<notin> set (escaped v)" "NUL \<notin> set (escaped v)"
    using e by (auto simp: escaped_def NUL_def split: option.splits)
qed

lemma Unescape_escaped: "val_ok v \<Longrightarrow> Unescape (escaped v) = opt_str v"
proof (cases v)
  case (Some s)
  assume "val_ok v"
  then have "cstr_ok s" using Some by simp
  from Unescape_first [OF this, of 0] Unescape_power [OF this, of 0] show ?thesis using Some
    by (simp add: escaped_def)
qed (simp add: escaped_def Unescape_def buf_str_def)

definition field_line :: "cstr \<times> cstr option \<Rightarrow> cstr" where
  "field_line kv = (case kv of (k, v) \<Rightarrow> k @ ''='' @ escaped v @ [LF])"

definition header_text :: "(cstr \<times> cstr option) list \<Rightarrow> cstr" where
  "header_text kvs = concat (map field_line kvs) @ [LF]"

definition field_ok :: "cstr \<times> cstr option \<Rightarrow> bool" where
  "field_ok kv = (case kv of (k, v) \<Rightarrow> val_ok v \<and> CHR ''='' \<notin> set k \<and> LF \<notin> set k \<and> NUL \<notin> set k)"

lemma header_lines_line:
  "LF \<notin> set t \<Longrightarrow> header_lines j f acc n (t @ s) hdr = header_lines j f (acc @ t) n s hdr"
  by (induction t arbitrary: acc) auto

lemma Set_str_value_opt: "Set_str_value hdr k (Some (opt_str v)) = Set_str_value hdr k v"
  by (cases v) (auto simp: Set_str_value_def)

lemma header_lines_field:
  assumes "field_ok (k, v)"
  shows "header_lines j f [] n (field_line (k, v) @ s) hdr = header_lines j f [] (n + 1) s (Set_str_value hdr k v)"
proof -
  let ?t = "k @ ''='' @ escaped v"
  have "LF \<notin> set ?t" using assms escaped_facts(1) [of v] by (simp add: field_ok_def)
  from header_lines_line [OF this] have "header_lines j f [] n (field_line (k, v) @ s) hdr = header_lines j f ?t n (LF # s) hdr"
    by (simp add: field_line_def)
  moreover have "strchr ?t (CHR ''='') = Some (CHR ''='' # escaped v)"
    using assms by (simp add: field_ok_def) (induction k; auto)
  ultimately show ?thesis using assms by (simp add: header_line_def Unescape_escaped field_ok_def Set_str_value_opt)
qed

lemma header_lines_text:
  "list_all field_ok kvs \<Longrightarrow> \<exists>m. header_lines j f [] n (header_text kvs @ s) hdr = (True, m, s, put_all Set_str_value hdr kvs)"
proof (induction kvs arbitrary: n hdr)
  case (Cons kv kvs)
  obtain k v where kv: "kv = (k, v)" by fastforce
  have "header_lines j f [] n (header_text (kv # kvs) @ s) hdr = header_lines j f [] (n + 1) (header_text kvs @ s) (Set_str_value hdr k v)"
    using Cons.prems header_lines_field [of k v j f n "header_text kvs @ s" hdr] by (simp add: kv header_text_def)
  with Cons show ?case by (simp add: kv)
qed (simp add: header_text_def)

lemma header_text_clean: "list_all field_ok kvs \<Longrightarrow> NUL \<notin> set (header_text kvs)"
  using escaped_facts(2) by (induction kvs) (auto simp: header_text_def field_line_def field_ok_def NUL_def)

lemma header_loop_text:
  assumes "list_all field_ok kvs" "length (header_text kvs) \<le> 511"
  shows "header_loop j f [] 0 (file_pieces (header_text kvs @ body)) hdr = put_all Set_str_value hdr kvs"
proof -
  let ?t = "header_text kvs @ take (511 - length (header_text kvs)) body"
  have ne: "header_text kvs \<noteq> []" by (simp add: header_text_def)
  have r: "\<exists>rs. read_some 511 (file_pieces (header_text kvs @ body)) = (Bytes ?t, rs)"
    using assms(2) ne by (auto simp: file_pieces_def)
  then obtain rs where rs: "read_some 511 (file_pieces (header_text kvs @ body)) = (Bytes ?t, rs)" ..
  have "\<exists>u. buf_str ?t = header_text kvs @ u"
  proof -
    have "\<forall>c\<in>set (header_text kvs). c \<noteq> NUL" using header_text_clean [OF assms(1)] by metis
    then show ?thesis by (simp add: buf_str_def takeWhile_append)
  qed
  then obtain u where u: "buf_str ?t = header_text kvs @ u" ..
  obtain c s where cs: "?t = c # s" using ne by (cases ?t) auto
  obtain m where "header_lines j f [] 0 (header_text kvs @ u) hdr = (True, m, u, put_all Set_str_value hdr kvs)"
    using header_lines_text [OF assms(1)] by blast
  then show ?thesis using rs u unfolding cs by (subst header_loop.simps) (simp add: SMALLBUFFER_def)
qed

text \<open>What the client says of a transfer.\<close>

definition auth_fields :: "bool \<Rightarrow> line_list \<Rightarrow> cstr option \<Rightarrow> (cstr \<times> cstr option) list" where
  "auth_fields is_server i cmd =
     (DESTINATION, Find_str_value i DESTINATION) # (if is_server then [(SERVER, Find_str_value i FROM)] else [])
     @ (CLIENT, Find_str_value i CLIENT) # (if cmd \<noteq> None then [(INPUT, cmd)] else [])"

lemma auth_header_text:
  "sec_config_tag s \<noteq> Some ''kerberos'' \<Longrightarrow> map_option (\<lambda>t. t @ [LF]) (auth_header s is_server i cmd) = Some (header_text (auth_fields is_server i cmd))"
  by (simp add: auth_header_def Put_in_auth_text auth_fields_def header_text_def field_line_def)

lemma auth_keys [simp]: "key_ok DESTINATION" "key_ok SERVER" "key_ok CLIENT" "key_ok INPUT" "key_ok FROM" "key_ok AUTHUSER" "key_ok AUTHFROM" "key_ok AUTHTYPE"
  by code_simp+

lemma auth_keys_differ [simp]:
  "fold_codes DESTINATION \<noteq> fold_codes SERVER" "fold_codes DESTINATION \<noteq> fold_codes CLIENT" "fold_codes DESTINATION \<noteq> fold_codes INPUT"
  "fold_codes DESTINATION \<noteq> fold_codes FROM" "fold_codes DESTINATION \<noteq> fold_codes AUTHUSER" "fold_codes DESTINATION \<noteq> fold_codes AUTHFROM"
  "fold_codes DESTINATION \<noteq> fold_codes AUTHTYPE" "fold_codes SERVER \<noteq> fold_codes CLIENT" "fold_codes SERVER \<noteq> fold_codes INPUT"
  "fold_codes SERVER \<noteq> fold_codes FROM" "fold_codes SERVER \<noteq> fold_codes AUTHUSER" "fold_codes SERVER \<noteq> fold_codes AUTHFROM"
  "fold_codes SERVER \<noteq> fold_codes AUTHTYPE" "fold_codes CLIENT \<noteq> fold_codes INPUT" "fold_codes CLIENT \<noteq> fold_codes FROM"
  "fold_codes CLIENT \<noteq> fold_codes AUTHUSER" "fold_codes CLIENT \<noteq> fold_codes AUTHFROM" "fold_codes CLIENT \<noteq> fold_codes AUTHTYPE"
  "fold_codes INPUT \<noteq> fold_codes FROM" "fold_codes INPUT \<noteq> fold_codes AUTHUSER" "fold_codes INPUT \<noteq> fold_codes AUTHFROM"
  "fold_codes INPUT \<noteq> fold_codes AUTHTYPE" "fold_codes FROM \<noteq> fold_codes AUTHUSER" "fold_codes FROM \<noteq> fold_codes AUTHFROM"
  "fold_codes FROM \<noteq> fold_codes AUTHTYPE" "fold_codes AUTHUSER \<noteq> fold_codes AUTHFROM" "fold_codes AUTHUSER \<noteq> fold_codes AUTHTYPE"
  "fold_codes AUTHFROM \<noteq> fold_codes AUTHTYPE"
  by code_simp+

lemmas auth_keys_differ_sym [simp] = auth_keys_differ [symmetric]

lemma kv_put_all: "put_all put s ((k, v) # kvs) = put_all put (put s k v) kvs" "put_all put s [] = s"
  by (simp_all add: put_all_def)

definition plain_info :: "line_list \<Rightarrow> bool" where
  "plain_info i \<longleftrightarrow> val_ok (Find_str_value i DESTINATION) \<and> val_ok (Find_str_value i FROM) \<and> val_ok (Find_str_value i CLIENT)"

lemma auth_fields_ok: "plain_info i \<Longrightarrow> val_ok cmd \<Longrightarrow> list_all field_ok (auth_fields is_server i cmd)"
proof -
  have "list_all (\<lambda>k. CHR ''='' \<notin> set k \<and> LF \<notin> set k \<and> NUL \<notin> set k) [DESTINATION, SERVER, CLIENT, INPUT]" by code_simp
  then show "plain_info i \<Longrightarrow> val_ok cmd \<Longrightarrow> list_all field_ok (auth_fields is_server i cmd)"
    by (auto simp: auth_fields_def field_ok_def plain_info_def)
qed

text \<open>
  The user for permission checks: for a client the sender that the plug-in has verified, whatever the client says of itself; for
  another server, the client that it names. The request is the one of the client.
\<close>

lemma header_user:
  fixes sv :: bool and i :: line_list and cmd hdr
  defines "h \<equiv> put_all Set_str_value hdr (auth_fields sv i cmd)"
  assumes "kv_inv hdr" "plain_info i" "val_ok cmd" "Find_str_value hdr AUTHUSER = None" "Find_str_value hdr AUTHFROM = None"
    and "cmd = None \<longrightarrow> Find_str_value hdr INPUT = None"
  shows "kv_inv h" "Find_str_value h AUTHUSER = None" "Find_str_value h AUTHFROM = None" "Find_str_value h FROM = Find_str_value hdr FROM"
    "Find_str_value h CLIENT = norm_val (Find_str_value i CLIENT)" "Find_str_value h INPUT = norm_val cmd"
  using assms(2-) unfolding h_def
  by (auto simp: auth_fields_def kv_put_all kv.get_put kv.put_inv plain_info_def)

lemma client_user:
  fixes i :: line_list and cmd hdr env
  defines "h \<equiv> put_all Set_str_value hdr (auth_fields False i cmd)"
  assumes "kv_inv hdr" "plain_info i" "val_ok cmd" "Find_str_value hdr AUTHUSER = None" "Find_str_value hdr AUTHFROM = None"
    and "Find_str_value hdr INPUT = None" "Find_str_value hdr FROM = Some name" "cstr_ok name" "name \<noteq> []" "val_ok (se_authtype env)"
  shows "\<exists>h2. Check_secure_perms env False h = (0, [], h2) \<and> Find_str_value h2 AUTHUSER = Some name \<and> Find_str_value h2 AUTHFROM = Some name
    \<and> Find_str_value h2 INPUT = norm_val cmd \<and> Find_str_value h2 CLIENT = norm_val (Find_str_value i CLIENT)"
proof -
  note f = header_user [of hdr i cmd False, folded h_def]
  have n: "norm_val (Some name) = Some name" using assms(10) by (cases name) auto
  show ?thesis using assms(2-9,11) f n
    by (simp add: Check_secure_perms_def either_value_def Let_def kv.get_put kv.put_inv)
qed

text \<open>A client of which the file says \<open>authuser=root\<close> is \<open>root\<close>: the lines of the file are not compared with what the plug-in has verified.\<close>

lemma client_names_itself:
  "header_loop False False [] 0 (file_pieces (header_text [(''authuser'', Some ''root'')])) [''from=ann''] = [''authuser=root'', ''from=ann'']"
  "val_ok (se_authtype env) \<Longrightarrow> Find_str_value (snd (snd (Check_secure_perms env False [''authuser=root'', ''from=ann'']))) AUTHUSER = Some ''root''"
proof -
  have "list_all field_ok [(''authuser'', Some ''root'')]" "length (header_text [(''authuser'', Some ''root'')]) \<le> 511"
    "put_all Set_str_value [''from=ann''] [(''authuser'', Some ''root'')] = [''authuser=root'', ''from=ann'']" by code_simp+
  from header_loop_text [OF this(1,2), of False False "[]" "[''from=ann'']"] this(3)
  show "header_loop False False [] 0 (file_pieces (header_text [(''authuser'', Some ''root'')])) [''from=ann''] = [''authuser=root'', ''from=ann'']"
    by simp
  have s: "Set_str_value (Set_str_value [] FROM (Some ''ann'')) AUTHUSER (Some ''root'') = [''authuser=root'', ''from=ann'']"
    "Find_str_value [''authuser=root'', ''from=ann''] AUTHUSER = Some ''root''"
    "either_value [''authuser=root'', ''from=ann''] AUTHFROM FROM = Some ''ann''" by code_simp+
  have v: "val_ok (Some ''root'')" "val_ok (Some ''ann'')" "norm_val (Some ''root'') = Some ''root''" by code_simp+
  have "kv_inv [''authuser=root'', ''from=ann'']" unfolding s(1) [symmetric] by (intro kv.put_inv v auth_keys) simp
  then show "val_ok (se_authtype env) \<Longrightarrow> Find_str_value (snd (snd (Check_secure_perms env False [''authuser=root'', ''from=ann'']))) AUTHUSER = Some ''root''"
    using v s by (simp add: Check_secure_perms_def Let_def kv.get_put kv.put_inv)
qed

subsection \<open>A request from end to end\<close>

lemma strrchr_last: "c \<noteq> NUL \<Longrightarrow> strrchr (s @ [c]) c = Some [c]"
  by (induction s) auto

context auth_plugin
begin

lemma request_sent:
  assumes "ok s" "sec_config_tag sec \<noteq> Some ''kerberos''" "sec_send sec = Some f" "f i = send s"
    and "sd_temp_writes env = []" "connected l (NUL # reply s st content)"
  shows "\<exists>status l1. Send_auth_transfer env sv tempfile junk sec i None (Some (c @ [LF])) l = Some (status, None, l1)
    \<and> sent l1 = sent l @ opt_str (Find_str_value i CMD) @ LF # wire s (header_text (auth_fields sv i (Some c)))
    \<and> reads l1 = file_pieces content"
proof -
  let ?line = "opt_str (Find_str_value i CMD) @ [LF]" and ?t = "header_text (auth_fields sv i (Some c))"
  obtain rs where rs: "read_some 1 (reads l) = (Bytes [NUL], rs)" "reads_as rs (reply s st content)"
    using read_one_whole [of "reads l" NUL "reply s st content"] assms(6) by (auto simp: connected_def reads_as_def)
  define k where "k = put_link ?line (l\<lparr>reads := rs\<rparr>)"
  have e: "exchange ?line l = (0, 0, k)"
    using rs(1) assms(6) by (simp add: exchange_def Link_send_def write_link_def read_link_def connected_def put_link_def k_def)
  have "connected k (reply s st content)" using rs(2) assms(6) by (simp add: connected_def k_def put_link_def)
  from send_wire [OF assms(1) this, of ?t] obtain status
    where w: "send s ?t k = Some (status, [], k\<lparr>sent := sent k @ wire s ?t, reads := []\<rparr>, Some content)" ..
  obtain hdr where hdr: "auth_header sec sv i (Some c) = Some hdr" "?t = hdr @ [LF]"
    using auth_header_text [OF assms(2), of sv i "Some c"] by auto
  have t: "write_header sec hdr (temp_link env) = Some (True, put_link ?t (temp_link env))" "sent (put_link ?t (temp_link env)) = ?t"
    using assms(5) by (simp_all add: write_header_def free_writes temp_link_def put_link_def hdr(2))
  have "strrchr (c @ [LF]) LF = Some [LF]" by (rule strrchr_last) (simp add: NUL_def)
  then show ?thesis
    using assms(6) e w t by (simp add: Send_auth_transfer_def Let_def hdr(1) assms(3,4) end_transfer_def
        k_def put_link_def connected_def)
qed

lemma request_received:
  assumes "ok s" "sec_receive sec = Some f" "f (auth_options (rx_auth env) sec) = receive s"
    and "Split [] (tl input) Whitespace False None False NUL False None = [pr, kind, uname, auth_name]"
    and "Is_clean_name (Some pr) = None" "FindSecurity (ae_table (rx_auth env)) (Unescape auth_name) = Some (Some sec)"
    and "rx_work env False (take 1 kind = ''F'') (Unescape auth_name) (sender s []) t = (st, content)" "connected l (wire s t)"
  shows "\<exists>r. Receive_secure env input l = Some r \<and> re_ran r = Some (sender s [], t)
    \<and> prefix (sent l @ NUL # reply s st content) (sent (re_link r))"
proof -
  from receive_work [OF assms(1,8), of "rx_work env False (take 1 kind = ''F'') (Unescape auth_name)", OF assms(7)]
  obtain status where r: "receive s [] (rx_work env False (take 1 kind = ''F'') (Unescape auth_name)) l
      = Some (status, [], l\<lparr>sent := sent l @ NUL # reply s st content, reads := []\<rparr>, Some (sender s [], t))" ..
  let ?l = "l\<lparr>sent := sent l @ NUL # reply s st content, reads := []\<rparr>"
  have "Link_send (char_of ACK_FAIL # []) None ?l = (0, None, put_link [char_of ACK_FAIL] ?l)"
    using assms(8) by (simp add: Link_send_def free_writes connected_def put_link_def)
  then show ?thesis using r assms(2-6)
    by (simp add: Receive_secure_def refuse_transfer_def put_link_def ACK_FAIL_def split: if_splits)
qed

end

lemma Find_Nil: "Find_str_value [] k = None"
  by code_simp


subsection \<open>An example\<close>

definition demo_request :: cstr where
  "demo_request = CHR 0x08 # ''lp C ann md5''"

definition demo_info :: line_list where
  "demo_info = [''client=ann'', ''cmd='' @ demo_request, ''destination=srv'', ''from=ann'']"

definition demo_session :: auth_session where
  "demo_session = \<lparr>as_client = demo_md5_env False, as_info = demo_info, as_server = demo_md5_env True, as_config = [''server_keyfile=/s''],
     as_challenge = demo_challenge, as_pieces = file_pieces, as_file = demo_file\<rparr>"

definition demo_secure_env :: secure_env where
  "demo_secure_env = \<lparr>se_printer = ''lp'', se_report = ''h'', se_authtype = Some ''md5'', se_scan = (\<lambda>h t. (0, [])),
     se_dispatch = (\<lambda>h r. ''ok''), se_pieces = (\<lambda>t. Some (file_pieces t)), se_tempfile = [], se_errno = []\<rparr>"

definition demo_auth_env :: auth_env where
  "demo_auth_env = \<lparr>ae_is_server = True, Auth_forward = None, Auth = None, ae_table = SecuritySupported demo_session, ae_defaults = [],
     ae_config = [''md5_server_keyfile=/s''], ae_entry = [], ae_today = [], ae_vars = \<lparr>int_vars = (\<lambda>_. 0), str_vars = (\<lambda>_. None)\<rparr>,
     ae_printer = Some ''lp'', ae_logname = None, ae_authuser = None, ae_errlen = 511\<rparr>"

definition demo_rx_env :: receive_env where
  "demo_rx_env = \<lparr>rx_auth = demo_auth_env, rx_setup = (\<lambda>_. None), rx_spool_control = [], rx_max_size = 0, rx_minfree = 0, rx_space = 0,
     rx_number = (\<lambda>_. 0), rx_work = (\<lambda>j f a. Do_secure_work (demo_secure_env\<lparr>se_authtype := Some a\<rparr>) j f)\<rparr>"

lemma demo_session_ok: "md5_ok demo_session"
proof -
  have "send_key (demo_md5_env False) demo_info = Inr (''ann'', demo_key)" by (rule demo_send_key) code_simp
  moreover have "demo_key \<noteq> []" by (simp add: demo_key_def)
  moreover have "whole (file_pieces t) \<and> flat (file_pieces t) = t" for t by (simp add: file_pieces_def)
  ultimately show ?thesis using demo_md5_facts demo_server_keyfile demo_receive_key
    by (simp add: md5_ok_def md5_name_def md5_shared_key_def demo_session_def test_ok_def reads_as_def)
qed

lemma demo_session_name: "md5_name demo_session = ''ann''"
proof -
  have "send_key (demo_md5_env False) demo_info = Inr (''ann'', demo_key)" by (rule demo_send_key) code_simp
  then show ?thesis by (simp add: md5_name_def demo_session_def)
qed

definition demo_lpq :: cstr where
  "demo_lpq = CHR 0x04 # ''lp''"

definition demo_auth_file :: cstr where
  "demo_auth_file = header_text (auth_fields False demo_info (Some demo_lpq))"


end
